(* ===== verification/Prelude.thy ===== *)
theory Prelude
  imports Main "HOL-Library.Sublist"
begin

text \<open>
  What the component theories share: the error values the Go code returns, the decimal and
  duration formatting of \<open>fmt\<close> and \<open>time\<close> that its messages use, and the two SQL
  statements every store is made of (a keyed lookup and an \<open>UPDATE ... WHERE\<close> with its
  \<open>RowsAffected\<close>), over tables kept as lists of rows in insertion order.

  Conventions of the whole development:
  \<^item> a Go \<open>(T, error)\<close> result is \<open>error + 'a\<close>, \<open>Inl\<close> for the error;
  \<^item> a \<open>time.Time\<close> is the \<open>int\<close> of nanoseconds since 1 January of year 1, so that Go's zero
    time is 0; a clock reading is an argument of the operation that makes it; durations are \<open>int\<close> nanoseconds as in Go's \<open>time.Duration\<close>;
  \<^item> a statement sent to the database may fail for reasons outside the program: the
    argument \<open>f :: db_fault\<close> of a store operation is \<open>Some e\<close> when that happens.
\<close>

named_theorems table_simps
named_theorems store_defs

subsection \<open>Errors\<close>

datatype error =
    ErrNotFound
  | ErrDb string
  | ErrCtx
  | ErrQueueClosed
  | ErrAgentNotClaimable
  | ErrTransitionSkipped
  | ErrForbidden string
  | ErrUnauthorized
  | ErrMsg string

type_synonym 'a result = "error + 'a"
type_synonym db_fault = "string option"

fun is_ok :: "'e + 'a \<Rightarrow> bool" where
  "is_ok (Inl e) = False"
| "is_ok (Inr a) = True"

lemma is_ok_iff: "is_ok r \<longleftrightarrow> (\<exists>a. r = Inr a)"
  by (cases r) simp_all

text \<open>\<open>error.Error()\<close>, for the messages that embed an error with \<open>%v\<close>.\<close>

fun error_string :: "error \<Rightarrow> string" where
  "error_string ErrNotFound = ''not found''"
| "error_string (ErrDb s) = s"
| "error_string ErrCtx = ''context canceled''"
| "error_string ErrQueueClosed = ''queue closed''"
| "error_string ErrAgentNotClaimable = ''agent not found or not in Queued status''"
| "error_string ErrTransitionSkipped =
     ''lifecycle transition skipped: agent not in expected state''"
| "error_string (ErrForbidden s) = s"
| "error_string ErrUnauthorized = ''unauthorized: no subject in context''"
| "error_string (ErrMsg s) = s"

text \<open>
  How an operation can end: \<open>Blocks\<close> when the goroutine waits for another one, \<open>Panics\<close> when a nil
  pointer is dereferenced or a slice is out of range.
\<close>

datatype 'a run = Returns 'a | Blocks | Panics

text \<open>\<open>strings.Contains\<close>.\<close>

fun contains :: "string \<Rightarrow> string \<Rightarrow> bool" where
  "contains [] sub = (sub = [])"
| "contains (c # cs) sub = (prefix sub (c # cs) \<or> contains cs sub)"

subsection \<open>Formatting integers\<close>

definition digit :: "nat \<Rightarrow> char" where
  "digit n = char_of (48 + n)"

fun nat_string :: "nat \<Rightarrow> string" where
  "nat_string n = (if n < 10 then [digit n] else nat_string (n div 10) @ [digit (n mod 10)])"

declare nat_string.simps [simp del]

definition itoa :: "int \<Rightarrow> string" where
  "itoa i = (if i < 0 then CHR ''-'' # nat_string (nat (- i)) else nat_string (nat i))"

fun digits_value :: "string \<Rightarrow> nat" where
  "digits_value s = foldl (\<lambda>a c. 10 * a + (of_char c - 48)) 0 s"

lemma of_char_digit: "n < 10 \<Longrightarrow> (of_char (digit n) :: nat) = 48 + n"
  by (simp add: digit_def)

lemma digits_value_nat_string: "digits_value (nat_string n) = n"
proof (induction n rule: nat_string.induct)
  case (1 n)
  show ?case
  proof (cases "n < 10")
    case True
    then show ?thesis by (simp add: nat_string.simps [of n] of_char_digit)
  next
    case False
    with "1.IH" show ?thesis by (simp add: nat_string.simps [of n] of_char_digit)
  qed
qed

lemma nat_string_inject: "nat_string m = nat_string n \<longleftrightarrow> m = n"
  by (metis digits_value_nat_string)

lemma nat_string_digits: "c \<in> set (nat_string n) \<Longrightarrow> \<exists>d<10. c = digit d"
proof (induction n rule: nat_string.induct)
  case (1 n)
  show ?case
  proof (cases "n < 10")
    case True
    with "1.prems" show ?thesis by (auto simp: nat_string.simps [of n])
  next
    case False
    with "1.prems" have "c \<in> set (nat_string (n div 10)) \<or> c = digit (n mod 10)"
      by (simp add: nat_string.simps [of n] disj_commute)
    moreover have "n mod 10 < 10" by simp
    ultimately show ?thesis using "1.IH" [OF False] by blast
  qed
qed

lemma digit_neq_minus: "d < 10 \<Longrightarrow> digit d \<noteq> CHR ''-''"
proof
  assume "d < 10" "digit d = CHR ''-''"
  then have "(48 + d :: nat) = of_char (CHR ''-'')" by (metis of_char_digit)
  then show False by simp
qed

lemma minus_notin_nat_string: "CHR ''-'' \<notin> set (nat_string n)"
  using nat_string_digits digit_neq_minus by metis

lemma nat_string_nonempty: "nat_string n \<noteq> []"
  by (subst nat_string.simps) simp

lemma itoa_inject: "itoa i = itoa j \<longleftrightarrow> i = j"
proof
  assume eq: "itoa i = itoa j"
  have no: "\<And>s n. CHR ''-'' # s \<noteq> nat_string n"
    using minus_notin_nat_string by (metis list.set_intros(1))
  show "i = j"
    using eq no no [symmetric]
    by (auto simp: itoa_def nat_string_inject split: if_splits)
qed simp

subsection \<open>Quoting: the verb \<open>%q\<close>\<close>

text \<open>
  \<open>strconv.Quote\<close> on a UTF-8 string: ASCII is escaped as Go escapes it, the bytes of a
  character outside ASCII are copied (Go copies them when the character is printable).
\<close>

definition hex_digit :: "nat \<Rightarrow> char" where
  "hex_digit n = (if n < 10 then digit n else char_of (87 + n))"

definition quote_char :: "char \<Rightarrow> string" where
  "quote_char c =
     (let n = (of_char c :: nat); esc = (\<lambda>d. [CHR 0x5C, d])
      in if n = 34 \<or> n = 92 then esc c
         else if n = 7 then esc (CHR ''a'')
         else if n = 8 then esc (CHR ''b'')
         else if n = 9 then esc (CHR ''t'')
         else if n = 10 then esc (CHR ''n'')
         else if n = 11 then esc (CHR ''v'')
         else if n = 12 then esc (CHR ''f'')
         else if n = 13 then esc (CHR ''r'')
         else if n < 32 \<or> n = 127 then [CHR 0x5C, CHR ''x'', hex_digit (n div 16), hex_digit (n mod 16)]
         else [c])"

definition quote :: "string \<Rightarrow> string" where
  "quote s = [CHR 0x22] @ concat (map quote_char s) @ [CHR 0x22]"

subsection \<open>Formatting durations: \<open>time.Duration.Round\<close> and \<open>String\<close>\<close>

definition second_ns :: int where "second_ns = 1000000000"

definition round_duration :: "int \<Rightarrow> int \<Rightarrow> int" where
  "round_duration m d =
     (if m \<le> 0 then d
      else let a = \<bar>d\<bar>; r = a mod m; b = (if r + r < m then a - r else a + m - r)
           in if d < 0 then - b else b)"

fun pad_left :: "nat \<Rightarrow> string \<Rightarrow> string" where
  "pad_left n s = replicate (n - length s) (CHR ''0'') @ s"

definition frac_string :: "nat \<Rightarrow> nat \<Rightarrow> string" where
  "frac_string prec v =
     (let ds = rev (dropWhile (\<lambda>c. c = CHR ''0'') (rev (pad_left prec (nat_string v))))
      in if v = 0 then [] else CHR ''.'' # ds)"

definition unsigned_duration_string :: "nat \<Rightarrow> string" where
  "unsigned_duration_string u =
     (if u = 0 then ''0s''
      else if u < 1000 then nat_string u @ ''ns''
      else if u < 1000000 then nat_string (u div 1000) @ frac_string 3 (u mod 1000) @ [CHR 0xC2, CHR 0xB5] @ ''s''
      else if u < 1000000000 then nat_string (u div 1000000) @ frac_string 6 (u mod 1000000) @ ''ms''
      else let s = u div 1000000000; m = s div 60; h = m div 60
           in (if h > 0 then nat_string h @ ''h'' else []) @
              (if m > 0 then nat_string (m mod 60) @ ''m'' else []) @
              nat_string (s mod 60) @ frac_string 9 (u mod 1000000000) @ ''s'')"

definition duration_string :: "int \<Rightarrow> string" where
  "duration_string d =
     (if d < 0 then CHR ''-'' # unsigned_duration_string (nat (- d))
      else unsigned_duration_string (nat d))"

subsection \<open>Tables\<close>

text \<open>
  \<open>UPDATE t SET upd WHERE p\<close>: every row that satisfies \<open>p\<close> is rewritten in place; the
  second component is \<open>RowsAffected\<close>.
\<close>

definition update_rows :: "('r \<Rightarrow> bool) \<Rightarrow> ('r \<Rightarrow> 'r) \<Rightarrow> 'r list \<Rightarrow> 'r list" where
  "update_rows p u rows = map (\<lambda>r. if p r then u r else r) rows"

definition affected :: "('r \<Rightarrow> bool) \<Rightarrow> 'r list \<Rightarrow> nat" where
  "affected p rows = length (filter p rows)"

lemma affected_0_iff [table_simps]: "affected p rows = 0 \<longleftrightarrow> (\<forall>r\<in>set rows. \<not> p r)"
  by (simp add: affected_def filter_empty_conv)

lemma update_rows_Nil [table_simps]: "update_rows p u [] = []"
  by (simp add: update_rows_def)

lemma update_rows_Cons [table_simps]:
  "update_rows p u (r # rows) = (if p r then u r else r) # update_rows p u rows"
  by (simp add: update_rows_def)

lemma set_update_rows [table_simps]:
  "set (update_rows p u rows) = (\<lambda>r. if p r then u r else r) ` set rows"
  by (simp add: update_rows_def)

lemma update_rows_none [table_simps]: "\<forall>r\<in>set rows. \<not> p r \<Longrightarrow> update_rows p u rows = rows"
  by (simp add: update_rows_def map_idI)

lemma map_update_rows: "(\<And>r. k (u r) = k r) \<Longrightarrow> map k (update_rows p u rows) = map k rows"
  by (simp add: update_rows_def)

lemma find_update_rows:
  assumes "\<And>r. k (u r) = k r"
  shows "find (\<lambda>r. k r = a) (update_rows p u rows) =
    map_option (\<lambda>r. if p r then u r else r) (find (\<lambda>r. k r = a) rows)"
  by (induction rows) (auto simp: update_rows_Nil update_rows_Cons assms)

lemma filter_update_rows_other:
  assumes "\<And>r. p r \<Longrightarrow> \<not> q r \<and> \<not> q (u r)"
  shows "filter q (update_rows p u rows) = filter q rows"
  by (induction rows) (auto simp: update_rows_Nil update_rows_Cons assms)

lemma find_key_unique:
  "distinct (map k rows) \<Longrightarrow> r \<in> set rows \<Longrightarrow> find (\<lambda>x. k x = k r) rows = Some r"
  by (induction rows) force+

lemma find_SomeD: "find p rows = Some r \<Longrightarrow> r \<in> set rows \<and> p r"
  by (induction rows) (auto split: if_splits)

lemma find_append: "find p (xs @ ys) = (case find p xs of None \<Rightarrow> find p ys | Some r \<Rightarrow> Some r)"
  by (induction xs) auto

lemma find_key_update:
  assumes "\<And>r. k (u r) = k r"
  shows "find (\<lambda>r. k r = j) (update_rows (\<lambda>r. k r = i) u rows) =
    (if j = i then map_option u (find (\<lambda>r. k r = i) rows) else find (\<lambda>r. k r = j) rows)"
  by (induction rows) (auto simp: update_rows_Nil update_rows_Cons assms)

lemma find_key_append:
  "k x \<notin> k ` set rows \<Longrightarrow>
    find (\<lambda>r. k r = j) (rows @ [x]) = (if j = k x then Some x else find (\<lambda>r. k r = j) rows)"
  by (induction rows) auto

lemma map_of_rev_distinct: "distinct (map fst xs) \<Longrightarrow> map_of (rev xs) = map_of xs"
proof (induction xs)
  case (Cons x xs)
  then have "map_of xs (fst x) = None" by (simp add: map_of_eq_None_iff)
  with Cons show ?case by (cases x) (auto simp: map_add_def fun_eq_iff split: option.splits)
qed simp

subsection \<open>Transition systems and invariants\<close>

text \<open>
  Components with a step relation instantiate this interface: an invariant that holds at the
  start and is kept by every step holds in every reachable state.
\<close>

inductive reach :: "('s \<Rightarrow> bool) \<Rightarrow> ('s \<Rightarrow> 's \<Rightarrow> bool) \<Rightarrow> 's \<Rightarrow> bool"
  for init :: "'s \<Rightarrow> bool" and step :: "'s \<Rightarrow> 's \<Rightarrow> bool" where
  reach_init: "init s \<Longrightarrow> reach init step s"
| reach_step: "reach init step s \<Longrightarrow> step s t \<Longrightarrow> reach init step t"

locale inductive_invariant =
  fixes init :: "'s \<Rightarrow> bool"
    and step :: "'s \<Rightarrow> 's \<Rightarrow> bool"
    and inv :: "'s \<Rightarrow> bool"
  assumes inv_init: "init s \<Longrightarrow> inv s"
    and inv_step: "inv s \<Longrightarrow> step s t \<Longrightarrow> inv t"
begin

lemma reach_inv: "reach init step s \<Longrightarrow> inv s"
  by (induction rule: reach.induct) (auto intro: inv_init inv_step)

lemma steps_inv: "step\<^sup>*\<^sup>* s t \<Longrightarrow> inv s \<Longrightarrow> inv t"
  by (induction rule: rtranclp_induct) (auto intro: inv_step)

end

end
