(* ===== verification/EventRing.thy ===== *)
theory EventRing
  imports Prelude "HOL-Library.AList"
begin

text \<open>
  \<open>internal/events/types.go\<close> and \<open>ring.go\<close>: the event record, the fixed-size circular buffer
  kept per agent, and the store of buffers with its cleanup by age. Go maps are association
  lists with distinct keys, read with \<^const>\<open>map_of\<close> and written with
  \<^const>\<open>AList.update\<close> and \<^const>\<open>AList.delete\<close>. The buffer is related to the plain list of
  the events it holds (\<open>ring_list\<close>); the locale \<open>bounded_log\<close> is the contract that list
  satisfies. The UUIDs come from outside the program and are arguments.
\<close>

record event =
  ev_ID :: string
  ev_Time :: int
  ev_Component :: string
  ev_Category :: string
  ev_Resource :: string
  ev_Action :: string
  ev_Outcome :: string
  ev_Severity :: string
  ev_Task :: string
  ev_MissionID :: int
  ev_ObjectiveID :: string
  ev_Detail :: string
  ev_Attrs :: "(string \<times> string) list"

definition zero_event :: event where
  "zero_event = \<lparr>ev_ID = [], ev_Time = 0, ev_Component = [], ev_Category = [], ev_Resource = [],
     ev_Action = [], ev_Outcome = [], ev_Severity = [], ev_Task = [], ev_MissionID = 0,
     ev_ObjectiveID = [], ev_Detail = [], ev_Attrs = []\<rparr>"

definition Info :: "string \<Rightarrow> int \<Rightarrow> string \<Rightarrow> string \<Rightarrow> event" where
  "Info uuid now component action = zero_event\<lparr>ev_ID := uuid, ev_Time := now, ev_Severity := ''info'',
     ev_Component := component, ev_Action := action\<rparr>"

definition Warn :: "string \<Rightarrow> int \<Rightarrow> string \<Rightarrow> string \<Rightarrow> string \<Rightarrow> event" where
  "Warn uuid now component action detail = zero_event\<lparr>ev_ID := uuid, ev_Time := now,
     ev_Severity := ''warn'', ev_Component := component, ev_Action := action, ev_Detail := detail\<rparr>"

definition Error :: "string \<Rightarrow> int \<Rightarrow> string \<Rightarrow> string \<Rightarrow> string \<Rightarrow> event" where
  "Error uuid now component action detail = zero_event\<lparr>ev_ID := uuid, ev_Time := now,
     ev_Severity := ''error'', ev_Component := component, ev_Action := action, ev_Detail := detail\<rparr>"

subsection \<open>The circular buffer\<close>

definition DefaultRingSize :: int where "DefaultRingSize = 100"

record agent_ring =
  rg_events :: "event list"
  rg_head :: nat
  rg_count :: nat

definition NewAgentRing :: "int \<Rightarrow> agent_ring" where
  "NewAgentRing sz =
     (let n = (if sz \<le> 0 then DefaultRingSize else sz)
      in \<lparr>rg_events = replicate (nat n) zero_event, rg_head = 0, rg_count = 0\<rparr>)"

definition ring_Append :: "event \<Rightarrow> agent_ring \<Rightarrow> agent_ring" where
  "ring_Append e r =
     \<lparr>rg_events = (rg_events r)[rg_head r := e],
      rg_head = (rg_head r + 1) mod length (rg_events r),
      rg_count = (if rg_count r < length (rg_events r) then rg_count r + 1 else rg_count r)\<rparr>"

text \<open>
  The Go index \<open>(r.head - n + cap) % cap\<close> has \<open>n \<le> count \<le> cap\<close>, so its dividend is the
  natural number \<open>head + cap - n\<close>.
\<close>

definition ring_Recent :: "int \<Rightarrow> agent_ring \<Rightarrow> event list" where
  "ring_Recent n r =
     (if n \<le> 0 \<or> rg_count r = 0 then []
      else let m = (if n > int (rg_count r) then rg_count r else nat n);
               cap = length (rg_events r);
               start = (rg_head r + cap - m) mod cap
           in map (\<lambda>i. rg_events r ! ((start + i) mod cap)) [0..<m])"

fun find_index :: "('a \<Rightarrow> bool) \<Rightarrow> 'a list \<Rightarrow> nat option" where
  "find_index p [] = None"
| "find_index p (x # xs) = (if p x then Some 0 else map_option Suc (find_index p xs))"

text \<open>\<open>nil\<close> (the event is not in the buffer) is \<^const>\<open>None\<close>.\<close>

definition ring_Since :: "string \<Rightarrow> agent_ring \<Rightarrow> event list option" where
  "ring_Since eid r =
     (if rg_count r = 0 then None
      else let cap = length (rg_events r);
               oldest = (rg_head r + cap - rg_count r) mod cap
           in case find_index (\<lambda>i. ev_ID (rg_events r ! ((oldest + i) mod cap)) = eid) [0..<rg_count r] of
                None \<Rightarrow> None
              | Some found \<Rightarrow>
                  if rg_count r - found - 1 = 0 then Some []
                  else Some (map (\<lambda>i. rg_events r ! ((oldest + found + 1 + i) mod cap))
                              [0..<rg_count r - found - 1]))"

subsection \<open>The buffer holds the last events in order\<close>

definition ring_ok :: "agent_ring \<Rightarrow> bool" where
  "ring_ok r = (length (rg_events r) > 0 \<and> rg_head r < length (rg_events r) \<and>
     rg_count r \<le> length (rg_events r))"

definition ring_cap :: "agent_ring \<Rightarrow> nat" where
  "ring_cap r = length (rg_events r)"

definition ring_list :: "agent_ring \<Rightarrow> event list" where
  "ring_list r = map (\<lambda>i. rg_events r ! ((rg_head r + ring_cap r - rg_count r + i) mod ring_cap r))
     [0..<rg_count r]"

lemma length_ring_list [simp]: "length (ring_list r) = rg_count r"
  by (simp add: ring_list_def)

lemma ring_ok_New: "ring_ok (NewAgentRing n)"
  by (simp add: ring_ok_def NewAgentRing_def Let_def DefaultRingSize_def)

lemma ring_list_New: "ring_list (NewAgentRing n) = []"
  by (simp add: ring_list_def NewAgentRing_def Let_def)

lemma ring_cap_New: "ring_cap (NewAgentRing n) = nat (if n \<le> 0 then 100 else n)"
  by (simp add: ring_cap_def NewAgentRing_def Let_def DefaultRingSize_def)

lemma ring_ok_Append: "ring_ok r \<Longrightarrow> ring_ok (ring_Append e r)"
  by (auto simp: ring_ok_def ring_Append_def)

lemma ring_cap_Append [simp]: "ring_cap (ring_Append e r) = ring_cap r"
  by (simp add: ring_cap_def ring_Append_def)

text \<open>Positions \<open>head + k\<close> for \<open>0 < k < cap\<close> are not the one \<open>Append\<close> writes.\<close>

lemma mod_neq_head:
  fixes h c k :: nat
  assumes "h < c" "0 < k" "k < c"
  shows "(h + k) mod c \<noteq> h"
proof (cases "h + k < c")
  case True
  with assms show ?thesis by simp
next
  case False
  with assms have "(h + k) mod c = h + k - c" by (simp add: mod_if)
  with assms False show ?thesis by linarith
qed

lemma ring_list_nth:
  "i < rg_count r \<Longrightarrow>
    ring_list r ! i = rg_events r ! ((rg_head r + ring_cap r - rg_count r + i) mod ring_cap r)"
  by (simp add: ring_list_def)

lemma Suc_mod_shift:
  fixes h c k :: nat
  assumes "0 < c"
  shows "((h + 1) mod c + k) mod c = (h + 1 + k) mod c"
  using assms by (simp add: mod_add_left_eq)

lemma ring_list_Append:
  assumes "ring_ok r"
  shows "ring_list (ring_Append e r) =
    (if rg_count r < ring_cap r then ring_list r else tl (ring_list r)) @ [e]"
  (is "?lhs = ?rhs")
proof (rule nth_equalityI)
  let ?c = "ring_cap r" and ?h = "rg_head r" and ?n = "rg_count r"
  from assms have c: "0 < ?c" and h: "?h < ?c" and n: "?n \<le> ?c"
    by (auto simp: ring_ok_def ring_cap_def)
  show "length ?lhs = length ?rhs"
    using n c by (auto simp: ring_Append_def ring_cap_def)
  fix i
  assume "i < length ?lhs"
  let ?n' = "rg_count (ring_Append e r)"
  from \<open>i < length ?lhs\<close> have i: "i < ?n'" by simp
  have n': "?n' = (if ?n < ?c then ?n + 1 else ?n)" by (simp add: ring_Append_def ring_cap_def)
  have "?n' \<le> ?c" using n n' by auto
  then have "rg_head (ring_Append e r) + ?c - ?n' + i = (?h + 1) mod ?c + (?c - ?n' + i)"
    by (simp add: ring_Append_def ring_cap_def)
  then have "?lhs ! i = (rg_events r)[?h := e] ! (((?h + 1) mod ?c + (?c - ?n' + i)) mod ?c)"
    using i by (simp only: ring_list_nth ring_cap_Append) (simp add: ring_Append_def)
  also have "((?h + 1) mod ?c + (?c - ?n' + i)) mod ?c = (?h + (?c - ?n' + i + 1)) mod ?c"
    unfolding Suc_mod_shift [OF c] by (simp add: add.commute add.left_commute)
  finally have lhs: "?lhs ! i = (rg_events r)[?h := e] ! ((?h + (?c - ?n' + i + 1)) mod ?c)" .
  show "?lhs ! i = ?rhs ! i"
  proof (cases "i + 1 = ?n'")
    case True
    with \<open>?n' \<le> ?c\<close> have "?c - ?n' + i + 1 = ?c" by simp
    moreover have "?h < length (rg_events r)" using h by (simp add: ring_cap_def)
    ultimately have "?lhs ! i = e" using lhs h by simp
    moreover have "?rhs ! i = e" using True n n' by (auto simp: nth_append)
    ultimately show ?thesis by simp
  next
    case False
    with i have i': "i + 1 < ?n'" by simp
    have "(?h + (?c - ?n' + i + 1)) mod ?c \<noteq> ?h"
      using h i' \<open>?n' \<le> ?c\<close> by (intro mod_neq_head) auto
    then have old: "?lhs ! i = rg_events r ! ((?h + (?c - ?n' + i + 1)) mod ?c)" using lhs by simp
    show ?thesis
    proof (cases "?n < ?c")
      case True
      then have "?h + (?c - ?n' + i + 1) = ?h + ?c - ?n + i" using n' by simp
      then have "?lhs ! i = ring_list r ! i"
        using old ring_list_nth [of i r] i' n' True by simp
      with True i' n' show ?thesis by (simp add: nth_append)
    next
      case False
      then have "?h + (?c - ?n' + i + 1) = ?h + ?c - ?n + (i + 1)" using n' n by simp
      then have "?lhs ! i = ring_list r ! (i + 1)"
        using old ring_list_nth [of "i + 1" r] i' n' False by simp
      with False i' n' show ?thesis by (simp add: nth_append nth_tl)
    qed
  qed
qed

subsection \<open>The contract of a bounded log\<close>

text \<open>Keep the last \<open>n\<close> elements of a list.\<close>

definition keep_last :: "nat \<Rightarrow> 'a list \<Rightarrow> 'a list" where
  "keep_last n xs = drop (length xs - n) xs"

lemma length_keep_last [simp]: "length (keep_last n xs) = min n (length xs)"
  by (simp add: keep_last_def)

lemma keep_last_all: "length xs \<le> n \<Longrightarrow> keep_last n xs = xs"
  by (simp add: keep_last_def)

lemma keep_last_snoc: "0 < n \<Longrightarrow> keep_last n (keep_last n xs @ ys) = keep_last n (xs @ ys)"
  by (cases "length xs \<le> n") (auto simp: keep_last_def add.commute)

lemma keep_last_keep_last: "m \<le> n \<Longrightarrow> keep_last m (keep_last n xs) = keep_last m xs"
  by (cases "length xs \<le> n") (auto simp: keep_last_def)

locale bounded_log =
  fixes invar :: "'r \<Rightarrow> bool"
    and cap :: "'r \<Rightarrow> nat"
    and contents :: "'r \<Rightarrow> 'e list"
    and append :: "'e \<Rightarrow> 'r \<Rightarrow> 'r"
  assumes cap_pos: "invar r \<Longrightarrow> 0 < cap r"
    and cap_append: "cap (append e r) = cap r"
    and invar_append: "invar r \<Longrightarrow> invar (append e r)"
    and contents_append: "invar r \<Longrightarrow> contents (append e r) = keep_last (cap r) (contents r @ [e])"
begin

lemma append_all:
  assumes "invar r"
  shows "invar (fold append es r)" "cap (fold append es r) = cap r"
    "contents (fold append es r) =
       (if es = [] then contents r else keep_last (cap r) (contents r @ es))"
  using assms
proof (induction es arbitrary: r)
  case Nil
  { case 1 then show ?case by simp next case 2 then show ?case by simp
    next case 3 then show ?case by simp }
next
  case (Cons e es)
  { case 1 with Cons.IH(1) show ?case by (simp add: invar_append)
  next case 2 with Cons.IH(2) show ?case by (simp add: invar_append cap_append)
  next
    case 3
    with Cons.IH(3) [of "append e r"] show ?case
      by (simp add: invar_append cap_append contents_append keep_last_snoc cap_pos)
  }
qed

lemma append_all_bounded: "invar r \<Longrightarrow> es \<noteq> [] \<Longrightarrow> length (contents (fold append es r)) \<le> cap r"
  by (simp add: append_all(3))

end

interpretation aring: bounded_log ring_ok ring_cap ring_list ring_Append
proof (unfold_locales, goal_cases)
  case (1 r)
  then show ?case by (simp add: ring_ok_def ring_cap_def)
next
  case (2 e r)
  show ?case by simp
next
  case (3 r e)
  then show ?case by (rule ring_ok_Append)
next
  case (4 r e)
  then have "rg_count r \<le> ring_cap r" "0 < ring_cap r" by (auto simp: ring_ok_def ring_cap_def)
  with 4 length_ring_list [of r] show ?case
    by (cases "ring_list r") (auto simp: ring_list_Append keep_last_def drop_Suc)
qed

subsection \<open>Reading the buffer\<close>

lemma ring_Recent_eq:
  assumes "ring_ok r"
  shows "ring_Recent n r = keep_last (nat n) (ring_list r)"
proof (cases "n \<le> 0 \<or> rg_count r = 0")
  case True
  then show ?thesis by (auto simp: ring_Recent_def keep_last_def)
next
  case False
  let ?c = "ring_cap r" and ?m = "if n > int (rg_count r) then rg_count r else nat n"
  from assms have c: "0 < ?c" "rg_count r \<le> ?c" by (auto simp: ring_ok_def ring_cap_def)
  have m: "?m \<le> rg_count r" by auto
  have "ring_Recent n r = map (\<lambda>i. rg_events r ! (((rg_head r + ?c - ?m) mod ?c + i) mod ?c)) [0..<?m]"
    using False by (simp add: ring_Recent_def Let_def ring_cap_def del: upt_Suc)
  also have "\<dots> = map (\<lambda>i. rg_events r ! ((rg_head r + ?c - ?m + i) mod ?c)) [0..<?m]"
    by (simp only: mod_add_left_eq)
  also have "\<dots> = keep_last ?m (ring_list r)"
    using c m by (intro nth_equalityI) (auto simp: keep_last_def ring_list_nth add.assoc)
  also have "\<dots> = keep_last (nat n) (ring_list r)"
    using False by (auto simp: keep_last_def)
  finally show ?thesis .
qed

lemma find_index_map: "find_index p (map g xs) = find_index (p \<circ> g) xs"
  by (induction xs) auto

lemma find_index_bound: "find_index p xs = Some i \<Longrightarrow> i < length xs"
  by (induction xs arbitrary: i) (auto split: if_splits)

text \<open>What follows the first event with the given ID, in a list.\<close>

fun events_after :: "string \<Rightarrow> event list \<Rightarrow> event list option" where
  "events_after eid [] = None"
| "events_after eid (e # es) = (if ev_ID e = eid then Some es else events_after eid es)"

lemma events_after_index:
  "events_after eid es = map_option (\<lambda>i. drop (Suc i) es) (find_index (\<lambda>e. ev_ID e = eid) es)"
  by (induction es) (auto simp: option.map_comp comp_def)

lemma ring_Since_eq:
  assumes "ring_ok r"
  shows "ring_Since eid r = events_after eid (ring_list r)"
proof (cases "rg_count r = 0")
  case True
  then show ?thesis by (simp add: ring_Since_def ring_list_def)
next
  case False
  let ?c = "ring_cap r" and ?n = "rg_count r"
  let ?at = "\<lambda>i. rg_events r ! ((rg_head r + ?c - ?n + i) mod ?c)"
  have at: "rg_events r ! (((rg_head r + ?c - ?n) mod ?c + i) mod ?c) = ?at i" for i
    by (simp only: mod_add_left_eq)
  have at': "Suc ((rg_head r + ?c - ?n) mod ?c + i) mod ?c = Suc (rg_head r + ?c - ?n + i) mod ?c" for i
    by (metis add_Suc_right mod_add_left_eq)
  have idx: "find_index (\<lambda>i. ev_ID (?at i) = eid) [0..<?n] = find_index (\<lambda>e. ev_ID e = eid) (ring_list r)"
    by (simp add: ring_list_def find_index_map comp_def)
  have "ring_Since eid r = map_option (\<lambda>k. map (\<lambda>i. ?at (k + 1 + i)) [0..<?n - k - 1])
      (find_index (\<lambda>e. ev_ID e = eid) (ring_list r))"
    using False
    by (simp add: ring_Since_def Let_def ring_cap_def [symmetric] at at' idx add.assoc split: option.split)
  also have "\<dots> = events_after eid (ring_list r)"
    unfolding events_after_index
  proof (rule option.map_cong0)
    fix k
    show "map (\<lambda>i. ?at (k + 1 + i)) [0..<?n - k - 1] = drop (Suc k) (ring_list r)"
      by (intro nth_equalityI) (auto simp: ring_list_nth)
  qed
  finally show ?thesis .
qed

subsection \<open>The ring against plain lists\<close>

lemma ring_run:
  "ring_ok (fold ring_Append es (NewAgentRing n)) \<and>
   ring_list (fold ring_Append es (NewAgentRing n)) = keep_last (nat (if n \<le> 0 then 100 else n)) es"
  using aring.append_all [OF ring_ok_New, of es n] by (simp add: ring_list_New ring_cap_New keep_last_def)

lemma keep_last_min: "keep_last a (keep_last c es) = keep_last (min a c) es"
proof -
  have "l - (l - c) - a + (l - c) = l - min a c" for l :: nat by linarith
  then show ?thesis by (simp add: keep_last_def)
qed

text \<open>
  C16 (ring_recent_is_tail): the ring buffer behaves as the list of all events ever appended: \<open>Recent\<close>
  returns the last of them, as many as asked for and as the capacity (100 by default) allows, oldest
  first.
\<close>

theorem ring_recent_is_tail:
  "ring_Recent k (fold ring_Append es (NewAgentRing n)) =
     drop (length es - min (nat k) (nat (if n \<le> 0 then 100 else n))) es"
proof -
  let ?cap = "nat (if n \<le> 0 then 100 else n)"
  have "ring_Recent k (fold ring_Append es (NewAgentRing n)) = keep_last (nat k) (keep_last ?cap es)"
    using ring_run [of es n] ring_Recent_eq [of "fold ring_Append es (NewAgentRing n)" k] by simp
  also have "\<dots> = keep_last (min (nat k) ?cap) es" by (rule keep_last_min)
  finally show ?thesis by (simp add: keep_last_def)
qed

text \<open>
  \<open>Since\<close> finds an event exactly among the ones the ring still holds and
  returns those that follow it; it reports a gap when the event is gone.
\<close>

theorem ring_resumes_after_event:
  "ring_Since eid (fold ring_Append es (NewAgentRing n)) =
     events_after eid (drop (length es - nat (if n \<le> 0 then 100 else n)) es)"
  using ring_run [of es n] ring_Since_eq [of "fold ring_Append es (NewAgentRing n)" eid] by (simp add: keep_last_def)

end
