(* ===== verification/EventStore.thy ===== *)
theory EventStore
  imports EventRing
begin

text \<open>
  The rest of \<open>internal/events/ring.go\<close> (the store of per-agent buffers), \<open>ssehub.go\<close> (the
  subscribers of the event streams) and \<open>ringsink.go\<close> (the sink that feeds both).

  A Go channel is an identity (a number handed out by \<open>make\<close>) with a buffered content and a
  closed flag; sending on a closed channel and closing it twice panic, which is
  \<^const>\<open>None\<close> here. Sets of channels are lists without repetition.
\<close>

subsection \<open>\<open>EventStore\<close>\<close>

record event_store =
  es_rings :: "(string \<times> agent_ring) list"
  es_ringSize :: int
  es_ttl :: int
  es_terminalTimes :: "(string \<times> int) list"

definition NewEventStore :: "int \<Rightarrow> int \<Rightarrow> event_store" where
  "NewEventStore ringSize ttl =
     \<lparr>es_rings = [],
      es_ringSize = (if ringSize \<le> 0 then DefaultRingSize else ringSize),
      es_ttl = (if ttl = 0 then 30 * 60 * second_ns else ttl),
      es_terminalTimes = []\<rparr>"

definition es_Append :: "string \<Rightarrow> event \<Rightarrow> event_store \<Rightarrow> event_store" where
  "es_Append task e s =
     (let ring = (case map_of (es_rings s) task of None \<Rightarrow> NewAgentRing (es_ringSize s) | Some r \<Rightarrow> r)
      in s\<lparr>es_rings := AList.update task (ring_Append e ring) (es_rings s)\<rparr>)"

definition es_Recent :: "string \<Rightarrow> int \<Rightarrow> event_store \<Rightarrow> event list" where
  "es_Recent task n s = (case map_of (es_rings s) task of None \<Rightarrow> [] | Some r \<Rightarrow> ring_Recent n r)"

definition es_Since :: "string \<Rightarrow> string \<Rightarrow> event_store \<Rightarrow> event list option" where
  "es_Since task eid s = (case map_of (es_rings s) task of None \<Rightarrow> None | Some r \<Rightarrow> ring_Since eid r)"

definition es_Remove :: "string \<Rightarrow> event_store \<Rightarrow> event_store" where
  "es_Remove task s = s\<lparr>es_rings := AList.delete task (es_rings s),
     es_terminalTimes := AList.delete task (es_terminalTimes s)\<rparr>"

definition es_MarkTerminal :: "string \<Rightarrow> int \<Rightarrow> event_store \<Rightarrow> event_store" where
  "es_MarkTerminal task at s = s\<lparr>es_terminalTimes := AList.update task at (es_terminalTimes s)\<rparr>"

fun cleanup_rings :: "int \<Rightarrow> (string \<times> int) list \<Rightarrow> event_store \<times> nat \<Rightarrow> event_store \<times> nat" where
  "cleanup_rings now [] acc = acc"
| "cleanup_rings now ((task, termAt) # ts) (s, removed) =
     cleanup_rings now ts
       (if now - termAt > es_ttl s then (es_Remove task s, removed + 1) else (s, removed))"

definition es_Cleanup :: "int \<Rightarrow> event_store \<Rightarrow> event_store \<times> nat" where
  "es_Cleanup now s = cleanup_rings now (es_terminalTimes s) (s, 0)"

definition es_Len :: "event_store \<Rightarrow> nat" where
  "es_Len s = length (es_rings s)"

subsection \<open>\<open>SSEHub\<close>\<close>

record chan =
  ch_buf :: "event list"
  ch_closed :: bool

record sse_hub =
  hub_taskSubs :: "(string \<times> nat list) list"
  hub_globalSubs :: "nat list"
  hub_bufSize :: nat
  hub_chans :: "(nat \<times> chan) list"
  hub_next :: nat

definition NewSSEHub :: "int \<Rightarrow> sse_hub" where
  "NewSSEHub bufSize =
     \<lparr>hub_taskSubs = [], hub_globalSubs = [],
      hub_bufSize = nat (if bufSize \<le> 0 then 64 else bufSize), hub_chans = [], hub_next = 0\<rparr>"

definition hub_Subscribe :: "string \<Rightarrow> sse_hub \<Rightarrow> sse_hub \<times> nat" where
  "hub_Subscribe task h =
     (let ch = hub_next h;
          h1 = h\<lparr>hub_chans := AList.update ch \<lparr>ch_buf = [], ch_closed = False\<rparr> (hub_chans h),
                 hub_next := ch + 1\<rparr>
      in (if task = [] then h1\<lparr>hub_globalSubs := List.insert ch (hub_globalSubs h1)\<rparr>
          else let subs = (case map_of (hub_taskSubs h1) task of None \<Rightarrow> [] | Some xs \<Rightarrow> xs)
               in h1\<lparr>hub_taskSubs := AList.update task (List.insert ch subs) (hub_taskSubs h1)\<rparr>,
          ch))"

definition close_chan :: "nat \<Rightarrow> sse_hub \<Rightarrow> sse_hub option" where
  "close_chan ch h =
     (case map_of (hub_chans h) ch of
        None \<Rightarrow> None
      | Some c \<Rightarrow>
          if ch_closed c then None
          else Some (h\<lparr>hub_chans := AList.update ch (c\<lparr>ch_closed := True\<rparr>) (hub_chans h)\<rparr>))"

definition hub_Unsubscribe :: "string \<Rightarrow> nat \<Rightarrow> sse_hub \<Rightarrow> sse_hub option" where
  "hub_Unsubscribe task ch h =
     close_chan ch
       (if task = [] then h\<lparr>hub_globalSubs := removeAll ch (hub_globalSubs h)\<rparr>
        else case map_of (hub_taskSubs h) task of
               None \<Rightarrow> h
             | Some subs \<Rightarrow>
                 let subs' = removeAll ch subs
                 in if subs' = [] then h\<lparr>hub_taskSubs := AList.delete task (hub_taskSubs h)\<rparr>
                    else h\<lparr>hub_taskSubs := AList.update task subs' (hub_taskSubs h)\<rparr>)"

fun send_all :: "nat \<Rightarrow> event \<Rightarrow> nat list \<Rightarrow> (nat \<times> chan) list \<Rightarrow> (nat \<times> chan) list option" where
  "send_all bufSize e [] chans = Some chans"
| "send_all bufSize e (ch # rest) chans =
     (case map_of chans ch of
        None \<Rightarrow> None
      | Some c \<Rightarrow>
          if ch_closed c then None
          else if length (ch_buf c) < bufSize
               then send_all bufSize e rest (AList.update ch (c\<lparr>ch_buf := ch_buf c @ [e]\<rparr>) chans)
               else send_all bufSize e rest chans)"

definition hub_Broadcast :: "string \<Rightarrow> event \<Rightarrow> sse_hub \<Rightarrow> sse_hub option" where
  "hub_Broadcast task e h =
     (let subs = (case map_of (hub_taskSubs h) task of None \<Rightarrow> [] | Some xs \<Rightarrow> xs)
      in case send_all (hub_bufSize h) e subs (hub_chans h) of
           None \<Rightarrow> None
         | Some chans \<Rightarrow>
             (case send_all (hub_bufSize h) e (hub_globalSubs h) chans of
                None \<Rightarrow> None
              | Some chans' \<Rightarrow> Some (h\<lparr>hub_chans := chans'\<rparr>)))"

definition hub_SubscriberCount :: "string \<Rightarrow> sse_hub \<Rightarrow> nat" where
  "hub_SubscriberCount task h =
     (if task = [] then length (hub_globalSubs h)
      else case map_of (hub_taskSubs h) task of None \<Rightarrow> 0 | Some xs \<Rightarrow> length xs)"

definition hub_TotalSubscribers :: "sse_hub \<Rightarrow> nat" where
  "hub_TotalSubscribers h = length (hub_globalSubs h) + (\<Sum>(t, xs)\<leftarrow>hub_taskSubs h. length xs)"

subsection \<open>\<open>RingBufferSink\<close>\<close>

definition terminal_action :: "string \<Rightarrow> bool" where
  "terminal_action a = (a = ''lifecycle.completed'' \<or> a = ''lifecycle.failed'' \<or> a = ''lifecycle.stopped'')"

definition ringsink_Handle :: "event \<Rightarrow> event_store \<times> sse_hub option \<Rightarrow> (event_store \<times> sse_hub option) option" where
  "ringsink_Handle e st =
     (case st of (s, hub) \<Rightarrow>
        if ev_Task e = [] then Some (s, hub)
        else let s1 = es_Append (ev_Task e) e s;
                 s2 = (if terminal_action (ev_Action e) then es_MarkTerminal (ev_Task e) (ev_Time e) s1 else s1)
             in case hub of
                  None \<Rightarrow> Some (s2, None)
                | Some h \<Rightarrow> (case hub_Broadcast (ev_Task e) e h of None \<Rightarrow> None | Some h' \<Rightarrow> Some (s2, Some h')))"

subsection \<open>The store: one bounded log per task\<close>

definition es_ok :: "event_store \<Rightarrow> bool" where
  "es_ok s = (distinct (map fst (es_rings s)) \<and> distinct (map fst (es_terminalTimes s)) \<and>
     (\<forall>(t, r)\<in>set (es_rings s). ring_ok r \<and> ring_cap r = nat (es_ringSize s)) \<and> 0 < es_ringSize s)"

definition es_log :: "event_store \<Rightarrow> string \<Rightarrow> event list" where
  "es_log s task = (case map_of (es_rings s) task of None \<Rightarrow> [] | Some r \<Rightarrow> ring_list r)"

lemma es_ok_ring: "es_ok s \<Longrightarrow> map_of (es_rings s) t = Some r \<Longrightarrow> ring_ok r \<and> ring_cap r = nat (es_ringSize s)"
  by (auto simp: es_ok_def dest!: map_of_SomeD)

lemma es_ok_New: "es_ok (NewEventStore n ttl)"
  by (simp add: es_ok_def NewEventStore_def DefaultRingSize_def)

lemma es_ok_fresh_ring:
  assumes "es_ok s"
  shows "ring_ok (case map_of (es_rings s) task of None \<Rightarrow> NewAgentRing (es_ringSize s) | Some r \<Rightarrow> r)"
    "ring_cap (case map_of (es_rings s) task of None \<Rightarrow> NewAgentRing (es_ringSize s) | Some r \<Rightarrow> r) =
       nat (es_ringSize s)"
  using assms es_ok_ring [OF assms]
  by (auto simp: ring_ok_New ring_cap_New es_ok_def split: option.splits)

lemma AList_update_mem: "(k, v) \<in> set (AList.update a b xs) \<Longrightarrow> (k, v) = (a, b) \<or> (k, v) \<in> set xs"
  by (induction xs) (auto split: if_splits)

lemma AList_delete_mem: "(k, v) \<in> set (AList.delete a xs) \<Longrightarrow> (k, v) \<in> set xs"
  by (simp add: AList.delete_eq)

lemma es_ok_Append: "es_ok s \<Longrightarrow> es_ok (es_Append task e s)"
  using es_ok_fresh_ring [of s task]
  by (auto simp: es_ok_def es_Append_def Let_def distinct_update ring_ok_Append dest!: AList_update_mem)

lemma es_log_Append:
  assumes "es_ok s"
  shows "es_log (es_Append task e s) t =
    (if t = task then keep_last (nat (es_ringSize s)) (es_log s task @ [e]) else es_log s t)"
  using es_ok_fresh_ring [OF assms, of task]
  by (auto simp: es_log_def es_Append_def Let_def update_conv' aring.contents_append ring_list_New
      split: option.splits)

lemma es_ringSize_Append [simp]: "es_ringSize (es_Append task e s) = es_ringSize s"
  by (simp add: es_Append_def Let_def)

lemma es_log_Remove: "es_log (es_Remove task s) t = (if t = task then [] else es_log s t)"
  by (simp add: es_log_def es_Remove_def delete_conv')

lemma es_ok_Remove: "es_ok s \<Longrightarrow> es_ok (es_Remove task s)"
  by (auto simp: es_ok_def es_Remove_def distinct_delete dest!: AList_delete_mem)

lemma es_ok_MarkTerminal: "es_ok s \<Longrightarrow> es_ok (es_MarkTerminal task at s)"
  by (simp add: es_ok_def es_MarkTerminal_def distinct_update)

lemma es_log_MarkTerminal [simp]: "es_log (es_MarkTerminal task at s) = es_log s"
  by (simp add: es_log_def es_MarkTerminal_def fun_eq_iff)

lemma es_Remove_ttl [simp]: "es_ttl (es_Remove task s) = es_ttl s"
  by (simp add: es_Remove_def)

lemma cleanup_rings_log:
  "es_log (fst (cleanup_rings now ts (s, n))) t =
     (if \<exists>at. (t, at) \<in> set ts \<and> now - at > es_ttl s then [] else es_log s t)"
  by (induction now ts "(s, n)" arbitrary: s n rule: cleanup_rings.induct) (auto simp: es_log_Remove)

lemma cleanup_rings_ok: "es_ok s \<Longrightarrow> es_ok (fst (cleanup_rings now ts (s, n)))"
  by (induction now ts "(s, n)" arbitrary: s n rule: cleanup_rings.induct) (auto simp: es_ok_Remove)

text \<open>What cleanup drops is decided by the recorded terminal times alone.\<close>

lemma es_log_Cleanup:
  assumes "es_ok s"
  shows "es_log (fst (es_Cleanup now s)) t =
    (case map_of (es_terminalTimes s) t of
       None \<Rightarrow> es_log s t
     | Some at \<Rightarrow> if now - at > es_ttl s then [] else es_log s t)"
proof -
  from assms have eq: "(t, at) \<in> set (es_terminalTimes s) \<longleftrightarrow> map_of (es_terminalTimes s) t = Some at" for at
    by (simp add: es_ok_def)
  have "(\<exists>at. (t, at) \<in> set (es_terminalTimes s) \<and> now - at > es_ttl s) \<longleftrightarrow>
      (case map_of (es_terminalTimes s) t of None \<Rightarrow> False | Some at \<Rightarrow> now - at > es_ttl s)"
    unfolding eq by (auto split: option.split)
  then show ?thesis
    by (simp add: es_Cleanup_def cleanup_rings_log split: option.split)
qed

lemma es_ok_Cleanup: "es_ok s \<Longrightarrow> es_ok (fst (es_Cleanup now s))"
  by (simp add: es_Cleanup_def cleanup_rings_ok)

subsection \<open>The hub: no panic, bounded buffers\<close>

definition subs_of :: "string \<Rightarrow> sse_hub \<Rightarrow> nat list" where
  "subs_of task h = (case map_of (hub_taskSubs h) task of None \<Rightarrow> [] | Some xs \<Rightarrow> xs)"

definition recipients :: "string \<Rightarrow> sse_hub \<Rightarrow> nat set" where
  "recipients task h = set (subs_of task h) \<union> set (hub_globalSubs h)"

definition is_open :: "(nat \<times> chan) list \<Rightarrow> nat \<Rightarrow> bool" where
  "is_open chans ch = (case map_of chans ch of None \<Rightarrow> False | Some c \<Rightarrow> \<not> ch_closed c)"

definition subscribed :: "sse_hub \<Rightarrow> nat \<Rightarrow> bool" where
  "subscribed h c = (c \<in> set (hub_globalSubs h) \<or> (\<exists>t. c \<in> set (subs_of t h)))"

text \<open>
  A channel is in at most one subscriber set, subscribed channels are open, buffers keep to
  their capacity and channel identities are below the next one.
\<close>

definition hub_ok :: "sse_hub \<Rightarrow> bool" where
  "hub_ok h \<longleftrightarrow>
     distinct (hub_globalSubs h) \<and>
     (\<forall>t. distinct (subs_of t h) \<and> set (subs_of t h) \<inter> set (hub_globalSubs h) = {}) \<and>
     (\<forall>t t' c. c \<in> set (subs_of t h) \<longrightarrow> c \<in> set (subs_of t' h) \<longrightarrow> t = t') \<and>
     (\<forall>c. subscribed h c \<longrightarrow> is_open (hub_chans h) c) \<and>
     (\<forall>ch c. map_of (hub_chans h) ch = Some c \<longrightarrow> length (ch_buf c) \<le> hub_bufSize h \<and> ch < hub_next h)"

definition deliver :: "nat \<Rightarrow> event \<Rightarrow> chan \<Rightarrow> chan" where
  "deliver n e c = (if length (ch_buf c) < n then c\<lparr>ch_buf := ch_buf c @ [e]\<rparr> else c)"

lemma deliver_closed [simp]: "ch_closed (deliver n e c) = ch_closed c"
  by (simp add: deliver_def)

lemma send_all_spec:
  assumes "distinct cs" "list_all (is_open chans) cs"
  shows "\<exists>chans'. send_all n e cs chans = Some chans' \<and>
    map_of chans' = (\<lambda>c. if c \<in> set cs then map_option (deliver n e) (map_of chans c) else map_of chans c)"
  using assms
proof (induction cs arbitrary: chans)
  case Nil
  then show ?case by (simp add: fun_eq_iff)
next
  case (Cons c cs)
  from Cons.prems obtain ch where ch: "map_of chans c = Some ch" "\<not> ch_closed ch"
    by (auto simp: is_open_def split: option.splits)
  define chans1 where "chans1 = (if length (ch_buf ch) < n then AList.update c (ch\<lparr>ch_buf := ch_buf ch @ [e]\<rparr>) chans else chans)"
  have step: "send_all n e (c # cs) chans = send_all n e cs chans1" using ch by (simp add: chans1_def)
  have m: "map_of chans1 = (map_of chans)(c \<mapsto> deliver n e ch)"
    using ch by (auto simp: chans1_def update_conv' deliver_def fun_eq_iff)
  with Cons.prems have "list_all (is_open chans1) cs"
    by (auto simp: is_open_def list_all_iff)
  with Cons.IH Cons.prems(1) obtain chans' where "send_all n e cs chans1 = Some chans'"
    "map_of chans' = (\<lambda>c. if c \<in> set cs then map_option (deliver n e) (map_of chans1 c) else map_of chans1 c)"
    by auto
  with Cons.prems(1) ch show ?case
    unfolding step by (auto simp: m fun_eq_iff)
qed

lemma is_open_deliver:
  assumes "map_of chans' = (\<lambda>c. if c \<in> R then map_option (deliver n e) (map_of chans c) else map_of chans c)"
  shows "is_open chans' = is_open chans"
  by (auto simp: is_open_def assms fun_eq_iff split: option.splits)

lemma hub_Broadcast_spec:
  assumes "hub_ok h"
  shows "\<exists>h'. hub_Broadcast task e h = Some h' \<and> hub_ok h' \<and> hub_bufSize h' = hub_bufSize h \<and>
    map_of (hub_chans h') = (\<lambda>c. if c \<in> recipients task h
      then map_option (deliver (hub_bufSize h) e) (map_of (hub_chans h) c) else map_of (hub_chans h) c)"
proof -
  let ?n = "hub_bufSize h"
  let ?xs = "subs_of task h"
  from assms have op: "list_all (is_open (hub_chans h)) ?xs" "list_all (is_open (hub_chans h)) (hub_globalSubs h)"
    and dg: "distinct (hub_globalSubs h)" "distinct ?xs" "set ?xs \<inter> set (hub_globalSubs h) = {}"
    by (auto simp: hub_ok_def list_all_iff subscribed_def)
  from send_all_spec [OF dg(2) op(1)] obtain c1 where
    c1: "send_all ?n e ?xs (hub_chans h) = Some c1" and
    m1: "map_of c1 = (\<lambda>c. if c \<in> set ?xs then map_option (deliver ?n e) (map_of (hub_chans h) c) else map_of (hub_chans h) c)"
    by blast
  have "list_all (is_open c1) (hub_globalSubs h)"
    using op(2) by (auto simp: is_open_def m1 list_all_iff split: option.splits)
  from send_all_spec [OF dg(1) this] obtain c2 where
    c2: "send_all ?n e (hub_globalSubs h) c1 = Some c2" and
    m2: "map_of c2 = (\<lambda>c. if c \<in> set (hub_globalSubs h) then map_option (deliver ?n e) (map_of c1 c) else map_of c1 c)"
    by blast
  have m: "map_of c2 = (\<lambda>c. if c \<in> recipients task h
      then map_option (deliver ?n e) (map_of (hub_chans h) c) else map_of (hub_chans h) c)"
    unfolding m2 m1 recipients_def using dg(3) by (intro ext) auto
  have "hub_ok (h\<lparr>hub_chans := c2\<rparr>)"
    using assms is_open_deliver [OF m]
    by (auto simp: hub_ok_def subs_of_def subscribed_def m deliver_def split: if_splits)
  with c1 c2 m show ?thesis by (simp add: hub_Broadcast_def Let_def subs_of_def [symmetric])
qed

lemma subs_of_update [simp]:
  "subs_of t (h\<lparr>hub_taskSubs := AList.update task v (hub_taskSubs h)\<rparr>) = (if t = task then v else subs_of t h)"
  by (simp add: subs_of_def update_conv')

lemma subs_of_delete [simp]:
  "subs_of t (h\<lparr>hub_taskSubs := AList.delete task (hub_taskSubs h)\<rparr>) = (if t = task then [] else subs_of t h)"
  by (simp add: subs_of_def delete_conv')

lemma subs_of_frame [simp]:
  "subs_of t (h\<lparr>hub_chans := cs\<rparr>) = subs_of t h"
  "subs_of t (h\<lparr>hub_chans := cs, hub_next := n\<rparr>) = subs_of t h"
  "subs_of t (h\<lparr>hub_globalSubs := g\<rparr>) = subs_of t h"
  by (simp_all add: subs_of_def)

lemma hub_fresh:
  assumes "hub_ok h"
  shows "\<not> subscribed h (hub_next h)"
proof
  assume "subscribed h (hub_next h)"
  with assms have "is_open (hub_chans h) (hub_next h)" by (auto simp: hub_ok_def)
  with assms show False by (auto simp: hub_ok_def is_open_def split: option.splits)
qed

lemma hub_ok_new_chan:
  assumes "hub_ok h"
  defines "h1 \<equiv> h\<lparr>hub_chans := AList.update (hub_next h) \<lparr>ch_buf = [], ch_closed = False\<rparr> (hub_chans h),
    hub_next := hub_next h + 1\<rparr>"
  shows "hub_ok h1" "is_open (hub_chans h1) (hub_next h)"
  using assms(1) unfolding h1_def
  by (auto simp: hub_ok_def subscribed_def is_open_def update_conv' less_SucI split: option.splits)

text \<open>\<open>Subscribe\<close>: the fresh channel joins exactly one of the sets.\<close>

lemma hub_ok_Subscribe:
  assumes "hub_ok h" "hub_Subscribe task h = (h', ch)"
  shows "hub_ok h'" "ch = hub_next h"
    "\<forall>t. subs_of t h' = (if t = task \<and> task \<noteq> [] then ch # subs_of t h else subs_of t h)"
    "hub_globalSubs h' = (if task = [] then ch # hub_globalSubs h else hub_globalSubs h)"
proof -
  let ?h1 = "h\<lparr>hub_chans := AList.update (hub_next h) \<lparr>ch_buf = [], ch_closed = False\<rparr> (hub_chans h),
    hub_next := hub_next h + 1\<rparr>"
  note new = hub_ok_new_chan [OF assms(1)] and fresh = hub_fresh [OF assms(1)]
  from fresh have ni: "hub_next h \<notin> set (hub_globalSubs h)" "\<And>t. hub_next h \<notin> set (subs_of t h)"
    by (auto simp: subscribed_def)
  have h': "h' = (if task = [] then ?h1\<lparr>hub_globalSubs := hub_next h # hub_globalSubs h\<rparr>
      else ?h1\<lparr>hub_taskSubs := AList.update task (hub_next h # subs_of task h) (hub_taskSubs ?h1)\<rparr>)"
    using assms(2) ni by (auto simp: hub_Subscribe_def Let_def subs_of_def [symmetric])
  show "ch = hub_next h" using assms(2) by (simp add: hub_Subscribe_def Let_def)
  then show "\<forall>t. subs_of t h' = (if t = task \<and> task \<noteq> [] then ch # subs_of t h else subs_of t h)"
    "hub_globalSubs h' = (if task = [] then ch # hub_globalSubs h else hub_globalSubs h)"
    by (simp_all add: h' subs_of_def update_conv')
  then show "hub_ok h'"
    using new ni \<open>ch = hub_next h\<close> by (auto simp: h' hub_ok_def subscribed_def)
qed

lemma hub_ok_Unsubscribe:
  assumes ok: "hub_ok h" and ch: "ch \<in> set (if task = [] then hub_globalSubs h else subs_of task h)"
  shows "\<exists>h'. hub_Unsubscribe task ch h = Some h' \<and> hub_ok h' \<and> \<not> subscribed h' ch"
proof -
  define h1 where "h1 = (if task = [] then h\<lparr>hub_globalSubs := removeAll ch (hub_globalSubs h)\<rparr>
    else case map_of (hub_taskSubs h) task of
           None \<Rightarrow> h
         | Some subs \<Rightarrow>
             let subs' = removeAll ch subs
             in if subs' = [] then h\<lparr>hub_taskSubs := AList.delete task (hub_taskSubs h)\<rparr>
                else h\<lparr>hub_taskSubs := AList.update task subs' (hub_taskSubs h)\<rparr>)"
  have subs: "subs_of t h1 = (if t = task \<and> task \<noteq> [] then removeAll ch (subs_of t h) else subs_of t h)" for t
    by (auto simp: h1_def Let_def subs_of_def update_conv' delete_conv' split: option.splits)
  have glob: "hub_globalSubs h1 = (if task = [] then removeAll ch (hub_globalSubs h) else hub_globalSubs h)"
    and frame: "hub_chans h1 = hub_chans h" "hub_bufSize h1 = hub_bufSize h" "hub_next h1 = hub_next h"
    by (auto simp: h1_def Let_def split: option.splits)
  have nsub: "\<not> subscribed h1 ch"
    using ok ch by (auto simp: subscribed_def subs glob hub_ok_def split: if_splits)
  have mono: "subscribed h1 c \<Longrightarrow> subscribed h c" for c
    by (auto simp: subscribed_def subs glob split: if_splits)
  have "subscribed h ch" using ch by (auto simp: subscribed_def split: if_splits)
  with ok obtain c where c: "map_of (hub_chans h) ch = Some c" "\<not> ch_closed c"
    by (auto simp: hub_ok_def is_open_def split: option.splits)
  define h2 where "h2 = h1\<lparr>hub_chans := AList.update ch (c\<lparr>ch_closed := True\<rparr>) (hub_chans h1)\<rparr>"
  have "hub_Unsubscribe task ch h = close_chan ch h1"
    unfolding hub_Unsubscribe_def h1_def ..
  also have "\<dots> = Some h2" using c by (simp add: close_chan_def frame h2_def)
  finally have un: "hub_Unsubscribe task ch h = Some h2" .
  have s2: "subscribed h2 = subscribed h1" by (simp add: h2_def subscribed_def fun_eq_iff)
  have op: "subscribed h1 x \<Longrightarrow> is_open (hub_chans h2) x" for x
    using ok mono [of x] nsub by (auto simp: hub_ok_def is_open_def h2_def frame update_conv')
  have "hub_ok h2"
    unfolding hub_ok_def s2
    using ok op c by (auto simp: hub_ok_def h2_def subs glob frame update_conv' distinct_removeAll split: if_splits)
  with un nsub s2 show ?thesis by auto
qed

subsection \<open>Clients of the hub\<close>

text \<open>
  The clients (\<open>cpapi/handler_watch.go\<close>) subscribe, receive, and unsubscribe a channel from
  the task they subscribed it to; the sink broadcasts.
\<close>

inductive hub_step :: "sse_hub \<Rightarrow> sse_hub \<Rightarrow> bool" where
  subscribe: "hub_Subscribe task h = (h', ch) \<Longrightarrow> hub_step h h'"
| unsubscribe: "ch \<in> set (if task = [] then hub_globalSubs h else subs_of task h) \<Longrightarrow>
    hub_Unsubscribe task ch h = Some h' \<Longrightarrow> hub_step h h'"
| broadcast: "hub_Broadcast task e h = Some h' \<Longrightarrow> hub_step h h'"
| receive: "map_of (hub_chans h) ch = Some c \<Longrightarrow> ch_buf c = e # es \<Longrightarrow>
    hub_step h (h\<lparr>hub_chans := AList.update ch (c\<lparr>ch_buf := es\<rparr>) (hub_chans h)\<rparr>)"

lemma hub_ok_New: "hub_ok (NewSSEHub n)"
  by (simp add: hub_ok_def NewSSEHub_def subs_of_def subscribed_def)

lemma hub_ok_receive:
  assumes "hub_ok h" "map_of (hub_chans h) ch = Some c" "ch_buf c = e # es"
  shows "hub_ok (h\<lparr>hub_chans := AList.update ch (c\<lparr>ch_buf := es\<rparr>) (hub_chans h)\<rparr>)"
proof -
  let ?cs = "AList.update ch (c\<lparr>ch_buf := es\<rparr>) (hub_chans h)"
  have "is_open ?cs = is_open (hub_chans h)"
    using assms(2) by (auto simp: is_open_def update_conv' fun_eq_iff)
  moreover have "length es \<le> hub_bufSize h \<and> ch < hub_next h"
    using assms by (fastforce simp: hub_ok_def)
  ultimately show ?thesis
    using assms(1) by (auto simp: hub_ok_def subscribed_def update_conv')
qed

interpretation hubinv: inductive_invariant "\<lambda>h. \<exists>n. h = NewSSEHub n" hub_step hub_ok
proof (unfold_locales, goal_cases)
  case (1 s)
  then show ?case by (auto simp: hub_ok_New)
next
  case (2 s t)
  from 2(2,1) show ?case
  proof cases
    case (subscribe task ch)
    with 2 show ?thesis by (auto intro: hub_ok_Subscribe)
  next
    case (unsubscribe ch task)
    with hub_ok_Unsubscribe [OF 2(1) unsubscribe(1)] show ?thesis by simp
  next
    case (broadcast task e)
    with hub_Broadcast_spec [OF 2(1), of task e] show ?thesis by auto
  next
    case (receive ch c e es)
    with 2 show ?thesis by (auto intro: hub_ok_receive)
  qed
qed

subsection \<open>What the hub guarantees\<close>

text \<open>
  in every reachable state of the hub a broadcast returns (it never
  sends on a closed channel), and it puts the event at the end of the buffer of each subscriber
  of the task and each global subscriber that has room, and changes no other channel.
\<close>

theorem hub_broadcast_delivers:
  assumes "reach (\<lambda>h. \<exists>n. h = NewSSEHub n) hub_step h"
  shows "\<exists>h'. hub_Broadcast task e h = Some h' \<and>
    map_of (hub_chans h') = (\<lambda>c. if c \<in> set (subs_of task h) \<union> set (hub_globalSubs h)
      then map_option (\<lambda>ch. if length (ch_buf ch) < hub_bufSize h then ch\<lparr>ch_buf := ch_buf ch @ [e]\<rparr> else ch) (map_of (hub_chans h) c)
      else map_of (hub_chans h) c)"
proof -
  have eq: "deliver n e = (\<lambda>ch. if length (ch_buf ch) < n then ch\<lparr>ch_buf := ch_buf ch @ [e]\<rparr> else ch)" for n
    by (rule ext) (simp add: deliver_def)
  show ?thesis
    using hub_Broadcast_spec [OF hubinv.reach_inv [OF assms], of task e] unfolding recipients_def eq by blast
qed

theorem hub_broadcast_delivers_witness:
  "\<exists>h'. hub_Broadcast ''a'' zero_event (fst (hub_Subscribe ''a'' (NewSSEHub 4))) = Some h'"
proof -
  have "reach (\<lambda>h. \<exists>n. h = NewSSEHub n) hub_step (NewSSEHub 4)" by (rule reach_init) blast
  then have "reach (\<lambda>h. \<exists>n. h = NewSSEHub n) hub_step (fst (hub_Subscribe ''a'' (NewSSEHub 4)))"
    by (rule reach_step) (rule subscribe, rule surjective_pairing)
  from hub_broadcast_delivers [OF this] show ?thesis by blast
qed

end
