(* ===== verification/AgentStore.thy ===== *)
theory AgentStore
  imports Prelude
begin

text \<open>
  \<open>internal/model/model.go\<close> (agent entries, task names, model tiers) and the agent table of
  \<open>internal/state/sqlitestore/sqlitestore.go\<close>: the transactional bulk path \<open>WithLock\<close> and
  the targeted single-row updates, among them the conditional ones on which the agent
  lifecycle rests. The \<open>Store\<close> interface of \<open>state/store.go\<close> appears as the locale
  \<open>agent_store\<close>, limited to what its clients rely on.
\<close>

subsection \<open>\<open>model.go\<close>\<close>

datatype agent_status =
    AgPending
  | AgQueued
  | AgRunning
  | AgStopped
  | AgCompleted
  | AgFailed
  | AgIdle
  | AgOther string

definition ag_terminal :: "agent_status \<Rightarrow> bool" where
  "ag_terminal st = (st \<in> {AgStopped, AgCompleted, AgFailed})"

record agent =
  ag_Task :: string
  ag_RuntimeType :: string
  ag_ResumeToken :: string
  ag_WorkspacePath :: string
  ag_BranchName :: string
  ag_BaseBranch :: string
  ag_Status :: agent_status
  ag_LastOutput :: string
  ag_StartTime :: int
  ag_Mode :: string
  ag_CurrentIntent :: string
  ag_MissionID :: int
  ag_ObjectiveID :: string

record chessmaster_status =
  cm_Status :: string
  cm_LastAction :: string
  cm_UpdatedAt :: int

record state =
  st_Agents :: "agent list"
  st_Chessmaster :: chessmaster_status

text \<open>
  The regular expression \<open>^[a-zA-Z0-9][a-zA-Z0-9_-]{0,63}$\<close> as a check on the bytes.
\<close>

definition task_first_char :: "char \<Rightarrow> bool" where
  "task_first_char c = (let n = (of_char c :: nat)
     in (97 \<le> n \<and> n \<le> 122) \<or> (65 \<le> n \<and> n \<le> 90) \<or> (48 \<le> n \<and> n \<le> 57))"

definition task_char :: "char \<Rightarrow> bool" where
  "task_char c = (task_first_char c \<or> c = CHR ''_'' \<or> c = CHR ''-'')"

definition invalid_task_name :: "string \<Rightarrow> error" where
  "invalid_task_name name =
     ErrMsg (''invalid task name '' @ quote name @ '': must match ^[a-zA-Z0-9][a-zA-Z0-9_-]{0,63}$'')"

fun ValidateTaskName :: "string \<Rightarrow> unit result" where
  "ValidateTaskName [] = Inl (invalid_task_name [])"
| "ValidateTaskName (c # cs) =
     (if task_first_char c \<and> list_all task_char cs \<and> length cs \<le> 63
      then Inr () else Inl (invalid_task_name (c # cs)))"

definition ResolveModelFromTier :: "string \<Rightarrow> (string \<rightharpoonup> string) option \<Rightarrow> string \<times> bool" where
  "ResolveModelFromTier tier tiers =
     (case tiers of
        None \<Rightarrow> ([], False)
      | Some m \<Rightarrow> (case m tier of None \<Rightarrow> ([], False) | Some v \<Rightarrow> (v, True)))"

subsection \<open>The SQLite agent table\<close>

record agent_db =
  db_agents :: "agent list"
  db_chessmaster :: "chessmaster_status option"

text \<open>\<open>time.RFC3339\<close> text keeps whole seconds; the zero time is the empty string.\<close>

definition rfc3339_time :: "int \<Rightarrow> int" where
  "rfc3339_time t = (if t = 0 then 0 else (t div second_ns) * second_ns)"

definition empty_chessmaster :: chessmaster_status where
  "empty_chessmaster = \<lparr>cm_Status = [], cm_LastAction = [], cm_UpdatedAt = 0\<rparr>"

definition loadTx :: "agent_db \<Rightarrow> state" where
  "loadTx db = \<lparr>st_Agents = db_agents db,
     st_Chessmaster = (case db_chessmaster db of None \<Rightarrow> empty_chessmaster | Some c \<Rightarrow> c)\<rparr>"

definition Load :: "db_fault \<Rightarrow> agent_db \<Rightarrow> state result" where
  "Load f db = (case f of Some e \<Rightarrow> Inl (ErrDb (''sqlitestore: load agents: '' @ e)) | None \<Rightarrow> Inr (loadTx db))"

definition insertAgentTx :: "agent \<Rightarrow> agent list \<Rightarrow> agent list result" where
  "insertAgentTx a rows =
     (if ag_Task a \<in> ag_Task ` set rows
      then Inl (ErrDb (''sqlitestore: insert agent '' @ ag_Task a @ '': UNIQUE constraint failed''))
      else Inr (rows @ [a\<lparr>ag_StartTime := rfc3339_time (ag_StartTime a)\<rparr>]))"

fun insert_agents :: "agent list \<Rightarrow> agent list \<Rightarrow> agent list result" where
  "insert_agents [] rows = Inr rows"
| "insert_agents (a # as) rows =
     (case insertAgentTx a rows of Inl e \<Rightarrow> Inl e | Inr rows' \<Rightarrow> insert_agents as rows')"

definition saveTx :: "state \<Rightarrow> agent_db \<Rightarrow> agent_db result" where
  "saveTx st db =
     (case insert_agents (st_Agents st) [] of
        Inl e \<Rightarrow> Inl e
      | Inr rows \<Rightarrow>
          let c = st_Chessmaster st
          in Inr \<lparr>db_agents = rows,
                  db_chessmaster = Some (c\<lparr>cm_UpdatedAt := rfc3339_time (cm_UpdatedAt c)\<rparr>)\<rparr>)"

definition WithLock :: "db_fault \<Rightarrow> (state \<Rightarrow> state result) \<Rightarrow> agent_db \<Rightarrow> agent_db \<times> unit result" where
  "WithLock f fn db =
     (case f of
        Some e \<Rightarrow> (db, Inl (ErrDb (''sqlitestore: '' @ e)))
      | None \<Rightarrow>
          (case fn (loadTx db) of
             Inl e \<Rightarrow> (db, Inl e)
           | Inr st \<Rightarrow> (case saveTx st db of Inl e \<Rightarrow> (db, Inl e) | Inr db' \<Rightarrow> (db', Inr ()))))"

definition FindAgent :: "db_fault \<Rightarrow> string \<Rightarrow> agent_db \<Rightarrow> agent option result" where
  "FindAgent f task db =
     (case f of
        Some e \<Rightarrow> Inl (ErrDb (''sqlitestore: find agent: '' @ e))
      | None \<Rightarrow> Inr (find (\<lambda>a. ag_Task a = task) (db_agents db)))"

definition agent_not_found :: "string \<Rightarrow> error" where
  "agent_not_found task = ErrMsg (''sqlitestore: agent '' @ task @ '' not found'')"

definition RemoveAgent :: "db_fault \<Rightarrow> string \<Rightarrow> agent_db \<Rightarrow> agent_db \<times> unit result" where
  "RemoveAgent f task db =
     (case f of
        Some e \<Rightarrow> (db, Inl (ErrDb (''sqlitestore: remove agent '' @ task @ '': '' @ e)))
      | None \<Rightarrow>
          if affected (\<lambda>a. ag_Task a = task) (db_agents db) = 0 then (db, Inl (agent_not_found task))
          else (db\<lparr>db_agents := filter (\<lambda>a. ag_Task a \<noteq> task) (db_agents db)\<rparr>, Inr ()))"

definition UpdateAgentStatus ::
    "db_fault \<Rightarrow> string \<Rightarrow> agent_status \<Rightarrow> string \<Rightarrow> agent_db \<Rightarrow> agent_db \<times> unit result" where
  "UpdateAgentStatus f task st out db =
     (case f of
        Some e \<Rightarrow> (db, Inl (ErrDb (''sqlitestore: update agent status '' @ task @ '': '' @ e)))
      | None \<Rightarrow>
          if affected (\<lambda>a. ag_Task a = task) (db_agents db) = 0 then (db, Inl (agent_not_found task))
          else (db\<lparr>db_agents := update_rows (\<lambda>a. ag_Task a = task)
                    (\<lambda>a. a\<lparr>ag_Status := st, ag_LastOutput := out\<rparr>) (db_agents db)\<rparr>, Inr ()))"

text \<open>The two \<open>SET\<close> lists of the result updates: an empty resume token keeps the stored one.\<close>

definition set_result :: "agent_status \<Rightarrow> string \<Rightarrow> string \<Rightarrow> agent \<Rightarrow> agent" where
  "set_result st out token a =
     (if token \<noteq> [] then a\<lparr>ag_Status := st, ag_LastOutput := out, ag_ResumeToken := token\<rparr>
      else a\<lparr>ag_Status := st, ag_LastOutput := out\<rparr>)"

definition UpdateAgentResult ::
    "db_fault \<Rightarrow> string \<Rightarrow> agent_status \<Rightarrow> string \<Rightarrow> string \<Rightarrow> agent_db \<Rightarrow> agent_db \<times> unit result" where
  "UpdateAgentResult f task st out token db =
     (case f of
        Some e \<Rightarrow> (db, Inl (ErrDb (''sqlitestore: update agent result '' @ task @ '': '' @ e)))
      | None \<Rightarrow>
          if affected (\<lambda>a. ag_Task a = task) (db_agents db) = 0 then (db, Inl (agent_not_found task))
          else (db\<lparr>db_agents := update_rows (\<lambda>a. ag_Task a = task) (set_result st out token) (db_agents db)\<rparr>,
                Inr ()))"

definition UpdateAgentStatusIf ::
    "db_fault \<Rightarrow> string \<Rightarrow> agent_status list \<Rightarrow> agent_status \<Rightarrow> string \<Rightarrow> agent_db \<Rightarrow> agent_db \<times> bool result" where
  "UpdateAgentStatusIf f task expected st out db =
     (if expected = [] then (db, Inr False)
      else case f of
        Some e \<Rightarrow> (db, Inl (ErrDb (''sqlitestore: update agent status if '' @ task @ '': '' @ e)))
      | None \<Rightarrow>
          let hit = (\<lambda>a. ag_Task a = task \<and> ag_Status a \<in> set expected)
          in (db\<lparr>db_agents := update_rows hit (\<lambda>a. a\<lparr>ag_Status := st, ag_LastOutput := out\<rparr>) (db_agents db)\<rparr>,
              Inr (affected hit (db_agents db) > 0)))"

definition UpdateAgentResultIf ::
    "db_fault \<Rightarrow> string \<Rightarrow> agent_status list \<Rightarrow> agent_status \<Rightarrow> string \<Rightarrow> string \<Rightarrow> agent_db
      \<Rightarrow> agent_db \<times> bool result" where
  "UpdateAgentResultIf f task expected st out token db =
     (if expected = [] then (db, Inr False)
      else case f of
        Some e \<Rightarrow> (db, Inl (ErrDb (''sqlitestore: update agent result if '' @ task @ '': '' @ e)))
      | None \<Rightarrow>
          let hit = (\<lambda>a. ag_Task a = task \<and> ag_Status a \<in> set expected)
          in (db\<lparr>db_agents := update_rows hit (set_result st out token) (db_agents db)\<rparr>,
              Inr (affected hit (db_agents db) > 0)))"

definition UpdateAgentIntent :: "db_fault \<Rightarrow> string \<Rightarrow> string \<Rightarrow> agent_db \<Rightarrow> agent_db \<times> unit result" where
  "UpdateAgentIntent f task intent db =
     (case f of
        Some e \<Rightarrow> (db, Inl (ErrDb (''sqlitestore: update agent intent '' @ task @ '': '' @ e)))
      | None \<Rightarrow>
          if affected (\<lambda>a. ag_Task a = task) (db_agents db) = 0 then (db, Inl (agent_not_found task))
          else (db\<lparr>db_agents := update_rows (\<lambda>a. ag_Task a = task)
                    (\<lambda>a. a\<lparr>ag_CurrentIntent := intent\<rparr>) (db_agents db)\<rparr>, Inr ()))"

definition UpdateChessmaster ::
    "db_fault \<Rightarrow> string \<Rightarrow> string \<Rightarrow> int \<Rightarrow> agent_db \<Rightarrow> agent_db \<times> unit result" where
  "UpdateChessmaster f status action at db =
     (case f of
        Some e \<Rightarrow> (db, Inl (ErrDb (''sqlitestore: update chessmaster: '' @ e)))
      | None \<Rightarrow>
          (db\<lparr>db_chessmaster :=
             Some \<lparr>cm_Status = status, cm_LastAction = action, cm_UpdatedAt = rfc3339_time at\<rparr>\<rparr>, Inr ()))"

definition ClaimAgent :: "db_fault \<Rightarrow> int \<Rightarrow> string \<Rightarrow> agent_db \<Rightarrow> agent_db \<times> unit result" where
  "ClaimAgent f now task db =
     (let hit = (\<lambda>a. ag_Task a = task \<and> ag_Status a = AgQueued)
      in case f of
           Some e \<Rightarrow> (db, Inl (ErrDb (''sqlitestore: claim agent '' @ task @ '': '' @ e)))
         | None \<Rightarrow>
             if affected hit (db_agents db) = 0 then (db, Inl ErrAgentNotClaimable)
             else (db\<lparr>db_agents := update_rows hit
                       (\<lambda>a. a\<lparr>ag_Status := AgRunning, ag_StartTime := rfc3339_time now\<rparr>) (db_agents db)\<rparr>,
                   Inr ()))"

subsection \<open>Bulk access: what \<open>WithLock\<close> stores\<close>

definition agents_ok :: "agent_db \<Rightarrow> bool" where
  "agents_ok db = distinct (map ag_Task (db_agents db))"

definition ag_look :: "agent_db \<Rightarrow> string \<Rightarrow> agent option" where
  "ag_look db task = find (\<lambda>a. ag_Task a = task) (db_agents db)"

definition stored_agent :: "agent \<Rightarrow> agent" where
  "stored_agent a = a\<lparr>ag_StartTime := rfc3339_time (ag_StartTime a)\<rparr>"

lemma rfc3339_time_idem [simp]: "rfc3339_time (rfc3339_time t) = rfc3339_time t"
  by (simp add: rfc3339_time_def second_ns_def)

lemma stored_agent_Task [simp]: "ag_Task (stored_agent a) = ag_Task a"
  by (simp add: stored_agent_def)

lemma insert_agents_spec:
  "insert_agents as rows =
     (if distinct (map ag_Task as) \<and> ag_Task ` set as \<inter> ag_Task ` set rows = {}
      then Inr (rows @ map stored_agent as) else insert_agents as rows)"
proof (induction as arbitrary: rows)
  case Nil
  then show ?case by simp
next
  case (Cons a as)
  show ?case
    using Cons.IH [of "rows @ [stored_agent a]"]
    by (auto simp: insertAgentTx_def stored_agent_def [symmetric])
qed

lemma insert_agents_ok_iff:
  "is_ok (insert_agents as rows) \<longleftrightarrow>
     distinct (map ag_Task as) \<and> ag_Task ` set as \<inter> ag_Task ` set rows = {}"
  by (induction as arbitrary: rows) (auto simp: insertAgentTx_def)

lemma insert_agents_Inr:
  "insert_agents as [] = Inr rows \<longleftrightarrow> distinct (map ag_Task as) \<and> rows = map stored_agent as"
  using insert_agents_spec [of as "[]"] insert_agents_ok_iff [of as "[]"]
  by (metis (mono_tags, lifting) append_Nil image_empty inf_bot_right is_ok.simps(2) list.set(1)
      sum.inject(2))

lemma WithLock_cases:
  assumes "WithLock f fn db = (db', r)"
  obtains (failed) e where "r = Inl e" "db' = db"
  | (committed) st where "r = Inr ()" "fn (loadTx db) = Inr st" "distinct (map ag_Task (st_Agents st))"
      "db_agents db' = map stored_agent (st_Agents st)"
  using assms
  by (auto simp: WithLock_def saveTx_def Let_def insert_agents_Inr split: option.splits sum.splits)

lemma WithLock_agents_ok: "agents_ok db \<Longrightarrow> WithLock f fn db = (db', r) \<Longrightarrow> agents_ok db'"
  by (erule WithLock_cases) (auto simp: agents_ok_def comp_def)

subsection \<open>The part of the \<open>Store\<close> interface the lifecycle relies on\<close>

locale agent_store =
  fixes invar :: "'s \<Rightarrow> bool"
    and look :: "'s \<Rightarrow> string \<Rightarrow> agent option"
    and status_if :: "string \<Rightarrow> agent_status list \<Rightarrow> agent_status \<Rightarrow> string \<Rightarrow> 's \<Rightarrow> 's \<times> bool result"
    and result_if ::
      "string \<Rightarrow> agent_status list \<Rightarrow> agent_status \<Rightarrow> string \<Rightarrow> string \<Rightarrow> 's \<Rightarrow> 's \<times> bool result"
    and claim :: "int \<Rightarrow> string \<Rightarrow> 's \<Rightarrow> 's \<times> unit result"
  assumes status_if_hit: "invar s \<Longrightarrow> look s task = Some a \<Longrightarrow> ag_Status a \<in> set ex \<Longrightarrow>
      status_if task ex st out s = (s', b) \<Longrightarrow>
      b = Inr True \<and> invar s' \<and> look s' = (look s)(task \<mapsto> a\<lparr>ag_Status := st, ag_LastOutput := out\<rparr>)"
    and status_if_miss: "invar s \<Longrightarrow> (\<And>a. look s task = Some a \<Longrightarrow> ag_Status a \<notin> set ex) \<Longrightarrow>
      status_if task ex st out s = (s, Inr False)"
    and result_if_hit: "invar s \<Longrightarrow> look s task = Some a \<Longrightarrow> ag_Status a \<in> set ex \<Longrightarrow>
      result_if task ex st out token s = (s', b) \<Longrightarrow>
      b = Inr True \<and> invar s' \<and> look s' = (look s)(task \<mapsto> set_result st out token a)"
    and result_if_miss: "invar s \<Longrightarrow> (\<And>a. look s task = Some a \<Longrightarrow> ag_Status a \<notin> set ex) \<Longrightarrow>
      result_if task ex st out token s = (s, Inr False)"
    and claim_hit: "invar s \<Longrightarrow> look s task = Some a \<Longrightarrow> ag_Status a = AgQueued \<Longrightarrow>
      claim now task s = (s', r) \<Longrightarrow>
      r = Inr () \<and> invar s' \<and>
      look s' = (look s)(task \<mapsto> a\<lparr>ag_Status := AgRunning, ag_StartTime := rfc3339_time now\<rparr>)"
    and claim_miss: "invar s \<Longrightarrow> (\<And>a. look s task = Some a \<Longrightarrow> ag_Status a \<noteq> AgQueued) \<Longrightarrow>
      claim now task s = (s, Inl ErrAgentNotClaimable)"
begin

lemma claim_once:
  assumes "invar s" "claim now task s = (s', Inr ())"
  shows "claim now' task s' = (s', Inl ErrAgentNotClaimable)"
proof -
  have "\<exists>a. look s task = Some a \<and> ag_Status a = AgQueued"
    using assms claim_miss [of s task now] by fastforce
  then obtain a where "look s task = Some a" "ag_Status a = AgQueued" by blast
  from claim_hit [OF assms(1) this assms(2)] show ?thesis by (auto intro!: claim_miss)
qed

lemma terminal_frozen:
  assumes "invar s" "look s task = Some a" "ag_terminal (ag_Status a)"
    and "\<And>x. x \<in> set ex \<Longrightarrow> \<not> ag_terminal x"
  shows "status_if task ex st out s = (s, Inr False)"
    and "result_if task ex st out token s = (s, Inr False)"
    and "claim now task s = (s, Inl ErrAgentNotClaimable)"
proof -
  from assms have "\<And>b. look s task = Some b \<Longrightarrow> ag_Status b \<notin> set ex" by auto
  then show "status_if task ex st out s = (s, Inr False)"
    and "result_if task ex st out token s = (s, Inr False)"
    using assms(1) by (auto intro!: status_if_miss result_if_miss)
  show "claim now task s = (s, Inl ErrAgentNotClaimable)"
    using assms(1-3) by (auto intro!: claim_miss simp: ag_terminal_def)
qed

end

lemma set_result_fields [simp]:
  "ag_Task (set_result st out token a) = ag_Task a"
  "ag_Status (set_result st out token a) = st"
  "ag_LastOutput (set_result st out token a) = out"
  "ag_ResumeToken (set_result st out token a) = (if token = [] then ag_ResumeToken a else token)"
  by (simp_all add: set_result_def)

lemma agents_ok_update_rows:
  assumes "\<And>a. ag_Task (u a) = ag_Task a" "agents_ok db"
  shows "agents_ok (db\<lparr>db_agents := update_rows p u (db_agents db)\<rparr>)"
  using assms by (simp add: agents_ok_def map_update_rows)

text \<open>A guarded update of one key: the table changes at that key only, and only if the guard holds.\<close>

lemma ag_look_guarded:
  assumes "\<And>a. ag_Task (u a) = ag_Task a" "agents_ok db" "ag_look db task = Some a" "G a"
  shows "ag_look (db\<lparr>db_agents := update_rows (\<lambda>a. ag_Task a = task \<and> G a) u (db_agents db)\<rparr>) =
    (ag_look db)(task \<mapsto> u a)"
proof
  fix t
  show "ag_look (db\<lparr>db_agents := update_rows (\<lambda>a. ag_Task a = task \<and> G a) u (db_agents db)\<rparr>) t =
    ((ag_look db)(task \<mapsto> u a)) t"
    using find_update_rows [of ag_Task u t "\<lambda>a. ag_Task a = task \<and> G a" "db_agents db"] assms
    by (cases "find (\<lambda>a. ag_Task a = t) (db_agents db)") (auto simp: ag_look_def dest: find_SomeD)
qed

lemma guarded_hit:
  "agents_ok db \<Longrightarrow> ag_look db task = Some a \<Longrightarrow> G a \<Longrightarrow>
    affected (\<lambda>a. ag_Task a = task \<and> G a) (db_agents db) > 0"
  by (auto simp: affected_def ag_look_def filter_empty_conv dest!: find_SomeD)

lemma guarded_miss:
  assumes "agents_ok db" "\<And>a. ag_look db task = Some a \<Longrightarrow> \<not> G a"
  shows "affected (\<lambda>a. ag_Task a = task \<and> G a) (db_agents db) = 0"
    and "db\<lparr>db_agents := update_rows (\<lambda>a. ag_Task a = task \<and> G a) u (db_agents db)\<rparr> = db"
proof -
  have "\<forall>a\<in>set (db_agents db). \<not> (ag_Task a = task \<and> G a)"
    using assms find_key_unique [of ag_Task "db_agents db"] by (auto simp: agents_ok_def ag_look_def)
  then show "affected (\<lambda>a. ag_Task a = task \<and> G a) (db_agents db) = 0"
    and "db\<lparr>db_agents := update_rows (\<lambda>a. ag_Task a = task \<and> G a) u (db_agents db)\<rparr> = db"
    by (simp_all add: affected_0_iff update_rows_none)
qed

interpretation sqlagents: agent_store agents_ok ag_look "UpdateAgentStatusIf None"
  "UpdateAgentResultIf None" "ClaimAgent None"
proof (unfold_locales, goal_cases)
  case (1 s task a ex st out s' b)
  then have "ex \<noteq> []" by auto
  with 1 show ?case
    using ag_look_guarded [of "\<lambda>a. a\<lparr>ag_Status := st, ag_LastOutput := out\<rparr>" s task a "\<lambda>a. ag_Status a \<in> set ex"]
      guarded_hit [of s task a "\<lambda>a. ag_Status a \<in> set ex"]
    by (auto simp: UpdateAgentStatusIf_def Let_def agents_ok_update_rows)
next
  case (2 s task ex st out)
  then show ?case
    using guarded_miss [of s task "\<lambda>a. ag_Status a \<in> set ex"] by (simp add: UpdateAgentStatusIf_def)
next
  case (3 s task a ex st out token s' b)
  then have "ex \<noteq> []" by auto
  with 3 show ?case
    using ag_look_guarded [of "set_result st out token" s task a "\<lambda>a. ag_Status a \<in> set ex"]
      guarded_hit [of s task a "\<lambda>a. ag_Status a \<in> set ex"]
    by (auto simp: UpdateAgentResultIf_def Let_def agents_ok_update_rows)
next
  case (4 s task ex st out token)
  then show ?case
    using guarded_miss [of s task "\<lambda>a. ag_Status a \<in> set ex"] by (simp add: UpdateAgentResultIf_def)
next
  case (5 s task a now s' r)
  then show ?case
    using ag_look_guarded [of "\<lambda>a. a\<lparr>ag_Status := AgRunning, ag_StartTime := rfc3339_time now\<rparr>" s task a
        "\<lambda>a. ag_Status a = AgQueued"] guarded_hit [of s task a "\<lambda>a. ag_Status a = AgQueued"]
    by (auto simp: ClaimAgent_def Let_def agents_ok_update_rows)
next
  case (6 s task now)
  then show ?case
    using guarded_miss [of s task "\<lambda>a. ag_Status a = AgQueued"] by (simp add: ClaimAgent_def)
qed

end
