(* ===== verification/Snapshot.thy ===== *)
theory Snapshot
  imports EventStore AgentStore
begin

text \<open>
  \<open>internal/events/snapshot.go\<close> and \<open>snapshotsink.go\<close>: the in-memory snapshot per agent,
  projected from the events, and its cleanup and heartbeat checks; \<open>alias.go\<close>: the flat
  event names; \<open>bus.go\<close> and \<open>storesink.go\<close>: the fan-out of an event to the sinks.
\<close>

subsection \<open>\<open>SnapshotStore\<close>\<close>

record agent_snapshot =
  sn_Task :: string
  sn_Status :: agent_status
  sn_Backend :: string
  sn_PodName :: string
  sn_StartedAt :: int
  sn_LastHeartbeatAt :: int
  sn_LastEventAt :: int
  sn_CurrentPhase :: string
  sn_CurrentTool :: string
  sn_LastMessageExcerpt :: string
  sn_MissionID :: int
  sn_ObjectiveID :: string
  sn_terminalAt :: int

definition new_snapshot :: "string \<Rightarrow> agent_snapshot" where
  "new_snapshot task =
     \<lparr>sn_Task = task, sn_Status = AgOther [], sn_Backend = [], sn_PodName = [], sn_StartedAt = 0,
      sn_LastHeartbeatAt = 0, sn_LastEventAt = 0, sn_CurrentPhase = [], sn_CurrentTool = [],
      sn_LastMessageExcerpt = [], sn_MissionID = 0, sn_ObjectiveID = [], sn_terminalAt = 0\<rparr>"

definition IsTerminal :: "agent_snapshot \<Rightarrow> bool" where
  "IsTerminal s = (case sn_Status s of AgCompleted \<Rightarrow> True | AgFailed \<Rightarrow> True | AgStopped \<Rightarrow> True | _ \<Rightarrow> False)"

record snapshot_store =
  ss_snapshots :: "(string \<times> agent_snapshot) list"
  ss_ttl :: int

definition NewSnapshotStore :: "int \<Rightarrow> snapshot_store" where
  "NewSnapshotStore ttl = \<lparr>ss_snapshots = [], ss_ttl = (if ttl = 0 then 30 * 60 * second_ns else ttl)\<rparr>"

definition ss_Update :: "string \<Rightarrow> (agent_snapshot \<Rightarrow> agent_snapshot) \<Rightarrow> snapshot_store \<Rightarrow> snapshot_store" where
  "ss_Update task fn s =
     (let snap = (case map_of (ss_snapshots s) task of None \<Rightarrow> new_snapshot task | Some x \<Rightarrow> x)
      in s\<lparr>ss_snapshots := AList.update task (fn snap) (ss_snapshots s)\<rparr>)"

definition ss_UpdateIfExists ::
    "string \<Rightarrow> (agent_snapshot \<Rightarrow> agent_snapshot) \<Rightarrow> snapshot_store \<Rightarrow> snapshot_store \<times> bool" where
  "ss_UpdateIfExists task fn s =
     (case map_of (ss_snapshots s) task of
        None \<Rightarrow> (s, False)
      | Some snap \<Rightarrow> (s\<lparr>ss_snapshots := AList.update task (fn snap) (ss_snapshots s)\<rparr>, True))"

definition ss_Get :: "string \<Rightarrow> snapshot_store \<Rightarrow> agent_snapshot option" where
  "ss_Get task s = map_of (ss_snapshots s) task"

definition ss_All :: "snapshot_store \<Rightarrow> (string \<times> agent_snapshot) list" where
  "ss_All s = ss_snapshots s"

definition ss_Remove :: "string \<Rightarrow> snapshot_store \<Rightarrow> snapshot_store" where
  "ss_Remove task s = s\<lparr>ss_snapshots := AList.delete task (ss_snapshots s)\<rparr>"

definition snapshot_expired :: "int \<Rightarrow> int \<Rightarrow> agent_snapshot \<Rightarrow> bool" where
  "snapshot_expired ttl now snap = (IsTerminal snap \<and> sn_terminalAt snap \<noteq> 0 \<and> now - sn_terminalAt snap > ttl)"

definition ss_Cleanup :: "int \<Rightarrow> snapshot_store \<Rightarrow> snapshot_store \<times> nat" where
  "ss_Cleanup now s =
     (let gone = (\<lambda>(task, snap). snapshot_expired (ss_ttl s) now snap)
      in (s\<lparr>ss_snapshots := filter (\<lambda>x. \<not> gone x) (ss_snapshots s)\<rparr>,
          length (filter gone (ss_snapshots s))))"

definition ss_Len :: "snapshot_store \<Rightarrow> nat" where
  "ss_Len s = length (ss_snapshots s)"

subsection \<open>\<open>SnapshotSink\<close>\<close>

definition attr :: "event \<Rightarrow> string \<Rightarrow> string" where
  "attr e k = (case map_of (ev_Attrs e) k of None \<Rightarrow> [] | Some v \<Rightarrow> v)"

text \<open>\<open>strings.TrimSpace(v) != ""\<close> on ASCII text: some byte is not white space.\<close>

definition is_space :: "char \<Rightarrow> bool" where
  "is_space c = (let n = (of_char c :: nat) in n = 32 \<or> (9 \<le> n \<and> n \<le> 13))"

definition attrOr :: "event \<Rightarrow> string \<Rightarrow> string \<Rightarrow> string" where
  "attrOr e key def =
     (case map_of (ev_Attrs e) key of
        None \<Rightarrow> def
      | Some v \<Rightarrow> if \<not> list_all is_space v then v else def)"

definition heartbeat_interval :: "int \<Rightarrow> int" where
  "heartbeat_interval d = (if d = 0 then 15 * second_ns else d)"

definition projectHeartbeat :: "event \<Rightarrow> agent_snapshot \<Rightarrow> agent_snapshot" where
  "projectHeartbeat e snap =
     (let s1 = snap\<lparr>sn_LastHeartbeatAt := ev_Time e\<rparr>;
          phase = attr e ''phase'';
          s2 = (if phase \<noteq> [] \<and> sn_CurrentPhase s1 \<in> {[], ''executing'', ''idle''}
                then s1\<lparr>sn_CurrentPhase := phase\<rparr> else s1);
          tool = attr e ''tool''
      in if tool \<noteq> [] then s2\<lparr>sn_CurrentTool := tool\<rparr> else s2)"

definition projectMessage :: "event \<Rightarrow> agent_snapshot \<Rightarrow> agent_snapshot" where
  "projectMessage e snap =
     (let text = (if attr e ''text_preview'' = [] then ev_Detail e else attr e ''text_preview'')
      in if text \<noteq> [] then snap\<lparr>sn_LastMessageExcerpt := (if length text > 256 then take 256 text else text)\<rparr>
         else snap)"

definition project_done :: "agent_status \<Rightarrow> event \<Rightarrow> agent_snapshot \<Rightarrow> agent_snapshot" where
  "project_done st e snap =
     snap\<lparr>sn_Status := st, sn_CurrentPhase := ''done'', sn_CurrentTool := [], sn_terminalAt := ev_Time e\<rparr>"

definition project_started :: "event \<Rightarrow> agent_snapshot \<Rightarrow> agent_snapshot" where
  "project_started e snap =
     (let s1 = snap\<lparr>sn_Status := AgRunning, sn_CurrentPhase := ''executing''\<rparr>;
          s2 = (if sn_StartedAt s1 = 0 then s1\<lparr>sn_StartedAt := ev_Time e\<rparr> else s1);
          s3 = (if attr e ''backend'' \<noteq> [] then s2\<lparr>sn_Backend := attr e ''backend''\<rparr> else s2)
      in if attr e ''pod_name'' \<noteq> [] then s3\<lparr>sn_PodName := attr e ''pod_name''\<rparr> else s3)"

definition project_action :: "event \<Rightarrow> agent_snapshot \<Rightarrow> agent_snapshot" where
  "project_action e snap =
     (let a = ev_Action e
      in if a = ''heartbeat'' then projectHeartbeat e snap
         else if a = ''tool.started'' then
           snap\<lparr>sn_CurrentTool := attrOr e ''tool_name'' [], sn_CurrentPhase := ''tool_use''\<rparr>
         else if a = ''tool.completed'' then snap\<lparr>sn_CurrentTool := [], sn_CurrentPhase := ''executing''\<rparr>
         else if a = ''lifecycle.started'' then project_started e snap
         else if a = ''lifecycle.completed'' then project_done AgCompleted e snap
         else if a = ''lifecycle.failed'' then project_done AgFailed e snap
         else if a = ''lifecycle.stopped'' then project_done AgStopped e snap
         else if a = ''message.delta'' \<or> a = ''message.completed'' then projectMessage e snap
         else if a = ''command.started'' then snap\<lparr>sn_CurrentPhase := ''executing''\<rparr>
         else if a = ''turn.started'' then snap\<lparr>sn_CurrentPhase := ''thinking''\<rparr>
         else if a = ''turn.completed'' then snap\<lparr>sn_CurrentPhase := ''executing''\<rparr>
         else snap)"

definition projectFn :: "event \<Rightarrow> agent_snapshot \<Rightarrow> agent_snapshot" where
  "projectFn e snap =
     (let s1 = snap\<lparr>sn_LastEventAt := ev_Time e\<rparr>;
          s2 = (if ev_MissionID e \<noteq> 0 then s1\<lparr>sn_MissionID := ev_MissionID e\<rparr> else s1);
          s3 = (if ev_ObjectiveID e \<noteq> [] then s2\<lparr>sn_ObjectiveID := ev_ObjectiveID e\<rparr> else s2)
      in project_action e s3)"

definition snapsink_Handle :: "event \<Rightarrow> snapshot_store \<Rightarrow> snapshot_store" where
  "snapsink_Handle e s =
     (if ev_Task e = [] then s
      else if terminal_action (ev_Action e) then fst (ss_UpdateIfExists (ev_Task e) (projectFn e) s)
      else ss_Update (ev_Task e) (projectFn e) s)"

definition unresponsive_due :: "int \<Rightarrow> int \<Rightarrow> agent_snapshot \<Rightarrow> bool" where
  "unresponsive_due interval now snap =
     (\<not> IsTerminal snap \<and> sn_LastHeartbeatAt snap \<noteq> 0 \<and> now - sn_LastHeartbeatAt snap > 3 * interval)"

text \<open>The callback and its captured flag \<open>marked\<close>: the flag is read off the snapshot before.\<close>

definition CheckUnresponsive :: "int \<Rightarrow> string \<Rightarrow> int \<Rightarrow> snapshot_store \<Rightarrow> snapshot_store \<times> bool" where
  "CheckUnresponsive interval task now s =
     (let before = (case map_of (ss_snapshots s) task of None \<Rightarrow> new_snapshot task | Some x \<Rightarrow> x);
          hit = (\<lambda>snap. unresponsive_due interval now snap \<and> sn_CurrentPhase snap \<noteq> ''unresponsive'')
      in (ss_Update task (\<lambda>snap. if hit snap then snap\<lparr>sn_CurrentPhase := ''unresponsive''\<rparr> else snap) s,
          hit before))"

fun check_all :: "int \<Rightarrow> int \<Rightarrow> (string \<times> agent_snapshot) list \<Rightarrow> snapshot_store \<times> nat \<Rightarrow> snapshot_store \<times> nat" where
  "check_all interval now [] acc = acc"
| "check_all interval now ((task, snap) # rest) (s, count) =
     check_all interval now rest
       (if unresponsive_due interval now snap
        then (let cur = (case map_of (ss_snapshots s) task of None \<Rightarrow> new_snapshot task | Some x \<Rightarrow> x);
                  hit = (\<lambda>x. sn_CurrentPhase x \<noteq> ''unresponsive'' \<and> \<not> IsTerminal x)
              in (ss_Update task (\<lambda>x. if hit x then x\<lparr>sn_CurrentPhase := ''unresponsive''\<rparr> else x) s,
                  if hit cur then count + 1 else count))
        else (s, count))"

definition CheckAllUnresponsive :: "int \<Rightarrow> int \<Rightarrow> snapshot_store \<Rightarrow> snapshot_store \<times> nat" where
  "CheckAllUnresponsive interval now s = check_all interval now (ss_All s) (s, 0)"

subsection \<open>\<open>LegacyAlias\<close>\<close>

definition replace_dots :: "string \<Rightarrow> string" where
  "replace_dots s = map (\<lambda>c. if c = CHR ''.'' then CHR ''_'' else c) s"

definition LegacyAlias :: "event \<Rightarrow> string" where
  "LegacyAlias e =
     (let a = ev_Action e; comp = ev_Component e; cat = ev_Category e; out = ev_Outcome e
      in if cat = ''agent_activity'' then
           (if a = ''lifecycle.started'' then ''agent_lifecycle_started''
            else if a = ''lifecycle.completed'' then ''agent_lifecycle_completed''
            else if a = ''lifecycle.failed'' then ''agent_lifecycle_failed''
            else if a = ''heartbeat'' then ''agent_heartbeat''
            else if a = ''message.delta'' then ''agent_message_delta''
            else if a = ''message.completed'' then ''agent_message_completed''
            else if a = ''tool.started'' then ''agent_tool_started''
            else if a = ''tool.completed'' then ''agent_tool_completed''
            else if a = ''command.started'' then ''agent_command_started''
            else if a = ''command.completed'' then ''agent_command_completed''
            else if a = ''file.changed'' then ''agent_file_changed''
            else if a = ''turn.started'' then ''agent_turn_started''
            else if a = ''turn.completed'' then ''agent_turn_completed''
            else ''agent_'' @ replace_dots a)
         else if comp = ''gateway'' \<and> a = ''status_change'' then
           (if attr e ''status'' \<noteq> [] then ''gateway_'' @ attr e ''status'' else ''gateway_status_change'')
         else if comp = ''mcpclient'' \<and> a = ''connect_attempt'' \<and> out = ''failure'' then ''backend_connect_failed''
         else if comp = ''mcpclient'' \<and> a = ''connect_attempt'' \<and> out = ''timeout'' then ''backend_connect_timeout''
         else if comp = ''mcpclient'' \<and> a = ''tool_refresh'' then ''backend_tool_refresh''
         else if comp = ''orchestrator'' \<and> cat = ''auth'' \<and> a = ''seed'' then
           (if out = ''success'' then ''auth_seed_ok'' else ''auth_seed_failed'')
         else if comp = ''orchestrator'' \<and> a = ''create'' then ''job_created''
         else if comp = ''orchestrator'' \<and> a = ''complete'' then ''completed''
         else if comp = ''orchestrator'' \<and> a = ''fail'' then ''failed''
         else if comp = ''runtime.k8s'' \<and> a = ''job_create'' then ''k8s_job_created''
         else if comp = ''runtime.k8s'' \<and> a = ''pod_schedule'' then ''k8s_pod_scheduled''
         else if comp = ''strategy'' \<and> a = ''execute'' then
           (if out = ''success'' then ''strategy_executed'' else ''strategy_failed'')
         else if comp = ''worker'' \<and> cat = ''queue'' \<and> a = ''claim'' then ''queue_claimed''
         else if comp = ''worker'' \<and> cat = ''queue'' \<and> a = ''fail'' then ''queue_failed''
         else if comp = ''worker'' \<and> cat = ''objective'' \<and> a = ''resolve'' then ''objective_resolved''
         else if comp \<noteq> [] \<and> a \<noteq> [] then comp @ ''_'' @ a
         else ''unknown'')"

subsection \<open>\<open>FanoutBus\<close>\<close>

text \<open>
  A sink transforms the state it owns and may fail; \<open>Emit\<close> runs every sink and only logs the
  failures, here collected as the second component.
\<close>

type_synonym 'w sink = "event \<Rightarrow> 'w \<Rightarrow> 'w \<times> error option"

fun fanout_Emit :: "event \<Rightarrow> 'w sink list \<Rightarrow> 'w \<Rightarrow> 'w \<times> error list" where
  "fanout_Emit e [] w = (w, [])"
| "fanout_Emit e (s # ss) w =
     (case s e w of (w1, err) \<Rightarrow>
        (case fanout_Emit e ss w1 of (w2, errs) \<Rightarrow>
           (w2, (case err of None \<Rightarrow> errs | Some x \<Rightarrow> x # errs))))"

lemma fanout_Emit_runs_all: "fst (fanout_Emit e ss w) = fold (\<lambda>s w. fst (s e w)) ss w"
  by (induction ss arbitrary: w) (simp_all add: split_beta)

lemma fanout_Emit_append:
  "fst (fanout_Emit e (ss @ ts) w) = fst (fanout_Emit e ts (fst (fanout_Emit e ss w)))"
  by (simp add: fanout_Emit_runs_all)

subsection \<open>Laws of the projection\<close>

lemma map_of_ss_Update:
  "map_of (ss_snapshots (ss_Update task fn s)) =
     (map_of (ss_snapshots s))(task \<mapsto>
        fn (case map_of (ss_snapshots s) task of None \<Rightarrow> new_snapshot task | Some x \<Rightarrow> x))"
  by (simp add: ss_Update_def Let_def update_conv')

lemma ss_Update_ttl [simp]: "ss_ttl (ss_Update task fn s) = ss_ttl s"
  by (simp add: ss_Update_def Let_def)

text \<open>The status an action sets, if it sets one.\<close>

definition action_status :: "string \<Rightarrow> agent_status option" where
  "action_status a =
     (if a = ''lifecycle.started'' then Some AgRunning
      else if a = ''lifecycle.completed'' then Some AgCompleted
      else if a = ''lifecycle.failed'' then Some AgFailed
      else if a = ''lifecycle.stopped'' then Some AgStopped else None)"

text \<open>The fields that the parts of the projection leave alone.\<close>

lemma projectHeartbeat_frame [simp]:
  "sn_Status (projectHeartbeat e snap) = sn_Status snap"
  "sn_Task (projectHeartbeat e snap) = sn_Task snap"
  "sn_LastEventAt (projectHeartbeat e snap) = sn_LastEventAt snap"
  "sn_LastMessageExcerpt (projectHeartbeat e snap) = sn_LastMessageExcerpt snap"
  by (simp_all add: projectHeartbeat_def Let_def)

lemma projectMessage_frame [simp]:
  "sn_Status (projectMessage e snap) = sn_Status snap"
  "sn_Task (projectMessage e snap) = sn_Task snap"
  "sn_LastEventAt (projectMessage e snap) = sn_LastEventAt snap"
  "length (sn_LastMessageExcerpt snap) \<le> 256 \<Longrightarrow>
     length (sn_LastMessageExcerpt (projectMessage e snap)) \<le> 256"
  by (simp_all add: projectMessage_def Let_def)

lemma project_started_frame [simp]:
  "sn_Status (project_started e snap) = AgRunning"
  "sn_Task (project_started e snap) = sn_Task snap"
  "sn_LastEventAt (project_started e snap) = sn_LastEventAt snap"
  "sn_LastMessageExcerpt (project_started e snap) = sn_LastMessageExcerpt snap"
  by (simp_all add: project_started_def Let_def)

lemma project_done_frame [simp]:
  "sn_Status (project_done st e snap) = st"
  "sn_Task (project_done st e snap) = sn_Task snap"
  "sn_LastEventAt (project_done st e snap) = sn_LastEventAt snap"
  "sn_LastMessageExcerpt (project_done st e snap) = sn_LastMessageExcerpt snap"
  by (simp_all add: project_done_def)

lemma sn_Status_project_action:
  "sn_Status (project_action e snap) = (case action_status (ev_Action e) of None \<Rightarrow> sn_Status snap | Some st \<Rightarrow> st)"
  by (simp add: project_action_def action_status_def Let_def)

lemma project_action_frame [simp]:
  "sn_Task (project_action e snap) = sn_Task snap"
  "sn_LastEventAt (project_action e snap) = sn_LastEventAt snap"
  "length (sn_LastMessageExcerpt snap) \<le> 256 \<Longrightarrow>
     length (sn_LastMessageExcerpt (project_action e snap)) \<le> 256"
  by (simp_all add: project_action_def Let_def)

lemma sn_Status_projectFn:
  "sn_Status (projectFn e snap) = (case action_status (ev_Action e) of None \<Rightarrow> sn_Status snap | Some st \<Rightarrow> st)"
  by (simp add: projectFn_def sn_Status_project_action Let_def split: option.splits)

lemma sn_Task_projectFn [simp]: "sn_Task (projectFn e snap) = sn_Task snap"
  by (simp add: projectFn_def Let_def)

lemma sn_LastEventAt_projectFn: "sn_LastEventAt (projectFn e snap) = ev_Time e"
  by (simp add: projectFn_def Let_def)

lemma sn_excerpt_projectFn:
  "length (sn_LastMessageExcerpt snap) \<le> 256 \<Longrightarrow> length (sn_LastMessageExcerpt (projectFn e snap)) \<le> 256"
  by (simp add: projectFn_def Let_def)

lemma project_action_terminal:
  assumes "terminal_action (ev_Action e)"
  shows "\<exists>st. ag_terminal st \<and> action_status (ev_Action e) = Some st \<and> project_action e snap = project_done st e snap"
proof -
  have "ev_Action e = ''lifecycle.completed'' \<or> ev_Action e = ''lifecycle.failed'' \<or> ev_Action e = ''lifecycle.stopped''"
    using assms by (auto simp: terminal_action_def)
  then show ?thesis
    by (elim disjE) (simp_all add: project_action_def action_status_def ag_terminal_def)
qed

lemma terminal_projectFn:
  assumes "terminal_action (ev_Action e)"
  shows "ag_terminal (sn_Status (projectFn e snap)) \<and> sn_CurrentPhase (projectFn e snap) = ''done'' \<and>
    sn_CurrentTool (projectFn e snap) = [] \<and> sn_terminalAt (projectFn e snap) = ev_Time e"
proof -
  obtain st where "ag_terminal st" "\<And>sn. project_action e sn = project_done st e sn"
    using project_action_terminal [OF assms] by (metis option.inject)
  then show ?thesis by (simp add: projectFn_def Let_def project_done_def)
qed

lemma IsTerminal_iff: "IsTerminal snap \<longleftrightarrow> ag_terminal (sn_Status snap)"
  by (auto simp: IsTerminal_def ag_terminal_def split: agent_status.splits)

text \<open>What one event does to the snapshot of one task.\<close>

lemma ss_Get_Handle:
  "ss_Get t (snapsink_Handle e s) =
     (if t \<noteq> ev_Task e \<or> ev_Task e = [] then ss_Get t s
      else case ss_Get t s of
             None \<Rightarrow> if terminal_action (ev_Action e) then None else Some (projectFn e (new_snapshot t))
           | Some snap \<Rightarrow> Some (projectFn e snap))"
  by (auto simp: snapsink_Handle_def ss_Get_def map_of_ss_Update ss_UpdateIfExists_def update_conv'
      split: option.splits)

definition ss_ok :: "snapshot_store \<Rightarrow> bool" where
  "ss_ok s = (distinct (map fst (ss_snapshots s)) \<and>
     (\<forall>(t, snap)\<in>set (ss_snapshots s). sn_Task snap = t \<and> length (sn_LastMessageExcerpt snap) \<le> 256))"

lemma ss_ok_Get: "ss_ok s \<Longrightarrow> ss_Get t s = Some snap \<Longrightarrow> sn_Task snap = t \<and> length (sn_LastMessageExcerpt snap) \<le> 256"
  by (auto simp: ss_ok_def ss_Get_def dest!: map_of_SomeD)

lemma ss_ok_update:
  assumes "ss_ok s" "sn_Task snap = t" "length (sn_LastMessageExcerpt snap) \<le> 256"
  shows "ss_ok (s\<lparr>ss_snapshots := AList.update t snap (ss_snapshots s)\<rparr>)"
  using assms by (auto simp: ss_ok_def distinct_update dest!: AList_update_mem)

lemma ss_ok_Update:
  assumes "ss_ok s" "\<And>x. sn_Task (fn x) = sn_Task x"
    "\<And>x. length (sn_LastMessageExcerpt x) \<le> 256 \<Longrightarrow> length (sn_LastMessageExcerpt (fn x)) \<le> 256"
  shows "ss_ok (ss_Update task fn s)"
proof -
  let ?x = "case map_of (ss_snapshots s) task of None \<Rightarrow> new_snapshot task | Some x \<Rightarrow> x"
  have "sn_Task ?x = task \<and> length (sn_LastMessageExcerpt ?x) \<le> 256"
    using ss_ok_Get [OF assms(1), of task] by (auto simp: ss_Get_def new_snapshot_def split: option.splits)
  then show ?thesis unfolding ss_Update_def Let_def
    using assms by (auto intro!: ss_ok_update)
qed

lemma ss_ok_Handle: "ss_ok s \<Longrightarrow> ss_ok (snapsink_Handle e s)"
  by (auto simp: snapsink_Handle_def ss_UpdateIfExists_def sn_excerpt_projectFn
      intro!: ss_ok_Update ss_ok_update dest: ss_ok_Get [unfolded ss_Get_def] split: option.splits)

lemma ss_ok_New: "ss_ok (NewSnapshotStore ttl)"
  by (simp add: ss_ok_def NewSnapshotStore_def)

lemma map_of_filter_keys:
  "distinct (map fst xs) \<Longrightarrow>
    map_of (filter (\<lambda>(k, v). P k v) xs) k = (case map_of xs k of None \<Rightarrow> None | Some v \<Rightarrow> if P k v then Some v else None)"
  by (induction xs) (auto simp: map_of_eq_None_iff image_iff split: option.splits)

lemma ss_Get_Cleanup:
  assumes "ss_ok s"
  shows "ss_Get t (fst (ss_Cleanup now s)) =
    (case ss_Get t s of None \<Rightarrow> None | Some snap \<Rightarrow> if snapshot_expired (ss_ttl s) now snap then None else Some snap)"
proof -
  have eq: "(\<lambda>x. \<not> (case x of (task, snap) \<Rightarrow> snapshot_expired (ss_ttl s) now snap)) =
    (\<lambda>(k, v). \<not> snapshot_expired (ss_ttl s) now v)" by auto
  show ?thesis
    using map_of_filter_keys [of "ss_snapshots s" "\<lambda>k v. \<not> snapshot_expired (ss_ttl s) now v" t] assms
    by (simp add: ss_Get_def ss_Cleanup_def Let_def eq ss_ok_def split: option.splits)
qed

text \<open>The status of a task after a run of events: the last lifecycle event decides.\<close>

fun run_status :: "string \<Rightarrow> agent_status \<Rightarrow> event list \<Rightarrow> agent_status" where
  "run_status t st [] = st"
| "run_status t st (e # es) =
     run_status t (if ev_Task e = t then (case action_status (ev_Action e) of None \<Rightarrow> st | Some x \<Rightarrow> x) else st) es"

lemma ss_Get_run:
  assumes "ss_Get t s = Some snap" "t \<noteq> []"
  shows "\<exists>snap'. ss_Get t (fold snapsink_Handle es s) = Some snap' \<and> sn_Status snap' = run_status t (sn_Status snap) es"
  using assms
proof (induction es arbitrary: s snap)
  case Nil
  then show ?case by simp
next
  case (Cons e es)
  show ?case
  proof (cases "ev_Task e = t")
    case True
    with Cons.prems have "ss_Get t (snapsink_Handle e s) = Some (projectFn e snap)"
      by (simp add: ss_Get_Handle)
    from Cons.IH [OF this Cons.prems(2)] True show ?thesis by (simp add: sn_Status_projectFn)
  next
    case False
    with Cons.prems have "ss_Get t (snapsink_Handle e s) = Some snap"
      by (simp add: ss_Get_Handle)
    from Cons.IH [OF this Cons.prems(2)] False show ?thesis by simp
  qed
qed

subsection \<open>Heartbeat checks\<close>

definition mark_unresponsive :: "int \<Rightarrow> int \<Rightarrow> agent_snapshot \<Rightarrow> agent_snapshot" where
  "mark_unresponsive iv now snap =
     (if unresponsive_due iv now snap then snap\<lparr>sn_CurrentPhase := ''unresponsive''\<rparr> else snap)"

definition newly_unresponsive :: "int \<Rightarrow> int \<Rightarrow> agent_snapshot \<Rightarrow> bool" where
  "newly_unresponsive iv now snap \<longleftrightarrow> unresponsive_due iv now snap \<and> sn_CurrentPhase snap \<noteq> ''unresponsive''"

lemma check_all_Cons:
  assumes "map_of (ss_snapshots s) task = Some snap"
  shows "\<exists>s1. map_of (ss_snapshots s1) = (map_of (ss_snapshots s))(task \<mapsto> mark_unresponsive iv now snap) \<and>
    check_all iv now ((task, snap) # xs) (s, n) =
      check_all iv now xs (s1, if newly_unresponsive iv now snap then n + 1 else n)"
proof (cases "unresponsive_due iv now snap")
  case True
  then have nt: "\<not> IsTerminal snap" by (simp add: unresponsive_due_def)
  have same: "sn_CurrentPhase snap = ''unresponsive'' \<Longrightarrow> snap\<lparr>sn_CurrentPhase := ''unresponsive''\<rparr> = snap"
    by (cases snap) simp
  show ?thesis
    using True nt assms same
    by (intro exI [of _ "ss_Update task (\<lambda>x. if sn_CurrentPhase x \<noteq> ''unresponsive'' \<and> \<not> IsTerminal x
      then x\<lparr>sn_CurrentPhase := ''unresponsive''\<rparr> else x) s"])
      (auto simp: map_of_ss_Update mark_unresponsive_def newly_unresponsive_def Let_def)
next
  case False
  with assms show ?thesis
    by (intro exI [of _ s]) (auto simp: mark_unresponsive_def newly_unresponsive_def)
qed

lemma check_all_spec:
  assumes "distinct (map fst xs)" "\<forall>(t, snap)\<in>set xs. map_of (ss_snapshots s) t = Some snap"
  shows "map_of (ss_snapshots (fst (check_all iv now xs (s, n)))) t =
      (case map_of xs t of
         None \<Rightarrow> map_of (ss_snapshots s) t
       | Some snap \<Rightarrow> Some (mark_unresponsive iv now snap)) \<and>
    snd (check_all iv now xs (s, n)) = n + length (filter (newly_unresponsive iv now \<circ> snd) xs)"
  using assms
proof (induction xs arbitrary: s n)
  case Nil
  then show ?case by simp
next
  case (Cons x xs)
  obtain task snap where x: "x = (task, snap)" by fastforce
  with Cons.prems have cur: "map_of (ss_snapshots s) task = Some snap" by simp
  from check_all_Cons [OF cur, of iv now xs n] obtain s1 where
    s1: "map_of (ss_snapshots s1) = (map_of (ss_snapshots s))(task \<mapsto> mark_unresponsive iv now snap)" and
    eq: "check_all iv now ((task, snap) # xs) (s, n) =
      check_all iv now xs (s1, if newly_unresponsive iv now snap then n + 1 else n)" by blast
  have fresh: "task \<notin> fst ` set xs" using Cons.prems(1) x by simp
  have "\<forall>(t, sn)\<in>set xs. map_of (ss_snapshots s1) t = Some sn"
    using Cons.prems(2) fresh by (force simp: s1)
  from Cons.IH [OF _ this, of "if newly_unresponsive iv now snap then n + 1 else n"] Cons.prems(1)
  have ih: "map_of (ss_snapshots (fst (check_all iv now (x # xs) (s, n)))) t =
      (case map_of xs t of None \<Rightarrow> map_of (ss_snapshots s1) t | Some snap \<Rightarrow> Some (mark_unresponsive iv now snap))"
    "snd (check_all iv now (x # xs) (s, n)) =
      (if newly_unresponsive iv now snap then n + 1 else n) + length (filter (newly_unresponsive iv now \<circ> snd) xs)"
    unfolding x eq by (simp_all add: comp_def)
  have none: "map_of xs task = None" using fresh by (simp add: map_of_eq_None_iff)
  show ?case unfolding ih using none by (simp add: x s1 comp_def split: option.splits)
qed

lemma CheckAllUnresponsive_spec:
  assumes "ss_ok s"
  shows "ss_Get t (fst (CheckAllUnresponsive iv now s)) = map_option (mark_unresponsive iv now) (ss_Get t s)"
    and "snd (CheckAllUnresponsive iv now s) =
      length (filter (newly_unresponsive iv now \<circ> snd) (ss_snapshots s))"
  using check_all_spec [of "ss_snapshots s" s iv now 0 t] assms
  by (auto simp: CheckAllUnresponsive_def ss_All_def ss_Get_def ss_ok_def split: option.splits)

subsection \<open>What the snapshot store guarantees\<close>

text \<open>
  The sweep marks exactly the snapshots that are due (not terminal and
  without a heartbeat for too long), changes nothing else of them, creates none, and reports how many
  it marked that were not marked before.
\<close>

theorem unresponsive_sweep:
  assumes "ss_ok s"
  shows "ss_Get t (fst (CheckAllUnresponsive iv now s)) =
      map_option (\<lambda>snap. if unresponsive_due iv now snap then snap\<lparr>sn_CurrentPhase := ''unresponsive''\<rparr> else snap) (ss_Get t s) \<and>
    snd (CheckAllUnresponsive iv now s) =
      length (filter (\<lambda>(k, snap). unresponsive_due iv now snap \<and> sn_CurrentPhase snap \<noteq> ''unresponsive'') (ss_snapshots s))"
proof -
  have new: "(newly_unresponsive iv now \<circ> snd) = (\<lambda>(k, snap). unresponsive_due iv now snap \<and> sn_CurrentPhase snap \<noteq> ''unresponsive'')"
    by (auto simp: newly_unresponsive_def fun_eq_iff)
  have mark: "mark_unresponsive iv now =
      (\<lambda>snap. if unresponsive_due iv now snap then snap\<lparr>sn_CurrentPhase := ''unresponsive''\<rparr> else snap)"
    by (rule ext) (simp add: mark_unresponsive_def)
  show ?thesis
    unfolding CheckAllUnresponsive_spec(1) [OF assms, of t iv now] CheckAllUnresponsive_spec(2) [OF assms, of iv now]
      new mark by simp
qed

definition sample_snapshots :: snapshot_store where
  "sample_snapshots =
     (NewSnapshotStore 0)\<lparr>ss_snapshots := [(''a'', (new_snapshot ''a'')\<lparr>sn_Status := AgRunning, sn_LastHeartbeatAt := 1\<rparr>)]\<rparr>"

theorem unresponsive_sweep_witness:
  "map_option sn_CurrentPhase (ss_Get ''a'' (fst (CheckAllUnresponsive 30 100 sample_snapshots))) = Some ''unresponsive'' \<and>
     snd (CheckAllUnresponsive 30 100 sample_snapshots) = 1"
proof -
  have "ss_ok sample_snapshots" by (simp add: ss_ok_def sample_snapshots_def new_snapshot_def)
  from unresponsive_sweep [OF this, of "''a''" 30 100] show ?thesis
    by (simp add: sample_snapshots_def ss_Get_def new_snapshot_def unresponsive_due_def IsTerminal_def)
qed

end
