(* ===== verification/AgentLifecycle.thy ===== *)
theory AgentLifecycle
  imports Snapshot "HOL-Library.Multiset"
begin

text \<open>
  \<open>internal/agentlifecycle\<close>: the writer through which every agent transition goes, over the
  SQLite agent table. A transition is a guarded row update, then a canonical event on the bus,
  then the progress hook. The theory gives the seven operations, the abstract automaton they
  implement (\<open>agent_move\<close>), the refinement between the two, and what follows for the event
  stream and for the snapshots projected from it.
\<close>

subsection \<open>\<open>types.go\<close> and \<open>writer.go\<close>\<close>

record LifecycleMeta =
  lm_RuntimeType :: string
  lm_Backend :: string
  lm_MissionID :: int
  lm_ObjectiveID :: string
  lm_Reason :: string

record ResultMeta =
  rm_LifecycleMeta :: LifecycleMeta
  rm_LastOutput :: string
  rm_ResumeToken :: string

record CreationMeta =
  cm_LifecycleMeta :: LifecycleMeta
  cm_WorkspacePath :: string
  cm_BranchName :: string
  cm_BaseBranch :: string
  cm_Mode :: string

text \<open>
  The writer's optional collaborators: whether a bus and a progress hook are set, and the
  admission check run inside the lock. What it acts on: the agent table, the events given to
  the bus so far, and how often the progress hook ran.
\<close>

record writer =
  w_bus :: bool
  w_admissionCheck :: "(state \<Rightarrow> error option) option"
  w_progressHook :: bool

record lifecycle_world =
  lw_db :: agent_db
  lw_events :: "event list"
  lw_progress :: nat

definition CloneWithBus :: "bool \<Rightarrow> writer \<Rightarrow> writer" where
  "CloneWithBus bus w = w\<lparr>w_bus := bus\<rparr>"

definition CloneWithProgressHook :: "bool \<Rightarrow> writer \<Rightarrow> writer" where
  "CloneWithProgressHook hook w = w\<lparr>w_progressHook := hook\<rparr>"

definition lifecycle_attrs :: "LifecycleMeta \<Rightarrow> (string \<times> string) list" where
  "lifecycle_attrs meta =
     (if lm_RuntimeType meta \<noteq> [] then [(''runtime'', lm_RuntimeType meta)] else [])
     @ (if lm_Backend meta \<noteq> [] then [(''backend'', lm_Backend meta)] else [])
     @ (if lm_MissionID meta \<noteq> 0 then [(''mission_id'', itoa (lm_MissionID meta))] else [])"

definition lifecycle_event :: "string \<Rightarrow> int \<Rightarrow> string \<Rightarrow> string \<Rightarrow> string \<Rightarrow> LifecycleMeta \<Rightarrow> event" where
  "lifecycle_event uuid now task action severity meta =
     zero_event\<lparr>ev_ID := uuid, ev_Time := now, ev_Component := ''agentlifecycle'',
       ev_Category := ''agent_activity'', ev_Action := action, ev_Severity := severity,
       ev_Task := task, ev_MissionID := lm_MissionID meta, ev_ObjectiveID := lm_ObjectiveID meta,
       ev_Detail := lm_Reason meta, ev_Attrs := lifecycle_attrs meta\<rparr>"

definition emitLifecycleEvent ::
    "writer \<Rightarrow> string \<Rightarrow> int \<Rightarrow> string \<Rightarrow> string \<Rightarrow> string \<Rightarrow> LifecycleMeta \<Rightarrow> lifecycle_world \<Rightarrow> lifecycle_world" where
  "emitLifecycleEvent w uuid now task action severity meta lw =
     (if \<not> w_bus w then lw
      else lw\<lparr>lw_events := lw_events lw @ [lifecycle_event uuid now task action severity meta]\<rparr>)"

definition triggerProgress :: "writer \<Rightarrow> lifecycle_world \<Rightarrow> lifecycle_world" where
  "triggerProgress w lw = (if w_progressHook w then lw\<lparr>lw_progress := lw_progress lw + 1\<rparr> else lw)"

text \<open>\<open>t0\<close> is the clock reading for the start time, \<open>now\<close> the one for the event.\<close>

definition started_entry :: "int \<Rightarrow> string \<Rightarrow> CreationMeta \<Rightarrow> agent" where
  "started_entry t0 task meta =
     \<lparr>ag_Task = task, ag_RuntimeType = lm_RuntimeType (cm_LifecycleMeta meta), ag_ResumeToken = [],
      ag_WorkspacePath = cm_WorkspacePath meta, ag_BranchName = cm_BranchName meta,
      ag_BaseBranch = cm_BaseBranch meta, ag_Status = AgRunning, ag_LastOutput = [],
      ag_StartTime = t0, ag_Mode = cm_Mode meta, ag_CurrentIntent = [],
      ag_MissionID = lm_MissionID (cm_LifecycleMeta meta),
      ag_ObjectiveID = lm_ObjectiveID (cm_LifecycleMeta meta)\<rparr>"

definition RecordAgentStarted ::
    "writer \<Rightarrow> db_fault \<Rightarrow> string \<Rightarrow> int \<Rightarrow> int \<Rightarrow> string \<Rightarrow> CreationMeta \<Rightarrow> lifecycle_world
      \<Rightarrow> lifecycle_world \<times> unit result" where
  "RecordAgentStarted w f uuid t0 now task meta lw =
     (case WithLock f (\<lambda>st.
        case (case w_admissionCheck w of None \<Rightarrow> None | Some check \<Rightarrow> check st) of
          Some err \<Rightarrow> Inl err
        | None \<Rightarrow> Inr (st\<lparr>st_Agents := st_Agents st @ [started_entry t0 task meta]\<rparr>)) (lw_db lw) of
        (db, Inl err) \<Rightarrow> (lw\<lparr>lw_db := db\<rparr>, Inl err)
      | (db, Inr _) \<Rightarrow>
          (triggerProgress w (emitLifecycleEvent w uuid now task ''lifecycle.started'' ''info''
             (cm_LifecycleMeta meta) (lw\<lparr>lw_db := db\<rparr>)), Inr ()))"

definition ClaimQueuedAgent ::
    "writer \<Rightarrow> db_fault \<Rightarrow> string \<Rightarrow> int \<Rightarrow> int \<Rightarrow> string \<Rightarrow> LifecycleMeta \<Rightarrow> lifecycle_world
      \<Rightarrow> lifecycle_world \<times> unit result" where
  "ClaimQueuedAgent w f uuid t0 now task meta lw =
     (case ClaimAgent f t0 task (lw_db lw) of
        (db, Inl err) \<Rightarrow>
          (lw\<lparr>lw_db := db\<rparr>,
           Inl (if err = ErrAgentNotClaimable then ErrTransitionSkipped
                else ErrMsg (''claim agent '' @ task @ '': '' @ error_string err)))
      | (db, Inr _) \<Rightarrow>
          (triggerProgress w (emitLifecycleEvent w uuid now task ''lifecycle.started'' ''info'' meta
             (lw\<lparr>lw_db := db\<rparr>)), Inr ()))"

definition MarkRunning ::
    "writer \<Rightarrow> db_fault \<Rightarrow> string \<Rightarrow> LifecycleMeta \<Rightarrow> lifecycle_world \<Rightarrow> lifecycle_world \<times> unit result" where
  "MarkRunning w f task meta lw =
     (case UpdateAgentStatusIf f task [AgIdle] AgRunning [] (lw_db lw) of
        (db, Inl err) \<Rightarrow> (lw\<lparr>lw_db := db\<rparr>, Inl err)
      | (db, Inr ok) \<Rightarrow>
          if \<not> ok then (lw\<lparr>lw_db := db\<rparr>, Inl ErrTransitionSkipped)
          else (triggerProgress w (lw\<lparr>lw_db := db\<rparr>), Inr ()))"

definition MarkIdle ::
    "writer \<Rightarrow> db_fault \<Rightarrow> string \<Rightarrow> string \<Rightarrow> string \<Rightarrow> LifecycleMeta \<Rightarrow> lifecycle_world
      \<Rightarrow> lifecycle_world \<times> unit result" where
  "MarkIdle w f task out resumeToken meta lw =
     (case UpdateAgentResultIf f task [AgRunning] AgIdle out resumeToken (lw_db lw) of
        (db, Inl err) \<Rightarrow> (lw\<lparr>lw_db := db\<rparr>, Inl err)
      | (db, Inr ok) \<Rightarrow>
          if \<not> ok then (lw\<lparr>lw_db := db\<rparr>, Inl ErrTransitionSkipped)
          else (triggerProgress w (lw\<lparr>lw_db := db\<rparr>), Inr ()))"

definition MarkCompleted ::
    "writer \<Rightarrow> db_fault \<Rightarrow> string \<Rightarrow> int \<Rightarrow> string \<Rightarrow> ResultMeta \<Rightarrow> lifecycle_world
      \<Rightarrow> lifecycle_world \<times> unit result" where
  "MarkCompleted w f uuid now task res lw =
     (case UpdateAgentResultIf f task [AgRunning, AgIdle] AgCompleted (rm_LastOutput res)
             (rm_ResumeToken res) (lw_db lw) of
        (db, Inl err) \<Rightarrow> (lw\<lparr>lw_db := db\<rparr>, Inl err)
      | (db, Inr ok) \<Rightarrow>
          if \<not> ok then (lw\<lparr>lw_db := db\<rparr>, Inl ErrTransitionSkipped)
          else (triggerProgress w (emitLifecycleEvent w uuid now task ''lifecycle.completed'' ''info''
                  (rm_LifecycleMeta res) (lw\<lparr>lw_db := db\<rparr>)), Inr ()))"

definition MarkFailed ::
    "writer \<Rightarrow> db_fault \<Rightarrow> string \<Rightarrow> int \<Rightarrow> string \<Rightarrow> ResultMeta \<Rightarrow> lifecycle_world
      \<Rightarrow> lifecycle_world \<times> unit result" where
  "MarkFailed w f uuid now task res lw =
     (case UpdateAgentResultIf f task [AgRunning, AgIdle, AgQueued] AgFailed (rm_LastOutput res)
             (rm_ResumeToken res) (lw_db lw) of
        (db, Inl err) \<Rightarrow> (lw\<lparr>lw_db := db\<rparr>, Inl err)
      | (db, Inr ok) \<Rightarrow>
          if \<not> ok then (lw\<lparr>lw_db := db\<rparr>, Inl ErrTransitionSkipped)
          else (triggerProgress w (emitLifecycleEvent w uuid now task ''lifecycle.failed'' ''error''
                  (rm_LifecycleMeta res) (lw\<lparr>lw_db := db\<rparr>)), Inr ()))"

definition MarkStopped ::
    "writer \<Rightarrow> db_fault \<Rightarrow> string \<Rightarrow> int \<Rightarrow> string \<Rightarrow> LifecycleMeta \<Rightarrow> lifecycle_world
      \<Rightarrow> lifecycle_world \<times> unit result" where
  "MarkStopped w f uuid now task meta lw =
     (case UpdateAgentStatusIf f task [AgQueued, AgRunning, AgIdle] AgStopped (lm_Reason meta) (lw_db lw) of
        (db, Inl err) \<Rightarrow> (lw\<lparr>lw_db := db\<rparr>, Inl err)
      | (db, Inr ok) \<Rightarrow>
          if \<not> ok then (lw\<lparr>lw_db := db\<rparr>, Inl ErrTransitionSkipped)
          else (triggerProgress w (emitLifecycleEvent w uuid now task ''lifecycle.stopped'' ''warn'' meta
                  (lw\<lparr>lw_db := db\<rparr>)), Inr ()))"

subsection \<open>Runs of the writer\<close>

text \<open>
  Whole operations, one after the other; \<open>shared_step\<close> below splits them where goroutines interleave.
\<close>

inductive lifecycle_step :: "writer \<Rightarrow> lifecycle_world \<Rightarrow> lifecycle_world \<Rightarrow> bool" for w where
  ls_start: "RecordAgentStarted w f uuid t0 now task cmeta lw = (lw', r) \<Longrightarrow> lifecycle_step w lw lw'"
| ls_claim: "ClaimQueuedAgent w f uuid t0 now task meta lw = (lw', r) \<Longrightarrow> lifecycle_step w lw lw'"
| ls_run: "MarkRunning w f task meta lw = (lw', r) \<Longrightarrow> lifecycle_step w lw lw'"
| ls_idle: "MarkIdle w f task out token meta lw = (lw', r) \<Longrightarrow> lifecycle_step w lw lw'"
| ls_complete: "MarkCompleted w f uuid now task res lw = (lw', r) \<Longrightarrow> lifecycle_step w lw lw'"
| ls_fail: "MarkFailed w f uuid now task res lw = (lw', r) \<Longrightarrow> lifecycle_step w lw lw'"
| ls_stop: "MarkStopped w f uuid now task meta lw = (lw', r) \<Longrightarrow> lifecycle_step w lw lw'"

subsection \<open>The abstract automaton\<close>

text \<open>
  One move on the map of agents with the event it emits: a new agent starts, a queued one is
  claimed, a running one goes idle or back, a live one finishes; or nothing happens.
\<close>

inductive agent_move :: "(string \<rightharpoonup> agent) \<Rightarrow> (string \<rightharpoonup> agent) \<Rightarrow> event option \<Rightarrow> bool" where
  am_none: "agent_move m m None"
| am_start: "m t = None \<Longrightarrow> ag_Status a' = AgRunning \<Longrightarrow> ev_Task e = t \<Longrightarrow>
    ev_Action e = ''lifecycle.started'' \<Longrightarrow> agent_move m (m(t \<mapsto> a')) (Some e)"
| am_claim: "m t = Some a \<Longrightarrow> ag_Status a = AgQueued \<Longrightarrow> ag_Status a' = AgRunning \<Longrightarrow> ev_Task e = t \<Longrightarrow>
    ev_Action e = ''lifecycle.started'' \<Longrightarrow> agent_move m (m(t \<mapsto> a')) (Some e)"
| am_quiet: "m t = Some a \<Longrightarrow> (ag_Status a, ag_Status a') \<in> {(AgIdle, AgRunning), (AgRunning, AgIdle)} \<Longrightarrow>
    agent_move m (m(t \<mapsto> a')) None"
| am_finish: "m t = Some a \<Longrightarrow> ag_Status a \<in> {AgRunning, AgIdle, AgQueued} \<Longrightarrow> ag_terminal (ag_Status a') \<Longrightarrow>
    ev_Task e = t \<Longrightarrow> action_status (ev_Action e) = Some (ag_Status a') \<Longrightarrow>
    agent_move m (m(t \<mapsto> a')) (Some e)"

inductive_cases agent_moveE: "agent_move m m' oe"

definition bus_events :: "writer \<Rightarrow> event option \<Rightarrow> event list" where
  "bus_events w oe = (case oe of Some e \<Rightarrow> if w_bus w then [e] else [] | None \<Rightarrow> [])"

text \<open>Rows as the table holds them: unique tasks, start times with whole seconds.\<close>

definition db_ok :: "agent_db \<Rightarrow> bool" where
  "db_ok db \<longleftrightarrow> agents_ok db \<and> (\<forall>a\<in>set (db_agents db). stored_agent a = a)"

lemma db_ok_look: "db_ok db \<longleftrightarrow> agents_ok db \<and> (\<forall>t a. ag_look db t = Some a \<longrightarrow> stored_agent a = a)"
  using find_key_unique [of ag_Task "db_agents db"]
  by (auto simp: db_ok_def agents_ok_def ag_look_def dest: find_SomeD)

lemma stored_agent_updates [simp]:
  "stored_agent (set_result st out token a) = a\<lparr>ag_Status := st, ag_LastOutput := out,
     ag_ResumeToken := ag_ResumeToken (set_result st out token a), ag_StartTime := rfc3339_time (ag_StartTime a)\<rparr>"
  "stored_agent (a\<lparr>ag_Status := st, ag_LastOutput := out\<rparr>) = (stored_agent a)\<lparr>ag_Status := st, ag_LastOutput := out\<rparr>"
  "stored_agent (a\<lparr>ag_Status := st, ag_StartTime := rfc3339_time n\<rparr>) = a\<lparr>ag_Status := st, ag_StartTime := rfc3339_time n\<rparr>"
  by (cases a; simp add: stored_agent_def set_result_def)+

lemma db_ok_set:
  assumes "db_ok db" "agents_ok db'" "ag_look db' = (ag_look db)(task \<mapsto> a')" "stored_agent a' = a'"
  shows "db_ok db'"
  using assms by (auto simp: db_ok_look)

lemma stored_set_result: "stored_agent a = a \<Longrightarrow> stored_agent (set_result st out token a) = set_result st out token a"
  by (cases a) (simp add: stored_agent_def set_result_def)

text \<open>The three guarded updates: they hit a row that meets the guard, or leave the table alone.\<close>

lemma status_if_effect:
  assumes "db_ok db" "ex \<noteq> []" "UpdateAgentStatusIf f task ex st out db = (db', r)"
  shows "(r = Inr True \<and> db_ok db' \<and> (\<exists>a. ag_look db task = Some a \<and> ag_Status a \<in> set ex \<and>
      ag_look db' = (ag_look db)(task \<mapsto> a\<lparr>ag_Status := st, ag_LastOutput := out\<rparr>))) \<or>
    (r \<noteq> Inr True \<and> db' = db)"
proof (cases "f = None \<and> (\<exists>a. ag_look db task = Some a \<and> ag_Status a \<in> set ex)")
  case True
  then obtain a where a: "ag_look db task = Some a" "ag_Status a \<in> set ex" by blast
  have ok: "agents_ok db" and st: "stored_agent a = a" using assms(1) a by (auto simp: db_ok_look)
  note h = sqlagents.status_if_hit [OF ok a, of st out db' r]
  show ?thesis using True assms h a st db_ok_set [OF assms(1), of db' task] by auto
next
  case False
  then show ?thesis
    using assms sqlagents.status_if_miss [of db task ex st out]
    by (cases f) (auto simp: db_ok_def UpdateAgentStatusIf_def)
qed

lemma result_if_effect:
  assumes "db_ok db" "ex \<noteq> []" "UpdateAgentResultIf f task ex st out token db = (db', r)"
  shows "(r = Inr True \<and> db_ok db' \<and> (\<exists>a. ag_look db task = Some a \<and> ag_Status a \<in> set ex \<and>
      ag_look db' = (ag_look db)(task \<mapsto> set_result st out token a))) \<or>
    (r \<noteq> Inr True \<and> db' = db)"
proof (cases "f = None \<and> (\<exists>a. ag_look db task = Some a \<and> ag_Status a \<in> set ex)")
  case True
  then obtain a where a: "ag_look db task = Some a" "ag_Status a \<in> set ex" by blast
  have ok: "agents_ok db" and st: "stored_agent a = a" using assms(1) a by (auto simp: db_ok_look)
  note h = sqlagents.result_if_hit [OF ok a, of st out token db' r]
  show ?thesis
    using True assms h a db_ok_set [OF assms(1), of db' task] stored_set_result [OF st] by auto
next
  case False
  then show ?thesis
    using assms sqlagents.result_if_miss [of db task ex st out token]
    by (cases f) (auto simp: db_ok_def UpdateAgentResultIf_def)
qed

lemma claim_effect:
  assumes "db_ok db" "ClaimAgent f now task db = (db', r)"
  shows "(r = Inr () \<and> db_ok db' \<and> (\<exists>a. ag_look db task = Some a \<and> ag_Status a = AgQueued \<and>
      ag_look db' = (ag_look db)(task \<mapsto> a\<lparr>ag_Status := AgRunning, ag_StartTime := rfc3339_time now\<rparr>))) \<or>
    ((\<exists>e. r = Inl e) \<and> db' = db)"
proof (cases "f = None \<and> (\<exists>a. ag_look db task = Some a \<and> ag_Status a = AgQueued)")
  case True
  then obtain a where a: "ag_look db task = Some a" "ag_Status a = AgQueued" by blast
  have ok: "agents_ok db" using assms(1) by (simp add: db_ok_def)
  note h = sqlagents.claim_hit [OF ok a, of now db' r]
  show ?thesis using True assms h a db_ok_set [OF assms(1), of db' task] by auto
next
  case False
  then show ?thesis
    using assms sqlagents.claim_miss [of db task now]
    by (cases f) (auto simp: db_ok_def ClaimAgent_def)
qed

lemma append_effect:
  assumes "db_ok db" "WithLock f (\<lambda>st. case chk st of Some err \<Rightarrow> Inl err
      | None \<Rightarrow> Inr (st\<lparr>st_Agents := st_Agents st @ [a]\<rparr>)) db = (db', r)"
  shows "(r = Inr () \<and> db_ok db' \<and> ag_look db (ag_Task a) = None \<and>
      ag_look db' = (ag_look db)(ag_Task a \<mapsto> stored_agent a)) \<or> ((\<exists>e. r = Inl e) \<and> db' = db)"
  using assms(2)
proof (cases rule: WithLock_cases)
  case (committed st)
  then have st: "st_Agents st = db_agents db @ [a]" by (auto simp: loadTx_def split: option.splits)
  have "map stored_agent (db_agents db) = db_agents db" using assms(1) by (auto simp: db_ok_def intro: map_idI)
  then have rows: "db_agents db' = db_agents db @ [stored_agent a]" using committed st by simp
  have new: "ag_Task a \<notin> ag_Task ` set (db_agents db)" using committed st by simp
  then have none: "ag_look db (ag_Task a) = None" unfolding ag_look_def find_None_iff by (metis imageI)
  have look: "ag_look db' = (ag_look db)(ag_Task a \<mapsto> stored_agent a)"
    using new none by (auto simp: ag_look_def rows find_append split: option.splits)
  have "agents_ok db'" using committed by (simp add: agents_ok_def comp_def)
  then have "db_ok db'" using db_ok_set [OF assms(1) _ look] by (simp add: stored_agent_def)
  with look none committed show ?thesis by simp
qed auto

subsection \<open>Refinement\<close>

definition moves :: "writer \<Rightarrow> lifecycle_world \<Rightarrow> lifecycle_world \<Rightarrow> bool" where
  "moves w lw lw' \<longleftrightarrow> db_ok (lw_db lw') \<and>
     (\<exists>oe. agent_move (ag_look (lw_db lw)) (ag_look (lw_db lw')) oe \<and> lw_events lw' = lw_events lw @ bus_events w oe)"

lemma triggerProgress_fields [simp]:
  "lw_db (triggerProgress w lw) = lw_db lw" "lw_events (triggerProgress w lw) = lw_events lw"
  by (simp_all add: triggerProgress_def)

lemma emit_fields [simp]:
  "lw_db (emitLifecycleEvent w uuid now task act sev meta lw) = lw_db lw"
  "lw_events (emitLifecycleEvent w uuid now task act sev meta lw) =
     lw_events lw @ bus_events w (Some (lifecycle_event uuid now task act sev meta))"
  by (simp_all add: emitLifecycleEvent_def bus_events_def)

lemma lifecycle_event_fields [simp]:
  "ev_Task (lifecycle_event uuid now task act sev meta) = task"
  "ev_Action (lifecycle_event uuid now task act sev meta) = act"
  by (simp_all add: lifecycle_event_def)

lemma bus_events_None [simp]: "bus_events w None = []"
  by (simp add: bus_events_def)

lemma moves_skip: "db_ok (lw_db lw) \<Longrightarrow> moves w lw (lw\<lparr>lw_db := lw_db lw\<rparr>)"
  by (auto simp: moves_def intro!: exI [of _ None] am_none)

lemma moves_quiet:
  assumes "db_ok db" "ag_look (lw_db lw) task = Some a"
    "ag_look db = (ag_look (lw_db lw))(task \<mapsto> a')"
    "(ag_Status a, ag_Status a') \<in> {(AgIdle, AgRunning), (AgRunning, AgIdle)}"
  shows "moves w lw (triggerProgress w (lw\<lparr>lw_db := db\<rparr>))"
  using assms am_quiet [of "ag_look (lw_db lw)" task a a'] by (auto simp: moves_def intro!: exI [of _ None])

lemma moves_event:
  assumes "db_ok db" "agent_move (ag_look (lw_db lw)) (ag_look db) (Some (lifecycle_event uuid now task act sev meta))"
  shows "moves w lw (triggerProgress w (emitLifecycleEvent w uuid now task act sev meta (lw\<lparr>lw_db := db\<rparr>)))"
  using assms unfolding moves_def by (intro conjI exI) (assumption | simp)+

lemma moves_finish:
  assumes "db_ok db" "ag_look (lw_db lw) task = Some a" "ag_Status a \<in> {AgRunning, AgIdle, AgQueued}"
    "ag_look db = (ag_look (lw_db lw))(task \<mapsto> a')" "ag_terminal (ag_Status a')"
    "action_status act = Some (ag_Status a')"
  shows "moves w lw (triggerProgress w (emitLifecycleEvent w uuid now task act sev meta (lw\<lparr>lw_db := db\<rparr>)))"
  using assms by (intro moves_event) (auto intro!: am_finish)

lemma RecordAgentStarted_moves:
  assumes "db_ok (lw_db lw)" "RecordAgentStarted w f uuid t0 now task meta lw = (lw', r)"
  shows "moves w lw lw'"
proof -
  let ?a = "started_entry t0 task meta"
  obtain db r' where wl: "WithLock f (\<lambda>st. case (case w_admissionCheck w of None \<Rightarrow> None | Some check \<Rightarrow> check st) of
          Some err \<Rightarrow> Inl err | None \<Rightarrow> Inr (st\<lparr>st_Agents := st_Agents st @ [?a]\<rparr>)) (lw_db lw) = (db, r')"
    by fastforce
  have task: "ag_Task ?a = task" "ag_Status (stored_agent ?a) = AgRunning"
    by (simp_all add: started_entry_def stored_agent_def)
  from append_effect [OF assms(1) wl] show ?thesis
    using assms moves_skip [OF assms(1), of w] task
    by (auto simp: RecordAgentStarted_def wl intro!: moves_event am_start)
qed

lemma ClaimQueuedAgent_moves:
  assumes "db_ok (lw_db lw)" "ClaimQueuedAgent w f uuid t0 now task meta lw = (lw', r)"
  shows "moves w lw lw'"
proof -
  obtain db r' where c: "ClaimAgent f t0 task (lw_db lw) = (db, r')" by fastforce
  from claim_effect [OF assms(1) c] show ?thesis
  proof (elim disjE conjE exE)
    fix a assume a: "r' = Inr ()" "db_ok db" "ag_look (lw_db lw) task = Some a" "ag_Status a = AgQueued"
      "ag_look db = (ag_look (lw_db lw))(task \<mapsto> a\<lparr>ag_Status := AgRunning, ag_StartTime := rfc3339_time t0\<rparr>)"
    then have "agent_move (ag_look (lw_db lw)) (ag_look db)
        (Some (lifecycle_event uuid now task ''lifecycle.started'' ''info'' meta))"
      using am_claim [of "ag_look (lw_db lw)" task a] by simp
    with a assms(2) show ?thesis by (auto simp: ClaimQueuedAgent_def c intro!: moves_event)
  qed (use assms moves_skip [OF assms(1), of w] in \<open>auto simp: ClaimQueuedAgent_def c\<close>)
qed

text \<open>The operations built on the conditional updates share their shape.\<close>

lemma result_if_moves:
  assumes "db_ok (lw_db lw)" "ex \<noteq> []" "UpdateAgentResultIf f task ex st out token (lw_db lw) = (db, r')"
    and "\<And>a. db_ok db \<Longrightarrow> ag_look (lw_db lw) task = Some a \<Longrightarrow> ag_Status a \<in> set ex \<Longrightarrow>
      ag_look db = (ag_look (lw_db lw))(task \<mapsto> set_result st out token a) \<Longrightarrow> moves w lw done"
  shows "moves w lw (case r' of Inl e \<Rightarrow> lw\<lparr>lw_db := db\<rparr> | Inr ok \<Rightarrow> if ok then done else lw\<lparr>lw_db := db\<rparr>)"
  using result_if_effect [OF assms(1-3)] assms(4) moves_skip [OF assms(1), of w]
  by (auto split: sum.splits)

lemma status_if_moves:
  assumes "db_ok (lw_db lw)" "ex \<noteq> []" "UpdateAgentStatusIf f task ex st out (lw_db lw) = (db, r')"
    and "\<And>a. db_ok db \<Longrightarrow> ag_look (lw_db lw) task = Some a \<Longrightarrow> ag_Status a \<in> set ex \<Longrightarrow>
      ag_look db = (ag_look (lw_db lw))(task \<mapsto> a\<lparr>ag_Status := st, ag_LastOutput := out\<rparr>) \<Longrightarrow> moves w lw done"
  shows "moves w lw (case r' of Inl e \<Rightarrow> lw\<lparr>lw_db := db\<rparr> | Inr ok \<Rightarrow> if ok then done else lw\<lparr>lw_db := db\<rparr>)"
  using status_if_effect [OF assms(1-3)] assms(4) moves_skip [OF assms(1), of w]
  by (auto split: sum.splits)

lemma MarkRunning_moves:
  assumes "db_ok (lw_db lw)" "MarkRunning w f task meta lw = (lw', r)"
  shows "moves w lw lw'"
proof -
  obtain db r' where c: "UpdateAgentStatusIf f task [AgIdle] AgRunning [] (lw_db lw) = (db, r')" by fastforce
  let ?d = "triggerProgress w (lw\<lparr>lw_db := db\<rparr>)"
  have "moves w lw (case r' of Inl e \<Rightarrow> lw\<lparr>lw_db := db\<rparr> | Inr ok \<Rightarrow> if ok then ?d else lw\<lparr>lw_db := db\<rparr>)"
    by (rule status_if_moves [OF assms(1) _ c]) (simp, erule (2) moves_quiet, simp)
  with assms(2) show ?thesis by (auto simp: MarkRunning_def c split: sum.splits if_splits)
qed

lemma MarkIdle_moves:
  assumes "db_ok (lw_db lw)" "MarkIdle w f task out token meta lw = (lw', r)"
  shows "moves w lw lw'"
proof -
  obtain db r' where c: "UpdateAgentResultIf f task [AgRunning] AgIdle out token (lw_db lw) = (db, r')" by fastforce
  let ?d = "triggerProgress w (lw\<lparr>lw_db := db\<rparr>)"
  have "moves w lw (case r' of Inl e \<Rightarrow> lw\<lparr>lw_db := db\<rparr> | Inr ok \<Rightarrow> if ok then ?d else lw\<lparr>lw_db := db\<rparr>)"
    by (rule result_if_moves [OF assms(1) _ c]) (simp, erule (2) moves_quiet, simp)
  with assms(2) show ?thesis by (auto simp: MarkIdle_def c split: sum.splits if_splits)
qed

lemma MarkCompleted_moves:
  assumes "db_ok (lw_db lw)" "MarkCompleted w f uuid now task res lw = (lw', r)"
  shows "moves w lw lw'"
proof -
  obtain db r' where c: "UpdateAgentResultIf f task [AgRunning, AgIdle] AgCompleted (rm_LastOutput res)
    (rm_ResumeToken res) (lw_db lw) = (db, r')" by fastforce
  let ?d = "triggerProgress w (emitLifecycleEvent w uuid now task ''lifecycle.completed'' ''info''
    (rm_LifecycleMeta res) (lw\<lparr>lw_db := db\<rparr>))"
  have "moves w lw (case r' of Inl e \<Rightarrow> lw\<lparr>lw_db := db\<rparr> | Inr ok \<Rightarrow> if ok then ?d else lw\<lparr>lw_db := db\<rparr>)"
    by (rule result_if_moves [OF assms(1) _ c]) (auto elim!: moves_finish simp: ag_terminal_def action_status_def)
  with assms(2) show ?thesis by (auto simp: MarkCompleted_def c split: sum.splits if_splits)
qed

lemma MarkFailed_moves:
  assumes "db_ok (lw_db lw)" "MarkFailed w f uuid now task res lw = (lw', r)"
  shows "moves w lw lw'"
proof -
  obtain db r' where c: "UpdateAgentResultIf f task [AgRunning, AgIdle, AgQueued] AgFailed (rm_LastOutput res)
    (rm_ResumeToken res) (lw_db lw) = (db, r')" by fastforce
  let ?d = "triggerProgress w (emitLifecycleEvent w uuid now task ''lifecycle.failed'' ''error''
    (rm_LifecycleMeta res) (lw\<lparr>lw_db := db\<rparr>))"
  have "moves w lw (case r' of Inl e \<Rightarrow> lw\<lparr>lw_db := db\<rparr> | Inr ok \<Rightarrow> if ok then ?d else lw\<lparr>lw_db := db\<rparr>)"
    by (rule result_if_moves [OF assms(1) _ c]) (auto elim!: moves_finish simp: ag_terminal_def action_status_def)
  with assms(2) show ?thesis by (auto simp: MarkFailed_def c split: sum.splits if_splits)
qed

lemma MarkStopped_moves:
  assumes "db_ok (lw_db lw)" "MarkStopped w f uuid now task meta lw = (lw', r)"
  shows "moves w lw lw'"
proof -
  obtain db r' where c: "UpdateAgentStatusIf f task [AgQueued, AgRunning, AgIdle] AgStopped (lm_Reason meta)
    (lw_db lw) = (db, r')" by fastforce
  let ?d = "triggerProgress w (emitLifecycleEvent w uuid now task ''lifecycle.stopped'' ''warn''
    meta (lw\<lparr>lw_db := db\<rparr>))"
  have "moves w lw (case r' of Inl e \<Rightarrow> lw\<lparr>lw_db := db\<rparr> | Inr ok \<Rightarrow> if ok then ?d else lw\<lparr>lw_db := db\<rparr>)"
    by (rule status_if_moves [OF assms(1) _ c]) (auto elim!: moves_finish simp: ag_terminal_def action_status_def)
  with assms(2) show ?thesis by (auto simp: MarkStopped_def c split: sum.splits if_splits)
qed

lemma lifecycle_step_moves: "lifecycle_step w lw lw' \<Longrightarrow> db_ok (lw_db lw) \<Longrightarrow> moves w lw lw'"
  by (induction rule: lifecycle_step.induct)
    (blast intro: RecordAgentStarted_moves ClaimQueuedAgent_moves MarkRunning_moves MarkIdle_moves
      MarkCompleted_moves MarkFailed_moves MarkStopped_moves)+

subsection \<open>The event stream and the snapshots follow the table\<close>

lemma terminal_action_iff: "terminal_action a \<longleftrightarrow> (\<exists>st. action_status a = Some st \<and> ag_terminal st)"
  by (auto simp: terminal_action_def action_status_def ag_terminal_def)

definition terminal_events :: "string \<Rightarrow> event list \<Rightarrow> event list" where
  "terminal_events t es = filter (\<lambda>e. ev_Task e = t \<and> terminal_action (ev_Action e)) es"

definition is_finished :: "agent option \<Rightarrow> bool" where
  "is_finished oa = (case oa of None \<Rightarrow> False | Some a \<Rightarrow> ag_terminal (ag_Status a))"

definition snapshots_of :: "event list \<Rightarrow> snapshot_store" where
  "snapshots_of es = fold snapsink_Handle es (NewSnapshotStore 0)"

text \<open>A snapshot shows its agent as running until the table has a terminal status, and then that one.\<close>

definition snapshot_agrees :: "agent option \<Rightarrow> agent_snapshot option \<Rightarrow> bool" where
  "snapshot_agrees oa os = (case os of None \<Rightarrow> True | Some snap \<Rightarrow>
     (case oa of None \<Rightarrow> False | Some a \<Rightarrow>
        sn_Status snap = (if ag_terminal (ag_Status a) then ag_Status a else AgRunning)))"

lemma move_keeps_finished:
  assumes "agent_move m m' oe" "m t = Some a" "ag_terminal (ag_Status a)"
  shows "m' t = Some a"
  using assms by (cases rule: agent_move.cases) (auto simp: ag_terminal_def)

lemma started_not_terminal [simp]: "\<not> terminal_action ''lifecycle.started''"
  by (simp add: terminal_action_def)

lemma action_status_started [simp]: "action_status ''lifecycle.started'' = Some AgRunning"
  by (simp add: action_status_def)

lemma move_counts_terminal:
  assumes "agent_move m m' oe"
  shows "length (terminal_events t (case oe of None \<Rightarrow> [] | Some e \<Rightarrow> [e])) + (if is_finished (m t) then 1 else 0) =
    (if is_finished (m' t) then 1 else (0::nat))"
  using assms
  by (cases rule: agent_move.cases)
    (auto simp: terminal_events_def is_finished_def terminal_action_iff ag_terminal_def)

lemma snapshots_of_snoc: "snapshots_of (es @ [e]) = snapsink_Handle e (snapshots_of es)"
  by (simp add: snapshots_of_def)

lemma move_snapshot_agrees:
  assumes "agent_move m m' (Some e)" "t \<noteq> []" "snapshot_agrees (m t) (ss_Get t S)"
  shows "snapshot_agrees (m' t) (ss_Get t (snapsink_Handle e S))"
  using assms
  by (cases rule: agent_move.cases)
    (auto simp: snapshot_agrees_def ss_Get_Handle sn_Status_projectFn terminal_action_iff ag_terminal_def
      split: option.splits if_splits)

lemma move_quiet_agrees:
  assumes "agent_move m m' None" "snapshot_agrees (m t) os"
  shows "snapshot_agrees (m' t) os"
  using assms
  by (cases rule: agent_move.cases) (auto simp: snapshot_agrees_def ag_terminal_def split: option.splits)

definition lifecycle_init :: "lifecycle_world \<Rightarrow> bool" where
  "lifecycle_init lw \<longleftrightarrow> db_ok (lw_db lw) \<and> lw_events lw = [] \<and> (\<forall>t. \<not> is_finished (ag_look (lw_db lw) t))"

definition lifecycle_inv :: "writer \<Rightarrow> lifecycle_world \<Rightarrow> bool" where
  "lifecycle_inv w lw \<longleftrightarrow> db_ok (lw_db lw) \<and>
     (w_bus w \<longrightarrow>
       (\<forall>t. length (terminal_events t (lw_events lw)) = (if is_finished (ag_look (lw_db lw) t) then 1 else 0)) \<and>
       (\<forall>t. t \<noteq> [] \<longrightarrow> snapshot_agrees (ag_look (lw_db lw) t) (ss_Get t (snapshots_of (lw_events lw)))))"

lemma lifecycle_inv_init: "lifecycle_init lw \<Longrightarrow> lifecycle_inv w lw"
  by (simp add: lifecycle_init_def lifecycle_inv_def terminal_events_def snapshots_of_def ss_Get_def
      NewSnapshotStore_def snapshot_agrees_def)

lemma lifecycle_inv_moves:
  assumes "lifecycle_inv w lw" "moves w lw lw'"
  shows "lifecycle_inv w lw'"
proof -
  let ?m = "ag_look (lw_db lw)" and ?m' = "ag_look (lw_db lw')"
  from assms(2) obtain oe where mv: "agent_move ?m ?m' oe"
    and ev: "lw_events lw' = lw_events lw @ bus_events w oe" and ok: "db_ok (lw_db lw')"
    by (auto simp: moves_def)
  have bus: "w_bus w \<Longrightarrow> bus_events w oe = (case oe of None \<Rightarrow> [] | Some e \<Rightarrow> [e])"
    by (simp add: bus_events_def split: option.splits)
  have "length (terminal_events t (lw_events lw')) = (if is_finished (?m' t) then 1 else 0)" if "w_bus w" for t
    using move_counts_terminal [OF mv, of t] assms(1) that
    by (simp add: lifecycle_inv_def ev bus terminal_events_def split: if_splits)
  moreover have "snapshot_agrees (?m' t) (ss_Get t (snapshots_of (lw_events lw')))" if "w_bus w" "t \<noteq> []" for t
    using assms(1) that move_snapshot_agrees [of ?m ?m' _ t "snapshots_of (lw_events lw)"]
      move_quiet_agrees [of ?m ?m' t] mv
    by (cases oe) (auto simp: lifecycle_inv_def ev bus_events_def snapshots_of_snoc)
  ultimately show ?thesis using ok by (simp add: lifecycle_inv_def)
qed

interpretation life: inductive_invariant lifecycle_init "lifecycle_step w" "lifecycle_inv w" for w
proof
  show "lifecycle_inv w s" if "lifecycle_init s" for s
    using that by (rule lifecycle_inv_init)
  show "lifecycle_inv w t" if "lifecycle_inv w s" "lifecycle_step w s t" for s t
    using that lifecycle_step_moves [of w s t] lifecycle_inv_moves [of w s t]
    by (auto simp: lifecycle_inv_def [of w s])
qed

lemma finished_kept:
  assumes "(lifecycle_step w)\<^sup>*\<^sup>* lw lw'" "db_ok (lw_db lw)" "ag_look (lw_db lw) t = Some a"
    "ag_terminal (ag_Status a)"
  shows "db_ok (lw_db lw') \<and> ag_look (lw_db lw') t = Some a"
  using assms
proof (induction rule: rtranclp_induct)
  case (step y z)
  then have "moves w y z" by (blast intro: lifecycle_step_moves)
  then show ?case using step move_keeps_finished by (fastforce simp: moves_def)
qed simp

subsection \<open>What the writer guarantees\<close>

text \<open>A run of three calls for the witnesses: an agent waits in the queue, is claimed and completes.\<close>

definition sample_writer :: writer where
  "sample_writer = \<lparr>w_bus = True, w_admissionCheck = None, w_progressHook = False\<rparr>"

definition sample_meta :: LifecycleMeta where
  "sample_meta = \<lparr>lm_RuntimeType = ''claude'', lm_Backend = ''local'', lm_MissionID = 7, lm_ObjectiveID = [], lm_Reason = []\<rparr>"

definition sample_queued :: agent where
  "sample_queued =
     \<lparr>ag_Task = ''a'', ag_RuntimeType = ''claude'', ag_ResumeToken = [], ag_WorkspacePath = [], ag_BranchName = [],
      ag_BaseBranch = ''main'', ag_Status = AgQueued, ag_LastOutput = [], ag_StartTime = 0, ag_Mode = ''queued'',
      ag_CurrentIntent = [], ag_MissionID = 7, ag_ObjectiveID = []\<rparr>"

definition sample_life0 :: lifecycle_world where
  "sample_life0 = \<lparr>lw_db = \<lparr>db_agents = [sample_queued], db_chessmaster = None\<rparr>, lw_events = [], lw_progress = 0\<rparr>"

definition sample_life1 :: lifecycle_world where
  "sample_life1 = fst (ClaimQueuedAgent sample_writer None ''u1'' 0 1 ''a'' sample_meta sample_life0)"

definition sample_life2 :: lifecycle_world where
  "sample_life2 = fst (MarkCompleted sample_writer None ''u2'' 2 ''a''
     \<lparr>rm_LifecycleMeta = sample_meta, rm_LastOutput = ''ok'', rm_ResumeToken = []\<rparr> sample_life1)"

lemmas sample_life_defs = sample_life0_def sample_life1_def sample_life2_def sample_queued_def sample_writer_def

lemma sample_life0_ok: "lifecycle_init sample_life0" "db_ok (lw_db sample_life0)"
  by (auto simp: lifecycle_init_def db_ok_def agents_ok_def sample_life_defs stored_agent_def rfc3339_time_def
      is_finished_def ag_look_def ag_terminal_def split: option.splits if_splits)

lemma sample_steps:
  "lifecycle_step sample_writer sample_life0 sample_life1" "lifecycle_step sample_writer sample_life1 sample_life2"
  unfolding sample_life1_def sample_life2_def by (rule ls_claim ls_complete, rule surjective_pairing)+

lemma sample_life2_look:
  "map_option ag_Status (ag_look (lw_db sample_life2) ''a'') = Some AgCompleted"
  by (simp add: sample_life_defs ClaimQueuedAgent_def ClaimAgent_def MarkCompleted_def UpdateAgentResultIf_def
      set_result_def ag_look_def affected_def update_rows_def Let_def triggerProgress_def emitLifecycleEvent_def)

text \<open>
  C5 (lifecycle_refines_automaton): every operation of the lifecycle writer, failing or not, is one
  move of the agent automaton on the table: start of a new task, claim of a queued agent, running
  to idle and back, a live agent finishing, or no change; and the bus is given exactly the event
  of that move (none when no bus is set).
\<close>

theorem lifecycle_refines_automaton:
  assumes "lifecycle_step w lw lw'" "db_ok (lw_db lw)"
  shows "db_ok (lw_db lw') \<and>
    (\<exists>oe. agent_move (ag_look (lw_db lw)) (ag_look (lw_db lw')) oe \<and> lw_events lw' = lw_events lw @ bus_events w oe)"
  using lifecycle_step_moves [OF assms] by (simp add: moves_def)

theorem lifecycle_refines_automaton_witness:
  "\<exists>oe. agent_move (ag_look (lw_db sample_life0)) (ag_look (lw_db sample_life1)) oe \<and>
     lw_events sample_life1 = bus_events sample_writer oe"
  using lifecycle_refines_automaton [OF sample_steps(1) sample_life0_ok(2)] by (simp add: sample_life0_def)

lemma sample_db1: "db_ok (lw_db sample_life1)"
  using lifecycle_step_moves [OF sample_steps(1) sample_life0_ok(2)] by (simp add: moves_def)

text \<open>
  C6 (finished_agents_final): once an agent is completed, failed or stopped, no sequence of writer
  operations changes its row.
\<close>

theorem finished_agents_final:
  assumes "(lifecycle_step w)\<^sup>*\<^sup>* lw lw'" "db_ok (lw_db lw)" "ag_look (lw_db lw) t = Some a"
    "ag_terminal (ag_Status a)"
  shows "ag_look (lw_db lw') t = Some a"
  using finished_kept [OF assms] by simp

theorem finished_agents_final_witness:
  "ag_look (lw_db (fst (MarkStopped sample_writer None ''u3'' 3 ''a'' sample_meta sample_life2))) ''a'' =
     ag_look (lw_db sample_life2) ''a''"
proof -
  let ?lw = "fst (MarkStopped sample_writer None ''u3'' 3 ''a'' sample_meta sample_life2)"
  have ok: "db_ok (lw_db sample_life2)"
    using lifecycle_step_moves [OF sample_steps(2) sample_db1] by (simp add: moves_def)
  have "lifecycle_step sample_writer sample_life2 ?lw" by (rule ls_stop, rule surjective_pairing)
  then have run: "(lifecycle_step sample_writer)\<^sup>*\<^sup>* sample_life2 ?lw" by blast
  obtain a where a: "ag_look (lw_db sample_life2) ''a'' = Some a" "ag_Status a = AgCompleted"
    using sample_life2_look by auto
  from finished_agents_final [OF run ok a(1)] a show ?thesis by (simp add: ag_terminal_def)
qed

lemma sample_reach: "reach lifecycle_init (lifecycle_step sample_writer) sample_life2"
proof -
  have "reach lifecycle_init (lifecycle_step sample_writer) sample_life0" by (rule reach_init) (rule sample_life0_ok(1))
  then have "reach lifecycle_init (lifecycle_step sample_writer) sample_life1" by (rule reach_step) (rule sample_steps(1))
  then show ?thesis by (rule reach_step) (rule sample_steps(2))
qed

text \<open>
  C7 (one_terminal_event_per_agent): with a bus, in every reachable state the stream holds exactly
  one terminal event for each finished agent and none for any other task.
\<close>

theorem one_terminal_event_per_agent:
  assumes "reach lifecycle_init (lifecycle_step w) lw" "w_bus w"
  shows "length (terminal_events t (lw_events lw)) = (if is_finished (ag_look (lw_db lw) t) then 1 else 0)"
  using life.reach_inv [OF assms(1)] assms(2) by (simp add: lifecycle_inv_def)

theorem one_terminal_event_per_agent_witness: "length (terminal_events ''a'' (lw_events sample_life2)) = 1"
  using one_terminal_event_per_agent [OF sample_reach, of "''a''"] sample_life2_look
  by (auto simp: sample_writer_def is_finished_def ag_terminal_def)

subsection \<open>Goroutines that share the writer\<close>

text \<open>
  A transition updates its row and then gives its event to the bus; goroutines interleave between the two. Of a state
  \<open>(lw, out)\<close>, the events of \<open>lw\<close> are those of the updates, in the order of the updates, and \<open>out\<close> the ones the bus
  was given so far, in the order it was given them. An operation is first its update, a \<open>lifecycle_step\<close> on \<open>lw\<close>; an event
  that was not given to the bus can then be given to it at any time.
\<close>

inductive shared_step :: "writer \<Rightarrow> lifecycle_world \<times> event list \<Rightarrow> lifecycle_world \<times> event list \<Rightarrow> bool" for w where
  sh_update: "lifecycle_step w lw lw' \<Longrightarrow> shared_step w (lw, out) (lw', out)"
| sh_emit: "e \<in># mset (lw_events lw) - mset out \<Longrightarrow> shared_step w (lw, out) (lw, out @ [e])"

definition shared_init :: "lifecycle_world \<times> event list \<Rightarrow> bool" where
  "shared_init x \<longleftrightarrow> lifecycle_init (fst x) \<and> snd x = []"

text \<open>What the events of the updates say is true of the table from then on.\<close>

definition told_truth :: "(string \<rightharpoonup> agent) \<Rightarrow> event list \<Rightarrow> bool" where
  "told_truth m es \<longleftrightarrow>
     (\<forall>e\<in>set es. \<exists>a. m (ev_Task e) = Some a \<and>
        (action_status (ev_Action e) = Some AgRunning \<or> ag_terminal (ag_Status a) \<and> action_status (ev_Action e) = Some (ag_Status a)))"

lemma move_told_truth:
  assumes "agent_move m m' oe" "told_truth m es"
  shows "told_truth m' (es @ (case oe of None \<Rightarrow> [] | Some e \<Rightarrow> [e]))"
  using assms
  by (cases rule: agent_move.cases) (fastforce simp: told_truth_def ag_terminal_def)+

definition shared_inv :: "writer \<Rightarrow> lifecycle_world \<times> event list \<Rightarrow> bool" where
  "shared_inv w x \<longleftrightarrow> (case x of (lw, out) \<Rightarrow>
     lifecycle_inv w lw \<and> told_truth (ag_look (lw_db lw)) (lw_events lw) \<and> mset out \<subseteq># mset (lw_events lw))"

interpretation shared: inductive_invariant shared_init "shared_step w" "shared_inv w" for w
proof
  show "shared_inv w s" if "shared_init s" for s
    using that by (auto simp: shared_init_def shared_inv_def lifecycle_inv_init told_truth_def lifecycle_init_def split: prod.splits)
  show "shared_inv w t" if "shared_inv w s" "shared_step w s t" for s t
    using that(2,1)
  proof (cases rule: shared_step.cases)
    case (sh_update lw lw' out)
    with that have inv: "lifecycle_inv w lw" "told_truth (ag_look (lw_db lw)) (lw_events lw)" "mset out \<subseteq># mset (lw_events lw)"
      by (auto simp: shared_inv_def)
    have mv: "moves w lw lw'" using sh_update inv(1) by (auto simp: lifecycle_inv_def intro: lifecycle_step_moves)
    then obtain oe where m: "agent_move (ag_look (lw_db lw)) (ag_look (lw_db lw')) oe" "lw_events lw' = lw_events lw @ bus_events w oe"
      by (auto simp: moves_def)
    have "told_truth (ag_look (lw_db lw')) (lw_events lw')"
      using move_told_truth [OF m(1) inv(2)] by (auto simp: m(2) told_truth_def bus_events_def split: option.splits)
    moreover have "mset out \<subseteq># mset (lw_events lw')" using inv(3) by (simp add: m(2) subset_mset.add_increasing2)
    ultimately show ?thesis using sh_update lifecycle_inv_moves [OF inv(1) mv] by (simp add: shared_inv_def)
  next
    case (sh_emit e lw out)
    have sub: "mset out \<subseteq># mset (lw_events lw)" using sh_emit that(1) by (simp add: shared_inv_def)
    have "mset out + {#e#} \<subseteq># mset out + (mset (lw_events lw) - mset out)"
      using sh_emit by (intro subset_mset.add_mono) simp_all
    then have "add_mset e (mset out) \<subseteq># mset (lw_events lw)" using sub by (simp add: subset_mset.add_diff_inverse)
    with sh_emit that show ?thesis by (simp add: shared_inv_def)
  qed
qed

lemma ss_Get_New: "ss_Get t (NewSnapshotStore ttl) = None"
  by (simp add: ss_Get_def NewSnapshotStore_def)

lemma snapshot_from_event:
  assumes "ss_Get t (snapshots_of es) = Some snap" "t \<noteq> []" "\<And>e. e \<in> set es \<Longrightarrow> action_status (ev_Action e) \<noteq> None"
  shows "\<exists>e\<in>set es. ev_Task e = t \<and> action_status (ev_Action e) = Some (sn_Status snap)"
  using assms
proof (induction es arbitrary: snap rule: rev_induct)
  case Nil
  then show ?case by (simp add: snapshots_of_def ss_Get_def NewSnapshotStore_def)
next
  case (snoc e es)
  show ?case
  proof (cases "ev_Task e = t")
    case True
    with snoc.prems show ?thesis
      by (auto simp: snapshots_of_snoc ss_Get_Handle sn_Status_projectFn split: option.splits if_splits)
  next
    case False
    with snoc.prems have "ss_Get t (snapshots_of es) = Some snap" by (simp add: snapshots_of_snoc ss_Get_Handle)
    with snoc.IH [of snap] snoc.prems show ?thesis by auto
  qed
qed

text \<open>A snapshot depends on the events of its own task only.\<close>

lemma ss_Get_own_events:
  "t \<noteq> [] \<Longrightarrow> ss_Get t (snapshots_of es) = ss_Get t (snapshots_of (filter (\<lambda>e. ev_Task e = t) es))"
  by (induction es rule: rev_induct)
    (auto simp: snapshots_of_snoc ss_Get_Handle snapshots_of_def NewSnapshotStore_def split: option.splits)

text \<open>
  C8 (snapshots_agree_with_agents): with a bus, however goroutines interleave between updating a row and emitting the event, a
  snapshot projected from the events emitted so far belongs to an agent in the table and shows it as running or, if its row is terminal,
  with the row's status. Once the agent's events have all been emitted, in the order of its updates, the snapshot shows
  the row's status if that is terminal, and running otherwise.
\<close>

theorem snapshots_agree_with_agents:
  assumes "reach shared_init (shared_step w) (lw, out)" "w_bus w" "t \<noteq> []"
    and "ss_Get t (fold snapsink_Handle out (NewSnapshotStore 0)) = Some snap"
  shows "\<exists>a. ag_look (lw_db lw) t = Some a \<and>
    (sn_Status snap = AgRunning \<or> ag_terminal (ag_Status a) \<and> sn_Status snap = ag_Status a) \<and>
    (filter (\<lambda>e. ev_Task e = t) out = filter (\<lambda>e. ev_Task e = t) (lw_events lw) \<longrightarrow>
       sn_Status snap = (if ag_terminal (ag_Status a) then ag_Status a else AgRunning))"
proof -
  from shared.reach_inv [OF assms(1)] have inv: "lifecycle_inv w lw" "told_truth (ag_look (lw_db lw)) (lw_events lw)" "mset out \<subseteq># mset (lw_events lw)"
    by (auto simp: shared_inv_def)
  have sub: "set out \<subseteq> set (lw_events lw)" using set_mset_mono [OF inv(3)] by simp
  have s: "ss_Get t (snapshots_of out) = Some snap" using assms(4) by (simp add: snapshots_of_def)
  from snapshot_from_event [OF s assms(3)] sub inv(2) obtain e where e: "e \<in> set out" "ev_Task e = t" "action_status (ev_Action e) = Some (sn_Status snap)"
    unfolding told_truth_def by fastforce
  with sub inv(2) obtain a where a: "ag_look (lw_db lw) t = Some a" "sn_Status snap = AgRunning \<or> ag_terminal (ag_Status a) \<and> sn_Status snap = ag_Status a"
    unfolding told_truth_def by fastforce
  have "sn_Status snap = (if ag_terminal (ag_Status a) then ag_Status a else AgRunning)"
    if "filter (\<lambda>e. ev_Task e = t) out = filter (\<lambda>e. ev_Task e = t) (lw_events lw)"
  proof -
    have "ss_Get t (snapshots_of (lw_events lw)) = Some snap"
      using s that ss_Get_own_events [OF assms(3)] by metis
    with inv(1) assms(2,3) a(1) show ?thesis by (fastforce simp: lifecycle_inv_def snapshot_agrees_def)
  qed
  with a show ?thesis by blast
qed

lemma sample_shared_reach: "reach shared_init (shared_step sample_writer) (sample_life2, lw_events sample_life2)"
proof -
  have "reach shared_init (shared_step sample_writer) (sample_life0, [])"
    by (rule reach_init) (simp add: shared_init_def sample_life0_ok)
  from reach_step [OF this sh_update [OF sample_steps(1)]] have "reach shared_init (shared_step sample_writer) (sample_life1, [])" .
  from reach_step [OF this sh_update [OF sample_steps(2)]] have 2: "reach shared_init (shared_step sample_writer) (sample_life2, [])" .
  have ev: "lw_events sample_life2 = [e, f] \<Longrightarrow> reach shared_init (shared_step sample_writer) (sample_life2, [e, f])" for e f
    using reach_step [OF reach_step [OF 2 sh_emit [of e]] sh_emit [of f]] by simp
  have "length (lw_events sample_life2) = 2"
    by (simp add: sample_life_defs ClaimQueuedAgent_def ClaimAgent_def MarkCompleted_def UpdateAgentResultIf_def
      set_result_def affected_def update_rows_def Let_def triggerProgress_def emitLifecycleEvent_def)
  then obtain e f where "lw_events sample_life2 = [e, f]" by (auto simp: numeral_2_eq_2 length_Suc_conv)
  with ev show ?thesis by simp
qed

lemma sample_snapshot:
  "ss_Get ''a'' (fold snapsink_Handle (lw_events sample_life2) (NewSnapshotStore 0)) \<noteq> None"
  by (simp add: sample_life_defs ClaimQueuedAgent_def ClaimAgent_def MarkCompleted_def UpdateAgentResultIf_def
      set_result_def affected_def update_rows_def Let_def triggerProgress_def emitLifecycleEvent_def ss_Get_Handle
      terminal_action_def split: option.splits)

theorem snapshots_agree_with_agents_witness:
  "\<exists>snap. ss_Get ''a'' (fold snapsink_Handle (lw_events sample_life2) (NewSnapshotStore 0)) = Some snap \<and>
     sn_Status snap = AgCompleted"
proof -
  obtain snap where s: "ss_Get ''a'' (fold snapsink_Handle (lw_events sample_life2) (NewSnapshotStore 0)) = Some snap"
    using sample_snapshot by auto
  from snapshots_agree_with_agents [OF sample_shared_reach _ _ s] sample_life2_look s show ?thesis
    by (auto simp: sample_writer_def ag_terminal_def)
qed

text \<open>
  Two goroutines: one claims the agent, the other completes it and emits first. The late event of the claim leaves the snapshot
  running for good, for a finished agent.
\<close>

lemma late_event_shows_running:
  "reach shared_init (shared_step sample_writer) (sample_life2, rev (lw_events sample_life2)) \<and>
   map_option sn_Status (ss_Get ''a'' (fold snapsink_Handle (rev (lw_events sample_life2)) (NewSnapshotStore 0))) = Some AgRunning \<and>
   map_option ag_Status (ag_look (lw_db sample_life2) ''a'') = Some AgCompleted"
proof (intro conjI)
  have "reach shared_init (shared_step sample_writer) (sample_life0, [])"
    by (rule reach_init) (simp add: shared_init_def sample_life0_ok)
  from reach_step [OF this sh_update [OF sample_steps(1)]] have "reach shared_init (shared_step sample_writer) (sample_life1, [])" .
  from reach_step [OF this sh_update [OF sample_steps(2)]] have 2: "reach shared_init (shared_step sample_writer) (sample_life2, [])" .
  have ev: "lw_events sample_life2 = [e, f] \<Longrightarrow> reach shared_init (shared_step sample_writer) (sample_life2, [f, e])" for e f
    using reach_step [OF reach_step [OF 2 sh_emit [of f]] sh_emit [of e]] by simp
  have "length (lw_events sample_life2) = 2"
    by (simp add: sample_life_defs ClaimQueuedAgent_def ClaimAgent_def MarkCompleted_def UpdateAgentResultIf_def
      set_result_def affected_def update_rows_def Let_def triggerProgress_def emitLifecycleEvent_def)
  then obtain e f where "lw_events sample_life2 = [e, f]" by (auto simp: numeral_2_eq_2 length_Suc_conv)
  with ev show "reach shared_init (shared_step sample_writer) (sample_life2, rev (lw_events sample_life2))" by simp
  show "map_option sn_Status (ss_Get ''a'' (fold snapsink_Handle (rev (lw_events sample_life2)) (NewSnapshotStore 0))) = Some AgRunning"
    by (simp add: sample_life_defs ClaimQueuedAgent_def ClaimAgent_def MarkCompleted_def UpdateAgentResultIf_def
      set_result_def affected_def update_rows_def Let_def triggerProgress_def emitLifecycleEvent_def ss_Get_Handle
      terminal_action_def sn_Status_projectFn ss_Get_New action_status_def split: option.splits)
qed (rule sample_life2_look)

end
