(* ===== verification/Objective.thy ===== *)
theory Objective
  imports Prelude
begin

text \<open>
  \<open>internal/objective\<close>: the objective record and its status machine
  (\<open>objective.go\<close>), the \<open>ObjectiveStore\<close> interface (\<open>store.go\<close>) as a locale, and its
  PostgreSQL implementation (\<open>pgstore.go\<close>) as operations on the \<open>objectives\<close> table.

  Go's zero \<open>time.Time\<close> is the clock reading 0. \<open>ObjectiveStatus\<close> is a string type in
  Go: the named constants are constructors and any other string is \<open>StatusOther\<close>.
\<close>

subsection \<open>Status machine\<close>

datatype objective_status =
    StatusOpen
  | StatusAnswered
  | StatusDisproven
  | StatusExhausted
  | StatusBudgetExhausted
  | StatusTimedOut
  | StatusFrozen
  | StatusOther string

fun status_string :: "objective_status \<Rightarrow> string" where
  "status_string StatusOpen = ''open''"
| "status_string StatusAnswered = ''answered''"
| "status_string StatusDisproven = ''disproven''"
| "status_string StatusExhausted = ''exhausted''"
| "status_string StatusBudgetExhausted = ''budget_exhausted''"
| "status_string StatusTimedOut = ''timed_out''"
| "status_string StatusFrozen = ''frozen''"
| "status_string (StatusOther s) = s"

definition Terminal :: "objective_status \<Rightarrow> bool" where
  "Terminal s = (case s of
       StatusAnswered \<Rightarrow> True | StatusDisproven \<Rightarrow> True | StatusExhausted \<Rightarrow> True
     | StatusBudgetExhausted \<Rightarrow> True | StatusTimedOut \<Rightarrow> True | _ \<Rightarrow> False)"

definition Valid :: "objective_status \<Rightarrow> bool" where
  "Valid s = (case s of StatusOther _ \<Rightarrow> False | _ \<Rightarrow> True)"

definition AllowedTransitions :: "objective_status \<Rightarrow> objective_status list option" where
  "AllowedTransitions s = (case s of
       StatusOpen \<Rightarrow> Some [StatusAnswered, StatusDisproven, StatusExhausted,
                          StatusBudgetExhausted, StatusTimedOut, StatusFrozen]
     | StatusFrozen \<Rightarrow> Some [StatusOpen]
     | _ \<Rightarrow> None)"

definition CanTransition :: "objective_status \<Rightarrow> objective_status \<Rightarrow> bool" where
  "CanTransition from to =
     (case AllowedTransitions from of
        None \<Rightarrow> False
      | Some allowed \<Rightarrow> List.member allowed to)"

subsection \<open>The objective record\<close>

record objective =
  obj_ID :: string
  obj_Description :: string
  obj_Status :: objective_status
  obj_CreatedAt :: int
  obj_UpdatedAt :: int
  obj_CreatedBy :: string
  obj_MaxMissions :: int
  obj_MaxDepth :: int
  obj_MaxRuntime :: int
  obj_MaxBranching :: int
  obj_MissionCount :: int
  obj_FindingCount :: int
  obj_Outcome :: string
  obj_OutcomeData :: "string option"

definition DefaultMaxMissions :: int where "DefaultMaxMissions = 100"
definition DefaultMaxDepth :: int where "DefaultMaxDepth = 5"
definition DefaultMaxBranching :: int where "DefaultMaxBranching = 5"
definition DefaultMaxRuntime :: int where "DefaultMaxRuntime = 4 * 3600 * second_ns"

definition ApplyDefaults :: "objective \<Rightarrow> objective" where
  "ApplyDefaults o1 =
     (let o2 = (if obj_MaxMissions o1 = 0 then o1\<lparr>obj_MaxMissions := DefaultMaxMissions\<rparr> else o1);
          o3 = (if obj_MaxDepth o2 = 0 then o2\<lparr>obj_MaxDepth := DefaultMaxDepth\<rparr> else o2);
          o4 = (if obj_MaxBranching o3 = 0 then o3\<lparr>obj_MaxBranching := DefaultMaxBranching\<rparr> else o3)
      in if obj_MaxRuntime o4 = 0 then o4\<lparr>obj_MaxRuntime := DefaultMaxRuntime\<rparr> else o4)"

subsection \<open>The PostgreSQL store\<close>

definition obj_Create ::
    "db_fault \<Rightarrow> int \<Rightarrow> objective \<Rightarrow> objective list \<Rightarrow> objective list \<times> objective \<times> unit result" where
  "obj_Create f now ob os =
     (let o1 = (if obj_CreatedAt ob = 0 then ob\<lparr>obj_CreatedAt := now\<rparr> else ob);
          o2 = (if obj_UpdatedAt o1 = 0 then o1\<lparr>obj_UpdatedAt := now\<rparr> else o1);
          o3 = (if obj_Status o2 = StatusOther [] then o2\<lparr>obj_Status := StatusOpen\<rparr> else o2);
          o4 = ApplyDefaults o3
      in case f of
           Some e \<Rightarrow> (os, o4, Inl (ErrDb (''objective pgstore: create: '' @ e)))
         | None \<Rightarrow>
             if obj_ID o4 \<in> obj_ID ` set os
             then (os, o4, Inl (ErrDb ''objective pgstore: create: duplicate key''))
             else (os @ [o4], o4, Inr ()))"

definition obj_Get :: "db_fault \<Rightarrow> string \<Rightarrow> objective list \<Rightarrow> objective result" where
  "obj_Get f i os =
     (case f of
        Some e \<Rightarrow> Inl (ErrDb (''objective pgstore: get: '' @ e))
      | None \<Rightarrow> (case find (\<lambda>r. obj_ID r = i) os of None \<Rightarrow> Inl ErrNotFound | Some r \<Rightarrow> Inr r))"

text \<open>The \<open>UPDATE\<close> writes every column but the key and \<open>created_at\<close>.\<close>

definition obj_written :: "int \<Rightarrow> objective \<Rightarrow> objective \<Rightarrow> objective" where
  "obj_written now ob row = ob\<lparr>obj_ID := obj_ID row, obj_UpdatedAt := now, obj_CreatedAt := obj_CreatedAt row\<rparr>"

definition obj_Update ::
    "db_fault \<Rightarrow> int \<Rightarrow> objective \<Rightarrow> objective list \<Rightarrow> objective list \<times> unit result" where
  "obj_Update f now ob os =
     (case f of
        Some e \<Rightarrow> (os, Inl (ErrDb (''objective pgstore: update: '' @ e)))
      | None \<Rightarrow>
          if affected (\<lambda>r. obj_ID r = obj_ID ob) os = 0 then (os, Inl ErrNotFound)
          else (update_rows (\<lambda>r. obj_ID r = obj_ID ob) (obj_written now ob) os, Inr ()))"

definition obj_IncrementMissionCount ::
    "db_fault \<Rightarrow> int \<Rightarrow> string \<Rightarrow> objective list \<Rightarrow> objective list \<times> unit result" where
  "obj_IncrementMissionCount f now i os =
     (case f of
        Some e \<Rightarrow> (os, Inl (ErrDb (''objective pgstore: increment mission count: '' @ e)))
      | None \<Rightarrow>
          if affected (\<lambda>r. obj_ID r = i) os = 0 then (os, Inl ErrNotFound)
          else (update_rows (\<lambda>r. obj_ID r = i)
                  (\<lambda>r. r\<lparr>obj_MissionCount := obj_MissionCount r + 1, obj_UpdatedAt := now\<rparr>) os, Inr ()))"

definition obj_IncrementFindingCount ::
    "db_fault \<Rightarrow> int \<Rightarrow> string \<Rightarrow> objective list \<Rightarrow> objective list \<times> unit result" where
  "obj_IncrementFindingCount f now i os =
     (case f of
        Some e \<Rightarrow> (os, Inl (ErrDb (''objective pgstore: increment finding count: '' @ e)))
      | None \<Rightarrow>
          if affected (\<lambda>r. obj_ID r = i) os = 0 then (os, Inl ErrNotFound)
          else (update_rows (\<lambda>r. obj_ID r = i)
                  (\<lambda>r. r\<lparr>obj_FindingCount := obj_FindingCount r + 1, obj_UpdatedAt := now\<rparr>) os, Inr ()))"

definition obj_ListByStatus ::
    "db_fault \<Rightarrow> objective_status \<Rightarrow> objective list \<Rightarrow> objective list result" where
  "obj_ListByStatus f st os =
     (case f of
        Some e \<Rightarrow> Inl (ErrDb (''objective pgstore: list by status: '' @ e))
      | None \<Rightarrow> Inr (sort_key obj_CreatedAt (filter (\<lambda>r. obj_Status r = st) os)))"

lemmas obj_store_defs =
  obj_Create_def obj_Get_def obj_Update_def obj_IncrementMissionCount_def
  obj_IncrementFindingCount_def obj_ListByStatus_def

subsection \<open>Laws of the status machine\<close>

lemmas status_defs = Terminal_def Valid_def AllowedTransitions_def CanTransition_def

lemma Terminal_no_transition: "Terminal s \<Longrightarrow> \<not> CanTransition s t"
  by (cases s) (simp_all add: status_defs)

lemma CanTransition_iff:
  "CanTransition s t \<longleftrightarrow>
     (s = StatusOpen \<and> (Terminal t \<or> t = StatusFrozen)) \<or> (s = StatusFrozen \<and> t = StatusOpen)"
  by (cases s; cases t) (simp_all add: status_defs)

lemma ApplyDefaults_fields:
  "obj_ID (ApplyDefaults ob) = obj_ID ob"
  "obj_Status (ApplyDefaults ob) = obj_Status ob"
  "obj_CreatedAt (ApplyDefaults ob) = obj_CreatedAt ob"
  "obj_MissionCount (ApplyDefaults ob) = obj_MissionCount ob"
  "obj_FindingCount (ApplyDefaults ob) = obj_FindingCount ob"
  "obj_MaxMissions (ApplyDefaults ob) = (if obj_MaxMissions ob = 0 then 100 else obj_MaxMissions ob)"
  "obj_MaxDepth (ApplyDefaults ob) = (if obj_MaxDepth ob = 0 then 5 else obj_MaxDepth ob)"
  "obj_MaxBranching (ApplyDefaults ob) = (if obj_MaxBranching ob = 0 then 5 else obj_MaxBranching ob)"
  "obj_MaxRuntime (ApplyDefaults ob) =
     (if obj_MaxRuntime ob = 0 then 14400000000000 else obj_MaxRuntime ob)"
  by (simp_all add: ApplyDefaults_def Let_def DefaultMaxMissions_def DefaultMaxDepth_def
      DefaultMaxBranching_def DefaultMaxRuntime_def second_ns_def)

subsection \<open>The \<open>ObjectiveStore\<close> interface\<close>

text \<open>
  The contract of \<open>store.go\<close> over the finite map a store represents: \<open>look s i\<close> is the
  stored objective. The operations are the ones of a call the database answers.
\<close>

locale objective_store =
  fixes invar :: "'s \<Rightarrow> bool"
    and look :: "'s \<Rightarrow> string \<Rightarrow> objective option"
    and create :: "int \<Rightarrow> objective \<Rightarrow> 's \<Rightarrow> 's \<times> objective \<times> unit result"
    and get :: "string \<Rightarrow> 's \<Rightarrow> objective result"
    and update :: "int \<Rightarrow> objective \<Rightarrow> 's \<Rightarrow> 's \<times> unit result"
    and incr_missions :: "int \<Rightarrow> string \<Rightarrow> 's \<Rightarrow> 's \<times> unit result"
  assumes get_spec:
      "get i s = (case look s i of None \<Rightarrow> Inl ErrNotFound | Some r \<Rightarrow> Inr r)"
    and create_fresh: "invar s \<Longrightarrow> look s (obj_ID ob) = None \<Longrightarrow> create now ob s = (s', ob', r) \<Longrightarrow>
      r = Inr () \<and> invar s' \<and> look s' = (look s)(obj_ID ob \<mapsto> ob') \<and> obj_ID ob' = obj_ID ob"
    and create_taken: "invar s \<Longrightarrow> look s (obj_ID ob) \<noteq> None \<Longrightarrow> create now ob s = (s', ob', r) \<Longrightarrow>
      s' = s \<and> \<not> is_ok r"
    and update_present: "invar s \<Longrightarrow> look s (obj_ID ob) = Some row \<Longrightarrow> update now ob s = (s', r) \<Longrightarrow>
      r = Inr () \<and> invar s' \<and> look s' = (look s)(obj_ID ob \<mapsto> obj_written now ob row)"
    and update_absent: "invar s \<Longrightarrow> look s (obj_ID ob) = None \<Longrightarrow> update now ob s = (s, Inl ErrNotFound)"
    and incr_present: "invar s \<Longrightarrow> look s i = Some row \<Longrightarrow> incr_missions now i s = (s', r) \<Longrightarrow>
      r = Inr () \<and> invar s' \<and>
      look s' = (look s)(i \<mapsto> row\<lparr>obj_MissionCount := obj_MissionCount row + 1, obj_UpdatedAt := now\<rparr>)"
    and incr_absent: "invar s \<Longrightarrow> look s i = None \<Longrightarrow> incr_missions now i s = (s, Inl ErrNotFound)"
    and look_ID: "invar s \<Longrightarrow> look s i = Some row \<Longrightarrow> obj_ID row = i"
begin

lemma create_then_get:
  assumes "invar s" "look s (obj_ID ob) = None" "create now ob s = (s', ob', r)"
  shows "get (obj_ID ob) s' = Inr ob'"
  using create_fresh [OF assms] by (simp add: get_spec)

lemma update_then_get:
  assumes "invar s" "get (obj_ID ob) s = Inr row" "update now ob s = (s', r)"
  shows "r = Inr () \<and> get (obj_ID ob) s' = Inr (obj_written now ob row)
    \<and> (\<forall>j. j \<noteq> obj_ID ob \<longrightarrow> get j s' = get j s)"
proof -
  from assms(2) have "look s (obj_ID ob) = Some row"
    by (simp add: get_spec split: option.splits)
  from update_present [OF assms(1) this assms(3)] show ?thesis by (simp add: get_spec)
qed

fun incr_n :: "int list \<Rightarrow> string \<Rightarrow> 's \<Rightarrow> 's" where
  "incr_n [] i s = s"
| "incr_n (now # ts) i s = incr_n ts i (fst (incr_missions now i s))"

lemma incr_n_counts:
  assumes "invar s" "look s i = Some row"
  shows "invar (incr_n ts i s) \<and>
    (\<exists>row'. look (incr_n ts i s) i = Some row' \<and>
       obj_MissionCount row' = obj_MissionCount row + int (length ts))"
  using assms
proof (induction ts arbitrary: s row)
  case Nil
  then show ?case by simp
next
  case (Cons t ts)
  obtain s' r where step: "incr_missions t i s = (s', r)" by fastforce
  from incr_present [OF Cons.prems step] Cons.IH [of s'] step show ?case by fastforce
qed

text \<open>Increments between a read and the write-back of what was read are overwritten.\<close>

lemma stale_update_discards_increments:
  assumes inv: "invar s" and get: "get i s = Inr ob" and upd: "update now ob (incr_n ts i s) = (s', r)"
  shows "\<exists>row. get i s' = Inr row \<and> obj_MissionCount row = obj_MissionCount ob"
proof -
  from get have l: "look s i = Some ob" by (simp add: get_spec split: option.splits)
  with inv have i: "obj_ID ob = i" by (rule look_ID)
  from incr_n_counts [OF inv l] obtain row' where
    "invar (incr_n ts i s)" "look (incr_n ts i s) (obj_ID ob) = Some row'"
    by (auto simp: i)
  from update_present [OF this upd] show ?thesis
    by (simp add: get_spec i obj_written_def)
qed

end

subsection \<open>The PostgreSQL store keeps the contract\<close>

definition obj_table_ok :: "objective list \<Rightarrow> bool" where
  "obj_table_ok os = distinct (map obj_ID os)"

definition obj_look :: "objective list \<Rightarrow> string \<Rightarrow> objective option" where
  "obj_look os i = find (\<lambda>r. obj_ID r = i) os"

lemma obj_look_None: "obj_look os i = None \<longleftrightarrow> i \<notin> obj_ID ` set os"
  by (auto simp: obj_look_def find_None_iff)

lemma affected_obj_look: "affected (\<lambda>r. obj_ID r = i) os = 0 \<longleftrightarrow> obj_look os i = None"
  by (auto simp: affected_0_iff obj_look_None)

lemma obj_look_update_rows:
  assumes "\<And>r. obj_ID (u r) = obj_ID r"
  shows "obj_look (update_rows (\<lambda>r. obj_ID r = i) u os) =
    (case obj_look os i of None \<Rightarrow> obj_look os | Some r \<Rightarrow> (obj_look os)(i \<mapsto> u r))"
  by (rule ext) (simp add: obj_look_def find_key_update assms split: option.split)

lemma obj_table_ok_update_rows:
  assumes "\<And>r. obj_ID (u r) = obj_ID r" "obj_table_ok os"
  shows "obj_table_ok (update_rows p u os)"
  using assms by (simp add: obj_table_ok_def map_update_rows)

lemma obj_written_ID [simp]: "obj_ID (obj_written now ob r) = obj_ID r"
  by (simp add: obj_written_def)

lemma obj_written_same:
  "obj_written t (ob\<lparr>obj_Status := st\<rparr>) ob = ob\<lparr>obj_Status := st, obj_UpdatedAt := t\<rparr>"
  by (cases ob) (simp add: obj_written_def)

text \<open>The whole-row update of an objective just read changes its status alone.\<close>

lemma obj_Update_status:
  assumes "obj_table_ok os" "obj_look os (obj_ID ob) = Some ob"
  shows "snd (obj_Update None t (ob\<lparr>obj_Status := st\<rparr>) os) = Inr () \<and>
    obj_table_ok (fst (obj_Update None t (ob\<lparr>obj_Status := st\<rparr>) os)) \<and>
    obj_look (fst (obj_Update None t (ob\<lparr>obj_Status := st\<rparr>) os)) =
      (obj_look os)(obj_ID ob \<mapsto> ob\<lparr>obj_Status := st, obj_UpdatedAt := t\<rparr>)"
  using assms
  by (simp add: obj_Update_def affected_obj_look obj_look_update_rows obj_table_ok_update_rows obj_written_same)

lemma obj_look_append_new:
  "obj_ID ob \<notin> obj_ID ` set os \<Longrightarrow> obj_look (os @ [ob]) = (obj_look os)(obj_ID ob \<mapsto> ob)"
  by (rule ext) (simp add: obj_look_def find_key_append)

interpretation pgobj: objective_store obj_table_ok obj_look "obj_Create None" "obj_Get None"
  "obj_Update None" "obj_IncrementMissionCount None"
proof (unfold_locales, goal_cases)
  case (1 i s)
  then show ?case by (simp add: obj_Get_def obj_look_def)
next
  case (2 s ob now s' ob' r)
  then show ?case
    by (auto simp: obj_Create_def Let_def obj_look_None ApplyDefaults_fields obj_look_append_new
        obj_table_ok_def split: if_splits)
next
  case (3 s ob now s' ob' r)
  then show ?case
    by (auto simp: obj_Create_def Let_def obj_look_None ApplyDefaults_fields split: if_splits)
next
  case (4 s ob row now s' r)
  then show ?case
    by (auto simp: obj_Update_def affected_obj_look obj_look_update_rows obj_table_ok_update_rows)
next
  case (5 s ob now)
  then show ?case by (simp add: obj_Update_def affected_obj_look)
next
  case (6 s i row now s' r)
  then show ?case
    by (auto simp: obj_IncrementMissionCount_def affected_obj_look obj_look_update_rows
        obj_table_ok_update_rows)
next
  case (7 s i now)
  then show ?case by (simp add: obj_IncrementMissionCount_def affected_obj_look)
next
  case (8 s i row)
  then show ?case by (auto simp: obj_look_def dest: find_SomeD)
qed

end
