(* ===== verification/Mailbox.thy ===== *)
theory Mailbox
  imports Prelude "HOL-Library.AList"
begin

text \<open>
  \<open>internal/mailbox\<close> and its two implementations, \<open>state/sqlitestore/mailbox.go\<close> and
  \<open>state/pgstore/mailbox.go\<close>: messages between agents with a read cursor per task. The
  interface is the locale \<open>mailbox\<close>; the law that every message is read exactly once and in
  order is proved in it.

  SQLite's \<open>Read\<close> is one serialized transaction. PostgreSQL's takes a row lock on the cursor
  row only if that row exists, and its \<open>BIGSERIAL\<close> numbers a message before the insert is
  visible: both operations are therefore split into the steps other sessions can interleave
  with, and their composition is the operation run alone.
\<close>

subsection \<open>Tables\<close>

record Message =
  ms_From :: string
  ms_To :: string
  ms_Content :: string
  ms_Timestamp :: int

record mailbox_db =
  mb_messages :: "(int \<times> Message) list"
  mb_seq :: int
  mb_cursors :: "(string \<times> int) list"
  mb_locks :: "string list"

definition cursor_of :: "mailbox_db \<Rightarrow> string \<Rightarrow> int" where
  "cursor_of db task = (case map_of (mb_cursors db) task of None \<Rightarrow> 0 | Some i \<Rightarrow> i)"

definition unread_rows :: "mailbox_db \<Rightarrow> string \<Rightarrow> int \<Rightarrow> (int \<times> Message) list" where
  "unread_rows db task lastID = sort_key fst (filter (\<lambda>(i, m). ms_To m = task \<and> i > lastID) (mb_messages db))"

text \<open>The loop that tracks the largest identifier, from 0.\<close>

fun max_id :: "int \<Rightarrow> (int \<times> Message) list \<Rightarrow> int" where
  "max_id acc [] = acc"
| "max_id acc ((i, m) # rest) = max_id (if i > acc then i else acc) rest"

text \<open>The cursor upsert and the delete that end a read.\<close>

definition consume :: "string \<Rightarrow> int \<Rightarrow> int \<Rightarrow> mailbox_db \<Rightarrow> mailbox_db" where
  "consume task lastID maxID db =
     (if maxID > lastID
      then db\<lparr>mb_cursors := AList.update task maxID (mb_cursors db),
              mb_messages := filter (\<lambda>(i, m). \<not> (ms_To m = task \<and> i \<le> maxID)) (mb_messages db)\<rparr>
      else db)"

subsection \<open>SQLite\<close>

definition sqmb_Send :: "db_fault \<Rightarrow> int \<Rightarrow> string \<Rightarrow> string \<Rightarrow> string \<Rightarrow> mailbox_db \<Rightarrow> mailbox_db \<times> unit result" where
  "sqmb_Send f now from to content db =
     (case f of
        Some e \<Rightarrow> (db, Inl (ErrDb (''sqlitemailbox: send: '' @ e)))
      | None \<Rightarrow>
          (db\<lparr>mb_messages := mb_messages db @
                [(mb_seq db, \<lparr>ms_From = from, ms_To = to, ms_Content = content, ms_Timestamp = now\<rparr>)],
              mb_seq := mb_seq db + 1\<rparr>, Inr ()))"

text \<open>Whichever statement fails, the transaction is rolled back.\<close>

definition sqmb_Read :: "db_fault \<Rightarrow> string \<Rightarrow> mailbox_db \<Rightarrow> mailbox_db \<times> Message list result" where
  "sqmb_Read f task db =
     (case f of
        Some e \<Rightarrow> (db, Inl (ErrDb (''sqlitemailbox: read: '' @ e)))
      | None \<Rightarrow>
          let lastID = cursor_of db task;
              rows = unread_rows db task lastID
          in (consume task lastID (max_id 0 rows) db, Inr (map snd rows)))"

definition sqmb_UnreadCount :: "db_fault \<Rightarrow> string \<Rightarrow> mailbox_db \<Rightarrow> nat result" where
  "sqmb_UnreadCount f task db =
     (case f of
        Some e \<Rightarrow> Inl (ErrDb (''sqlitemailbox: unread count: '' @ e))
      | None \<Rightarrow> Inr (length (filter (\<lambda>(i, m). ms_To m = task \<and> i > cursor_of db task) (mb_messages db))))"

definition sqmb_Remove :: "db_fault \<Rightarrow> string \<Rightarrow> mailbox_db \<Rightarrow> mailbox_db \<times> unit result" where
  "sqmb_Remove f task db =
     (case f of
        Some e \<Rightarrow> (db, Inl (ErrDb (''sqlitemailbox: remove: '' @ e)))
      | None \<Rightarrow>
          (db\<lparr>mb_messages := filter (\<lambda>(i, m). ms_To m \<noteq> task) (mb_messages db),
              mb_cursors := AList.delete task (mb_cursors db)\<rparr>, Inr ()))"

subsection \<open>PostgreSQL\<close>

text \<open>\<open>Send\<close>: the sequence value is taken first, the row becomes visible at the commit.\<close>

definition pgmb_nextval :: "mailbox_db \<Rightarrow> mailbox_db \<times> int" where
  "pgmb_nextval db = (db\<lparr>mb_seq := mb_seq db + 1\<rparr>, mb_seq db)"

definition pgmb_insert :: "int \<Rightarrow> Message \<Rightarrow> mailbox_db \<Rightarrow> mailbox_db" where
  "pgmb_insert i m db = db\<lparr>mb_messages := mb_messages db @ [(i, m)]\<rparr>"

definition pgmb_Send :: "db_fault \<Rightarrow> int \<Rightarrow> string \<Rightarrow> string \<Rightarrow> string \<Rightarrow> mailbox_db \<Rightarrow> mailbox_db \<times> unit result" where
  "pgmb_Send f now from to content db =
     (case f of
        Some e \<Rightarrow> (db, Inl (ErrDb (''pgmailbox: send: '' @ e)))
      | None \<Rightarrow>
          (case pgmb_nextval db of (db1, i) \<Rightarrow>
             (pgmb_insert i \<lparr>ms_From = from, ms_To = to, ms_Content = content, ms_Timestamp = now\<rparr> db1, Inr ())))"

text \<open>
  \<open>Read\<close> up to its writes: \<open>SELECT ... FOR UPDATE\<close> waits while another session holds the
  cursor row, and locks it only when there is one.
\<close>

definition pgmb_read_begin :: "string \<Rightarrow> mailbox_db \<Rightarrow> (mailbox_db \<times> int \<times> (int \<times> Message) list) option" where
  "pgmb_read_begin task db =
     (if task \<in> set (mb_locks db) then None
      else let lastID = cursor_of db task
           in Some (if map_of (mb_cursors db) task \<noteq> None then db\<lparr>mb_locks := task # mb_locks db\<rparr> else db,
                    lastID, unread_rows db task lastID))"

definition pgmb_read_commit :: "string \<Rightarrow> int \<times> (int \<times> Message) list \<Rightarrow> mailbox_db \<Rightarrow> mailbox_db \<times> Message list" where
  "pgmb_read_commit task snap db =
     (case snap of (lastID, rows) \<Rightarrow>
        ((consume task lastID (max_id 0 rows) db)\<lparr>mb_locks := removeAll task (mb_locks db)\<rparr>, map snd rows))"

definition pgmb_Read :: "db_fault \<Rightarrow> string \<Rightarrow> mailbox_db \<Rightarrow> (mailbox_db \<times> Message list result) option" where
  "pgmb_Read f task db =
     (case f of
        Some e \<Rightarrow> Some (db, Inl (ErrDb (''pgmailbox: read: '' @ e)))
      | None \<Rightarrow>
          (case pgmb_read_begin task db of
             None \<Rightarrow> None
           | Some (db1, snap) \<Rightarrow> (case pgmb_read_commit task snap db1 of (db2, ms) \<Rightarrow> Some (db2, Inr ms))))"

definition pgmb_UnreadCount :: "db_fault \<Rightarrow> string \<Rightarrow> mailbox_db \<Rightarrow> nat result" where
  "pgmb_UnreadCount f task db =
     (case f of
        Some e \<Rightarrow> Inl (ErrDb (''pgmailbox: unread count: '' @ e))
      | None \<Rightarrow> Inr (length (filter (\<lambda>(i, m). ms_To m = task \<and> i > cursor_of db task) (mb_messages db))))"

definition pgmb_Remove :: "db_fault \<Rightarrow> string \<Rightarrow> mailbox_db \<Rightarrow> mailbox_db \<times> unit result" where
  "pgmb_Remove f task db =
     (case f of
        Some e \<Rightarrow> (db, Inl (ErrDb (''pgmailbox: remove: '' @ e)))
      | None \<Rightarrow>
          (db\<lparr>mb_messages := filter (\<lambda>(i, m). ms_To m \<noteq> task) (mb_messages db),
              mb_cursors := AList.delete task (mb_cursors db)\<rparr>, Inr ()))"

subsection \<open>The interface\<close>

text \<open>A history of sends and reads, with what the reads of \<open>t\<close> returned, in order.\<close>

fun deliveries ::
  "(Message \<Rightarrow> 's \<Rightarrow> 's) \<Rightarrow> (string \<Rightarrow> 's \<Rightarrow> 's \<times> Message list) \<Rightarrow> string \<Rightarrow> (Message + string) list \<Rightarrow> 's \<Rightarrow> 's \<times> Message list" where
  "deliveries send read t [] s = (s, [])"
| "deliveries send read t (Inl m # ops) s = deliveries send read t ops (send m s)"
| "deliveries send read t (Inr u # ops) s =
     (case read u s of (s1, ms) \<Rightarrow>
        case deliveries send read t ops s1 of (s2, rest) \<Rightarrow> (s2, if u = t then ms @ rest else rest))"

definition sent_to :: "string \<Rightarrow> (Message + string) list \<Rightarrow> Message list" where
  "sent_to t ops = concat (map (\<lambda>x. case x of Inl m \<Rightarrow> if ms_To m = t then [m] else [] | Inr u \<Rightarrow> []) ops)"

locale mailbox =
  fixes invar :: "'s \<Rightarrow> bool"
    and unread :: "'s \<Rightarrow> string \<Rightarrow> Message list"
    and send :: "Message \<Rightarrow> 's \<Rightarrow> 's"
    and read :: "string \<Rightarrow> 's \<Rightarrow> 's \<times> Message list"
  assumes send_law: "invar s \<Longrightarrow> invar (send m s) \<and> unread (send m s) = (unread s)(ms_To m := unread s (ms_To m) @ [m])"
    and read_law: "invar s \<Longrightarrow> read t s = (s', ms) \<Longrightarrow> invar s' \<and> ms = unread s t \<and> unread s' = (unread s)(t := [])"
begin

lemma exactly_once:
  assumes "invar s" "deliveries send read t ops s = (s', got)"
  shows "invar s' \<and> got @ unread s' t = unread s t @ sent_to t ops"
  using assms
proof (induction ops arbitrary: s s' got)
  case Nil
  then show ?case by (simp add: sent_to_def)
next
  case (Cons x ops)
  show ?case
  proof (cases x)
    case (Inl m)
    then have "deliveries send read t ops (send m s) = (s', got)" using Cons.prems(2) by simp
    from Cons.IH [OF _ this] send_law [OF Cons.prems(1), of m] Inl show ?thesis by (auto simp: sent_to_def)
  next
    case (Inr u)
    obtain s1 ms where r: "read u s = (s1, ms)" by fastforce
    obtain s2 rest where d: "deliveries send read t ops s1 = (s2, rest)" by fastforce
    have eq: "s' = s2" "got = (if u = t then ms @ rest else rest)" using Cons.prems(2) Inr r d by auto
    from read_law [OF Cons.prems(1) r] Cons.IH [OF _ d] Inr show ?thesis by (auto simp: eq sent_to_def)
  qed
qed

end

subsection \<open>Both stores keep the contract\<close>

definition mb_ok :: "mailbox_db \<Rightarrow> bool" where
  "mb_ok db \<longleftrightarrow> sorted_wrt (<) (map fst (mb_messages db)) \<and> 1 \<le> mb_seq db \<and>
     (\<forall>x\<in>set (mb_messages db). 1 \<le> fst x \<and> fst x < mb_seq db) \<and>
     (\<forall>t c. map_of (mb_cursors db) t = Some c \<longrightarrow> 0 \<le> c \<and> c < mb_seq db)"

definition mb_unread :: "mailbox_db \<Rightarrow> string \<Rightarrow> Message list" where
  "mb_unread db t = map snd (filter (\<lambda>(i, m). ms_To m = t \<and> i > cursor_of db t) (mb_messages db))"

lemma cursor_bounds: "mb_ok db \<Longrightarrow> 0 \<le> cursor_of db t \<and> cursor_of db t < mb_seq db"
  by (auto simp: mb_ok_def cursor_of_def split: option.splits)

lemma strict_sorted_filter: "sorted_wrt (<) (map fst xs) \<Longrightarrow> sorted_wrt (<) (map fst (filter P xs))"
  by (induction xs) auto

lemma sort_key_sorted_id: "sorted (map f xs) \<Longrightarrow> sort_key f xs = xs"
  by (induction xs) (auto simp: insort_is_Cons)

lemma unread_rows_eq:
  assumes "mb_ok db"
  shows "unread_rows db t c = filter (\<lambda>(i, m). ms_To m = t \<and> i > c) (mb_messages db)"
proof -
  have "sorted_wrt (<) (map fst (filter (\<lambda>(i, m). ms_To m = t \<and> i > c) (mb_messages db)))"
    using assms by (intro strict_sorted_filter) (simp add: mb_ok_def)
  then have "sorted (map fst (filter (\<lambda>(i, m). ms_To m = t \<and> i > c) (mb_messages db)))"
    by (simp add: strict_sorted_iff)
  then show ?thesis unfolding unread_rows_def by (rule sort_key_sorted_id)
qed

lemma max_id_ge: "acc \<le> max_id acc rows \<and> (\<forall>x\<in>set rows. fst x \<le> max_id acc rows)"
  by (induction acc rows rule: max_id.induct) force+

lemma max_id_in: "max_id acc rows = acc \<or> (\<exists>x\<in>set rows. max_id acc rows = fst x)"
  by (induction acc rows rule: max_id.induct) (simp, fastforce)

text \<open>One read in terms of the abstract inboxes, for the state a read starts from.\<close>

lemma consume_spec:
  assumes "mb_ok db" "rows = unread_rows db t (cursor_of db t)"
  shows "mb_ok (consume t (cursor_of db t) (max_id 0 rows) db) \<and>
    mb_unread (consume t (cursor_of db t) (max_id 0 rows) db) = (mb_unread db)(t := []) \<and>
    map snd rows = mb_unread db t"
proof -
  let ?c = "cursor_of db t" and ?m = "max_id 0 rows"
  have rows: "rows = filter (\<lambda>(i, m). ms_To m = t \<and> i > ?c) (mb_messages db)"
    using assms unread_rows_eq by simp
  have snd: "map snd rows = mb_unread db t" by (simp add: rows mb_unread_def)
  show ?thesis
  proof (cases "rows = []")
    case True
    then have "consume t ?c ?m db = db" using cursor_bounds [OF assms(1), of t] by (simp add: consume_def)
    moreover have "mb_unread db t = []" using snd True by simp
    ultimately show ?thesis using assms(1) snd by (simp add: fun_upd_idem)
  next
    case False
    then obtain x where x: "x \<in> set rows" by (cases rows) auto
    then have "?c < fst x" "fst x \<le> ?m" using max_id_ge [of 0 rows] by (auto simp: rows)
    then have gt: "?c < ?m" by simp
    have "?m \<noteq> 0" using gt cursor_bounds [OF assms(1), of t] by simp
    then have "\<exists>x\<in>set rows. ?m = fst x" using max_id_in [of 0 rows] by simp
    then have m: "0 \<le> ?m" "?m < mb_seq db" using assms(1) by (auto simp: rows mb_ok_def)
    have all: "i \<le> ?m" if "(i, m) \<in> set (mb_messages db)" "ms_To m = t" for i m
      using that max_id_ge [of 0 rows] gt by (cases "?c < i") (force simp: rows)+
    have db': "consume t ?c ?m db = db\<lparr>mb_cursors := AList.update t ?m (mb_cursors db),
        mb_messages := filter (\<lambda>(i, m). \<not> (ms_To m = t \<and> i \<le> ?m)) (mb_messages db)\<rparr>"
      using gt by (simp add: consume_def)
    have "mb_ok (consume t ?c ?m db)"
      using assms(1) m unfolding db' mb_ok_def
      by (auto simp: update_conv' strict_sorted_filter split: if_splits)
    moreover have "mb_unread (consume t ?c ?m db) u = ((mb_unread db)(t := [])) u" for u
    proof -
      have cur: "cursor_of (consume t ?c ?m db) u = (if u = t then ?m else cursor_of db u)"
        unfolding db' by (simp add: cursor_of_def update_conv')
      have "filter (\<lambda>(i, m). ms_To m = u \<and> i > (if u = t then ?m else cursor_of db u))
          (filter (\<lambda>(i, m). \<not> (ms_To m = t \<and> i \<le> ?m)) (mb_messages db)) =
        (if u = t then [] else filter (\<lambda>(i, m). ms_To m = u \<and> i > cursor_of db u) (mb_messages db))"
        using all by (force simp: filter_empty_conv intro!: filter_cong)
      then show ?thesis unfolding mb_unread_def cur by (simp add: db')
    qed
    ultimately show ?thesis using snd by auto
  qed
qed

definition sq_send :: "Message \<Rightarrow> mailbox_db \<Rightarrow> mailbox_db" where
  "sq_send m db = fst (sqmb_Send None (ms_Timestamp m) (ms_From m) (ms_To m) (ms_Content m) db)"

definition sq_read :: "string \<Rightarrow> mailbox_db \<Rightarrow> mailbox_db \<times> Message list" where
  "sq_read t db = (case sqmb_Read None t db of (db', Inr ms) \<Rightarrow> (db', ms) | (db', Inl e) \<Rightarrow> (db', []))"

lemma append_spec:
  assumes "mb_ok db"
  shows "mb_ok (db\<lparr>mb_messages := mb_messages db @ [(mb_seq db, m)], mb_seq := mb_seq db + 1\<rparr>) \<and>
    mb_unread (db\<lparr>mb_messages := mb_messages db @ [(mb_seq db, m)], mb_seq := mb_seq db + 1\<rparr>) =
      (mb_unread db)(ms_To m := mb_unread db (ms_To m) @ [m])"
proof -
  have c: "cursor_of (db\<lparr>mb_messages := mb_messages db @ [(mb_seq db, m)], mb_seq := mb_seq db + 1\<rparr>) t = cursor_of db t" for t
    by (simp add: cursor_of_def)
  show ?thesis
    using assms cursor_bounds [OF assms] by (fastforce simp: mb_ok_def mb_unread_def c sorted_wrt_append)
qed

interpretation sqmail: mailbox mb_ok mb_unread sq_send sq_read
proof
  show "mb_ok (sq_send m s) \<and> mb_unread (sq_send m s) = (mb_unread s)(ms_To m := mb_unread s (ms_To m) @ [m])"
    if "mb_ok s" for s m
    using append_spec [OF that, of m] by (cases m) (simp add: sq_send_def sqmb_Send_def)
  show "mb_ok s' \<and> ms = mb_unread s t \<and> mb_unread s' = (mb_unread s)(t := [])"
    if "mb_ok s" "sq_read t s = (s', ms)" for s t s' ms
    using consume_spec [OF that(1) refl, of t] that(2) by (auto simp: sq_read_def sqmb_Read_def Let_def)
qed

text \<open>PostgreSQL without overlapping sessions: no lock is held between operations.\<close>

definition pg_mb_ok :: "mailbox_db \<Rightarrow> bool" where
  "pg_mb_ok db \<longleftrightarrow> mb_ok db \<and> mb_locks db = []"

definition pgm_send :: "Message \<Rightarrow> mailbox_db \<Rightarrow> mailbox_db" where
  "pgm_send m db = fst (pgmb_Send None (ms_Timestamp m) (ms_From m) (ms_To m) (ms_Content m) db)"

definition pgm_read :: "string \<Rightarrow> mailbox_db \<Rightarrow> mailbox_db \<times> Message list" where
  "pgm_read t db = (case pgmb_Read None t db of Some (db', Inr ms) \<Rightarrow> (db', ms) | _ \<Rightarrow> (db, []))"

lemma locks_irrelevant [simp]:
  "mb_ok (db\<lparr>mb_locks := l\<rparr>) = mb_ok db" "mb_unread (db\<lparr>mb_locks := l\<rparr>) = mb_unread db"
  "cursor_of (db\<lparr>mb_locks := l\<rparr>) = cursor_of db" "unread_rows (db\<lparr>mb_locks := l\<rparr>) = unread_rows db"
  "consume t a b (db\<lparr>mb_locks := l\<rparr>) = (consume t a b db)\<lparr>mb_locks := l\<rparr>"
  by (auto simp: mb_ok_def mb_unread_def cursor_of_def unread_rows_def consume_def fun_eq_iff)

lemma consume_locks [simp]: "mb_locks (consume t a b db) = mb_locks db"
  by (simp add: consume_def)

lemma pgmb_Read_alone:
  assumes "mb_locks db = []"
  shows "pgmb_Read None t db =
    Some ((consume t (cursor_of db t) (max_id 0 (unread_rows db t (cursor_of db t))) db)\<lparr>mb_locks := []\<rparr>,
      Inr (map snd (unread_rows db t (cursor_of db t))))"
  using assms by (simp add: pgmb_Read_def pgmb_read_begin_def pgmb_read_commit_def Let_def)

lemma pgm_send_eq: "pgm_send m db = sq_send m db"
  by (cases db) (simp add: pgm_send_def sq_send_def pgmb_Send_def sqmb_Send_def pgmb_nextval_def pgmb_insert_def)

lemma sq_send_locks [simp]: "mb_locks (sq_send m db) = mb_locks db"
  by (simp add: sq_send_def sqmb_Send_def)

interpretation pgmail: mailbox pg_mb_ok mb_unread pgm_send pgm_read
proof
  show "pg_mb_ok (pgm_send m s) \<and> mb_unread (pgm_send m s) = (mb_unread s)(ms_To m := mb_unread s (ms_To m) @ [m])"
    if "pg_mb_ok s" for s m
    using sqmail.send_law [of s m] that by (simp add: pg_mb_ok_def pgm_send_eq)
  show "pg_mb_ok s' \<and> ms = mb_unread s t \<and> mb_unread s' = (mb_unread s)(t := [])"
    if "pg_mb_ok s" "pgm_read t s = (s', ms)" for s t s' ms
    using consume_spec [of s _ t] that by (auto simp: pg_mb_ok_def pgm_read_def pgmb_Read_alone)
qed

text \<open>Two overlapping first reads: without a cursor row there is no lock to wait for.\<close>

lemma overlapping_first_reads:
  assumes "map_of (mb_cursors db) t = None" "mb_locks db = []"
  shows "\<exists>snap. pgmb_read_begin t db = Some (db, snap) \<and>
    snd (pgmb_read_commit t snap db) = snd (pgmb_read_commit t snap (fst (pgmb_read_commit t snap db)))"
  using assms by (auto simp: pgmb_read_begin_def pgmb_read_commit_def Let_def)

lemma later_reads_wait:
  assumes "map_of (mb_cursors db) t = Some c" "pgmb_read_begin t db = Some (db1, snap)"
  shows "pgmb_read_begin t db1 = None"
  using assms by (auto simp: pgmb_read_begin_def Let_def split: if_splits)

subsection \<open>What the mailboxes guarantee\<close>

definition sample_mail :: Message where
  "sample_mail = \<lparr>ms_From = ''b'', ms_To = ''a'', ms_Content = ''hi'', ms_Timestamp = 1\<rparr>"

definition empty_mailbox :: mailbox_db where
  "empty_mailbox = \<lparr>mb_messages = [], mb_seq = 1, mb_cursors = [], mb_locks = []\<rparr>"

lemma empty_mailbox_ok: "mb_ok empty_mailbox"
  by (simp add: mb_ok_def empty_mailbox_def)

text \<open>
  C15 (mailbox_exactly_once): over any sequence of sends and reads of the SQLite mailbox, what a task
  has read followed by what it still has unread is what it had unread before followed by what was
  sent to it: each message is delivered once, to its recipient, in order.
\<close>

theorem mailbox_exactly_once:
  assumes "mb_ok db" "deliveries sq_send sq_read t ops db = (db', got)"
  shows "got @ mb_unread db' t = mb_unread db t @ sent_to t ops"
  using sqmail.exactly_once [OF assms] by simp

theorem mailbox_exactly_once_witness:
  "snd (deliveries sq_send sq_read ''a'' [Inl sample_mail, Inr ''a''] empty_mailbox) = [sample_mail]"
proof -
  let ?d = "deliveries sq_send sq_read ''a'' [Inl sample_mail, Inr ''a''] empty_mailbox"
  have unread: "mb_unread (fst ?d) ''a'' = []" "mb_unread empty_mailbox ''a'' = []"
    by (simp_all add: sq_send_def sqmb_Send_def sq_read_def sqmb_Read_def unread_rows_def consume_def cursor_of_def mb_unread_def
        empty_mailbox_def sample_mail_def Let_def)
  from mailbox_exactly_once [OF empty_mailbox_ok, of "''a''" "[Inl sample_mail, Inr ''a'']" "fst ?d" "snd ?d"] unread
  show ?thesis by (simp add: sent_to_def sample_mail_def)
qed

text \<open>
  Two PostgreSQL reads of a task that has no cursor row yet do not
  exclude each other: both can begin on the same state, and then both return every unread
  message.
\<close>

theorem pg_first_reads_overlap:
  assumes "map_of (mb_cursors db) t = None" "mb_locks db = []" "mb_ok db"
  shows "\<exists>db1 snap1 db2 snap2. pgmb_read_begin t db = Some (db1, snap1) \<and> pgmb_read_begin t db1 = Some (db2, snap2) \<and>
    snd (pgmb_read_commit t snap1 db2) = mb_unread db t \<and>
    snd (pgmb_read_commit t snap2 (fst (pgmb_read_commit t snap1 db2))) = mb_unread db t"
proof -
  let ?snap = "(cursor_of db t, unread_rows db t (cursor_of db t))"
  have begun: "pgmb_read_begin t db = Some (db, ?snap)" using assms(1,2) by (simp add: pgmb_read_begin_def Let_def)
  have "snd (pgmb_read_commit t ?snap d) = mb_unread db t" for d
    using consume_spec [OF assms(3) refl, of t] by (simp add: pgmb_read_commit_def)
  with begun show ?thesis by blast
qed

theorem pg_first_reads_overlap_witness:
  "\<exists>db1 snap1 db2 snap2. pgmb_read_begin ''a'' (pgm_send sample_mail empty_mailbox) = Some (db1, snap1) \<and>
     pgmb_read_begin ''a'' db1 = Some (db2, snap2) \<and>
     snd (pgmb_read_commit ''a'' snap1 db2) = [sample_mail] \<and>
     snd (pgmb_read_commit ''a'' snap2 (fst (pgmb_read_commit ''a'' snap1 db2))) = [sample_mail]"
proof -
  let ?db = "pgm_send sample_mail empty_mailbox"
  have "mb_unread ?db ''a'' = [sample_mail]" "map_of (mb_cursors ?db) ''a'' = None" "mb_locks ?db = []" "mb_ok ?db"
    by (simp_all add: pgm_send_def pgmb_Send_def pgmb_nextval_def pgmb_insert_def empty_mailbox_def sample_mail_def
        mb_unread_def cursor_of_def mb_ok_def)
  with pg_first_reads_overlap [of ?db "''a''"] show ?thesis by simp
qed

end
