(* ===== verification/Reaper.thy ===== *)
theory Reaper
  imports AgentLifecycle Objective Mailbox
begin

text \<open>
  \<open>internal/controlplane/reaper.go\<close>: the periodic sweep that stops agents past their maximum
  age, cleans up terminal queued agents, times out objectives and retries the cleanup of
  failed stream agents; and the admission check for the number of running agents, which
  \<open>RecordAgentStarted\<close> runs inside the store's lock.

  The runtime backends (processes, pods) and the mission queue are what the reaper is
  constructed with: their answers are functions in the \<open>reaper\<close> record, \<open>None\<close> for a
  collaborator that is not configured. \<open>reap_env\<close> gives the clock, the event identifiers and
  the store calls that fail.
\<close>

subsection \<open>State\<close>

datatype kill_result = Killed | KillNotFound | KillError string

record 'q reaper =
  rp_MaxConcurrent :: int
  rp_MaxAge :: int
  rp_Interval :: int
  rp_kill :: "string \<Rightarrow> kill_result"
  rp_killStream :: "(string \<Rightarrow> kill_result) option"
  rp_cancel :: "(int \<Rightarrow> 'q \<Rightarrow> 'q) option"
  rp_mailbox :: bool
  rp_objectives :: bool
  rp_bus :: bool
  rp_lifecycle :: "writer option"

record 'q reap_world =
  rw_life :: lifecycle_world
  rw_queue :: 'q
  rw_mail :: mailbox_db
  rw_objs :: "objective list"
  rw_kills :: "string list"

record reap_env =
  re_now :: int
  re_clock :: int
  re_uuid :: "string \<Rightarrow> string"
  re_load :: db_fault
  re_store :: "string \<Rightarrow> db_fault"
  re_mail :: "string \<Rightarrow> db_fault"
  re_list :: db_fault
  re_update :: "string \<Rightarrow> db_fault"

subsection \<open>The admission check\<close>

definition running_count :: "agent list \<Rightarrow> int" where
  "running_count as = int (length (filter (\<lambda>a. ag_Status a = AgRunning) as))"

definition CheckSpawnAllowed :: "int \<Rightarrow> state \<Rightarrow> error option" where
  "CheckSpawnAllowed maxConcurrent st =
     (if maxConcurrent \<le> 0 then None
      else if running_count (st_Agents st) \<ge> maxConcurrent
           then Some (ErrMsg (''max concurrent agents ('' @ itoa maxConcurrent @ '') reached''))
           else None)"

definition Reconfigure :: "int \<Rightarrow> int \<Rightarrow> int \<Rightarrow> 'q reaper \<Rightarrow> 'q reaper" where
  "Reconfigure maxConcurrent maxAge interval r =
     r\<lparr>rp_MaxConcurrent := maxConcurrent, rp_MaxAge := maxAge, rp_Interval := interval\<rparr>"

definition loop_interval :: "'q reaper \<Rightarrow> int" where
  "loop_interval r = (if rp_Interval r \<le> 0 then 30 * second_ns else rp_Interval r)"

subsection \<open>One agent\<close>

definition emitReapEvent :: "'q reaper \<Rightarrow> reap_env \<Rightarrow> string \<Rightarrow> string \<Rightarrow> string \<Rightarrow> 'q reap_world \<Rightarrow> 'q reap_world" where
  "emitReapEvent r env task reason severity w =
     (if \<not> rp_bus r then w
      else let e = (Info (re_uuid env task) (re_clock env) ''reconciler'' ''reap'')
             \<lparr>ev_Category := ''agent'', ev_Resource := ''task:'' @ task, ev_Outcome := ''success'',
              ev_Severity := severity, ev_Task := task, ev_Detail := ''agent reaped: '' @ reason,
              ev_Attrs := [(''reason'', reason)]\<rparr>
           in w\<lparr>rw_life := (rw_life w)\<lparr>lw_events := lw_events (rw_life w) @ [e]\<rparr>\<rparr>)"

definition cleanupTerminalQueuedAgent :: "'q reaper \<Rightarrow> reap_env \<Rightarrow> agent \<Rightarrow> 'q reap_world \<Rightarrow> 'q reap_world" where
  "cleanupTerminalQueuedAgent r env a w =
     (let w1 = w\<lparr>rw_life := (rw_life w)\<lparr>lw_db :=
                   fst (RemoveAgent (re_store env (ag_Task a)) (ag_Task a) (lw_db (rw_life w)))\<rparr>\<rparr>;
          w2 = (if rp_mailbox r
                then w1\<lparr>rw_mail := fst (sqmb_Remove (re_mail env (ag_Task a)) (ag_Task a) (rw_mail w1))\<rparr> else w1)
      in emitReapEvent r env (ag_Task a) ''terminal_queued'' ''debug'' w2)"

definition reap_meta :: "string \<Rightarrow> LifecycleMeta" where
  "reap_meta reason = \<lparr>lm_RuntimeType = [], lm_Backend = [], lm_MissionID = 0, lm_ObjectiveID = [], lm_Reason = reason\<rparr>"

definition transitionReapedAgent :: "'q reaper \<Rightarrow> reap_env \<Rightarrow> string \<Rightarrow> string \<Rightarrow> 'q reap_world \<Rightarrow> 'q reap_world" where
  "transitionReapedAgent r env task reason w =
     (case rp_lifecycle r of
        None \<Rightarrow>
          w\<lparr>rw_life := (rw_life w)\<lparr>lw_db := fst (UpdateAgentStatus (re_store env task) task AgStopped reason (lw_db (rw_life w)))\<rparr>\<rparr>
      | Some wr \<Rightarrow>
          w\<lparr>rw_life := fst (MarkStopped wr (re_store env task) (re_uuid env task) (re_clock env) task (reap_meta reason) (rw_life w))\<rparr>)"

definition finish_reap :: "'q reaper \<Rightarrow> reap_env \<Rightarrow> string \<Rightarrow> 'q reap_world \<Rightarrow> 'q reap_world" where
  "finish_reap r env task w =
     emitReapEvent r env task ''max_age'' ''info'' (transitionReapedAgent r env task ''reaped: max_age'' w)"

definition isTerminal :: "agent_status \<Rightarrow> bool" where
  "isTerminal s = (s = AgStopped \<or> s = AgFailed \<or> s = AgCompleted)"

definition reap_eligible :: "agent \<Rightarrow> bool" where
  "reap_eligible a = (ag_Status a = AgRunning \<or> (ag_Mode a = ''stream'' \<and> ag_Status a = AgIdle))"

text \<open>The body of the loop over the loaded agents.\<close>

definition reap_agent :: "'q reaper \<Rightarrow> reap_env \<Rightarrow> agent \<Rightarrow> 'q reap_world \<Rightarrow> 'q reap_world" where
  "reap_agent r env a w =
     (if ag_Status a = AgQueued then w
      else if ag_Mode a = ''queued'' \<and> isTerminal (ag_Status a) then cleanupTerminalQueuedAgent r env a w
      else if \<not> reap_eligible a then w
      else if rp_MaxAge r \<le> 0 then w
      else if re_now env - ag_StartTime a \<le> rp_MaxAge r then w
      else if ag_Mode a = ''queued'' then
        finish_reap r env (ag_Task a)
          (case rp_cancel r of
             None \<Rightarrow> w
           | Some cancel \<Rightarrow> if ag_MissionID a \<noteq> 0 then w\<lparr>rw_queue := cancel (ag_MissionID a) (rw_queue w)\<rparr> else w)
      else if ag_Mode a = ''stream'' then
        (case rp_killStream r of
           None \<Rightarrow> w
         | Some kill \<Rightarrow>
             let w1 = w\<lparr>rw_kills := rw_kills w @ [ag_Task a]\<rparr>
             in (case kill (ag_Task a) of KillError e \<Rightarrow> w1 | _ \<Rightarrow> finish_reap r env (ag_Task a) w1))
      else
        let w1 = w\<lparr>rw_kills := rw_kills w @ [ag_Task a]\<rparr>
        in (case rp_kill r (ag_Task a) of Killed \<Rightarrow> finish_reap r env (ag_Task a) w1 | _ \<Rightarrow> w1))"

subsection \<open>Objective timeouts\<close>

text \<open>The notice to the chessmaster; its text quotes the objective's identifier.\<close>

definition timeout_notice :: "int \<Rightarrow> objective \<Rightarrow> string" where
  "timeout_notice t ob =
     ''Objective '' @ quote (obj_ID ob) @ '' timed out after ''
       @ duration_string (round_duration second_ns (t - obj_CreatedAt ob))
       @ '' (max_runtime='' @ duration_string (obj_MaxRuntime ob) @ '')''"

definition timeout_objective :: "'q reaper \<Rightarrow> reap_env \<Rightarrow> objective \<Rightarrow> 'q reap_world \<Rightarrow> 'q reap_world" where
  "timeout_objective r env ob w =
     (if obj_MaxRuntime ob \<le> 0 then w
      else if re_now env - obj_CreatedAt ob \<le> obj_MaxRuntime ob then w
      else case obj_Update (re_update env (obj_ID ob)) (re_clock env) (ob\<lparr>obj_Status := StatusTimedOut\<rparr>) (rw_objs w) of
             (os, Inl err) \<Rightarrow> w\<lparr>rw_objs := os\<rparr>
           | (os, Inr _) \<Rightarrow>
               let w1 = w\<lparr>rw_objs := os\<rparr>
               in if rp_mailbox r
                  then w1\<lparr>rw_mail := fst (sqmb_Send (re_mail env (obj_ID ob)) (re_clock env) ''reaper'' ''chessmaster''
                            (timeout_notice (re_now env) ob) (rw_mail w1))\<rparr>
                  else w1)"

definition reapObjectiveTimeouts :: "'q reaper \<Rightarrow> reap_env \<Rightarrow> 'q reap_world \<Rightarrow> 'q reap_world" where
  "reapObjectiveTimeouts r env w =
     (if \<not> rp_objectives r then w
      else case obj_ListByStatus (re_list env) StatusOpen (rw_objs w) of
             Inl err \<Rightarrow> w
           | Inr obs \<Rightarrow> fold (timeout_objective r env) obs w)"

subsection \<open>The sweep\<close>

definition backstop_due :: "int \<Rightarrow> agent \<Rightarrow> bool" where
  "backstop_due t a = (ag_Mode a = ''stream'' \<and> ag_Status a = AgFailed \<and> t - ag_StartTime a > 5 * 60 * second_ns)"

definition reap :: "'q reaper \<Rightarrow> reap_env \<Rightarrow> 'q reap_world \<Rightarrow> 'q reap_world" where
  "reap r env w =
     (case Load (re_load env) (lw_db (rw_life w)) of
        Inl err \<Rightarrow> w
      | Inr st \<Rightarrow>
          let w1 = fold (reap_agent r env) (st_Agents st) w;
              w2 = reapObjectiveTimeouts r env w1
          in case rp_killStream r of
               None \<Rightarrow> w2
             | Some kill \<Rightarrow> w2\<lparr>rw_kills := rw_kills w2 @ map ag_Task (filter (backstop_due (re_now env)) (st_Agents st))\<rparr>)"

subsection \<open>The spawn limit\<close>

lemma running_count_append: "running_count (as @ bs) = running_count as + running_count bs"
  by (simp add: running_count_def)

lemma running_count_stored [simp]: "running_count (map stored_agent as) = running_count as"
  by (simp add: running_count_def filter_map comp_def stored_agent_def)

lemma RecordAgentStarted_running:
  assumes "RecordAgentStarted (wr\<lparr>w_admissionCheck := Some (CheckSpawnAllowed mx)\<rparr>) f uuid t0 t task meta lw = (lw', Inr ())"
  shows "running_count (db_agents (lw_db lw')) = running_count (db_agents (lw_db lw)) + 1 \<and>
    (0 < mx \<longrightarrow> running_count (db_agents (lw_db lw)) < mx)"
proof -
  let ?fn = "\<lambda>st. case CheckSpawnAllowed mx st of Some err \<Rightarrow> Inl err
    | None \<Rightarrow> Inr (st\<lparr>st_Agents := st_Agents st @ [started_entry t0 task meta]\<rparr>)"
  obtain db r where wl: "WithLock f ?fn (lw_db lw) = (db, r)" by fastforce
  have r: "r = Inr ()" and db: "lw_db lw' = db"
    using assms wl by (auto simp: RecordAgentStarted_def split: sum.splits)
  from wl show ?thesis
  proof (cases rule: WithLock_cases)
    case (failed e)
    then show ?thesis using r by simp
  next
    case (committed st)
    then have "CheckSpawnAllowed mx (loadTx (lw_db lw)) = None"
      and st: "st_Agents st = db_agents (lw_db lw) @ [started_entry t0 task meta]"
      by (auto simp: loadTx_def split: option.splits)
    moreover have "running_count [started_entry t0 task meta] = 1"
      by (simp add: running_count_def started_entry_def)
    ultimately show ?thesis
      using committed(4) by (auto simp: db st running_count_append CheckSpawnAllowed_def loadTx_def split: if_splits)
        (simp_all add: running_count_def started_entry_def stored_agent_def filter_map comp_def)
  qed
qed

subsection \<open>What the sweep does to each agent\<close>

abbreviation rdb :: "'q reap_world \<Rightarrow> agent_db" where
  "rdb w \<equiv> lw_db (rw_life w)"

definition reap_faultless :: "reap_env \<Rightarrow> bool" where
  "reap_faultless env \<longleftrightarrow> re_load env = None \<and> (\<forall>t. re_store env t = None)"

definition expired :: "'q reaper \<Rightarrow> reap_env \<Rightarrow> agent \<Rightarrow> bool" where
  "expired r env a \<longleftrightarrow> reap_eligible a \<and> 0 < rp_MaxAge r \<and> re_now env - ag_StartTime a > rp_MaxAge r"

definition kill_done :: "'q reaper \<Rightarrow> agent \<Rightarrow> bool" where
  "kill_done r a \<longleftrightarrow>
     (if ag_Mode a = ''queued'' then True
      else if ag_Mode a = ''stream''
           then (case rp_killStream r of None \<Rightarrow> False | Some kill \<Rightarrow> kill (ag_Task a) \<in> {Killed, KillNotFound})
      else rp_kill r (ag_Task a) = Killed)"

text \<open>The intended outcome for a row: removed, stopped or left alone.\<close>

definition reap_outcome :: "'q reaper \<Rightarrow> reap_env \<Rightarrow> agent \<Rightarrow> agent option" where
  "reap_outcome r env a =
     (if ag_Mode a = ''queued'' \<and> ag_terminal (ag_Status a) then None
      else if expired r env a \<and> kill_done r a
           then Some (a\<lparr>ag_Status := AgStopped, ag_LastOutput := ''reaped: max_age''\<rparr>)
      else Some a)"

lemma emitReapEvent_db [simp]: "rdb (emitReapEvent r env task reason sev w) = rdb w"
  by (simp add: emitReapEvent_def Let_def)

lemma UpdateAgentStatus_effect:
  assumes "db_ok db" "ag_look db task = Some a"
  shows "db_ok (fst (UpdateAgentStatus None task st out db)) \<and>
    ag_look (fst (UpdateAgentStatus None task st out db)) = (ag_look db)(task \<mapsto> a\<lparr>ag_Status := st, ag_LastOutput := out\<rparr>)"
proof -
  have ok: "agents_ok db" and sa: "stored_agent a = a" using assms by (auto simp: db_ok_look)
  have "affected (\<lambda>a. ag_Task a = task) (db_agents db) \<noteq> 0"
    using guarded_hit [OF ok assms(2), of "\<lambda>_. True"] by simp
  then have eq: "fst (UpdateAgentStatus None task st out db) = db\<lparr>db_agents := update_rows (\<lambda>a. ag_Task a = task)
      (\<lambda>a. a\<lparr>ag_Status := st, ag_LastOutput := out\<rparr>) (db_agents db)\<rparr>"
    by (simp add: UpdateAgentStatus_def)
  have look: "ag_look (fst (UpdateAgentStatus None task st out db)) =
      (ag_look db)(task \<mapsto> a\<lparr>ag_Status := st, ag_LastOutput := out\<rparr>)"
    using ag_look_guarded [of "\<lambda>a. a\<lparr>ag_Status := st, ag_LastOutput := out\<rparr>" db task a "\<lambda>_. True"] ok assms(2)
    by (simp add: eq)
  moreover have "agents_ok (fst (UpdateAgentStatus None task st out db))"
    unfolding eq using ok by (intro agents_ok_update_rows) simp_all
  ultimately show ?thesis using db_ok_set [OF assms(1) _ look] sa by simp
qed

lemma finish_reap_effect:
  assumes "reap_faultless env" "db_ok (rdb w)" "ag_look (rdb w) task = Some a" "ag_Status a \<in> {AgRunning, AgIdle}"
  shows "db_ok (rdb (finish_reap r env task w)) \<and>
    ag_look (rdb (finish_reap r env task w)) =
      (ag_look (rdb w))(task \<mapsto> a\<lparr>ag_Status := AgStopped, ag_LastOutput := ''reaped: max_age''\<rparr>)"
proof (cases "rp_lifecycle r")
  case None
  then show ?thesis
    using UpdateAgentStatus_effect [OF assms(2,3), of AgStopped "''reaped: max_age''"] assms(1)
    by (simp add: finish_reap_def transitionReapedAgent_def reap_faultless_def)
next
  case (Some wr)
  obtain db ok where u: "UpdateAgentStatusIf None task [AgQueued, AgRunning, AgIdle] AgStopped ''reaped: max_age'' (rdb w) = (db, ok)"
    by fastforce
  have "ag_Status a \<in> set [AgQueued, AgRunning, AgIdle]" using assms(4) by auto
  from sqlagents.status_if_hit [OF _ assms(3) this u] assms(2) have "ok = Inr True" by (simp add: db_ok_def)
  with status_if_effect [OF assms(2) _ u] assms(3) have
    "db_ok db" "ag_look db = (ag_look (rdb w))(task \<mapsto> a\<lparr>ag_Status := AgStopped, ag_LastOutput := ''reaped: max_age''\<rparr>)"
    by auto
  with u Some assms(1) \<open>ok = Inr True\<close> show ?thesis
    by (simp add: finish_reap_def transitionReapedAgent_def reap_faultless_def MarkStopped_def reap_meta_def)
qed

lemma RemoveAgent_effect:
  assumes "db_ok db"
  shows "db_ok (fst (RemoveAgent None task db)) \<and> ag_look (fst (RemoveAgent None task db)) = (ag_look db)(task := None)"
proof -
  have ok: "distinct (map ag_Task (db_agents db))" using assms by (simp add: db_ok_def agents_ok_def)
  have rows: "db_agents (fst (RemoveAgent None task db)) = filter (\<lambda>a. ag_Task a \<noteq> task) (db_agents db)"
    by (auto simp: RemoveAgent_def affected_0_iff filter_id_conv)
  have "find (\<lambda>a. ag_Task a = t) (filter (\<lambda>a. ag_Task a \<noteq> task) as) = (if t = task then None else find (\<lambda>a. ag_Task a = t) as)"
    for t and as :: "agent list"
    by (induction as) auto
  then have "ag_look (fst (RemoveAgent None task db)) t = ((ag_look db)(task := None)) t" for t
    by (simp add: ag_look_def rows)
  moreover have "db_ok (fst (RemoveAgent None task db))"
    using assms by (auto simp: db_ok_def agents_ok_def rows distinct_map_filter)
  ultimately show ?thesis by auto
qed

lemma isTerminal_eq: "isTerminal s = ag_terminal s"
  by (auto simp: isTerminal_def ag_terminal_def)

lemma cleanup_effect:
  assumes "reap_faultless env" "db_ok (rdb w)"
  shows "db_ok (rdb (cleanupTerminalQueuedAgent r env a w)) \<and>
    ag_look (rdb (cleanupTerminalQueuedAgent r env a w)) = (ag_look (rdb w))(ag_Task a := None)"
  using RemoveAgent_effect [OF assms(2), of "ag_Task a"] assms(1)
  by (simp add: cleanupTerminalQueuedAgent_def Let_def reap_faultless_def)

lemma reap_agent_effect:
  assumes "reap_faultless env" "db_ok (rdb w)" "ag_look (rdb w) (ag_Task a) = Some a"
  shows "db_ok (rdb (reap_agent r env a w)) \<and>
    ag_look (rdb (reap_agent r env a w)) = (ag_look (rdb w))(ag_Task a := reap_outcome r env a)"
proof -
  let ?same = "(ag_look (rdb w))(ag_Task a := Some a) = ag_look (rdb w)"
  have same: ?same using assms(3) by auto
  consider (clean) "ag_Mode a = ''queued''" "ag_terminal (ag_Status a)"
    | (spare) "\<not> expired r env a" "\<not> (ag_Mode a = ''queued'' \<and> ag_terminal (ag_Status a))"
    | (hit) "expired r env a" by blast
  then show ?thesis
  proof cases
    case clean
    then have "reap_agent r env a w = cleanupTerminalQueuedAgent r env a w"
      by (auto simp: reap_agent_def isTerminal_eq ag_terminal_def)
    then show ?thesis using cleanup_effect [OF assms(1,2), of r a] clean by (simp add: reap_outcome_def)
  next
    case spare
    then have "reap_agent r env a w = w"
      by (auto simp: reap_agent_def isTerminal_eq expired_def)
    then show ?thesis using spare assms(2) same by (auto simp: reap_outcome_def)
  next
    case hit
    then have live: "ag_Status a \<in> {AgRunning, AgIdle}" by (auto simp: expired_def reap_eligible_def)
    then have nt: "\<not> ag_terminal (ag_Status a)" "ag_Status a \<noteq> AgQueued" by (auto simp: ag_terminal_def)
    have fin: "db_ok (rdb (finish_reap r env (ag_Task a) v)) \<and> ag_look (rdb (finish_reap r env (ag_Task a) v)) =
        (ag_look (rdb w))(ag_Task a \<mapsto> a\<lparr>ag_Status := AgStopped, ag_LastOutput := ''reaped: max_age''\<rparr>)"
      if "rw_life v = rw_life w" for v
      using finish_reap_effect [OF assms(1), of v "ag_Task a" a r] assms(2,3) live that by simp
    have ex: "\<exists>v'. rw_life v' = rw_life w \<and> finish_reap r env (ag_Task a) v = finish_reap r env (ag_Task a) v'"
      if "rw_life v = rw_life w" for v using that by blast
    have "(kill_done r a \<longrightarrow> (\<exists>v. rw_life v = rw_life w \<and> reap_agent r env a w = finish_reap r env (ag_Task a) v)) \<and>
        (\<not> kill_done r a \<longrightarrow> rw_life (reap_agent r env a w) = rw_life w)"
      using hit nt unfolding reap_agent_def expired_def kill_done_def
      by (auto simp: isTerminal_eq Let_def intro!: ex split: option.splits kill_result.splits)
    then show ?thesis
      using fin hit nt same assms(2) by (cases "kill_done r a") (auto simp: reap_outcome_def)
  qed
qed

lemma reap_fold:
  assumes "reap_faultless env" "db_ok (rdb w)" "distinct (map ag_Task as)"
    "\<forall>a\<in>set as. ag_look (rdb w) (ag_Task a) = Some a"
  shows "db_ok (rdb (fold (reap_agent r env) as w)) \<and>
    (\<forall>t. ag_look (rdb (fold (reap_agent r env) as w)) t =
      (case find (\<lambda>a. ag_Task a = t) as of None \<Rightarrow> ag_look (rdb w) t | Some a \<Rightarrow> reap_outcome r env a))"
  using assms
proof (induction as arbitrary: w)
  case (Cons a as)
  let ?w1 = "reap_agent r env a w"
  have e: "db_ok (rdb ?w1)" "ag_look (rdb ?w1) = (ag_look (rdb w))(ag_Task a := reap_outcome r env a)"
    using reap_agent_effect [OF Cons.prems(1,2), of a r] Cons.prems(4) by auto
  have new: "ag_Task a \<notin> ag_Task ` set as" using Cons.prems(3) by simp
  have "\<forall>b\<in>set as. ag_look (rdb ?w1) (ag_Task b) = Some b"
    using Cons.prems(4) new unfolding e(2) by (metis fun_upd_other image_eqI list.set_intros(2))
  from Cons.IH [OF Cons.prems(1) e(1) _ this] Cons.prems(3) have
    ih: "db_ok (rdb (fold (reap_agent r env) as ?w1))"
      "\<And>t. ag_look (rdb (fold (reap_agent r env) as ?w1)) t =
        (case find (\<lambda>a. ag_Task a = t) as of None \<Rightarrow> ag_look (rdb ?w1) t | Some a \<Rightarrow> reap_outcome r env a)" by auto
  have none: "find (\<lambda>b. ag_Task b = ag_Task a) as = None"
    using new unfolding find_None_iff by (metis imageI)
  show ?case using ih none by (auto simp: e(2) split: option.splits)
qed simp

lemma timeouts_life: "rw_life (timeout_objective r env ob w) = rw_life w"
  by (auto simp: timeout_objective_def Let_def split: sum.splits prod.splits)

lemma reapObjectiveTimeouts_life [simp]: "rw_life (reapObjectiveTimeouts r env w) = rw_life w"
proof -
  have "rw_life (fold (timeout_objective r env) obs w) = rw_life w" for obs
    by (induction obs arbitrary: w) (simp_all add: timeouts_life)
  then show ?thesis by (simp add: reapObjectiveTimeouts_def split: sum.splits)
qed

lemma reap_look:
  assumes "reap_faultless env" "db_ok (rdb w)"
  shows "db_ok (rdb (reap r env w)) \<and>
    ag_look (rdb (reap r env w)) t = (case ag_look (rdb w) t of None \<Rightarrow> None | Some a \<Rightarrow> reap_outcome r env a)"
proof -
  let ?as = "db_agents (rdb w)"
  have d: "distinct (map ag_Task ?as)" using assms(2) by (simp add: db_ok_def agents_ok_def)
  have all: "\<forall>a\<in>set ?as. ag_look (rdb w) (ag_Task a) = Some a"
    using find_key_unique [OF d] by (simp add: ag_look_def)
  have "rdb (reap r env w) = rdb (fold (reap_agent r env) ?as w)"
    using assms(1) by (auto simp: reap_def Load_def reap_faultless_def loadTx_def Let_def split: option.splits)
  with reap_fold [OF assms d all, of r] show ?thesis by (simp add: ag_look_def split: option.splits)
qed

subsection \<open>Objective timeouts\<close>

definition overdue :: "reap_env \<Rightarrow> objective \<Rightarrow> bool" where
  "overdue env ob \<longleftrightarrow> 0 < obj_MaxRuntime ob \<and> re_now env - obj_CreatedAt ob > obj_MaxRuntime ob"

definition timeout_faultless :: "reap_env \<Rightarrow> bool" where
  "timeout_faultless env \<longleftrightarrow> re_list env = None \<and> (\<forall>i. re_update env i = None)"

text \<open>The intended effect on a row.\<close>

definition timed_out :: "reap_env \<Rightarrow> objective \<Rightarrow> objective" where
  "timed_out env ob =
     (if obj_Status ob = StatusOpen \<and> overdue env ob
      then ob\<lparr>obj_Status := StatusTimedOut, obj_UpdatedAt := re_clock env\<rparr> else ob)"

lemma timeout_objective_look:
  assumes "timeout_faultless env" "obj_table_ok (rw_objs w)" "obj_look (rw_objs w) (obj_ID ob) = Some ob"
    "obj_Status ob = StatusOpen"
  shows "obj_table_ok (rw_objs (timeout_objective r env ob w)) \<and>
    obj_look (rw_objs (timeout_objective r env ob w)) = (obj_look (rw_objs w))(obj_ID ob \<mapsto> timed_out env ob)"
proof (cases "overdue env ob")
  case True
  have upd: "re_update env (obj_ID ob) = None" using assms(1) by (simp add: timeout_faultless_def)
  obtain os res where u: "obj_Update None (re_clock env) (ob\<lparr>obj_Status := StatusTimedOut\<rparr>) (rw_objs w) = (os, res)"
    by (cases "obj_Update None (re_clock env) (ob\<lparr>obj_Status := StatusTimedOut\<rparr>) (rw_objs w)")
  from obj_Update_status [OF assms(2,3), of "re_clock env" StatusTimedOut] u True assms(4) show ?thesis
    by (auto simp: timeout_objective_def overdue_def timed_out_def upd Let_def)
next
  case False
  then have "timeout_objective r env ob w = w" by (auto simp: timeout_objective_def overdue_def)
  with False assms(2,3) show ?thesis by (auto simp: timed_out_def)
qed

lemma timeout_fold:
  assumes "timeout_faultless env" "obj_table_ok (rw_objs w)" "distinct (map obj_ID obs)"
    "\<forall>ob\<in>set obs. obj_look (rw_objs w) (obj_ID ob) = Some ob \<and> obj_Status ob = StatusOpen"
  shows "obj_look (rw_objs (fold (timeout_objective r env) obs w)) i =
    (case find (\<lambda>ob. obj_ID ob = i) obs of None \<Rightarrow> obj_look (rw_objs w) i | Some ob \<Rightarrow> Some (timed_out env ob))"
  using assms(2-4)
proof (induction obs arbitrary: w)
  case (Cons ob obs)
  let ?w1 = "timeout_objective r env ob w"
  have ob: "obj_look (rw_objs w) (obj_ID ob) = Some ob" "obj_Status ob = StatusOpen" using Cons.prems(3) by auto
  note step = timeout_objective_look [OF assms(1) Cons.prems(1) ob, of r]
  have other: "x \<in> set obs \<Longrightarrow> obj_ID x \<noteq> obj_ID ob" for x
    using Cons.prems(2) by (metis distinct.simps(2) image_eqI list.set_map list.simps(9))
  have "\<forall>x\<in>set obs. obj_look (rw_objs ?w1) (obj_ID x) = Some x \<and> obj_Status x = StatusOpen"
  proof
    fix x
    assume x: "x \<in> set obs"
    from other [OF x] show "obj_look (rw_objs ?w1) (obj_ID x) = Some x \<and> obj_Status x = StatusOpen"
      using Cons.prems(3) x by (simp add: step)
  qed
  then have IH: "obj_look (rw_objs (fold (timeout_objective r env) obs ?w1)) i =
       (case find (\<lambda>ob. obj_ID ob = i) obs of None \<Rightarrow> obj_look (rw_objs ?w1) i | Some ob \<Rightarrow> Some (timed_out env ob))"
    by (intro Cons.IH) (use step Cons.prems(2) in simp_all)
  have look: "obj_look (rw_objs ?w1) i = (if i = obj_ID ob then Some (timed_out env ob) else obj_look (rw_objs w) i)"
    using step by simp
  show ?case
  proof (cases "obj_ID ob = i")
    case True
    then have "find (\<lambda>ob. obj_ID ob = i) obs = None" using other by (simp add: find_None_iff)
    with True IH look show ?thesis by simp
  next
    case False
    with IH look show ?thesis by (simp split: option.splits)
  qed
qed simp

lemma reapObjectiveTimeouts_look:
  assumes "timeout_faultless env" "obj_table_ok (rw_objs w)" "rp_objectives r"
  shows "obj_look (rw_objs (reapObjectiveTimeouts r env w)) i = map_option (timed_out env) (obj_look (rw_objs w) i)"
proof -
  let ?open = "filter (\<lambda>r. obj_Status r = StatusOpen) (rw_objs w)"
  let ?obs = "sort_key obj_CreatedAt ?open"
  have d: "distinct (map obj_ID (rw_objs w))" using assms(2) by (simp add: obj_table_ok_def)
  then have d_open: "distinct (map obj_ID ?open)" by (rule distinct_map_filter)
  then have d_obs: "distinct (map obj_ID ?obs)"
    by (simp add: distinct_map)
  have all: "\<forall>ob\<in>set ?obs. obj_look (rw_objs w) (obj_ID ob) = Some ob \<and> obj_Status ob = StatusOpen"
    using find_key_unique [OF d] by (auto simp: obj_look_def)
  have eq: "reapObjectiveTimeouts r env w = fold (timeout_objective r env) ?obs w"
    using assms(1,3) by (simp add: reapObjectiveTimeouts_def obj_ListByStatus_def timeout_faultless_def)
  show ?thesis
  proof (cases "find (\<lambda>ob. obj_ID ob = i) ?obs")
    case (Some ob)
    with all have "obj_look (rw_objs w) i = Some ob" by (auto dest: find_SomeD)
    with Some show ?thesis unfolding eq timeout_fold [OF assms(1,2) d_obs all] by simp
  next
    case None
    have "timed_out env ob = ob" if "obj_look (rw_objs w) i = Some ob" for ob
    proof -
      have "ob \<in> set (rw_objs w)" "obj_ID ob = i" using that by (auto simp: obj_look_def dest: find_SomeD)
      with None have "obj_Status ob \<noteq> StatusOpen" by (auto simp: find_None_iff)
      then show ?thesis by (simp add: timed_out_def)
    qed
    with None show ?thesis
      unfolding eq timeout_fold [OF assms(1,2) d_obs all] by (cases "obj_look (rw_objs w) i") simp_all
  qed
qed

lemma reap_agent_objs [simp]: "rw_objs (reap_agent r env a w) = rw_objs w"
  by (auto simp: reap_agent_def finish_reap_def transitionReapedAgent_def emitReapEvent_def cleanupTerminalQueuedAgent_def
      Let_def split: option.splits kill_result.splits)

subsection \<open>What the reaper guarantees\<close>

definition sample_reaper :: "unit reaper" where
  "sample_reaper =
     \<lparr>rp_MaxConcurrent = 1, rp_MaxAge = 100, rp_Interval = 10, rp_kill = (\<lambda>_. Killed), rp_killStream = None,
      rp_cancel = None, rp_mailbox = False, rp_objectives = True, rp_bus = False, rp_lifecycle = Some sample_writer\<rparr>"

definition sample_overdue :: objective where
  "sample_overdue =
     \<lparr>obj_ID = ''o1'', obj_Description = [], obj_Status = StatusOpen, obj_CreatedAt = 0, obj_UpdatedAt = 0,
      obj_CreatedBy = [], obj_MaxMissions = 5, obj_MaxDepth = 5, obj_MaxRuntime = 50, obj_MaxBranching = 5,
      obj_MissionCount = 1, obj_FindingCount = 0, obj_Outcome = [], obj_OutcomeData = None\<rparr>"

definition sample_reap_world :: "unit reap_world" where
  "sample_reap_world =
     \<lparr>rw_life = sample_life0\<lparr>lw_db := \<lparr>db_agents = [sample_queued\<lparr>ag_Status := AgRunning, ag_Mode := ''batch''\<rparr>], db_chessmaster = None\<rparr>\<rparr>,
      rw_queue = (), rw_mail = \<lparr>mb_messages = [], mb_seq = 1, mb_cursors = [], mb_locks = []\<rparr>,
      rw_objs = [sample_overdue], rw_kills = []\<rparr>"

definition sample_reap_env :: reap_env where
  "sample_reap_env =
     \<lparr>re_now = 1000, re_clock = 1000, re_uuid = (\<lambda>_. []), re_load = None, re_store = (\<lambda>_. None), re_mail = (\<lambda>_. None),
      re_list = None, re_update = (\<lambda>_. None)\<rparr>"

lemmas sample_reap_defs = sample_reaper_def sample_reap_world_def sample_reap_env_def sample_overdue_def sample_queued_def

lemma sample_reap_ok:
  "reap_faultless sample_reap_env" "timeout_faultless sample_reap_env" "db_ok (rdb sample_reap_world)"
  "obj_table_ok (rw_objs sample_reap_world)"
  by (simp_all add: reap_faultless_def timeout_faultless_def db_ok_def agents_ok_def stored_agent_def rfc3339_time_def
      obj_table_ok_def sample_reap_defs)

text \<open>
  With the reaper's admission check in the writer and a positive limit,
  a start that succeeds had fewer running agents than the limit in the table it was written to
  and adds exactly one; so the number of running agents does not pass the limit by a start.
\<close>

theorem spawn_limit_respected:
  assumes "RecordAgentStarted (wr\<lparr>w_admissionCheck := Some (CheckSpawnAllowed mx)\<rparr>) f uuid t0 t task meta lw = (lw', Inr ())"
    and "0 < mx"
  shows "running_count (db_agents (lw_db lw')) = running_count (db_agents (lw_db lw)) + 1 \<and>
    running_count (db_agents (lw_db lw')) \<le> mx"
  using RecordAgentStarted_running [OF assms(1)] assms(2) by auto

theorem spawn_limit_respected_witness:
  "running_count (db_agents (lw_db (fst (RecordAgentStarted (sample_writer\<lparr>w_admissionCheck := Some (CheckSpawnAllowed 1)\<rparr>)
      None ''u'' 0 1 ''b'' \<lparr>cm_LifecycleMeta = sample_meta, cm_WorkspacePath = [], cm_BranchName = [], cm_BaseBranch = [], cm_Mode = []\<rparr>
      sample_life0)))) \<le> 1"
proof -
  let ?run = "RecordAgentStarted (sample_writer\<lparr>w_admissionCheck := Some (CheckSpawnAllowed 1)\<rparr>) None ''u'' 0 1 ''b''
    \<lparr>cm_LifecycleMeta = sample_meta, cm_WorkspacePath = [], cm_BranchName = [], cm_BaseBranch = [], cm_Mode = []\<rparr> sample_life0"
  have "?run = (fst ?run, Inr ())"
    by (simp add: RecordAgentStarted_def WithLock_def loadTx_def saveTx_def insertAgentTx_def CheckSpawnAllowed_def
        running_count_def started_entry_def sample_life0_def sample_queued_def Let_def)
  from spawn_limit_respected [OF this] show ?thesis by simp
qed

text \<open>
  in a sweep in which the agent table can be read and written, every agent ends
  as intended: a terminal queued agent is removed; a running agent (or an idle streaming one)
  older than the positive maximum age whose kill succeeded is stopped with the reaper's note;
  every other row is untouched.
\<close>

theorem reap_outcomes:
  assumes "reap_faultless env" "db_ok (rdb w)"
  shows "ag_look (rdb (reap r env w)) t =
    (case ag_look (rdb w) t of
       None \<Rightarrow> None
     | Some a \<Rightarrow>
         if ag_Mode a = ''queued'' \<and> ag_terminal (ag_Status a) then None
         else if expired r env a \<and> kill_done r a
              then Some (a\<lparr>ag_Status := AgStopped, ag_LastOutput := ''reaped: max_age''\<rparr>)
         else Some a)"
  using reap_look [OF assms, of r t] by (simp add: reap_outcome_def split: option.splits)

theorem reap_outcomes_witness:
  "map_option ag_Status (ag_look (rdb (reap sample_reaper sample_reap_env sample_reap_world)) ''a'') = Some AgStopped"
proof -
  have "ag_look (rdb sample_reap_world) ''a'' = Some (sample_queued\<lparr>ag_Status := AgRunning, ag_Mode := ''batch''\<rparr>)"
    by (simp add: ag_look_def sample_reap_defs)
  with reap_outcomes [OF sample_reap_ok(1,3), of sample_reaper "''a''"] show ?thesis
    by (simp add: expired_def kill_done_def reap_eligible_def sample_reap_defs)
qed

text \<open>
  when its calls succeed, the timeout check marks exactly the
  open objectives that are older than their positive runtime limit as timed out and leaves
  every other objective, and every other field, as it is.
\<close>

theorem overdue_objectives_timed_out:
  assumes "timeout_faultless env" "obj_table_ok (rw_objs w)" "rp_objectives r"
  shows "obj_look (rw_objs (reapObjectiveTimeouts r env w)) i =
    map_option (\<lambda>ob. if obj_Status ob = StatusOpen \<and> 0 < obj_MaxRuntime ob \<and> re_now env - obj_CreatedAt ob > obj_MaxRuntime ob
      then ob\<lparr>obj_Status := StatusTimedOut, obj_UpdatedAt := re_clock env\<rparr> else ob) (obj_look (rw_objs w) i)"
  using reapObjectiveTimeouts_look [OF assms, of i] by (simp add: timed_out_def [abs_def] overdue_def)

theorem overdue_objectives_timed_out_witness:
  "map_option obj_Status (obj_look (rw_objs (reapObjectiveTimeouts sample_reaper sample_reap_env sample_reap_world)) ''o1'') =
     Some StatusTimedOut"
proof -
  have on: "rp_objectives sample_reaper" by (simp add: sample_reaper_def)
  have "obj_look (rw_objs sample_reap_world) ''o1'' = Some sample_overdue"
    by (simp add: obj_look_def sample_reap_defs)
  with overdue_objectives_timed_out [OF sample_reap_ok(2,4) on, of "''o1''"] show ?thesis
    by (simp add: sample_reap_env_def sample_overdue_def)
qed

end
