(* ===== verification/Mission.thy ===== *)
theory Mission
  imports AgentStore
begin

text \<open>
  \<open>internal/queue/queue.go\<close>: missions, their payload, and the \<open>MissionQueue\<close> interface. The
  interface is the locale \<open>mission_queue\<close>: what its clients (the workers, the admission
  controller, the control plane) rely on, whichever backend provides it.

  \<open>Mission.Payload\<close> is raw JSON. It is kept decoded: \<open>Encoded p\<close> for text that
  \<open>json.Unmarshal\<close> accepts as a \<open>MissionPayload\<close>, \<open>Malformed s\<close> for any other text.
\<close>

subsection \<open>Data\<close>

datatype mission_status =
    MsPending
  | MsClaimed
  | MsCompleted
  | MsFailed
  | MsCancelled
  | MsOther string

record MissionPayload =
  mp_Task :: string
  mp_Contract :: string
  mp_BaseBranch :: string
  mp_Model :: string
  mp_Mode :: string
  mp_RuntimeType :: string
  mp_AllowedTools :: "string list"
  mp_MCPServers :: string
  mp_Backend :: string
  mp_ConfigPath :: string
  mp_GraphAddr :: string
  mp_StrategyDir :: string
  mp_ConfigHash :: string
  mp_GatewayURL :: string
  mp_ObjectiveID :: string
  mp_MissionID :: int
  mp_StagedCredentialRefs :: "(string \<times> string) list"

datatype raw_payload = Encoded MissionPayload | Malformed string

definition payload_marshal :: "MissionPayload \<Rightarrow> raw_payload" where
  "payload_marshal p = Encoded p"

fun payload_unmarshal :: "raw_payload \<Rightarrow> MissionPayload result" where
  "payload_unmarshal (Encoded p) = Inr p"
| "payload_unmarshal (Malformed s) = Inl (ErrMsg ''json: cannot unmarshal'')"

record mission =
  mi_ID :: int
  mi_AgentTask :: string
  mi_Payload :: raw_payload
  mi_Status :: mission_status
  mi_Priority :: int
  mi_CreatedAt :: int
  mi_ClaimedBy :: string
  mi_ClaimedAt :: "int option"
  mi_Error :: string
  mi_ObjectiveID :: string
  mi_ParentID :: "int option"
  mi_Depth :: int
  mi_DedupeKey :: string
  mi_ProposedBy :: string

definition active :: "mission_status \<Rightarrow> bool" where
  "active st = (st \<in> {MsPending, MsClaimed})"

subsection \<open>The interface\<close>

text \<open>
  A run of the queue between two expirations of leases: missions are added, handed out and
  settled (acknowledged, failed or cancelled, successfully or not); the list holds the
  missions handed out, in order.
\<close>

inductive queue_run ::
  "('q \<Rightarrow> 'q \<Rightarrow> int \<Rightarrow> bool) \<Rightarrow> ('q \<Rightarrow> 'q \<Rightarrow> int \<Rightarrow> bool) \<Rightarrow> ('q \<Rightarrow> 'q \<Rightarrow> bool) \<Rightarrow> 'q \<Rightarrow> int list \<Rightarrow> 'q \<Rightarrow> bool"
  for enq :: "'q \<Rightarrow> 'q \<Rightarrow> int \<Rightarrow> bool" and claim :: "'q \<Rightarrow> 'q \<Rightarrow> int \<Rightarrow> bool" and settle :: "'q \<Rightarrow> 'q \<Rightarrow> bool" where
  qr_nil: "queue_run enq claim settle q [] q"
| qr_enq: "enq q q1 i \<Longrightarrow> queue_run enq claim settle q1 cs q' \<Longrightarrow> queue_run enq claim settle q cs q'"
| qr_claim: "claim q q1 i \<Longrightarrow> queue_run enq claim settle q1 cs q' \<Longrightarrow> queue_run enq claim settle q (i # cs) q'"
| qr_settle: "settle q q1 \<Longrightarrow> queue_run enq claim settle q1 cs q' \<Longrightarrow> queue_run enq claim settle q cs q'"

text \<open>
  A mission's observable state is its status under its identifier; \<open>None\<close> when the queue
  does not know it. \<open>enq\<close> returns the identifier it assigns, \<open>claim\<close> the identifier of the
  mission it hands out.
\<close>

locale mission_queue =
  fixes invar :: "'q \<Rightarrow> bool"
    and status :: "'q \<Rightarrow> int \<Rightarrow> mission_status option"
    and enq :: "'q \<Rightarrow> 'q \<Rightarrow> int \<Rightarrow> bool"
    and claim :: "'q \<Rightarrow> 'q \<Rightarrow> int \<Rightarrow> bool"
    and ack :: "int \<Rightarrow> 'q \<Rightarrow> 'q \<times> unit result"
    and fail :: "int \<Rightarrow> string \<Rightarrow> 'q \<Rightarrow> 'q \<times> unit result"
    and cancel :: "int \<Rightarrow> 'q \<Rightarrow> 'q \<times> unit result"
    and settle :: "'q \<Rightarrow> 'q \<Rightarrow> bool"
  assumes enq_law: "invar q \<Longrightarrow> enq q q' i \<Longrightarrow>
      invar q' \<and> status q i = None \<and> status q' = (status q)(i \<mapsto> MsPending)"
    and claim_law: "invar q \<Longrightarrow> claim q q' i \<Longrightarrow>
      invar q' \<and> status q i = Some MsPending \<and> status q' = (status q)(i \<mapsto> MsClaimed)"
    and ack_claimed: "invar q \<Longrightarrow> status q i = Some MsClaimed \<Longrightarrow> ack i q = (q', r) \<Longrightarrow>
      invar q' \<and> r = Inr () \<and> status q' = (status q)(i \<mapsto> MsCompleted)"
    and fail_claimed: "invar q \<Longrightarrow> status q i = Some MsClaimed \<Longrightarrow> fail i why q = (q', r) \<Longrightarrow>
      invar q' \<and> r = Inr () \<and> status q' = (status q)(i \<mapsto> MsFailed)"
    and cancel_active: "invar q \<Longrightarrow> status q i = Some st \<Longrightarrow> active st \<Longrightarrow> cancel i q = (q', r) \<Longrightarrow>
      invar q' \<and> r = Inr () \<and> (status q' i = None \<or> status q' i = Some MsCancelled) \<and>
      (\<forall>j. j \<noteq> i \<longrightarrow> status q' j = status q j)"
    and cancel_other: "invar q \<Longrightarrow> (\<And>st. status q i = Some st \<Longrightarrow> \<not> active st) \<Longrightarrow>
      cancel i q = (q, Inl ErrNotFound)"
    and settle_law: "invar q \<Longrightarrow> settle q q' \<Longrightarrow> invar q'"
    and settle_keeps: "invar q \<Longrightarrow> settle q q' \<Longrightarrow> status q j = Some st \<Longrightarrow> st \<noteq> MsPending \<Longrightarrow>
      \<exists>st'. status q' j = Some st' \<and> st' \<noteq> MsPending"
begin

abbreviation run :: "'q \<Rightarrow> int list \<Rightarrow> 'q \<Rightarrow> bool" where
  "run \<equiv> queue_run enq claim settle"

lemma run_invar: "run q cs q' \<Longrightarrow> invar q \<Longrightarrow> invar q'"
  by (induction rule: queue_run.induct) (auto dest: enq_law claim_law settle_law)

text \<open>A mission that is not pending is never pending again and never handed out.\<close>

lemma run_keeps: "run q cs q' \<Longrightarrow> invar q \<Longrightarrow> status q j = Some st \<Longrightarrow> st \<noteq> MsPending \<Longrightarrow> j \<notin> set cs"
proof (induction arbitrary: st rule: queue_run.induct)
  case (qr_enq q q1 i cs q')
  from enq_law [OF qr_enq.prems(1) qr_enq.hyps(1)] qr_enq.prems
  have "invar q1" "status q1 j = Some st" by auto
  then show ?case using qr_enq by blast
next
  case (qr_claim q q1 i cs q')
  from claim_law [OF qr_claim.prems(1) qr_claim.hyps(1)] qr_claim.prems
  have "invar q1" "status q1 j = Some st" "j \<noteq> i" by auto
  then show ?case using qr_claim by simp
next
  case (qr_settle q q1 cs q')
  from settle_law [OF qr_settle.prems(1) qr_settle.hyps(1)] settle_keeps [OF qr_settle.prems(1) qr_settle.hyps(1) qr_settle.prems(2,3)]
  show ?case using qr_settle.IH by blast
qed simp

text \<open>However the operations interleave, no mission is handed out twice.\<close>

lemma claims_distinct: "run q cs q' \<Longrightarrow> invar q \<Longrightarrow> distinct cs"
proof (induction rule: queue_run.induct)
  case (qr_claim q q1 i cs q')
  then show ?case
    using claim_law [OF qr_claim.prems qr_claim.hyps(1)] run_keeps [of q1 cs q' i MsClaimed] by auto
qed (auto dest: enq_law settle_law)

text \<open>A cancelled mission is never handed out to a worker afterwards.\<close>

lemma cancelled_not_claimed:
  assumes "invar q" "cancel i q = (q', Inr ())" "claim q' q'' j"
  shows "j \<noteq> i"
proof -
  obtain st where st: "status q i = Some st" "active st"
    using assms cancel_other [of q i] by fastforce
  from cancel_active [OF assms(1) st assms(2)] claim_law [of q' q'' j] assms(3) show ?thesis
    by (auto simp: active_def)
qed

lemma claim_then_ack:
  assumes "invar q" "claim q q1 i" "ack i q1 = (q2, r)"
  shows "r = Inr () \<and> status q2 i = Some MsCompleted \<and> cancel i q2 = (q2, Inl ErrNotFound)"
proof -
  from claim_law [OF assms(1,2)] have "invar q1" "status q1 i = Some MsClaimed" by auto
  from ack_claimed [OF this assms(3)] show ?thesis by (auto intro!: cancel_other simp: active_def)
qed

end

end
