(* ===== verification/ExecSpec.thy ===== *)
theory ExecSpec
  imports Mission
begin

text \<open>
  \<open>internal/orchestrator/execution_spec.go\<close>: the resolved description of a spawn, and its passage
  through the payload of a mission. Configuration texts and digests are arguments: \<open>sha\<close> is the
  hexadecimal SHA-256 digest, \<open>None\<close> stands for a nil configuration or one that does not marshal.
\<close>

record SpecIdentity =
  si_Task :: string
  si_Contract :: string
  si_BaseBranch :: string
  si_ObjectiveID :: string
  si_MissionID :: int

record SpecResolution =
  sr_RuntimeType :: string
  sr_Model :: string
  sr_Mode :: string
  sr_AllowedTools :: "string list"

record SpecTopology =
  st_MCPServers :: string
  st_Backend :: string
  st_ConfigPath :: string
  st_GraphAddr :: string
  st_StrategyDir :: string
  st_GatewayURL :: string
  st_ConfigHash :: string

record ExecutionSpec =
  es_Identity :: SpecIdentity
  es_Resolution :: SpecResolution
  es_Topology :: SpecTopology
  es_Credentials :: "(string \<times> string) list option"

record ResolvedSpawn =
  rs_RuntimeType :: string
  rs_Model :: string
  rs_BaseBranch :: string
  rs_Mode :: string
  rs_AllowedTools :: "string list"
  rs_ConfigPath :: string
  rs_GraphAddr :: string
  rs_StrategyDir :: string

text \<open>
  What \<open>NewExecutionSpec\<close> reads of the orchestrator: the JSON of its MCP servers when it has
  any, its backend, and of its configuration, if there is one, the gateway URL and the YAML text.
\<close>

record orchestrator =
  or_MCPServers :: "string option"
  or_RuntimeBackend :: string
  or_Config :: "(string \<times> string option) option"

definition ComputeConfigHash :: "(string \<Rightarrow> string) \<Rightarrow> (string \<times> string option) option \<Rightarrow> string" where
  "ComputeConfigHash sha cfg =
     (case cfg of
        None \<Rightarrow> []
      | Some (url, yaml) \<Rightarrow> (case yaml of None \<Rightarrow> [] | Some text \<Rightarrow> sha text))"

definition NewExecutionSpec ::
    "(string \<Rightarrow> string) \<Rightarrow> ResolvedSpawn \<Rightarrow> string \<Rightarrow> string \<Rightarrow> string \<Rightarrow> orchestrator \<Rightarrow> ExecutionSpec" where
  "NewExecutionSpec sha resolved task contract objectiveID orch =
     \<lparr>es_Identity = \<lparr>si_Task = task, si_Contract = contract, si_BaseBranch = rs_BaseBranch resolved,
        si_ObjectiveID = objectiveID, si_MissionID = 0\<rparr>,
      es_Resolution = \<lparr>sr_RuntimeType = rs_RuntimeType resolved, sr_Model = rs_Model resolved, sr_Mode = rs_Mode resolved,
        sr_AllowedTools = rs_AllowedTools resolved\<rparr>,
      es_Topology = \<lparr>st_MCPServers = (case or_MCPServers orch of None \<Rightarrow> [] | Some j \<Rightarrow> j), st_Backend = or_RuntimeBackend orch,
        st_ConfigPath = rs_ConfigPath resolved, st_GraphAddr = rs_GraphAddr resolved, st_StrategyDir = rs_StrategyDir resolved,
        st_GatewayURL = (case or_Config orch of None \<Rightarrow> [] | Some (url, yaml) \<Rightarrow> url),
        st_ConfigHash = ComputeConfigHash sha (or_Config orch)\<rparr>,
      es_Credentials = None\<rparr>"

definition ChildSpec :: "ExecutionSpec \<Rightarrow> string \<Rightarrow> string \<Rightarrow> string \<Rightarrow> ExecutionSpec" where
  "ChildSpec parent task contract objectiveID =
     parent\<lparr>es_Identity := \<lparr>si_Task = task, si_Contract = contract, si_BaseBranch = si_BaseBranch (es_Identity parent),
       si_ObjectiveID = objectiveID, si_MissionID = 0\<rparr>\<rparr>"

definition ToMissionPayload :: "ExecutionSpec \<Rightarrow> MissionPayload" where
  "ToMissionPayload es =
     \<lparr>mp_Task = si_Task (es_Identity es), mp_Contract = si_Contract (es_Identity es), mp_BaseBranch = si_BaseBranch (es_Identity es),
      mp_Model = sr_Model (es_Resolution es), mp_Mode = sr_Mode (es_Resolution es),
      mp_RuntimeType = sr_RuntimeType (es_Resolution es), mp_AllowedTools = sr_AllowedTools (es_Resolution es),
      mp_MCPServers = st_MCPServers (es_Topology es), mp_Backend = st_Backend (es_Topology es),
      mp_ConfigPath = st_ConfigPath (es_Topology es), mp_GraphAddr = st_GraphAddr (es_Topology es),
      mp_StrategyDir = st_StrategyDir (es_Topology es), mp_ConfigHash = st_ConfigHash (es_Topology es),
      mp_GatewayURL = st_GatewayURL (es_Topology es), mp_ObjectiveID = si_ObjectiveID (es_Identity es),
      mp_MissionID = si_MissionID (es_Identity es),
      mp_StagedCredentialRefs = (case es_Credentials es of None \<Rightarrow> [] | Some refs \<Rightarrow> refs)\<rparr>"

definition ExecutionSpecFromPayload :: "MissionPayload \<Rightarrow> ExecutionSpec" where
  "ExecutionSpecFromPayload payload =
     \<lparr>es_Identity = \<lparr>si_Task = mp_Task payload, si_Contract = mp_Contract payload, si_BaseBranch = mp_BaseBranch payload,
        si_ObjectiveID = mp_ObjectiveID payload, si_MissionID = mp_MissionID payload\<rparr>,
      es_Resolution = \<lparr>sr_RuntimeType = mp_RuntimeType payload, sr_Model = mp_Model payload, sr_Mode = mp_Mode payload,
        sr_AllowedTools = mp_AllowedTools payload\<rparr>,
      es_Topology = \<lparr>st_MCPServers = mp_MCPServers payload, st_Backend = mp_Backend payload, st_ConfigPath = mp_ConfigPath payload,
        st_GraphAddr = mp_GraphAddr payload, st_StrategyDir = mp_StrategyDir payload, st_GatewayURL = mp_GatewayURL payload,
        st_ConfigHash = mp_ConfigHash payload\<rparr>,
      es_Credentials = (if mp_StagedCredentialRefs payload = [] then None else Some (mp_StagedCredentialRefs payload))\<rparr>"

text \<open>The parts of \<open>host.WorkspaceConfig\<close> that come from the specification and the worker.\<close>

record WorkspaceConfig =
  wc_AgentMCP :: bool
  wc_Backend :: string
  wc_ProjectRoot :: string
  wc_ConfigPath :: string
  wc_GraphAddr :: string
  wc_StrategyDir :: string
  wc_GatewayURL :: string
  wc_RuntimeWorkDir :: string
  wc_AgentTask :: string
  wc_ObjectiveID :: string
  wc_MissionID :: int

definition WorkspaceConfigFromSpec :: "ExecutionSpec \<Rightarrow> bool \<Rightarrow> WorkspaceConfig" where
  "WorkspaceConfigFromSpec spec agentMCP =
     \<lparr>wc_AgentMCP = agentMCP, wc_Backend = st_Backend (es_Topology spec), wc_ProjectRoot = [],
      wc_ConfigPath = st_ConfigPath (es_Topology spec), wc_GraphAddr = st_GraphAddr (es_Topology spec),
      wc_StrategyDir = st_StrategyDir (es_Topology spec), wc_GatewayURL = st_GatewayURL (es_Topology spec),
      wc_RuntimeWorkDir = [], wc_AgentTask = si_Task (es_Identity spec), wc_ObjectiveID = si_ObjectiveID (es_Identity spec),
      wc_MissionID = si_MissionID (es_Identity spec)\<rparr>"

subsection \<open>The passage through a mission\<close>

lemma payload_of_spec_of_payload: "ToMissionPayload (ExecutionSpecFromPayload p) = p"
  by (cases p) (simp add: ToMissionPayload_def ExecutionSpecFromPayload_def)

lemma spec_of_payload_of_spec: "es_Credentials es \<noteq> Some [] \<Longrightarrow> ExecutionSpecFromPayload (ToMissionPayload es) = es"
  by (cases es; cases "es_Identity es"; cases "es_Resolution es"; cases "es_Topology es"; cases "es_Credentials es")
    (auto simp: ToMissionPayload_def ExecutionSpecFromPayload_def)

definition sample_payload :: MissionPayload where
  "sample_payload =
     \<lparr>mp_Task = ''t'', mp_Contract = ''c'', mp_BaseBranch = ''main'', mp_Model = ''m'', mp_Mode = ''batch'', mp_RuntimeType = ''claude'',
      mp_AllowedTools = [''s.t''], mp_MCPServers = [], mp_Backend = ''local'', mp_ConfigPath = [], mp_GraphAddr = [],
      mp_StrategyDir = [], mp_ConfigHash = [], mp_GatewayURL = [], mp_ObjectiveID = [], mp_MissionID = 0,
      mp_StagedCredentialRefs = []\<rparr>"

text \<open>
  A specification converted to a mission's payload and back by the
  worker is the specification itself (a set but empty credential list aside, which comes back as
  none), and a payload converted to a specification and back is the payload itself.
\<close>

theorem spec_survives_queue:
  assumes "es_Credentials es \<noteq> Some []"
  shows "ExecutionSpecFromPayload (ToMissionPayload es) = es \<and> ToMissionPayload (ExecutionSpecFromPayload p) = p"
  using spec_of_payload_of_spec [OF assms] payload_of_spec_of_payload by simp

theorem spec_survives_queue_witness:
  "ExecutionSpecFromPayload (ToMissionPayload (ExecutionSpecFromPayload sample_payload)) = ExecutionSpecFromPayload sample_payload \<and>
   ToMissionPayload (ExecutionSpecFromPayload sample_payload) = sample_payload"
  by (rule spec_survives_queue) (simp add: ExecutionSpecFromPayload_def sample_payload_def)

end
