(* ===== verification/MemoryQueue.thy ===== *)
theory MemoryQueue
  imports Mission "HOL-Library.AList"
begin

text \<open>
  \<open>internal/queue/memory.go\<close>: the in-process queue. The channel carries pointers to the
  missions of the map, here their identifiers; the map owns the mission values. \<open>Enqueue\<close>
  ends in a \<open>select\<close> and \<open>Dequeue\<close> is a loop around one: which ready case the runtime takes
  is an argument, and \<open>None\<close> means that the goroutine stays blocked. The 64-bit identifier
  counter is an \<open>int\<close>: a process does not enqueue \<open>2^63\<close> missions.
\<close>

subsection \<open>The queue\<close>

record memory_queue =
  mq_ch :: "int list"
  mq_cap :: nat
  mq_missions :: "(int \<times> mission) list"
  mq_nextID :: int
  mq_store :: agent_db
  mq_closed :: bool

definition NewMemoryQueue :: "agent_db \<Rightarrow> int \<Rightarrow> memory_queue" where
  "NewMemoryQueue store bufferSize =
     \<lparr>mq_ch = [], mq_cap = nat (if bufferSize \<le> 0 then 100 else bufferSize), mq_missions = [],
      mq_nextID = 0, mq_store = store, mq_closed = False\<rparr>"

text \<open>\<open>Enqueue\<close> up to its \<open>select\<close>: number the mission, persist the agent, register the mission.\<close>

definition mq_register ::
    "db_fault \<Rightarrow> int \<Rightarrow> mission \<Rightarrow> agent \<Rightarrow> memory_queue \<Rightarrow> memory_queue \<times> int result" where
  "mq_register f now m ag q =
     (let i = mq_nextID q + 1;
          m1 = m\<lparr>mi_ID := i, mi_Status := MsPending, mi_CreatedAt := now\<rparr>;
          ag1 = ag\<lparr>ag_MissionID := i\<rparr>;
          q1 = q\<lparr>mq_nextID := i\<rparr>
      in case WithLock f (\<lambda>st. Inr (st\<lparr>st_Agents := st_Agents st @ [ag1]\<rparr>)) (mq_store q1) of
           (db, Inl e) \<Rightarrow> (q1\<lparr>mq_store := db\<rparr>, Inl (ErrMsg (''memory queue: persist agent: '' @ error_string e)))
         | (db, Inr _) \<Rightarrow> (q1\<lparr>mq_store := db, mq_missions := AList.update i m1 (mq_missions q1)\<rparr>, Inr i))"

datatype send_case = Send | SendCtxDone

fun mq_send :: "send_case \<Rightarrow> int \<Rightarrow> memory_queue \<Rightarrow> (memory_queue \<times> unit result) option" where
  "mq_send Send i q =
     (if length (mq_ch q) < mq_cap q then Some (q\<lparr>mq_ch := mq_ch q @ [i]\<rparr>, Inr ()) else None)"
| "mq_send SendCtxDone i q = Some (q, Inl ErrCtx)"

definition mq_Enqueue ::
    "db_fault \<Rightarrow> int \<Rightarrow> send_case \<Rightarrow> mission \<Rightarrow> agent \<Rightarrow> memory_queue \<Rightarrow> (memory_queue \<times> int result) option" where
  "mq_Enqueue f now sel m ag q =
     (case mq_register f now m ag q of
        (q1, Inl e) \<Rightarrow> Some (q1, Inl e)
      | (q1, Inr i) \<Rightarrow>
          (case mq_send sel i q1 of
             None \<Rightarrow> None
           | Some (q2, Inl e) \<Rightarrow> Some (q2, Inl e)
           | Some (q2, Inr _) \<Rightarrow> Some (q2, Inr i)))"

datatype recv_case = RecvMission int | RecvCtxDone | RecvClosed

text \<open>\<open>RecvMission now\<close> takes the channel's case; \<open>now\<close> is the clock reading of the claim.\<close>

fun mq_Dequeue :: "recv_case list \<Rightarrow> memory_queue \<Rightarrow> (memory_queue \<times> mission result) option" where
  "mq_Dequeue [] q = None"
| "mq_Dequeue (RecvCtxDone # cs) q = Some (q, Inl ErrCtx)"
| "mq_Dequeue (RecvClosed # cs) q = (if mq_closed q then Some (q, Inl ErrQueueClosed) else None)"
| "mq_Dequeue (RecvMission now # cs) q =
     (case mq_ch q of
        [] \<Rightarrow> None
      | i # ch \<Rightarrow>
          let q1 = q\<lparr>mq_ch := ch\<rparr>
          in case map_of (mq_missions q1) i of
               None \<Rightarrow> mq_Dequeue cs q1
             | Some stored \<Rightarrow>
                 if mi_Status stored \<noteq> MsPending then mq_Dequeue cs q1
                 else let m = stored\<lparr>mi_Status := MsClaimed, mi_ClaimedAt := Some now\<rparr>
                      in Some (q1\<lparr>mq_missions := AList.update i m (mq_missions q1)\<rparr>, Inr m))"

definition mq_Ack :: "int \<Rightarrow> memory_queue \<Rightarrow> memory_queue \<times> unit result" where
  "mq_Ack i q =
     (case map_of (mq_missions q) i of
        None \<Rightarrow> (q, Inl ErrNotFound)
      | Some m \<Rightarrow> (q\<lparr>mq_missions := AList.update i (m\<lparr>mi_Status := MsCompleted\<rparr>) (mq_missions q)\<rparr>, Inr ()))"

definition mq_Fail :: "int \<Rightarrow> string \<Rightarrow> memory_queue \<Rightarrow> memory_queue \<times> unit result" where
  "mq_Fail i reason q =
     (case map_of (mq_missions q) i of
        None \<Rightarrow> (q, Inl ErrNotFound)
      | Some m \<Rightarrow> (q\<lparr>mq_missions :=
            AList.update i (m\<lparr>mi_Status := MsFailed, mi_Error := reason\<rparr>) (mq_missions q)\<rparr>, Inr ()))"

definition mq_Len :: "memory_queue \<Rightarrow> nat" where
  "mq_Len q = length (filter (\<lambda>(i, m). mi_Status m = MsPending) (mq_missions q))"

definition mq_Status :: "int \<Rightarrow> memory_queue \<Rightarrow> mission_status result" where
  "mq_Status i q = (case map_of (mq_missions q) i of None \<Rightarrow> Inl ErrNotFound | Some m \<Rightarrow> Inr (mi_Status m))"

definition mq_Cancel :: "int \<Rightarrow> memory_queue \<Rightarrow> memory_queue \<times> unit result" where
  "mq_Cancel i q =
     (case map_of (mq_missions q) i of
        None \<Rightarrow> (q, Inl ErrNotFound)
      | Some m \<Rightarrow>
          (case mi_Status m of
             MsPending \<Rightarrow> (q\<lparr>mq_missions := AList.update i (m\<lparr>mi_Status := MsCancelled\<rparr>) (mq_missions q)\<rparr>, Inr ())
           | MsClaimed \<Rightarrow> (q\<lparr>mq_missions := AList.update i (m\<lparr>mi_Status := MsCancelled\<rparr>) (mq_missions q)\<rparr>, Inr ())
           | _ \<Rightarrow> (q, Inl ErrNotFound)))"

definition mq_Close :: "memory_queue \<Rightarrow> memory_queue" where
  "mq_Close q = (if mq_closed q then q else q\<lparr>mq_closed := True\<rparr>)"

subsection \<open>Invariant and FIFO delivery\<close>

definition mq_ok :: "memory_queue \<Rightarrow> bool" where
  "mq_ok q \<longleftrightarrow> 0 \<le> mq_nextID q \<and> distinct (map fst (mq_missions q)) \<and>
     (\<forall>i m. map_of (mq_missions q) i = Some m \<longrightarrow> mi_ID m = i \<and> 0 < i \<and> i \<le> mq_nextID q) \<and>
     distinct (mq_ch q) \<and> (\<forall>i\<in>set (mq_ch q). map_of (mq_missions q) i \<noteq> None)"

definition mq_status :: "memory_queue \<Rightarrow> int \<Rightarrow> mission_status option" where
  "mq_status q i = map_option mi_Status (map_of (mq_missions q) i)"

text \<open>What the channel still has to deliver, in order.\<close>

definition deliverable :: "memory_queue \<Rightarrow> int list" where
  "deliverable q = filter (\<lambda>i. mq_status q i = Some MsPending) (mq_ch q)"

lemma mq_ok_New: "mq_ok (NewMemoryQueue store n)"
  by (simp add: mq_ok_def NewMemoryQueue_def)

lemma mq_ok_set:
  assumes "mq_ok q" "map_of (mq_missions q) i = Some m" "mi_ID m' = i"
  shows "mq_ok (q\<lparr>mq_missions := AList.update i m' (mq_missions q)\<rparr>)"
  using assms by (auto simp: mq_ok_def update_conv' distinct_update)

lemma mq_status_set:
  "mq_status (q\<lparr>mq_missions := AList.update i m' (mq_missions q)\<rparr>) = (mq_status q)(i \<mapsto> mi_Status m')"
  by (auto simp: mq_status_def update_conv')

lemma mq_status_cong [simp]: "mq_status (q\<lparr>mq_ch := ch\<rparr>) = mq_status q"
  by (auto simp: mq_status_def)

lemma mq_register_new:
  assumes "mq_ok q" "mq_register f now m ag q = (q', Inr i)"
  shows "i = mq_nextID q + 1 \<and> mq_ok q' \<and> mq_status q i = None \<and> i \<notin> set (mq_ch q) \<and>
    mq_status q' = (mq_status q)(i \<mapsto> MsPending) \<and> mq_ch q' = mq_ch q \<and> mq_cap q' = mq_cap q"
proof -
  let ?i = "mq_nextID q + 1"
  have new: "map_of (mq_missions q) ?i = None"
  proof (rule ccontr)
    assume "map_of (mq_missions q) ?i \<noteq> None"
    then have "?i \<le> mq_nextID q" using assms(1) unfolding mq_ok_def by blast
    then show False by simp
  qed
  then have fresh: "?i \<notin> set (mq_ch q)" using assms(1) by (auto simp: mq_ok_def)
  have i: "i = ?i" using assms(2) by (auto simp: mq_register_def Let_def split: prod.splits sum.splits)
  let ?m = "m\<lparr>mi_ID := i, mi_Status := MsPending, mi_CreatedAt := now\<rparr>"
  obtain db where q': "q' = q\<lparr>mq_nextID := i, mq_store := db, mq_missions := AList.update i ?m (mq_missions q)\<rparr>"
    using assms(2) i by (auto simp: mq_register_def Let_def split: prod.splits sum.splits)
  have "mi_ID n = j \<and> 0 < j \<and> j \<le> i" if "((map_of (mq_missions q))(i \<mapsto> ?m)) j = Some n" for j n
  proof (cases "j = i")
    case True
    then show ?thesis using that assms(1) i by (auto simp: mq_ok_def)
  next
    case False
    then have "map_of (mq_missions q) j = Some n" using that by simp
    then have "mi_ID n = j \<and> 0 < j \<and> j \<le> mq_nextID q" using assms(1) unfolding mq_ok_def by blast
    then show ?thesis using i by simp
  qed
  moreover have "\<forall>j\<in>set (mq_ch q). ((map_of (mq_missions q))(i \<mapsto> ?m)) j \<noteq> None"
    using assms(1) unfolding mq_ok_def by (metis fun_upd_apply option.distinct(1))
  moreover have "distinct (mq_ch q)" "0 \<le> mq_nextID q" "distinct (map fst (mq_missions q))"
    using assms(1) unfolding mq_ok_def by simp_all
  ultimately have "mq_ok q'" unfolding mq_ok_def q' by (simp add: update_conv' distinct_update i)
  moreover have "mq_status q' = (mq_status q)(i \<mapsto> MsPending)"
    by (auto simp: q' mq_status_def update_conv')
  ultimately show ?thesis using new fresh i by (simp add: q' mq_status_def)
qed

lemma mq_Enqueue_new:
  assumes "mq_ok q" "mq_Enqueue f now sel m ag q = Some (q', Inr i)"
  shows "i = mq_nextID q + 1 \<and> mq_ok q' \<and> mq_status q i = None \<and>
    mq_status q' = (mq_status q)(i \<mapsto> MsPending) \<and> mq_ch q' = mq_ch q @ [i]"
proof -
  obtain q1 where r: "mq_register f now m ag q = (q1, Inr i)" and s: "mq_send sel i q1 = Some (q', Inr ())"
    using assms(2) by (auto simp: mq_Enqueue_def split: prod.splits sum.splits option.splits)
  note reg = mq_register_new [OF assms(1) r]
  have q': "q' = q1\<lparr>mq_ch := mq_ch q1 @ [i]\<rparr>" using s by (cases sel) (auto split: if_splits)
  have "mq_status q1 i = Some MsPending" using reg by simp
  then have "map_of (mq_missions q1) i \<noteq> None" by (auto simp: mq_status_def)
  then show ?thesis using reg by (auto simp: q' mq_ok_def)
qed

lemma deliverable_Enqueue:
  assumes "mq_ok q" "mq_Enqueue f now sel m ag q = Some (q', Inr i)"
  shows "deliverable q' = deliverable q @ [i]"
proof -
  note e = mq_Enqueue_new [OF assms]
  have "i \<notin> set (mq_ch q)" using e assms(1) by (auto simp: mq_ok_def mq_status_def)
  then show ?thesis using e by (auto simp: deliverable_def intro!: filter_cong)
qed

lemma mq_ok_pop: "mq_ok q \<Longrightarrow> mq_ch q = i # ch \<Longrightarrow> mq_ok (q\<lparr>mq_ch := ch\<rparr>)"
  by (auto simp: mq_ok_def)

text \<open>A delivery takes the first pending mission of the channel, and claims it.\<close>

lemma mq_Dequeue_Inr:
  assumes "mq_ok q" "mq_Dequeue cs q = Some (q', Inr m)"
  shows "mq_ok q' \<and> deliverable q = mi_ID m # deliverable q' \<and> mq_status q (mi_ID m) = Some MsPending \<and>
    mq_status q' = (mq_status q)(mi_ID m \<mapsto> MsClaimed) \<and> mi_Status m = MsClaimed \<and>
    map_of (mq_missions q') (mi_ID m) = Some m"
  using assms
proof (induction cs q rule: mq_Dequeue.induct)
  case (4 now cs q)
  then obtain i ch where ch: "mq_ch q = i # ch" by (cases "mq_ch q") auto
  let ?q1 = "q\<lparr>mq_ch := ch\<rparr>"
  have ok1: "mq_ok ?q1" using mq_ok_pop [OF 4(3) ch] .
  obtain st where st: "map_of (mq_missions q) i = Some st" using 4(3) ch by (auto simp: mq_ok_def)
  show ?case
  proof (cases "mi_Status st = MsPending")
    case False
    then have "mq_Dequeue cs ?q1 = Some (q', Inr m)" using 4(4) ch st by simp
    then have "mq_ok q' \<and> deliverable ?q1 = mi_ID m # deliverable q' \<and>
      mq_status ?q1 (mi_ID m) = Some MsPending \<and> mq_status q' = (mq_status ?q1)(mi_ID m \<mapsto> MsClaimed) \<and>
      mi_Status m = MsClaimed \<and> map_of (mq_missions q') (mi_ID m) = Some m"
      using 4(2) [OF ch _ _ _ ok1] ok1 st False by (simp add: fun_upd_def)
    moreover have "deliverable ?q1 = deliverable q"
      using False st ch by (simp add: deliverable_def mq_status_def)
    ultimately show ?thesis by simp
  next
    case True
    then have m: "m = st\<lparr>mi_Status := MsClaimed, mi_ClaimedAt := Some now\<rparr>"
      and q': "q' = ?q1\<lparr>mq_missions := AList.update i m (mq_missions ?q1)\<rparr>"
      using 4(4) ch st by (auto simp: Let_def)
    have id: "mi_ID m = i" using 4(3) st by (simp add: m mq_ok_def)
    have ok: "mq_ok q'" unfolding q' by (rule mq_ok_set [OF ok1]) (use st id in auto)
    have stat: "mq_status q' = (mq_status q)(i \<mapsto> MsClaimed)"
      unfolding q' mq_status_set by (simp add: m)
    have "i \<notin> set ch" using 4(3) ch by (auto simp: mq_ok_def)
    then have "filter (\<lambda>j. ((mq_status q)(i \<mapsto> MsClaimed)) j = Some MsPending) ch =
        filter (\<lambda>j. mq_status q j = Some MsPending) ch"
      by (auto intro!: filter_cong)
    then have "deliverable q' = filter (\<lambda>j. mq_status q j = Some MsPending) ch"
      unfolding deliverable_def stat by (simp add: q')
    moreover have pend: "mq_status q i = Some MsPending" using True st by (simp add: mq_status_def)
    ultimately have "deliverable q = i # deliverable q'" by (simp add: deliverable_def [of q] ch)
    moreover have "map_of (mq_missions q') i = Some m" by (simp add: q' update_conv')
    moreover have "mi_Status m = MsClaimed" by (simp add: m)
    ultimately show ?thesis using ok stat pend id by simp
  qed
qed (auto split: if_splits)

text \<open>With the channel's case taken each time, a loop over the channel finds the first pending one.\<close>

lemma mq_Dequeue_progress:
  assumes "mq_ok q" "deliverable q \<noteq> []"
  shows "\<exists>q' m. mq_Dequeue (replicate (length (mq_ch q)) (RecvMission now)) q = Some (q', Inr m)"
  using assms
proof (induction "mq_ch q" arbitrary: q)
  case Nil
  then show ?case by (simp add: deliverable_def)
next
  case (Cons i ch)
  let ?q1 = "q\<lparr>mq_ch := ch\<rparr>"
  obtain st where st: "map_of (mq_missions q) i = Some st"
    using Cons.prems(1) Cons.hyps(2) [symmetric] by (auto simp: mq_ok_def)
  show ?case
  proof (cases "mi_Status st = MsPending")
    case True
    then show ?thesis using st by (simp add: Cons.hyps(2) [symmetric] Let_def)
  next
    case False
    then have "deliverable ?q1 = deliverable q"
      using st by (simp add: deliverable_def mq_status_def Cons.hyps(2) [symmetric])
    then have "\<exists>q' m. mq_Dequeue (replicate (length (mq_ch ?q1)) (RecvMission now)) ?q1 = Some (q', Inr m)"
      using Cons.hyps(1) [of ?q1] Cons.prems mq_ok_pop [OF Cons.prems(1) Cons.hyps(2) [symmetric]] by simp
    then show ?thesis using st False by (simp add: Cons.hyps(2) [symmetric])
  qed
qed

lemma mq_Cancel_cases:
  "mq_Cancel i q =
     (case map_of (mq_missions q) i of
        None \<Rightarrow> (q, Inl ErrNotFound)
      | Some m \<Rightarrow>
          if active (mi_Status m)
          then (q\<lparr>mq_missions := AList.update i (m\<lparr>mi_Status := MsCancelled\<rparr>) (mq_missions q)\<rparr>, Inr ())
          else (q, Inl ErrNotFound))"
  by (auto simp: mq_Cancel_def active_def split: option.splits mission_status.splits)

lemma mq_ID: "mq_ok q \<Longrightarrow> map_of (mq_missions q) i = Some m \<Longrightarrow> mi_ID m = i"
  by (simp add: mq_ok_def)

definition mq_enq :: "memory_queue \<Rightarrow> memory_queue \<Rightarrow> int \<Rightarrow> bool" where
  "mq_enq q q' i \<longleftrightarrow> (\<exists>f now sel m ag. mq_Enqueue f now sel m ag q = Some (q', Inr i))"

definition mq_claim :: "memory_queue \<Rightarrow> memory_queue \<Rightarrow> int \<Rightarrow> bool" where
  "mq_claim q q' i \<longleftrightarrow> (\<exists>cs m. mq_Dequeue cs q = Some (q', Inr m) \<and> mi_ID m = i)"

definition mq_settle :: "memory_queue \<Rightarrow> memory_queue \<Rightarrow> bool" where
  "mq_settle q q' \<longleftrightarrow> (\<exists>i why. q' \<in> {fst (mq_Ack i q), fst (mq_Fail i why q), fst (mq_Cancel i q)})"

text \<open>Settling a mission, known or not, only overwrites the status of a known one by a final status.\<close>

definition mq_overwrites :: "memory_queue \<Rightarrow> memory_queue \<Rightarrow> bool" where
  "mq_overwrites q q' \<longleftrightarrow> q' = q \<or> (\<exists>i m m'. map_of (mq_missions q) i = Some m \<and> mi_ID m' = mi_ID m \<and>
     mi_Status m' \<noteq> MsPending \<and> q' = q\<lparr>mq_missions := AList.update i m' (mq_missions q)\<rparr>)"

lemma mq_overwritesI:
  "map_of (mq_missions q) i = Some m \<Longrightarrow> mi_ID m' = mi_ID m \<Longrightarrow> mi_Status m' \<noteq> MsPending \<Longrightarrow>
     mq_overwrites q (q\<lparr>mq_missions := AList.update i m' (mq_missions q)\<rparr>)"
  unfolding mq_overwrites_def by blast

lemma mq_overwrites_refl: "mq_overwrites q q"
  by (simp add: mq_overwrites_def)

lemma mq_settle_overwrites: "mq_settle q q' \<Longrightarrow> mq_overwrites q q'"
  by (auto simp: mq_settle_def mq_Ack_def mq_Fail_def mq_Cancel_cases mq_overwrites_refl
      split: option.splits intro!: mq_overwritesI)

lemma mq_settle_cases:
  assumes "mq_ok q" "mq_settle q q'"
  obtains (same) "q' = q"
  | (final) i st where "mq_ok q'" "mq_status q' = (mq_status q)(i \<mapsto> st)" "st \<noteq> MsPending"
  using mq_settle_overwrites [OF assms(2)] unfolding mq_overwrites_def
proof (elim disjE exE conjE)
  fix i m m'
  assume m: "map_of (mq_missions q) i = Some m" "mi_ID m' = mi_ID m" "mi_Status m' \<noteq> MsPending"
    and q': "q' = q\<lparr>mq_missions := AList.update i m' (mq_missions q)\<rparr>"
  show ?thesis
    by (rule final [of i "mi_Status m'"])
      (use mq_ok_set [OF assms(1) m(1)] mq_ID [OF assms(1) m(1)] m in \<open>simp_all add: q' mq_status_set\<close>)
qed (rule same)

interpretation memq: mission_queue mq_ok mq_status mq_enq mq_claim mq_Ack mq_Fail mq_Cancel mq_settle
proof (unfold_locales, goal_cases)
  case (1 q q' i)
  then show ?case by (auto simp: mq_enq_def dest: mq_Enqueue_new)
next
  case (2 q q' i)
  then show ?case by (auto simp: mq_claim_def dest: mq_Dequeue_Inr)
next
  case (3 q i q' r)
  then obtain m where m: "map_of (mq_missions q) i = Some m" by (auto simp: mq_status_def)
  with 3 mq_ID [of q i m] show ?case
    by (auto simp: mq_Ack_def mq_status_set intro!: mq_ok_set)
next
  case (4 q i why q' r)
  then obtain m where m: "map_of (mq_missions q) i = Some m" by (auto simp: mq_status_def)
  with 4 mq_ID [of q i m] show ?case
    by (auto simp: mq_Fail_def mq_status_set intro!: mq_ok_set)
next
  case (5 q i st q' r)
  then obtain m where m: "map_of (mq_missions q) i = Some m" "mi_Status m = st" by (auto simp: mq_status_def)
  with 5 mq_ID [of q i m] show ?case
    by (auto simp: mq_Cancel_cases mq_status_set intro!: mq_ok_set)
next
  case (6 q i)
  then show ?case by (auto simp: mq_Cancel_cases mq_status_def split: option.splits)
next
  case (7 q q')
  then show ?case by (cases rule: mq_settle_cases) (use 7(1) in simp_all)
next
  case (8 q q' j st)
  from 8(1,2) show ?case by (cases rule: mq_settle_cases) (use 8(3,4) in auto)
qed

subsection \<open>What the in-process queue guarantees\<close>

definition sample_mission :: "int \<Rightarrow> mission_status \<Rightarrow> mission" where
  "sample_mission i st =
     \<lparr>mi_ID = i, mi_AgentTask = ''t'', mi_Payload = Malformed [], mi_Status = st, mi_Priority = 0, mi_CreatedAt = 1,
      mi_ClaimedBy = [], mi_ClaimedAt = None, mi_Error = [], mi_ObjectiveID = [], mi_ParentID = None, mi_Depth = 0,
      mi_DedupeKey = [], mi_ProposedBy = []\<rparr>"

text \<open>Three missions in the channel, the first one cancelled while it waited.\<close>

definition sample_memq :: memory_queue where
  "sample_memq =
     \<lparr>mq_ch = [1, 2, 3], mq_cap = 10,
      mq_missions = [(1, sample_mission 1 MsCancelled), (2, sample_mission 2 MsPending), (3, sample_mission 3 MsPending)],
      mq_nextID = 3, mq_store = \<lparr>db_agents = [], db_chessmaster = None\<rparr>, mq_closed = False\<rparr>"

lemma sample_memq_ok: "mq_ok sample_memq"
  by (auto simp: mq_ok_def sample_memq_def sample_mission_def split: if_splits)

lemma sample_memq_Dequeue:
  "\<exists>q' m. mq_Dequeue [RecvMission 7, RecvMission 7] sample_memq = Some (q', Inr m) \<and> mi_ID m = 2"
  by (simp add: sample_memq_def sample_mission_def Let_def)

text \<open>
  \<open>Enqueue\<close> puts a mission behind all that the channel still has to
  deliver, and \<open>Dequeue\<close> hands out the first of them, skipping the cancelled ones: missions
  are delivered in the order they were enqueued.
\<close>

theorem memory_queue_fifo:
  assumes "mq_ok q"
  shows "(mq_Enqueue f now sel m ag q = Some (q1, Inr i) \<longrightarrow> mq_ok q1 \<and> deliverable q1 = deliverable q @ [i]) \<and>
    (mq_Dequeue cs q = Some (q2, Inr m2) \<longrightarrow> mq_ok q2 \<and> deliverable q = mi_ID m2 # deliverable q2 \<and>
      mq_status q2 = (mq_status q)(mi_ID m2 \<mapsto> MsClaimed))"
  using mq_Enqueue_new [OF assms] deliverable_Enqueue [OF assms] mq_Dequeue_Inr [OF assms] by blast

theorem memory_queue_fifo_witness:
  "\<exists>q' m. mq_Dequeue [RecvMission 7, RecvMission 7] sample_memq = Some (q', Inr m) \<and> deliverable sample_memq = [2, 3] \<and>
     mi_ID m = 2 \<and> deliverable q' = [3]"
proof -
  obtain q' m where d: "mq_Dequeue [RecvMission 7, RecvMission 7] sample_memq = Some (q', Inr m)" "mi_ID m = 2"
    using sample_memq_Dequeue by auto
  have "deliverable sample_memq = [2, 3]" by (simp add: deliverable_def mq_status_def sample_memq_def sample_mission_def)
  with memory_queue_fifo [OF sample_memq_ok] d show ?thesis by fastforce
qed

text \<open>
  When a pending mission is in the channel, a \<open>Dequeue\<close> whose
  \<open>select\<close> takes the channel's case returns one after at most as many rounds as the channel
  holds entries.
\<close>

theorem memory_queue_delivers:
  assumes "mq_ok q" "deliverable q \<noteq> []"
  shows "\<exists>q' m. mq_Dequeue (replicate (length (mq_ch q)) (RecvMission now)) q = Some (q', Inr m)"
  by (rule mq_Dequeue_progress [OF assms])

theorem memory_queue_delivers_witness:
  "\<exists>q' m. mq_Dequeue (replicate 3 (RecvMission 7)) sample_memq = Some (q', Inr m)"
proof -
  have "deliverable sample_memq \<noteq> []" by (simp add: deliverable_def mq_status_def sample_memq_def sample_mission_def)
  moreover have "length (mq_ch sample_memq) = 3" by (simp add: sample_memq_def)
  ultimately show ?thesis using memory_queue_delivers [OF sample_memq_ok, of 7] by metis
qed

text \<open>
  however enqueues, dequeues, acknowledgements, failures
  and cancellations interleave, no mission is handed out twice.
\<close>

theorem memory_queue_never_hands_out_twice:
  assumes "queue_run mq_enq mq_claim mq_settle q cs q'" "mq_ok q"
  shows "distinct cs"
  by (rule memq.claims_distinct [OF assms])

theorem memory_queue_never_hands_out_twice_witness:
  "\<exists>q'. queue_run mq_enq mq_claim mq_settle sample_memq [2] q' \<and> distinct [2::int]"
proof -
  obtain q' m where "mq_Dequeue [RecvMission 7, RecvMission 7] sample_memq = Some (q', Inr m)" "mi_ID m = 2"
    using sample_memq_Dequeue by blast
  then have "mq_claim sample_memq q' 2" unfolding mq_claim_def by blast
  then have run: "queue_run mq_enq mq_claim mq_settle sample_memq [2] q'" by (rule qr_claim) (rule qr_nil)
  from memory_queue_never_hands_out_twice [OF run sample_memq_ok] run show ?thesis by blast
qed

end
