(* ===== verification/PostgresQueue.thy ===== *)
theory PostgresQueue
  imports Mission "HOL-Library.Product_Lexorder"
begin

text \<open>
  \<open>internal/queue/postgres.go\<close> on the \<open>missions\<close> and \<open>agents\<close> tables of
  \<open>internal/state/pgstore/schema.sql\<close>. Each SQL statement or transaction is one atomic
  operation on the tables: \<open>BIGSERIAL\<close> numbering, the primary keys and the unique partial
  index \<open>idx_missions_dedupe\<close> are part of the model, \<open>SKIP LOCKED\<close> is the set of row
  identifiers that other transactions hold. \<open>LISTEN/NOTIFY\<close> and the poll timer only decide
  when \<open>Dequeue\<close> tries again and appear as the wake-ups it is given. An agent row's
  \<open>NULL\<close> start time is 0.
\<close>

subsection \<open>Tables\<close>

record mission_row =
  mr_id :: int
  mr_status :: mission_status
  mr_payload :: raw_payload
  mr_agent_task :: string
  mr_claimed_by :: "string option"
  mr_claimed_at :: "int option"
  mr_created_at :: int
  mr_completed_at :: "int option"
  mr_error :: string
  mr_priority :: int
  mr_objective_id :: "string option"
  mr_parent_id :: "int option"
  mr_depth :: int
  mr_dedupe_key :: string
  mr_proposed_by :: string

record pg_db =
  pg_missions :: "mission_row list"
  pg_seq :: int
  pg_agents :: "agent list"

definition nilIfEmpty :: "string \<Rightarrow> string option" where
  "nilIfEmpty s = (if s = [] then None else Some s)"

text \<open>\<open>idx_missions_dedupe\<close>: two active rows of one objective may not share a key; a \<open>NULL\<close> objective never clashes.\<close>

definition dedupe_clash :: "mission_row \<Rightarrow> mission_row \<Rightarrow> bool" where
  "dedupe_clash r s \<longleftrightarrow> mr_dedupe_key r \<noteq> [] \<and> mr_dedupe_key r = mr_dedupe_key s \<and>
     mr_objective_id r \<noteq> None \<and> mr_objective_id r = mr_objective_id s \<and>
     active (mr_status r) \<and> active (mr_status s)"

subsection \<open>Enqueue\<close>

datatype enqueue_point = AtBegin | AtInsertMission | AtInsertAgent | AtCommit

definition mission_to_row :: "int \<Rightarrow> int \<Rightarrow> mission \<Rightarrow> mission_row" where
  "mission_to_row i now m =
     \<lparr>mr_id = i, mr_status = MsPending, mr_payload = mi_Payload m, mr_agent_task = mi_AgentTask m,
      mr_claimed_by = None, mr_claimed_at = None, mr_created_at = now, mr_completed_at = None,
      mr_error = [], mr_priority = mi_Priority m, mr_objective_id = nilIfEmpty (mi_ObjectiveID m),
      mr_parent_id = mi_ParentID m, mr_depth = mi_Depth m, mr_dedupe_key = mi_DedupeKey m,
      mr_proposed_by = mi_ProposedBy m\<rparr>"

text \<open>
  The two inserts in one transaction. A sequence value is spent even when the transaction
  rolls back. The agent's \<open>objective_id\<close> is not among the inserted columns: it gets the
  default \<open>''\<close>. On success the result is the mission with the fields \<open>Enqueue\<close> sets on it
  (\<open>t\<close> is the process clock, \<open>now\<close> the database's).
\<close>

definition pq_Enqueue ::
    "(enqueue_point \<times> string) option \<Rightarrow> int \<Rightarrow> int \<Rightarrow> mission \<Rightarrow> agent \<Rightarrow> pg_db \<Rightarrow> pg_db \<times> mission result" where
  "pq_Enqueue f now t m ag db =
     (let i = pg_seq db; row = mission_to_row i now m; spent = db\<lparr>pg_seq := i + 1\<rparr>
      in case f of
           Some (AtBegin, e) \<Rightarrow> (db, Inl (ErrDb (''pgqueue enqueue: begin: '' @ e)))
         | Some (AtInsertMission, e) \<Rightarrow> (db, Inl (ErrDb (''pgqueue enqueue: insert mission: '' @ e)))
         | _ \<Rightarrow>
             if list_ex (dedupe_clash row) (pg_missions db)
             then (spent, Inl (ErrDb ''pgqueue enqueue: insert mission: duplicate key value violates unique constraint''))
             else let ag1 = ag\<lparr>ag_MissionID := i, ag_ObjectiveID := []\<rparr>
                  in case f of
                       Some (AtInsertAgent, e) \<Rightarrow> (spent, Inl (ErrDb (''pgqueue enqueue: insert agent: '' @ e)))
                     | _ \<Rightarrow>
                         if ag_Task ag1 \<in> ag_Task ` set (pg_agents db)
                         then (spent, Inl (ErrDb ''pgqueue enqueue: insert agent: duplicate key value violates unique constraint''))
                         else (case f of
                                 Some (AtCommit, e) \<Rightarrow> (spent, Inl (ErrDb (''pgqueue enqueue: commit: '' @ e)))
                               | _ \<Rightarrow> (spent\<lparr>pg_missions := pg_missions db @ [row], pg_agents := pg_agents db @ [ag1]\<rparr>,
                                      Inr (m\<lparr>mi_ID := i, mi_Status := MsPending, mi_CreatedAt := t\<rparr>))))"

subsection \<open>Dequeue\<close>

definition claim_order :: "mission_row list \<Rightarrow> mission_row list" where
  "claim_order rows = sort_key (\<lambda>r. (- mr_priority r, mr_created_at r)) rows"

text \<open>Only the columns of the \<open>RETURNING\<close> list reach the mission that \<open>tryClaim\<close> returns.\<close>

definition claimed_mission :: "string \<Rightarrow> int \<Rightarrow> mission_row \<Rightarrow> mission" where
  "claimed_mission workerID t r =
     \<lparr>mi_ID = mr_id r, mi_AgentTask = mr_agent_task r, mi_Payload = mr_payload r, mi_Status = MsClaimed,
      mi_Priority = mr_priority r, mi_CreatedAt = mr_created_at r, mi_ClaimedBy = workerID,
      mi_ClaimedAt = Some t, mi_Error = [], mi_ObjectiveID = [], mi_ParentID = None, mi_Depth = 0,
      mi_DedupeKey = [], mi_ProposedBy = []\<rparr>"

definition pq_tryClaim ::
    "db_fault \<Rightarrow> int list \<Rightarrow> int \<Rightarrow> int \<Rightarrow> string \<Rightarrow> pg_db \<Rightarrow> pg_db \<times> mission option result" where
  "pq_tryClaim f locked now t workerID db =
     (case f of
        Some e \<Rightarrow> (db, Inl (ErrDb (''pgqueue dequeue: claim: '' @ e)))
      | None \<Rightarrow>
          (case claim_order (filter (\<lambda>r. mr_status r = MsPending \<and> mr_id r \<notin> set locked) (pg_missions db)) of
             [] \<Rightarrow> (db, Inr None)
           | r # _ \<Rightarrow>
               (db\<lparr>pg_missions := update_rows (\<lambda>x. mr_id x = mr_id r)
                     (\<lambda>x. x\<lparr>mr_status := MsClaimed, mr_claimed_by := Some workerID, mr_claimed_at := Some now\<rparr>)
                     (pg_missions db)\<rparr>,
                Inr (Some (claimed_mission workerID t r)))))"

text \<open>
  One round of the \<open>Dequeue\<close> loop: the fault, the locked rows and the clocks of its \<open>tryClaim\<close>,
  how its \<open>select\<close> ends, and what other processes do to the tables while it waits.
\<close>

record claim_round =
  cr_fault :: db_fault
  cr_locked :: "int list"
  cr_now :: int
  cr_clock :: int
  cr_done :: bool
  cr_others :: "pg_db \<Rightarrow> pg_db"

fun pq_Dequeue :: "string \<Rightarrow> claim_round list \<Rightarrow> pg_db \<Rightarrow> (pg_db \<times> mission result) option" where
  "pq_Dequeue workerID [] db = None"
| "pq_Dequeue workerID (c # cs) db =
     (case pq_tryClaim (cr_fault c) (cr_locked c) (cr_now c) (cr_clock c) workerID db of
        (db1, Inl e) \<Rightarrow> Some (db1, Inl e)
      | (db1, Inr (Some m)) \<Rightarrow> Some (db1, Inr m)
      | (db1, Inr None) \<Rightarrow>
          if cr_done c then Some (db1, Inl ErrCtx) else pq_Dequeue workerID cs (cr_others c db1))"

subsection \<open>The other operations\<close>

definition claimed_row :: "int \<Rightarrow> mission_row \<Rightarrow> bool" where
  "claimed_row i r \<longleftrightarrow> mr_id r = i \<and> mr_status r = MsClaimed"

definition pq_Ack :: "db_fault \<Rightarrow> int \<Rightarrow> int \<Rightarrow> pg_db \<Rightarrow> pg_db \<times> unit result" where
  "pq_Ack f now i db =
     (case f of
        Some e \<Rightarrow> (db, Inl (ErrDb (''pgqueue ack: '' @ e)))
      | None \<Rightarrow>
          if affected (claimed_row i) (pg_missions db) = 0 then (db, Inl ErrNotFound)
          else (db\<lparr>pg_missions := update_rows (claimed_row i)
                  (\<lambda>r. r\<lparr>mr_status := MsCompleted, mr_completed_at := Some now\<rparr>) (pg_missions db)\<rparr>, Inr ()))"

definition pq_Fail :: "db_fault \<Rightarrow> int \<Rightarrow> int \<Rightarrow> string \<Rightarrow> pg_db \<Rightarrow> pg_db \<times> unit result" where
  "pq_Fail f now i reason db =
     (case f of
        Some e \<Rightarrow> (db, Inl (ErrDb (''pgqueue fail: '' @ e)))
      | None \<Rightarrow>
          if affected (claimed_row i) (pg_missions db) = 0 then (db, Inl ErrNotFound)
          else (db\<lparr>pg_missions := update_rows (claimed_row i)
                  (\<lambda>r. r\<lparr>mr_status := MsFailed, mr_error := reason, mr_completed_at := Some now\<rparr>)
                  (pg_missions db)\<rparr>, Inr ()))"

definition pq_Len :: "db_fault \<Rightarrow> pg_db \<Rightarrow> nat result" where
  "pq_Len f db =
     (case f of
        Some e \<Rightarrow> Inl (ErrDb (''pgqueue len: '' @ e))
      | None \<Rightarrow> Inr (affected (\<lambda>r. mr_status r = MsPending) (pg_missions db)))"

definition pq_Status :: "db_fault \<Rightarrow> int \<Rightarrow> pg_db \<Rightarrow> mission_status result" where
  "pq_Status f i db =
     (case f of
        Some e \<Rightarrow> Inl (ErrDb (''pgqueue status: '' @ e))
      | None \<Rightarrow> (case find (\<lambda>r. mr_id r = i) (pg_missions db) of
                   None \<Rightarrow> Inl ErrNotFound | Some r \<Rightarrow> Inr (mr_status r)))"

definition pq_Cancel :: "db_fault \<Rightarrow> db_fault \<Rightarrow> int \<Rightarrow> pg_db \<Rightarrow> pg_db \<times> unit result" where
  "pq_Cancel f1 f2 i db =
     (let pend = (\<lambda>r. mr_id r = i \<and> mr_status r = MsPending)
      in case f1 of
           Some e \<Rightarrow> (db, Inl (ErrDb (''pgqueue cancel: delete pending: '' @ e)))
         | None \<Rightarrow>
             if affected pend (pg_missions db) > 0
             then (db\<lparr>pg_missions := filter (\<lambda>r. \<not> pend r) (pg_missions db)\<rparr>, Inr ())
             else (case f2 of
                     Some e \<Rightarrow> (db, Inl (ErrDb (''pgqueue cancel: update claimed: '' @ e)))
                   | None \<Rightarrow>
                       if affected (claimed_row i) (pg_missions db) > 0
                       then (db\<lparr>pg_missions := update_rows (claimed_row i)
                               (\<lambda>r. r\<lparr>mr_status := MsCancelled\<rparr>) (pg_missions db)\<rparr>, Inr ())
                       else (db, Inl ErrNotFound)))"

text \<open>
  \<open>reclaimStuck\<close>: one transaction that re-opens the missions whose lease ran out and queues
  their running agents again. An error in any statement aborts the transaction.
\<close>

definition stuck :: "int \<Rightarrow> int \<Rightarrow> mission_row \<Rightarrow> bool" where
  "stuck lease now r \<longleftrightarrow> mr_status r = MsClaimed \<and>
     (case mr_claimed_at r of None \<Rightarrow> False | Some t \<Rightarrow> t < now - lease)"

definition requeue_agent :: "string \<Rightarrow> agent list \<Rightarrow> agent list" where
  "requeue_agent task rows = update_rows (\<lambda>a. ag_Task a = task \<and> ag_Status a = AgRunning)
     (\<lambda>a. a\<lparr>ag_Status := AgQueued, ag_StartTime := 0\<rparr>) rows"

definition pq_reclaimStuck :: "db_fault \<Rightarrow> int \<Rightarrow> int \<Rightarrow> pg_db \<Rightarrow> pg_db" where
  "pq_reclaimStuck f lease now db =
     (case f of
        Some e \<Rightarrow> db
      | None \<Rightarrow>
          (let tasks = map mr_agent_task (filter (stuck lease now) (pg_missions db))
           in db\<lparr>pg_missions := update_rows (stuck lease now)
                  (\<lambda>r. r\<lparr>mr_status := MsPending, mr_claimed_by := None, mr_claimed_at := None\<rparr>) (pg_missions db),
                 pg_agents := fold requeue_agent tasks (pg_agents db)\<rparr>))"

definition reaper_interval :: "int \<Rightarrow> int" where
  "reaper_interval lease = (if lease div 2 < 30 * second_ns then 30 * second_ns else lease div 2)"

subsection \<open>Invariant\<close>

text \<open>What the primary keys, the sequence and the dedupe index guarantee.\<close>

definition pg_ok :: "pg_db \<Rightarrow> bool" where
  "pg_ok db \<longleftrightarrow> distinct (map mr_id (pg_missions db)) \<and> (\<forall>r\<in>set (pg_missions db). mr_id r < pg_seq db) \<and>
     distinct (map ag_Task (pg_agents db)) \<and>
     (\<forall>r\<in>set (pg_missions db). \<forall>s\<in>set (pg_missions db). dedupe_clash r s \<longrightarrow> r = s)"

definition pg_look :: "pg_db \<Rightarrow> int \<Rightarrow> mission_row option" where
  "pg_look db i = find (\<lambda>r. mr_id r = i) (pg_missions db)"

definition pg_status :: "pg_db \<Rightarrow> int \<Rightarrow> mission_status option" where
  "pg_status db i = map_option mr_status (pg_look db i)"

text \<open>Updates that keep a row's keys and never make it active again.\<close>

definition tame :: "(mission_row \<Rightarrow> bool) \<Rightarrow> (mission_row \<Rightarrow> mission_row) \<Rightarrow> bool" where
  "tame p u \<longleftrightarrow> (\<forall>r. mr_id (u r) = mr_id r \<and> mr_dedupe_key (u r) = mr_dedupe_key r \<and>
     mr_objective_id (u r) = mr_objective_id r \<and> (p r \<and> active (mr_status (u r)) \<longrightarrow> active (mr_status r)))"

lemma dedupe_clash_tame:
  assumes "tame p u" "dedupe_clash (if p r then u r else r) (if p s then u s else s)"
  shows "dedupe_clash r s"
  using assms by (auto simp: tame_def dedupe_clash_def split: if_splits)

lemma pg_ok_update_rows:
  assumes "tame p u" "pg_ok db"
  shows "pg_ok (db\<lparr>pg_missions := update_rows p u (pg_missions db)\<rparr>)"
proof -
  have "map mr_id (update_rows p u (pg_missions db)) = map mr_id (pg_missions db)"
    using assms(1) by (intro map_update_rows) (simp add: tame_def)
  moreover have "\<forall>r\<in>set (update_rows p u (pg_missions db)). mr_id r < pg_seq db"
    using assms by (auto simp: set_update_rows pg_ok_def tame_def)
  moreover have "\<forall>r\<in>set (update_rows p u (pg_missions db)). \<forall>s\<in>set (update_rows p u (pg_missions db)).
      dedupe_clash r s \<longrightarrow> r = s"
    using assms(2) dedupe_clash_tame [OF assms(1)] unfolding set_update_rows pg_ok_def by blast
  ultimately show ?thesis using assms(2) by (simp add: pg_ok_def)
qed

lemma pg_status_update_rows:
  assumes "\<And>r. mr_id (u r) = mr_id r"
  shows "pg_status (db\<lparr>pg_missions := update_rows p u (pg_missions db)\<rparr>) j =
    map_option (\<lambda>r. mr_status (if p r then u r else r)) (pg_look db j)"
  using find_update_rows [of mr_id u j p "pg_missions db"] assms
  by (simp add: pg_status_def pg_look_def option.map_comp comp_def)

lemma pg_look_mem: "pg_ok db \<Longrightarrow> pg_look db i = Some r \<longleftrightarrow> r \<in> set (pg_missions db) \<and> mr_id r = i"
  using find_key_unique [of mr_id "pg_missions db" r] by (auto simp: pg_ok_def pg_look_def dest: find_SomeD)

lemma pg_look_None: "pg_look db i = None \<longleftrightarrow> (\<forall>r\<in>set (pg_missions db). mr_id r \<noteq> i)"
  by (auto simp: pg_look_def find_None_iff)

lemma pg_look_id: "pg_look db i = Some r \<Longrightarrow> mr_id r = i"
  by (auto simp: pg_look_def dest: find_SomeD)

text \<open>An update of one row by its identifier changes the status of that mission only.\<close>

lemma pg_status_one:
  assumes "\<And>r. mr_id (u r) = mr_id r" "\<And>r. mr_status (u r) = st" "pg_ok db" "pg_look db i = Some r0" "G r0"
  shows "pg_status (db\<lparr>pg_missions := update_rows (\<lambda>r. mr_id r = i \<and> G r) u (pg_missions db)\<rparr>) =
    (pg_status db)(i \<mapsto> st)"
proof
  fix j
  show "pg_status (db\<lparr>pg_missions := update_rows (\<lambda>r. mr_id r = i \<and> G r) u (pg_missions db)\<rparr>) j =
    ((pg_status db)(i \<mapsto> st)) j"
    unfolding pg_status_update_rows [OF assms(1)]
    using assms by (cases "pg_look db j") (auto simp: pg_status_def dest: pg_look_id)
qed

lemma claimed_row_eq: "claimed_row i = (\<lambda>r. mr_id r = i \<and> mr_status r = MsClaimed)"
  by (auto simp: claimed_row_def)

lemma affected_claimed:
  assumes "pg_ok db"
  shows "affected (claimed_row i) (pg_missions db) = 0 \<longleftrightarrow> pg_status db i \<noteq> Some MsClaimed"
  using assms by (auto simp: affected_0_iff claimed_row_def pg_status_def pg_look_mem)

subsection \<open>Each operation\<close>

lemma pq_Enqueue_faulty:
  "pq_Enqueue (Some (pt, e)) now t m ag db = (db', r) \<Longrightarrow>
    \<exists>e' n. r = Inl e' \<and> db' = db\<lparr>pg_seq := n\<rparr> \<and> pg_seq db \<le> n"
  by (cases pt; force simp: pq_Enqueue_def Let_def split: if_splits)

lemma pq_Enqueue_cases:
  assumes "pq_Enqueue f now t m ag db = (db', r)"
  obtains (failed) e n where "r = Inl e" "db' = db\<lparr>pg_seq := n\<rparr>" "pg_seq db \<le> n"
  | (queued) "r = Inr (m\<lparr>mi_ID := pg_seq db, mi_Status := MsPending, mi_CreatedAt := t\<rparr>)"
      "db' = \<lparr>pg_missions = pg_missions db @ [mission_to_row (pg_seq db) now m], pg_seq = pg_seq db + 1,
        pg_agents = pg_agents db @ [ag\<lparr>ag_MissionID := pg_seq db, ag_ObjectiveID := []\<rparr>]\<rparr>"
      "\<forall>s\<in>set (pg_missions db). \<not> dedupe_clash (mission_to_row (pg_seq db) now m) s"
      "ag_Task ag \<notin> ag_Task ` set (pg_agents db)"
proof (cases f)
  case None
  let ?clash = "list_ex (dedupe_clash (mission_to_row (pg_seq db) now m)) (pg_missions db)"
  let ?dup = "ag_Task ag \<in> ag_Task ` set (pg_agents db)"
  consider ?clash | "\<not> ?clash" ?dup | "\<not> ?clash" "\<not> ?dup" by blast
  then show thesis
  proof cases
    case 1
    then have "(db', r) = (db\<lparr>pg_seq := pg_seq db + 1\<rparr>,
        Inl (ErrDb ''pgqueue enqueue: insert mission: duplicate key value violates unique constraint''))"
      using assms None unfolding pq_Enqueue_def Let_def by simp
    then show thesis by (intro failed [of _ "pg_seq db + 1"]) auto
  next
    case 2
    then have "(db', r) = (db\<lparr>pg_seq := pg_seq db + 1\<rparr>,
        Inl (ErrDb ''pgqueue enqueue: insert agent: duplicate key value violates unique constraint''))"
      using assms None unfolding pq_Enqueue_def Let_def by simp
    then show thesis by (intro failed [of _ "pg_seq db + 1"]) auto
  next
    case 3
    then show thesis using assms None
      by (intro queued) (auto simp: pq_Enqueue_def Let_def list_ex_iff)
  qed
next
  case (Some pe)
  then show thesis using assms pq_Enqueue_faulty [of "fst pe" "snd pe"] failed by force
qed

lemma dedupe_clash_sym: "dedupe_clash r s \<longleftrightarrow> dedupe_clash s r"
  by (auto simp: dedupe_clash_def)

lemma mission_to_row_fields [simp]:
  "mr_id (mission_to_row i now m) = i" "mr_status (mission_to_row i now m) = MsPending"
  "mr_priority (mission_to_row i now m) = mi_Priority m" "mr_payload (mission_to_row i now m) = mi_Payload m"
  "mr_parent_id (mission_to_row i now m) = mi_ParentID m" "mr_depth (mission_to_row i now m) = mi_Depth m"
  "mr_objective_id (mission_to_row i now m) = nilIfEmpty (mi_ObjectiveID m)"
  "mr_dedupe_key (mission_to_row i now m) = mi_DedupeKey m"
  by (simp_all add: mission_to_row_def)

lemma pg_ok_Enqueue:
  assumes "pg_ok db" "pq_Enqueue f now t m ag db = (db', r)"
  shows "pg_ok db'"
  using assms(2)
proof (cases rule: pq_Enqueue_cases)
  case (failed e n)
  show ?thesis unfolding failed(2) using assms(1) failed(3) by (fastforce simp: pg_ok_def)
next
  case queued
  have "pg_seq db \<notin> mr_id ` set (pg_missions db)" using assms(1) by (auto simp: pg_ok_def)
  moreover have "\<not> dedupe_clash s (mission_to_row (pg_seq db) now m)" if "s \<in> set (pg_missions db)" for s
    using queued(3) that dedupe_clash_sym by blast
  moreover have "\<forall>r\<in>set (pg_missions db). mr_id r < pg_seq db + 1" using assms(1) by (auto simp: pg_ok_def)
  ultimately show ?thesis
    using assms(1) queued(3,4) unfolding queued(2) pg_ok_def by simp
qed

lemma pq_Enqueue_status:
  assumes "pg_ok db" "pq_Enqueue f now t m ag db = (db', Inr m')"
  shows "mi_ID m' = pg_seq db \<and> pg_status db (mi_ID m') = None \<and>
    pg_status db' = (pg_status db)(mi_ID m' \<mapsto> MsPending)"
  using assms(2)
proof (cases rule: pq_Enqueue_cases)
  case queued
  have new: "\<forall>r\<in>set (pg_missions db). mr_id r \<noteq> pg_seq db" using assms(1) by (auto simp: pg_ok_def)
  then have "pg_seq db \<notin> mr_id ` set (pg_missions db)" by auto
  note fresh = this
  have "pg_look db' j = (if j = pg_seq db then Some (mission_to_row (pg_seq db) now m) else pg_look db j)" for j
    using find_key_append [of mr_id "mission_to_row (pg_seq db) now m" "pg_missions db" j] fresh
    by (simp add: pg_look_def queued(2))
  then show ?thesis using queued(1) new by (auto simp: pg_status_def pg_look_None)
qed simp

lemma claim_order_hd:
  assumes "claim_order rows = r # rest"
  shows "r \<in> set rows" and "\<And>s. s \<in> set rows \<Longrightarrow> (- mr_priority r, mr_created_at r) \<le> (- mr_priority s, mr_created_at s)"
proof -
  have set: "set (claim_order rows) = set rows" by (simp add: claim_order_def)
  then show "r \<in> set rows" using assms by auto
  fix s assume "s \<in> set rows"
  then have "s = r \<or> s \<in> set rest" using set assms by auto
  moreover have "sorted (map (\<lambda>r. (- mr_priority r, mr_created_at r)) (r # rest))"
    using assms sorted_sort_key [of "\<lambda>r. (- mr_priority r, mr_created_at r)" rows] by (simp add: claim_order_def)
  ultimately show "(- mr_priority r, mr_created_at r) \<le> (- mr_priority s, mr_created_at s)" by auto
qed

lemma claim_order_Nil: "claim_order rows = [] \<longleftrightarrow> rows = []"
  by (metis claim_order_def length_0_conv length_sort)

lemma pq_tryClaim_Some:
  assumes "pg_ok db" "pq_tryClaim f locked now t w db = (db', Inr (Some m))"
  obtains r where "pg_look db (mi_ID m) = Some r" "m = claimed_mission w t r" "mr_status r = MsPending"
    "mr_id r \<notin> set locked" "pg_ok db'" "pg_status db' = (pg_status db)(mi_ID m \<mapsto> MsClaimed)"
    "\<And>s. s \<in> set (pg_missions db) \<Longrightarrow> mr_status s = MsPending \<Longrightarrow> mr_id s \<notin> set locked \<Longrightarrow>
      mr_priority s < mr_priority r \<or> (mr_priority s = mr_priority r \<and> mr_created_at r \<le> mr_created_at s)"
proof -
  let ?cand = "filter (\<lambda>r. mr_status r = MsPending \<and> mr_id r \<notin> set locked) (pg_missions db)"
  let ?u = "\<lambda>x. x\<lparr>mr_status := MsClaimed, mr_claimed_by := Some w, mr_claimed_at := Some now\<rparr>"
  obtain r rest where r: "claim_order ?cand = r # rest" and m: "m = claimed_mission w t r"
    and db': "db' = db\<lparr>pg_missions := update_rows (\<lambda>x. mr_id x = mr_id r) ?u (pg_missions db)\<rparr>"
    using assms(2) by (auto simp: pq_tryClaim_def split: option.splits list.splits)
  have mem: "r \<in> set (pg_missions db)" "mr_status r = MsPending" "mr_id r \<notin> set locked"
    using claim_order_hd(1) [OF r] by auto
  have look: "pg_look db (mr_id r) = Some r" using assms(1) mem by (simp add: pg_look_mem)
  have "update_rows (\<lambda>x. mr_id x = mr_id r) ?u (pg_missions db) =
      update_rows (\<lambda>x. mr_id x = mr_id r \<and> mr_status x = MsPending) ?u (pg_missions db)"
    using assms(1) mem unfolding update_rows_def pg_ok_def by (auto simp: distinct_map inj_on_def)
  then have db2: "db' = db\<lparr>pg_missions := update_rows (\<lambda>x. mr_id x = mr_id r \<and> mr_status x = MsPending) ?u (pg_missions db)\<rparr>"
    using db' by simp
  have "tame (\<lambda>x. mr_id x = mr_id r \<and> mr_status x = MsPending) ?u" by (simp add: tame_def active_def)
  then have "pg_ok db'" unfolding db2 using assms(1) by (rule pg_ok_update_rows)
  moreover have "pg_status db' = (pg_status db)(mr_id r \<mapsto> MsClaimed)"
    unfolding db2 by (rule pg_status_one [OF _ _ assms(1) look]) (simp_all add: mem)
  moreover have "mr_priority s < mr_priority r \<or> (mr_priority s = mr_priority r \<and> mr_created_at r \<le> mr_created_at s)"
    if "s \<in> set (pg_missions db)" "mr_status s = MsPending" "mr_id s \<notin> set locked" for s
    using claim_order_hd(2) [OF r, of s] that by (auto simp: less_eq_prod_def)
  ultimately show thesis using that [of r] look mem by (simp add: m claimed_mission_def)
qed

lemma pq_tryClaim_other:
  assumes "pq_tryClaim f locked now t w db = (db', x)" "\<And>m. x \<noteq> Inr (Some m)"
  shows "db' = db"
  using assms by (auto simp: pq_tryClaim_def split: option.splits list.splits)

lemma pg_ok_tryClaim: "pg_ok db \<Longrightarrow> pq_tryClaim f locked now t w db = (db', x) \<Longrightarrow> pg_ok db'"
  by (metis pq_tryClaim_Some pq_tryClaim_other)

lemma pq_finish:
  assumes "pg_ok db" "pg_status db i = Some MsClaimed" "\<And>r. mr_id (u r) = mr_id r" "\<And>r. mr_status (u r) = st"
    "\<And>r. mr_dedupe_key (u r) = mr_dedupe_key r" "\<And>r. mr_objective_id (u r) = mr_objective_id r"
  shows "pg_ok (db\<lparr>pg_missions := update_rows (claimed_row i) u (pg_missions db)\<rparr>) \<and>
    pg_status (db\<lparr>pg_missions := update_rows (claimed_row i) u (pg_missions db)\<rparr>) = (pg_status db)(i \<mapsto> st)"
proof -
  obtain r where "pg_look db i = Some r" "mr_status r = MsClaimed" using assms(2) by (auto simp: pg_status_def)
  then show ?thesis
    using pg_status_one [OF assms(3,4,1), of i r "\<lambda>r. mr_status r = MsClaimed"] assms
    unfolding claimed_row_eq by (intro conjI pg_ok_update_rows) (simp_all add: tame_def active_def)
qed

lemma pq_Ack_eq:
  "pg_ok db \<Longrightarrow> pq_Ack None now i db =
     (if pg_status db i = Some MsClaimed
      then (db\<lparr>pg_missions := update_rows (claimed_row i)
              (\<lambda>r. r\<lparr>mr_status := MsCompleted, mr_completed_at := Some now\<rparr>) (pg_missions db)\<rparr>, Inr ())
      else (db, Inl ErrNotFound))"
  by (simp add: pq_Ack_def affected_claimed)

lemma pq_Fail_eq:
  "pg_ok db \<Longrightarrow> pq_Fail None now i why db =
     (if pg_status db i = Some MsClaimed
      then (db\<lparr>pg_missions := update_rows (claimed_row i)
              (\<lambda>r. r\<lparr>mr_status := MsFailed, mr_error := why, mr_completed_at := Some now\<rparr>) (pg_missions db)\<rparr>, Inr ())
      else (db, Inl ErrNotFound))"
  by (simp add: pq_Fail_def affected_claimed)

lemma pg_ok_filter: "pg_ok db \<Longrightarrow> pg_ok (db\<lparr>pg_missions := filter p (pg_missions db)\<rparr>)"
  by (auto simp: pg_ok_def distinct_map_filter)

lemma find_filter_key:
  "distinct (map k rows) \<Longrightarrow>
    find (\<lambda>r. k r = j) (filter q rows) = (case find (\<lambda>r. k r = j) rows of None \<Rightarrow> None | Some r \<Rightarrow> if q r then Some r else None)"
  by (induction rows) (auto split: option.splits simp: find_None_iff find_Some_iff image_iff)

lemma pq_Cancel_eq:
  assumes "pg_ok db"
  shows "pq_Cancel None None i db =
     (case pg_status db i of
        Some MsPending \<Rightarrow> (db\<lparr>pg_missions := filter (\<lambda>r. \<not> (mr_id r = i \<and> mr_status r = MsPending)) (pg_missions db)\<rparr>, Inr ())
      | Some MsClaimed \<Rightarrow> (db\<lparr>pg_missions := update_rows (claimed_row i) (\<lambda>r. r\<lparr>mr_status := MsCancelled\<rparr>) (pg_missions db)\<rparr>, Inr ())
      | _ \<Rightarrow> (db, Inl ErrNotFound))"
proof -
  have "affected (\<lambda>r. mr_id r = i \<and> mr_status r = MsPending) (pg_missions db) = 0 \<longleftrightarrow> pg_status db i \<noteq> Some MsPending"
    using assms by (auto simp: affected_0_iff pg_status_def pg_look_mem)
  with affected_claimed [OF assms, of i] show ?thesis
    unfolding pq_Cancel_def Let_def by (auto split: option.splits mission_status.splits)
qed

lemma pq_Cancel_pending:
  assumes "pg_ok db"
  shows "pg_status (db\<lparr>pg_missions := filter (\<lambda>r. \<not> (mr_id r = i \<and> mr_status r = MsPending)) (pg_missions db)\<rparr>) =
    (\<lambda>j. if j = i \<and> pg_status db i = Some MsPending then None else pg_status db j)"
proof
  let ?db' = "db\<lparr>pg_missions := filter (\<lambda>r. \<not> (mr_id r = i \<and> mr_status r = MsPending)) (pg_missions db)\<rparr>"
  fix j
  have "pg_look ?db' j = (case pg_look db j of None \<Rightarrow> None
      | Some r \<Rightarrow> if mr_id r = i \<and> mr_status r = MsPending then None else Some r)"
    using find_filter_key [of mr_id "pg_missions db" j "\<lambda>r. \<not> (mr_id r = i \<and> mr_status r = MsPending)"] assms
    by (simp add: pg_look_def pg_ok_def split: option.splits)
  then show "pg_status ?db' j = (if j = i \<and> pg_status db i = Some MsPending then None else pg_status db j)"
    using pg_look_id [of db j] by (cases "j = i") (auto simp: pg_status_def split: option.splits)
qed

subsection \<open>Lease recovery\<close>

lemma fold_requeue:
  "fold requeue_agent tasks rows =
     update_rows (\<lambda>a. ag_Task a \<in> set tasks \<and> ag_Status a = AgRunning)
       (\<lambda>a. a\<lparr>ag_Status := AgQueued, ag_StartTime := 0\<rparr>) rows"
proof (induction tasks arbitrary: rows)
  case Nil
  then show ?case by (simp add: update_rows_def)
next
  case (Cons t ts)
  show ?case unfolding fold_Cons comp_def Cons.IH
    by (auto simp: requeue_agent_def update_rows_def)
qed

lemma pg_ok_reclaim: "pg_ok db \<Longrightarrow> pg_ok (pq_reclaimStuck f lease now db)"
proof (cases f)
  case None
  let ?u = "\<lambda>r. r\<lparr>mr_status := MsPending, mr_claimed_by := None, mr_claimed_at := None\<rparr>"
  assume ok: "pg_ok db"
  have "tame (stuck lease now) ?u" by (auto simp: tame_def stuck_def active_def)
  from pg_ok_update_rows [OF this ok] None show ?thesis
    by (simp add: pq_reclaimStuck_def Let_def fold_requeue pg_ok_def map_update_rows)
qed (simp add: pq_reclaimStuck_def)

lemma reclaim_missions:
  "set (pg_missions (pq_reclaimStuck None lease now db)) =
     (\<lambda>r. if stuck lease now r then r\<lparr>mr_status := MsPending, mr_claimed_by := None, mr_claimed_at := None\<rparr> else r)
       ` set (pg_missions db)"
  by (simp add: pq_reclaimStuck_def Let_def set_update_rows)

subsection \<open>The queue interface\<close>

definition pq_enq :: "pg_db \<Rightarrow> pg_db \<Rightarrow> int \<Rightarrow> bool" where
  "pq_enq db db' i \<longleftrightarrow> (\<exists>f now t m ag m'. pq_Enqueue f now t m ag db = (db', Inr m') \<and> mi_ID m' = i)"

definition pq_claim :: "pg_db \<Rightarrow> pg_db \<Rightarrow> int \<Rightarrow> bool" where
  "pq_claim db db' i \<longleftrightarrow> (\<exists>f locked now t w m. pq_tryClaim f locked now t w db = (db', Inr (Some m)) \<and> mi_ID m = i)"

lemma pg_status_row: "pg_ok db \<Longrightarrow> r \<in> set (pg_missions db) \<Longrightarrow> pg_status db (mr_id r) = Some (mr_status r)"
  using find_key_unique [of mr_id "pg_missions db" r] by (simp add: pg_ok_def pg_status_def pg_look_def)

lemma pq_Cancel_fst:
  assumes "pg_ok db"
  shows "fst (pq_Cancel f f2 i db) = db \<or>
    fst (pq_Cancel f f2 i db) = db\<lparr>pg_missions := filter (\<lambda>r. \<not> (mr_id r = i \<and> mr_status r = MsPending)) (pg_missions db)\<rparr> \<and>
      pg_status db i = Some MsPending \<or>
    fst (pq_Cancel f f2 i db) = db\<lparr>pg_missions := update_rows (claimed_row i) (\<lambda>r. r\<lparr>mr_status := MsCancelled\<rparr>) (pg_missions db)\<rparr> \<and>
      pg_status db i = Some MsClaimed"
  by (auto simp: pq_Cancel_def Let_def affected_def claimed_row_def filter_empty_conv
      dest!: pg_status_row [OF assms] split: option.splits)

definition pq_settle :: "pg_db \<Rightarrow> pg_db \<Rightarrow> bool" where
  "pq_settle db db' \<longleftrightarrow> (\<exists>f f2 now i why.
     db' \<in> {fst (pq_Ack f now i db), fst (pq_Fail f now i why db), fst (pq_Cancel f f2 i db)})"

lemma pq_settle_cases:
  assumes "pg_ok db" "pq_settle db db'"
  obtains (same) "db' = db"
  | (final) i st where "pg_ok db'" "pg_status db' = (pg_status db)(i \<mapsto> st)" "st \<noteq> MsPending"
  | (removed) i where "pg_ok db'" "pg_status db i = Some MsPending" "pg_status db' = (pg_status db)(i := None)"
proof -
  have fin: thesis if "pg_status db i = Some MsClaimed" "\<And>r. mr_id (u r) = mr_id r" "\<And>r. mr_status (u r) = st"
    "\<And>r. mr_dedupe_key (u r) = mr_dedupe_key r" "\<And>r. mr_objective_id (u r) = mr_objective_id r" "st \<noteq> MsPending"
    "db' = db\<lparr>pg_missions := update_rows (claimed_row i) u (pg_missions db)\<rparr>" for i u st
    using final [of i st] pq_finish [OF assms(1) that(1-5)] that(6,7) by simp
  have rem: thesis if "pg_status db i = Some MsPending"
    "db' = db\<lparr>pg_missions := filter (\<lambda>r. \<not> (mr_id r = i \<and> mr_status r = MsPending)) (pg_missions db)\<rparr>" for i
  proof (rule removed [of i])
    show "pg_status db' = (pg_status db)(i := None)"
      unfolding that(2) pq_Cancel_pending [OF assms(1)] by (rule ext) (simp add: that(1))
  qed (use that pg_ok_filter [OF assms(1)] in simp_all)
  obtain f f2 now i why where
    "db' = fst (pq_Ack f now i db) \<or> db' = fst (pq_Fail f now i why db) \<or> db' = fst (pq_Cancel f f2 i db)"
    using assms(2) unfolding pq_settle_def insert_iff empty_iff by blast
  then show ?thesis
  proof (elim disjE)
    assume d: "db' = fst (pq_Ack f now i db)"
    show ?thesis
    proof (cases "f = None \<and> pg_status db i = Some MsClaimed")
      case True
      then show ?thesis
        using d by (intro fin [of i "\<lambda>r. r\<lparr>mr_status := MsCompleted, mr_completed_at := Some now\<rparr>" MsCompleted])
          (simp_all add: pq_Ack_eq [OF assms(1)])
    next
      case False
      then show ?thesis using d same pq_Ack_eq [OF assms(1), of now i] by (cases f) (auto simp: pq_Ack_def)
    qed
  next
    assume d: "db' = fst (pq_Fail f now i why db)"
    show ?thesis
    proof (cases "f = None \<and> pg_status db i = Some MsClaimed")
      case True
      then show ?thesis
        using d by (intro fin [of i "\<lambda>r. r\<lparr>mr_status := MsFailed, mr_error := why, mr_completed_at := Some now\<rparr>" MsFailed])
          (simp_all add: pq_Fail_eq [OF assms(1)])
    next
      case False
      then show ?thesis using d same pq_Fail_eq [OF assms(1), of now i why] by (cases f) (auto simp: pq_Fail_def)
    qed
  next
    assume d: "db' = fst (pq_Cancel f f2 i db)"
    consider "db' = db"
      | "db' = db\<lparr>pg_missions := filter (\<lambda>r. \<not> (mr_id r = i \<and> mr_status r = MsPending)) (pg_missions db)\<rparr>"
        "pg_status db i = Some MsPending"
      | "db' = db\<lparr>pg_missions := update_rows (claimed_row i) (\<lambda>r. r\<lparr>mr_status := MsCancelled\<rparr>) (pg_missions db)\<rparr>"
        "pg_status db i = Some MsClaimed"
      using d pq_Cancel_fst [OF assms(1), of f f2 i] by blast
    then show ?thesis
    proof cases
      case 3
      then show ?thesis by (intro fin [of i "\<lambda>r. r\<lparr>mr_status := MsCancelled\<rparr>" MsCancelled]) simp_all
    qed (use same rem in blast)+
  qed
qed

interpretation pgq: mission_queue pg_ok pg_status pq_enq pq_claim "pq_Ack None now" "pq_Fail None now"
  "pq_Cancel None None" pq_settle for now
proof (unfold_locales, goal_cases)
  case (1 q q' i)
  then show ?case by (auto simp: pq_enq_def dest: pq_Enqueue_status intro: pg_ok_Enqueue)
next
  case (2 q q' i)
  then obtain f locked t0 t w m where c: "pq_tryClaim f locked t0 t w q = (q', Inr (Some m))" "mi_ID m = i"
    by (auto simp: pq_claim_def)
  from pq_tryClaim_Some [OF 2(1) c(1)] c(2) show ?case by (metis option.simps(9) pg_status_def)
next
  case (3 q i q' r)
  then show ?case
    using pq_finish [OF 3(1,2), of "\<lambda>r. r\<lparr>mr_status := MsCompleted, mr_completed_at := Some now\<rparr>" MsCompleted]
    by (auto simp: pq_Ack_eq)
next
  case (4 q i why q' r)
  then show ?case
    using pq_finish [OF 4(1,2), of "\<lambda>r. r\<lparr>mr_status := MsFailed, mr_error := why, mr_completed_at := Some now\<rparr>" MsFailed]
    by (auto simp: pq_Fail_eq)
next
  case (5 q i st q' r)
  then consider "st = MsPending" | "st = MsClaimed" by (auto simp: active_def)
  then show ?case
  proof cases
    case 1
    then show ?thesis
      using 5 pq_Cancel_pending [OF 5(1), of i] by (auto simp: pq_Cancel_eq pg_ok_filter)
  next
    case 2
    then show ?thesis
      using 5 pq_finish [OF 5(1), of i "\<lambda>r. r\<lparr>mr_status := MsCancelled\<rparr>" MsCancelled] by (auto simp: pq_Cancel_eq)
  qed
next
  case (6 q i)
  then show ?case by (auto simp: pq_Cancel_eq active_def split: option.splits mission_status.splits)
next
  case (7 q q')
  then show ?case by (cases rule: pq_settle_cases) (use 7(1) in simp_all)
next
  case (8 q q' j st)
  from 8(1,2) show ?case by (cases rule: pq_settle_cases) (use 8(3,4) in auto)
qed

subsection \<open>What the queue guarantees\<close>

text \<open>Two pending missions for the witnesses, the later one with the higher priority.\<close>

definition sample_row :: "int \<Rightarrow> int \<Rightarrow> mission_row" where
  "sample_row i prio =
     \<lparr>mr_id = i, mr_status = MsPending, mr_payload = Malformed [], mr_agent_task = ''t'', mr_claimed_by = None,
      mr_claimed_at = None, mr_created_at = i, mr_completed_at = None, mr_error = [], mr_priority = prio,
      mr_objective_id = None, mr_parent_id = None, mr_depth = 0, mr_dedupe_key = [], mr_proposed_by = []\<rparr>"

definition sample_queue :: pg_db where
  "sample_queue = \<lparr>pg_missions = [sample_row 1 0, sample_row 2 5], pg_seq = 3, pg_agents = []\<rparr>"

lemma sample_queue_ok: "pg_ok sample_queue"
  by (simp add: pg_ok_def sample_queue_def sample_row_def dedupe_clash_def)

lemma sample_claim:
  "pq_tryClaim None [] 9 9 ''w'' sample_queue =
     (sample_queue\<lparr>pg_missions := [sample_row 1 0,
        (sample_row 2 5)\<lparr>mr_status := MsClaimed, mr_claimed_by := Some ''w'', mr_claimed_at := Some 9\<rparr>]\<rparr>,
      Inr (Some (claimed_mission ''w'' 9 (sample_row 2 5))))"
  by (simp add: pq_tryClaim_def sample_queue_def sample_row_def claim_order_def update_rows_def)

text \<open>
  C9 (pg_claims_highest_priority): a successful \<open>tryClaim\<close> hands out a mission that was pending
  and not locked by another transaction, with the worker as its claimant; no other such mission
  has a higher priority, or the same priority and an earlier creation. Only its status changes.
\<close>

theorem pg_claims_highest_priority:
  assumes "pg_ok db" "pq_tryClaim f locked now t w db = (db', Inr (Some m))"
  shows "\<exists>r. pg_look db (mi_ID m) = Some r \<and> mr_status r = MsPending \<and> mr_id r \<notin> set locked \<and>
    m = claimed_mission w t r \<and> pg_ok db' \<and> pg_status db' = (pg_status db)(mi_ID m \<mapsto> MsClaimed) \<and>
    (\<forall>s\<in>set (pg_missions db). mr_status s = MsPending \<and> mr_id s \<notin> set locked \<longrightarrow>
      mr_priority s < mr_priority r \<or> (mr_priority s = mr_priority r \<and> mr_created_at r \<le> mr_created_at s))"
  using pq_tryClaim_Some [OF assms] by (metis (no_types, lifting))

theorem pg_claims_highest_priority_witness:
  "\<exists>r. pg_look sample_queue 2 = Some r \<and> mr_status r = MsPending \<and> mr_priority r = 5 \<and>
     (\<forall>s\<in>set (pg_missions sample_queue). mr_status s = MsPending \<longrightarrow> mr_priority s \<le> mr_priority r)"
proof -
  have "mi_ID (claimed_mission ''w'' 9 (sample_row 2 5)) = 2" by (simp add: claimed_mission_def sample_row_def)
  with pg_claims_highest_priority [OF sample_queue_ok sample_claim] show ?thesis
    by (auto simp: sample_queue_def sample_row_def pg_look_def)
qed

text \<open>
  C10 (pg_enqueue_all_or_nothing): \<open>Enqueue\<close> adds the mission and its agent together or neither,
  whichever statement fails; only the sequence may have moved on. When it succeeds the mission is
  pending under a fresh number, its agent points to it, no active mission of the objective has
  its key, and no agent had its task.
\<close>

theorem pg_enqueue_all_or_nothing:
  "case pq_Enqueue f now t m ag db of
     (db', Inl e) \<Rightarrow> pg_missions db' = pg_missions db \<and> pg_agents db' = pg_agents db \<and> pg_seq db \<le> pg_seq db'
   | (db', Inr m') \<Rightarrow>
       m' = m\<lparr>mi_ID := pg_seq db, mi_Status := MsPending, mi_CreatedAt := t\<rparr> \<and>
       pg_missions db' = pg_missions db @ [mission_to_row (pg_seq db) now m] \<and>
       pg_agents db' = pg_agents db @ [ag\<lparr>ag_MissionID := pg_seq db, ag_ObjectiveID := []\<rparr>] \<and>
       pg_seq db' = pg_seq db + 1 \<and>
       list_all (\<lambda>s. \<not> dedupe_clash (mission_to_row (pg_seq db) now m) s) (pg_missions db) \<and>
       ag_Task ag \<notin> ag_Task ` set (pg_agents db)"
proof (cases "pq_Enqueue f now t m ag db")
  case (Pair db' r)
  then show ?thesis
  proof (cases rule: pq_Enqueue_cases)
    case (failed e n)
    then show ?thesis by (simp add: Pair)
  next
    case queued
    then show ?thesis by (simp add: Pair list_all_iff)
  qed
qed

text \<open>
  C11 (pg_never_hands_out_twice): from a well-formed queue, however enqueues, claims by any workers,
  acknowledgements, failures and cancellations interleave, failing or not, no mission is claimed
  twice (as long as no lease is reclaimed in between).
\<close>

theorem pg_never_hands_out_twice:
  assumes "queue_run pq_enq pq_claim pq_settle db cs db'" "pg_ok db"
  shows "distinct cs \<and> pg_ok db'"
  using pgq.claims_distinct [OF assms] pgq.run_invar [OF assms] by simp

theorem pg_never_hands_out_twice_witness:
  "queue_run pq_enq pq_claim pq_settle sample_queue [2] (fst (pq_tryClaim None [] 9 9 ''w'' sample_queue)) \<and> distinct [2::int]"
proof -
  have "pq_claim sample_queue (fst (pq_tryClaim None [] 9 9 ''w'' sample_queue)) 2"
    unfolding pq_claim_def
    by (intro exI [of _ None] exI [of _ "[]"] exI [of _ 9] exI [of _ "''w''"]
        exI [of _ "claimed_mission ''w'' 9 (sample_row 2 5)"])
      (simp add: sample_claim claimed_mission_def sample_row_def)
  then have run: "queue_run pq_enq pq_claim pq_settle sample_queue [2] (fst (pq_tryClaim None [] 9 9 ''w'' sample_queue))"
    by (rule qr_claim) (rule qr_nil)
  with pg_never_hands_out_twice [OF this sample_queue_ok] show ?thesis by simp
qed

text \<open>
  When its transaction commits, \<open>reclaimStuck\<close> re-opens exactly the
  claimed missions whose claim is older than the lease, without claimant, and queues again
  exactly the running agents of those missions; every other row is as before.
\<close>

theorem pg_reclaims_exactly_stuck:
  "pg_missions (pq_reclaimStuck None lease now db) =
     map (\<lambda>r. if stuck lease now r then r\<lparr>mr_status := MsPending, mr_claimed_by := None, mr_claimed_at := None\<rparr> else r)
       (pg_missions db) \<and>
   pg_agents (pq_reclaimStuck None lease now db) =
     map (\<lambda>a. if ag_Status a = AgRunning \<and> ag_Task a \<in> mr_agent_task ` {r \<in> set (pg_missions db). stuck lease now r}
              then a\<lparr>ag_Status := AgQueued, ag_StartTime := 0\<rparr> else a) (pg_agents db)"
  by (auto simp: pq_reclaimStuck_def Let_def fold_requeue update_rows_def)

text \<open>
  a waiting \<open>Dequeue\<close> returns a mission in the first round whose statement
  does not fail and in which some pending mission is not locked.
\<close>

theorem pg_dequeue_returns:
  assumes "cr_fault c = None" "r \<in> set (pg_missions db)" "mr_status r = MsPending" "mr_id r \<notin> set (cr_locked c)"
  shows "\<exists>db' m. pq_Dequeue w (c # cs) db = Some (db', Inr m) \<and> mi_Status m = MsClaimed \<and> mi_ClaimedBy m = w"
proof -
  let ?rows = "filter (\<lambda>r. mr_status r = MsPending \<and> mr_id r \<notin> set (cr_locked c)) (pg_missions db)"
  have "claim_order ?rows \<noteq> []" using assms(2-4) by (auto simp: claim_order_Nil filter_empty_conv)
  then obtain s ss where "claim_order ?rows = s # ss" by (cases "claim_order ?rows") auto
  then show ?thesis by (simp add: pq_tryClaim_def assms(1) claimed_mission_def)
qed

theorem pg_dequeue_returns_witness:
  "\<exists>db' m. pq_Dequeue ''w'' [\<lparr>cr_fault = None, cr_locked = [2], cr_now = 9, cr_clock = 9, cr_done = False, cr_others = id\<rparr>]
     sample_queue = Some (db', Inr m) \<and> mi_Status m = MsClaimed \<and> mi_ClaimedBy m = ''w''"
  by (rule pg_dequeue_returns [of _ "sample_row 1 0"]) (simp_all add: sample_queue_def sample_row_def)

end
