(* ===== verification/Worker.thy ===== *)
theory Worker
  imports ExecSpec AgentLifecycle MemoryQueue PostgresQueue
begin

text \<open>
  \<open>internal/worker/worker.go\<close>: the execution of one claimed mission, over the lifecycle writer and a
  mission queue. The queue is an interface value: a record of the operations the worker calls.
  What happens outside the control plane (workspaces, credentials, processes, output parsing) is
  given by the outcome of each such step, in the order the code takes them.
\<close>

subsection \<open>Queue, environment and state\<close>

record 'q queue_ops =
  qo_Ack :: "int \<Rightarrow> 'q \<Rightarrow> 'q \<times> unit result"
  qo_Fail :: "int \<Rightarrow> string \<Rightarrow> 'q \<Rightarrow> 'q \<times> unit result"
  qo_Status :: "int \<Rightarrow> 'q \<Rightarrow> mission_status result"

record host_result =
  hr_ResumeToken :: string
  hr_Output :: string
  hr_IsError :: bool

text \<open>The worker's own configuration: its runtimes, gateway URL and JSON text.\<close>

record worker_config =
  cf_runtimes :: "string list"
  cf_GatewayURL :: string
  cf_json :: "string option"
  cf_PVCMountPath :: string

text \<open>Resolving credentials: an error, no profile for the runtime, an error of the plan, or a plan.\<close>

datatype cred_stage = CredResolveErr error | CredNoProfile | CredPlanErr error | CredPlanned

text \<open>
  \<open>we_store\<close> says whether the two writes of the agent's row fail (the claim and the result).
  \<open>we_exits\<close> whether the agent's process ends, so that \<open>handle.Wait\<close> returns.
  \<open>we_others\<close> is what other processes do to the state while the agent runs, \<open>we_beats\<close> the
  heartbeat ticks by then, \<open>we_polls\<close> what the polls of the mission's status read and
  \<open>we_cancelled\<close> whether the worker's own context is cancelled.
\<close>

datatype store_call = SClaim | SResult

record 'w worker_env =
  we_now :: int
  we_uuid :: "nat \<Rightarrow> string"
  we_store :: "store_call \<Rightarrow> db_fault"
  we_sha :: "string \<Rightarrow> string"
  we_host :: "string \<Rightarrow> error option"
  we_config :: "worker_config option"
  we_workspace :: "string result"
  we_creds :: cred_stage
  we_stager :: bool
  we_fetch :: "string \<Rightarrow> error option"
  we_rehydrate :: "string \<Rightarrow> error option"
  we_execPlan :: "error option"
  we_agentMCP :: bool
  we_writeWorkspace :: "WorkspaceConfig \<Rightarrow> error option"
  we_taskFile :: "error option"
  we_hostEnv :: "error option"
  we_snapshot :: "error option"
  we_spawn :: "error option"
  we_exits :: bool
  we_others :: "'w \<Rightarrow> 'w"
  we_beats :: "(string \<times> int) list"
  we_polls :: "mission_status result list"
  we_details :: "event list"
  we_parse :: "host_result \<times> error option"
  we_cancelled :: bool

record 'q worker_world =
  ww_life :: lifecycle_world
  ww_queue :: 'q
  ww_events :: "event list"

record 'q worker =
  wk_Queue :: "'q queue_ops"
  wk_Lifecycle :: writer
  wk_Events :: bool

definition wk_emit :: "'q worker \<Rightarrow> event \<Rightarrow> 'q worker_world \<Rightarrow> 'q worker_world" where
  "wk_emit wk e w = (if wk_Events wk then w\<lparr>ww_events := ww_events w @ [e]\<rparr> else w)"

definition wk_event :: "event \<Rightarrow> mission \<Rightarrow> (string \<times> string) list \<Rightarrow> event" where
  "wk_event e m attrs =
     e\<lparr>ev_Category := ''agent'', ev_Task := mi_AgentTask m, ev_Resource := ''task:'' @ mi_AgentTask m, ev_MissionID := mi_ID m,
       ev_Attrs := (''mission_id'', itoa (mi_ID m)) # attrs\<rparr>"

definition queue_fail :: "'q worker \<Rightarrow> mission \<Rightarrow> string \<Rightarrow> 'q worker_world \<Rightarrow> 'q worker_world" where
  "queue_fail wk m reason w = w\<lparr>ww_queue := fst (qo_Fail (wk_Queue wk) (mi_ID m) reason (ww_queue w))\<rparr>"

subsection \<open>Failing a mission\<close>

definition no_meta :: "mission \<Rightarrow> string \<Rightarrow> LifecycleMeta" where
  "no_meta m reason = \<lparr>lm_RuntimeType = [], lm_Backend = [], lm_MissionID = mi_ID m, lm_ObjectiveID = [], lm_Reason = reason\<rparr>"

text \<open>The two terminal states \<open>failMission\<close> is called with; an error of the transition is only logged.\<close>

definition transitionWorkerToTerminal ::
    "'q worker \<Rightarrow> 'q worker_world worker_env \<Rightarrow> mission \<Rightarrow> agent_status \<Rightarrow> string \<Rightarrow> lifecycle_world \<Rightarrow> lifecycle_world" where
  "transitionWorkerToTerminal wk env m status reason lw =
     (if status = AgStopped
      then fst (MarkStopped (wk_Lifecycle wk) (we_store env SResult) (we_uuid env 1) (we_now env) (mi_AgentTask m) (no_meta m reason) lw)
      else fst (MarkFailed (wk_Lifecycle wk) (we_store env SResult) (we_uuid env 1) (we_now env) (mi_AgentTask m)
                  \<lparr>rm_LifecycleMeta = no_meta m reason, rm_LastOutput = reason, rm_ResumeToken = []\<rparr> lw))"

definition failMission ::
    "'q worker \<Rightarrow> 'q worker_world worker_env \<Rightarrow> mission \<Rightarrow> agent_status \<Rightarrow> string \<Rightarrow> 'q worker_world \<Rightarrow> 'q worker_world" where
  "failMission wk env m status reason w =
     (let detail = take 512 reason;
          w1 = wk_emit wk ((wk_event (Warn (we_uuid env 2) (we_now env) ''worker'' ''fail'' detail) m [(''reason'', detail)])
                           \<lparr>ev_Outcome := ''failure''\<rparr>) w;
          w2 = w1\<lparr>ww_life := transitionWorkerToTerminal wk env m status detail (ww_life w1)\<rparr>
      in queue_fail wk m reason w2)"

subsection \<open>Preparing the run\<close>

text \<open>
  A step that fails gives the reason for \<open>failMission\<close> and the error \<open>executeMission\<close> returns.
\<close>

type_synonym step_failure = "(string \<times> string) option"

definition on_err :: "error option \<Rightarrow> string \<Rightarrow> string \<Rightarrow> step_failure" where
  "on_err err reason ret = map_option (\<lambda>e. (reason @ error_string e, ret @ error_string e)) err"

fun first_failure :: "step_failure list \<Rightarrow> step_failure" where
  "first_failure [] = None"
| "first_failure (None # xs) = first_failure xs"
| "first_failure (Some f # xs) = Some f"

definition host_checks :: "'w worker_env \<Rightarrow> ExecutionSpec \<Rightarrow> step_failure list" where
  "host_checks env spec =
     (let rt = sr_RuntimeType (es_Resolution spec)
      in [case we_host env rt of
            None \<Rightarrow> None
          | Some e \<Rightarrow> Some (''unknown host type '' @ quote rt, ''resolve host: '' @ error_string e),
          case we_config env of
            None \<Rightarrow> None
          | Some cfg \<Rightarrow> if rt \<in> set (cf_runtimes cfg) then None
                       else Some (''host type '' @ quote rt @ '' not configured on this worker'', ''host '' @ quote rt @ '' not in worker config'')])"

fun staged_checks :: "'w worker_env \<Rightarrow> (string \<times> string) list \<Rightarrow> step_failure list" where
  "staged_checks env [] = []"
| "staged_checks env ((source, ref) # rest) =
     on_err (we_fetch env ref) (''fetch staged credential '' @ quote source @ '': '') (''fetch staged credential '' @ quote source @ '': '')
     # on_err (we_rehydrate env source) (''rehydrate credential '' @ quote source @ '': '') (''rehydrate credential '' @ quote source @ '': '')
     # staged_checks env rest"

definition cred_checks :: "'w worker_env \<Rightarrow> ExecutionSpec \<Rightarrow> step_failure list" where
  "cred_checks env spec =
     (let refs = (case es_Credentials spec of None \<Rightarrow> [] | Some r \<Rightarrow> r)
      in case we_config env of
           None \<Rightarrow> []
         | Some cfg \<Rightarrow>
             (case we_creds env of
                CredResolveErr e \<Rightarrow>
                  [Some (''resolve credentials for workspace: '' @ error_string e, ''resolve credential profile for workspace: '' @ error_string e)]
              | CredNoProfile \<Rightarrow> []
              | CredPlanErr e \<Rightarrow> [Some (''build credential plan: '' @ error_string e, ''build credential plan: '' @ error_string e)]
              | CredPlanned \<Rightarrow>
                  (if refs \<noteq> [] \<and> \<not> we_stager env
                   then [Some (''mission has staged credential refs but no stager configured; set control_plane_api.url in worker config for split-deployment mode'',
                               ''staged credential refs without stager'')]
                   else staged_checks env refs)
                  @ [on_err (we_execPlan env) ''execute credential plan: '' ''execute credential plan: '']))"

text \<open>
  The workspace configuration the worker builds. It resolves a gateway URL with a fallback to its
  own configuration, but only logs it: the workspace gets the one of the specification.
\<close>

definition effective_gatewayURL :: "'w worker_env \<Rightarrow> ExecutionSpec \<Rightarrow> string" where
  "effective_gatewayURL env spec =
     (let url = st_GatewayURL (es_Topology spec)
      in if url = [] then (case we_config env of None \<Rightarrow> [] | Some cfg \<Rightarrow> cf_GatewayURL cfg) else url)"

definition worker_workspace :: "'w worker_env \<Rightarrow> mission \<Rightarrow> ExecutionSpec \<Rightarrow> string \<Rightarrow> WorkspaceConfig" where
  "worker_workspace env m spec path =
     (WorkspaceConfigFromSpec spec (we_agentMCP env))
     \<lparr>wc_ProjectRoot := path,
      wc_RuntimeWorkDir :=
        (case we_config env of
           None \<Rightarrow> path
         | Some cfg \<Rightarrow>
             if st_Backend (es_Topology spec) = ''kubernetes''
             then (if cf_PVCMountPath cfg = [] then ''/workspace'' else cf_PVCMountPath cfg) @ ''/agents/'' @ mi_AgentTask m
             else path)\<rparr>"

definition workspace_checks :: "'w worker_env \<Rightarrow> mission \<Rightarrow> ExecutionSpec \<Rightarrow> step_failure list" where
  "workspace_checks env m spec =
     (case we_workspace env of
        Inl e \<Rightarrow> [on_err (Some e) ''workspace create: '' ''create workspace: '']
      | Inr path \<Rightarrow>
          cred_checks env spec
          @ [on_err (we_writeWorkspace env (worker_workspace env m spec path)) ''write workspace: '' ''write workspace: '',
             on_err (we_taskFile env) ''write task file: '' ''write task file: ''])"

definition spawn_checks :: "'w worker_env \<Rightarrow> ExecutionSpec \<Rightarrow> step_failure list" where
  "spawn_checks env spec =
     (case we_config env of
        None \<Rightarrow> []
      | Some cfg \<Rightarrow>
          if sr_RuntimeType (es_Resolution spec) \<in> set (cf_runtimes cfg)
          then [on_err (we_hostEnv env) ''build host env: '' ''build host env: ''] else [])
     @ (if st_Backend (es_Topology spec) = ''kubernetes'' \<and> we_config env \<noteq> None
        then [on_err (we_snapshot env) ''config snapshot: '' ''build config snapshot: ''] else [])
     @ [on_err (we_spawn env) ''spawn: '' ''backend spawn: '']"

definition worker_configHash :: "'w worker_env \<Rightarrow> string" where
  "worker_configHash env =
     (case we_config env of
        None \<Rightarrow> []
      | Some cfg \<Rightarrow> (case cf_json cfg of None \<Rightarrow> [] | Some j \<Rightarrow> we_sha env j))"

text \<open>The skew diagnostic: nothing, an event, or a panic when a hash is too short to be cut.\<close>

definition config_skew :: "'w worker_env \<Rightarrow> mission \<Rightarrow> ExecutionSpec \<Rightarrow> event option run" where
  "config_skew env m spec =
     (let orch = st_ConfigHash (es_Topology spec); own = worker_configHash env
      in if we_config env = None \<or> orch = [] \<or> own = [] \<or> own = orch then Returns None
         else if length orch < 8 \<or> length own < 8 then Panics
         else Returns (Some ((wk_event (Warn (we_uuid env 3) (we_now env) ''worker'' ''config_skew''
                (''orchestrator='' @ take 8 orch @ '' worker='' @ take 8 own)) m
                [(''orchestrator_hash'', orch), (''worker_hash'', own)])\<lparr>ev_Category := ''queue''\<rparr>)))"

subsection \<open>After the run\<close>

definition result_meta :: "mission \<Rightarrow> ExecutionSpec \<Rightarrow> string \<Rightarrow> string \<Rightarrow> ResultMeta" where
  "result_meta m spec out token =
     \<lparr>rm_LifecycleMeta = \<lparr>lm_RuntimeType = sr_RuntimeType (es_Resolution spec), lm_Backend = [], lm_MissionID = mi_ID m,
        lm_ObjectiveID = [], lm_Reason = []\<rparr>, rm_LastOutput = out, rm_ResumeToken = token\<rparr>"

text \<open>The goroutine that polls the mission's status: whether it cancels the mission's context.\<close>

fun monitorCancellation :: "mission_status result list \<Rightarrow> bool" where
  "monitorCancellation [] = False"
| "monitorCancellation (s # polls) = (if s = Inr MsCancelled then True else monitorCancellation polls)"

definition mission_cancelled :: "'w worker_env \<Rightarrow> bool" where
  "mission_cancelled env \<longleftrightarrow> we_cancelled env \<or> monitorCancellation (we_polls env)"

definition heartbeat_event :: "string \<Rightarrow> int \<Rightarrow> mission \<Rightarrow> string \<Rightarrow> int \<Rightarrow> event" where
  "heartbeat_event uuid now m runtime uptime =
     zero_event\<lparr>ev_ID := uuid, ev_Time := now, ev_Severity := ''debug'', ev_Component := ''worker'', ev_Category := ''agent_activity'',
       ev_Action := ''heartbeat'', ev_Task := mi_AgentTask m, ev_MissionID := mi_ID m,
       ev_Attrs := [(''runtime'', runtime), (''phase'', ''executing''), (''uptime_s'', itoa uptime)]\<rparr>"

definition emitHeartbeats :: "'q worker \<Rightarrow> mission \<Rightarrow> string \<Rightarrow> int \<Rightarrow> (string \<times> int) list \<Rightarrow> 'q worker_world \<Rightarrow> 'q worker_world" where
  "emitHeartbeats wk m runtime started beats w =
     fold (\<lambda>(uuid, t). wk_emit wk (heartbeat_event uuid t m runtime ((t - started) div second_ns))) beats w"

definition settle_mission ::
    "'q worker \<Rightarrow> 'q worker_world worker_env \<Rightarrow> mission \<Rightarrow> bool \<Rightarrow> string \<Rightarrow> 'q worker_world \<Rightarrow> 'q worker_world" where
  "settle_mission wk env m completed out w =
     (if completed
      then (let w1 = wk_emit wk ((wk_event (Info (we_uuid env 4) (we_now env) ''worker'' ''complete'') m [])\<lparr>ev_Outcome := ''success''\<rparr>) w
            in w1\<lparr>ww_queue := fst (qo_Ack (wk_Queue wk) (mi_ID m) (ww_queue w1))\<rparr>)
      else (let reason = take 500 out;
                w1 = wk_emit wk ((wk_event (Warn (we_uuid env 4) (we_now env) ''worker'' ''fail'' reason) m [])\<lparr>ev_Outcome := ''failure''\<rparr>) w
            in queue_fail wk m reason w1))"

definition finish_run ::
    "'q worker \<Rightarrow> 'q worker_world worker_env \<Rightarrow> mission \<Rightarrow> ExecutionSpec \<Rightarrow> 'q worker_world \<Rightarrow> 'q worker_world \<times> unit result" where
  "finish_run wk env m spec w =
     (case we_parse env of
        (res, parseErr) \<Rightarrow>
          if parseErr \<noteq> None \<and> mission_cancelled env
          then (failMission wk env m AgStopped ''cancelled during execution''
                  (wk_emit wk (wk_event (Info (we_uuid env 5) (we_now env) ''worker'' ''cancel'') m []) w),
                Inl (ErrMsg ''mission cancelled during execution''))
          else
            let completed = (parseErr = None \<and> \<not> hr_IsError res);
                out = (case parseErr of None \<Rightarrow> hr_Output res | Some e \<Rightarrow> ''parse error: '' @ error_string e);
                meta = result_meta m spec out (hr_ResumeToken res)
            in case (if completed
                     then MarkCompleted (wk_Lifecycle wk) (we_store env SResult) (we_uuid env 1) (we_now env) (mi_AgentTask m) meta (ww_life w)
                     else MarkFailed (wk_Lifecycle wk) (we_store env SResult) (we_uuid env 1) (we_now env) (mi_AgentTask m) meta (ww_life w)) of
                 (lw, r) \<Rightarrow>
                   if r = Inl ErrTransitionSkipped
                   then (queue_fail wk m ''agent already terminal'' (w\<lparr>ww_life := lw\<rparr>), Inr ())
                   else (settle_mission wk env m completed out (w\<lparr>ww_life := lw\<rparr>), Inr ()))"

definition emit_details :: "'q worker \<Rightarrow> mission \<Rightarrow> event list \<Rightarrow> 'q worker_world \<Rightarrow> 'q worker_world" where
  "emit_details wk m evs w = fold (\<lambda>e. wk_emit wk (e\<lparr>ev_MissionID := mi_ID m\<rparr>)) evs w"

subsection \<open>\<open>executeMission\<close>\<close>

definition run_agent ::
    "'q worker \<Rightarrow> 'q worker_world worker_env \<Rightarrow> mission \<Rightarrow> ExecutionSpec \<Rightarrow> 'q worker_world \<Rightarrow> ('q worker_world \<times> unit result) run" where
  "run_agent wk env m spec w =
     (case first_failure (workspace_checks env m spec) of
        Some (reason, ret) \<Rightarrow> Returns (failMission wk env m AgFailed reason w, Inl (ErrMsg ret))
      | None \<Rightarrow>
          let w1 = wk_emit wk (wk_event (Info (we_uuid env 6) (we_now env) ''worker'' ''execute'') m
                     [(''model'', sr_Model (es_Resolution spec)), (''runtime'', sr_RuntimeType (es_Resolution spec))]) w
          in case first_failure (spawn_checks env spec) of
               Some (reason, ret) \<Rightarrow> Returns (failMission wk env m AgFailed reason w1, Inl (ErrMsg ret))
             | None \<Rightarrow>
                 if \<not> we_exits env then Blocks
                 else let w2 = emitHeartbeats wk m (sr_RuntimeType (es_Resolution spec)) (we_now env) (we_beats env) (we_others env w1)
                      in Returns (finish_run wk env m spec (emit_details wk m (we_details env) w2)))"

definition prepare_mission ::
    "'q worker \<Rightarrow> 'q worker_world worker_env \<Rightarrow> mission \<Rightarrow> ExecutionSpec \<Rightarrow> 'q worker_world \<Rightarrow> ('q worker_world \<times> unit result) run" where
  "prepare_mission wk env m spec w =
     (let w1 = wk_emit wk (wk_event (Info (we_uuid env 7) (we_now env) ''worker'' ''claim'') m
                 [(''runtime'', sr_RuntimeType (es_Resolution spec))]) w
      in if qo_Status (wk_Queue wk) (mi_ID m) (ww_queue w1) = Inr MsCancelled
         then Returns (failMission wk env m AgStopped ''cancelled before execution'' w1, Inl (ErrMsg ''mission cancelled before execution''))
         else case first_failure (host_checks env spec) of
                Some (reason, ret) \<Rightarrow> Returns (failMission wk env m AgFailed reason w1, Inl (ErrMsg ret))
              | None \<Rightarrow>
                  (case config_skew env m spec of
                     Returns skew \<Rightarrow> run_agent wk env m spec (case skew of None \<Rightarrow> w1 | Some e \<Rightarrow> wk_emit wk e w1)
                   | Blocks \<Rightarrow> Blocks
                   | Panics \<Rightarrow> Panics))"

definition executeMission ::
    "'q worker \<Rightarrow> 'q worker_world worker_env \<Rightarrow> mission \<Rightarrow> 'q worker_world \<Rightarrow> ('q worker_world \<times> unit result) run" where
  "executeMission wk env m w =
     (case ClaimQueuedAgent (wk_Lifecycle wk) (we_store env SClaim) (we_uuid env 0) (we_now env) (we_now env) (mi_AgentTask m)
             (no_meta m []) (ww_life w) of
        (lw, Inl err) \<Rightarrow>
          (let w1 = w\<lparr>ww_life := lw\<rparr>
           in if err = ErrTransitionSkipped
              then Returns (queue_fail wk m ''agent not claimable (not in Queued state)'' w1, Inl (ErrMsg ''claim agent: agent not claimable''))
              else Returns (queue_fail wk m (''claim agent failed: '' @ error_string err) w1, Inl (ErrMsg (''claim agent: '' @ error_string err))))
      | (lw, Inr _) \<Rightarrow>
          (let w1 = w\<lparr>ww_life := lw\<rparr>
           in case payload_unmarshal (mi_Payload m) of
                Inl err \<Rightarrow> Returns (failMission wk env m AgFailed (''invalid payload: '' @ error_string err) w1,
                             Inl (ErrMsg (''unmarshal payload: '' @ error_string err)))
              | Inr payload \<Rightarrow>
                  let payload1 = payload\<lparr>mp_MissionID := mi_ID m,
                        mp_ObjectiveID := (if mp_ObjectiveID payload = [] \<and> mi_ObjectiveID m \<noteq> [] then mi_ObjectiveID m else mp_ObjectiveID payload)\<rparr>
                  in prepare_mission wk env m (ExecutionSpecFromPayload payload1) w1))"

subsection \<open>The loop\<close>

text \<open>
  One round of \<open>Run\<close>: the call of \<open>Dequeue\<close> (\<open>None\<close> while it waits), the context's error when it fails
  and after the pause that follows, and the environment of the execution. With no rounds left the
  loop is still running: no error is returned yet.
\<close>

record 'q worker_round =
  rn_Dequeue :: "'q \<Rightarrow> ('q \<times> mission result) option"
  rn_ctxErr :: "error option"
  rn_pauseErr :: "error option"
  rn_env :: "'q worker_world worker_env"

fun worker_Run :: "'q worker \<Rightarrow> 'q worker_round list \<Rightarrow> 'q worker_world \<Rightarrow> ('q worker_world \<times> error option) run" where
  "worker_Run wk [] w = Returns (w, None)"
| "worker_Run wk (rd # rds) w =
     (case rn_Dequeue rd (ww_queue w) of
        None \<Rightarrow> Blocks
      | Some (q, Inl err) \<Rightarrow>
          (case rn_ctxErr rd of
             Some e \<Rightarrow> Returns (w\<lparr>ww_queue := q\<rparr>, Some e)
           | None \<Rightarrow>
               (case rn_pauseErr rd of
                  Some e \<Rightarrow> Returns (w\<lparr>ww_queue := q\<rparr>, Some e)
                | None \<Rightarrow> worker_Run wk rds (w\<lparr>ww_queue := q\<rparr>)))
      | Some (q, Inr m) \<Rightarrow>
          (case executeMission wk (rn_env rd) m (w\<lparr>ww_queue := q\<rparr>) of
             Returns (w', r) \<Rightarrow> worker_Run wk rds w'
           | Blocks \<Rightarrow> Blocks
           | Panics \<Rightarrow> Panics))"

subsection \<open>What the worker does to the agent\<close>

abbreviation agent_steps :: "'q worker \<Rightarrow> lifecycle_world \<Rightarrow> lifecycle_world \<Rightarrow> bool" where
  "agent_steps wk \<equiv> (lifecycle_step (wk_Lifecycle wk))\<^sup>*\<^sup>*"

lemma emit_frame [simp]:
  "ww_life (wk_emit wk e w) = ww_life w" "ww_queue (wk_emit wk e w) = ww_queue w"
  by (simp_all add: wk_emit_def)

lemma details_frame [simp]:
  "ww_life (emit_details wk m evs w) = ww_life w" "ww_queue (emit_details wk m evs w) = ww_queue w"
  by (induction evs arbitrary: w) (simp_all add: emit_details_def)

lemma beats_frame [simp]:
  "ww_life (emitHeartbeats wk m rt t bs w) = ww_life w" "ww_queue (emitHeartbeats wk m rt t bs w) = ww_queue w"
  by (induction bs arbitrary: w) (auto simp: emitHeartbeats_def)

lemma queue_fail_frame [simp]:
  "ww_life (queue_fail wk m reason w) = ww_life w"
  "ww_queue (queue_fail wk m reason w) = fst (qo_Fail (wk_Queue wk) (mi_ID m) reason (ww_queue w))"
  by (simp_all add: queue_fail_def)

lemma failMission_frame [simp]:
  "ww_life (failMission wk env m st reason w) = transitionWorkerToTerminal wk env m st (take 512 reason) (ww_life w)"
  "ww_queue (failMission wk env m st reason w) = fst (qo_Fail (wk_Queue wk) (mi_ID m) reason (ww_queue w))"
  by (simp_all add: failMission_def Let_def)

lemma settle_frame [simp]:
  "ww_life (settle_mission wk env m c out w) = ww_life w"
  "ww_queue (settle_mission wk env m c out w) =
     (if c then fst (qo_Ack (wk_Queue wk) (mi_ID m) (ww_queue w)) else fst (qo_Fail (wk_Queue wk) (mi_ID m) (take 500 out) (ww_queue w)))"
  by (simp_all add: settle_mission_def Let_def)

lemma transition_step: "lifecycle_step (wk_Lifecycle wk) lw (transitionWorkerToTerminal wk env m st reason lw)"
  by (auto simp: transitionWorkerToTerminal_def intro: ls_stop ls_fail prod.collapse [symmetric])

lemma finish_cases:
  assumes "finish_run wk env m spec w = (w', r)"
  obtains (failed) why st reason where "ww_queue w' = fst (qo_Fail (wk_Queue wk) (mi_ID m) why (ww_queue w))"
      "ww_life w' = transitionWorkerToTerminal wk env m st reason (ww_life w)"
  | (marked) why lw where "ww_queue w' = fst (qo_Fail (wk_Queue wk) (mi_ID m) why (ww_queue w))" "ww_life w' = lw"
      "lifecycle_step (wk_Lifecycle wk) (ww_life w) lw"
  | (completed) lw r' where "ww_queue w' = fst (qo_Ack (wk_Queue wk) (mi_ID m) (ww_queue w))" "ww_life w' = lw"
      "MarkCompleted (wk_Lifecycle wk) (we_store env SResult) (we_uuid env 1) (we_now env) (mi_AgentTask m)
         (result_meta m spec (hr_Output (fst (we_parse env))) (hr_ResumeToken (fst (we_parse env)))) (ww_life w) = (lw, r')"
      "r' \<noteq> Inl ErrTransitionSkipped"
proof -
  obtain res parseErr where p: "we_parse env = (res, parseErr)" by fastforce
  let ?out = "case parseErr of None \<Rightarrow> hr_Output res | Some e \<Rightarrow> ''parse error: '' @ error_string e"
  let ?meta = "result_meta m spec ?out (hr_ResumeToken res)"
  let ?c = "parseErr = None \<and> \<not> hr_IsError res"
  let ?mark = "if ?c then MarkCompleted (wk_Lifecycle wk) (we_store env SResult) (we_uuid env 1) (we_now env) (mi_AgentTask m) ?meta (ww_life w)
     else MarkFailed (wk_Lifecycle wk) (we_store env SResult) (we_uuid env 1) (we_now env) (mi_AgentTask m) ?meta (ww_life w)"
  show ?thesis
  proof (cases "parseErr \<noteq> None \<and> mission_cancelled env")
    case True
    with assms p have "w' = failMission wk env m AgStopped ''cancelled during execution''
        (wk_emit wk (wk_event (Info (we_uuid env 5) (we_now env) ''worker'' ''cancel'') m []) w)"
      by (auto simp: finish_run_def)
    then show ?thesis by (intro failed) simp_all
  next
    case False
    obtain lw r' where mk: "?mark = (lw, r')" by fastforce
    have step: "lifecycle_step (wk_Lifecycle wk) (ww_life w) lw"
      using mk by (auto split: if_splits intro: ls_complete ls_fail)
    have w': "w' = (if r' = Inl ErrTransitionSkipped then queue_fail wk m ''agent already terminal'' (w\<lparr>ww_life := lw\<rparr>)
        else settle_mission wk env m ?c ?out (w\<lparr>ww_life := lw\<rparr>))"
      using assms False mk unfolding finish_run_def p Let_def by (auto split: if_splits)
    show ?thesis
    proof (cases "?c \<and> r' \<noteq> Inl ErrTransitionSkipped")
      case True
      with w' mk p show ?thesis by (intro completed [of lw r']) auto
    next
      case False
      then have "\<exists>why. ww_queue w' = fst (qo_Fail (wk_Queue wk) (mi_ID m) why (ww_queue w))" "ww_life w' = lw"
        by (cases "r' = Inl ErrTransitionSkipped"; simp add: w'; blast)+
      with step show ?thesis using marked by blast
    qed
  qed
qed

lemma executeMission_cases:
  assumes "executeMission wk env m w = Returns (w', r)"
  obtains (unclaimed) why lw err where "ww_queue w' = fst (qo_Fail (wk_Queue wk) (mi_ID m) why (ww_queue w))" "ww_life w' = lw"
      "ClaimQueuedAgent (wk_Lifecycle wk) (we_store env SClaim) (we_uuid env 0) (we_now env) (we_now env) (mi_AgentTask m)
         (no_meta m []) (ww_life w) = (lw, Inl err)"
  | (failed) why st reason lw where "ww_queue w' = fst (qo_Fail (wk_Queue wk) (mi_ID m) why (ww_queue w))"
      "ww_life w' = transitionWorkerToTerminal wk env m st reason lw"
      "ClaimQueuedAgent (wk_Lifecycle wk) (we_store env SClaim) (we_uuid env 0) (we_now env) (we_now env) (mi_AgentTask m)
         (no_meta m []) (ww_life w) = (lw, Inr ())"
  | (ran) lw w1 spec where "ww_life w1 = lw" "ww_queue w1 = ww_queue w"
      "ClaimQueuedAgent (wk_Lifecycle wk) (we_store env SClaim) (we_uuid env 0) (we_now env) (we_now env) (mi_AgentTask m)
         (no_meta m []) (ww_life w) = (lw, Inr ())"
      "finish_run wk env m spec (emit_details wk m (we_details env)
         (emitHeartbeats wk m (sr_RuntimeType (es_Resolution spec)) (we_now env) (we_beats env) (we_others env w1))) = (w', r)"
proof -
  obtain lw c where claim: "ClaimQueuedAgent (wk_Lifecycle wk) (we_store env SClaim) (we_uuid env 0) (we_now env) (we_now env)
      (mi_AgentTask m) (no_meta m []) (ww_life w) = (lw, c)" by fastforce
  show ?thesis
  proof (cases c)
    case (Inl err)
    then have "\<exists>why. w' = queue_fail wk m why (w\<lparr>ww_life := lw\<rparr>)"
      using assms claim by (auto simp: executeMission_def Let_def split: if_splits)
    then obtain why where "w' = queue_fail wk m why (w\<lparr>ww_life := lw\<rparr>)" by blast
    then show ?thesis using unclaimed [of why lw err] claim Inl by simp
  next
    case (Inr u)
    let ?w1 = "w\<lparr>ww_life := lw\<rparr>"
    have fails: thesis if "w' = failMission wk env m st reason w2" "ww_life w2 = lw" "ww_queue w2 = ww_queue w" for st reason w2
      using failed [of reason st "take 512 reason" lw] that claim Inr by simp
    show ?thesis
    proof (cases "payload_unmarshal (mi_Payload m)")
      case (Inl err)
      then have "w' = failMission wk env m AgFailed (''invalid payload: '' @ error_string err) ?w1"
        using assms claim \<open>c = Inr u\<close> by (simp add: executeMission_def Let_def)
      then show ?thesis by (rule fails) simp_all
    next
      case (Inr payload)
      then obtain spec where ex: "prepare_mission wk env m spec ?w1 = Returns (w', r)"
        using assms claim \<open>c = Inr u\<close> by (auto simp: executeMission_def Let_def)
      let ?w2 = "wk_emit wk (wk_event (Info (we_uuid env 7) (we_now env) ''worker'' ''claim'') m
                 [(''runtime'', sr_RuntimeType (es_Resolution spec))]) ?w1"
      have "(\<exists>st reason. w' = failMission wk env m st reason ?w2) \<or>
          (\<exists>w3. run_agent wk env m spec w3 = Returns (w', r) \<and> ww_life w3 = lw \<and> ww_queue w3 = ww_queue w)"
        using ex unfolding prepare_mission_def Let_def
        by (auto split: if_splits option.splits run.splits)
      then show ?thesis
      proof (elim disjE exE conjE)
        fix st reason
        assume "w' = failMission wk env m st reason ?w2"
        then show thesis by (rule fails) simp_all
      next
        fix w3
        assume r3: "run_agent wk env m spec w3 = Returns (w', r)" "ww_life w3 = lw" "ww_queue w3 = ww_queue w"
        let ?w4 = "wk_emit wk (wk_event (Info (we_uuid env 6) (we_now env) ''worker'' ''execute'') m
                     [(''model'', sr_Model (es_Resolution spec)), (''runtime'', sr_RuntimeType (es_Resolution spec))]) w3"
        have "(\<exists>reason w5. w' = failMission wk env m AgFailed reason w5 \<and> w5 \<in> {w3, ?w4}) \<or>
            finish_run wk env m spec (emit_details wk m (we_details env)
              (emitHeartbeats wk m (sr_RuntimeType (es_Resolution spec)) (we_now env) (we_beats env) (we_others env ?w4))) = (w', r)"
          using r3(1) by (auto simp: run_agent_def Let_def split: option.splits prod.splits if_splits)
        then show thesis
        proof (elim disjE exE conjE)
          fix reason w5
          assume "w' = failMission wk env m AgFailed reason w5" "w5 \<in> {w3, ?w4}"
          then show thesis using r3 by (intro fails [of AgFailed reason w5]) auto
        next
          assume "finish_run wk env m spec (emit_details wk m (we_details env)
              (emitHeartbeats wk m (sr_RuntimeType (es_Resolution spec)) (we_now env) (we_beats env) (we_others env ?w4))) = (w', r)"
          then show thesis using ran [of ?w4 lw spec] r3 claim \<open>c = Inr u\<close> by simp
        qed
      qed
    qed
  qed
qed

subsection \<open>What the worker relies on\<close>

text \<open>
  The part of a mission queue the worker uses: failing or acknowledging a mission it has claimed,
  or that was cancelled since, takes it out of the claimed state for good. While an agent runs,
  other processes keep the queue in order and leave the claimed mission claimed, or cancel it.
\<close>

locale worker_queue =
  fixes ops :: "'q queue_ops"
    and ok :: "'q \<Rightarrow> bool"
    and status :: "'q \<Rightarrow> int \<Rightarrow> mission_status option"
  assumes fail_settles: "ok q \<Longrightarrow> status q i \<in> {Some MsClaimed, Some MsCancelled} \<Longrightarrow> qo_Fail ops i why q = (q', r) \<Longrightarrow>
      ok q' \<and> status q' i \<in> {Some MsFailed, Some MsCancelled}"
    and ack_settles: "ok q \<Longrightarrow> status q i \<in> {Some MsClaimed, Some MsCancelled} \<Longrightarrow> qo_Ack ops i q = (q', r) \<Longrightarrow>
      ok q' \<and> status q' i \<in> {Some MsCompleted, Some MsCancelled}"
begin

abbreviation held :: "'q worker_world \<Rightarrow> int \<Rightarrow> bool" where
  "held w i \<equiv> ok (ww_queue w) \<and> status (ww_queue w) i \<in> {Some MsClaimed, Some MsCancelled}"

lemma fail_not_completed:
  "held w i \<Longrightarrow> status (fst (qo_Fail ops i why (ww_queue w))) i \<in> {Some MsFailed, Some MsCancelled}"
  using fail_settles [of "ww_queue w" i why] by (metis prod.collapse)

lemma ack_settled:
  "held w i \<Longrightarrow> status (fst (qo_Ack ops i (ww_queue w))) i \<in> {Some MsCompleted, Some MsCancelled}"
  using ack_settles [of "ww_queue w" i] by (metis prod.collapse)

text \<open>
  Whatever happens, the mission is not left claimed; if it is completed and the write of the
  result does not fail, the agent is.
\<close>

lemma executes_to_end:
  assumes ops: "wk_Queue wk = ops" and held: "held w (mi_ID m)"
    and others: "\<And>v. held v (mi_ID m) \<Longrightarrow> held (we_others env v) (mi_ID m)"
    and dbs: "db_ok (lw_db (ww_life w))" "\<And>v. db_ok (lw_db (ww_life v)) \<Longrightarrow> db_ok (lw_db (ww_life (we_others env v)))"
    and ex: "executeMission wk env m w = Returns (w', r)"
  shows "status (ww_queue w') (mi_ID m) \<in> {Some MsCompleted, Some MsFailed, Some MsCancelled} \<and>
    (status (ww_queue w') (mi_ID m) = Some MsCompleted \<and> we_store env SResult = None \<longrightarrow>
      (\<exists>a. ag_look (lw_db (ww_life w')) (mi_AgentTask m) = Some a \<and> ag_Status a = AgCompleted \<and>
         ag_LastOutput a = hr_Output (fst (we_parse env))))"
  using ex
proof (cases rule: executeMission_cases)
  case (unclaimed why lw err)
  then show ?thesis using fail_not_completed [OF held, of why] ops by auto
next
  case (failed why st reason lw)
  then show ?thesis using fail_not_completed [OF held, of why] ops by auto
next
  case (ran lw w1 spec)
  let ?v = "emit_details wk m (we_details env)
    (emitHeartbeats wk m (sr_RuntimeType (es_Resolution spec)) (we_now env) (we_beats env) (we_others env w1))"
  have h: "held ?v (mi_ID m)" using others [of w1] held ran(2) by simp
  have "db_ok (lw_db lw)"
    using ClaimQueuedAgent_moves [OF dbs(1) ran(3)] by (simp add: moves_def)
  then have d: "db_ok (lw_db (ww_life ?v))" using dbs(2) [of w1] ran(1) by simp
  from ran(4) show ?thesis
  proof (cases rule: finish_cases)
    case (failed why st reason)
    then show ?thesis using fail_not_completed [OF h, of why] ops by auto
  next
    case (marked why lw)
    then show ?thesis using fail_not_completed [OF h, of why] ops by auto
  next
    case (completed lw' r')
    let ?out = "hr_Output (fst (we_parse env))" and ?tok = "hr_ResumeToken (fst (we_parse env))"
    obtain db r2 where u: "UpdateAgentResultIf None (mi_AgentTask m) [AgRunning, AgIdle] AgCompleted ?out ?tok (lw_db (ww_life ?v)) = (db, r2)"
      by fastforce
    have stored: "\<exists>a. ag_look (lw_db (ww_life w')) (mi_AgentTask m) = Some a \<and> ag_Status a = AgCompleted \<and> ag_LastOutput a = ?out"
      if store: "we_store env SResult = None"
    proof -
      have r2: "r2 = Inr True" "lw_db lw' = db"
        using completed(3,4) u store by (auto simp: MarkCompleted_def result_meta_def UpdateAgentResultIf_def Let_def split: sum.splits if_splits)
      from result_if_effect [OF d _ u] r2 obtain a where
        "ag_look db = (ag_look (lw_db (ww_life ?v)))(mi_AgentTask m \<mapsto> set_result AgCompleted ?out ?tok a)" by auto
      then show "\<exists>a. ag_look (lw_db (ww_life w')) (mi_AgentTask m) = Some a \<and> ag_Status a = AgCompleted \<and> ag_LastOutput a = ?out"
        using completed(2) r2(2) by (simp add: set_result_def)
    qed
    then show ?thesis using ack_settled [OF h] completed(1) ops by auto
  qed
qed

end

text \<open>
  With a queue that hands out missions as claimed: what a worker runs is the only thing claimed,
  so between rounds nothing is (as far as other processes claim nothing either).
\<close>

locale worker_source = worker_queue ops ok status
  for ops :: "'q queue_ops" and ok and status +
  fixes deq :: "'d \<Rightarrow> 'q \<Rightarrow> ('q \<times> mission result) option"
  assumes deq_claims: "ok q \<Longrightarrow> deq d q = Some (q', Inr m) \<Longrightarrow> ok q' \<and> status q' = (status q)(mi_ID m \<mapsto> MsClaimed)"
    and deq_fails: "ok q \<Longrightarrow> deq d q = Some (q', Inl e) \<Longrightarrow> ok q' \<and> status q' = status q"
    and fail_only: "ok q \<Longrightarrow> qo_Fail ops i why q = (q', r) \<Longrightarrow> j \<noteq> i \<Longrightarrow> status q' j = status q j"
    and ack_only: "ok q \<Longrightarrow> qo_Ack ops i q = (q', r) \<Longrightarrow> j \<noteq> i \<Longrightarrow> status q' j = status q j"
begin

definition unclaimed_but :: "int set \<Rightarrow> 'q \<Rightarrow> bool" where
  "unclaimed_but is q \<longleftrightarrow> ok q \<and> (\<forall>j. j \<notin> is \<longrightarrow> status q j \<noteq> Some MsClaimed)"

definition considerate :: "('q worker_world \<Rightarrow> 'q worker_world) \<Rightarrow> bool" where
  "considerate f \<longleftrightarrow> (\<forall>v i. held v i \<longrightarrow> unclaimed_but {i} (ww_queue v) \<longrightarrow> held (f v) i \<and> unclaimed_but {i} (ww_queue (f v)))"

lemma fail_unclaims:
  assumes "held v i" "unclaimed_but {i} (ww_queue v)"
  shows "unclaimed_but {} (fst (qo_Fail ops i why (ww_queue v)))"
proof -
  obtain q' r where q: "qo_Fail ops i why (ww_queue v) = (q', r)" by fastforce
  have "ok q' \<and> status q' i \<noteq> Some MsClaimed" using fail_settles [OF _ _ q] assms(1) by auto
  then show ?thesis using fail_only [OF _ q] assms unfolding q fst_conv unclaimed_but_def by (metis singletonD)
qed

lemma ack_unclaims:
  assumes "held v i" "unclaimed_but {i} (ww_queue v)"
  shows "unclaimed_but {} (fst (qo_Ack ops i (ww_queue v)))"
proof -
  obtain q' r where q: "qo_Ack ops i (ww_queue v) = (q', r)" by fastforce
  have "ok q' \<and> status q' i \<noteq> Some MsClaimed" using ack_settles [OF _ _ q] assms(1) by auto
  then show ?thesis using ack_only [OF _ q] assms unfolding q fst_conv unclaimed_but_def by (metis singletonD)
qed

lemma execute_unclaims:
  assumes "wk_Queue wk = ops" "held w (mi_ID m)" "unclaimed_but {mi_ID m} (ww_queue w)" "considerate (we_others env)"
    and ex: "executeMission wk env m w = Returns (w', r)"
  shows "unclaimed_but {} (ww_queue w')"
  using ex
proof (cases rule: executeMission_cases)
  case (ran lw w1 spec)
  have "held w1 (mi_ID m)" "unclaimed_but {mi_ID m} (ww_queue w1)" using assms(2,3) ran(2) by simp_all
  then have "held (we_others env w1) (mi_ID m) \<and> unclaimed_but {mi_ID m} (ww_queue (we_others env w1))"
    using assms(4) unfolding considerate_def by blast
  then have v: "held (we_others env w1) (mi_ID m)" "unclaimed_but {mi_ID m} (ww_queue (we_others env w1))" by simp_all
  from ran(4) show ?thesis
    by (cases rule: finish_cases) (use assms(1) in \<open>simp_all add: fail_unclaims [OF v] ack_unclaims [OF v]\<close>)
qed (use assms(1) in \<open>simp_all add: fail_unclaims [OF assms(2,3)]\<close>)

lemma run_unclaims:
  assumes "wk_Queue wk = ops" "list_all (\<lambda>rd. (\<exists>d. rn_Dequeue rd = deq d) \<and> considerate (we_others (rn_env rd))) rds"
    and "unclaimed_but {} (ww_queue w)" "worker_Run wk rds w = Returns (w', e)"
  shows "unclaimed_but {} (ww_queue w')"
  using assms(2-)
proof (induction rds arbitrary: w)
  case (Cons rd rds)
  then obtain d where d: "rn_Dequeue rd = deq d" by auto
  obtain q x where q: "deq d (ww_queue w) = Some (q, x)"
    using Cons.prems(3) d by (auto split: option.splits prod.splits)
  have ok: "ok (ww_queue w)" using Cons.prems(2) by (simp add: unclaimed_but_def)
  show ?case
  proof (cases x)
    case (Inl err)
    with deq_fails [OF ok] q Cons.prems(2) have "unclaimed_but {} q" by (simp add: unclaimed_but_def)
    then have "unclaimed_but {} (ww_queue (w\<lparr>ww_queue := q\<rparr>))" by simp
    note rest = Cons.IH [OF _ this]
    show ?thesis
    proof (cases "rn_ctxErr rd = None \<and> rn_pauseErr rd = None")
      case True
      with Cons.prems(1,3) q d Inl show ?thesis by (intro rest) simp_all
    next
      case False
      with Cons.prems(3) q d Inl \<open>unclaimed_but {} q\<close> show ?thesis by (auto split: option.splits)
    qed
  next
    case (Inr m)
    with deq_claims [OF ok] q Cons.prems(2)
    have u: "unclaimed_but {mi_ID m} q" and h: "held (w\<lparr>ww_queue := q\<rparr>) (mi_ID m)" by (auto simp: unclaimed_but_def)
    obtain w1 r where ex: "executeMission wk (rn_env rd) m (w\<lparr>ww_queue := q\<rparr>) = Returns (w1, r)"
      and rest: "worker_Run wk rds w1 = Returns (w', e)"
      using Cons.prems(3) d q Inr by (auto split: run.splits)
    have "unclaimed_but {} (ww_queue w1)" by (rule execute_unclaims [OF assms(1) h _ _ ex]) (use u Cons.prems(1) in simp_all)
    with Cons.IH [OF _ _ rest] Cons.prems(1) show ?thesis by simp
  qed
qed simp

end

definition memory_ops :: "memory_queue queue_ops" where
  "memory_ops = \<lparr>qo_Ack = mq_Ack, qo_Fail = mq_Fail, qo_Status = mq_Status\<rparr>"

definition postgres_ops :: "int \<Rightarrow> pg_db queue_ops" where
  "postgres_ops now = \<lparr>qo_Ack = pq_Ack None now, qo_Fail = pq_Fail None now, qo_Status = pq_Status None\<rparr>"

interpretation wmem: worker_queue memory_ops "\<lambda>_. True" mq_status
  by unfold_locales (auto simp: memory_ops_def mq_status_def mq_Ack_def mq_Fail_def update_conv' split: option.splits)

interpretation wpg: worker_queue "postgres_ops now" pg_ok pg_status for now
proof
  fix q i why q' r
  assume ok: "pg_ok q" and st: "pg_status q i \<in> {Some MsClaimed, Some MsCancelled}"
  note claimed = affected_claimed [OF ok, of i]
  show "pg_ok q' \<and> pg_status q' i \<in> {Some MsFailed, Some MsCancelled}" if "qo_Fail (postgres_ops now) i why q = (q', r)"
    using that st ok claimed pgq.fail_claimed [where q = q and q' = q' and i = i and why = why and now = now and r = r]
    by (cases "pg_status q i = Some MsClaimed") (auto simp: postgres_ops_def pq_Fail_def)
  show "pg_ok q' \<and> pg_status q' i \<in> {Some MsCompleted, Some MsCancelled}" if "qo_Ack (postgres_ops now) i q = (q', r)"
    using that st ok claimed pgq.ack_claimed [where q = q and q' = q' and i = i and now = now and r = r]
    by (cases "pg_status q i = Some MsClaimed") (auto simp: postgres_ops_def pq_Ack_def)
qed

lemma mq_Dequeue_Inl: "mq_ok q \<Longrightarrow> mq_Dequeue cs q = Some (q', Inl e) \<Longrightarrow> mq_ok q' \<and> mq_status q' = mq_status q"
proof (induction cs q rule: mq_Dequeue.induct)
  case (4 now cs q)
  then obtain i ch where ch: "mq_ch q = i # ch" by (cases "mq_ch q") auto
  let ?q1 = "q\<lparr>mq_ch := ch\<rparr>"
  have "mq_ok ?q1" using mq_ok_pop [OF "4.prems"(1) ch] .
  moreover have "mq_Dequeue cs ?q1 = Some (q', Inl e)"
    using "4.prems"(2) ch by (auto simp: Let_def split: option.splits if_splits)
  moreover have "map_of (mq_missions ?q1) i = None \<or> (\<exists>st. map_of (mq_missions ?q1) i = Some st \<and> mi_Status st \<noteq> MsPending)"
    using "4.prems"(2) ch by (auto simp: Let_def split: option.splits if_splits)
  ultimately show ?case using "4.IH"(1) [OF ch refl] "4.IH"(2) [OF ch refl] by fastforce
qed (auto split: if_splits)

lemma memory_only:
  "mq_Fail i why q = (q', r) \<Longrightarrow> j \<noteq> i \<Longrightarrow> mq_status q' j = mq_status q j"
  "mq_Ack i q = (q', r) \<Longrightarrow> j \<noteq> i \<Longrightarrow> mq_status q' j = mq_status q j"
  by (auto simp: mq_Fail_def mq_Ack_def mq_status_set split: option.splits)

interpretation wloop: worker_source memory_ops mq_ok mq_status mq_Dequeue
proof (unfold_locales, goal_cases)
  case (1 q i why q' r)
  then show ?case
    using wmem.fail_settles [of q i why q' r] by (auto simp: memory_ops_def mq_Fail_def mq_ID intro!: mq_ok_set split: option.splits)
next
  case (2 q i q' r)
  then show ?case
    using wmem.ack_settles [of q i q' r] by (auto simp: memory_ops_def mq_Ack_def mq_ID intro!: mq_ok_set split: option.splits)
next
  case (3 q d q' m)
  then show ?case using mq_Dequeue_Inr [of q d q' m] by blast
next
  case (4 q d q' e)
  then show ?case by (rule mq_Dequeue_Inl)
qed (auto simp: memory_ops_def memory_only)

subsection \<open>What the worker guarantees\<close>

definition hash_usable :: "string \<Rightarrow> bool" where
  "hash_usable h \<longleftrightarrow> h = [] \<or> 8 \<le> length h"

definition payload_usable :: "raw_payload \<Rightarrow> bool" where
  "payload_usable p = (case p of Malformed s \<Rightarrow> True | Encoded q \<Rightarrow> hash_usable (mp_ConfigHash q))"

lemma executeMission_returns:
  assumes "payload_usable (mi_Payload m)" "hash_usable (worker_configHash env)" "we_exits env"
  shows "\<exists>w' r. executeMission wk env m w = Returns (w', r)"
proof -
  have skew: "\<exists>e. config_skew env m spec = Returns e" if "hash_usable (st_ConfigHash (es_Topology spec))" for spec
    using that assms(2) by (auto simp: config_skew_def Let_def hash_usable_def)
  have prep: "\<exists>w' r. prepare_mission wk env m spec v = Returns (w', r)" if "hash_usable (st_ConfigHash (es_Topology spec))" for spec v
    using skew [OF that] assms(3) by (auto simp: prepare_mission_def run_agent_def Let_def split: option.splits run.splits prod.splits)
  have "hash_usable (st_ConfigHash (es_Topology (ExecutionSpecFromPayload (q\<lparr>mp_MissionID := i, mp_ObjectiveID := ob\<rparr>))))"
    if "mi_Payload m = Encoded q" for q i ob using assms(1) that by (simp add: payload_usable_def ExecutionSpecFromPayload_def)
  then show ?thesis using prep
    by (cases "mi_Payload m") (auto simp: executeMission_def Let_def split: prod.splits sum.splits)
qed

definition sample_mission :: mission where
  "sample_mission =
     \<lparr>mi_ID = 1, mi_AgentTask = ''a'', mi_Payload = Encoded sample_payload, mi_Status = MsClaimed, mi_Priority = 0, mi_CreatedAt = 0,
      mi_ClaimedBy = [], mi_ClaimedAt = None, mi_Error = [], mi_ObjectiveID = [], mi_ParentID = None, mi_Depth = 0,
      mi_DedupeKey = [], mi_ProposedBy = []\<rparr>"

definition sample_worker_world :: "memory_queue worker_world" where
  "sample_worker_world =
     \<lparr>ww_life = sample_life0, ww_queue = (NewMemoryQueue (lw_db sample_life0) 1)\<lparr>mq_missions := [(1, sample_mission)], mq_nextID := 1\<rparr>,
      ww_events = []\<rparr>"

definition sample_worker :: "memory_queue worker" where
  "sample_worker = \<lparr>wk_Queue = memory_ops, wk_Lifecycle = sample_writer, wk_Events = True\<rparr>"

definition sample_worker_env :: "memory_queue worker_world worker_env" where
  "sample_worker_env =
     \<lparr>we_now = 5, we_uuid = (\<lambda>_. []), we_store = (\<lambda>_. None), we_sha = (\<lambda>_. replicate 64 (CHR ''0'')), we_host = (\<lambda>_. None),
      we_config = None, we_workspace = Inr ''/w'', we_creds = CredNoProfile, we_stager = False, we_fetch = (\<lambda>_. None),
      we_rehydrate = (\<lambda>_. None), we_execPlan = None, we_agentMCP = True, we_writeWorkspace = (\<lambda>_. None), we_taskFile = None,
      we_hostEnv = None, we_snapshot = None, we_spawn = None, we_exits = True, we_others = id, we_beats = [], we_polls = [], we_details = [],
      we_parse = (\<lparr>hr_ResumeToken = [], hr_Output = ''done'', hr_IsError = False\<rparr>, None), we_cancelled = False\<rparr>"

text \<open>
  C21 (worker_settles_missions): a worker that has claimed a mission of the in-memory queue brings
  its execution to an end, whichever step fails, provided the agent's process ends, and then does
  not leave the mission claimed: it is completed or failed, or stays cancelled. If it is completed
  and the write of the agent's result did not fail, the agent's row says completed and has the
  output of the run. (While the agent runs, others may cancel the mission and nothing else about
  it, and keep the store in order; a configuration hash is empty or long enough to be shortened.)
\<close>

theorem worker_settles_missions:
  assumes "wk_Queue wk = memory_ops" "mq_status (ww_queue w) (mi_ID m) = Some MsClaimed" "db_ok (lw_db (ww_life w))"
    and "\<And>v. mq_status (ww_queue v) (mi_ID m) \<in> {Some MsClaimed, Some MsCancelled} \<Longrightarrow>
      mq_status (ww_queue (we_others env v)) (mi_ID m) \<in> {Some MsClaimed, Some MsCancelled}"
    and "\<And>v. db_ok (lw_db (ww_life v)) \<Longrightarrow> db_ok (lw_db (ww_life (we_others env v)))"
    and "payload_usable (mi_Payload m)" "hash_usable (worker_configHash env)" "we_exits env"
  shows "\<exists>w' r. executeMission wk env m w = Returns (w', r) \<and>
    mq_status (ww_queue w') (mi_ID m) \<in> {Some MsCompleted, Some MsFailed, Some MsCancelled} \<and>
    (mq_status (ww_queue w') (mi_ID m) = Some MsCompleted \<and> we_store env SResult = None \<longrightarrow>
      (\<exists>a. ag_look (lw_db (ww_life w')) (mi_AgentTask m) = Some a \<and> ag_Status a = AgCompleted \<and>
         ag_LastOutput a = hr_Output (fst (we_parse env))))"
proof -
  obtain w' r where ex: "executeMission wk env m w = Returns (w', r)" using executeMission_returns [OF assms(6,7,8)] by blast
  from wmem.executes_to_end [OF assms(1) _ _ assms(3,5) ex] assms(2,4) ex show ?thesis by auto
qed

theorem worker_settles_missions_witness:
  "\<exists>w' r. executeMission sample_worker sample_worker_env sample_mission sample_worker_world = Returns (w', r) \<and>
     mq_status (ww_queue w') 1 = Some MsCompleted \<and>
     (\<exists>a. ag_look (lw_db (ww_life w')) ''a'' = Some a \<and> ag_Status a = AgCompleted \<and> ag_LastOutput a = ''done'')"
proof -
  have fin: "(case executeMission sample_worker sample_worker_env sample_mission sample_worker_world of
      Returns (w', r) \<Rightarrow> mq_status (ww_queue w') 1 | _ \<Rightarrow> None) = Some MsCompleted"
    by code_simp
  have "\<exists>w' r. executeMission sample_worker sample_worker_env sample_mission sample_worker_world = Returns (w', r) \<and>
      mq_status (ww_queue w') (mi_ID sample_mission) \<in> {Some MsCompleted, Some MsFailed, Some MsCancelled} \<and>
      (mq_status (ww_queue w') (mi_ID sample_mission) = Some MsCompleted \<and> we_store sample_worker_env SResult = None \<longrightarrow>
        (\<exists>a. ag_look (lw_db (ww_life w')) (mi_AgentTask sample_mission) = Some a \<and> ag_Status a = AgCompleted \<and>
           ag_LastOutput a = hr_Output (fst (we_parse sample_worker_env))))"
    by (rule worker_settles_missions)
      (use sample_life0_ok in \<open>simp_all add: sample_worker_def sample_worker_world_def sample_worker_env_def sample_mission_def
        mq_status_def NewMemoryQueue_def payload_usable_def hash_usable_def sample_payload_def worker_configHash_def\<close>)
  with fin show ?thesis by (auto simp: sample_mission_def sample_worker_env_def)
qed

text \<open>
  When the write of the result fails, the error is only logged and the mission is acknowledged all
  the same: a completed mission whose agent is still recorded as running, without its output.
\<close>

theorem unwritten_result_acked:
  "(case executeMission sample_worker (sample_worker_env\<lparr>we_store := (\<lambda>c. if c = SResult then Some ''disk full'' else None)\<rparr>)
          sample_mission sample_worker_world of
      Returns (w', r) \<Rightarrow> (mq_status (ww_queue w') 1, map_option ag_Status (ag_look (lw_db (ww_life w')) ''a''),
        map_option ag_LastOutput (ag_look (lw_db (ww_life w')) ''a''))
    | _ \<Rightarrow> (None, None, None)) = (Some MsCompleted, Some AgRunning, Some [])"
  by code_simp

text \<open>
  What others may do while the worker runs a mission: keep the queue in order, leave that mission
  claimed or cancel it, and claim no other.
\<close>

definition polite :: "(memory_queue worker_world \<Rightarrow> memory_queue worker_world) \<Rightarrow> bool" where
  "polite f \<longleftrightarrow>
     (\<forall>v i. mq_ok (ww_queue v) \<longrightarrow> mq_status (ww_queue v) i \<in> {Some MsClaimed, Some MsCancelled} \<longrightarrow>
        (\<forall>j. j \<noteq> i \<longrightarrow> mq_status (ww_queue v) j \<noteq> Some MsClaimed) \<longrightarrow>
        mq_ok (ww_queue (f v)) \<and> mq_status (ww_queue (f v)) i \<in> {Some MsClaimed, Some MsCancelled} \<and>
        (\<forall>j. j \<noteq> i \<longrightarrow> mq_status (ww_queue (f v)) j \<noteq> Some MsClaimed))"

lemma polite_considerate: "polite f \<Longrightarrow> wloop.considerate f"
  unfolding polite_def wloop.considerate_def wloop.unclaimed_but_def by (metis singleton_iff)

definition memory_round :: "memory_queue worker_round \<Rightarrow> bool" where
  "memory_round rd \<longleftrightarrow> (\<exists>cs. rn_Dequeue rd = mq_Dequeue cs) \<and> polite (we_others (rn_env rd))"

text \<open>
  However long the worker's loop runs, and whether it ends
  with an error or goes on, no mission is left claimed between two rounds: each mission it took
  from the queue was completed, failed or cancelled.
\<close>

theorem worker_leaves_nothing_claimed:
  assumes "wk_Queue wk = memory_ops" "mq_ok (ww_queue w)" "\<And>i. mq_status (ww_queue w) i \<noteq> Some MsClaimed"
    and "list_all memory_round rds" "worker_Run wk rds w = Returns (w', e)"
  shows "mq_ok (ww_queue w') \<and> mq_status (ww_queue w') i \<noteq> Some MsClaimed"
proof -
  have "list_all (\<lambda>rd. (\<exists>d. rn_Dequeue rd = mq_Dequeue d) \<and> wloop.considerate (we_others (rn_env rd))) rds"
    using assms(4) by (auto simp: list_all_iff memory_round_def polite_considerate)
  from wloop.run_unclaims [OF assms(1) this _ assms(5)] assms(2,3) show ?thesis by (simp add: wloop.unclaimed_but_def)
qed

definition sample_round :: "memory_queue worker_round" where
  "sample_round = \<lparr>rn_Dequeue = mq_Dequeue [RecvMission 7], rn_ctxErr = None, rn_pauseErr = None, rn_env = sample_worker_env\<rparr>"

definition sample_pending_world :: "memory_queue worker_world" where
  "sample_pending_world =
     \<lparr>ww_life = sample_life0,
      ww_queue = (NewMemoryQueue (lw_db sample_life0) 1)
        \<lparr>mq_missions := [(1, sample_mission\<lparr>mi_Status := MsPending\<rparr>)], mq_nextID := 1, mq_ch := [1]\<rparr>,
      ww_events = []\<rparr>"

theorem worker_leaves_nothing_claimed_witness:
  "\<exists>w' e. worker_Run sample_worker [sample_round] sample_pending_world = Returns (w', e) \<and>
     mq_status (ww_queue w') 1 = Some MsCompleted \<and> mq_ok (ww_queue w') \<and> mq_status (ww_queue w') 1 \<noteq> Some MsClaimed"
proof -
  have "(case worker_Run sample_worker [sample_round] sample_pending_world of
      Returns (w', e) \<Rightarrow> mq_status (ww_queue w') 1 | _ \<Rightarrow> None) = Some MsCompleted"
    by code_simp
  then obtain w' e where run: "worker_Run sample_worker [sample_round] sample_pending_world = Returns (w', e)"
    and fin: "mq_status (ww_queue w') 1 = Some MsCompleted" by (auto split: run.splits)
  have "mq_ok (ww_queue w') \<and> mq_status (ww_queue w') 1 \<noteq> Some MsClaimed"
    by (rule worker_leaves_nothing_claimed [OF _ _ _ _ run])
      (auto simp: sample_worker_def sample_pending_world_def sample_round_def sample_worker_env_def memory_round_def polite_def
        mq_ok_def mq_status_def NewMemoryQueue_def sample_mission_def)
  with run fin show ?thesis by blast
qed

text \<open>A mission claimed from the PostgreSQL queue is settled in the same way.\<close>

lemma worker_settles_postgres:
  assumes "wk_Queue wk = postgres_ops now" "pg_ok (ww_queue w)" "pg_status (ww_queue w) (mi_ID m) = Some MsClaimed" "db_ok (lw_db (ww_life w))"
    and "\<And>v. pg_ok (ww_queue v) \<and> pg_status (ww_queue v) (mi_ID m) \<in> {Some MsClaimed, Some MsCancelled} \<Longrightarrow>
      pg_ok (ww_queue (we_others env v)) \<and> pg_status (ww_queue (we_others env v)) (mi_ID m) \<in> {Some MsClaimed, Some MsCancelled}"
    and "\<And>v. db_ok (lw_db (ww_life v)) \<Longrightarrow> db_ok (lw_db (ww_life (we_others env v)))"
    and "payload_usable (mi_Payload m)" "hash_usable (worker_configHash env)" "we_exits env"
  shows "\<exists>w' r. executeMission wk env m w = Returns (w', r) \<and>
    pg_status (ww_queue w') (mi_ID m) \<in> {Some MsCompleted, Some MsFailed, Some MsCancelled}"
proof -
  obtain w' r where ex: "executeMission wk env m w = Returns (w', r)" using executeMission_returns [OF assms(7,8,9)] by blast
  from wpg.executes_to_end [OF assms(1) _ _ assms(4,6) ex] assms(2,3,5) ex show ?thesis by auto
qed

text \<open>
  Everything a worker does to agents is a sequence of lifecycle
  operations, so what holds for those (finished agents stay finished, one terminal event per
  agent) holds with workers.
\<close>

theorem worker_follows_lifecycle:
  assumes "executeMission wk env m w = Returns (w', r)" "\<And>v. agent_steps wk (ww_life v) (ww_life (we_others env v))"
  shows "agent_steps wk (ww_life w) (ww_life w')"
  using assms(1)
proof (cases rule: executeMission_cases)
  case (unclaimed why lw err)
  then show ?thesis by (auto intro: ls_claim)
next
  case (failed why st reason lw)
  then have "agent_steps wk (ww_life w) lw" by (auto intro: ls_claim)
  with failed(2) transition_step show ?thesis by (metis rtranclp.rtrancl_into_rtrancl)
next
  case (ran lw w1 spec)
  then have "agent_steps wk (ww_life w) (ww_life w1)" by (auto intro: ls_claim)
  with assms(2) [of w1] have o: "agent_steps wk (ww_life w) (ww_life (we_others env w1))" by (rule rtranclp_trans [rotated])
  from ran(4) have "lifecycle_step (wk_Lifecycle wk) (ww_life (we_others env w1)) (ww_life w')"
    by (cases rule: finish_cases) (auto simp: transition_step intro: ls_complete)
  with o show ?thesis by (rule rtranclp.rtrancl_into_rtrancl)
qed

theorem worker_follows_lifecycle_witness:
  "\<exists>w' r. executeMission sample_worker sample_worker_env sample_mission sample_worker_world = Returns (w', r) \<and>
     agent_steps sample_worker sample_life0 (ww_life w')"
proof -
  have "\<exists>w' r. executeMission sample_worker sample_worker_env sample_mission sample_worker_world = Returns (w', r)"
    by (rule executeMission_returns)
      (simp_all add: sample_mission_def sample_payload_def payload_usable_def hash_usable_def worker_configHash_def sample_worker_env_def)
  then obtain w' r where ex: "executeMission sample_worker sample_worker_env sample_mission sample_worker_world = Returns (w', r)" by blast
  from worker_follows_lifecycle [OF ex] ex show ?thesis by (auto simp: sample_worker_env_def sample_worker_world_def)
qed

subsection \<open>Two diagnostics that miss\<close>

text \<open>
  The orchestrator hashes the YAML text of its configuration, the worker the JSON text of its
  own: the same configuration on both sides is reported as skew.
\<close>

theorem equal_configs_reported_as_skew:
  assumes "we_config env = Some cfg" "cf_json cfg = Some json" "\<And>s. 8 \<le> length (we_sha env s)"
    and "st_ConfigHash (es_Topology spec) = ComputeConfigHash (we_sha env) (Some (url, Some yaml))" "we_sha env json \<noteq> we_sha env yaml"
  shows "\<exists>e. config_skew env m spec = Returns (Some e)"
proof -
  have "we_sha env s \<noteq> []" "\<not> length (we_sha env s) < 8" for s using assms(3) [of s] by auto
  then show ?thesis using assms by (auto simp: config_skew_def Let_def worker_configHash_def ComputeConfigHash_def)
qed

text \<open>The gateway URL the worker falls back to does not reach the workspace.\<close>

theorem gateway_fallback_not_applied:
  assumes "st_GatewayURL (es_Topology spec) = []" "we_config env = Some cfg"
  shows "effective_gatewayURL env spec = cf_GatewayURL cfg \<and> wc_GatewayURL (worker_workspace env m spec path) = []"
  using assms by (simp add: effective_gatewayURL_def worker_workspace_def WorkspaceConfigFromSpec_def)

end
