(* ===== verification/Proposal.thy ===== *)
theory Proposal
  imports Prelude "HOL-Library.Product_Lexorder"
begin

text \<open>
  \<open>internal/proposal\<close>: the mission proposal (\<open>proposal.go\<close>), the \<open>ProposalStore\<close>
  interface (\<open>store.go\<close>) as a locale over the set of pending proposals, and the PostgreSQL
  implementation (\<open>pgstore.go\<close>) on the \<open>proposals\<close> table. The \<open>BIGSERIAL\<close> sequence that
  numbers the rows is part of the table's state. Rows with equal sort keys are returned in
  insertion order, one of the orders SQL allows.
\<close>

datatype proposal_status =
    PStatusPending
  | PStatusApproved
  | PStatusRejected
  | PStatusDedupeHit
  | PStatusOther string

record proposal =
  prop_ID :: int
  prop_ObjectiveID :: string
  prop_ParentMission :: int
  prop_ProposedBy :: string
  prop_Task :: string
  prop_Contract :: string
  prop_Priority :: int
  prop_DedupeKey :: string
  prop_Rationale :: string
  prop_Evidence :: "string option"
  prop_Status :: proposal_status
  prop_CreatedAt :: int
  prop_ReviewedAt :: "int option"
  prop_RejectionNote :: string

record proposal_table =
  prop_rows :: "proposal list"
  prop_seq :: int

subsection \<open>The PostgreSQL store\<close>

definition prop_defaults :: "int \<Rightarrow> proposal \<Rightarrow> proposal" where
  "prop_defaults now p =
     (let p1 = (if prop_Status p = PStatusOther [] then p\<lparr>prop_Status := PStatusPending\<rparr> else p)
      in if prop_CreatedAt p1 = 0 then p1\<lparr>prop_CreatedAt := now\<rparr> else p1)"

definition prop_Submit ::
    "db_fault \<Rightarrow> int \<Rightarrow> proposal \<Rightarrow> proposal_table \<Rightarrow> proposal_table \<times> proposal \<times> unit result" where
  "prop_Submit f now p t =
     (let p2 = prop_defaults now p
      in case f of
           Some e \<Rightarrow> (t, p2, Inl (ErrDb (''proposal pgstore: submit: '' @ e)))
         | None \<Rightarrow>
             let row = p2\<lparr>prop_ID := prop_seq t, prop_ReviewedAt := None\<rparr>
             in (\<lparr>prop_rows = prop_rows t @ [row], prop_seq = prop_seq t + 1\<rparr>,
                 p2\<lparr>prop_ID := prop_seq t\<rparr>, Inr ()))"

definition pending_order :: "proposal list \<Rightarrow> proposal list" where
  "pending_order ps = sort_key (\<lambda>p. (- prop_Priority p, prop_CreatedAt p)) ps"

definition prop_PendingProposals :: "db_fault \<Rightarrow> proposal_table \<Rightarrow> proposal list result" where
  "prop_PendingProposals f t =
     (case f of
        Some e \<Rightarrow> Inl (ErrDb (''proposal pgstore: pending: '' @ e))
      | None \<Rightarrow> Inr (pending_order (filter (\<lambda>p. prop_Status p = PStatusPending) (prop_rows t))))"

definition prop_Approve :: "db_fault \<Rightarrow> int \<Rightarrow> int \<Rightarrow> proposal_table \<Rightarrow> proposal_table \<times> unit result" where
  "prop_Approve f now i t =
     (case f of
        Some e \<Rightarrow> (t, Inl (ErrDb (''proposal pgstore: approve: '' @ e)))
      | None \<Rightarrow>
          if affected (\<lambda>p. prop_ID p = i) (prop_rows t) = 0 then (t, Inl ErrNotFound)
          else (t\<lparr>prop_rows := update_rows (\<lambda>p. prop_ID p = i)
                   (\<lambda>p. p\<lparr>prop_Status := PStatusApproved, prop_ReviewedAt := Some now\<rparr>) (prop_rows t)\<rparr>,
                Inr ()))"

definition prop_Reject ::
    "db_fault \<Rightarrow> int \<Rightarrow> int \<Rightarrow> string \<Rightarrow> proposal_table \<Rightarrow> proposal_table \<times> unit result" where
  "prop_Reject f now i note t =
     (case f of
        Some e \<Rightarrow> (t, Inl (ErrDb (''proposal pgstore: reject: '' @ e)))
      | None \<Rightarrow>
          if affected (\<lambda>p. prop_ID p = i) (prop_rows t) = 0 then (t, Inl ErrNotFound)
          else (t\<lparr>prop_rows := update_rows (\<lambda>p. prop_ID p = i)
                   (\<lambda>p. p\<lparr>prop_Status := PStatusRejected, prop_ReviewedAt := Some now,
                          prop_RejectionNote := note\<rparr>) (prop_rows t)\<rparr>,
                Inr ()))"

definition prop_UpdateStatus ::
    "db_fault \<Rightarrow> int \<Rightarrow> int \<Rightarrow> proposal_status \<Rightarrow> proposal_table \<Rightarrow> proposal_table \<times> unit result" where
  "prop_UpdateStatus f now i st t =
     (case f of
        Some e \<Rightarrow> (t, Inl (ErrDb (''proposal pgstore: update status: '' @ e)))
      | None \<Rightarrow>
          if affected (\<lambda>p. prop_ID p = i) (prop_rows t) = 0 then (t, Inl ErrNotFound)
          else (t\<lparr>prop_rows := update_rows (\<lambda>p. prop_ID p = i)
                   (\<lambda>p. p\<lparr>prop_Status := st, prop_ReviewedAt := Some now\<rparr>) (prop_rows t)\<rparr>,
                Inr ()))"

definition prop_PendingForObjective ::
    "db_fault \<Rightarrow> string \<Rightarrow> proposal_table \<Rightarrow> proposal list result" where
  "prop_PendingForObjective f oid t =
     (case f of
        Some e \<Rightarrow> Inl (ErrDb (''proposal pgstore: pending for objective: '' @ e))
      | None \<Rightarrow> Inr (pending_order
          (filter (\<lambda>p. prop_Status p = PStatusPending \<and> prop_ObjectiveID p = oid) (prop_rows t))))"

definition prop_RejectAllPending ::
    "db_fault \<Rightarrow> int \<Rightarrow> string \<Rightarrow> string \<Rightarrow> proposal_table \<Rightarrow> proposal_table \<times> int result" where
  "prop_RejectAllPending f now oid note t =
     (let hit = (\<lambda>p. prop_ObjectiveID p = oid \<and> prop_Status p = PStatusPending)
      in case f of
           Some e \<Rightarrow> (t, Inl (ErrDb (''proposal pgstore: reject all pending: '' @ e)))
         | None \<Rightarrow>
             (t\<lparr>prop_rows := update_rows hit
                (\<lambda>p. p\<lparr>prop_Status := PStatusRejected, prop_ReviewedAt := Some now,
                       prop_RejectionNote := note\<rparr>) (prop_rows t)\<rparr>,
              Inr (int (affected hit (prop_rows t)))))"

lemmas prop_store_defs =
  prop_Submit_def prop_PendingProposals_def prop_Approve_def prop_Reject_def prop_UpdateStatus_def
  prop_PendingForObjective_def prop_RejectAllPending_def

subsection \<open>Table invariant and the pending set\<close>

definition prop_table_ok :: "proposal_table \<Rightarrow> bool" where
  "prop_table_ok t = (distinct (map prop_ID (prop_rows t)) \<and> (\<forall>p\<in>set (prop_rows t). prop_ID p < prop_seq t))"

definition pending_ids :: "proposal_table \<Rightarrow> (int \<times> string) set" where
  "pending_ids t = (\<lambda>p. (prop_ID p, prop_ObjectiveID p)) `
     {p \<in> set (prop_rows t). prop_Status p = PStatusPending}"

lemma set_pending_order [simp]: "set (pending_order ps) = set ps"
  by (simp add: pending_order_def)

lemma sorted_pending_order: "sorted (map (\<lambda>p. (- prop_Priority p, prop_CreatedAt p)) (pending_order ps))"
  by (simp add: pending_order_def)

lemma prop_table_ok_update_rows:
  assumes "\<And>p. prop_ID (u p) = prop_ID p" "prop_table_ok t"
  shows "prop_table_ok (t\<lparr>prop_rows := update_rows q u (prop_rows t)\<rparr>)"
  using assms by (auto simp: prop_table_ok_def map_update_rows set_update_rows)

text \<open>Rows a decision rewrites leave the pending set; the others keep their place in it.\<close>

lemma pending_ids_update_rows:
  assumes "\<And>p. prop_ID (u p) = prop_ID p" "\<And>p. prop_ObjectiveID (u p) = prop_ObjectiveID p"
    and "\<And>p. prop_Status (u p) \<noteq> PStatusPending"
    and "\<And>p. prop_Status p = PStatusPending \<Longrightarrow> q p \<longleftrightarrow> P (prop_ID p, prop_ObjectiveID p)"
  shows "pending_ids (t\<lparr>prop_rows := update_rows q u (prop_rows t)\<rparr>) = {x \<in> pending_ids t. \<not> P x}"
proof -
  have "{p \<in> set (update_rows q u (prop_rows t)). prop_Status p = PStatusPending} =
    {p \<in> set (prop_rows t). prop_Status p = PStatusPending \<and> \<not> P (prop_ID p, prop_ObjectiveID p)}"
    using assms(3,4) by (auto simp: set_update_rows image_iff)
  then show ?thesis by (auto simp: pending_ids_def)
qed

definition known_ids :: "proposal_table \<Rightarrow> int set" where
  "known_ids t = prop_ID ` set (prop_rows t)"

lemma known_update_rows:
  assumes "\<And>p. prop_ID (u p) = prop_ID p"
  shows "known_ids (t\<lparr>prop_rows := update_rows q u (prop_rows t)\<rparr>) = known_ids t"
  using map_update_rows [of prop_ID u q "prop_rows t"] assms
  by (simp add: known_ids_def) (metis set_map)

lemma affected_prop_ID: "affected (\<lambda>p. prop_ID p = i) (prop_rows t) = 0 \<longleftrightarrow> i \<notin> known_ids t"
  by (auto simp: affected_0_iff known_ids_def)

lemma pending_ids_absent: "i \<notin> known_ids t \<Longrightarrow> {x \<in> pending_ids t. fst x \<noteq> i} = pending_ids t"
  by (auto simp: pending_ids_def known_ids_def)

lemmas decision_simps =
  affected_prop_ID prop_table_ok_update_rows known_update_rows pending_ids_absent

lemma prop_Approve_spec:
  assumes "prop_table_ok t" "prop_Approve None now i t = (t', r)"
  shows "prop_table_ok t' \<and> known_ids t' = known_ids t \<and>
    (is_ok r \<longleftrightarrow> i \<in> known_ids t) \<and> pending_ids t' = {x \<in> pending_ids t. fst x \<noteq> i}"
  using assms pending_ids_update_rows [where q = "\<lambda>p. prop_ID p = i" and P = "\<lambda>x. fst x = i" and t = t]
  by (auto simp: prop_Approve_def decision_simps split: if_splits)

lemma prop_Reject_spec:
  assumes "prop_table_ok t" "prop_Reject None now i note t = (t', r)"
  shows "prop_table_ok t' \<and> known_ids t' = known_ids t \<and>
    (is_ok r \<longleftrightarrow> i \<in> known_ids t) \<and> pending_ids t' = {x \<in> pending_ids t. fst x \<noteq> i}"
  using assms pending_ids_update_rows [where q = "\<lambda>p. prop_ID p = i" and P = "\<lambda>x. fst x = i" and t = t]
  by (auto simp: prop_Reject_def decision_simps split: if_splits)

subsection \<open>The \<open>ProposalStore\<close> interface\<close>

text \<open>
  The contract the admission controller relies on, over \<open>pend s\<close>, the set of (id, objective)
  pairs still pending: a decision takes exactly its proposals out of it, and a submission is
  what puts one in.
\<close>

locale proposal_store =
  fixes invar :: "'s \<Rightarrow> bool"
    and pend :: "'s \<Rightarrow> (int \<times> string) set"
    and known :: "'s \<Rightarrow> int set"
    and submit :: "int \<Rightarrow> proposal \<Rightarrow> 's \<Rightarrow> 's \<times> proposal \<times> unit result"
    and approve :: "int \<Rightarrow> int \<Rightarrow> 's \<Rightarrow> 's \<times> unit result"
    and reject :: "int \<Rightarrow> int \<Rightarrow> string \<Rightarrow> 's \<Rightarrow> 's \<times> unit result"
    and reject_all :: "int \<Rightarrow> string \<Rightarrow> string \<Rightarrow> 's \<Rightarrow> 's \<times> int result"
  assumes pend_known: "fst ` pend s \<subseteq> known s"
    and submit_spec: "invar s \<Longrightarrow> submit now p s = (s', p', r) \<Longrightarrow>
      r = Inr () \<and> invar s' \<and> prop_ID p' \<notin> known s \<and> known s' = insert (prop_ID p') (known s) \<and>
      pend s' = pend s \<union> (if prop_Status p' = PStatusPending then {(prop_ID p', prop_ObjectiveID p)} else {})"
    and approve_spec: "invar s \<Longrightarrow> approve now i s = (s', r) \<Longrightarrow>
      invar s' \<and> known s' = known s \<and> (is_ok r \<longleftrightarrow> i \<in> known s) \<and> pend s' = {x \<in> pend s. fst x \<noteq> i}"
    and reject_spec: "invar s \<Longrightarrow> reject now i note s = (s', r) \<Longrightarrow>
      invar s' \<and> known s' = known s \<and> (is_ok r \<longleftrightarrow> i \<in> known s) \<and> pend s' = {x \<in> pend s. fst x \<noteq> i}"
    and reject_all_spec: "invar s \<Longrightarrow> reject_all now oid note s = (s', n) \<Longrightarrow>
      invar s' \<and> known s' = known s \<and> n = Inr (int (card {x \<in> pend s. snd x = oid})) \<and>
      pend s' = {x \<in> pend s. snd x \<noteq> oid}"
begin

lemma decided_stays_decided:
  assumes "invar s" "approve now i s = (s1, r1)" "reject now' j note s1 = (s2, r2)"
  shows "i \<notin> fst ` pend s2" "j \<notin> fst ` pend s2"
  using approve_spec [OF assms(1,2)] reject_spec [OF _ assms(3)] by auto

lemma reject_all_idempotent:
  assumes "invar s" "reject_all now oid note s = (s1, r1)" "reject_all now' oid note' s1 = (s2, r2)"
  shows "r2 = Inr 0"
proof -
  from reject_all_spec [OF assms(1,2)] have 1: "invar s1" "pend s1 = {x \<in> pend s. snd x \<noteq> oid}"
    by auto
  then have "{x \<in> pend s1. snd x = oid} = {}" by auto
  with reject_all_spec [OF 1(1) assms(3)] show ?thesis by (metis card.empty of_nat_0)
qed

end

lemma prop_defaults_fields [simp]:
  "prop_ObjectiveID (prop_defaults now p) = prop_ObjectiveID p"
  "prop_Status (prop_defaults now p) =
     (if prop_Status p = PStatusOther [] then PStatusPending else prop_Status p)"
  by (simp_all add: prop_defaults_def Let_def)

lemma prop_insert_row:
  assumes "prop_table_ok t" "prop_ID row = prop_seq t"
  defines "t' \<equiv> \<lparr>prop_rows = prop_rows t @ [row], prop_seq = prop_seq t + 1\<rparr>"
  shows "prop_table_ok t'" "prop_ID row \<notin> known_ids t" "known_ids t' = insert (prop_ID row) (known_ids t)"
    "pending_ids t' = pending_ids t \<union>
       (if prop_Status row = PStatusPending then {(prop_ID row, prop_ObjectiveID row)} else {})"
proof -
  have "prop_seq t \<notin> prop_ID ` set (prop_rows t)" using assms(1) by (auto simp: prop_table_ok_def)
  then show "prop_table_ok t'" "prop_ID row \<notin> known_ids t"
    using assms(1,2) by (auto simp: prop_table_ok_def known_ids_def t'_def)
  show "known_ids t' = insert (prop_ID row) (known_ids t)"
    by (simp add: known_ids_def t'_def)
  show "pending_ids t' = pending_ids t \<union>
       (if prop_Status row = PStatusPending then {(prop_ID row, prop_ObjectiveID row)} else {})"
    by (auto simp: pending_ids_def t'_def)
qed

lemma card_pending_hits:
  assumes "distinct (map prop_ID rows)"
  shows "length (filter (\<lambda>p. prop_ObjectiveID p = oid \<and> prop_Status p = PStatusPending) rows) =
    card ((\<lambda>p. (prop_ID p, prop_ObjectiveID p)) `
      {p \<in> set rows. prop_Status p = PStatusPending \<and> prop_ObjectiveID p = oid})"
proof -
  let ?h = "\<lambda>p. prop_ObjectiveID p = oid \<and> prop_Status p = PStatusPending"
  have d: "distinct (filter ?h rows)" using assms by (simp add: distinct_map)
  have "inj_on (\<lambda>p. (prop_ID p, prop_ObjectiveID p)) (set rows)"
    using assms by (auto simp: distinct_map inj_on_def)
  then have i: "inj_on (\<lambda>p. (prop_ID p, prop_ObjectiveID p)) (set (filter ?h rows))"
    by (rule inj_on_subset) auto
  have "{p \<in> set rows. prop_Status p = PStatusPending \<and> prop_ObjectiveID p = oid} = set (filter ?h rows)"
    by auto
  with card_image [OF i] distinct_card [OF d] show ?thesis by simp
qed

lemma prop_RejectAllPending_spec:
  assumes "prop_table_ok t" "prop_RejectAllPending None now oid note t = (t', n)"
  shows "prop_table_ok t' \<and> known_ids t' = known_ids t \<and>
    n = Inr (int (card {x \<in> pending_ids t. snd x = oid})) \<and> pending_ids t' = {x \<in> pending_ids t. snd x \<noteq> oid}"
proof -
  let ?hit = "\<lambda>p. prop_ObjectiveID p = oid \<and> prop_Status p = PStatusPending"
  have "{x \<in> pending_ids t. snd x = oid} = (\<lambda>p. (prop_ID p, prop_ObjectiveID p)) `
      {p \<in> set (prop_rows t). prop_Status p = PStatusPending \<and> prop_ObjectiveID p = oid}"
    by (auto simp: pending_ids_def)
  moreover have "distinct (map prop_ID (prop_rows t))" using assms(1) by (simp add: prop_table_ok_def)
  ultimately have "affected ?hit (prop_rows t) = card {x \<in> pending_ids t. snd x = oid}"
    using card_pending_hits by (simp only: affected_def)
  with assms show ?thesis
    using pending_ids_update_rows [where P = "\<lambda>x. snd x = oid" and t = t and q = ?hit]
    by (simp add: prop_RejectAllPending_def decision_simps) (auto simp: decision_simps)
qed

interpretation pgprop: proposal_store prop_table_ok pending_ids known_ids
  "prop_Submit None" "prop_Approve None" "prop_Reject None" "prop_RejectAllPending None"
proof (unfold_locales, goal_cases)
  case (1 s)
  then show ?case by (auto simp: pending_ids_def known_ids_def)
next
  case (2 s now p s' p' r)
  let ?row = "(prop_defaults now p)\<lparr>prop_ID := prop_seq s, prop_ReviewedAt := None\<rparr>"
  from 2 prop_insert_row [of s ?row] show ?case
    by (simp add: prop_Submit_def Let_def) (auto simp: Let_def)
next
  case (3 s now i s' r)
  then show ?case by (rule prop_Approve_spec)
next
  case (4 s now i nt s' r)
  then show ?case by (rule prop_Reject_spec)
next
  case (5 s now oid nt s' n)
  then show ?case by (rule prop_RejectAllPending_spec)
qed

end
