(* ===== verification/Admission.thy ===== *)
theory Admission
  imports Objective Proposal PostgresQueue
begin

text \<open>
  \<open>internal/admission\<close>: the policy that decides on a mission proposal (\<open>policy.go\<close>), the
  read access to missions it needs (\<open>reader.go\<close>) and the controller that carries decisions
  out and moves objectives through their status machine (\<open>controller.go\<close>).

  The controller acts on a \<open>world\<close>: the proposals, the objectives, the missions and agents
  of the PostgreSQL deployment, and the notices sent through the mailbox. Each database call
  consumes one entry of \<open>wo_env\<close>, which says whether the call fails and what the clock shows
  at it; nothing is assumed of these entries. Notices are kept as data: \<open>notice\<close> has one
  constructor per message format of the code.
\<close>

subsection \<open>\<open>policy.go\<close>\<close>

datatype action = ActionApprove | ActionReject | ActionFreeze

type_synonym decision = "action \<times> string"

record AdmissionPolicy =
  po_EvidenceThreshold :: int
  po_CircuitBreakerRatio :: int

definition DefaultPolicy :: AdmissionPolicy where
  "DefaultPolicy = \<lparr>po_EvidenceThreshold = 3, po_CircuitBreakerRatio = 3\<rparr>"

text \<open>
  \<open>children\<close> is the answer of \<open>CountActiveChildren\<close> for the parent and \<open>now\<close> the reading of
  \<open>p.Now()\<close>; step 2 of the pipeline is left to the database index.
\<close>

definition breaker_threshold :: "AdmissionPolicy \<Rightarrow> objective \<Rightarrow> int" where
  "breaker_threshold p ob =
     (let threshold = po_CircuitBreakerRatio p * obj_FindingCount ob
      in if threshold = 0 then po_CircuitBreakerRatio p else threshold)"

definition Evaluate ::
    "AdmissionPolicy \<Rightarrow> int \<Rightarrow> proposal \<Rightarrow> objective \<Rightarrow> mission \<Rightarrow> int result \<Rightarrow> decision" where
  "Evaluate p now pr ob parent children =
     (if obj_Status ob \<noteq> StatusOpen then
        (ActionReject, ''objective status is '' @ status_string (obj_Status ob) @ '', not open'')
      else if obj_MissionCount ob \<ge> obj_MaxMissions ob then
        (ActionReject, ''mission count '' @ itoa (obj_MissionCount ob) @ '' reached cap '' @ itoa (obj_MaxMissions ob))
      else if mi_Depth parent + 1 > obj_MaxDepth ob then
        (ActionReject, ''depth '' @ itoa (mi_Depth parent + 1) @ '' exceeds max '' @ itoa (obj_MaxDepth ob))
      else case children of
        Inl err \<Rightarrow> (ActionReject, ''failed to count active children: '' @ error_string err)
      | Inr activeChildren \<Rightarrow>
          if activeChildren \<ge> obj_MaxBranching ob then
            (ActionReject, ''parent has '' @ itoa activeChildren @ '' active children, max branching is ''
               @ itoa (obj_MaxBranching ob))
          else if obj_MaxRuntime ob > 0 \<and> now - obj_CreatedAt ob \<ge> obj_MaxRuntime ob then
            (ActionReject, ''objective runtime '' @ duration_string (round_duration second_ns (now - obj_CreatedAt ob))
               @ '' exceeded max '' @ duration_string (obj_MaxRuntime ob))
          else if po_EvidenceThreshold p > 0 \<and> obj_MissionCount ob \<ge> po_EvidenceThreshold p
                  \<and> (prop_Evidence pr = None \<or> prop_Evidence pr = Some [] \<or> prop_Evidence pr = Some ''null'') then
            (ActionReject, ''evidence required after '' @ itoa (po_EvidenceThreshold p)
               @ '' missions (objective has '' @ itoa (obj_MissionCount ob) @ '')'')
          else if po_CircuitBreakerRatio p > 0 \<and> obj_MissionCount ob > 0
                  \<and> obj_MissionCount ob \<ge> breaker_threshold p ob then
            (ActionFreeze, ''circuit breaker: '' @ itoa (obj_MissionCount ob) @ '' missions with only ''
               @ itoa (obj_FindingCount ob) @ '' findings (ratio limit '' @ itoa (po_CircuitBreakerRatio p) @ '':1)'')
          else (ActionApprove, ''all checks passed''))"

subsection \<open>\<open>reader.go\<close>\<close>

text \<open>
  \<open>GetMission\<close> scans the nullable column \<open>claimed_by\<close> into a Go \<open>string\<close>. Whether the driver
  accepts \<open>NULL\<close> there is a parameter: \<open>nullscan = Some e\<close> when it reports the error \<open>e\<close>,
  \<open>None\<close> when it leaves the empty string.
\<close>

definition row_to_mission :: "mission_row \<Rightarrow> mission" where
  "row_to_mission r =
     \<lparr>mi_ID = mr_id r, mi_AgentTask = mr_agent_task r, mi_Payload = mr_payload r, mi_Status = mr_status r,
      mi_Priority = mr_priority r, mi_CreatedAt = mr_created_at r,
      mi_ClaimedBy = (case mr_claimed_by r of None \<Rightarrow> [] | Some s \<Rightarrow> s), mi_ClaimedAt = mr_claimed_at r,
      mi_Error = mr_error r, mi_ObjectiveID = (case mr_objective_id r of None \<Rightarrow> [] | Some s \<Rightarrow> s),
      mi_ParentID = mr_parent_id r, mi_Depth = mr_depth r, mi_DedupeKey = mr_dedupe_key r,
      mi_ProposedBy = mr_proposed_by r\<rparr>"

definition GetMission :: "db_fault \<Rightarrow> db_fault \<Rightarrow> int \<Rightarrow> pg_db \<Rightarrow> mission result" where
  "GetMission nullscan f i db =
     (case f of
        Some e \<Rightarrow> Inl (ErrDb (''mission reader: get: '' @ e))
      | None \<Rightarrow>
          (case find (\<lambda>r. mr_id r = i) (pg_missions db) of
             None \<Rightarrow> Inl ErrNotFound
           | Some r \<Rightarrow>
               (case (mr_claimed_by r, nullscan) of
                  (None, Some e) \<Rightarrow> Inl (ErrDb (''mission reader: get: '' @ e))
                | _ \<Rightarrow> Inr (row_to_mission r))))"

definition CountActiveChildren :: "db_fault \<Rightarrow> int \<Rightarrow> pg_db \<Rightarrow> int result" where
  "CountActiveChildren f parentID db =
     (case f of
        Some e \<Rightarrow> Inl (ErrDb (''mission reader: count active children: '' @ e))
      | None \<Rightarrow> Inr (int (affected (\<lambda>r. mr_parent_id r = Some parentID \<and> active (mr_status r)) (pg_missions db))))"

definition AllMissionsTerminal :: "db_fault \<Rightarrow> string \<Rightarrow> pg_db \<Rightarrow> bool result" where
  "AllMissionsTerminal f oid db =
     (case f of
        Some e \<Rightarrow> Inl (ErrDb (''mission reader: all terminal: '' @ e))
      | None \<Rightarrow> Inr (affected (\<lambda>r. mr_objective_id r = Some oid \<and> active (mr_status r)) (pg_missions db) = 0))"

subsection \<open>The controller's world\<close>

datatype notice =
    NoticeApproved int string string int
  | NoticeRejected int string string
  | NoticeFrozen string string int
  | NoticeTransitioned string objective_status string

record env_entry =
  en_fault :: db_fault
  en_point :: enqueue_point
  en_now :: int

record world =
  wo_props :: proposal_table
  wo_objs :: "objective list"
  wo_pg :: pg_db
  wo_mail :: "(string \<times> notice) list"
  wo_env :: "nat \<Rightarrow> env_entry"
  wo_n :: nat

record controller =
  ac_policy :: AdmissionPolicy
  ac_mailbox :: bool
  ac_nullscan :: db_fault

text \<open>The entry for the next call, and the world that has consumed it.\<close>

definition call_fault :: "world \<Rightarrow> db_fault" where "call_fault w = en_fault (wo_env w (wo_n w))"
definition call_now :: "world \<Rightarrow> int" where "call_now w = en_now (wo_env w (wo_n w))"
definition used :: "world \<Rightarrow> world" where "used w = w\<lparr>wo_n := wo_n w + 1\<rparr>"

definition notify :: "controller \<Rightarrow> string \<Rightarrow> notice \<Rightarrow> world \<Rightarrow> world" where
  "notify ac to msg w =
     (if \<not> ac_mailbox ac then w
      else case call_fault w of
        Some e \<Rightarrow> used w
      | None \<Rightarrow> (used w)\<lparr>wo_mail := wo_mail w @ [(to, msg)]\<rparr>)"

subsection \<open>\<open>controller.go\<close>\<close>

definition childMissionPayload :: "MissionPayload \<Rightarrow> string \<Rightarrow> string \<Rightarrow> string \<Rightarrow> MissionPayload" where
  "childMissionPayload parent task contract objectiveID =
     parent\<lparr>mp_Task := task, mp_Contract := contract, mp_ObjectiveID := objectiveID, mp_MissionID := 0\<rparr>"

definition child_task_name :: "string \<Rightarrow> int \<Rightarrow> int \<Rightarrow> string" where
  "child_task_name oid depth pid =
     (let taskName = ''obj-'' @ oid @ ''-d'' @ itoa depth @ ''-'' @ itoa pid
      in if length taskName > 64 then take 64 taskName else taskName)"

definition child_mission :: "string \<Rightarrow> MissionPayload \<Rightarrow> proposal \<Rightarrow> objective \<Rightarrow> mission \<Rightarrow> mission" where
  "child_mission taskName payload p ob parent =
     \<lparr>mi_ID = 0, mi_AgentTask = taskName, mi_Payload = payload_marshal payload, mi_Status = MsOther [],
      mi_Priority = prop_Priority p, mi_CreatedAt = 0, mi_ClaimedBy = [], mi_ClaimedAt = None, mi_Error = [],
      mi_ObjectiveID = obj_ID ob, mi_ParentID = Some (mi_ID parent), mi_Depth = mi_Depth parent + 1,
      mi_DedupeKey = prop_DedupeKey p, mi_ProposedBy = prop_ProposedBy p\<rparr>"

definition child_agent :: "string \<Rightarrow> MissionPayload \<Rightarrow> agent" where
  "child_agent taskName parentPayload =
     \<lparr>ag_Task = taskName, ag_RuntimeType = mp_RuntimeType parentPayload, ag_ResumeToken = [],
      ag_WorkspacePath = [], ag_BranchName = [], ag_BaseBranch = mp_BaseBranch parentPayload,
      ag_Status = AgQueued, ag_LastOutput = [], ag_StartTime = 0, ag_Mode = ''queued'',
      ag_CurrentIntent = [], ag_MissionID = 0, ag_ObjectiveID = []\<rparr>"

text \<open>\<open>Enqueue\<close> as the controller calls it, at the next entry of the environment.\<close>

definition enqueue_call :: "mission \<Rightarrow> agent \<Rightarrow> world \<Rightarrow> world \<times> mission result" where
  "enqueue_call m ag w =
     (let e = wo_env w (wo_n w);
          f = (case en_fault e of None \<Rightarrow> None | Some s \<Rightarrow> Some (en_point e, s))
      in case pq_Enqueue f (en_now e) (en_now e) m ag (wo_pg w) of
           (db, r) \<Rightarrow> ((used w)\<lparr>wo_pg := db\<rparr>, r))"

definition materialize :: "controller \<Rightarrow> proposal \<Rightarrow> objective \<Rightarrow> mission \<Rightarrow> world \<Rightarrow> world" where
  "materialize ac p ob parent w =
     (case prop_Approve (call_fault w) (call_now w) (prop_ID p) (wo_props w) of
        (_, Inl err) \<Rightarrow> used w
      | (props, Inr _) \<Rightarrow>
          let w1 = (used w)\<lparr>wo_props := props\<rparr>;
              depth = mi_Depth parent + 1;
              taskName = child_task_name (obj_ID ob) depth (prop_ID p)
          in case payload_unmarshal (mi_Payload parent) of
               Inl err \<Rightarrow> w1
             | Inr parentPayload \<Rightarrow>
                 let childPayload = childMissionPayload parentPayload (prop_Task p) (prop_Contract p) (obj_ID ob)
                 in case enqueue_call (child_mission taskName childPayload p ob parent)
                           (child_agent taskName parentPayload) w1 of
                      (w2, Inl err) \<Rightarrow> w2
                    | (w2, Inr mission) \<Rightarrow>
                        let w3 = (used w2)\<lparr>wo_objs :=
                                    fst (obj_IncrementMissionCount (call_fault w2) (call_now w2) (obj_ID ob) (wo_objs w2))\<rparr>
                        in notify ac (prop_ProposedBy p)
                             (NoticeApproved (prop_ID p) (prop_DedupeKey p) taskName depth) w3)"

definition reject :: "controller \<Rightarrow> proposal \<Rightarrow> string \<Rightarrow> world \<Rightarrow> world" where
  "reject ac p reason w =
     (case prop_Reject (call_fault w) (call_now w) (prop_ID p) reason (wo_props w) of
        (_, Inl err) \<Rightarrow> used w
      | (props, Inr _) \<Rightarrow>
          notify ac (prop_ProposedBy p) (NoticeRejected (prop_ID p) (prop_DedupeKey p) reason)
            ((used w)\<lparr>wo_props := props\<rparr>))"

text \<open>A failed \<open>RejectAllPending\<close> is only logged; its count is then 0.\<close>

definition reject_all_pending :: "string \<Rightarrow> string \<Rightarrow> world \<Rightarrow> world \<times> int" where
  "reject_all_pending oid reason w =
     (case prop_RejectAllPending (call_fault w) (call_now w) oid reason (wo_props w) of
        (_, Inl err) \<Rightarrow> (used w, 0)
      | (props, Inr n) \<Rightarrow> ((used w)\<lparr>wo_props := props\<rparr>, n))"

definition freezeObjective :: "controller \<Rightarrow> objective \<Rightarrow> string \<Rightarrow> world \<Rightarrow> world" where
  "freezeObjective ac ob reason w =
     (case obj_Update (call_fault w) (call_now w) (ob\<lparr>obj_Status := StatusFrozen\<rparr>) (wo_objs w) of
        (_, Inl err) \<Rightarrow> used w
      | (objs, Inr _) \<Rightarrow>
          (case reject_all_pending (obj_ID ob) (''objective frozen: '' @ reason) ((used w)\<lparr>wo_objs := objs\<rparr>) of
             (w2, rejected) \<Rightarrow> notify ac ''chessmaster'' (NoticeFrozen (obj_ID ob) reason rejected) w2))"

definition evaluateOne :: "controller \<Rightarrow> proposal \<Rightarrow> world \<Rightarrow> world" where
  "evaluateOne ac p w =
     (case obj_Get (call_fault w) (prop_ObjectiveID p) (wo_objs w) of
        Inl err \<Rightarrow> reject ac p ''objective not found'' (used w)
      | Inr ob \<Rightarrow>
          let w1 = used w
          in case GetMission (ac_nullscan ac) (call_fault w1) (prop_ParentMission p) (wo_pg w1) of
               Inl err \<Rightarrow> reject ac p ''parent mission not found'' (used w1)
             | Inr parent \<Rightarrow>
                 let w2 = used w1;
                     children = CountActiveChildren (call_fault w2) (mi_ID parent) (wo_pg w2);
                     w3 = used w2
                 in case Evaluate (ac_policy ac) (call_now w3) p ob parent children of
                      (ActionApprove, reason) \<Rightarrow> materialize ac p ob parent w3
                    | (ActionReject, reason) \<Rightarrow> reject ac p reason w3
                    | (ActionFreeze, reason) \<Rightarrow> freezeObjective ac ob reason w3)"

definition evaluateProposals :: "controller \<Rightarrow> world \<Rightarrow> world" where
  "evaluateProposals ac w =
     (case prop_PendingProposals (call_fault w) (wo_props w) of
        Inl err \<Rightarrow> used w
      | Inr ps \<Rightarrow> fold (evaluateOne ac) ps (used w))"

definition transitionObjective :: "controller \<Rightarrow> objective \<Rightarrow> objective_status \<Rightarrow> string \<Rightarrow> world \<Rightarrow> world" where
  "transitionObjective ac ob newStatus reason w =
     (if \<not> CanTransition (obj_Status ob) newStatus then w
      else case obj_Update (call_fault w) (call_now w) (ob\<lparr>obj_Status := newStatus\<rparr>) (wo_objs w) of
        (_, Inl err) \<Rightarrow> used w
      | (objs, Inr _) \<Rightarrow>
          let w1 = (used w)\<lparr>wo_objs := objs\<rparr>;
              w2 = (if Terminal newStatus
                    then fst (reject_all_pending (obj_ID ob) (''objective '' @ status_string newStatus) w1) else w1)
          in notify ac ''chessmaster'' (NoticeTransitioned (obj_ID ob) newStatus reason) w2)"

definition checkObjectiveConvergence :: "controller \<Rightarrow> objective \<Rightarrow> world \<Rightarrow> world" where
  "checkObjectiveConvergence ac ob w =
     (if obj_MissionCount ob \<ge> obj_MaxMissions ob then
        transitionObjective ac ob StatusBudgetExhausted
          (''mission count '' @ itoa (obj_MissionCount ob) @ '' reached cap '' @ itoa (obj_MaxMissions ob)) w
      else if obj_MaxRuntime ob > 0 \<and> call_now w - obj_CreatedAt ob \<ge> obj_MaxRuntime ob then
        transitionObjective ac ob StatusTimedOut
          (''runtime '' @ duration_string (round_duration second_ns (call_now (used w) - obj_CreatedAt ob))
             @ '' exceeded max '' @ duration_string (obj_MaxRuntime ob)) (used (used w))
      else let w1 = used w
           in case AllMissionsTerminal (call_fault w1) (obj_ID ob) (wo_pg w1) of
                Inl err \<Rightarrow> used w1
              | Inr allTerminal \<Rightarrow>
                  if allTerminal \<and> obj_MissionCount ob > 0
                  then (case prop_PendingForObjective (call_fault (used w1)) (obj_ID ob) (wo_props (used w1)) of
                          Inl err \<Rightarrow> used (used w1)
                        | Inr pending \<Rightarrow>
                            if pending = []
                            then transitionObjective ac ob StatusExhausted
                                   ''all missions terminal with no pending proposals'' (used (used w1))
                            else used (used w1))
                  else used w1)"

definition checkConvergence :: "controller \<Rightarrow> world \<Rightarrow> world" where
  "checkConvergence ac w =
     (case obj_ListByStatus (call_fault w) StatusOpen (wo_objs w) of
        Inl err \<Rightarrow> used w
      | Inr obs \<Rightarrow> fold (checkObjectiveConvergence ac) obs (used w))"

definition tick :: "controller \<Rightarrow> world \<Rightarrow> world" where
  "tick ac w = checkConvergence ac (evaluateProposals ac w)"

end
