(* ===== verification/AdmissionTick.thy ===== *)
theory AdmissionTick
  imports Admission
begin

text \<open>
  What a cycle of the admission controller does, for any faults and clock readings: the
  outcomes of one evaluation and of one convergence check, the invariants of the tables, how
  objectives evolve, how missions are accounted for, and when proposals are decided.
\<close>

subsection \<open>Effects of a single evaluation\<close>

definition no_faults :: "world \<Rightarrow> bool" where
  "no_faults w \<longleftrightarrow> (\<forall>n\<ge>wo_n w. en_fault (wo_env w n) = None)"

text \<open>Only the environment position and the mail differ.\<close>

definition same_core :: "world \<Rightarrow> world \<Rightarrow> bool" where
  "same_core w w' \<longleftrightarrow> wo_props w' = wo_props w \<and> wo_objs w' = wo_objs w \<and> wo_pg w' = wo_pg w"

definition later :: "world \<Rightarrow> world \<Rightarrow> bool" where
  "later w w' \<longleftrightarrow> wo_env w' = wo_env w \<and> wo_n w \<le> wo_n w'"

lemma later_refl [simp]: "later w w"
  by (simp add: later_def)

lemma later_trans [trans]: "later w w1 \<Longrightarrow> later w1 w2 \<Longrightarrow> later w w2"
  by (auto simp: later_def)

lemma no_faults_later: "no_faults w \<Longrightarrow> later w w' \<Longrightarrow> no_faults w'"
  by (auto simp: no_faults_def later_def)

lemma call_fault_None: "no_faults w \<Longrightarrow> call_fault w = None"
  by (simp add: no_faults_def call_fault_def)

lemma used_fields [simp]:
  "wo_props (used w) = wo_props w" "wo_objs (used w) = wo_objs w" "wo_pg (used w) = wo_pg w"
  "wo_mail (used w) = wo_mail w" "wo_env (used w) = wo_env w" "wo_n (used w) = wo_n w + 1"
  by (simp_all add: used_def)

lemma later_used [simp]: "later w (used w)" "later w ((used w)\<lparr>wo_props := ps\<rparr>)"
  "later w ((used w)\<lparr>wo_objs := os\<rparr>)" "later w ((used w)\<lparr>wo_pg := db\<rparr>)"
  by (simp_all add: later_def)

lemma notify_core [simp]:
  "wo_props (notify ac to msg w) = wo_props w" "wo_objs (notify ac to msg w) = wo_objs w"
  "wo_pg (notify ac to msg w) = wo_pg w" "later w (notify ac to msg w)"
  by (auto simp: notify_def later_def split: option.splits)

lemma later_notify [simp]: "later w w1 \<Longrightarrow> later w (notify ac to msg w1)"
  by (erule later_trans) (rule notify_core(4))

lemma no_faults_used [simp]: "no_faults w \<Longrightarrow> no_faults (used w)"
  by (rule no_faults_later) auto

lemma no_faults_update [simp]:
  "no_faults (w\<lparr>wo_props := ps\<rparr>) = no_faults w" "no_faults (w\<lparr>wo_objs := os\<rparr>) = no_faults w"
  "no_faults (w\<lparr>wo_pg := db\<rparr>) = no_faults w"
  by (simp_all add: no_faults_def)

lemma reject_effect:
  obtains f t where "wo_props (reject ac p reason w) = fst (prop_Reject f t (prop_ID p) reason (wo_props w))"
    "wo_objs (reject ac p reason w) = wo_objs w" "wo_pg (reject ac p reason w) = wo_pg w"
    "later w (reject ac p reason w)" "no_faults w \<Longrightarrow> f = None"
proof -
  obtain ps r where r: "prop_Reject (call_fault w) (call_now w) (prop_ID p) reason (wo_props w) = (ps, r)"
    by fastforce
  have same: "\<And>e. r = Inl e \<Longrightarrow> ps = wo_props w"
    using r by (auto simp: prop_Reject_def split: option.splits if_splits)
  have "later w (reject ac p reason w)"
    by (auto simp: reject_def r split: sum.splits)
  with r same show thesis
    by (intro that [of "call_fault w" "call_now w"])
      (auto simp: reject_def call_fault_None split: sum.splits)
qed

lemma reject_all_effect:
  assumes "reject_all_pending oid reason w = (w', n)"
  obtains f t where "wo_props w' = fst (prop_RejectAllPending f t oid reason (wo_props w))"
    "wo_objs w' = wo_objs w" "wo_pg w' = wo_pg w" "later w w'" "no_faults w \<Longrightarrow> f = None"
proof -
  obtain ps r where r: "prop_RejectAllPending (call_fault w) (call_now w) oid reason (wo_props w) = (ps, r)"
    by fastforce
  have same: "\<And>e. r = Inl e \<Longrightarrow> ps = wo_props w"
    using r by (auto simp: prop_RejectAllPending_def Let_def split: option.splits)
  show thesis
    using assms r same
    by (intro that [of "call_fault w" "call_now w"])
      (auto simp: reject_all_pending_def call_fault_None split: sum.splits)
qed

text \<open>Closing an objective: its row gets the new status, and its pending proposals go with it.\<close>

definition closes :: "objective \<Rightarrow> objective_status \<Rightarrow> world \<Rightarrow> world \<Rightarrow> bool" where
  "closes ob st w w' \<longleftrightarrow> (\<exists>f t f' t' reason.
     wo_objs w' = fst (obj_Update f t (ob\<lparr>obj_Status := st\<rparr>) (wo_objs w)) \<and> wo_pg w' = wo_pg w \<and>
     (wo_props w' = wo_props w \<or> wo_props w' = fst (prop_RejectAllPending f' t' (obj_ID ob) reason (wo_props w))) \<and>
     later w w' \<and>
     (no_faults w \<longrightarrow> f = None \<and> f' = None \<and>
       (obj_look (wo_objs w) (obj_ID ob) \<noteq> None \<longrightarrow>
         wo_props w' = fst (prop_RejectAllPending f' t' (obj_ID ob) reason (wo_props w)))))"

lemma obj_Update_failed: "obj_Update f t ob os = (os', Inl e) \<Longrightarrow> os' = os"
  by (auto simp: obj_Update_def split: option.splits if_splits)

lemma obj_Update_None_ok:
  "obj_look os (obj_ID ob) \<noteq> None \<Longrightarrow> obj_Update None t ob os = (os', r) \<Longrightarrow> r = Inr ()"
  by (auto simp: obj_Update_def affected_obj_look split: if_splits)

lemma closesI:
  assumes u: "obj_Update (call_fault w) (call_now w) (ob\<lparr>obj_Status := st\<rparr>) (wo_objs w) = (os, r)"
    and bad: "\<And>e. r = Inl e \<Longrightarrow> w' = used w"
    and good: "r = Inr () \<Longrightarrow> \<exists>msg n w2. reject_all_pending (obj_ID ob) reason ((used w)\<lparr>wo_objs := os\<rparr>) = (w2, n) \<and>
      w' = notify ac ''chessmaster'' msg w2"
  shows "closes ob st w w'"
proof (cases r)
  case (Inl e)
  then have "os = wo_objs w" "w' = used w" using obj_Update_failed u bad by auto
  moreover have "obj_look (wo_objs w) (obj_ID ob) = None" if "no_faults w"
    using u Inl obj_Update_None_ok [of "wo_objs w" "ob\<lparr>obj_Status := st\<rparr>" "call_now w" os r] that
    by (cases "obj_look (wo_objs w) (obj_ID ob)") (auto simp: call_fault_None)
  ultimately show ?thesis using u
    unfolding closes_def by (intro exI [of _ "call_fault w"] exI [of _ "call_now w"] exI [of _ None])
      (auto simp: call_fault_None)
next
  case (Inr x)
  let ?w1 = "(used w)\<lparr>wo_objs := os\<rparr>"
  from good Inr obtain msg n w2 where ra: "reject_all_pending (obj_ID ob) reason ?w1 = (w2, n)"
    and w': "w' = notify ac ''chessmaster'' msg w2" by auto
  from ra obtain f t where e: "wo_props w2 = fst (prop_RejectAllPending f t (obj_ID ob) reason (wo_props w))"
    "wo_objs w2 = os" "wo_pg w2 = wo_pg w" "later ?w1 w2" "no_faults w \<Longrightarrow> f = None"
    by (rule reject_all_effect) simp
  have l: "later w w2" using later_trans [OF later_used(3) e(4)] .
  show ?thesis unfolding closes_def
    by (intro exI [of _ "call_fault w"] exI [of _ "call_now w"] exI [of _ f] exI [of _ t] exI [of _ reason])
      (use u e l in \<open>auto simp: call_fault_None w'\<close>)
qed

lemma freezeObjective_closes: "closes ob StatusFrozen w (freezeObjective ac ob reason w)"
proof -
  obtain os r where u: "obj_Update (call_fault w) (call_now w) (ob\<lparr>obj_Status := StatusFrozen\<rparr>) (wo_objs w) = (os, r)"
    by fastforce
  show ?thesis
    by (rule closesI [OF u, where reason = "''objective frozen: '' @ reason"])
      (auto simp: freezeObjective_def u split: prod.splits)
qed

lemma transitionObjective_closes:
  assumes "CanTransition (obj_Status ob) st" "Terminal st"
  shows "closes ob st w (transitionObjective ac ob st reason w)"
proof -
  obtain os r where u: "obj_Update (call_fault w) (call_now w) (ob\<lparr>obj_Status := st\<rparr>) (wo_objs w) = (os, r)"
    by fastforce
  show ?thesis
    by (rule closesI [OF u, where reason = "''objective '' @ status_string st"])
      (use assms in \<open>auto simp: transitionObjective_def u Let_def intro: prod.collapse [symmetric]\<close>)
qed

lemma closes_used:
  assumes "closes ob st (used w) w'"
  shows "closes ob st w w'"
proof -
  from assms obtain f t f' t' reason where
    c: "wo_objs w' = fst (obj_Update f t (ob\<lparr>obj_Status := st\<rparr>) (wo_objs w))" "wo_pg w' = wo_pg w"
      "wo_props w' = wo_props w \<or> wo_props w' = fst (prop_RejectAllPending f' t' (obj_ID ob) reason (wo_props w))"
      "later (used w) w'"
    and nf: "no_faults (used w) \<longrightarrow> f = None \<and> f' = None \<and> (obj_look (wo_objs w) (obj_ID ob) \<noteq> None \<longrightarrow>
         wo_props w' = fst (prop_RejectAllPending f' t' (obj_ID ob) reason (wo_props w)))"
    unfolding closes_def used_fields by blast
  have "later w w'" using later_trans [OF later_used(1) c(4)] .
  moreover have "no_faults w \<longrightarrow> f = None \<and> f' = None \<and> (obj_look (wo_objs w) (obj_ID ob) \<noteq> None \<longrightarrow>
         wo_props w' = fst (prop_RejectAllPending f' t' (obj_ID ob) reason (wo_props w)))"
    using nf no_faults_used by blast
  ultimately show ?thesis using c(1-3) unfolding closes_def by blast
qed

text \<open>When the policy approves: the conditions of the pipeline, all of them.\<close>

definition has_evidence :: "proposal \<Rightarrow> bool" where
  "has_evidence pr \<longleftrightarrow> prop_Evidence pr \<notin> {None, Some [], Some ''null''}"

definition admissible :: "AdmissionPolicy \<Rightarrow> int \<Rightarrow> proposal \<Rightarrow> objective \<Rightarrow> int \<Rightarrow> int \<Rightarrow> bool" where
  "admissible p t pr ob parentDepth children \<longleftrightarrow>
     obj_Status ob = StatusOpen \<and> obj_MissionCount ob < obj_MaxMissions ob \<and>
     parentDepth + 1 \<le> obj_MaxDepth ob \<and> children < obj_MaxBranching ob \<and>
     (obj_MaxRuntime ob > 0 \<longrightarrow> t - obj_CreatedAt ob < obj_MaxRuntime ob) \<and>
     (0 < po_EvidenceThreshold p \<and> po_EvidenceThreshold p \<le> obj_MissionCount ob \<longrightarrow> has_evidence pr) \<and>
     (0 < po_CircuitBreakerRatio p \<and> 0 < obj_MissionCount ob \<longrightarrow> obj_MissionCount ob < breaker_threshold p ob)"

lemma Evaluate_approve:
  "fst (Evaluate p t pr ob parent children) = ActionApprove \<longleftrightarrow>
     (\<exists>n. children = Inr n \<and> admissible p t pr ob (mi_Depth parent) n)"
  by (cases children) (auto simp: Evaluate_def admissible_def has_evidence_def)

lemma Evaluate_freeze:
  "fst (Evaluate p t pr ob parent children) = ActionFreeze \<Longrightarrow>
     obj_Status ob = StatusOpen \<and> obj_MissionCount ob < obj_MaxMissions ob"
  by (cases children) (auto simp: Evaluate_def split: if_splits)

lemma prop_Approve_failed: "prop_Approve f t i ps = (ps', Inl e) \<Longrightarrow> ps' = ps"
  by (auto simp: prop_Approve_def split: option.splits if_splits)

lemma enqueue_call_cases:
  assumes "enqueue_call m ag w = (w', r)"
  obtains (failed) e n where "r = Inl e" "w' = (used w)\<lparr>wo_pg := (wo_pg w)\<lparr>pg_seq := n\<rparr>\<rparr>" "pg_seq (wo_pg w) \<le> n"
  | (queued) t m' db where "pq_Enqueue None t t m ag (wo_pg w) = (db, Inr m')" "r = Inr m'"
      "w' = (used w)\<lparr>wo_pg := db\<rparr>"
proof -
  let ?e = "wo_env w (wo_n w)"
  let ?f = "case en_fault ?e of None \<Rightarrow> None | Some s \<Rightarrow> Some (en_point ?e, s)"
  obtain db r' where q: "pq_Enqueue ?f (en_now ?e) (en_now ?e) m ag (wo_pg w) = (db, r')" by fastforce
  have w': "w' = (used w)\<lparr>wo_pg := db\<rparr>" "r' = r" using assms q by (auto simp: enqueue_call_def Let_def)
  show thesis
    using q
  proof (cases rule: pq_Enqueue_cases)
    case (failed e n)
    then show thesis using that(1) [of e n] w' by simp
  next
    case queued
    have "?f = None"
      using q queued(1) pq_Enqueue_faulty [of "en_point ?e" _ "en_now ?e" "en_now ?e" m ag "wo_pg w" db r']
      by (fastforce split: option.splits)
    with q have "pq_Enqueue None (en_now ?e) (en_now ?e) m ag (wo_pg w) = (db, r')" by simp
    then show thesis using that(2) [OF _ _ w'(1)] w'(2) queued(1) by metis
  qed
qed

text \<open>The mission and the agent that materializing a proposal asks for.\<close>

definition wanted_mission :: "MissionPayload \<Rightarrow> proposal \<Rightarrow> objective \<Rightarrow> mission \<Rightarrow> mission" where
  "wanted_mission pp p ob parent =
     child_mission (child_task_name (obj_ID ob) (mi_Depth parent + 1) (prop_ID p))
       (childMissionPayload pp (prop_Task p) (prop_Contract p) (obj_ID ob)) p ob parent"

definition wanted_agent :: "MissionPayload \<Rightarrow> proposal \<Rightarrow> objective \<Rightarrow> mission \<Rightarrow> agent" where
  "wanted_agent pp p ob parent =
     child_agent (child_task_name (obj_ID ob) (mi_Depth parent + 1) (prop_ID p)) pp"

lemma materialize_cases:
  obtains (unqueued) f t n where "wo_props (materialize ac p ob parent w) = fst (prop_Approve f t (prop_ID p) (wo_props w))"
      "wo_objs (materialize ac p ob parent w) = wo_objs w"
      "wo_pg (materialize ac p ob parent w) = (wo_pg w)\<lparr>pg_seq := n\<rparr>" "pg_seq (wo_pg w) \<le> n"
      "later w (materialize ac p ob parent w)" "no_faults w \<Longrightarrow> f = None"
  | (queued) t pp t1 m' f t2 where
      "wo_props (materialize ac p ob parent w) = fst (prop_Approve None t (prop_ID p) (wo_props w))"
      "mi_Payload parent = Encoded pp"
      "pq_Enqueue None t1 t1 (wanted_mission pp p ob parent) (wanted_agent pp p ob parent) (wo_pg w) =
         (wo_pg (materialize ac p ob parent w), Inr m')"
      "wo_objs (materialize ac p ob parent w) = fst (obj_IncrementMissionCount f t2 (obj_ID ob) (wo_objs w))"
      "later w (materialize ac p ob parent w)" "no_faults w \<Longrightarrow> f = None"
proof -
  obtain ps r where a: "prop_Approve (call_fault w) (call_now w) (prop_ID p) (wo_props w) = (ps, r)" by fastforce
  show thesis
  proof (cases r)
    case (Inl e)
    then have "ps = wo_props w" "materialize ac p ob parent w = used w"
      using prop_Approve_failed a by (auto simp: materialize_def)
    then show thesis using a unqueued [of "call_fault w" "call_now w" "pg_seq (wo_pg w)"]
      by (simp add: call_fault_None)
  next
    case (Inr x)
    let ?w1 = "(used w)\<lparr>wo_props := ps\<rparr>"
    have cf: "call_fault w = None" using a Inr by (auto simp: prop_Approve_def split: option.splits)
    show thesis
    proof (cases "mi_Payload parent")
      case (Malformed s)
      then have "materialize ac p ob parent w = ?w1" using a Inr by (simp add: materialize_def Let_def)
      then show thesis using a unqueued [of "call_fault w" "call_now w" "pg_seq (wo_pg w)"]
        by (simp add: call_fault_None)
    next
      case (Encoded pp)
      obtain w2 r2 where q: "enqueue_call (wanted_mission pp p ob parent) (wanted_agent pp p ob parent) ?w1 = (w2, r2)"
        by fastforce
      note q' = q [unfolded wanted_mission_def wanted_agent_def]
      show thesis
        using q
      proof (cases rule: enqueue_call_cases)
        case (failed e n)
        then have "materialize ac p ob parent w = w2"
          using a Inr Encoded q' by (simp add: materialize_def Let_def)
        moreover have "later w w2" using failed by (auto simp: later_def)
        ultimately show thesis using a failed unqueued [of "call_fault w" "call_now w" n]
          by (simp add: call_fault_None)
      next
        case (queued t m' db)
        let ?w3 = "(used w2)\<lparr>wo_objs := fst (obj_IncrementMissionCount (call_fault w2) (call_now w2) (obj_ID ob) (wo_objs w2))\<rparr>"
        have m: "materialize ac p ob parent w = notify ac (prop_ProposedBy p) (NoticeApproved (prop_ID p)
            (prop_DedupeKey p) (child_task_name (obj_ID ob) (mi_Depth parent + 1) (prop_ID p)) (mi_Depth parent + 1)) ?w3"
          using a Inr Encoded q' queued(2) by (simp add: materialize_def Let_def)
        have l: "later w w2" "later w ?w3" using queued(3) by (auto simp: later_def)
        have nf: "no_faults w \<Longrightarrow> call_fault w2 = None" using l(1) no_faults_later call_fault_None by blast
        have pg: "wo_pg (materialize ac p ob parent w) = db" "wo_objs w2 = wo_objs w" "wo_props w2 = ps"
          using m queued(3) by auto
        show thesis
        proof (rule that(2))
          show "wo_props (materialize ac p ob parent w) = fst (prop_Approve None (call_now w) (prop_ID p) (wo_props w))"
            using m pg a cf by simp
          show "mi_Payload parent = Encoded pp" by fact
          show "pq_Enqueue None t t (wanted_mission pp p ob parent) (wanted_agent pp p ob parent) (wo_pg w) =
            (wo_pg (materialize ac p ob parent w), Inr m')" using queued(1) pg by simp
          show "wo_objs (materialize ac p ob parent w) =
            fst (obj_IncrementMissionCount (call_fault w2) (call_now w2) (obj_ID ob) (wo_objs w))" using m pg by simp
          show "later w (materialize ac p ob parent w)" using m l(2) by simp
          show "no_faults w \<Longrightarrow> call_fault w2 = None" by (rule nf)
        qed
      qed
    qed
  qed
qed

text \<open>The number of active children the policy is shown for a parent.\<close>

definition active_children :: "int \<Rightarrow> pg_db \<Rightarrow> int" where
  "active_children i db = int (affected (\<lambda>r. mr_parent_id r = Some i \<and> active (mr_status r)) (pg_missions db))"

lemma CountActiveChildren_eq: "CountActiveChildren f i db = Inr n \<Longrightarrow> n = active_children i db"
  by (auto simp: CountActiveChildren_def active_children_def split: option.splits)

lemma GetMission_Inr:
  "GetMission ns f i db = Inr m \<Longrightarrow> \<exists>r. pg_look db i = Some r \<and> m = row_to_mission r"
  by (auto simp: GetMission_def pg_look_def split: option.splits prod.splits)

lemma row_to_mission_fields [simp]:
  "mi_ID (row_to_mission r) = mr_id r" "mi_Depth (row_to_mission r) = mr_depth r"
  "mi_Payload (row_to_mission r) = mr_payload r"
  by (simp_all add: row_to_mission_def)

text \<open>What led the controller to materialize a proposal.\<close>

definition granted :: "controller \<Rightarrow> proposal \<Rightarrow> objective \<Rightarrow> mission_row \<Rightarrow> world \<Rightarrow> bool" where
  "granted ac p ob parent w \<longleftrightarrow>
     obj_look (wo_objs w) (prop_ObjectiveID p) = Some ob \<and>
     pg_look (wo_pg w) (prop_ParentMission p) = Some parent \<and>
     (\<exists>t. admissible (ac_policy ac) t p ob (mr_depth parent) (active_children (mr_id parent) (wo_pg w)))"

lemma evaluateOne_outcomes:
  obtains (rejected) w3 reason where "same_core w w3" "later w w3" "evaluateOne ac p w = reject ac p reason w3"
  | (frozen) w3 ob reason where "same_core w w3" "later w w3" "evaluateOne ac p w = freezeObjective ac ob reason w3"
      "obj_look (wo_objs w) (prop_ObjectiveID p) = Some ob" "obj_Status ob = StatusOpen"
  | (approved) w3 ob parent where "same_core w w3" "later w w3"
      "evaluateOne ac p w = materialize ac p ob (row_to_mission parent) w3" "granted ac p ob parent w"
proof -
  let ?w1 = "used w" and ?w2 = "used (used w)" and ?w3 = "used (used (used w))"
  have core: "same_core w ?w1" "same_core w ?w2" "same_core w ?w3" by (simp_all add: same_core_def)
  have lat: "later w ?w1" "later w ?w2" "later w ?w3" by (simp_all add: later_def)
  show thesis
  proof (cases "obj_Get (call_fault w) (prop_ObjectiveID p) (wo_objs w)")
    case (Inl e)
    then show thesis using rejected [OF core(1) lat(1)] by (simp add: evaluateOne_def)
  next
    case ob: (Inr ob)
    then have look: "obj_look (wo_objs w) (prop_ObjectiveID p) = Some ob"
      by (auto simp: obj_Get_def obj_look_def split: option.splits)
    show thesis
    proof (cases "GetMission (ac_nullscan ac) (call_fault ?w1) (prop_ParentMission p) (wo_pg w)")
      case (Inl e)
      then show thesis using ob rejected [OF core(2) lat(2)] by (simp add: evaluateOne_def Let_def)
    next
      case parent: (Inr parent)
      from GetMission_Inr [OF parent] obtain prow where
        prow: "pg_look (wo_pg w) (prop_ParentMission p) = Some prow" "parent = row_to_mission prow" by blast
      let ?d = "Evaluate (ac_policy ac) (call_now ?w3) p ob parent (CountActiveChildren (call_fault ?w2) (mi_ID parent) (wo_pg w))"
      obtain act reason where d: "?d = (act, reason)" by fastforce
      show thesis
      proof (cases act)
        case ActionReject
        then show thesis using ob parent d rejected [OF core(3) lat(3)] by (simp add: evaluateOne_def Let_def)
      next
        case ActionFreeze
        then show thesis
          using ob parent d frozen [OF core(3) lat(3) _ look] Evaluate_freeze [of "ac_policy ac" "call_now ?w3" p ob parent]
          by (simp add: evaluateOne_def Let_def) (metis fst_conv)
      next
        case ActionApprove
        with d Evaluate_approve [of "ac_policy ac" "call_now ?w3" p ob parent] obtain n where
          "CountActiveChildren (call_fault ?w2) (mi_ID parent) (wo_pg w) = Inr n"
          "admissible (ac_policy ac) (call_now ?w3) p ob (mi_Depth parent) n" by (metis fst_conv)
        then have "granted ac p ob prow w"
          using look prow CountActiveChildren_eq by (auto simp: granted_def)
        then show thesis using ob parent d ActionApprove prow approved [OF core(3) lat(3)]
          by (simp add: evaluateOne_def Let_def)
      qed
    qed
  qed
qed

subsection \<open>Tables stay well-formed\<close>

definition world_ok :: "world \<Rightarrow> bool" where
  "world_ok w \<longleftrightarrow> prop_table_ok (wo_props w) \<and> obj_table_ok (wo_objs w) \<and> pg_ok (wo_pg w)"

lemma prop_table_ok_decisions:
  assumes "prop_table_ok ps"
  shows "prop_table_ok (fst (prop_Approve f t i ps))" "prop_table_ok (fst (prop_Reject f t i nt ps))"
    "prop_table_ok (fst (prop_RejectAllPending f t oid nt ps))"
  using assms
  by (auto simp: prop_Approve_def prop_Reject_def prop_RejectAllPending_def Let_def prop_table_ok_update_rows
      split: option.splits)

lemma obj_table_ok_writes:
  assumes "obj_table_ok os"
  shows "obj_table_ok (fst (obj_Update f t ob os))" "obj_table_ok (fst (obj_IncrementMissionCount f t i os))"
  using assms
  by (auto simp: obj_Update_def obj_IncrementMissionCount_def obj_table_ok_update_rows split: option.splits)

lemma pg_ok_seq: "pg_ok db \<Longrightarrow> pg_seq db \<le> n \<Longrightarrow> pg_ok (db\<lparr>pg_seq := n\<rparr>)"
  by (fastforce simp: pg_ok_def)

lemma world_ok_closes: "world_ok w \<Longrightarrow> closes ob st w w' \<Longrightarrow> world_ok w'"
  unfolding closes_def world_ok_def using prop_table_ok_decisions obj_table_ok_writes by metis

lemma same_core_world_ok: "same_core w w' \<Longrightarrow> world_ok w' \<longleftrightarrow> world_ok w"
  by (simp add: same_core_def world_ok_def)

lemma world_ok_evaluateOne:
  assumes "world_ok w"
  shows "world_ok (evaluateOne ac p w)"
proof (cases rule: evaluateOne_outcomes [of w ac p])
  case (rejected w3 reason)
  then show ?thesis
    using assms reject_effect [of ac p reason w3] prop_table_ok_decisions
    by (metis same_core_world_ok world_ok_def)
next
  case (frozen w3 ob reason)
  then show ?thesis using assms world_ok_closes freezeObjective_closes by (metis same_core_world_ok)
next
  case (approved w3 ob parent)
  then have ok: "world_ok w3" using assms same_core_world_ok by blast
  show ?thesis unfolding approved(3)
  proof (cases rule: materialize_cases [of ac p ob "row_to_mission parent" w3])
    case (unqueued f t n)
    then show "world_ok (materialize ac p ob (row_to_mission parent) w3)"
      using ok by (simp add: world_ok_def prop_table_ok_decisions pg_ok_seq)
  next
    case (queued t pp t1 m' f t2)
    then show "world_ok (materialize ac p ob (row_to_mission parent) w3)"
      using ok pg_ok_Enqueue [OF _ queued(3)] by (simp add: world_ok_def prop_table_ok_decisions obj_table_ok_writes)
  qed
qed

subsection \<open>How objectives evolve\<close>

text \<open>
  What one action of the controller may do to an objective, and only to an open one: count a
  mission below the cap, or close it along an allowed transition.
\<close>

inductive obj_step :: "objective \<Rightarrow> objective \<Rightarrow> bool" where
  os_count: "obj_Status ob = StatusOpen \<Longrightarrow> obj_MissionCount ob < obj_MaxMissions ob \<Longrightarrow>
    obj_step ob (ob\<lparr>obj_MissionCount := obj_MissionCount ob + 1, obj_UpdatedAt := t\<rparr>)"
| os_close: "obj_Status ob = StatusOpen \<Longrightarrow> CanTransition StatusOpen st \<Longrightarrow>
    obj_step ob (ob\<lparr>obj_Status := st, obj_UpdatedAt := t\<rparr>)"

inductive_cases obj_stepE: "obj_step ob ob'"

definition objs_evolve :: "objective list \<Rightarrow> objective list \<Rightarrow> bool" where
  "objs_evolve os os' \<longleftrightarrow> (\<forall>i. rel_option obj_step\<^sup>*\<^sup>* (obj_look os i) (obj_look os' i))"

lemma objs_evolve_refl [simp]: "objs_evolve os os"
  by (simp add: objs_evolve_def option.rel_refl)

lemma objs_evolve_trans: "objs_evolve os os1 \<Longrightarrow> objs_evolve os1 os2 \<Longrightarrow> objs_evolve os os2"
  unfolding objs_evolve_def
  using transpD [OF option.rel_transp [OF transp_rtranclp, of obj_step]] by blast

lemma objs_evolve_one:
  assumes "obj_look os i = Some ob" "obj_step ob ob'" "obj_look os' = (obj_look os)(i \<mapsto> ob')"
  shows "objs_evolve os os'"
  using assms by (auto simp: objs_evolve_def option.rel_refl)

lemma objs_evolve_Update:
  assumes "obj_table_ok os" "obj_look os i = Some ob" "obj_Status ob = StatusOpen" "CanTransition StatusOpen st"
  shows "objs_evolve os (fst (obj_Update f t (ob\<lparr>obj_Status := st\<rparr>) os))"
proof (cases f)
  case None
  have i: "obj_ID ob = i" using assms(1,2) by (rule pgobj.look_ID)
  obtain os' r where u: "obj_Update None t (ob\<lparr>obj_Status := st\<rparr>) os = (os', r)" by fastforce
  have "obj_look os' = (obj_look os)(i \<mapsto> ob\<lparr>obj_Status := st, obj_UpdatedAt := t\<rparr>)"
    using pgobj.update_present [of os "ob\<lparr>obj_Status := st\<rparr>" ob t os' r] assms i u
    by (simp add: obj_written_same)
  with objs_evolve_one [OF assms(2) os_close [OF assms(3,4)]] show ?thesis by (simp add: None u)
qed (simp add: obj_Update_def)

lemma objs_evolve_Increment:
  assumes "obj_table_ok os" "obj_look os i = Some ob" "obj_Status ob = StatusOpen"
    "obj_MissionCount ob < obj_MaxMissions ob"
  shows "objs_evolve os (fst (obj_IncrementMissionCount f t i os))"
proof (cases f)
  case None
  obtain os' r where u: "obj_IncrementMissionCount None t i os = (os', r)" by fastforce
  from pgobj.incr_present [OF assms(1,2) u] objs_evolve_one [OF assms(2) os_count [OF assms(3,4)]]
  show ?thesis by (simp add: None u)
qed (simp add: obj_IncrementMissionCount_def)

lemma closes_evolve:
  assumes "world_ok w" "closes ob st w w'" "obj_look (wo_objs w) i = Some ob" "obj_Status ob = StatusOpen"
    "CanTransition StatusOpen st"
  shows "objs_evolve (wo_objs w) (wo_objs w')"
  using assms objs_evolve_Update [of "wo_objs w" i ob st] by (auto simp: closes_def world_ok_def)

lemma evaluateOne_evolve:
  assumes "world_ok w"
  shows "objs_evolve (wo_objs w) (wo_objs (evaluateOne ac p w))"
proof (cases rule: evaluateOne_outcomes [of w ac p])
  case (rejected w3 reason)
  obtain f t where "wo_objs (reject ac p reason w3) = wo_objs w3" using reject_effect by metis
  then show ?thesis using rejected by (simp add: same_core_def)
next
  case (frozen w3 ob reason)
  have "objs_evolve (wo_objs w3) (wo_objs (freezeObjective ac ob reason w3))"
    using frozen assms by (intro closes_evolve [OF _ freezeObjective_closes])
      (auto simp: same_core_def world_ok_def CanTransition_iff)
  then show ?thesis using frozen by (simp add: same_core_def)
next
  case (approved w3 ob parent)
  have ok: "obj_table_ok (wo_objs w3)" and look: "obj_look (wo_objs w3) (prop_ObjectiveID p) = Some ob"
    and adm: "obj_Status ob = StatusOpen" "obj_MissionCount ob < obj_MaxMissions ob"
    using approved assms by (auto simp: same_core_def world_ok_def granted_def admissible_def)
  have id: "obj_ID ob = prop_ObjectiveID p" using ok look by (rule pgobj.look_ID)
  have "objs_evolve (wo_objs w3) (wo_objs (materialize ac p ob (row_to_mission parent) w3))"
  proof (cases rule: materialize_cases [of ac p ob "row_to_mission parent" w3])
    case (queued t pp t1 m' f t2)
    then show ?thesis using objs_evolve_Increment [OF ok look adm] id by simp
  qed simp
  then show ?thesis using approved by (simp add: same_core_def)
qed

subsection \<open>Convergence\<close>

lemma transition_other:
  assumes "\<not> CanTransition (obj_Status ob) st"
  shows "transitionObjective ac ob st reason w = w"
  using assms by (simp add: transitionObjective_def)

lemma checkObjectiveConvergence_outcomes:
  assumes "obj_Status ob = StatusOpen"
  obtains (closed) st where "Terminal st" "closes ob st w (checkObjectiveConvergence ac ob w)"
  | (kept) "same_core w (checkObjectiveConvergence ac ob w)" "later w (checkObjectiveConvergence ac ob w)"
      "no_faults w \<Longrightarrow> obj_MissionCount ob < obj_MaxMissions ob"
      "no_faults w \<Longrightarrow> 0 < obj_MaxRuntime ob \<Longrightarrow> call_now w - obj_CreatedAt ob < obj_MaxRuntime ob"
      "no_faults w \<Longrightarrow> 0 < obj_MissionCount ob \<Longrightarrow>
        (\<exists>r\<in>set (pg_missions (wo_pg w)). mr_objective_id r = Some (obj_ID ob) \<and> active (mr_status r)) \<or>
        (\<exists>q\<in>set (prop_rows (wo_props w)). prop_ObjectiveID q = obj_ID ob \<and> prop_Status q = PStatusPending)"
proof -
  let ?w' = "checkObjectiveConvergence ac ob w"
  have can: "CanTransition (obj_Status ob) st" if "Terminal st" for st using assms that by (simp add: CanTransition_iff)
  have T: "Terminal StatusBudgetExhausted" "Terminal StatusTimedOut" "Terminal StatusExhausted"
    by (simp_all add: Terminal_def)
  consider (budget) "obj_MissionCount ob \<ge> obj_MaxMissions ob"
    | (time) "obj_MissionCount ob < obj_MaxMissions ob" "obj_MaxRuntime ob > 0 \<and> call_now w - obj_CreatedAt ob \<ge> obj_MaxRuntime ob"
    | (rest) "obj_MissionCount ob < obj_MaxMissions ob" "\<not> (obj_MaxRuntime ob > 0 \<and> call_now w - obj_CreatedAt ob \<ge> obj_MaxRuntime ob)"
    by linarith
  then show thesis
  proof cases
    case budget
    then show thesis using closed [OF T(1)] transitionObjective_closes [OF can [OF T(1)] T(1)]
      by (simp add: checkObjectiveConvergence_def)
  next
    case time
    then show thesis
      using closed [OF T(2)] closes_used [OF closes_used [OF transitionObjective_closes [OF can [OF T(2)] T(2)]]]
      by (simp add: checkObjectiveConvergence_def)
  next
    case rest
    let ?all = "AllMissionsTerminal (call_fault (used w)) (obj_ID ob) (wo_pg w)"
    let ?pend = "prop_PendingForObjective (call_fault (used (used w))) (obj_ID ob) (wo_props w)"
    have eq: "?w' = (case ?all of Inl err \<Rightarrow> used (used w) | Inr allTerminal \<Rightarrow>
        if allTerminal \<and> obj_MissionCount ob > 0
        then (case ?pend of Inl err \<Rightarrow> used (used (used w)) | Inr pending \<Rightarrow>
            if pending = [] then transitionObjective ac ob StatusExhausted
              ''all missions terminal with no pending proposals'' (used (used (used w)))
            else used (used (used w)))
        else used (used w))"
      using rest by (auto simp: checkObjectiveConvergence_def Let_def split: sum.splits)
    have cl: "closes ob StatusExhausted w (transitionObjective ac ob StatusExhausted why (used (used (used w))))" for why
      by (rule closes_used [OF closes_used [OF closes_used [OF transitionObjective_closes [OF can [OF T(3)] T(3)]]]])
    have nf: "no_faults w \<Longrightarrow> call_fault (used w) = None" "no_faults w \<Longrightarrow> call_fault (used (used w)) = None"
      by (simp_all add: call_fault_None)
    show thesis
    proof (cases "?all = Inr True \<and> obj_MissionCount ob > 0 \<and> ?pend = Inr []")
      case True
      then show thesis using closed [OF T(3)] cl eq by simp
    next
      case False
      then have "?w' = used (used w) \<or> ?w' = used (used (used w))"
        unfolding eq by (auto split: sum.splits)
      then have core: "same_core w ?w'" "later w ?w'" by (auto simp: same_core_def later_def)
      have busy: "(\<exists>r\<in>set (pg_missions (wo_pg w)). mr_objective_id r = Some (obj_ID ob) \<and> active (mr_status r)) \<or>
          (\<exists>q\<in>set (prop_rows (wo_props w)). prop_ObjectiveID q = obj_ID ob \<and> prop_Status q = PStatusPending)"
        if "no_faults w" "0 < obj_MissionCount ob"
      proof -
        have "pending_order xs = [] \<longleftrightarrow> xs = []" for xs by (metis pending_order_def length_0_conv length_sort)
        with False nf that show ?thesis
          by (auto simp: AllMissionsTerminal_def prop_PendingForObjective_def affected_0_iff filter_empty_conv)
      qed
      show thesis using rest by (intro kept [OF core _ _ busy]) auto
    qed
  qed
qed

text \<open>The rows of other objectives, and their proposals, are left alone.\<close>

lemma obj_Update_frame: "i \<noteq> obj_ID ob \<Longrightarrow> obj_look (fst (obj_Update f t ob os)) i = obj_look os i"
  by (auto simp: obj_Update_def obj_look_update_rows split: option.splits)

lemma closes_frame: "closes ob st w w' \<Longrightarrow> i \<noteq> obj_ID ob \<Longrightarrow> obj_look (wo_objs w') i = obj_look (wo_objs w) i"
  using obj_Update_frame [of i "ob\<lparr>obj_Status := st\<rparr>"] by (auto simp: closes_def)

text \<open>
  The loop over the open objectives: each is still as it was listed when its turn comes, so a
  relation that every single check establishes holds for the whole loop.
\<close>

lemma checkConvergence_induct:
  assumes "world_ok w" "R w w" "\<And>a b c. R a b \<Longrightarrow> R b c \<Longrightarrow> R a c" "\<And>v. R v (used v)"
    and step: "\<And>v ob. world_ok v \<Longrightarrow> obj_look (wo_objs v) (obj_ID ob) = Some ob \<Longrightarrow> obj_Status ob = StatusOpen \<Longrightarrow>
      R v (checkObjectiveConvergence ac ob v)"
  shows "world_ok (checkConvergence ac w) \<and> R w (checkConvergence ac w)"
proof -
  have fold: "world_ok (fold (checkObjectiveConvergence ac) obs v) \<and> R w (fold (checkObjectiveConvergence ac) obs v)"
    if "world_ok v" "R w v" "distinct (map obj_ID obs)"
      "\<forall>ob\<in>set obs. obj_look (wo_objs v) (obj_ID ob) = Some ob \<and> obj_Status ob = StatusOpen" for obs v
    using that
  proof (induction obs arbitrary: v)
    case (Cons ob obs)
    let ?v' = "checkObjectiveConvergence ac ob v"
    from Cons.prems have ob: "obj_look (wo_objs v) (obj_ID ob) = Some ob" "obj_Status ob = StatusOpen" by auto
    have "world_ok ?v' \<and> (\<forall>i. i \<noteq> obj_ID ob \<longrightarrow> obj_look (wo_objs ?v') i = obj_look (wo_objs v) i)"
      using ob(2)
    proof (cases rule: checkObjectiveConvergence_outcomes [where w = v and ac = ac])
      case (closed st)
      then show ?thesis using world_ok_closes [OF Cons.prems(1)] closes_frame by blast
    next
      case kept
      then show ?thesis using Cons.prems(1) by (simp add: same_core_def world_ok_def)
    qed
    moreover have "R w ?v'" using assms(3) Cons.prems(2) step [OF Cons.prems(1) ob] by blast
    moreover have "\<forall>o'\<in>set obs. obj_ID o' \<noteq> obj_ID ob" using Cons.prems(3) by (simp add: image_iff) metis
    ultimately show ?case using Cons.IH [of ?v'] Cons.prems(3,4) by simp
  qed simp
  show ?thesis
  proof (cases "obj_ListByStatus (call_fault w) StatusOpen (wo_objs w)")
    case (Inl e)
    then show ?thesis using assms(1,4) by (simp add: checkConvergence_def world_ok_def)
  next
    case (Inr obs)
    then have obs: "obs = sort_key obj_CreatedAt (filter (\<lambda>r. obj_Status r = StatusOpen) (wo_objs w))"
      by (auto simp: obj_ListByStatus_def split: option.splits)
    have "distinct (map obj_ID (wo_objs w))" using assms(1) by (simp add: world_ok_def obj_table_ok_def)
    then have "distinct (map obj_ID obs)"
      "\<forall>ob\<in>set obs. obj_look (wo_objs (used w)) (obj_ID ob) = Some ob \<and> obj_Status ob = StatusOpen"
      using find_key_unique [of obj_ID "wo_objs w"] by (auto simp: obs obj_look_def distinct_map inj_on_def)
    from fold [OF _ assms(4) this] show ?thesis using assms(1) Inr by (simp add: checkConvergence_def world_ok_def)
  qed
qed

lemma evaluateProposals_induct:
  assumes "world_ok w" "\<And>a b c. R a b \<Longrightarrow> R b c \<Longrightarrow> R a c" "\<And>v. R v (used v)"
    and step: "\<And>v p. world_ok v \<Longrightarrow> R v (evaluateOne ac p v)"
  shows "world_ok (evaluateProposals ac w) \<and> R w (evaluateProposals ac w)"
proof -
  have fold: "world_ok (fold (evaluateOne ac) ps v) \<and> R w (fold (evaluateOne ac) ps v)"
    if "world_ok v" "R w v" for ps v
    using that
  proof (induction ps arbitrary: v)
    case (Cons p ps)
    then show ?case using assms(2) step world_ok_evaluateOne by auto
  qed simp
  show ?thesis
    using fold [OF _ assms(3)] assms(1,3)
    by (simp add: evaluateProposals_def world_ok_def split: sum.splits)
qed

lemma tick_evolves:
  assumes "world_ok w"
  shows "world_ok (tick ac w) \<and> objs_evolve (wo_objs w) (wo_objs (tick ac w))"
proof -
  let ?R = "\<lambda>v v'. objs_evolve (wo_objs v) (wo_objs v')"
  have 1: "world_ok (evaluateProposals ac w) \<and> ?R w (evaluateProposals ac w)"
    using assms by (rule evaluateProposals_induct) (auto intro: objs_evolve_trans evaluateOne_evolve)
  have "world_ok (checkConvergence ac v) \<and> ?R v (checkConvergence ac v)" if "world_ok v" for v
    using that
  proof (rule checkConvergence_induct)
    fix v ob assume a: "world_ok v" "obj_look (wo_objs v) (obj_ID ob) = Some ob" "obj_Status ob = StatusOpen"
    show "?R v (checkObjectiveConvergence ac ob v)"
      using a(3)
    proof (cases rule: checkObjectiveConvergence_outcomes [where w = v and ac = ac])
      case (closed st)
      then show ?thesis using a closes_evolve by (auto simp: CanTransition_iff)
    qed (simp add: same_core_def)
  qed (auto intro: objs_evolve_trans)
  with 1 show ?thesis unfolding tick_def using objs_evolve_trans by blast
qed

subsection \<open>What a single evaluation does to the queue and to the counters\<close>

lemma later_reject: "later w (reject ac p reason w)"
  using reject_effect by metis

lemma later_evaluateOne: "later w (evaluateOne ac p w)"
proof (cases rule: evaluateOne_outcomes [of w ac p])
  case (rejected w3 reason)
  then show ?thesis using later_trans later_reject by metis
next
  case (frozen w3 ob reason)
  have "later w3 (freezeObjective ac ob reason w3)"
    using freezeObjective_closes by (auto simp: closes_def)
  then show ?thesis using frozen later_trans by metis
next
  case (approved w3 ob parent)
  have "later w3 (materialize ac p ob (row_to_mission parent) w3)"
    by (cases rule: materialize_cases [of ac p ob "row_to_mission parent" w3]) auto
  then show ?thesis using approved later_trans by metis
qed

text \<open>
  The missions are extended by at most one row, and then the proposal was granted: the row is
  the wanted child of the parent, and without faults the objective counts it.
\<close>

lemma evaluateOne_missions:
  assumes "world_ok w"
  obtains (none) "pg_missions (wo_pg (evaluateOne ac p w)) = pg_missions (wo_pg w)"
      "\<And>i. map_option obj_MissionCount (obj_look (wo_objs (evaluateOne ac p w)) i) =
         map_option obj_MissionCount (obj_look (wo_objs w) i)"
  | (one) ob parent pp t f t2 where "granted ac p ob parent w" "mr_payload parent = Encoded pp"
      "pg_missions (wo_pg (evaluateOne ac p w)) = pg_missions (wo_pg w) @
         [mission_to_row (pg_seq (wo_pg w)) t (wanted_mission pp p ob (row_to_mission parent))]"
      "wo_objs (evaluateOne ac p w) = fst (obj_IncrementMissionCount f t2 (prop_ObjectiveID p) (wo_objs w))"
      "no_faults w \<Longrightarrow> f = None"
proof (cases rule: evaluateOne_outcomes [of w ac p])
  case (rejected w3 reason)
  obtain f t where "wo_objs (reject ac p reason w3) = wo_objs w3" "wo_pg (reject ac p reason w3) = wo_pg w3"
    using reject_effect by metis
  then show thesis using none rejected by (simp add: same_core_def)
next
  case (frozen w3 ob reason)
  have ok: "obj_table_ok (wo_objs w3)" and look: "obj_look (wo_objs w3) (prop_ObjectiveID p) = Some ob"
    using frozen assms by (auto simp: same_core_def world_ok_def)
  have id: "obj_ID ob = prop_ObjectiveID p" using ok look by (rule pgobj.look_ID)
  from freezeObjective_closes obtain f t where
    e: "wo_objs (freezeObjective ac ob reason w3) = fst (obj_Update f t (ob\<lparr>obj_Status := StatusFrozen\<rparr>) (wo_objs w3))"
      "wo_pg (freezeObjective ac ob reason w3) = wo_pg w3" unfolding closes_def by blast
  have "map_option obj_MissionCount (obj_look (fst (obj_Update f t (ob\<lparr>obj_Status := StatusFrozen\<rparr>) (wo_objs w3))) i) =
      map_option obj_MissionCount (obj_look (wo_objs w3) i)" for i
    using look id by (cases "i = prop_ObjectiveID p")
      (auto simp: obj_Update_def obj_look_update_rows obj_written_def split: option.splits)
  then show thesis using none frozen e by (simp add: same_core_def)
next
  case (approved w3 ob parent)
  have core: "wo_pg w3 = wo_pg w" "wo_objs w3 = wo_objs w" using approved(1) by (simp_all add: same_core_def)
  have "obj_table_ok (wo_objs w)" "obj_look (wo_objs w) (prop_ObjectiveID p) = Some ob"
    using approved(4) assms by (auto simp: world_ok_def granted_def)
  then have id: "obj_ID ob = prop_ObjectiveID p" by (rule pgobj.look_ID)
  show thesis
  proof (cases rule: materialize_cases [of ac p ob "row_to_mission parent" w3])
    case (unqueued f t n)
    then show thesis using none approved core by simp
  next
    case (queued t pp t1 m' f t2)
    have "pg_missions (wo_pg (materialize ac p ob (row_to_mission parent) w3)) = pg_missions (wo_pg w) @
        [mission_to_row (pg_seq (wo_pg w)) t1 (wanted_mission pp p ob (row_to_mission parent))]"
      using queued(3) by (cases rule: pq_Enqueue_cases) (auto simp: core)
    moreover have "no_faults w \<Longrightarrow> f = None" using queued(6) no_faults_later approved(2) by blast
    ultimately show thesis using one [OF approved(4), of pp t1 f t2] queued approved(3) id core by simp
  qed
qed

lemma wanted_mission_fields [simp]:
  "mi_ParentID (wanted_mission pp p ob parent) = Some (mi_ID parent)"
  "mi_Depth (wanted_mission pp p ob parent) = mi_Depth parent + 1"
  "mi_ObjectiveID (wanted_mission pp p ob parent) = obj_ID ob"
  "mi_DedupeKey (wanted_mission pp p ob parent) = prop_DedupeKey p"
  "mi_Priority (wanted_mission pp p ob parent) = prop_Priority p"
  "mi_Payload (wanted_mission pp p ob parent) =
     Encoded (childMissionPayload pp (prop_Task p) (prop_Contract p) (obj_ID ob))"
  by (simp_all add: wanted_mission_def child_mission_def payload_marshal_def)

definition missions_of :: "string \<Rightarrow> pg_db \<Rightarrow> int" where
  "missions_of oid db = int (length (filter (\<lambda>r. mr_objective_id r = Some oid) (pg_missions db)))"

text \<open>How far the missions table is ahead of the counter of an objective.\<close>

definition uncounted :: "string \<Rightarrow> world \<Rightarrow> int option" where
  "uncounted oid w = map_option (\<lambda>ob. missions_of oid (wo_pg w) - obj_MissionCount ob) (obj_look (wo_objs w) oid)"

lemma uncounted_cong:
  assumes "pg_missions (wo_pg w') = pg_missions (wo_pg w)"
    "map_option obj_MissionCount (obj_look (wo_objs w') oid) = map_option obj_MissionCount (obj_look (wo_objs w) oid)"
  shows "uncounted oid w' = uncounted oid w"
  using assms
  by (cases "obj_look (wo_objs w') oid"; cases "obj_look (wo_objs w) oid")
    (auto simp: uncounted_def missions_of_def)

lemma evaluateOne_accounts:
  assumes "world_ok w" "no_faults w" "oid \<noteq> []"
  shows "uncounted oid (evaluateOne ac p w) = uncounted oid w"
  using assms(1)
proof (cases rule: evaluateOne_missions [where ac = ac and p = p])
  case none
  then show ?thesis by (intro uncounted_cong) auto
next
  case (one ob parent pp t f t2)
  have ok: "obj_table_ok (wo_objs w)" and look: "obj_look (wo_objs w) (prop_ObjectiveID p) = Some ob"
    using one(1) assms(1) by (auto simp: world_ok_def granted_def)
  have id: "obj_ID ob = prop_ObjectiveID p" using ok look by (rule pgobj.look_ID)
  obtain os r where u: "obj_IncrementMissionCount None t2 (prop_ObjectiveID p) (wo_objs w) = (os, r)" by fastforce
  have objs: "wo_objs (evaluateOne ac p w) = os" using one(4,5) assms(2) u by simp
  note inc = pgobj.incr_present [OF ok look u]
  show ?thesis
    using inc look id assms(3)
    by (cases "oid = prop_ObjectiveID p")
      (auto simp: uncounted_def missions_of_def one(3) objs nilIfEmpty_def)
qed

lemma closes_counts:
  assumes "closes ob st w w'" "obj_look (wo_objs w) (obj_ID ob) = Some ob"
  shows "uncounted oid w' = uncounted oid w"
proof -
  from assms(1) obtain f t where e: "wo_objs w' = fst (obj_Update f t (ob\<lparr>obj_Status := st\<rparr>) (wo_objs w))"
    "wo_pg w' = wo_pg w" unfolding closes_def by blast
  have "map_option obj_MissionCount (obj_look (wo_objs w') oid) = map_option obj_MissionCount (obj_look (wo_objs w) oid)"
    unfolding e(1) using assms(2) by (cases "oid = obj_ID ob")
      (auto simp: obj_Update_def obj_look_update_rows obj_written_def split: option.splits)
  then show ?thesis using e(2) by (intro uncounted_cong) simp_all
qed

lemma uncounted_used [simp]: "uncounted oid (used w) = uncounted oid w"
  by (simp add: uncounted_def)

lemma later_checkObjective: "obj_Status ob = StatusOpen \<Longrightarrow> later w (checkObjectiveConvergence ac ob w)"
  by (erule checkObjectiveConvergence_outcomes [where w = w and ac = ac]) (auto simp: closes_def)

lemma tick_accounts:
  assumes "world_ok w" "no_faults w" "oid \<noteq> []"
  shows "uncounted oid (tick ac w) = uncounted oid w"
proof -
  let ?R = "\<lambda>v v'. no_faults v \<longrightarrow> no_faults v' \<and> uncounted oid v' = uncounted oid v"
  have 1: "world_ok (evaluateProposals ac w) \<and> ?R w (evaluateProposals ac w)"
    using assms(1)
    by (rule evaluateProposals_induct)
      (auto simp: evaluateOne_accounts assms(3) intro: no_faults_later [OF _ later_evaluateOne])
  have "world_ok (checkConvergence ac v) \<and> ?R v (checkConvergence ac v)" if "world_ok v" for v
    using that
  proof (rule checkConvergence_induct)
    fix v ob assume a: "world_ok v" "obj_look (wo_objs v) (obj_ID ob) = Some ob" "obj_Status ob = StatusOpen"
    have "uncounted oid (checkObjectiveConvergence ac ob v) = uncounted oid v"
      using a(3)
    proof (cases rule: checkObjectiveConvergence_outcomes [where w = v and ac = ac])
      case (closed st)
      then show ?thesis using closes_counts a(2) by blast
    next
      case kept
      then show ?thesis by (simp add: uncounted_def same_core_def)
    qed
    then show "?R v (checkObjectiveConvergence ac ob v)"
      using no_faults_later later_checkObjective [OF a(3)] by blast
  qed auto
  with 1 assms(2) show ?thesis by (simp add: tick_def)
qed

subsection \<open>Proposals are decided once and for all\<close>

lemma pending_decisions:
  assumes "prop_table_ok ps"
  shows "pending_ids (fst (prop_Approve f t i ps)) = {x \<in> pending_ids ps. f = None \<longrightarrow> fst x \<noteq> i}"
    "pending_ids (fst (prop_Reject f t i nt ps)) = {x \<in> pending_ids ps. f = None \<longrightarrow> fst x \<noteq> i}"
    "pending_ids (fst (prop_RejectAllPending f t oid nt ps)) = {x \<in> pending_ids ps. f = None \<longrightarrow> snd x \<noteq> oid}"
proof -
  show "pending_ids (fst (prop_Approve f t i ps)) = {x \<in> pending_ids ps. f = None \<longrightarrow> fst x \<noteq> i}"
    using prop_Approve_spec [OF assms prod.collapse [symmetric], of t i] by (cases f) (auto simp: prop_Approve_def)
  show "pending_ids (fst (prop_Reject f t i nt ps)) = {x \<in> pending_ids ps. f = None \<longrightarrow> fst x \<noteq> i}"
    using prop_Reject_spec [OF assms prod.collapse [symmetric], of t i nt] by (cases f) (auto simp: prop_Reject_def)
  show "pending_ids (fst (prop_RejectAllPending f t oid nt ps)) = {x \<in> pending_ids ps. f = None \<longrightarrow> snd x \<noteq> oid}"
    using prop_RejectAllPending_spec [OF assms prod.collapse [symmetric], of t oid nt]
    by (cases f) (auto simp: prop_RejectAllPending_def)
qed

definition pend :: "world \<Rightarrow> (int \<times> string) set" where
  "pend w = pending_ids (wo_props w)"

lemma closes_pend:
  assumes "world_ok w" "closes ob st w w'"
  shows "pend w' \<subseteq> pend w"
    and "no_faults w \<Longrightarrow> obj_look (wo_objs w) (obj_ID ob) \<noteq> None \<Longrightarrow> pend w' = {x \<in> pend w. snd x \<noteq> obj_ID ob}"
proof -
  have ok: "prop_table_ok (wo_props w)" using assms(1) by (simp add: world_ok_def)
  show "pend w' \<subseteq> pend w"
    using assms(2) unfolding closes_def pend_def
    by (elim exE conjE disjE) (simp_all add: pending_decisions(3) [OF ok])
  assume "no_faults w" "obj_look (wo_objs w) (obj_ID ob) \<noteq> None"
  then obtain t' reason where "wo_props w' = fst (prop_RejectAllPending None t' (obj_ID ob) reason (wo_props w))"
    using assms(2) unfolding closes_def by blast
  then show "pend w' = {x \<in> pend w. snd x \<noteq> obj_ID ob}"
    using pending_decisions(3) [OF ok] by (simp add: pend_def)
qed

lemma evaluateOne_pend:
  assumes "world_ok w"
  shows "pend (evaluateOne ac p w) \<subseteq> pend w"
    and "no_faults w \<Longrightarrow> (prop_ID p, prop_ObjectiveID p) \<notin> pend (evaluateOne ac p w)"
proof -
  let ?w' = "evaluateOne ac p w"
  have ok: "prop_table_ok (wo_props w)" using assms by (simp add: world_ok_def)
  have "pend ?w' \<subseteq> pend w \<and> (no_faults w \<longrightarrow> (prop_ID p, prop_ObjectiveID p) \<notin> pend ?w')"
  proof (cases rule: evaluateOne_outcomes [of w ac p])
    case (rejected w3 reason)
    obtain f t where "wo_props (reject ac p reason w3) = fst (prop_Reject f t (prop_ID p) reason (wo_props w3))"
      "no_faults w3 \<Longrightarrow> f = None" using reject_effect by metis
    then show ?thesis using rejected pending_decisions(2) [OF ok] no_faults_later
      by (auto simp: pend_def same_core_def)
  next
    case (frozen w3 ob reason)
    have look: "obj_look (wo_objs w3) (prop_ObjectiveID p) = Some ob" and ok3: "world_ok w3"
      using frozen assms by (auto simp: same_core_def world_ok_def)
    then have "obj_ID ob = prop_ObjectiveID p" using pgobj.look_ID by (auto simp: world_ok_def)
    with closes_pend [OF ok3 freezeObjective_closes [of ob w3 ac reason]] look show ?thesis
      using frozen(1-3) no_faults_later by (auto simp: pend_def same_core_def)
  next
    case (approved w3 ob parent)
    have "\<exists>f t. wo_props ?w' = fst (prop_Approve f t (prop_ID p) (wo_props w3)) \<and> (no_faults w3 \<longrightarrow> f = None)"
      by (cases rule: materialize_cases [of ac p ob "row_to_mission parent" w3]) (auto simp: approved(3))
    then show ?thesis using approved pending_decisions(1) [OF ok] no_faults_later
      by (auto simp: pend_def same_core_def)
  qed
  then show "pend ?w' \<subseteq> pend w" "no_faults w \<Longrightarrow> (prop_ID p, prop_ObjectiveID p) \<notin> pend ?w'" by auto
qed

lemma evaluate_fold_pend:
  assumes "world_ok w" "no_faults w"
  shows "pend (fold (evaluateOne ac) ps w) \<subseteq> pend w - (\<lambda>p. (prop_ID p, prop_ObjectiveID p)) ` set ps"
  using assms
proof (induction ps arbitrary: w)
  case (Cons p ps)
  let ?w1 = "evaluateOne ac p w"
  have "world_ok ?w1" "no_faults ?w1"
    using Cons.prems world_ok_evaluateOne no_faults_later later_evaluateOne by blast+
  from Cons.IH [OF this] evaluateOne_pend [OF Cons.prems(1), where ac = ac and p = p] Cons.prems(2) show ?case by auto
qed simp

lemma evaluateProposals_decides:
  assumes "world_ok w" "no_faults w"
  shows "pend (evaluateProposals ac w) = {}"
proof -
  let ?ps = "pending_order (filter (\<lambda>p. prop_Status p = PStatusPending) (prop_rows (wo_props w)))"
  have "evaluateProposals ac w = fold (evaluateOne ac) ?ps (used w)"
    using assms(2) by (simp add: evaluateProposals_def prop_PendingProposals_def call_fault_None)
  moreover have "pend w = (\<lambda>p. (prop_ID p, prop_ObjectiveID p)) ` set ?ps"
    by (auto simp: pend_def pending_ids_def)
  moreover have "pend (used w) = pend w" "world_ok (used w)" "no_faults (used w)"
    using assms by (auto simp: pend_def world_ok_def)
  ultimately show ?thesis using evaluate_fold_pend [of "used w" ac ?ps] by auto
qed

lemma tick_pend:
  assumes "world_ok w"
  shows "pend (tick ac w) \<subseteq> pend w"
proof -
  let ?R = "\<lambda>v v'. pend v' \<subseteq> pend v"
  have 1: "world_ok (evaluateProposals ac w) \<and> ?R w (evaluateProposals ac w)"
    using assms by (rule evaluateProposals_induct) (use evaluateOne_pend(1) in \<open>auto simp: pend_def\<close>)
  have "world_ok (checkConvergence ac v) \<and> ?R v (checkConvergence ac v)" if "world_ok v" for v
    using that
  proof (rule checkConvergence_induct)
    fix v ob assume a: "world_ok v" "obj_look (wo_objs v) (obj_ID ob) = Some ob" "obj_Status ob = StatusOpen"
    show "?R v (checkObjectiveConvergence ac ob v)"
      using a(3)
    proof (cases rule: checkObjectiveConvergence_outcomes [where w = v and ac = ac])
      case (closed st)
      then show ?thesis using closes_pend(1) a(1) by blast
    qed (simp add: pend_def same_core_def)
  qed (auto simp: pend_def)
  with 1 show ?thesis unfolding tick_def by blast
qed

subsection \<open>After a faultless cycle no objective is left open without cause\<close>

definition converged :: "world \<Rightarrow> string \<Rightarrow> bool" where
  "converged w i \<longleftrightarrow> (\<forall>ob. obj_look (wo_objs w) i = Some ob \<and> obj_Status ob = StatusOpen \<longrightarrow>
     obj_MissionCount ob < obj_MaxMissions ob \<and>
     (0 < obj_MaxRuntime ob \<longrightarrow> (\<exists>n. en_now (wo_env w n) - obj_CreatedAt ob < obj_MaxRuntime ob)) \<and>
     (0 < obj_MissionCount ob \<longrightarrow>
       (\<exists>r\<in>set (pg_missions (wo_pg w)). mr_objective_id r = Some i \<and> active (mr_status r))))"

lemma check_converges:
  assumes "world_ok v" "no_faults v" "pend v = {}" "obj_look (wo_objs v) (obj_ID ob) = Some ob" "obj_Status ob = StatusOpen"
  shows "converged (checkObjectiveConvergence ac ob v) (obj_ID ob)"
  using assms(5)
proof (cases rule: checkObjectiveConvergence_outcomes [where w = v and ac = ac])
  case (closed st)
  then obtain t where "wo_objs (checkObjectiveConvergence ac ob v) = fst (obj_Update None t (ob\<lparr>obj_Status := st\<rparr>) (wo_objs v))"
    using assms(2) unfolding closes_def by blast
  moreover obtain os r where u: "obj_Update None t (ob\<lparr>obj_Status := st\<rparr>) (wo_objs v) = (os, r)" by fastforce
  moreover have "obj_look os (obj_ID ob) = Some (ob\<lparr>obj_Status := st, obj_UpdatedAt := t\<rparr>)"
    using pgobj.update_present [of "wo_objs v" "ob\<lparr>obj_Status := st\<rparr>" ob t os r] assms u
    by (simp add: obj_written_same world_ok_def)
  moreover have "st \<noteq> StatusOpen" using closed(1) by (auto simp: Terminal_def)
  ultimately show ?thesis by (simp add: converged_def)
next
  case kept
  have "\<not> (\<exists>q\<in>set (prop_rows (wo_props v)). prop_ObjectiveID q = obj_ID ob \<and> prop_Status q = PStatusPending)"
    using assms(3) by (auto simp: pend_def pending_ids_def)
  then show ?thesis
    using kept assms by (auto simp: converged_def same_core_def later_def call_now_def)
qed

lemma check_frame:
  assumes "world_ok v" "obj_Status ob = StatusOpen"
  shows "world_ok (checkObjectiveConvergence ac ob v)" "later v (checkObjectiveConvergence ac ob v)"
    "wo_pg (checkObjectiveConvergence ac ob v) = wo_pg v" "pend (checkObjectiveConvergence ac ob v) \<subseteq> pend v"
    "\<And>i. i \<noteq> obj_ID ob \<Longrightarrow> obj_look (wo_objs (checkObjectiveConvergence ac ob v)) i = obj_look (wo_objs v) i"
proof -
  show "later v (checkObjectiveConvergence ac ob v)" using later_checkObjective [OF assms(2)] .
  have "world_ok (checkObjectiveConvergence ac ob v) \<and> wo_pg (checkObjectiveConvergence ac ob v) = wo_pg v \<and>
      pend (checkObjectiveConvergence ac ob v) \<subseteq> pend v \<and>
      (\<forall>i. i \<noteq> obj_ID ob \<longrightarrow> obj_look (wo_objs (checkObjectiveConvergence ac ob v)) i = obj_look (wo_objs v) i)"
    using assms(2)
  proof (cases rule: checkObjectiveConvergence_outcomes [where w = v and ac = ac])
    case (closed st)
    moreover have "wo_pg (checkObjectiveConvergence ac ob v) = wo_pg v" using closed(2) by (auto simp: closes_def)
    ultimately show ?thesis
      using world_ok_closes [OF assms(1)] closes_pend(1) [OF assms(1)] closes_frame by blast
  next
    case kept
    then show ?thesis using assms(1) by (simp add: same_core_def world_ok_def pend_def)
  qed
  then show "world_ok (checkObjectiveConvergence ac ob v)" "wo_pg (checkObjectiveConvergence ac ob v) = wo_pg v"
    "pend (checkObjectiveConvergence ac ob v) \<subseteq> pend v"
    "\<And>i. i \<noteq> obj_ID ob \<Longrightarrow> obj_look (wo_objs (checkObjectiveConvergence ac ob v)) i = obj_look (wo_objs v) i"
    by auto
qed

lemma fold_frame:
  assumes "world_ok v" "\<forall>ob\<in>set obs. obj_Status ob = StatusOpen"
  shows "wo_pg (fold (checkObjectiveConvergence ac) obs v) = wo_pg v \<and>
    wo_env (fold (checkObjectiveConvergence ac) obs v) = wo_env v \<and>
    (\<forall>i. i \<notin> obj_ID ` set obs \<longrightarrow> obj_look (wo_objs (fold (checkObjectiveConvergence ac) obs v)) i = obj_look (wo_objs v) i)"
  using assms
proof (induction obs arbitrary: v)
  case (Cons ob obs)
  then have st: "obj_Status ob = StatusOpen" by simp
  note f = check_frame [OF Cons.prems(1) st, where ac = ac]
  from Cons.IH [OF f(1)] Cons.prems(2) f show ?case by (auto simp: later_def)
qed simp

lemma fold_converges:
  assumes "world_ok v" "no_faults v" "pend v = {}" "distinct (map obj_ID obs)"
    "\<forall>ob\<in>set obs. obj_look (wo_objs v) (obj_ID ob) = Some ob \<and> obj_Status ob = StatusOpen"
  shows "\<forall>ob\<in>set obs. converged (fold (checkObjectiveConvergence ac) obs v) (obj_ID ob)"
  using assms
proof (induction obs arbitrary: v)
  case (Cons ob obs)
  let ?v1 = "checkObjectiveConvergence ac ob v"
  have ob: "obj_look (wo_objs v) (obj_ID ob) = Some ob" "obj_Status ob = StatusOpen" using Cons.prems(5) by auto
  note f = check_frame [OF Cons.prems(1) ob(2), where ac = ac]
  have new: "obj_ID ob \<notin> obj_ID ` set obs" using Cons.prems(4) by simp
  have rest: "\<forall>o'\<in>set obs. obj_look (wo_objs ?v1) (obj_ID o') = Some o' \<and> obj_Status o' = StatusOpen"
    using Cons.prems(5) f(5) new by (metis image_eqI list.set_intros(2))
  have nf: "no_faults ?v1" using no_faults_later [OF Cons.prems(2) f(2)] .
  have "pend ?v1 = {}" using f(4) Cons.prems(3) by blast
  from Cons.IH [OF f(1) nf this _ rest] Cons.prems(4) have tl: "\<forall>o'\<in>set obs. converged (fold (checkObjectiveConvergence ac) (ob # obs) v) (obj_ID o')"
    by simp
  have hd: "converged ?v1 (obj_ID ob)" by (rule check_converges [OF Cons.prems(1-3) ob])
  from fold_frame [OF f(1), of obs ac] rest new have
    "converged (fold (checkObjectiveConvergence ac) obs ?v1) (obj_ID ob) = converged ?v1 (obj_ID ob)"
    by (simp add: converged_def)
  with hd tl show ?case by simp
qed simp

lemma tick_converges:
  assumes "world_ok w" "no_faults w"
  shows "converged (tick ac w) i"
proof -
  let ?R = "\<lambda>v v'. no_faults v \<longrightarrow> no_faults v'"
  let ?v = "evaluateProposals ac w"
  have v: "world_ok ?v \<and> ?R w ?v"
    using assms(1) by (rule evaluateProposals_induct) (auto intro: no_faults_later [OF _ later_evaluateOne])
  have pend: "pend ?v = {}" using evaluateProposals_decides [OF assms] .
  let ?obs = "sort_key obj_CreatedAt (filter (\<lambda>r. obj_Status r = StatusOpen) (wo_objs ?v))"
  have tick: "tick ac w = fold (checkObjectiveConvergence ac) ?obs (used ?v)"
    using v assms(2) by (simp add: tick_def checkConvergence_def obj_ListByStatus_def call_fault_None)
  have d: "distinct (map obj_ID (wo_objs ?v))" using v by (simp add: world_ok_def obj_table_ok_def)
  then have obs: "distinct (map obj_ID ?obs)"
    "\<forall>ob\<in>set ?obs. obj_look (wo_objs (used ?v)) (obj_ID ob) = Some ob \<and> obj_Status ob = StatusOpen"
    using find_key_unique [of obj_ID "wo_objs ?v"] by (auto simp: obj_look_def distinct_map inj_on_def)
  have ok: "world_ok (used ?v)" "no_faults (used ?v)" "pend (used ?v) = {}"
    using v assms(2) pend by (auto simp: world_ok_def pend_def)
  note all = fold_converges [OF ok obs, of ac]
  show ?thesis
  proof (cases "i \<in> obj_ID ` set ?obs")
    case True
    then show ?thesis using all unfolding tick by blast
  next
    case False
    have op: "\<forall>ob\<in>set ?obs. obj_Status ob = StatusOpen" by simp
    from fold_frame [OF ok(1) op, of ac] False
    have "obj_look (wo_objs (tick ac w)) i = obj_look (wo_objs (used ?v)) i" unfolding tick by blast
    moreover have "obj_Status ob \<noteq> StatusOpen" if "obj_look (wo_objs ?v) i = Some ob" for ob
    proof -
      have "ob \<in> set (wo_objs ?v)" "obj_ID ob = i"
        using that unfolding obj_look_def by (auto dest: find_SomeD)
      then show ?thesis using False by auto
    qed
    ultimately show ?thesis by (auto simp: converged_def)
  qed
qed

end
