(* ===== verification/AdmissionProperties.thy ===== *)
theory AdmissionProperties
  imports AdmissionTick
begin

text \<open>
  What the admission controller guarantees, as closed statements on \<open>Evaluate\<close>, \<open>evaluateOne\<close>,
  \<open>evaluateProposals\<close> and \<open>tick\<close>, each with an instance on a small deployment: one open
  objective, its root mission, and a proposal for a child mission.
\<close>

subsection \<open>A small deployment\<close>

definition sample_payload :: MissionPayload where
  "sample_payload =
     \<lparr>mp_Task = ''root'', mp_Contract = [], mp_BaseBranch = ''main'', mp_Model = [], mp_Mode = [],
      mp_RuntimeType = ''claude'', mp_AllowedTools = [], mp_MCPServers = [], mp_Backend = [], mp_ConfigPath = [],
      mp_GraphAddr = [], mp_StrategyDir = [], mp_ConfigHash = [], mp_GatewayURL = [], mp_ObjectiveID = ''o1'',
      mp_MissionID = 1, mp_StagedCredentialRefs = []\<rparr>"

definition sample_parent :: mission_row where
  "sample_parent =
     \<lparr>mr_id = 1, mr_status = MsClaimed, mr_payload = Encoded sample_payload, mr_agent_task = ''root'',
      mr_claimed_by = Some ''w1'', mr_claimed_at = Some 5, mr_created_at = 4, mr_completed_at = None, mr_error = [],
      mr_priority = 0, mr_objective_id = Some ''o1'', mr_parent_id = None, mr_depth = 0, mr_dedupe_key = [],
      mr_proposed_by = []\<rparr>"

definition sample_objective :: objective where
  "sample_objective =
     \<lparr>obj_ID = ''o1'', obj_Description = [], obj_Status = StatusOpen, obj_CreatedAt = 3, obj_UpdatedAt = 3,
      obj_CreatedBy = [], obj_MaxMissions = 100, obj_MaxDepth = 5, obj_MaxRuntime = 1000, obj_MaxBranching = 5,
      obj_MissionCount = 1, obj_FindingCount = 0, obj_Outcome = [], obj_OutcomeData = None\<rparr>"

definition sample_proposal :: proposal where
  "sample_proposal =
     \<lparr>prop_ID = 1, prop_ObjectiveID = ''o1'', prop_ParentMission = 1, prop_ProposedBy = ''root'', prop_Task = ''dig'',
      prop_Contract = [], prop_Priority = 2, prop_DedupeKey = ''k'', prop_Rationale = [], prop_Evidence = None,
      prop_Status = PStatusPending, prop_CreatedAt = 6, prop_ReviewedAt = None, prop_RejectionNote = []\<rparr>"

definition sample_world :: world where
  "sample_world =
     \<lparr>wo_props = \<lparr>prop_rows = [sample_proposal], prop_seq = 2\<rparr>, wo_objs = [sample_objective],
      wo_pg = \<lparr>pg_missions = [sample_parent], pg_seq = 2, pg_agents = []\<rparr>, wo_mail = [],
      wo_env = (\<lambda>n. \<lparr>en_fault = None, en_point = AtBegin, en_now = 10\<rparr>), wo_n = 0\<rparr>"

definition sample_controller :: controller where
  "sample_controller = \<lparr>ac_policy = DefaultPolicy, ac_mailbox = True, ac_nullscan = None\<rparr>"

lemmas sample_defs = sample_world_def sample_controller_def sample_proposal_def sample_objective_def
  sample_parent_def sample_payload_def

lemma sample_world_ok: "world_ok sample_world"
  by (simp add: world_ok_def sample_defs prop_table_ok_def obj_table_ok_def pg_ok_def)

lemma sample_no_faults: "no_faults sample_world"
  by (simp add: no_faults_def sample_defs)

lemma sample_look: "obj_look (wo_objs sample_world) ''o1'' = Some sample_objective"
  by (simp add: obj_look_def sample_defs)

lemma sample_pending: "pending_ids (wo_props sample_world) = {(1, ''o1'')}"
proof -
  have "{p \<in> set [sample_proposal]. prop_Status p = PStatusPending} = {sample_proposal}"
    by (simp add: Collect_conv_if) (simp add: sample_proposal_def)
  then show ?thesis by (simp add: pending_ids_def sample_world_def) (simp add: sample_proposal_def)
qed

text \<open>Carried out on the sample, the proposal is approved and its mission is queued.\<close>

lemmas controller_defs =
  evaluateOne_def obj_Get_def call_fault_def call_now_def used_def GetMission_def row_to_mission_def
  CountActiveChildren_def affected_def active_def Evaluate_def DefaultPolicy_def breaker_threshold_def
  materialize_def prop_Approve_def update_rows_def enqueue_call_def pq_Enqueue_def mission_to_row_def dedupe_clash_def
  child_mission_def child_agent_def childMissionPayload_def child_task_name_def payload_marshal_def nilIfEmpty_def
  obj_IncrementMissionCount_def notify_def

lemma sample_missions:
  "map mr_depth (pg_missions (wo_pg (evaluateOne sample_controller sample_proposal sample_world))) = [0, 1]"
  by (simp add: sample_defs controller_defs Let_def)

lemma sample_tick:
  "obj_look (wo_objs (tick sample_controller sample_world)) ''o1'' =
     Some (sample_objective\<lparr>obj_MissionCount := 2, obj_UpdatedAt := 10\<rparr>)"
  by (simp add: sample_defs controller_defs Let_def tick_def evaluateProposals_def prop_PendingProposals_def
      pending_order_def checkConvergence_def obj_ListByStatus_def checkObjectiveConvergence_def
      AllMissionsTerminal_def obj_look_def)

subsection \<open>The decision\<close>

text \<open>
  C2 (policy_approves_iff): the policy approves a proposal exactly when the active children could
  be counted, the objective is open and below its mission cap, the child's depth, the parent's
  branching and the objective's age are within their limits, evidence is given once it is
  required, and the number of missions is below the circuit breaker's threshold.
\<close>

theorem policy_approves_iff:
  "fst (Evaluate p t pr ob parent children) = ActionApprove \<longleftrightarrow>
     (\<exists>n. children = Inr n \<and> admissible p t pr ob (mi_Depth parent) n)"
  by (rule Evaluate_approve)

subsection \<open>What one tick does\<close>

lemma obj_steps_limits:
  assumes "obj_step\<^sup>*\<^sup>* ob ob'"
  shows "obj_MaxMissions ob' = obj_MaxMissions ob \<and> obj_MissionCount ob \<le> obj_MissionCount ob' \<and>
    obj_MissionCount ob' \<le> max (obj_MissionCount ob) (obj_MaxMissions ob) \<and>
    (obj_Status ob' = obj_Status ob \<or> obj_Status ob = StatusOpen \<and> CanTransition StatusOpen (obj_Status ob'))"
  using assms by (induction rule: rtranclp_induct) (auto elim!: obj_stepE simp: CanTransition_iff)

lemma obj_steps_not_open: "obj_step\<^sup>*\<^sup>* ob ob' \<Longrightarrow> obj_Status ob \<noteq> StatusOpen \<Longrightarrow> ob' = ob"
  by (induction rule: converse_rtranclp_induct) (auto elim: obj_stepE)

text \<open>
  C1 (tick_keeps_budget): whatever the databases' failures and the clock, a tick keeps the tables
  well formed and keeps every objective: its mission count never falls and never passes its cap
  (or stays where it was), its status moves only from open along \<open>AllowedTransitions\<close>, and an
  objective that is not open is not touched at all.
\<close>

theorem tick_keeps_budget:
  assumes "world_ok w" "obj_look (wo_objs w) i = Some ob"
  shows "world_ok (tick ac w) \<and>
    (\<exists>ob'. obj_look (wo_objs (tick ac w)) i = Some ob' \<and>
      obj_MaxMissions ob' = obj_MaxMissions ob \<and> obj_MissionCount ob \<le> obj_MissionCount ob' \<and>
      obj_MissionCount ob' \<le> max (obj_MissionCount ob) (obj_MaxMissions ob) \<and>
      (obj_Status ob' = obj_Status ob \<or> obj_Status ob = StatusOpen \<and> CanTransition StatusOpen (obj_Status ob')) \<and>
      (obj_Status ob = StatusOpen \<or> ob' = ob))"
proof -
  have ok: "world_ok (tick ac w)" and ev: "objs_evolve (wo_objs w) (wo_objs (tick ac w))"
    using tick_evolves [OF assms(1)] by auto
  from ev assms(2) obtain ob' where ob': "obj_look (wo_objs (tick ac w)) i = Some ob'" "obj_step\<^sup>*\<^sup>* ob ob'"
    unfolding objs_evolve_def by (metis option_rel_Some1)
  with ok obj_steps_limits [OF ob'(2)] obj_steps_not_open [OF ob'(2)] show ?thesis by blast
qed

theorem tick_keeps_budget_witness:
  "\<exists>ob'. obj_look (wo_objs (tick sample_controller sample_world)) ''o1'' = Some ob' \<and>
     obj_MissionCount ob' \<le> 100 \<and> obj_MaxMissions ob' = 100"
  using tick_keeps_budget [OF sample_world_ok sample_look, of sample_controller]
  by (auto simp: sample_objective_def)

text \<open>
  C3 (new_missions_within_limits): a mission that the handling of a proposal adds belongs to the
  proposal's objective and hangs under the mission it names; at that moment the policy's checks
  held, so its depth is at most the objective's and the parent had fewer active children than
  the branching limit. The row is pending and carries the proposal's priority and key.
\<close>

theorem new_missions_within_limits:
  assumes "world_ok w" "r \<in> set (pg_missions (wo_pg (evaluateOne ac p w)))" "r \<notin> set (pg_missions (wo_pg w))"
  shows "\<exists>ob parent. obj_look (wo_objs w) (prop_ObjectiveID p) = Some ob \<and>
    pg_look (wo_pg w) (prop_ParentMission p) = Some parent \<and>
    obj_Status ob = StatusOpen \<and> obj_MissionCount ob < obj_MaxMissions ob \<and>
    mr_parent_id r = Some (mr_id parent) \<and> mr_depth r = mr_depth parent + 1 \<and> mr_depth r \<le> obj_MaxDepth ob \<and>
    active_children (mr_id parent) (wo_pg w) < obj_MaxBranching ob \<and>
    mr_objective_id r = nilIfEmpty (obj_ID ob) \<and> mr_status r = MsPending \<and>
    mr_priority r = prop_Priority p \<and> mr_dedupe_key r = prop_DedupeKey p"
  using assms(1)
proof (cases rule: evaluateOne_missions [where ac = ac and p = p])
  case none
  with assms(2,3) show ?thesis by simp
next
  case (one ob parent pp t f t2)
  from one(3) assms(2,3) have r: "r = mission_to_row (pg_seq (wo_pg w)) t (wanted_mission pp p ob (row_to_mission parent))"
    by auto
  from one(1) show ?thesis
    unfolding granted_def admissible_def by (intro exI [of _ ob] exI [of _ parent]) (auto simp: r mission_to_row_def)
qed

theorem new_missions_within_limits_witness:
  "\<exists>r. r \<in> set (pg_missions (wo_pg (evaluateOne sample_controller sample_proposal sample_world))) \<and>
     mr_depth r \<le> 5 \<and> mr_priority r = 2"
proof -
  let ?ms = "pg_missions (wo_pg (evaluateOne sample_controller sample_proposal sample_world))"
  have two: "map mr_depth ?ms = [0, 1]" by (rule sample_missions)
  then have "1 \<in> mr_depth ` set ?ms" by (metis list.set_intros(1,2) list.set_map)
  then obtain r where r: "r \<in> set ?ms" "mr_depth r = 1" by auto
  then have "r \<notin> set (pg_missions (wo_pg sample_world))" by (auto simp: sample_defs)
  from new_missions_within_limits [OF sample_world_ok r(1) this] sample_look r show ?thesis
    by (intro exI [of _ r]) (auto simp: sample_proposal_def sample_objective_def)
qed

text \<open>
  when no database call of the tick fails, the number of rows an
  objective has in the missions table and its mission counter grow together.
\<close>

theorem tick_accounts_for_missions:
  assumes "world_ok w" "no_faults w" "oid \<noteq> []"
  shows "map_option (\<lambda>ob. missions_of oid (wo_pg (tick ac w)) - obj_MissionCount ob) (obj_look (wo_objs (tick ac w)) oid) =
    map_option (\<lambda>ob. missions_of oid (wo_pg w) - obj_MissionCount ob) (obj_look (wo_objs w) oid)"
  using tick_accounts [OF assms, of ac] by (simp add: uncounted_def)

theorem tick_accounts_for_missions_witness:
  "map_option (\<lambda>ob. missions_of ''o1'' (wo_pg (tick sample_controller sample_world)) - obj_MissionCount ob)
     (obj_look (wo_objs (tick sample_controller sample_world)) ''o1'') = Some 0"
  using tick_accounts_for_missions [OF sample_world_ok sample_no_faults, of "''o1''" sample_controller] sample_look
  by (simp add: missions_of_def sample_defs)

text \<open>
  C4 (proposals_all_decided): when no database call fails, no proposal is pending after a pass
  over the pending ones: each is approved or rejected, or goes with its frozen objective.
\<close>

theorem proposals_all_decided:
  assumes "world_ok w" "no_faults w"
  shows "pending_ids (wo_props (evaluateProposals ac w)) = {}"
  using evaluateProposals_decides [OF assms] by (simp add: pend_def)

theorem proposals_all_decided_witness:
  "pending_ids (wo_props sample_world) = {(1, ''o1'')} \<and>
     pending_ids (wo_props (evaluateProposals sample_controller sample_world)) = {}"
  using proposals_all_decided [OF sample_world_ok sample_no_faults, of sample_controller]
  by (simp add: sample_pending)

text \<open>
  When no database call fails, an objective that is still open after a
  tick is below its mission cap, was within its runtime at some clock reading of the tick, and
  either has had no mission yet or has one that is pending or claimed.
\<close>

theorem tick_leaves_converged:
  assumes "world_ok w" "no_faults w" "obj_look (wo_objs (tick ac w)) i = Some ob" "obj_Status ob = StatusOpen"
  shows "obj_MissionCount ob < obj_MaxMissions ob \<and>
    (obj_MaxRuntime ob \<le> 0 \<or> (\<exists>n. en_now (wo_env (tick ac w) n) - obj_CreatedAt ob < obj_MaxRuntime ob)) \<and>
    (obj_MissionCount ob \<le> 0 \<or>
      (\<exists>r. r \<in> set (pg_missions (wo_pg (tick ac w))) \<and> mr_objective_id r = Some i \<and> active (mr_status r)))"
  using tick_converges [OF assms(1,2), of ac i] assms(3,4) by (fastforce simp: converged_def not_less)

theorem tick_leaves_converged_witness:
  "\<exists>r. r \<in> set (pg_missions (wo_pg (tick sample_controller sample_world))) \<and>
     mr_objective_id r = Some ''o1'' \<and> active (mr_status r)"
  using tick_leaves_converged [OF sample_world_ok sample_no_faults sample_tick] by (simp add: sample_objective_def)

text \<open>
  Whatever fails, a tick makes no decided proposal pending again.
\<close>

theorem decided_stays_decided_by_tick:
  assumes "world_ok w"
  shows "pending_ids (wo_props (tick ac w)) \<subseteq> pending_ids (wo_props w)"
  using tick_pend [OF assms] by (simp add: pend_def)

theorem decided_stays_decided_by_tick_witness:
  "pending_ids (wo_props (tick sample_controller sample_world)) \<subseteq> {(1, ''o1'')}"
  using decided_stays_decided_by_tick [OF sample_world_ok, of sample_controller]
  by (simp add: sample_pending)

end
