(* ===== verification/Registry.thy ===== *)
theory Registry
  imports AgentStore "HOL-Library.Char_ord" "HOL-Library.List_Lexorder" "HOL-Library.Product_Lexorder"
begin

text \<open>
  The MCP server registry: \<open>internal/authz\<close> (roles, actions, the authorizer),
  \<open>internal/registry/types.go\<close>, \<open>transport.go\<close> and \<open>service.go\<close>, and the SQLite store
  \<open>internal/registry/sqliteregistry\<close> with the constraints of its schema (primary keys, the
  \<open>CHECK\<close>s, the foreign key with \<open>ON DELETE CASCADE\<close>).

  The locale \<open>tool_registry\<close> is what the gateway and the reconciler rely on: what the
  \<open>enabled\<close> flag of a tool is after an operator's switch and after a discovery. The lemmas on
  the service say who can change the tables and what the audit log then holds.
\<close>

subsection \<open>\<open>internal/authz\<close>\<close>

datatype authz_action =
    ActRegisterServer | ActUpdateServer | ActDeleteServer | ActEnableTool | ActDisableTool
  | ActViewCatalog | ActSearchTool | ActViewStatus | ActCallTool | ActRefreshDiscovery | ActBindSecret

fun action_string :: "authz_action \<Rightarrow> string" where
  "action_string ActRegisterServer = ''RegisterServer''"
| "action_string ActUpdateServer = ''UpdateServer''"
| "action_string ActDeleteServer = ''DeleteServer''"
| "action_string ActEnableTool = ''EnableTool''"
| "action_string ActDisableTool = ''DisableTool''"
| "action_string ActViewCatalog = ''ViewCatalog''"
| "action_string ActSearchTool = ''SearchTool''"
| "action_string ActViewStatus = ''ViewStatus''"
| "action_string ActCallTool = ''CallTool''"
| "action_string ActRefreshDiscovery = ''RefreshDiscovery''"
| "action_string ActBindSecret = ''BindSecret''"

definition permissions :: "(string \<times> authz_action list) list" where
  "permissions =
     [(''admin'', [ActViewCatalog, ActSearchTool, ActViewStatus, ActCallTool, ActRefreshDiscovery,
                   ActEnableTool, ActDisableTool, ActRegisterServer, ActUpdateServer, ActDeleteServer,
                   ActBindSecret]),
      (''operator'', [ActViewCatalog, ActSearchTool, ActViewStatus, ActRefreshDiscovery, ActEnableTool,
                      ActDisableTool]),
      (''viewer'', [ActViewCatalog, ActSearchTool, ActViewStatus]),
      (''agent'', [ActViewCatalog, ActSearchTool, ActCallTool])]"

definition roleAllows :: "string \<Rightarrow> authz_action \<Rightarrow> bool" where
  "roleAllows role act =
     (case map_of permissions role of None \<Rightarrow> False | Some acts \<Rightarrow> act \<in> set acts)"

record Subject =
  sb_Type :: string
  sb_ID :: string
  sb_Roles :: "string list"

definition HasRole :: "Subject \<Rightarrow> string \<Rightarrow> bool" where
  "HasRole s role = list_ex (\<lambda>r. r = role) (sb_Roles s)"

record Resource =
  rc_Type :: string
  rc_Name :: string

definition ForbiddenError :: "Subject \<Rightarrow> authz_action \<Rightarrow> Resource \<Rightarrow> string \<Rightarrow> error" where
  "ForbiddenError sub act res reason =
     (let text = ''forbidden: '' @ sb_ID sub @ '' '' @ action_string act @ '' on '' @ rc_Type res @ ''/'' @ rc_Name res
      in ErrForbidden (if reason \<noteq> [] then text @ '': '' @ reason else text))"

type_synonym authorizer = "Subject \<Rightarrow> authz_action \<Rightarrow> Resource \<Rightarrow> error option"

definition Authorize :: authorizer where
  "Authorize sub act res =
     (if list_ex (\<lambda>role. roleAllows role act) (sb_Roles sub) then None
      else Some (ForbiddenError sub act res ''no role grants this action''))"

subsection \<open>Rows and tables\<close>

text \<open>
  A \<open>json.RawMessage\<close> is \<open>None\<close> when it is nil. Stored rows are kept in the form \<open>scanServer\<close>,
  \<open>scanTool\<close> and \<open>scanAudit\<close> read them back: times cut to whole seconds, an empty
  \<open>input_schema\<close> read as nil.
\<close>

record Server =
  sv_Name :: string
  sv_TransportType :: string
  sv_ConnectionConfig :: "string option"
  sv_SecretRefs :: "string option"
  sv_ServerCapabilities :: "string option"
  sv_ProxyEnabled :: bool
  sv_Status :: string
  sv_HealthMessage :: string
  sv_LastDiscoveredAt :: "int option"
  sv_CreatedBy :: string
  sv_CreatedAt :: int
  sv_UpdatedAt :: int

record Tool =
  tl_ServerName :: string
  tl_ToolName :: string
  tl_Description :: string
  tl_InputSchema :: "string option"
  tl_SchemaHash :: string
  tl_Enabled :: bool
  tl_LastSeenAt :: int
  tl_Metadata :: "string option"

record AuditEntry =
  au_ID :: int
  au_Actor :: string
  au_ActorType :: string
  au_Action :: string
  au_ResourceType :: string
  au_ResourceName :: string
  au_Detail :: "string option"
  au_Timestamp :: int

record registry_db =
  rg_servers :: "Server list"
  rg_tools :: "Tool list"
  rg_audit :: "AuditEntry list"
  rg_next :: int

definition defaultJSON :: "string option \<Rightarrow> string" where
  "defaultJSON data = (case data of None \<Rightarrow> ''{}'' | Some s \<Rightarrow> s)"

definition transport_types :: "string list" where
  "transport_types = [''stdio'', ''http'', ''streamable_http'']"

definition server_statuses :: "string list" where
  "server_statuses = [''pending'', ''active'', ''degraded'', ''paused'', ''error'', ''auth_failed'', ''unreachable'']"

text \<open>The \<open>CHECK\<close> constraints of \<open>registered_servers\<close>.\<close>

definition server_check :: "Server \<Rightarrow> bool" where
  "server_check s = (sv_TransportType s \<in> set transport_types \<and> sv_Status s \<in> set server_statuses)"

subsection \<open>Servers\<close>

definition or_default :: "string \<Rightarrow> string \<Rightarrow> string" where
  "or_default d s = (if s = [] then d else s)"

text \<open>The row the \<open>INSERT\<close> of \<open>UpsertServer\<close> proposes; \<open>last_discovered_at\<close> is not in its list.\<close>

definition proposed_server :: "int \<Rightarrow> Server \<Rightarrow> Server" where
  "proposed_server now srv =
     srv\<lparr>sv_TransportType := or_default ''stdio'' (sv_TransportType srv),
         sv_ConnectionConfig := Some (defaultJSON (sv_ConnectionConfig srv)),
         sv_SecretRefs := Some (defaultJSON (sv_SecretRefs srv)),
         sv_ServerCapabilities := Some (defaultJSON (sv_ServerCapabilities srv)),
         sv_Status := or_default ''pending'' (sv_Status srv),
         sv_LastDiscoveredAt := None,
         sv_CreatedBy := or_default ''api'' (sv_CreatedBy srv),
         sv_CreatedAt := rfc3339_time now,
         sv_UpdatedAt := rfc3339_time now\<rparr>"

text \<open>\<open>ON CONFLICT(name) DO UPDATE\<close>: creator, creation and discovery times stay.\<close>

definition take_excluded :: "Server \<Rightarrow> Server \<Rightarrow> Server" where
  "take_excluded ex r =
     r\<lparr>sv_TransportType := sv_TransportType ex, sv_ConnectionConfig := sv_ConnectionConfig ex,
       sv_SecretRefs := sv_SecretRefs ex, sv_ServerCapabilities := sv_ServerCapabilities ex,
       sv_ProxyEnabled := sv_ProxyEnabled ex, sv_Status := sv_Status ex,
       sv_HealthMessage := sv_HealthMessage ex, sv_UpdatedAt := sv_UpdatedAt ex\<rparr>"

definition sr_UpsertServer :: "db_fault \<Rightarrow> int \<Rightarrow> Server \<Rightarrow> registry_db \<Rightarrow> registry_db \<times> unit result" where
  "sr_UpsertServer f now srv db =
     (let failed = (\<lambda>e. ErrDb (''sqliteregistry: upsert server '' @ quote (sv_Name srv) @ '': '' @ e));
          ex = proposed_server now srv
      in case f of
           Some e \<Rightarrow> (db, Inl (failed e))
         | None \<Rightarrow>
             if \<not> server_check ex then (db, Inl (failed ''CHECK constraint failed''))
             else if sv_Name srv \<in> sv_Name ` set (rg_servers db)
             then (db\<lparr>rg_servers := update_rows (\<lambda>r. sv_Name r = sv_Name srv) (take_excluded ex) (rg_servers db)\<rparr>, Inr ())
             else (db\<lparr>rg_servers := rg_servers db @ [ex]\<rparr>, Inr ()))"

definition sr_DeleteServer :: "db_fault \<Rightarrow> string \<Rightarrow> registry_db \<Rightarrow> registry_db \<times> unit result" where
  "sr_DeleteServer f name db =
     (case f of
        Some e \<Rightarrow> (db, Inl (ErrDb (''sqliteregistry: delete server '' @ quote name @ '': '' @ e)))
      | None \<Rightarrow>
          if affected (\<lambda>r. sv_Name r = name) (rg_servers db) = 0
          then (db, Inl (ErrMsg (''sqliteregistry: server '' @ quote name @ '' not found'')))
          else (db\<lparr>rg_servers := filter (\<lambda>r. sv_Name r \<noteq> name) (rg_servers db),
                   rg_tools := filter (\<lambda>t. tl_ServerName t \<noteq> name) (rg_tools db)\<rparr>, Inr ()))"

definition sr_UpdateServerHealth ::
  "db_fault \<Rightarrow> int \<Rightarrow> string \<Rightarrow> string \<Rightarrow> string \<Rightarrow> int option \<Rightarrow> registry_db \<Rightarrow> registry_db \<times> unit result" where
  "sr_UpdateServerHealth f now name status msg discoveredAt db =
     (let failed = (\<lambda>e. ErrDb (''sqliteregistry: update health '' @ quote name @ '': '' @ e));
          touch = (\<lambda>r. r\<lparr>sv_Status := status, sv_HealthMessage := msg,
                         sv_LastDiscoveredAt := (case discoveredAt of None \<Rightarrow> sv_LastDiscoveredAt r | Some t \<Rightarrow> Some (rfc3339_time t)),
                         sv_UpdatedAt := rfc3339_time now\<rparr>)
      in case f of
           Some e \<Rightarrow> (db, Inl (failed e))
         | None \<Rightarrow>
             if name \<in> sv_Name ` set (rg_servers db) \<and> status \<notin> set server_statuses
             then (db, Inl (failed ''CHECK constraint failed''))
             else (db\<lparr>rg_servers := update_rows (\<lambda>r. sv_Name r = name) touch (rg_servers db)\<rparr>, Inr ()))"

definition sr_ListServers :: "db_fault \<Rightarrow> string option \<Rightarrow> bool option \<Rightarrow> registry_db \<Rightarrow> Server list result" where
  "sr_ListServers f status proxy db =
     (case f of
        Some e \<Rightarrow> Inl (ErrDb (''sqliteregistry: list servers: '' @ e))
      | None \<Rightarrow> Inr (sort_key sv_Name
          (filter (\<lambda>r. (case status of None \<Rightarrow> True | Some s \<Rightarrow> sv_Status r = s) \<and>
                       (case proxy of None \<Rightarrow> True | Some b \<Rightarrow> sv_ProxyEnabled r = b)) (rg_servers db))))"

definition sr_GetServer :: "db_fault \<Rightarrow> string \<Rightarrow> registry_db \<Rightarrow> Server option result" where
  "sr_GetServer f name db =
     (case f of
        Some e \<Rightarrow> Inl (ErrDb (''sqliteregistry: get server '' @ quote name @ '': '' @ e))
      | None \<Rightarrow> Inr (find (\<lambda>r. sv_Name r = name) (rg_servers db)))"

subsection \<open>Tools\<close>

text \<open>One \<open>INSERT ... ON CONFLICT(server_name, tool_name) DO UPDATE\<close> of a discovery.\<close>

definition is_tool :: "string \<Rightarrow> string \<Rightarrow> Tool \<Rightarrow> bool" where
  "is_tool server tool t = (tl_ServerName t = server \<and> tl_ToolName t = tool)"

definition stored_schema :: "string option \<Rightarrow> string option" where
  "stored_schema s = (case s of None \<Rightarrow> None | Some j \<Rightarrow> if j = [] then None else Some j)"

definition upsert_tool :: "int \<Rightarrow> string \<Rightarrow> Tool \<Rightarrow> Tool list \<Rightarrow> Tool list" where
  "upsert_tool now server t rows =
     (let refresh = (\<lambda>r. r\<lparr>tl_Description := tl_Description t, tl_InputSchema := stored_schema (tl_InputSchema t),
                           tl_SchemaHash := tl_SchemaHash t, tl_LastSeenAt := rfc3339_time now,
                           tl_Metadata := Some (defaultJSON (tl_Metadata t))\<rparr>)
      in if list_ex (is_tool server (tl_ToolName t)) rows
         then update_rows (is_tool server (tl_ToolName t)) refresh rows
         else rows @ [refresh (t\<lparr>tl_ServerName := server, tl_Enabled := True\<rparr>)])"

text \<open>
  The whole discovery is one transaction: the error of whichever statement fails is returned and
  nothing is kept. Inserting a tool of a server that is not registered breaks the foreign key.
\<close>

definition sr_ReplaceDiscoveredTools ::
  "db_fault \<Rightarrow> int \<Rightarrow> string \<Rightarrow> Tool list \<Rightarrow> registry_db \<Rightarrow> registry_db \<times> unit result" where
  "sr_ReplaceDiscoveredTools f now server tools db =
     (case f of
        Some e \<Rightarrow> (db, Inl (ErrDb e))
      | None \<Rightarrow>
          if tools \<noteq> [] \<and> server \<notin> sv_Name ` set (rg_servers db)
          then (db, Inl (ErrDb (''sqliteregistry: upsert tool '' @ quote server @ ''/'' @ quote (tl_ToolName (hd tools))
                                @ '': FOREIGN KEY constraint failed'')))
          else let rows = fold (upsert_tool now server) tools (rg_tools db);
                   kept = (if tools = [] then filter (\<lambda>r. tl_ServerName r \<noteq> server) rows
                           else filter (\<lambda>r. \<not> (tl_ServerName r = server \<and> tl_ToolName r \<notin> tl_ToolName ` set tools)) rows)
               in (db\<lparr>rg_tools := kept\<rparr>, Inr ()))"

definition sr_ListTools :: "db_fault \<Rightarrow> string \<Rightarrow> bool option \<Rightarrow> registry_db \<Rightarrow> Tool list result" where
  "sr_ListTools f server enabled db =
     (case f of
        Some e \<Rightarrow> Inl (ErrDb (''sqliteregistry: list tools: '' @ e))
      | None \<Rightarrow> Inr (sort_key (\<lambda>t. (tl_ServerName t, tl_ToolName t))
          (filter (\<lambda>t. (server \<noteq> [] \<longrightarrow> tl_ServerName t = server) \<and>
                       (case enabled of None \<Rightarrow> True | Some b \<Rightarrow> tl_Enabled t = b)) (rg_tools db))))"

definition sr_SetToolEnabled :: "db_fault \<Rightarrow> string \<Rightarrow> string \<Rightarrow> bool \<Rightarrow> registry_db \<Rightarrow> registry_db \<times> unit result" where
  "sr_SetToolEnabled f server tool enabled db =
     (case f of
        Some e \<Rightarrow> (db, Inl (ErrDb (''sqliteregistry: set tool enabled '' @ quote server @ ''/'' @ quote tool @ '': '' @ e)))
      | None \<Rightarrow>
          if affected (is_tool server tool) (rg_tools db) = 0
          then (db, Inl (ErrMsg (''sqliteregistry: tool '' @ quote server @ ''/'' @ quote tool @ '' not found'')))
          else (db\<lparr>rg_tools := update_rows (is_tool server tool) (\<lambda>t. t\<lparr>tl_Enabled := enabled\<rparr>) (rg_tools db)\<rparr>, Inr ()))"

subsection \<open>The audit log\<close>

definition sr_LogAudit :: "db_fault \<Rightarrow> int \<Rightarrow> AuditEntry \<Rightarrow> registry_db \<Rightarrow> registry_db \<times> unit result" where
  "sr_LogAudit f now entry db =
     (let ts = (if au_Timestamp entry = 0 then now else au_Timestamp entry)
      in case f of
           Some e \<Rightarrow> (db, Inl (ErrDb (''sqliteregistry: log audit: '' @ e)))
         | None \<Rightarrow>
             (db\<lparr>rg_audit := rg_audit db @
                   [entry\<lparr>au_ID := rg_next db, au_Detail := Some (defaultJSON (au_Detail entry)),
                          au_Timestamp := rfc3339_time ts\<rparr>],
                 rg_next := rg_next db + 1\<rparr>, Inr ()))"

subsection \<open>Synchronisation with the configuration\<close>

record MCPServerRemote =
  mr_URL :: string
  mr_Transport :: string

text \<open>
  The fields of \<open>config.MCPServerEntry\<close> the registry reads, and the text \<open>json.Marshal\<close> gives
  for the entry (of strings, lists and maps of strings: it does not fail).
\<close>

record MCPServerEntry =
  me_LocalCommand :: string
  me_Remote :: "MCPServerRemote option"
  me_Kubernetes :: MCPServerRemote
  me_JSON :: string

definition registryRemoteTransportType :: "string \<Rightarrow> string" where
  "registryRemoteTransportType transport =
     (if transport = ''streamable-http'' \<or> transport = ''streamable_http'' then ''streamable_http''
      else if transport = ''sse'' then ''http'' else ''streamable_http'')"

definition RegistryTransportType :: "MCPServerEntry \<Rightarrow> string" where
  "RegistryTransportType entry =
     (case me_Remote entry of
        Some r \<Rightarrow>
          if mr_URL r \<noteq> [] then registryRemoteTransportType (mr_Transport r)
          else if me_LocalCommand entry \<noteq> [] then ''stdio''
          else if mr_URL (me_Kubernetes entry) \<noteq> []
          then registryRemoteTransportType (mr_Transport (me_Kubernetes entry)) else ''stdio''
      | None \<Rightarrow>
          if me_LocalCommand entry \<noteq> [] then ''stdio''
          else if mr_URL (me_Kubernetes entry) \<noteq> []
          then registryRemoteTransportType (mr_Transport (me_Kubernetes entry)) else ''stdio'')"

definition config_server :: "int \<Rightarrow> string \<Rightarrow> MCPServerEntry \<Rightarrow> Server" where
  "config_server now name entry =
     \<lparr>sv_Name = name, sv_TransportType = RegistryTransportType entry, sv_ConnectionConfig = Some (me_JSON entry),
      sv_SecretRefs = Some ''{}'', sv_ServerCapabilities = Some ''{}'', sv_ProxyEnabled = True,
      sv_Status = ''pending'', sv_HealthMessage = [], sv_LastDiscoveredAt = None, sv_CreatedBy = ''config'',
      sv_CreatedAt = rfc3339_time now, sv_UpdatedAt = rfc3339_time now\<rparr>"

definition sync_upsert :: "int \<Rightarrow> string \<Rightarrow> MCPServerEntry \<Rightarrow> Server list \<Rightarrow> Server list" where
  "sync_upsert now name entry rows =
     (let ex = config_server now name entry
      in if name \<in> sv_Name ` set rows
         then update_rows (\<lambda>r. sv_Name r = name \<and> sv_CreatedBy r = ''config'' \<and>
                               (sv_ConnectionConfig r \<noteq> sv_ConnectionConfig ex \<or>
                                sv_TransportType r \<noteq> sv_TransportType ex \<or> \<not> sv_ProxyEnabled r))
                (\<lambda>r. r\<lparr>sv_TransportType := sv_TransportType ex, sv_ConnectionConfig := sv_ConnectionConfig ex,
                       sv_ProxyEnabled := True, sv_UpdatedAt := sv_UpdatedAt ex\<rparr>) rows
         else rows @ [ex])"

definition sync_disable :: "int \<Rightarrow> string list \<Rightarrow> Server list \<Rightarrow> Server list" where
  "sync_disable now names rows =
     update_rows (\<lambda>r. sv_CreatedBy r = ''config'' \<and> sv_ProxyEnabled r \<and> (names \<noteq> [] \<longrightarrow> sv_Name r \<notin> set names))
       (\<lambda>r. r\<lparr>sv_ProxyEnabled := False, sv_UpdatedAt := rfc3339_time now\<rparr>) rows"

text \<open>
  The upserts run one by one, in the order the map is ranged over, without a transaction: \<open>fs\<close>
  gives the fault of each upsert, \<open>g\<close> that of the final statement.
\<close>

fun sync_upserts ::
  "(string \<Rightarrow> db_fault) \<Rightarrow> int \<Rightarrow> (string \<times> MCPServerEntry) list \<Rightarrow> Server list \<Rightarrow> Server list \<times> unit result" where
  "sync_upserts fs now [] rows = (rows, Inr ())"
| "sync_upserts fs now ((name, entry) # rest) rows =
     (case fs name of
        Some e \<Rightarrow> (rows, Inl (ErrDb (''sqliteregistry: sync upsert '' @ quote name @ '': '' @ e)))
      | None \<Rightarrow> sync_upserts fs now rest (sync_upsert now name entry rows))"

definition sr_SyncConfigServers ::
  "(string \<Rightarrow> db_fault) \<Rightarrow> db_fault \<Rightarrow> int \<Rightarrow> (string \<times> MCPServerEntry) list \<Rightarrow> registry_db \<Rightarrow> registry_db \<times> unit result" where
  "sr_SyncConfigServers fs g now servers db =
     (case sync_upserts fs now servers (rg_servers db) of
        (rows, Inl err) \<Rightarrow> (db\<lparr>rg_servers := rows\<rparr>, Inl err)
      | (rows, Inr _) \<Rightarrow>
          (case g of
             Some e \<Rightarrow> (db\<lparr>rg_servers := rows\<rparr>,
                        Inl (ErrDb ((if servers = [] then ''sqliteregistry: sync disable all: ''
                                     else ''sqliteregistry: sync disable absent: '') @ e)))
           | None \<Rightarrow> (db\<lparr>rg_servers := sync_disable now (map fst servers) rows\<rparr>, Inr ())))"

subsection \<open>\<open>RegistryService\<close>\<close>

text \<open>
  The subject is the one the request's context carries, if any. The two faults are those of the
  store's statement and of the audit entry, the two times the clock at these two points.
\<close>

record svc_env =
  se_store :: db_fault
  se_audit :: db_fault
  se_now :: int
  se_audit_now :: int

definition svc_audit ::
  "svc_env \<Rightarrow> Subject \<Rightarrow> string \<Rightarrow> string \<Rightarrow> string \<Rightarrow> string option \<Rightarrow> registry_db \<Rightarrow> registry_db \<times> unit result" where
  "svc_audit env sub act rtype rname detail =
     sr_LogAudit (se_audit env) (se_audit_now env)
       \<lparr>au_ID = 0, au_Actor = sb_ID sub, au_ActorType = sb_Type sub, au_Action = act, au_ResourceType = rtype,
        au_ResourceName = rname, au_Detail = detail, au_Timestamp = se_audit_now env\<rparr>"

definition requireSubject :: "Subject option \<Rightarrow> Subject result" where
  "requireSubject ctx = (case ctx of None \<Rightarrow> Inl ErrUnauthorized | Some sub \<Rightarrow> Inr sub)"

definition svc_RegisterServer ::
  "authorizer \<Rightarrow> svc_env \<Rightarrow> Subject option \<Rightarrow> Server \<Rightarrow> registry_db \<Rightarrow> registry_db \<times> unit result" where
  "svc_RegisterServer authorize env ctx server db =
     (case requireSubject ctx of
        Inl err \<Rightarrow> (db, Inl err)
      | Inr sub \<Rightarrow>
          (case authorize sub ActRegisterServer \<lparr>rc_Type = ''server'', rc_Name = sv_Name server\<rparr> of
             Some err \<Rightarrow> (db, Inl err)
           | None \<Rightarrow>
               (case sr_UpsertServer (se_store env) (se_now env) server db of
                  (db1, Inl err) \<Rightarrow> (db1, Inl err)
                | (db1, Inr _) \<Rightarrow> svc_audit env sub ''RegisterServer'' ''server'' (sv_Name server) None db1)))"

definition svc_UpdateServer ::
  "authorizer \<Rightarrow> svc_env \<Rightarrow> Subject option \<Rightarrow> Server \<Rightarrow> registry_db \<Rightarrow> registry_db \<times> unit result" where
  "svc_UpdateServer authorize env ctx server db =
     (case requireSubject ctx of
        Inl err \<Rightarrow> (db, Inl err)
      | Inr sub \<Rightarrow>
          (case authorize sub ActUpdateServer \<lparr>rc_Type = ''server'', rc_Name = sv_Name server\<rparr> of
             Some err \<Rightarrow> (db, Inl err)
           | None \<Rightarrow>
               (case sr_UpsertServer (se_store env) (se_now env) server db of
                  (db1, Inl err) \<Rightarrow> (db1, Inl err)
                | (db1, Inr _) \<Rightarrow> svc_audit env sub ''UpdateServer'' ''server'' (sv_Name server) None db1)))"

definition svc_DeleteServer ::
  "authorizer \<Rightarrow> svc_env \<Rightarrow> Subject option \<Rightarrow> string \<Rightarrow> registry_db \<Rightarrow> registry_db \<times> unit result" where
  "svc_DeleteServer authorize env ctx name db =
     (case requireSubject ctx of
        Inl err \<Rightarrow> (db, Inl err)
      | Inr sub \<Rightarrow>
          (case authorize sub ActDeleteServer \<lparr>rc_Type = ''server'', rc_Name = name\<rparr> of
             Some err \<Rightarrow> (db, Inl err)
           | None \<Rightarrow>
               (case sr_DeleteServer (se_store env) name db of
                  (db1, Inl err) \<Rightarrow> (db1, Inl err)
                | (db1, Inr _) \<Rightarrow> svc_audit env sub ''DeleteServer'' ''server'' name None db1)))"

definition enabled_detail :: "bool \<Rightarrow> string" where
  "enabled_detail b =
     ''{'' @ [CHR 0x22] @ ''enabled'' @ [CHR 0x22] @ '':'' @ (if b then ''true'' else ''false'') @ ''}''"

definition svc_SetToolEnabled ::
  "authorizer \<Rightarrow> svc_env \<Rightarrow> Subject option \<Rightarrow> string \<Rightarrow> string \<Rightarrow> bool \<Rightarrow> registry_db \<Rightarrow> registry_db \<times> unit result" where
  "svc_SetToolEnabled authorize env ctx server tool enabled db =
     (case requireSubject ctx of
        Inl err \<Rightarrow> (db, Inl err)
      | Inr sub \<Rightarrow>
          let act = (if enabled then ActEnableTool else ActDisableTool); name = server @ ''/'' @ tool
          in case authorize sub act \<lparr>rc_Type = ''tool'', rc_Name = name\<rparr> of
               Some err \<Rightarrow> (db, Inl err)
             | None \<Rightarrow>
                 (case sr_SetToolEnabled (se_store env) server tool enabled db of
                    (db1, Inl err) \<Rightarrow> (db1, Inl err)
                  | (db1, Inr _) \<Rightarrow> svc_audit env sub (action_string act) ''tool'' name (Some (enabled_detail enabled)) db1))"

subsection \<open>Who may do what\<close>

lemma Authorize_None: "Authorize sub act res = None \<longleftrightarrow> (\<exists>role\<in>set (sb_Roles sub). roleAllows role act)"
  by (simp add: Authorize_def list_ex_iff)

lemma roleAllows_server:
  "act \<in> {ActRegisterServer, ActUpdateServer, ActDeleteServer} \<Longrightarrow> roleAllows role act \<longleftrightarrow> role = ''admin''"
  by (auto simp: roleAllows_def permissions_def)

lemma roleAllows_tool:
  "act \<in> {ActEnableTool, ActDisableTool} \<Longrightarrow> roleAllows role act \<longleftrightarrow> role = ''admin'' \<or> role = ''operator''"
  by (auto simp: roleAllows_def permissions_def)

text \<open>The calls a client can make of the service, each with the action and the resource it is checked for.\<close>

datatype svc_call = CallRegister Server | CallUpdate Server | CallDelete string | CallSetTool string string bool

fun run_call :: "authorizer \<Rightarrow> svc_env \<Rightarrow> Subject option \<Rightarrow> svc_call \<Rightarrow> registry_db \<Rightarrow> registry_db \<times> unit result" where
  "run_call authorize env ctx (CallRegister s) = svc_RegisterServer authorize env ctx s"
| "run_call authorize env ctx (CallUpdate s) = svc_UpdateServer authorize env ctx s"
| "run_call authorize env ctx (CallDelete n) = svc_DeleteServer authorize env ctx n"
| "run_call authorize env ctx (CallSetTool n t b) = svc_SetToolEnabled authorize env ctx n t b"

fun call_action :: "svc_call \<Rightarrow> authz_action" where
  "call_action (CallRegister s) = ActRegisterServer"
| "call_action (CallUpdate s) = ActUpdateServer"
| "call_action (CallDelete n) = ActDeleteServer"
| "call_action (CallSetTool n t b) = (if b then ActEnableTool else ActDisableTool)"

fun call_resource :: "svc_call \<Rightarrow> Resource" where
  "call_resource (CallRegister s) = \<lparr>rc_Type = ''server'', rc_Name = sv_Name s\<rparr>"
| "call_resource (CallUpdate s) = \<lparr>rc_Type = ''server'', rc_Name = sv_Name s\<rparr>"
| "call_resource (CallDelete n) = \<lparr>rc_Type = ''server'', rc_Name = n\<rparr>"
| "call_resource (CallSetTool n t b) = \<lparr>rc_Type = ''tool'', rc_Name = n @ ''/'' @ t\<rparr>"

text \<open>The store operation of a call.\<close>

fun call_store :: "svc_env \<Rightarrow> svc_call \<Rightarrow> registry_db \<Rightarrow> registry_db \<times> unit result" where
  "call_store env (CallRegister s) = sr_UpsertServer (se_store env) (se_now env) s"
| "call_store env (CallUpdate s) = sr_UpsertServer (se_store env) (se_now env) s"
| "call_store env (CallDelete n) = sr_DeleteServer (se_store env) n"
| "call_store env (CallSetTool n t b) = sr_SetToolEnabled (se_store env) n t b"

fun call_detail :: "svc_call \<Rightarrow> string" where
  "call_detail (CallSetTool n t b) = enabled_detail b"
| "call_detail c = ''{}''"

definition audit_record :: "svc_env \<Rightarrow> Subject \<Rightarrow> svc_call \<Rightarrow> int \<Rightarrow> AuditEntry" where
  "audit_record env sub c i =
     \<lparr>au_ID = i, au_Actor = sb_ID sub, au_ActorType = sb_Type sub, au_Action = action_string (call_action c),
      au_ResourceType = rc_Type (call_resource c), au_ResourceName = rc_Name (call_resource c),
      au_Detail = Some (call_detail c), au_Timestamp = rfc3339_time (se_audit_now env)\<rparr>"

text \<open>Every service operation is the same guarded composition.\<close>

lemma run_call_eq:
  "run_call authorize env ctx c db =
     (case ctx of
        None \<Rightarrow> (db, Inl ErrUnauthorized)
      | Some sub \<Rightarrow>
          (case authorize sub (call_action c) (call_resource c) of
             Some err \<Rightarrow> (db, Inl err)
           | None \<Rightarrow>
               (case call_store env c db of
                  (db1, Inl err) \<Rightarrow> (db1, Inl err)
                | (db1, Inr _) \<Rightarrow>
                    (case se_audit env of
                       Some e \<Rightarrow> (db1, Inl (ErrDb (''sqliteregistry: log audit: '' @ e)))
                     | None \<Rightarrow> (db1\<lparr>rg_audit := rg_audit db1 @ [audit_record env sub c (rg_next db1)],
                                    rg_next := rg_next db1 + 1\<rparr>, Inr ())))))"
  by (cases c)
    (auto simp: svc_RegisterServer_def svc_UpdateServer_def svc_DeleteServer_def svc_SetToolEnabled_def
      requireSubject_def svc_audit_def sr_LogAudit_def audit_record_def defaultJSON_def Let_def
      split: option.splits sum.splits prod.splits)

lemma store_failure_keeps: "call_store env c db = (db1, Inl err) \<Longrightarrow> db1 = db"
  by (cases c)
    (auto simp: sr_UpsertServer_def sr_DeleteServer_def sr_SetToolEnabled_def Let_def
      split: option.splits if_splits)

lemma store_keeps_audit: "call_store env c db = (db1, r) \<Longrightarrow> rg_audit db1 = rg_audit db \<and> rg_next db1 = rg_next db"
  by (cases c)
    (auto simp: sr_UpsertServer_def sr_DeleteServer_def sr_SetToolEnabled_def Let_def
      split: option.splits if_splits)

lemma run_call_changed:
  assumes "fst (run_call authorize env ctx c db) \<noteq> db"
  shows "\<exists>sub. ctx = Some sub \<and> authorize sub (call_action c) (call_resource c) = None"
  using assms by (auto simp: run_call_eq split: option.splits)

lemma run_call_Inr:
  assumes "run_call authorize env ctx c db = (db', Inr u)"
  obtains sub db1 where "ctx = Some sub" "authorize sub (call_action c) (call_resource c) = None"
    "call_store env c db = (db1, Inr ())"
    "db' = db1\<lparr>rg_audit := rg_audit db @ [audit_record env sub c (rg_next db)], rg_next := rg_next db + 1\<rparr>"
  using assms store_keeps_audit
  by (fastforce simp: run_call_eq split: option.splits sum.splits prod.splits)

subsection \<open>The invariant of the tables\<close>

definition registry_ok :: "registry_db \<Rightarrow> bool" where
  "registry_ok db =
     (distinct (map sv_Name (rg_servers db)) \<and>
      list_all server_check (rg_servers db) \<and>
      distinct (map (\<lambda>t. (tl_ServerName t, tl_ToolName t)) (rg_tools db)) \<and>
      list_all (\<lambda>t. tl_ServerName t \<in> sv_Name ` set (rg_servers db)) (rg_tools db) \<and>
      distinct (map au_ID (rg_audit db)) \<and> list_all (\<lambda>a. au_ID a < rg_next db) (rg_audit db))"

abbreviation tool_key :: "Tool \<Rightarrow> string \<times> string" where
  "tool_key t \<equiv> (tl_ServerName t, tl_ToolName t)"

definition flag_in :: "Tool list \<Rightarrow> string \<times> string \<Rightarrow> bool option" where
  "flag_in rows k = map_option tl_Enabled (find (\<lambda>t. tool_key t = k) rows)"

definition tool_flag :: "registry_db \<Rightarrow> string \<Rightarrow> string \<Rightarrow> bool option" where
  "tool_flag db server tool = flag_in (rg_tools db) (server, tool)"

definition flag_or_on :: "bool option \<Rightarrow> bool" where
  "flag_or_on fl = (fl \<noteq> Some False)"

lemma is_tool_key: "is_tool server tool = (\<lambda>t. tool_key t = (server, tool))"
  by (rule ext) (auto simp: is_tool_def)

lemma upsert_tool_keys:
  "map tool_key (upsert_tool now server t rows) =
     (if (server, tl_ToolName t) \<in> tool_key ` set rows then map tool_key rows
      else map tool_key rows @ [(server, tl_ToolName t)])"
  by (auto simp: upsert_tool_def is_tool_key list_ex_iff Let_def update_rows_def)

lemma flag_in_Nil [simp]: "flag_in [] k = None"
  by (simp add: flag_in_def)

lemma flag_in_Cons: "flag_in (r # rows) k = (if tool_key r = k then Some (tl_Enabled r) else flag_in rows k)"
  by (simp add: flag_in_def)

lemma flag_in_None: "flag_in rows k = None \<longleftrightarrow> k \<notin> tool_key ` set rows"
  by (auto simp: flag_in_def find_None_iff)

lemma flag_in_snoc:
  "flag_in (rows @ [r]) k = (if k \<notin> tool_key ` set rows \<and> tool_key r = k then Some (tl_Enabled r) else flag_in rows k)"
  by (induction rows) (auto simp: flag_in_Cons)

lemma flag_in_update:
  "(\<And>r. tool_key (u r) = tool_key r \<and> tl_Enabled (u r) = tl_Enabled r) \<Longrightarrow>
     flag_in (update_rows p u rows) k = flag_in rows k"
  by (induction rows) (auto simp: flag_in_Cons table_simps)

lemma flag_in_filter:
  "(\<And>r. tool_key r = k \<Longrightarrow> p r = q) \<Longrightarrow> flag_in (filter p rows) k = (if q then flag_in rows k else None)"
  by (induction rows) (auto simp: flag_in_Cons)

lemma upsert_tool_flag:
  "flag_in (upsert_tool now server t rows) k =
     (if k = (server, tl_ToolName t) then Some (flag_or_on (flag_in rows k)) else flag_in rows k)"
proof (cases "(server, tl_ToolName t) \<in> tool_key ` set rows")
  case True
  then have up: "flag_in (upsert_tool now server t rows) k = flag_in rows k"
    by (auto simp: upsert_tool_def is_tool_key list_ex_iff Let_def intro: flag_in_update)
  have "flag_in rows (server, tl_ToolName t) \<noteq> None" using True by (simp add: flag_in_None)
  with up show ?thesis by (auto simp: flag_or_on_def)
next
  case False
  then have up: "flag_in (upsert_tool now server t rows) k =
      (if k = (server, tl_ToolName t) then Some True else flag_in rows k)"
    by (auto simp: upsert_tool_def is_tool_key list_ex_iff Let_def flag_in_snoc)
  have "flag_in rows (server, tl_ToolName t) = None" using False by (simp only: flag_in_None) simp
  with up show ?thesis by (auto simp: flag_or_on_def)
qed

lemma fold_upsert_flag:
  "flag_in (fold (upsert_tool now server) ts rows) (s, n) =
     (if s = server \<and> n \<in> tl_ToolName ` set ts then Some (flag_or_on (flag_in rows (s, n))) else flag_in rows (s, n))"
  by (induction ts arbitrary: rows) (auto simp: upsert_tool_flag flag_or_on_def)

lemma fold_upsert_keys:
  "distinct (map tool_key rows) \<Longrightarrow>
     distinct (map tool_key (fold (upsert_tool now server) ts rows)) \<and>
     tool_key ` set (fold (upsert_tool now server) ts rows) =
       tool_key ` set rows \<union> (\<lambda>t. (server, tl_ToolName t)) ` set ts"
proof (induction ts arbitrary: rows)
  case (Cons t ts)
  let ?rows = "upsert_tool now server t rows"
  have keys: "distinct (map tool_key ?rows)" "set (map tool_key ?rows) = insert (server, tl_ToolName t) (tool_key ` set rows)"
    using Cons.prems by (auto simp: upsert_tool_keys)
  then show ?case using Cons.IH [of ?rows] by (auto simp: image_Un [symmetric])
qed simp

text \<open>The tool table after a discovery.\<close>

lemma Replace_flag:
  assumes "sr_ReplaceDiscoveredTools f now server ts db = (db', Inr u)"
  shows "tool_flag db' s n =
    (if s \<noteq> server then tool_flag db s n
     else if n \<in> tl_ToolName ` set ts
     then Some (flag_or_on (tool_flag db s n)) else None)"
proof -
  let ?rows = "fold (upsert_tool now server) ts (rg_tools db)"
  have tools: "rg_tools db' = filter (\<lambda>r. \<not> (tl_ServerName r = server \<and> tl_ToolName r \<notin> tl_ToolName ` set ts)) ?rows"
    using assms by (auto simp: sr_ReplaceDiscoveredTools_def Let_def split: option.splits if_splits intro: filter_cong)
  have "flag_in (rg_tools db') (s, n) =
      (if \<not> (s = server \<and> n \<notin> tl_ToolName ` set ts) then flag_in ?rows (s, n) else None)"
    unfolding tools by (rule flag_in_filter) auto
  then show ?thesis by (auto simp: tool_flag_def fold_upsert_flag)
qed

lemma flag_in_switch:
  "flag_in (update_rows (\<lambda>t. tool_key t = k0) (\<lambda>t. t\<lparr>tl_Enabled := b\<rparr>) rows) k =
     (if k = k0 then map_option (\<lambda>_. b) (flag_in rows k) else flag_in rows k)"
  by (induction rows) (auto simp: flag_in_Cons table_simps)

lemma SetToolEnabled_flag:
  assumes "sr_SetToolEnabled f server tool b db = (db', Inr u)"
  shows "tool_flag db' s n = (if s = server \<and> n = tool then Some b else tool_flag db s n)"
proof -
  have "(server, tool) \<in> tool_key ` set (rg_tools db)"
    and tools: "rg_tools db' = update_rows (\<lambda>t. tool_key t = (server, tool)) (\<lambda>t. t\<lparr>tl_Enabled := b\<rparr>) (rg_tools db)"
    using assms by (auto simp: sr_SetToolEnabled_def is_tool_key table_simps split: option.splits if_splits)
  then have "flag_in (rg_tools db) (server, tool) \<noteq> None" by (simp only: flag_in_None) simp
  then show ?thesis unfolding tool_flag_def tools flag_in_switch by auto
qed

subsection \<open>The interface of the tool table\<close>

text \<open>
  What a client of the store may assume of \<open>SetToolEnabled\<close> and \<open>ReplaceDiscoveredTools\<close>. A
  tool an operator has disabled stays disabled as long as every discovery of its server
  finds it; a discovery that misses it forgets the switch.
\<close>

locale tool_registry =
  fixes flag :: "'s \<Rightarrow> string \<Rightarrow> string \<Rightarrow> bool option"
    and switch :: "string \<Rightarrow> string \<Rightarrow> bool \<Rightarrow> 's \<Rightarrow> 's \<times> unit result"
    and discover :: "int \<Rightarrow> string \<Rightarrow> Tool list \<Rightarrow> 's \<Rightarrow> 's \<times> unit result"
  assumes switch_ok: "switch server tool b s = (s', Inr u) \<Longrightarrow>
      flag s' x y = (if x = server \<and> y = tool then Some b else flag s x y)"
    and switch_err: "switch server tool b s = (s', Inl err) \<Longrightarrow> s' = s"
    and discover_ok: "discover now server ts s = (s', Inr u) \<Longrightarrow>
      flag s' x y = (if x \<noteq> server then flag s x y
        else if y \<in> tl_ToolName ` set ts then Some (flag_or_on (flag s x y)) else None)"
    and discover_err: "discover now server ts s = (s', Inl err) \<Longrightarrow> s' = s"
begin

abbreviation discoveries :: "(int \<times> string \<times> Tool list) list \<Rightarrow> 's \<Rightarrow> 's" where
  "discoveries \<equiv> fold (\<lambda>(now, server, ts) s. fst (discover now server ts s))"

lemma discover_kept:
  assumes "flag s server tool = Some b" "srv = server \<longrightarrow> tool \<in> tl_ToolName ` set ts"
  shows "flag (fst (discover now srv ts s)) server tool = Some b"
proof (cases "discover now srv ts s")
  case (Pair s' r)
  then show ?thesis
    using assms discover_ok [of now srv ts s s'] discover_err [of now srv ts s s']
    by (cases r) (auto simp: flag_or_on_def)
qed

lemma flag_kept:
  "flag s server tool = Some b \<Longrightarrow>
     list_all (\<lambda>(now, srv, ts). srv = server \<longrightarrow> tool \<in> tl_ToolName ` set ts) ds \<Longrightarrow>
     flag (discoveries ds s) server tool = Some b"
  by (induction ds arbitrary: s) (auto simp: discover_kept)

lemma switched_off_stays:
  assumes "switch server tool False s = (s', Inr u)"
    and "list_all (\<lambda>(now, srv, ts). srv = server \<longrightarrow> tool \<in> tl_ToolName ` set ts) ds"
  shows "flag (discoveries ds s') server tool = Some False"
proof (rule flag_kept [OF _ assms(2)])
  show "flag s' server tool = Some False" using switch_ok [OF assms(1), of server tool] by simp
qed

lemma missed_then_found_is_on:
  assumes "discover now1 server ts1 s = (s1, Inr u1)" "tool \<notin> tl_ToolName ` set ts1"
    and "discover now2 server ts2 s1 = (s2, Inr u2)" "tool \<in> tl_ToolName ` set ts2"
  shows "flag s2 server tool = Some True"
  using discover_ok [OF assms(1), of server tool] discover_ok [OF assms(3), of server tool] assms(2,4)
  by (simp add: flag_or_on_def)

end

interpretation sqlreg: tool_registry tool_flag "sr_SetToolEnabled f" "sr_ReplaceDiscoveredTools f'" for f f'
  by unfold_locales
    (auto simp: SetToolEnabled_flag Replace_flag sr_SetToolEnabled_def sr_ReplaceDiscoveredTools_def Let_def
      split: option.splits if_splits)

subsection \<open>Every operation keeps the invariant\<close>

lemma registry_okD:
  assumes "registry_ok db"
  shows "distinct (map sv_Name (rg_servers db))" "list_all server_check (rg_servers db)"
    "distinct (map tool_key (rg_tools db))" "\<And>t. t \<in> set (rg_tools db) \<Longrightarrow> tl_ServerName t \<in> sv_Name ` set (rg_servers db)"
    "distinct (map au_ID (rg_audit db))" "\<And>a. a \<in> set (rg_audit db) \<Longrightarrow> au_ID a < rg_next db"
  using assms by (auto simp: registry_ok_def list_all_iff)

lemma registry_ok_servers:
  assumes "registry_ok db" "distinct (map sv_Name rows)" "list_all server_check rows"
    "sv_Name ` set (rg_servers db) \<subseteq> sv_Name ` set rows"
  shows "registry_ok (db\<lparr>rg_servers := rows\<rparr>)"
  using assms by (auto simp: registry_ok_def list_all_iff)

lemma registry_ok_tools:
  assumes "registry_ok db" "distinct (map tool_key rows)"
    "fst ` tool_key ` set rows \<subseteq> sv_Name ` set (rg_servers db)"
  shows "registry_ok (db\<lparr>rg_tools := rows\<rparr>)"
  using assms by (auto simp: registry_ok_def list_all_iff image_image)

lemma server_check_update:
  "list_all server_check rows \<Longrightarrow> (\<And>r. server_check r \<Longrightarrow> p r \<Longrightarrow> server_check (u r)) \<Longrightarrow>
     list_all server_check (update_rows p u rows)"
  by (auto simp: list_all_iff table_simps)

lemma registry_ok_update:
  assumes "registry_ok db" "\<And>r. sv_Name (u r) = sv_Name r" "\<And>r. server_check r \<Longrightarrow> p r \<Longrightarrow> server_check (u r)"
  shows "registry_ok (db\<lparr>rg_servers := update_rows p u (rg_servers db)\<rparr>)"
proof (rule registry_ok_servers [OF assms(1)])
  have names: "map sv_Name (update_rows p u (rg_servers db)) = map sv_Name (rg_servers db)"
    by (rule map_update_rows) (rule assms(2))
  show "distinct (map sv_Name (update_rows p u (rg_servers db)))"
    unfolding names by (rule registry_okD(1) [OF assms(1)])
  show "list_all server_check (update_rows p u (rg_servers db))"
    by (rule server_check_update [OF registry_okD(2) [OF assms(1)] assms(3)])
  show "sv_Name ` set (rg_servers db) \<subseteq> sv_Name ` set (update_rows p u (rg_servers db))"
    using names by (metis list.set_map order_refl)
qed

lemma UpsertServer_ok:
  assumes "registry_ok db"
  shows "registry_ok (fst (sr_UpsertServer f now srv db))"
proof -
  let ?ex = "proposed_server now srv"
  have "server_check ?ex \<Longrightarrow> registry_ok (db\<lparr>rg_servers := update_rows (\<lambda>r. sv_Name r = sv_Name srv) (take_excluded ?ex) (rg_servers db)\<rparr>)"
    by (rule registry_ok_update [OF assms]) (auto simp: take_excluded_def server_check_def)
  moreover have "server_check ?ex \<Longrightarrow> sv_Name srv \<notin> sv_Name ` set (rg_servers db) \<Longrightarrow>
      registry_ok (db\<lparr>rg_servers := rg_servers db @ [?ex]\<rparr>)"
    using registry_okD(1,2) [OF assms]
    by (intro registry_ok_servers [OF assms]) (auto simp: proposed_server_def)
  ultimately show ?thesis
    using assms by (simp add: sr_UpsertServer_def Let_def split: option.splits)
qed

lemma DeleteServer_ok:
  assumes "registry_ok db"
  shows "registry_ok (fst (sr_DeleteServer f name db))"
  using assms
  by (auto simp: sr_DeleteServer_def registry_ok_def list_all_iff distinct_map_filter split: option.splits)

lemma UpdateServerHealth_ok:
  assumes "registry_ok db"
  shows "registry_ok (fst (sr_UpdateServerHealth f now name status msg disc db))"
proof (cases "name \<in> sv_Name ` set (rg_servers db) \<and> status \<in> set server_statuses")
  case True
  then show ?thesis
    unfolding sr_UpdateServerHealth_def Let_def
    by (auto simp: assms server_check_def split: option.splits intro!: registry_ok_update [OF assms])
next
  case False
  then have "name \<notin> sv_Name ` set (rg_servers db) \<Longrightarrow> update_rows (\<lambda>r. sv_Name r = name) u (rg_servers db) = rg_servers db" for u
    by (intro update_rows_none) auto
  with False assms show ?thesis
    unfolding sr_UpdateServerHealth_def Let_def by (auto split: option.splits)
qed

lemma ReplaceDiscoveredTools_ok:
  assumes "registry_ok db"
  shows "registry_ok (fst (sr_ReplaceDiscoveredTools f now server ts db))"
proof (cases "f = None \<and> (ts = [] \<or> server \<in> sv_Name ` set (rg_servers db))")
  case False
  then show ?thesis using assms by (auto simp: sr_ReplaceDiscoveredTools_def split: option.splits)
next
  case True
  let ?rows = "fold (upsert_tool now server) ts (rg_tools db)"
  let ?kept = "filter (\<lambda>r. \<not> (tl_ServerName r = server \<and> tl_ToolName r \<notin> tl_ToolName ` set ts)) ?rows"
  have eq: "fst (sr_ReplaceDiscoveredTools f now server ts db) = db\<lparr>rg_tools := ?kept\<rparr>"
    using True by (auto simp: sr_ReplaceDiscoveredTools_def Let_def intro: filter_cong)
  note keys = fold_upsert_keys [OF registry_okD(3) [OF assms], of now server ts]
  have "fst ` tool_key ` set ?kept \<subseteq> fst ` tool_key ` set ?rows" by (intro image_mono) simp
  also have "\<dots> = fst ` (tool_key ` set (rg_tools db) \<union> (\<lambda>t. (server, tl_ToolName t)) ` set ts)"
    by (simp only: keys)
  also have "\<dots> \<subseteq> sv_Name ` set (rg_servers db)"
    using True registry_okD(4) [OF assms] by (auto simp only: image_Un image_image fst_conv list.set empty_iff)
  finally have servers: "fst ` tool_key ` set ?kept \<subseteq> sv_Name ` set (rg_servers db)" .
  have "distinct (map tool_key ?kept)" by (rule distinct_map_filter) (rule conjunct1 [OF keys])
  then show ?thesis unfolding eq by (rule registry_ok_tools [OF assms _ servers])
qed

lemma SetToolEnabled_ok:
  assumes "registry_ok db"
  shows "registry_ok (fst (sr_SetToolEnabled f server tool b db))"
proof -
  let ?rows = "update_rows (is_tool server tool) (\<lambda>t. t\<lparr>tl_Enabled := b\<rparr>) (rg_tools db)"
  have keys: "map tool_key ?rows = map tool_key (rg_tools db)" by (rule map_update_rows) simp
  have same: "tool_key ` set ?rows = tool_key ` set (rg_tools db)"
    using arg_cong [OF keys, of set] by (simp only: set_map)
  have servers: "fst ` tool_key ` set ?rows \<subseteq> sv_Name ` set (rg_servers db)"
    unfolding same using registry_okD(4) [OF assms] by auto
  have "distinct (map tool_key ?rows)" unfolding keys by (rule registry_okD(3) [OF assms])
  then have "registry_ok (db\<lparr>rg_tools := ?rows\<rparr>)" by (rule registry_ok_tools [OF assms _ servers])
  with assms show ?thesis by (auto simp: sr_SetToolEnabled_def split: option.splits)
qed

lemma LogAudit_ok: "registry_ok db \<Longrightarrow> registry_ok (fst (sr_LogAudit f now entry db))"
  by (fastforce simp: sr_LogAudit_def registry_ok_def list_all_iff Let_def split: option.splits)

subsection \<open>The synchronisation at startup\<close>

abbreviation config_owned :: "Server \<Rightarrow> bool" where
  "config_owned r \<equiv> sv_CreatedBy r = ''config''"

definition synced :: "MCPServerEntry \<Rightarrow> Server \<Rightarrow> bool" where
  "synced e r = (sv_ProxyEnabled r \<and> sv_ConnectionConfig r = Some (me_JSON e) \<and>
     sv_TransportType r = RegistryTransportType e)"

lemma RegistryTransportType_valid: "RegistryTransportType e \<in> set transport_types"
  by (auto simp: RegistryTransportType_def registryRemoteTransportType_def transport_types_def split: option.splits)

lemma sync_upsert_api: "filter (\<lambda>r. \<not> config_owned r) (sync_upsert now n e rows) = filter (\<lambda>r. \<not> config_owned r) rows"
  by (auto simp: sync_upsert_def Let_def config_server_def intro!: filter_update_rows_other)

lemma sync_disable_api: "filter (\<lambda>r. \<not> config_owned r) (sync_disable now ns rows) = filter (\<lambda>r. \<not> config_owned r) rows"
  by (auto simp: sync_disable_def intro!: filter_update_rows_other)

lemma sync_upserts_api:
  "filter (\<lambda>r. \<not> config_owned r) (fst (sync_upserts fs now es rows)) = filter (\<lambda>r. \<not> config_owned r) rows"
  by (induction fs now es rows rule: sync_upserts.induct) (simp_all add: sync_upsert_api split: option.splits)

lemma SyncConfigServers_api:
  "filter (\<lambda>r. \<not> config_owned r) (rg_servers (fst (sr_SyncConfigServers fs g now es db))) =
     filter (\<lambda>r. \<not> config_owned r) (rg_servers db)"
  using sync_upserts_api [of fs now es "rg_servers db"]
  by (auto simp: sr_SyncConfigServers_def sync_disable_api split: prod.splits sum.splits option.splits)

lemma sync_upsert_row:
  assumes "r \<in> set (sync_upsert now n e rows)" "config_owned r"
  shows "if sv_Name r = n then synced e r else r \<in> set rows"
  using assms
  by (auto simp: sync_upsert_def Let_def synced_def config_server_def table_simps split: if_splits)

lemma sync_upserts_rows:
  "distinct (map fst es) \<Longrightarrow> sync_upserts fs now es rows = (rows', Inr u) \<Longrightarrow> r \<in> set rows' \<Longrightarrow> config_owned r \<Longrightarrow>
     case map_of es (sv_Name r) of None \<Rightarrow> r \<in> set rows | Some e \<Rightarrow> synced e r"
proof (induction fs now es rows rule: sync_upserts.induct)
  case (2 fs now n e es rows)
  have "fs n = None" using "2.prems"(2) by (auto split: option.splits)
  with "2.prems" have IH: "case map_of es (sv_Name r) of None \<Rightarrow> r \<in> set (sync_upsert now n e rows) | Some e \<Rightarrow> synced e r"
    by (intro "2.IH") simp_all
  show ?case
  proof (cases "map_of es (sv_Name r)")
    case None
    with IH have "r \<in> set (sync_upsert now n e rows)" by simp
    from sync_upsert_row [OF this "2.prems"(4)] None show ?thesis by (auto split: if_splits)
  next
    case (Some a)
    then have "sv_Name r \<in> set (map fst es)" by (force dest: map_of_SomeD)
    with "2.prems"(1) have "sv_Name r \<noteq> n" by auto
    with Some IH show ?thesis by simp
  qed
qed simp

lemma SyncConfigServers_rows:
  assumes "distinct (map fst es)" "sr_SyncConfigServers fs g now es db = (db', Inr u)"
    and "r \<in> set (rg_servers db')" "config_owned r"
  shows "case map_of es (sv_Name r) of None \<Rightarrow> \<not> sv_ProxyEnabled r | Some e \<Rightarrow> synced e r"
proof -
  obtain rows where up: "sync_upserts fs now es (rg_servers db) = (rows, Inr ())"
    and db': "rg_servers db' = sync_disable now (map fst es) rows"
    using assms(2) by (auto simp: sr_SyncConfigServers_def split: prod.splits sum.splits option.splits)
  let ?off = "\<lambda>x. config_owned x \<and> sv_ProxyEnabled x \<and> (map fst es \<noteq> [] \<longrightarrow> sv_Name x \<notin> set (map fst es))"
  obtain r0 where mem: "r0 \<in> set rows"
    and eq: "r = (if ?off r0 then r0\<lparr>sv_ProxyEnabled := False, sv_UpdatedAt := rfc3339_time now\<rparr> else r0)"
    using assms(3) unfolding db' sync_disable_def set_update_rows by (rule imageE)
  have r0: "r0 \<in> set rows" "config_owned r0" "sv_Name r0 = sv_Name r"
    using mem assms(4) by (simp_all add: eq split: if_splits)
  have r: "r = r0 \<and> (sv_ProxyEnabled r0 \<longrightarrow> es \<noteq> [] \<and> sv_Name r0 \<in> set (map fst es)) \<or>
      \<not> sv_ProxyEnabled r \<and> (es \<noteq> [] \<longrightarrow> sv_Name r0 \<notin> set (map fst es))"
    using r0(2) by (auto simp: eq)
  have "map_of es (sv_Name r) = None \<longleftrightarrow> sv_Name r0 \<notin> set (map fst es)" by (simp add: map_of_eq_None_iff r0(3))
  with sync_upserts_rows [OF assms(1) up r0(1,2)] r r0(3) show ?thesis
    by (auto split: option.splits)
qed

lemma sync_upsert_ok:
  "registry_ok (db\<lparr>rg_servers := rows\<rparr>) \<Longrightarrow> registry_ok (db\<lparr>rg_servers := sync_upsert now n e rows\<rparr>)"
proof -
  assume ok: "registry_ok (db\<lparr>rg_servers := rows\<rparr>)"
  show ?thesis
  proof (cases "n \<in> sv_Name ` set rows")
    case True
    then show ?thesis
      using registry_ok_update [OF ok]
      by (auto simp: sync_upsert_def Let_def server_check_def config_server_def RegistryTransportType_valid)
  next
    case False
    have "registry_ok ((db\<lparr>rg_servers := rows\<rparr>)\<lparr>rg_servers := rows @ [config_server now n e]\<rparr>)"
      by (rule registry_ok_servers [OF ok])
        (use registry_okD(1,2) [OF ok] False in
          \<open>auto simp: config_server_def server_check_def RegistryTransportType_valid server_statuses_def\<close>)
    with False show ?thesis by (simp add: sync_upsert_def Let_def)
  qed
qed

lemma sync_upserts_ok:
  "registry_ok (db\<lparr>rg_servers := rows\<rparr>) \<Longrightarrow> registry_ok (db\<lparr>rg_servers := fst (sync_upserts fs now es rows)\<rparr>)"
  by (induction fs now es rows rule: sync_upserts.induct) (auto simp: sync_upsert_ok split: option.splits)

lemma SyncConfigServers_ok:
  assumes "registry_ok db"
  shows "registry_ok (fst (sr_SyncConfigServers fs g now es db))"
proof (cases "sync_upserts fs now es (rg_servers db)")
  case (Pair rows res)
  then have rows: "registry_ok (db\<lparr>rg_servers := rows\<rparr>)"
    using sync_upserts_ok [where db = db and rows = "rg_servers db" and fs = fs and now = now and es = es] assms by simp
  from registry_ok_update [OF this] have "registry_ok (db\<lparr>rg_servers := sync_disable now (map fst es) rows\<rparr>)"
    by (simp add: sync_disable_def server_check_def)
  with Pair rows show ?thesis
    by (auto simp: sr_SyncConfigServers_def split: sum.splits option.splits)
qed

subsection \<open>The store as a transition system\<close>

inductive registry_step :: "registry_db \<Rightarrow> registry_db \<Rightarrow> bool" where
  rs_service: "registry_step db (fst (run_call authorize env ctx c db))"
| rs_health: "registry_step db (fst (sr_UpdateServerHealth f now name status msg disc db))"
| rs_discovery: "registry_step db (fst (sr_ReplaceDiscoveredTools f now server ts db))"
| rs_audit: "registry_step db (fst (sr_LogAudit f now entry db))"
| rs_sync: "registry_step db (fst (sr_SyncConfigServers fs g now es db))"

definition registry_init :: "registry_db \<Rightarrow> bool" where
  "registry_init db = (db = \<lparr>rg_servers = [], rg_tools = [], rg_audit = [], rg_next = 1\<rparr>)"

lemma call_store_ok: "registry_ok db \<Longrightarrow> registry_ok (fst (call_store env c db))"
  by (cases c) (simp_all add: UpsertServer_ok DeleteServer_ok SetToolEnabled_ok)

lemma run_call_ok:
  assumes "registry_ok db"
  shows "registry_ok (fst (run_call authorize env ctx c db))"
proof -
  have "registry_ok db1 \<Longrightarrow> registry_ok (db1\<lparr>rg_audit := rg_audit db1 @ [audit_record env sub c (rg_next db1)], rg_next := rg_next db1 + 1\<rparr>)"
    for db1 :: registry_db and sub
    by (fastforce simp: registry_ok_def list_all_iff audit_record_def)
  with call_store_ok [OF assms, of env c] assms show ?thesis
    by (auto simp: run_call_eq split: option.splits sum.splits prod.splits)
qed

interpretation reginv: inductive_invariant registry_init registry_step registry_ok
proof
  fix db db'
  show "registry_init db \<Longrightarrow> registry_ok db" by (simp add: registry_init_def registry_ok_def)
  assume "registry_ok db" "registry_step db db'"
  then show "registry_ok db'"
    by (auto elim!: registry_step.cases
        simp: run_call_ok UpdateServerHealth_ok ReplaceDiscoveredTools_ok LogAudit_ok SyncConfigServers_ok)
qed

subsection \<open>What the registry guarantees\<close>

text \<open>A registry with one server and one tool, an operator and an administrator.\<close>

definition sample_subject :: "string \<Rightarrow> Subject" where
  "sample_subject role = \<lparr>sb_Type = role, sb_ID = ''ann'', sb_Roles = [role]\<rparr>"

definition sample_tool :: Tool where
  "sample_tool =
     \<lparr>tl_ServerName = ''s'', tl_ToolName = ''t'', tl_Description = [], tl_InputSchema = None, tl_SchemaHash = [],
      tl_Enabled = True, tl_LastSeenAt = 0, tl_Metadata = Some ''{}''\<rparr>"

definition sample_entry :: MCPServerEntry where
  "sample_entry = \<lparr>me_LocalCommand = ''run'', me_Remote = None, me_Kubernetes = \<lparr>mr_URL = [], mr_Transport = []\<rparr>, me_JSON = ''{}''\<rparr>"

definition sample_registry :: registry_db where
  "sample_registry = \<lparr>rg_servers = [config_server 0 ''s'' sample_entry], rg_tools = [sample_tool], rg_audit = [], rg_next = 1\<rparr>"

definition sample_env :: svc_env where
  "sample_env = \<lparr>se_store = None, se_audit = None, se_now = 5, se_audit_now = 6\<rparr>"

lemmas sample_registry_defs = sample_registry_def sample_tool_def sample_entry_def config_server_def sample_env_def
  sample_subject_def

lemma sample_disable:
  "run_call Authorize sample_env (Some (sample_subject ''operator'')) (CallSetTool ''s'' ''t'' False) sample_registry =
     (sample_registry\<lparr>rg_tools := [sample_tool\<lparr>tl_Enabled := False\<rparr>],
        rg_audit := [audit_record sample_env (sample_subject ''operator'') (CallSetTool ''s'' ''t'' False) 1], rg_next := 2\<rparr>, Inr ())"
  by (simp add: run_call_eq Authorize_def roleAllows_def permissions_def sr_SetToolEnabled_def affected_def
      update_rows_def is_tool_def sample_registry_defs del: run_call.simps)

text \<open>
  C12 (registry_changes_authorized): a call of the registry service changes a table only if the
  request carries a subject, and that subject has a role the matrix allows: the administrator
  for registering, updating or deleting a server, the administrator or an operator for
  switching a tool.
\<close>

theorem registry_changes_authorized:
  assumes "fst (run_call Authorize env ctx c db) \<noteq> db"
  shows "\<exists>sub. ctx = Some sub \<and>
    (HasRole sub ''admin'' \<or> HasRole sub ''operator'' \<and> call_action c \<in> {ActEnableTool, ActDisableTool})"
proof -
  obtain sub role where sub: "ctx = Some sub" "role \<in> set (sb_Roles sub)" "roleAllows role (call_action c)"
    using run_call_changed [OF assms] by (auto simp: Authorize_None)
  have "call_action c \<in> {ActRegisterServer, ActUpdateServer, ActDeleteServer} \<or> call_action c \<in> {ActEnableTool, ActDisableTool}"
    by (cases c) auto
  with sub show ?thesis
    using roleAllows_server [of "call_action c" role] roleAllows_tool [of "call_action c" role]
    by (auto simp: HasRole_def list_ex_iff)
qed

theorem registry_changes_authorized_witness:
  "fst (run_call Authorize sample_env (Some (sample_subject ''operator'')) (CallSetTool ''s'' ''t'' False) sample_registry)
     \<noteq> sample_registry \<and> HasRole (sample_subject ''operator'') ''operator''"
proof -
  let ?run = "run_call Authorize sample_env (Some (sample_subject ''operator'')) (CallSetTool ''s'' ''t'' False) sample_registry"
  have "rg_next (fst ?run) \<noteq> rg_next sample_registry"
    unfolding sample_disable by (simp add: sample_registry_def)
  then have changed: "fst ?run \<noteq> sample_registry" by metis
  from registry_changes_authorized [OF this]
  have "HasRole (sample_subject ''operator'') ''admin'' \<or> HasRole (sample_subject ''operator'') ''operator''" by blast
  moreover have "\<not> HasRole (sample_subject ''operator'') ''admin''" by (simp add: HasRole_def sample_subject_def)
  ultimately show ?thesis using changed by simp
qed

text \<open>
  A successful call of the service has carried out the store's
  operation and has added exactly one entry to the audit log, with a fresh number, the caller,
  the action, the resource and the time.
\<close>

theorem registry_success_audited:
  assumes "run_call Authorize env ctx c db = (db', Inr u)"
  shows "\<exists>sub db1. ctx = Some sub \<and> call_store env c db = (db1, Inr ()) \<and>
    rg_servers db' = rg_servers db1 \<and> rg_tools db' = rg_tools db1 \<and>
    rg_audit db' = rg_audit db @ [audit_record env sub c (rg_next db)]"
  using assms by (rule run_call_Inr) auto

theorem registry_success_audited_witness:
  "length (rg_audit (fst (run_call Authorize sample_env (Some (sample_subject ''operator''))
     (CallSetTool ''s'' ''t'' False) sample_registry))) = 1"
proof -
  let ?run = "run_call Authorize sample_env (Some (sample_subject ''operator'')) (CallSetTool ''s'' ''t'' False) sample_registry"
  have "?run = (fst ?run, Inr ())" unfolding sample_disable by simp
  from registry_success_audited [OF this] show ?thesis by (auto simp: sample_registry_def)
qed

text \<open>
  C13 (registry_tables_wellformed): in every state reachable by calls of the service, discoveries,
  health updates, audit entries and configuration syncs, in any order and with any failures,
  server names and tool keys are unique, every tool belongs to a registered server, every server
  has a valid transport and status, and audit numbers are unique.
\<close>

theorem registry_tables_wellformed:
  assumes "reach registry_init registry_step db"
  shows "distinct (map sv_Name (rg_servers db)) \<and> list_all server_check (rg_servers db) \<and>
    distinct (map (\<lambda>t. (tl_ServerName t, tl_ToolName t)) (rg_tools db)) \<and>
    list_all (\<lambda>t. tl_ServerName t \<in> sv_Name ` set (rg_servers db)) (rg_tools db) \<and> distinct (map au_ID (rg_audit db))"
  using reginv.reach_inv [OF assms] by (simp add: registry_ok_def)

theorem registry_tables_wellformed_witness:
  "distinct (map sv_Name (rg_servers (fst (sr_SyncConfigServers (\<lambda>_. None) None 7 [(''s'', sample_entry)]
     \<lparr>rg_servers = [], rg_tools = [], rg_audit = [], rg_next = 1\<rparr>))))"
proof -
  have "reach registry_init registry_step \<lparr>rg_servers = [], rg_tools = [], rg_audit = [], rg_next = 1\<rparr>"
    by (rule reach_init) (simp add: registry_init_def)
  then have "reach registry_init registry_step (fst (sr_SyncConfigServers (\<lambda>_. None) None 7 [(''s'', sample_entry)]
      \<lparr>rg_servers = [], rg_tools = [], rg_audit = [], rg_next = 1\<rparr>))"
    by (rule reach_step) (rule rs_sync)
  from registry_tables_wellformed [OF this] show ?thesis by simp
qed

text \<open>
  Once an operator has switched a tool off, it stays off
  through any sequence of discoveries, successful or not, as long as every discovery of its
  server finds it.
\<close>

theorem disabled_flag_survives_discovery:
  assumes "sr_SetToolEnabled f server tool False db = (db', Inr u)"
    and "list_all (\<lambda>(now, srv, ts). srv = server \<longrightarrow> tool \<in> tl_ToolName ` set ts) ds"
  shows "tool_flag (fold (\<lambda>(now, srv, ts) d. fst (sr_ReplaceDiscoveredTools g now srv ts d)) ds db') server tool = Some False"
  by (rule sqlreg.switched_off_stays [OF assms])

theorem disabled_flag_survives_discovery_witness:
  "tool_flag (fst (sr_ReplaceDiscoveredTools None 8 ''s'' [sample_tool]
     (fst (sr_SetToolEnabled None ''s'' ''t'' False sample_registry)))) ''s'' ''t'' = Some False"
proof -
  have "sr_SetToolEnabled None ''s'' ''t'' False sample_registry =
      (fst (sr_SetToolEnabled None ''s'' ''t'' False sample_registry), Inr ())"
    by (simp add: sr_SetToolEnabled_def affected_def is_tool_def sample_registry_def sample_tool_def)
  from disabled_flag_survives_discovery [OF this, of "[(8, ''s'', [sample_tool])]" None] show ?thesis
    by (simp add: sample_tool_def)
qed

text \<open>
  The synchronisation with the configuration, whatever fails in it,
  neither changes, removes nor adds a server that was not created by the configuration.
\<close>

theorem sync_spares_api_servers:
  "filter (\<lambda>r. sv_CreatedBy r \<noteq> ''config'') (rg_servers (fst (sr_SyncConfigServers fs g now es db))) =
     filter (\<lambda>r. sv_CreatedBy r \<noteq> ''config'') (rg_servers db) \<and>
   rg_tools (fst (sr_SyncConfigServers fs g now es db)) = rg_tools db"
  using SyncConfigServers_api [of fs g now es db]
  by (auto simp: sr_SyncConfigServers_def split: prod.splits sum.splits option.splits)

text \<open>
  after a successful synchronisation every configuration-owned server is
  proxied exactly if the configuration names it, and then with the configured connection and
  transport.
\<close>

theorem sync_matches_config:
  assumes "distinct (map fst es)" "sr_SyncConfigServers fs g now es db = (db', Inr u)"
    and "r \<in> set (rg_servers db')" "sv_CreatedBy r = ''config''"
  shows "case map_of es (sv_Name r) of
      None \<Rightarrow> \<not> sv_ProxyEnabled r
    | Some e \<Rightarrow> sv_ProxyEnabled r \<and> sv_ConnectionConfig r = Some (me_JSON e) \<and> sv_TransportType r = RegistryTransportType e"
  using SyncConfigServers_rows [OF assms] by (simp add: synced_def split: option.splits)

theorem sync_matches_config_witness:
  "\<exists>r. rg_servers (fst (sr_SyncConfigServers (\<lambda>_. None) None 7 [(''n'', sample_entry)] sample_registry)) =
     [r, config_server 7 ''n'' sample_entry] \<and> \<not> sv_ProxyEnabled r"
proof -
  let ?db = "fst (sr_SyncConfigServers (\<lambda>_. None) None 7 [(''n'', sample_entry)] sample_registry)"
  let ?r = "(config_server 0 ''s'' sample_entry)\<lparr>sv_ProxyEnabled := False, sv_UpdatedAt := rfc3339_time 7\<rparr>"
  have run: "sr_SyncConfigServers (\<lambda>_. None) None 7 [(''n'', sample_entry)] sample_registry = (?db, Inr ())"
    by (simp add: sr_SyncConfigServers_def)
  have rows: "rg_servers ?db = [?r, config_server 7 ''n'' sample_entry]"
    by (simp add: sr_SyncConfigServers_def sync_upsert_def sync_disable_def update_rows_def sample_registry_defs Let_def)
  from sync_matches_config [OF _ run, of ?r] rows have "\<not> sv_ProxyEnabled ?r"
    by (simp add: sample_registry_defs)
  with rows show ?thesis by blast
qed

end
