(* ===== verification/Gateway.thy ===== *)
theory Gateway
  imports EventRing "HOL-Library.Sublist"
begin

text \<open>
  \<open>internal/gateway\<close>: the MCP gateway's tool policies (\<open>policy.go\<close>), the catalog of proxied
  tools with the cached set of visible ones (\<open>gateway.go\<close>), the per-agent scopes
  (\<open>scope.go\<close>) and the check made when a tool is called. Go maps are association lists with
  distinct keys; iterations over them build maps or count, so their order does not matter.

  \<open>BuildVisibleSet\<close> reads the gateway under its lock, reads the registry without it, and
  writes under it again: it is modelled as the two critical sections, so that overlapping
  builds can be stated. The third-party MCP server appears as the names of its tools.
\<close>

subsection \<open>\<open>policy.go\<close>\<close>

record ToolPolicy =
  tp_Deny :: "string list"
  tp_AllowOnly :: "string list"

definition ends_with_star :: "string \<Rightarrow> bool" where
  "ends_with_star p = (p \<noteq> [] \<and> last p = CHR ''*'')"

fun matchesAny :: "string list \<Rightarrow> string \<Rightarrow> bool" where
  "matchesAny [] name = False"
| "matchesAny (p # ps) name =
     (if p = ''*'' \<or> p = name then True
      else if ends_with_star p \<and> prefix (butlast p) name then True
      else matchesAny ps name)"

definition PolicyAllowed :: "ToolPolicy option \<Rightarrow> string \<Rightarrow> bool" where
  "PolicyAllowed policy toolName =
     (case policy of
        None \<Rightarrow> True
      | Some p \<Rightarrow>
          if tp_AllowOnly p \<noteq> [] \<and> \<not> matchesAny (tp_AllowOnly p) toolName then False
          else if matchesAny (tp_Deny p) toolName then False
          else True)"

subsection \<open>State\<close>

record CatalogEntry =
  ce_ServerName :: string
  ce_OriginalName :: string
  ce_Description :: string

record AgentScope =
  sc_AgentTask :: string
  sc_AllowedTools :: "string list"
  sc_ExpiresAt :: int

record gateway =
  gw_mcpTools :: "string list option"
  gw_catalog :: "(string \<times> CatalogEntry) list"
  gw_hasRegistry :: bool
  gw_toolPolicies :: "(string \<times> ToolPolicy option) list"
  gw_visibleSet :: "(string \<times> bool) list option"
  gw_visibleGen :: nat
  gw_scopes :: "(string \<times> AgentScope) list"

definition NewGateway :: gateway where
  "NewGateway = \<lparr>gw_mcpTools = None, gw_catalog = [], gw_hasRegistry = False, gw_toolPolicies = [],
     gw_visibleSet = None, gw_visibleGen = 0, gw_scopes = []\<rparr>"

definition SetMCPServer :: "string list \<Rightarrow> gateway \<Rightarrow> gateway" where
  "SetMCPServer natives g = g\<lparr>gw_mcpTools := Some natives\<rparr>"

definition SetRegistryStore :: "bool \<Rightarrow> gateway \<Rightarrow> gateway" where
  "SetRegistryStore present g = g\<lparr>gw_hasRegistry := present\<rparr>"

definition SetToolPolicies :: "(string \<times> ToolPolicy option) list \<Rightarrow> gateway \<Rightarrow> gateway" where
  "SetToolPolicies ps g = g\<lparr>gw_toolPolicies := ps\<rparr>"

definition enforcementConfigured :: "gateway \<Rightarrow> bool" where
  "enforcementConfigured g = (gw_hasRegistry g \<or> gw_toolPolicies g \<noteq> [])"

definition ns_name :: "string \<Rightarrow> string \<Rightarrow> string" where
  "ns_name server tool = server @ ''.'' @ tool"

subsection \<open>The visible set\<close>

text \<open>A registry row as \<open>ListTools\<close> returns it: server, tool, enabled.\<close>

type_synonym registry_tool = "string \<times> string \<times> bool"

record build =
  bd_gen :: nat
  bd_policies :: "(string \<times> ToolPolicy option) list"
  bd_hasRegistry :: bool
  bd_catalog :: "(string \<times> CatalogEntry) list"

definition build_begin :: "gateway \<Rightarrow> gateway \<times> build" where
  "build_begin g =
     (let gen = gw_visibleGen g + 1
      in (g\<lparr>gw_visibleGen := gen\<rparr>,
          \<lparr>bd_gen = gen, bd_policies = gw_toolPolicies g, bd_hasRegistry = gw_hasRegistry g,
           bd_catalog = gw_catalog g\<rparr>))"

definition policy_of :: "(string \<times> ToolPolicy option) list \<Rightarrow> string \<Rightarrow> ToolPolicy option" where
  "policy_of ps server = (case map_of ps server of None \<Rightarrow> None | Some p \<Rightarrow> p)"

text \<open>The enabled map: a later row for the same name overwrites an earlier one.\<close>

definition enabled_map :: "registry_tool list \<Rightarrow> (string \<times> bool) list" where
  "enabled_map tools = rev (map (\<lambda>(s, t, e). (ns_name s t, e)) tools)"

definition tool_enabled :: "bool \<Rightarrow> registry_tool list \<Rightarrow> string \<Rightarrow> bool" where
  "tool_enabled hasRegistry tools n =
     (if hasRegistry then (case map_of (enabled_map tools) n of None \<Rightarrow> True | Some e \<Rightarrow> e) else True)"

definition new_visible_set :: "build \<Rightarrow> registry_tool list \<Rightarrow> (string \<times> bool) list" where
  "new_visible_set b tools =
     map (\<lambda>(n, e). (n, tool_enabled (bd_hasRegistry b) tools n
                       \<and> PolicyAllowed (policy_of (bd_policies b) (ce_ServerName e)) (ce_OriginalName e)))
       (bd_catalog b)"

definition build_finish :: "build \<Rightarrow> registry_tool list result \<Rightarrow> gateway \<Rightarrow> gateway" where
  "build_finish b listed g =
     (if bd_catalog b = [] then (if gw_visibleGen g = bd_gen b then g\<lparr>gw_visibleSet := Some []\<rparr> else g)
      else if bd_hasRegistry b then
        (case listed of
           Inl err \<Rightarrow> g
         | Inr tools \<Rightarrow>
             if gw_visibleGen g = bd_gen b then g\<lparr>gw_visibleSet := Some (new_visible_set b tools)\<rparr> else g)
      else if gw_visibleGen g = bd_gen b then g\<lparr>gw_visibleSet := Some (new_visible_set b [])\<rparr> else g)"

definition BuildVisibleSet :: "registry_tool list result \<Rightarrow> gateway \<Rightarrow> gateway" where
  "BuildVisibleSet listed g = (case build_begin g of (g1, b) \<Rightarrow> build_finish b listed g1)"

definition IsToolVisible :: "string \<Rightarrow> gateway \<Rightarrow> bool" where
  "IsToolVisible n g =
     (case gw_visibleSet g of
        None \<Rightarrow> \<not> gw_hasRegistry g \<and> gw_toolPolicies g = []
      | Some vs \<Rightarrow>
          if map_of (gw_catalog g) n = None then False
          else (case map_of vs n of None \<Rightarrow> False | Some v \<Rightarrow> v))"

subsection \<open>\<open>scope.go\<close>\<close>

definition RegisterScope :: "int \<Rightarrow> string \<Rightarrow> string list \<Rightarrow> int \<Rightarrow> gateway \<Rightarrow> gateway" where
  "RegisterScope now agentTask allowedTools ttl g =
     (if allowedTools = [] then g
      else g\<lparr>gw_scopes := AList.update agentTask
               \<lparr>sc_AgentTask = agentTask, sc_AllowedTools = allowedTools, sc_ExpiresAt = now + ttl\<rparr> (gw_scopes g)\<rparr>)"

definition UnregisterScope :: "string \<Rightarrow> gateway \<Rightarrow> gateway" where
  "UnregisterScope agentTask g = g\<lparr>gw_scopes := AList.delete agentTask (gw_scopes g)\<rparr>"

definition visibleCatalogEntries :: "gateway \<Rightarrow> (string \<times> CatalogEntry) list" where
  "visibleCatalogEntries g =
     filter (\<lambda>(n, e). case gw_visibleSet g of None \<Rightarrow> False | Some vs \<Rightarrow> map_of vs n = Some True) (gw_catalog g)"

definition VisibleToolsForAgent :: "int \<Rightarrow> string \<Rightarrow> gateway \<Rightarrow> CatalogEntry list" where
  "VisibleToolsForAgent now agentTask g =
     (let global = map snd (visibleCatalogEntries g)
      in case map_of (gw_scopes g) agentTask of
           None \<Rightarrow> global
         | Some scope \<Rightarrow>
             if now > sc_ExpiresAt scope then global
             else filter (\<lambda>e. ns_name (ce_ServerName e) (ce_OriginalName e) \<in> set (sc_AllowedTools scope)) global)"

definition IsToolVisibleForAgent :: "int \<Rightarrow> string \<Rightarrow> string \<Rightarrow> gateway \<Rightarrow> bool" where
  "IsToolVisibleForAgent now agentTask n g =
     (if \<not> IsToolVisible n g then False
      else case map_of (gw_scopes g) agentTask of
             None \<Rightarrow> True
           | Some scope \<Rightarrow> if now > sc_ExpiresAt scope then True else n \<in> set (sc_AllowedTools scope))"

text \<open>\<open>agent\<close> is the task the request's context carries, if any.\<close>

definition FilterToolsForAgent :: "int \<Rightarrow> string option \<Rightarrow> string list \<Rightarrow> gateway \<Rightarrow> string list" where
  "FilterToolsForAgent now agent tools g =
     (if gw_visibleSet g = None \<and> \<not> enforcementConfigured g then tools
      else
        let scope = (case agent of
                       None \<Rightarrow> None
                     | Some a \<Rightarrow> (case map_of (gw_scopes g) a of
                                   None \<Rightarrow> None
                                 | Some s \<Rightarrow> if now < sc_ExpiresAt s then Some s else None))
        in filter (\<lambda>t.
             if map_of (gw_catalog g) t = None then True
             else if (case gw_visibleSet g of None \<Rightarrow> True | Some vs \<Rightarrow> map_of vs t \<noteq> Some True) then False
             else (case scope of None \<Rightarrow> True | Some s \<Rightarrow> t \<in> set (sc_AllowedTools s))) tools)"

subsection \<open>Registration\<close>

record tool_info =
  ti_Name :: string
  ti_Description :: string
  ti_InputSchema :: string

definition catalog_entry :: "string \<Rightarrow> tool_info \<Rightarrow> CatalogEntry" where
  "catalog_entry server t = \<lparr>ce_ServerName = server, ce_OriginalName = ti_Name t, ce_Description = ti_Description t\<rparr>"

definition add_proxy :: "string \<Rightarrow> tool_info \<Rightarrow> gateway \<Rightarrow> gateway" where
  "add_proxy server t g =
     (let n = ns_name server (ti_Name t)
      in g\<lparr>gw_mcpTools := map_option (\<lambda>ns. n # removeAll n ns) (gw_mcpTools g),
           gw_catalog := AList.update n (catalog_entry server t) (gw_catalog g)\<rparr>)"

text \<open>
  \<open>discovered\<close> is what \<open>pool.DiscoverTools\<close> answers for the server. \<open>RegisterServer\<close> is called
  once the MCP server is set.
\<close>

fun register_tools :: "string \<Rightarrow> tool_info list \<Rightarrow> gateway \<times> nat \<Rightarrow> gateway \<times> nat" where
  "register_tools server [] acc = acc"
| "register_tools server (t # ts) (g, k) =
     (if (case gw_mcpTools g of None \<Rightarrow> False | Some ns \<Rightarrow> ns_name server (ti_Name t) \<in> set ns)
      then register_tools server ts (g, k)
      else register_tools server ts (add_proxy server t g, k + 1))"

definition RegisterServer :: "string \<Rightarrow> tool_info list result \<Rightarrow> gateway \<Rightarrow> gateway \<times> nat result" where
  "RegisterServer server discovered g =
     (case discovered of
        Inl err \<Rightarrow> (g, Inl (ErrMsg (''discovering tools from '' @ quote server @ '': '' @ error_string err)))
      | Inr tools \<Rightarrow> (case register_tools server tools (g, 0) of (g1, k) \<Rightarrow> (g1, Inr k)))"

fun register_servers :: "(string \<times> tool_info list result) list \<Rightarrow> gateway \<Rightarrow> gateway" where
  "register_servers [] g = g"
| "register_servers ((name, discovered) # rest) g = register_servers rest (fst (RegisterServer name discovered g))"

definition RegisterAll :: "(string \<times> tool_info list result) list \<Rightarrow> gateway \<Rightarrow> gateway \<times> unit result" where
  "RegisterAll servers g =
     (if gw_mcpTools g = None
      then (g, Inl (ErrMsg ''gateway: MCPServer not set (call SetMCPServer first)''))
      else (register_servers servers g, Inr ()))"

definition UnregisterServer :: "string \<Rightarrow> gateway \<Rightarrow> gateway" where
  "UnregisterServer name g =
     (let toDelete = map fst (filter (\<lambda>(n, e). ce_ServerName e = name) (gw_catalog g))
      in g\<lparr>gw_catalog := filter (\<lambda>(n, e). n \<notin> set toDelete) (gw_catalog g),
           gw_mcpTools := map_option (filter (\<lambda>n. n \<notin> set toDelete)) (gw_mcpTools g)\<rparr>)"

definition ReconcileServer ::
    "registry_tool list result \<Rightarrow> string \<Rightarrow> tool_info list \<Rightarrow> gateway \<Rightarrow> gateway \<times> unit result" where
  "ReconcileServer listed name tools g =
     (if gw_mcpTools g = None then (g, Inl (ErrMsg ''gateway: MCPServer not set''))
      else
        let incoming = map ti_Name tools;
            toRemove = map fst (filter (\<lambda>(n, e). ce_ServerName e = name \<and> ce_OriginalName e \<notin> set incoming)
                                  (gw_catalog g));
            g1 = g\<lparr>gw_catalog := filter (\<lambda>(n, e). n \<notin> set toRemove) (gw_catalog g),
                   gw_mcpTools := map_option (filter (\<lambda>n. n \<notin> set toRemove)) (gw_mcpTools g)\<rparr>;
            g2 = fold (add_proxy name) tools g1
        in (BuildVisibleSet listed g2, Inr ()))"

definition ServerForTool :: "string \<Rightarrow> gateway \<Rightarrow> string" where
  "ServerForTool n g = (case map_of (gw_catalog g) n of None \<Rightarrow> [] | Some e \<Rightarrow> ce_ServerName e)"

definition ParseNamespacedTool :: "string \<Rightarrow> string \<times> string" where
  "ParseNamespacedTool name =
     (if CHR ''.'' \<in> set name then (takeWhile (\<lambda>c. c \<noteq> CHR ''.'') name, tl (dropWhile (\<lambda>c. c \<noteq> CHR ''.'') name))
      else ([], name))"

subsection \<open>Calling a tool\<close>

datatype 'r tool_result =
    BlockedByPolicy string
  | OutOfScope string
  | CallFailed string string error
  | CallReturned 'r

definition proxy_event :: "string \<Rightarrow> int \<Rightarrow> string \<Rightarrow> string \<Rightarrow> string \<Rightarrow> string \<Rightarrow> (string \<times> string) list \<Rightarrow> event" where
  "proxy_event uuid now act outcome resource agentTask attrs =
     (if outcome = ''rejected''
      then Warn uuid now ''gateway'' act (case map_of attrs ''reason'' of None \<Rightarrow> [] | Some r \<Rightarrow> r)
      else Info uuid now ''gateway'' act)
     \<lparr>ev_Category := ''backend'', ev_Resource := ''mcp_tool:'' @ resource, ev_Outcome := outcome,
      ev_Task := agentTask, ev_Attrs := attrs\<rparr>"

text \<open>
  The handler of one proxied tool: \<open>agentTask\<close> is empty when the context carries none,
  \<open>call\<close> is the backend's answer (with its \<open>IsError\<close> flag) should the call be forwarded, \<open>ms\<close>
  the measured duration. The events go to the bus, in order, when there is one.
\<close>

definition proxyHandler ::
    "(nat \<Rightarrow> string) \<Rightarrow> int \<Rightarrow> int \<Rightarrow> string \<Rightarrow> string \<Rightarrow> string \<Rightarrow> ('r \<times> bool) result \<Rightarrow> gateway \<Rightarrow> 'r tool_result \<times> event list" where
  "proxyHandler uuid now ms serverName toolName agentTask call g =
     (let n = ns_name serverName toolName;
          base = [(''server'', serverName), (''tool'', toolName)]
      in if \<not> IsToolVisible n g then
           (BlockedByPolicy n,
            [proxy_event (uuid 0) now ''proxy_rejected'' ''rejected'' n agentTask (base @ [(''reason'', ''disabled by policy'')])])
         else if agentTask \<noteq> [] \<and> \<not> IsToolVisibleForAgent now agentTask n g then
           (OutOfScope n,
            [proxy_event (uuid 0) now ''proxy_rejected'' ''rejected'' n agentTask (base @ [(''reason'', ''not in agent scope'')])])
         else
           let allowed = (if enforcementConfigured g
                          then [proxy_event (uuid 0) now ''proxy_allowed'' ''allowed'' n agentTask base] else []);
               timed = base @ [(''duration_ms'', itoa ms)]
           in case call of
                Inl err \<Rightarrow>
                  (CallFailed serverName toolName err,
                   allowed @ [proxy_event (uuid 1) now ''proxy_call'' ''failure'' n agentTask (timed @ [(''error'', error_string err)])])
              | Inr (r, isError) \<Rightarrow>
                  (CallReturned r,
                   allowed @ [proxy_event (uuid 1) now ''proxy_call'' (if isError then ''failure'' else ''success'') n agentTask timed]))"

subsection \<open>Patterns and policies\<close>

definition glob_matches :: "string \<Rightarrow> string \<Rightarrow> bool" where
  "glob_matches p name \<longleftrightarrow> p = name \<or> (\<exists>q. p = q @ ''*'' \<and> prefix q name)"

lemma star_glob: "ends_with_star p \<and> prefix (butlast p) name \<longleftrightarrow> (\<exists>q. p = q @ ''*'' \<and> prefix q name)"
  by (cases p rule: rev_cases) (auto simp: ends_with_star_def)

lemma matchesAny_iff: "matchesAny ps name \<longleftrightarrow> (\<exists>p\<in>set ps. glob_matches p name)"
proof (induction ps)
  case (Cons p ps)
  have "p = ''*'' \<Longrightarrow> glob_matches p name" by (auto simp: glob_matches_def)
  with Cons star_glob [of p name] show ?case by (auto simp: glob_matches_def)
qed simp

lemma PolicyAllowed_iff:
  "PolicyAllowed (Some p) name \<longleftrightarrow>
     (\<forall>d\<in>set (tp_Deny p). \<not> glob_matches d name) \<and>
     (tp_AllowOnly p = [] \<or> (\<exists>a\<in>set (tp_AllowOnly p). glob_matches a name))"
  by (auto simp: PolicyAllowed_def matchesAny_iff)

subsection \<open>Visibility\<close>

text \<open>What \<open>BuildVisibleSet\<close> is meant to compute, for a catalog and an answer of the registry.\<close>

definition permitted :: "gateway \<Rightarrow> registry_tool list \<Rightarrow> string \<Rightarrow> bool" where
  "permitted g tools n \<longleftrightarrow>
     (\<exists>e. map_of (gw_catalog g) n = Some e \<and> tool_enabled (gw_hasRegistry g) tools n \<and>
        PolicyAllowed (policy_of (gw_toolPolicies g) (ce_ServerName e)) (ce_OriginalName e))"

lemma map_of_new_visible_set:
  "map_of (new_visible_set b tools) n =
     map_option (\<lambda>e. tool_enabled (bd_hasRegistry b) tools n \<and>
       PolicyAllowed (policy_of (bd_policies b) (ce_ServerName e)) (ce_OriginalName e)) (map_of (bd_catalog b) n)"
proof -
  have "map_of (map (\<lambda>(n, e). (n, f n e)) xs) n = map_option (f n) (map_of xs n)" for f :: "string \<Rightarrow> CatalogEntry \<Rightarrow> bool" and xs
    by (induction xs) auto
  then show ?thesis by (simp add: new_visible_set_def)
qed

lemma BuildVisibleSet_registry_down:
  assumes "gw_hasRegistry g" "gw_catalog g \<noteq> []"
  shows "gw_visibleSet (BuildVisibleSet (Inl err) g) = gw_visibleSet g"
  using assms by (simp add: BuildVisibleSet_def build_begin_def build_finish_def Let_def)

lemma IsToolVisible_built:
  "IsToolVisible n (BuildVisibleSet (Inr tools) g) \<longleftrightarrow> permitted g (if gw_hasRegistry g then tools else []) n"
  by (cases "map_of (gw_catalog g) n")
    (auto simp: BuildVisibleSet_def build_begin_def build_finish_def Let_def IsToolVisible_def permitted_def
      map_of_new_visible_set)

lemma tool_enabled_no_registry [simp]: "tool_enabled False tools n"
  by (simp add: tool_enabled_def)

text \<open>Actions of other goroutines between the two halves of a build.\<close>

inductive gw_other :: "gateway \<Rightarrow> gateway \<Rightarrow> bool" where
  go_begin: "gw_other g (fst (build_begin g))"
| go_finish: "gw_other g (build_finish b listed g)"
| go_policies: "gw_other g (SetToolPolicies ps g)"
| go_registry: "gw_other g (SetRegistryStore r g)"
| go_scope: "gw_other g (RegisterScope t a ts ttl g)"
| go_unscope: "gw_other g (UnregisterScope a g)"
| go_unregister: "gw_other g (UnregisterServer name g)"
| go_register: "gw_other g (fst (RegisterServer name d g))"

lemma gen_build_finish [simp]: "gw_visibleGen (build_finish b listed g) = gw_visibleGen g"
  by (auto simp: build_finish_def split: sum.splits)

lemma gen_register_tools [simp]: "gw_visibleGen (fst (register_tools server ts (g, k))) = gw_visibleGen g"
  by (induction ts arbitrary: g k) (auto simp: add_proxy_def Let_def)

lemma gen_other: "gw_other g g' \<Longrightarrow> gw_visibleGen g \<le> gw_visibleGen g'"
proof (induction rule: gw_other.induct)
  case (go_register g name d)
  show ?case
  proof (cases d)
    case (Inr ts)
    obtain g1 k where "register_tools name ts (g, 0) = (g1, k)" by fastforce
    then show ?thesis using gen_register_tools [of name ts g 0] by (simp add: RegisterServer_def Inr)
  qed (simp add: RegisterServer_def)
qed (simp_all add: build_begin_def Let_def SetToolPolicies_def SetRegistryStore_def RegisterScope_def
      UnregisterScope_def UnregisterServer_def)

lemma gen_others: "gw_other\<^sup>*\<^sup>* g g' \<Longrightarrow> gw_visibleGen g \<le> gw_visibleGen g'"
  by (induction rule: rtranclp_induct) (auto dest: gen_other)

lemma stale_finish: "bd_gen b < gw_visibleGen g \<Longrightarrow> build_finish b listed g = g"
  by (auto simp: build_finish_def split: sum.splits)

subsection \<open>The call-time check\<close>

lemma forwarded_visible:
  "fst (proxyHandler uuid t ms s tool a call g) \<in> {CallReturned r, CallFailed s tool e} \<Longrightarrow>
    IsToolVisible (ns_name s tool) g \<and> (a = [] \<or> IsToolVisibleForAgent t a (ns_name s tool) g)"
  by (auto simp: proxyHandler_def Let_def split: if_splits)

lemma IsToolVisible_catalog:
  "IsToolVisible n g \<Longrightarrow> gw_visibleSet g \<noteq> None \<or> enforcementConfigured g \<Longrightarrow> map_of (gw_catalog g) n \<noteq> None"
  by (auto simp: IsToolVisible_def enforcementConfigured_def split: option.splits if_splits)

subsection \<open>Registration and the catalog\<close>

text \<open>Every key is the namespaced name of its entry.\<close>

definition catalog_ok :: "gateway \<Rightarrow> bool" where
  "catalog_ok g \<longleftrightarrow> distinct (map fst (gw_catalog g)) \<and>
     (\<forall>n e. map_of (gw_catalog g) n = Some e \<longrightarrow> n = ns_name (ce_ServerName e) (ce_OriginalName e))"

lemma ns_name_inject_server: "ns_name s t = ns_name s t' \<longleftrightarrow> t = t'"
  by (simp add: ns_name_def)

lemma map_of_filter_pred:
  "distinct (map fst xs) \<Longrightarrow>
    map_of (filter (\<lambda>(n, e). P n e) xs) k = (case map_of xs k of None \<Rightarrow> None | Some e \<Rightarrow> if P k e then Some e else None)"
  by (induction xs) (auto simp: map_of_eq_None_iff image_iff split: option.splits)

lemma distinct_fst_filter: "distinct (map fst xs) \<Longrightarrow> distinct (map fst (filter P xs))"
  by (simp add: distinct_map_filter)

lemma add_proxy_catalog:
  "map_of (gw_catalog (add_proxy s t g)) = (map_of (gw_catalog g))(ns_name s (ti_Name t) \<mapsto> catalog_entry s t)"
  by (simp add: add_proxy_def Let_def update_conv')

lemma catalog_ok_add: "catalog_ok g \<Longrightarrow> catalog_ok (add_proxy s t g)"
  by (auto simp: catalog_ok_def add_proxy_catalog catalog_entry_def)
    (simp add: add_proxy_def Let_def distinct_update)

lemma catalog_ok_fold: "catalog_ok g \<Longrightarrow> catalog_ok (fold (add_proxy s) ts g)"
  by (induction ts arbitrary: g) (auto simp: catalog_ok_add)

lemma fold_add_catalog:
  "map_of (gw_catalog (fold (add_proxy s) ts g)) n =
     (if n \<in> ns_name s ` ti_Name ` set ts
      then map_of (rev (map (\<lambda>t. (ns_name s (ti_Name t), catalog_entry s t)) ts)) n else map_of (gw_catalog g) n)"
  by (induction ts rule: rev_induct) (auto simp: add_proxy_catalog)

lemma BuildVisibleSet_frame [simp]:
  "gw_catalog (BuildVisibleSet listed g) = gw_catalog g" "gw_mcpTools (BuildVisibleSet listed g) = gw_mcpTools g"
  by (auto simp: BuildVisibleSet_def build_begin_def build_finish_def Let_def split: sum.splits)

lemma fold_add_mcp: "gw_mcpTools (fold (add_proxy s) ts g) = None \<longleftrightarrow> gw_mcpTools g = None"
  by (induction ts arbitrary: g) (auto simp: add_proxy_def Let_def)

lemma ReconcileServer_catalog:
  assumes "catalog_ok g" "gw_mcpTools g \<noteq> None"
  shows "map_of (gw_catalog (fst (ReconcileServer listed name tools g))) n =
    (if n \<in> ns_name name ` ti_Name ` set tools
     then map_of (rev (map (\<lambda>t. (ns_name name (ti_Name t), catalog_entry name t)) tools)) n
     else case map_of (gw_catalog g) n of None \<Rightarrow> None
          | Some e \<Rightarrow> if ce_ServerName e = name then None else Some e)"
proof -
  let ?rm = "map fst (filter (\<lambda>(n, e). ce_ServerName e = name \<and> ce_OriginalName e \<notin> set (map ti_Name tools)) (gw_catalog g))"
  let ?g1 = "g\<lparr>gw_catalog := filter (\<lambda>(n, e). n \<notin> set ?rm) (gw_catalog g),
               gw_mcpTools := map_option (filter (\<lambda>n. n \<notin> set ?rm)) (gw_mcpTools g)\<rparr>"
  have d: "distinct (map fst (gw_catalog g))" using assms(1) by (simp add: catalog_ok_def)
  have rm: "n \<in> set ?rm \<longleftrightarrow> (\<exists>e. map_of (gw_catalog g) n = Some e \<and> ce_ServerName e = name \<and>
      ce_OriginalName e \<notin> ti_Name ` set tools)"
    using d by (force simp: image_iff)
  have g1: "map_of (gw_catalog ?g1) n = (if n \<in> set ?rm then None else map_of (gw_catalog g) n)"
    using map_of_filter_pred [OF d, of "\<lambda>n e. n \<notin> set ?rm" n] by (auto split: option.splits)
  have own: "n \<in> ns_name name ` ti_Name ` set tools"
    if "map_of (gw_catalog g) n = Some e" "ce_ServerName e = name" "ce_OriginalName e \<in> ti_Name ` set tools" for e
    using assms(1) that unfolding catalog_ok_def by blast
  have "fst (ReconcileServer listed name tools g) = BuildVisibleSet listed (fold (add_proxy name) tools ?g1)"
    using assms(2) unfolding ReconcileServer_def Let_def by (simp only: if_False fst_conv)
  then have "map_of (gw_catalog (fst (ReconcileServer listed name tools g))) n =
    (if n \<in> ns_name name ` ti_Name ` set tools
     then map_of (rev (map (\<lambda>t. (ns_name name (ti_Name t), catalog_entry name t)) tools)) n else map_of (gw_catalog ?g1) n)"
    by (simp only: BuildVisibleSet_frame fold_add_catalog)
  then show ?thesis unfolding g1 using rm own by (auto split: option.splits)
qed

lemma map_of_UnregisterServer:
  assumes "catalog_ok g"
  shows "map_of (gw_catalog (UnregisterServer name g)) n =
    (case map_of (gw_catalog g) n of None \<Rightarrow> None | Some e \<Rightarrow> if ce_ServerName e = name then None else Some e)"
proof -
  have d: "distinct (map fst (gw_catalog g))" using assms by (simp add: catalog_ok_def)
  let ?del = "map fst (filter (\<lambda>(n, e). ce_ServerName e = name) (gw_catalog g))"
  have "n \<in> set ?del \<longleftrightarrow> (\<exists>e. map_of (gw_catalog g) n = Some e \<and> ce_ServerName e = name)"
    using d by (force simp: image_iff)
  then show ?thesis
    using map_of_filter_pred [OF d, of "\<lambda>n e. n \<notin> set ?del" n]
    by (auto simp: UnregisterServer_def Let_def split: option.splits)
qed

lemma ParseNamespacedTool_ns: "CHR ''.'' \<notin> set s \<Longrightarrow> ParseNamespacedTool (ns_name s t) = (s, t)"
  by (induction s) (auto simp: ParseNamespacedTool_def ns_name_def)

subsection \<open>What the gateway guarantees\<close>

definition sample_policy :: ToolPolicy where
  "sample_policy = \<lparr>tp_Deny = [''del*''], tp_AllowOnly = []\<rparr>"

definition sample_gateway :: gateway where
  "sample_gateway =
     \<lparr>gw_mcpTools = Some [], gw_catalog = [(''s.get'', \<lparr>ce_ServerName = ''s'', ce_OriginalName = ''get'', ce_Description = []\<rparr>),
        (''s.delete'', \<lparr>ce_ServerName = ''s'', ce_OriginalName = ''delete'', ce_Description = []\<rparr>)],
      gw_hasRegistry = True, gw_toolPolicies = [(''s'', Some sample_policy)], gw_visibleSet = None, gw_visibleGen = 0,
      gw_scopes = []\<rparr>"

text \<open>
  C14 (visible_iff_permitted): after a build of the visible set that read the registry, a tool is
  visible exactly if it is in the catalog, the registry does not list it as disabled, none of its
  server's deny patterns matches its name and, when there is an allow list, one of its patterns
  does; a pattern matches its own text and, ending in a star, every name with the prefix before
  the star.
\<close>

theorem visible_iff_permitted:
  "IsToolVisible n (BuildVisibleSet (Inr tools) g) \<longleftrightarrow>
     (\<exists>e. map_of (gw_catalog g) n = Some e \<and> tool_enabled (gw_hasRegistry g) tools n \<and>
       (case policy_of (gw_toolPolicies g) (ce_ServerName e) of
          None \<Rightarrow> True
        | Some p \<Rightarrow> \<not> list_ex (\<lambda>d. glob_matches d (ce_OriginalName e)) (tp_Deny p) \<and>
            (tp_AllowOnly p = [] \<or> list_ex (\<lambda>a. glob_matches a (ce_OriginalName e)) (tp_AllowOnly p))))"
proof -
  have pol: "PolicyAllowed op name \<longleftrightarrow> (case op of None \<Rightarrow> True
      | Some p \<Rightarrow> \<not> list_ex (\<lambda>d. glob_matches d name) (tp_Deny p) \<and>
          (tp_AllowOnly p = [] \<or> list_ex (\<lambda>a. glob_matches a name) (tp_AllowOnly p)))" for op name
    by (cases op) (auto simp: PolicyAllowed_iff list_ex_iff, simp add: PolicyAllowed_def)
  show ?thesis
    unfolding IsToolVisible_built permitted_def pol by (cases "gw_hasRegistry g") simp_all
qed

text \<open>
  When the registry cannot be read, a build makes no tool
  visible that was not visible before, and no tool at all before the first successful build.
\<close>

theorem failed_build_shows_nothing_new:
  assumes "gw_hasRegistry g" "IsToolVisible n (BuildVisibleSet (Inl err) g)"
  shows "IsToolVisible n g \<and> gw_visibleSet g \<noteq> None"
proof (cases "gw_catalog g = []")
  case True
  with assms(2) show ?thesis by (simp add: BuildVisibleSet_def build_begin_def build_finish_def IsToolVisible_def Let_def)
next
  case False
  have cat: "gw_catalog (BuildVisibleSet (Inl err) g) = gw_catalog g" by simp
  have same: "gw_visibleSet (BuildVisibleSet (Inl err) g) = gw_visibleSet g"
    by (rule BuildVisibleSet_registry_down [OF assms(1) False])
  have "gw_visibleSet g \<noteq> None"
  proof
    assume "gw_visibleSet g = None"
    with assms False show False
      by (simp add: BuildVisibleSet_def build_begin_def build_finish_def IsToolVisible_def Let_def)
  qed
  with assms(2) same cat show ?thesis by (auto simp: IsToolVisible_def split: if_splits)
qed

theorem failed_build_shows_nothing_new_witness:
  "IsToolVisible ''s.get'' (BuildVisibleSet (Inl ErrCtx) (BuildVisibleSet (Inr []) sample_gateway)) \<and>
     IsToolVisible ''s.get'' (BuildVisibleSet (Inr []) sample_gateway)"
proof -
  have vis: "IsToolVisible ''s.get'' (BuildVisibleSet (Inl ErrCtx) (BuildVisibleSet (Inr []) sample_gateway))"
    "gw_hasRegistry (BuildVisibleSet (Inr []) sample_gateway)"
    by (simp_all add: BuildVisibleSet_def build_begin_def build_finish_def IsToolVisible_def new_visible_set_def Let_def
        tool_enabled_def enabled_map_def policy_of_def PolicyAllowed_def ends_with_star_def sample_gateway_def sample_policy_def)
  with failed_build_shows_nothing_new [OF vis(2,1)] show ?thesis by simp
qed

text \<open>
  A build that began before another one, and finishes after it began,
  changes nothing, whatever happens in between.
\<close>

theorem stale_build_discarded:
  assumes "build_begin g = (g1, b)" "gw_other\<^sup>*\<^sup>* g1 g2" "gw_other\<^sup>*\<^sup>* (fst (build_begin g2)) g3"
  shows "build_finish b listed g3 = g3"
proof (rule stale_finish)
  have "bd_gen b = gw_visibleGen g1" using assms(1) by (auto simp: build_begin_def Let_def)
  also have "\<dots> \<le> gw_visibleGen g2" by (rule gen_others [OF assms(2)])
  also have "\<dots> < gw_visibleGen (fst (build_begin g2))" by (simp add: build_begin_def Let_def)
  also have "\<dots> \<le> gw_visibleGen g3" by (rule gen_others [OF assms(3)])
  finally show "bd_gen b < gw_visibleGen g3" .
qed

theorem stale_build_discarded_witness:
  "build_finish (snd (build_begin sample_gateway)) (Inr [])
     (build_finish (snd (build_begin (fst (build_begin sample_gateway)))) (Inr [(''s'', ''get'', False)])
       (fst (build_begin (fst (build_begin sample_gateway))))) =
   build_finish (snd (build_begin (fst (build_begin sample_gateway)))) (Inr [(''s'', ''get'', False)])
     (fst (build_begin (fst (build_begin sample_gateway))))"
  by (rule stale_build_discarded [OF surjective_pairing rtranclp.rtrancl_refl r_into_rtranclp]) (rule go_finish)

text \<open>
  A call reaches a backend only if the tool is visible and, for a
  call made by an agent that has a scope which has not expired, is in that scope.
\<close>

theorem proxy_forwards_only_visible:
  assumes "\<And>n. fst (proxyHandler uuid now ms s tool a call g) \<noteq> BlockedByPolicy n"
    "\<And>n. fst (proxyHandler uuid now ms s tool a call g) \<noteq> OutOfScope n"
  shows "IsToolVisible (ns_name s tool) g \<and>
    (a = [] \<or> (case map_of (gw_scopes g) a of
                 None \<Rightarrow> True
               | Some scope \<Rightarrow> now > sc_ExpiresAt scope \<or> ns_name s tool \<in> set (sc_AllowedTools scope)))"
proof -
  have vis: "IsToolVisible (ns_name s tool) g"
    using assms(1) [of "ns_name s tool"] by (auto simp: proxyHandler_def Let_def split: if_splits)
  moreover have "a = [] \<or> IsToolVisibleForAgent now a (ns_name s tool) g"
    using assms(2) [of "ns_name s tool"] vis by (auto simp: proxyHandler_def Let_def split: if_splits)
  ultimately show ?thesis by (auto simp: IsToolVisibleForAgent_def split: option.splits if_splits)
qed

theorem proxy_forwards_only_visible_witness:
  "IsToolVisible (ns_name ''s'' ''get'') (BuildVisibleSet (Inr []) sample_gateway)"
proof -
  let ?g = "BuildVisibleSet (Inr []) sample_gateway"
  have "fst (proxyHandler (\<lambda>_. []) 0 0 ''s'' ''get'' [] (Inr (True, False)) ?g) = CallReturned True"
    by (simp add: proxyHandler_def BuildVisibleSet_def build_begin_def build_finish_def IsToolVisible_def new_visible_set_def
        Let_def tool_enabled_def enabled_map_def policy_of_def PolicyAllowed_def ends_with_star_def ns_name_def
        sample_gateway_def sample_policy_def)
  with proxy_forwards_only_visible [of "\<lambda>_. []" 0 0 "''s''" "''get''" "[]" "Inr (True, False)" ?g] show ?thesis by simp
qed

text \<open>
  Reconciling a server makes the catalog hold, for that
  server, exactly the discovered tools under their namespaced names, and leaves the entries of
  other servers alone.
\<close>

theorem reconcile_installs_discovered_tools:
  assumes "catalog_ok g" "gw_mcpTools g \<noteq> None" "distinct (map ti_Name tools)"
  shows "map_of (gw_catalog (fst (ReconcileServer listed name tools g))) n =
    (if n \<in> set (map (\<lambda>t. ns_name name (ti_Name t)) tools)
     then map_of (map (\<lambda>t. (ns_name name (ti_Name t), catalog_entry name t)) tools) n
     else case map_of (gw_catalog g) n of None \<Rightarrow> None
          | Some e \<Rightarrow> if ce_ServerName e = name then None else Some e)"
proof -
  let ?new = "map (\<lambda>t. (ns_name name (ti_Name t), catalog_entry name t)) tools"
  have "map fst ?new = map (ns_name name) (map ti_Name tools)" by (simp add: o_def)
  moreover have "inj_on (ns_name name) S" for S by (auto simp: inj_on_def ns_name_inject_server)
  ultimately have "distinct (map fst ?new)" using assms(3) by (simp only: distinct_map)
  then have "map_of (rev ?new) = map_of ?new" by (rule map_of_rev_distinct)
  then show ?thesis using ReconcileServer_catalog [OF assms(1,2), of listed name tools n] by (auto simp: image_image)
qed

theorem reconcile_installs_discovered_tools_witness:
  "map_of (gw_catalog (fst (ReconcileServer (Inr []) ''s'' [\<lparr>ti_Name = ''new'', ti_Description = [], ti_InputSchema = []\<rparr>] sample_gateway))) ''s.get'' = None"
proof -
  have ok: "catalog_ok sample_gateway" "gw_mcpTools sample_gateway \<noteq> None"
    by (auto simp: catalog_ok_def sample_gateway_def ns_name_def split: if_splits)
  from reconcile_installs_discovered_tools [OF ok, of "[\<lparr>ti_Name = ''new'', ti_Description = [], ti_InputSchema = []\<rparr>]" "Inr []" "''s''" "''s.get''"]
  show ?thesis by (simp add: sample_gateway_def ns_name_def)
qed

end
