(* ===== verification/Json.thy ===== *)
theory Json
  imports Prelude
begin

text \<open>
  \<open>json.Valid\<close> of the Go standard library: the scanner of \<open>encoding/json\<close>, a machine that reads one
  byte at a time with a stack of the objects and arrays it is in. \<open>None\<close> is a syntax error.
\<close>

datatype json_ctx = InKey | InValue | InArray

datatype json_state =
    BeginValue | BeginValueOrEmpty | BeginString | BeginStringOrEmpty
  | InString | InEscape | InHex nat
  | Minus | Zero | Digits | Dot | Fraction | Exp | ExpSign | ExpDigits
  | Literal string | EndValue | EndTop

abbreviation is_space :: "char \<Rightarrow> bool" where
  "is_space c \<equiv> c \<in> {CHR '' '', CHR 0x09, CHR 0x0A, CHR 0x0D}"

abbreviation is_digit :: "char \<Rightarrow> bool" where
  "is_digit c \<equiv> CHR ''0'' \<in> {c} \<or> c \<in> set ''123456789''"

abbreviation is_hex :: "char \<Rightarrow> bool" where
  "is_hex c \<equiv> c \<in> set ''0123456789abcdefABCDEF''"

definition max_nesting :: nat where "max_nesting = 10000"

type_synonym json_scan = "json_state \<times> json_ctx list"

definition push_ctx :: "json_state \<Rightarrow> json_ctx \<Rightarrow> json_ctx list \<Rightarrow> json_scan option" where
  "push_ctx st c stack = (if length stack < max_nesting then Some (st, c # stack) else None)"

definition pop_ctx :: "json_ctx list \<Rightarrow> json_scan option" where
  "pop_ctx stack = (case stack of [] \<Rightarrow> None | c # rest \<Rightarrow> Some (if rest = [] then EndTop else EndValue, rest))"

definition begin_value :: "char \<Rightarrow> json_ctx list \<Rightarrow> json_scan option" where
  "begin_value c stack =
     (if is_space c then Some (BeginValue, stack)
      else if c = CHR ''{'' then push_ctx BeginStringOrEmpty InKey stack
      else if c = CHR ''['' then push_ctx BeginValueOrEmpty InArray stack
      else if c = CHR 0x22 then Some (InString, stack)
      else if c = CHR ''-'' then Some (Minus, stack)
      else if c = CHR ''0'' then Some (Zero, stack)
      else if c = CHR ''t'' then Some (Literal ''rue'', stack)
      else if c = CHR ''f'' then Some (Literal ''alse'', stack)
      else if c = CHR ''n'' then Some (Literal ''ull'', stack)
      else if is_digit c then Some (Digits, stack)
      else None)"

definition end_value :: "char \<Rightarrow> json_ctx list \<Rightarrow> json_scan option" where
  "end_value c stack =
     (case stack of
        [] \<Rightarrow> if is_space c then Some (EndTop, []) else None
      | ctx # rest \<Rightarrow>
          if is_space c then Some (EndValue, stack)
          else (case ctx of
                  InKey \<Rightarrow> if c = CHR '':'' then Some (BeginValue, InValue # rest) else None
                | InValue \<Rightarrow> if c = CHR '','' then Some (BeginString, InKey # rest)
                            else if c = CHR ''}'' then pop_ctx stack else None
                | InArray \<Rightarrow> if c = CHR '','' then Some (BeginValue, stack)
                            else if c = CHR '']'' then pop_ctx stack else None))"

fun json_step :: "char \<Rightarrow> json_scan \<Rightarrow> json_scan option" where
  "json_step c (BeginValue, stack) = begin_value c stack"
| "json_step c (BeginValueOrEmpty, stack) =
     (if is_space c then Some (BeginValueOrEmpty, stack)
      else if c = CHR '']'' then end_value c stack else begin_value c stack)"
| "json_step c (BeginStringOrEmpty, stack) =
     (if is_space c then Some (BeginStringOrEmpty, stack)
      else if c = CHR ''}'' then pop_ctx stack
      else if c = CHR 0x22 then Some (InString, stack) else None)"
| "json_step c (BeginString, stack) =
     (if is_space c then Some (BeginString, stack) else if c = CHR 0x22 then Some (InString, stack) else None)"
| "json_step c (InString, stack) =
     (if c = CHR 0x22 then Some (EndValue, stack)
      else if c = CHR 0x5C then Some (InEscape, stack)
      else if (of_char c :: nat) < 32 then None else Some (InString, stack))"
| "json_step c (InEscape, stack) =
     (if c \<in> set ''bfnrt/'' \<or> c = CHR 0x5C \<or> c = CHR 0x22 then Some (InString, stack)
      else if c = CHR ''u'' then Some (InHex 3, stack) else None)"
| "json_step c (InHex k, stack) =
     (if is_hex c then Some (if k = 0 then InString else InHex (k - 1), stack) else None)"
| "json_step c (Minus, stack) =
     (if c = CHR ''0'' then Some (Zero, stack) else if is_digit c then Some (Digits, stack) else None)"
| "json_step c (Digits, stack) =
     (if is_digit c then Some (Digits, stack)
      else if c = CHR ''.'' then Some (Dot, stack)
      else if c \<in> set ''eE'' then Some (Exp, stack) else end_value c stack)"
| "json_step c (Zero, stack) =
     (if c = CHR ''.'' then Some (Dot, stack)
      else if c \<in> set ''eE'' then Some (Exp, stack) else end_value c stack)"
| "json_step c (Dot, stack) = (if is_digit c then Some (Fraction, stack) else None)"
| "json_step c (Fraction, stack) =
     (if is_digit c then Some (Fraction, stack)
      else if c \<in> set ''eE'' then Some (Exp, stack) else end_value c stack)"
| "json_step c (Exp, stack) =
     (if c \<in> set ''+-'' then Some (ExpSign, stack) else if is_digit c then Some (ExpDigits, stack) else None)"
| "json_step c (ExpSign, stack) = (if is_digit c then Some (ExpDigits, stack) else None)"
| "json_step c (ExpDigits, stack) = (if is_digit c then Some (ExpDigits, stack) else end_value c stack)"
| "json_step c (Literal s, stack) =
     (case s of [] \<Rightarrow> None | x # xs \<Rightarrow> if c = x then Some (if xs = [] then EndValue else Literal xs, stack) else None)"
| "json_step c (EndValue, stack) = end_value c stack"
| "json_step c (EndTop, stack) = (if is_space c then Some (EndTop, stack) else None)"

fun json_scan_all :: "string \<Rightarrow> json_scan \<Rightarrow> json_scan option" where
  "json_scan_all [] s = Some s"
| "json_scan_all (c # cs) s = (case json_step c s of None \<Rightarrow> None | Some s' \<Rightarrow> json_scan_all cs s')"

text \<open>At the end of the input the scanner reads one more space and must have left every context.\<close>

definition json_valid :: "string \<Rightarrow> bool" where
  "json_valid text =
     (case json_scan_all text (BeginValue, []) of
        None \<Rightarrow> False
      | Some (st, stack) \<Rightarrow> st = EndTop \<or> (case json_step (CHR '' '') (st, stack) of None \<Rightarrow> False | Some (st', _) \<Rightarrow> st' = EndTop))"

lemma json_scan_append:
  "json_scan_all (xs @ ys) s = (case json_scan_all xs s of None \<Rightarrow> None | Some s' \<Rightarrow> json_scan_all ys s')"
  by (induction xs arbitrary: s) (auto split: option.splits)

lemma json_valid_nonempty: "json_valid text \<Longrightarrow> text \<noteq> []"
  by (auto simp: json_valid_def begin_value_def)

end
