(* ===== verification/Pool.thy ===== *)
theory Pool
  imports Gateway Json
begin

text \<open>
  \<open>internal/mcpclient\<close>: the pool of connections to the backend MCP servers (\<open>pool.go\<close>,
  \<open>discovery.go\<close>). Goroutines share the pool and hold pointers to its entries, also to entries
  the pool has since dropped: entries live in a heap, \<open>pl_servers\<close> maps names to addresses.

  Every critical section of the code is a definition on the pool. Their sequential composition
  is the operation as one goroutine runs it alone (\<open>getOrConnect\<close>, \<open>DiscoverTools\<close>,
  \<open>CallToolRaw\<close>, \<open>CallTool\<close>); \<open>pool_act\<close> interleaves them, one critical section at a time, for any
  number of goroutines. What the third-party MCP client answers during a connect is a \<open>dial\<close>.
\<close>

subsection \<open>Entries and the pool\<close>

datatype ConnState = ConnIdle | ConnConnecting | ConnReady | ConnFailed

text \<open>A tool as the backend lists it; \<open>mt_InputSchema\<close> is the JSON text of its schema.\<close>

record mcp_tool =
  mt_Name :: string
  mt_Description :: string
  mt_InputSchema :: string

record serverEntry =
  en_state :: ConnState
  en_client :: "nat option"
  en_tools :: "(string \<times> mcp_tool) list"
  en_connectedAt :: int
  en_lastErr :: "error option"

definition newServerEntry :: serverEntry where
  "newServerEntry = \<lparr>en_state = ConnIdle, en_client = None, en_tools = [], en_connectedAt = 0, en_lastErr = None\<rparr>"

record 'c ServerInfo =
  si_Name :: string
  si_State :: ConnState
  si_LastErr :: "error option"
  si_Config :: "'c option"

text \<open>
  Clients are numbered in the order they are created; \<open>pl_open\<close> are those not closed yet.
  \<open>pl_events\<close> are the events given to the bus, if there is one.
\<close>

record 'c pool =
  pl_servers :: "(string \<times> nat) list"
  pl_heap :: "serverEntry list"
  pl_config :: "(string \<times> 'c) list"
  pl_bus :: bool
  pl_handler :: bool
  pl_clients :: nat
  pl_open :: "nat list"
  pl_events :: "event list"

definition NewPool :: "(string \<times> 'c) list \<Rightarrow> 'c pool" where
  "NewPool cfg = \<lparr>pl_servers = [], pl_heap = [], pl_config = cfg, pl_bus = False, pl_handler = False, pl_clients = 0,
     pl_open = [], pl_events = []\<rparr>"

definition SetEventBus :: "bool \<Rightarrow> 'c pool \<Rightarrow> 'c pool" where
  "SetEventBus b p = p\<lparr>pl_bus := b\<rparr>"

definition SetToolsChangedHandler :: "bool \<Rightarrow> 'c pool \<Rightarrow> 'c pool" where
  "SetToolsChangedHandler b p = p\<lparr>pl_handler := b\<rparr>"

definition emitEvent :: "event \<Rightarrow> 'c pool \<Rightarrow> 'c pool" where
  "emitEvent e p = (if pl_bus p then p\<lparr>pl_events := pl_events p @ [e]\<rparr> else p)"

definition upd_entry :: "nat \<Rightarrow> (serverEntry \<Rightarrow> serverEntry) \<Rightarrow> 'c pool \<Rightarrow> 'c pool" where
  "upd_entry a h p = p\<lparr>pl_heap := (pl_heap p)[a := h (pl_heap p ! a)]\<rparr>"

definition drop_client :: "nat \<Rightarrow> 'c pool \<Rightarrow> 'c pool" where
  "drop_client a p =
     (case en_client (pl_heap p ! a) of
        None \<Rightarrow> p
      | Some c \<Rightarrow> upd_entry a (\<lambda>e. e\<lparr>en_client := None\<rparr>) (p\<lparr>pl_open := removeAll c (pl_open p)\<rparr>))"

definition AddServer :: "string \<Rightarrow> 'c \<Rightarrow> 'c pool \<Rightarrow> 'c pool" where
  "AddServer name entry p =
     (let p1 = p\<lparr>pl_config := AList.update name entry (pl_config p)\<rparr>
      in case map_of (pl_servers p1) name of
           Some a \<Rightarrow> p1
         | None \<Rightarrow> p1\<lparr>pl_servers := AList.update name (length (pl_heap p1)) (pl_servers p1),
                      pl_heap := pl_heap p1 @ [newServerEntry]\<rparr>)"

definition DisconnectServer :: "string \<Rightarrow> 'c pool \<Rightarrow> 'c pool" where
  "DisconnectServer name p =
     (case map_of (pl_servers p) name of
        None \<Rightarrow> p
      | Some a \<Rightarrow>
          let p1 = p\<lparr>pl_servers := AList.delete name (pl_servers p), pl_config := AList.delete name (pl_config p)\<rparr>
          in upd_entry a (\<lambda>e. e\<lparr>en_state := ConnIdle\<rparr>) (drop_client a p1))"

text \<open>\<open>si_Config\<close> is \<open>None\<close> where the Go code leaves the zero configuration.\<close>

definition server_info :: "'c pool \<Rightarrow> string \<times> nat \<Rightarrow> 'c ServerInfo" where
  "server_info p = (\<lambda>(name, a).
     \<lparr>si_Name = name, si_State = en_state (pl_heap p ! a), si_LastErr = en_lastErr (pl_heap p ! a),
      si_Config = map_of (pl_config p) name\<rparr>)"

definition KnownServers :: "'c pool \<Rightarrow> 'c ServerInfo list" where
  "KnownServers p = map (server_info p) (pl_servers p)"

definition ServerNames :: "'c pool \<Rightarrow> string list" where
  "ServerNames p = map fst (pl_config p)"

definition getEntry :: "string \<Rightarrow> 'c pool \<Rightarrow> 'c pool \<times> nat" where
  "getEntry name p =
     (case map_of (pl_servers p) name of
        Some a \<Rightarrow> (p, a)
      | None \<Rightarrow> (p\<lparr>pl_servers := AList.update name (length (pl_heap p)) (pl_servers p),
                   pl_heap := pl_heap p @ [newServerEntry]\<rparr>, length (pl_heap p)))"

text \<open>
  \<open>Close\<close> walks over the servers; \<open>cerr\<close> is what closing a client answers. The first error is the
  result, every client is closed regardless.
\<close>

fun close_entries :: "(nat \<Rightarrow> error option) \<Rightarrow> (string \<times> nat) list \<Rightarrow> error option \<Rightarrow> 'c pool \<Rightarrow> 'c pool \<times> error option" where
  "close_entries cerr [] firstErr p = (p, firstErr)"
| "close_entries cerr ((name, a) # rest) firstErr p =
     (let firstErr' = (case en_client (pl_heap p ! a) of
                         None \<Rightarrow> firstErr
                       | Some c \<Rightarrow> (case (cerr c, firstErr) of
                                     (Some e, None) \<Rightarrow> Some (ErrMsg (''closing '' @ quote name @ '': '' @ error_string e))
                                   | _ \<Rightarrow> firstErr))
      in close_entries cerr rest firstErr' (upd_entry a (\<lambda>e. e\<lparr>en_state := ConnIdle\<rparr>) (drop_client a p)))"

definition Close :: "(nat \<Rightarrow> error option) \<Rightarrow> 'c pool \<Rightarrow> 'c pool \<times> unit result" where
  "Close cerr p =
     (case close_entries cerr (pl_servers p) None p of
        (p1, None) \<Rightarrow> (p1, Inr ())
      | (p1, Some e) \<Rightarrow> (p1, Inl e))"

subsection \<open>Connecting\<close>

text \<open>
  How far the third-party client gets: creating the transport, starting, initialising, listing
  the tools. For the last two failures \<open>closeErr\<close> is the exit code \<open>Close\<close> reports, if it reports
  one, and the last string the text read from the process's standard error.
\<close>

datatype dial =
    TransportErr error
  | StartErr error
  | InitializeErr error "int option" string
  | ListToolsErr error "int option" string
  | Dialled "mcp_tool list"

definition enrichError :: "string \<Rightarrow> string \<Rightarrow> error \<Rightarrow> int option \<Rightarrow> string \<Rightarrow> error" where
  "enrichError stage serverName originalErr exitCode stderrSnippet =
     (let exitInfo = (case exitCode of None \<Rightarrow> [] | Some n \<Rightarrow> '' (exit code '' @ itoa n @ '')'');
          stderrInfo = (if stderrSnippet = [] then [] else '' (stderr: '' @ stderrSnippet @ '')'')
      in ErrMsg (stage @ '' '' @ quote serverName @ '': '' @ error_string originalErr @ exitInfo @ stderrInfo))"

fun connect_result :: "string \<Rightarrow> dial \<Rightarrow> mcp_tool list result" where
  "connect_result name (TransportErr e) = Inl (ErrMsg (''create transport: '' @ error_string e))"
| "connect_result name (StartErr e) = Inl (ErrMsg (''start client: '' @ error_string e))"
| "connect_result name (InitializeErr e x err) = Inl (enrichError ''initialize'' name e x err)"
| "connect_result name (ListToolsErr e x err) = Inl (enrichError ''list tools'' name e x err)"
| "connect_result name (Dialled tools) = Inr tools"

definition indexTools :: "mcp_tool list \<Rightarrow> (string \<times> mcp_tool) list" where
  "indexTools tools = fold (\<lambda>t. AList.update (mt_Name t) t) tools []"

definition take_ownership :: "nat \<Rightarrow> 'c pool \<Rightarrow> 'c pool" where
  "take_ownership a p = upd_entry a (\<lambda>e. e\<lparr>en_state := ConnConnecting\<rparr>) p"

definition connect_install :: "nat \<Rightarrow> int \<Rightarrow> mcp_tool list \<Rightarrow> 'c pool \<Rightarrow> 'c pool" where
  "connect_install a now tools p =
     upd_entry a (\<lambda>e. e\<lparr>en_client := Some (pl_clients p), en_tools := indexTools tools, en_connectedAt := now\<rparr>)
       (p\<lparr>pl_clients := pl_clients p + 1, pl_open := pl_clients p # pl_open p\<rparr>)"

definition connect_finish :: "nat \<Rightarrow> error option \<Rightarrow> 'c pool \<Rightarrow> 'c pool" where
  "connect_finish a err p =
     (case err of
        Some e \<Rightarrow> upd_entry a (\<lambda>n. n\<lparr>en_state := ConnFailed, en_lastErr := Some e\<rparr>) p
      | None \<Rightarrow> upd_entry a (\<lambda>n. n\<lparr>en_state := ConnReady, en_lastErr := None\<rparr>) p)"

definition connect_event :: "string \<Rightarrow> int \<Rightarrow> string \<Rightarrow> error \<Rightarrow> bool \<Rightarrow> event" where
  "connect_event uuid now name err ctxDone =
     (Warn uuid now ''mcpclient'' ''connect_attempt'' (error_string err))
     \<lparr>ev_Category := ''backend'', ev_Resource := ''mcp_server:'' @ name,
      ev_Outcome := (if ctxDone then ''timeout'' else ''failure'')\<rparr>"

definition mark_failed :: "nat \<Rightarrow> error \<Rightarrow> 'c pool \<Rightarrow> 'c pool" where
  "mark_failed a e p = upd_entry a (\<lambda>n. n\<lparr>en_state := ConnFailed, en_lastErr := Some e\<rparr>) p"

text \<open>
  The handler registered with every client: the new pool and the server given to the callback,
  when there is one to call.
\<close>

definition on_notification :: "string \<Rightarrow> int \<Rightarrow> string \<Rightarrow> string \<Rightarrow> 'c pool \<Rightarrow> 'c pool \<times> string option" where
  "on_notification uuid now server method p =
     (if method = ''notifications/tools/list_changed''
      then (emitEvent ((Info uuid now ''mcpclient'' ''tool_refresh'')
                       \<lparr>ev_Category := ''backend'', ev_Resource := ''mcp_server:'' @ server, ev_Outcome := ''success''\<rparr>) p,
            if pl_handler p then Some server else None)
      else (p, None))"

subsection \<open>The operations of one goroutine\<close>

record 'c dialer =
  dl_dial :: "'c \<Rightarrow> dial"
  dl_now :: int
  dl_uuid :: string
  dl_ctxDone :: bool

definition not_configured :: "string \<Rightarrow> error" where
  "not_configured name = ErrMsg (''server '' @ quote name @ '' not configured'')"

definition connect_as_owner :: "'c dialer \<Rightarrow> string \<Rightarrow> 'c \<Rightarrow> nat \<Rightarrow> 'c pool \<Rightarrow> 'c pool \<times> nat result" where
  "connect_as_owner d name cfg a p =
     (let p1 = drop_client a (take_ownership a p)
      in case connect_result name (dl_dial d cfg) of
           Inl err \<Rightarrow> (emitEvent (connect_event (dl_uuid d) (dl_now d) name err (dl_ctxDone d))
                         (connect_finish a (Some err) p1), Inl err)
         | Inr tools \<Rightarrow> (connect_finish a None (connect_install a (dl_now d) tools p1), Inr a))"

definition getOrConnect :: "'c dialer \<Rightarrow> string \<Rightarrow> 'c pool \<Rightarrow> ('c pool \<times> nat result) run" where
  "getOrConnect d name p =
     (case map_of (pl_config p) name of
        None \<Rightarrow> Returns (p, Inl (not_configured name))
      | Some cfg \<Rightarrow>
          (case getEntry name p of
             (p1, a) \<Rightarrow>
               (case en_state (pl_heap p1 ! a) of
                  ConnReady \<Rightarrow> Returns (p1, Inr a)
                | ConnConnecting \<Rightarrow> Blocks
                | ConnIdle \<Rightarrow> Returns (connect_as_owner d name cfg a p1)
                | ConnFailed \<Rightarrow> Returns (connect_as_owner d name cfg a p1))))"

definition connecting_err :: "string \<Rightarrow> error \<Rightarrow> error" where
  "connecting_err server e = ErrMsg (''connecting to '' @ quote server @ '': '' @ error_string e)"

definition tool_infos :: "serverEntry \<Rightarrow> tool_info list" where
  "tool_infos e = map (\<lambda>(n, t). \<lparr>ti_Name = mt_Name t, ti_Description = mt_Description t, ti_InputSchema = mt_InputSchema t\<rparr>)
     (en_tools e)"

definition DiscoverTools :: "'c dialer \<Rightarrow> string \<Rightarrow> 'c pool \<Rightarrow> ('c pool \<times> tool_info list result) run" where
  "DiscoverTools d server p =
     (case getOrConnect d server p of
        Returns (p1, Inl err) \<Rightarrow> Returns (p1, Inl (connecting_err server err))
      | Returns (p1, Inr a) \<Rightarrow> Returns (p1, Inr (tool_infos (pl_heap p1 ! a)))
      | Blocks \<Rightarrow> Blocks
      | Panics \<Rightarrow> Panics)"

text \<open>\<open>call\<close> is the answer of the client the goroutine has read, by its number.\<close>

definition CallToolRaw ::
    "'c dialer \<Rightarrow> (nat \<Rightarrow> 'r result) \<Rightarrow> string \<Rightarrow> string \<Rightarrow> 'c pool \<Rightarrow> ('c pool \<times> 'r result) run" where
  "CallToolRaw d call server tool p =
     (case getOrConnect d server p of
        Returns (p1, Inl err) \<Rightarrow> Returns (p1, Inl (connecting_err server err))
      | Returns (p1, Inr a) \<Rightarrow>
          if map_of (en_tools (pl_heap p1 ! a)) tool = None
          then Returns (p1, Inl (ErrMsg (''tool '' @ quote tool @ '' not found on server '' @ quote server)))
          else (case en_client (pl_heap p1 ! a) of
                  None \<Rightarrow> Panics
                | Some c \<Rightarrow>
                    (case call c of
                       Inl err \<Rightarrow> Returns (mark_failed a err p1,
                         Inl (ErrMsg (''calling '' @ quote tool @ '' on '' @ quote server @ '': '' @ error_string err)))
                     | Inr r \<Rightarrow> Returns (p1, Inr r)))
      | Blocks \<Rightarrow> Blocks
      | Panics \<Rightarrow> Panics)"

subsection \<open>\<open>normalizeResult\<close>\<close>

datatype mcp_content = TextContent string | OtherContent

record CallToolResult =
  cr_IsError :: bool
  cr_Content :: "mcp_content list"

record ToolResult =
  tr_Text :: string
  tr_IsError :: bool

fun text_blocks :: "mcp_content list \<Rightarrow> string list" where
  "text_blocks [] = []"
| "text_blocks (TextContent t # cs) = t # text_blocks cs"
| "text_blocks (OtherContent # cs) = text_blocks cs"

text \<open>The verb \<open>%.200s\<close> cuts after so many characters: a byte \<open>10xxxxxx\<close> continues one.\<close>

definition continues_rune :: "char \<Rightarrow> bool" where
  "continues_rune c = (128 \<le> (of_char c :: nat) \<and> (of_char c :: nat) < 192)"

fun take_runes :: "nat \<Rightarrow> string \<Rightarrow> string" where
  "take_runes n [] = []"
| "take_runes n (c # cs) =
     (if continues_rune c then c # take_runes n cs
      else case n of 0 \<Rightarrow> [] | Suc m \<Rightarrow> c # take_runes m cs)"

definition normalizeResult :: "CallToolResult \<Rightarrow> ToolResult result" where
  "normalizeResult r =
     (if cr_IsError r
      then Inr \<lparr>tr_Text = (case text_blocks (cr_Content r) of [] \<Rightarrow> [] | t # ts \<Rightarrow> t), tr_IsError = True\<rparr>
      else case find json_valid (text_blocks (cr_Content r)) of
             Some t \<Rightarrow> Inr \<lparr>tr_Text = t, tr_IsError = False\<rparr>
           | None \<Rightarrow>
               (case text_blocks (cr_Content r) of
                  [] \<Rightarrow> Inl (ErrMsg ''MCP tool returned no text content'')
                | t # ts \<Rightarrow> Inl (ErrMsg (''MCP tool returned non-JSON text: '' @ take_runes 200 t))))"

definition CallTool ::
    "'c dialer \<Rightarrow> (nat \<Rightarrow> CallToolResult result) \<Rightarrow> string \<Rightarrow> string \<Rightarrow> 'c pool \<Rightarrow> ('c pool \<times> ToolResult result) run" where
  "CallTool d call server tool p =
     (case CallToolRaw d call server tool p of
        Returns (p1, Inl err) \<Rightarrow> Returns (p1, Inl err)
      | Returns (p1, Inr r) \<Rightarrow> Returns (p1, normalizeResult r)
      | Blocks \<Rightarrow> Blocks
      | Panics \<Rightarrow> Panics)"

subsection \<open>Goroutines that share the pool\<close>

text \<open>
  Where a goroutine is inside \<open>getOrConnect\<close> or a call: it has its entry, waits on the condition
  variable, owns the connection attempt (before and after closing the previous client, after
  installing the new one or failing), has been given the entry, or calls with the client it read.
\<close>

datatype 'c goroutine =
    Out
  | AtEntry string nat 'c
  | Waiting string nat 'c
  | Owner string nat 'c
  | Dialing string nat 'c
  | Installed string nat 'c
  | DialErr string nat 'c error
  | Got string nat
  | Calling string nat "nat option"

datatype 'c pool_action =
    Enter string
  | Look
  | CloseOld
  | Dial dial int
  | Finish string int bool
  | ReadTools
  | ReadClient string
  | CallOk
  | CallErr error
  | DoAdd string 'c
  | DoDisconnect string
  | DoClose

text \<open>\<open>Broadcast\<close> sends every goroutine that waits on the entry back to its check of the state.\<close>

definition broadcast :: "nat \<Rightarrow> (nat \<Rightarrow> 'c goroutine) \<Rightarrow> nat \<Rightarrow> 'c goroutine" where
  "broadcast a gs j = (case gs j of Waiting n b c \<Rightarrow> if b = a then AtEntry n b c else gs j | _ \<Rightarrow> gs j)"

type_synonym 'c pool_world = "'c pool \<times> (nat \<Rightarrow> 'c goroutine)"

text \<open>Goroutine \<open>i\<close> takes one step; \<open>None\<close> when it is not at that point of the code.\<close>

fun pool_act :: "nat \<Rightarrow> 'c pool_action \<Rightarrow> 'c pool_world \<Rightarrow> 'c pool_world option" where
  "pool_act i (Enter name) (p, gs) =
     (case gs i of
        Out \<Rightarrow> (case map_of (pl_config p) name of
                  None \<Rightarrow> Some (p, gs)
                | Some cfg \<Rightarrow> (case getEntry name p of (p1, a) \<Rightarrow> Some (p1, gs(i := AtEntry name a cfg))))
      | _ \<Rightarrow> None)"
| "pool_act i Look (p, gs) =
     (case gs i of
        AtEntry name a cfg \<Rightarrow>
          (case en_state (pl_heap p ! a) of
             ConnReady \<Rightarrow> Some (p, gs(i := Got name a))
           | ConnConnecting \<Rightarrow> Some (p, gs(i := Waiting name a cfg))
           | _ \<Rightarrow> Some (take_ownership a p, gs(i := Owner name a cfg)))
      | _ \<Rightarrow> None)"
| "pool_act i CloseOld (p, gs) =
     (case gs i of Owner name a cfg \<Rightarrow> Some (drop_client a p, gs(i := Dialing name a cfg)) | _ \<Rightarrow> None)"
| "pool_act i (Dial d now) (p, gs) =
     (case gs i of
        Dialing name a cfg \<Rightarrow>
          (case connect_result name d of
             Inl err \<Rightarrow> Some (p, gs(i := DialErr name a cfg err))
           | Inr tools \<Rightarrow> Some (connect_install a now tools p, gs(i := Installed name a cfg)))
      | _ \<Rightarrow> None)"
| "pool_act i (Finish uuid now ctxDone) (p, gs) =
     (case gs i of
        Installed name a cfg \<Rightarrow> Some (connect_finish a None p, (broadcast a gs)(i := Got name a))
      | DialErr name a cfg err \<Rightarrow>
          Some (emitEvent (connect_event uuid now name err ctxDone) (connect_finish a (Some err) p), (broadcast a gs)(i := Out))
      | _ \<Rightarrow> None)"
| "pool_act i ReadTools (p, gs) = (case gs i of Got name a \<Rightarrow> Some (p, gs(i := Out)) | _ \<Rightarrow> None)"
| "pool_act i (ReadClient tool) (p, gs) =
     (case gs i of
        Got name a \<Rightarrow>
          (if map_of (en_tools (pl_heap p ! a)) tool = None then Some (p, gs(i := Out))
           else Some (p, gs(i := Calling name a (en_client (pl_heap p ! a)))))
      | _ \<Rightarrow> None)"
| "pool_act i CallOk (p, gs) =
     (case gs i of Calling name a (Some c) \<Rightarrow> Some (p, gs(i := Out)) | _ \<Rightarrow> None)"
| "pool_act i (CallErr e) (p, gs) =
     (case gs i of Calling name a (Some c) \<Rightarrow> Some (mark_failed a e p, gs(i := Out)) | _ \<Rightarrow> None)"
| "pool_act i (DoAdd name cfg) (p, gs) = (if gs i = Out then Some (AddServer name cfg p, gs) else None)"
| "pool_act i (DoDisconnect name) (p, gs) = (if gs i = Out then Some (DisconnectServer name p, gs) else None)"
| "pool_act i DoClose (p, gs) = (if gs i = Out then Some (fst (Close (\<lambda>_. None) p), gs) else None)"

fun pool_acts :: "(nat \<times> 'c pool_action) list \<Rightarrow> 'c pool_world \<Rightarrow> 'c pool_world option" where
  "pool_acts [] w = Some w"
| "pool_acts ((i, act) # rest) w = (case pool_act i act w of None \<Rightarrow> None | Some w' \<Rightarrow> pool_acts rest w')"

definition pool_step :: "'c pool_world \<Rightarrow> 'c pool_world \<Rightarrow> bool" where
  "pool_step w w' \<longleftrightarrow> (\<exists>i act. pool_act i act w = Some w')"

definition pool_start :: "'c pool_world \<Rightarrow> bool" where
  "pool_start w \<longleftrightarrow> (\<exists>cfg. w = (NewPool cfg, \<lambda>_. Out))"

lemma pool_acts_reach:
  "pool_acts acts w = Some w' \<Longrightarrow> reach pool_start pool_step w \<Longrightarrow> reach pool_start pool_step w'"
proof (induction acts arbitrary: w)
  case (Cons x acts)
  obtain i act where x: "x = (i, act)" by (cases x)
  with Cons.prems(1) obtain w1 where w1: "pool_act i act w = Some w1" "pool_acts acts w1 = Some w'"
    by (auto split: option.splits)
  have "reach pool_start pool_step w1"
    by (rule reach_step [OF Cons.prems(2)]) (use w1(1) in \<open>auto simp: pool_step_def\<close>)
  with Cons.IH w1(2) show ?case by blast
qed simp

subsection \<open>States of the entries\<close>

abbreviation st_of :: "'c pool \<Rightarrow> nat \<Rightarrow> ConnState" where
  "st_of p a \<equiv> en_state (pl_heap p ! a)"

named_theorems pool_frame

lemma upd_entry_frame [pool_frame]:
  "pl_servers (upd_entry a h p) = pl_servers p" "pl_config (upd_entry a h p) = pl_config p"
  "length (pl_heap (upd_entry a h p)) = length (pl_heap p)"
  by (simp_all add: upd_entry_def)

lemma heap_upd_entry:
  "pl_heap (upd_entry a h p) ! b = (if b = a \<and> a < length (pl_heap p) then h (pl_heap p ! a) else pl_heap p ! b)"
  by (cases "a < length (pl_heap p)") (auto simp: upd_entry_def nth_list_update list_update_beyond)

lemma drop_client_frame [pool_frame]:
  "pl_servers (drop_client a p) = pl_servers p" "pl_config (drop_client a p) = pl_config p"
  "length (pl_heap (drop_client a p)) = length (pl_heap p)" "st_of (drop_client a p) b = st_of p b"
  by (simp_all add: drop_client_def upd_entry_frame heap_upd_entry split: option.splits)

lemma take_ownership_frame [pool_frame]:
  "pl_servers (take_ownership a p) = pl_servers p" "pl_config (take_ownership a p) = pl_config p"
  "length (pl_heap (take_ownership a p)) = length (pl_heap p)"
  "st_of (take_ownership a p) b = (if b = a \<and> a < length (pl_heap p) then ConnConnecting else st_of p b)"
  by (simp_all add: take_ownership_def upd_entry_frame heap_upd_entry)

lemma connect_install_frame [pool_frame]:
  "pl_servers (connect_install a now ts p) = pl_servers p" "pl_config (connect_install a now ts p) = pl_config p"
  "length (pl_heap (connect_install a now ts p)) = length (pl_heap p)"
  "st_of (connect_install a now ts p) b = st_of p b"
  by (simp_all add: connect_install_def upd_entry_frame heap_upd_entry)

lemma connect_finish_frame [pool_frame]:
  "pl_servers (connect_finish a err p) = pl_servers p" "pl_config (connect_finish a err p) = pl_config p"
  "length (pl_heap (connect_finish a err p)) = length (pl_heap p)"
  "st_of (connect_finish a err p) b =
     (if b = a \<and> a < length (pl_heap p) then (if err = None then ConnReady else ConnFailed) else st_of p b)"
  by (simp_all add: connect_finish_def upd_entry_frame heap_upd_entry split: option.splits)

lemma mark_failed_frame [pool_frame]:
  "pl_servers (mark_failed a e p) = pl_servers p" "pl_config (mark_failed a e p) = pl_config p"
  "length (pl_heap (mark_failed a e p)) = length (pl_heap p)"
  "st_of (mark_failed a e p) b = (if b = a \<and> a < length (pl_heap p) then ConnFailed else st_of p b)"
  by (simp_all add: mark_failed_def upd_entry_frame heap_upd_entry)

lemma emitEvent_frame [pool_frame]:
  "pl_servers (emitEvent e p) = pl_servers p" "pl_config (emitEvent e p) = pl_config p" "pl_heap (emitEvent e p) = pl_heap p"
  by (simp_all add: emitEvent_def)

definition addrs_ok :: "'c pool \<Rightarrow> bool" where
  "addrs_ok p \<longleftrightarrow> (\<forall>x\<in>set (pl_servers p). snd x < length (pl_heap p))"

lemma map_of_addrs_ok: "addrs_ok p \<Longrightarrow> map_of (pl_servers p) name = Some a \<Longrightarrow> a < length (pl_heap p)"
  by (force simp: addrs_ok_def dest: map_of_SomeD)

lemma set_update_subset: "set (AList.update k v xs) \<subseteq> insert (k, v) (set xs)"
  by (induction xs) auto

lemma update_fresh: "k \<notin> fst ` set xs \<Longrightarrow> AList.update k v xs = xs @ [(k, v)]"
  by (induction xs) auto

lemma addrs_ok_alloc:
  assumes "addrs_ok p"
  shows "addrs_ok (p\<lparr>pl_servers := AList.update name (length (pl_heap p)) (pl_servers p), pl_heap := pl_heap p @ [e]\<rparr>)"
  using assms set_update_subset [of name "length (pl_heap p)" "pl_servers p"]
  by (fastforce simp: addrs_ok_def less_Suc_eq)

lemma getEntry_frame:
  assumes "getEntry name p = (p', a)"
  shows "pl_config p' = pl_config p" "length (pl_heap p) \<le> length (pl_heap p')"
    "addrs_ok p \<Longrightarrow> addrs_ok p' \<and> a < length (pl_heap p')"
    "b < length (pl_heap p) \<Longrightarrow> pl_heap p' ! b = pl_heap p ! b"
    "b < length (pl_heap p') \<Longrightarrow> \<not> b < length (pl_heap p) \<Longrightarrow> pl_heap p' ! b = newServerEntry"
    "map_of (pl_servers p') = (map_of (pl_servers p))(name \<mapsto> a)"
  using assms addrs_ok_alloc [where p = p and name = name and e = newServerEntry] map_of_addrs_ok [of p name a]
  by (auto simp: getEntry_def nth_append less_Suc_eq update_conv' split: option.splits)

lemma AddServer_frame:
  "pl_config (AddServer name c p) = AList.update name c (pl_config p)"
  "length (pl_heap p) \<le> length (pl_heap (AddServer name c p))"
  "b < length (pl_heap p) \<Longrightarrow> pl_heap (AddServer name c p) ! b = pl_heap p ! b"
  "b < length (pl_heap (AddServer name c p)) \<Longrightarrow> \<not> b < length (pl_heap p) \<Longrightarrow> pl_heap (AddServer name c p) ! b = newServerEntry"
  "map_of (pl_servers (AddServer name c p)) =
     (case map_of (pl_servers p) name of None \<Rightarrow> (map_of (pl_servers p))(name \<mapsto> length (pl_heap p)) | Some a \<Rightarrow> map_of (pl_servers p))"
  by (auto simp: AddServer_def Let_def nth_append less_Suc_eq update_conv' split: option.splits)

lemma AddServer_addrs_ok: "addrs_ok p \<Longrightarrow> addrs_ok (AddServer name c p)"
  using addrs_ok_alloc [where p = "p\<lparr>pl_config := AList.update name c (pl_config p)\<rparr>" and name = name and e = newServerEntry]
  by (auto simp: AddServer_def Let_def addrs_ok_def split: option.splits)

lemma DisconnectServer_frame:
  "length (pl_heap (DisconnectServer name p)) = length (pl_heap p)"
  "addrs_ok p \<Longrightarrow> addrs_ok (DisconnectServer name p)"
  "map_of (pl_servers (DisconnectServer name p)) = (map_of (pl_servers p))(name := None)"
  "st_of (DisconnectServer name p) b = ConnConnecting \<Longrightarrow> st_of p b = ConnConnecting"
  using delete_conv' [of name "pl_servers p"]
  by (auto simp: DisconnectServer_def Let_def pool_frame addrs_ok_def heap_upd_entry delete_conv' fun_upd_idem AList.delete_eq
      split: option.splits if_splits)

lemma close_entries_frame:
  "length (pl_heap (fst (close_entries cerr xs err p))) = length (pl_heap p)"
  "pl_servers (fst (close_entries cerr xs err p)) = pl_servers p"
  "pl_config (fst (close_entries cerr xs err p)) = pl_config p"
  "st_of (fst (close_entries cerr xs err p)) b = ConnConnecting \<Longrightarrow> st_of p b = ConnConnecting"
  by (induction cerr xs err p rule: close_entries.induct)
    (auto simp: Let_def pool_frame heap_upd_entry split: if_splits)

lemma Close_frame:
  "length (pl_heap (fst (Close cerr p))) = length (pl_heap p)" "pl_servers (fst (Close cerr p)) = pl_servers p"
  "st_of (fst (Close cerr p)) b = ConnConnecting \<Longrightarrow> st_of p b = ConnConnecting"
  using close_entries_frame [of cerr "pl_servers p" None p]
  by (auto simp: Close_def split: prod.splits option.splits)

subsection \<open>Who connects, who waits\<close>

fun owns :: "'c goroutine \<Rightarrow> nat \<Rightarrow> bool" where
  "owns (Owner n a c) b \<longleftrightarrow> a = b"
| "owns (Dialing n a c) b \<longleftrightarrow> a = b"
| "owns (Installed n a c) b \<longleftrightarrow> a = b"
| "owns (DialErr n a c e) b \<longleftrightarrow> a = b"
| "owns g b \<longleftrightarrow> False"

fun waits :: "'c goroutine \<Rightarrow> nat \<Rightarrow> bool" where
  "waits (Waiting n a c) b \<longleftrightarrow> a = b"
| "waits g b \<longleftrightarrow> False"

fun refers :: "'c goroutine \<Rightarrow> nat option" where
  "refers Out = None"
| "refers (AtEntry n a c) = Some a"
| "refers (Waiting n a c) = Some a"
| "refers (Owner n a c) = Some a"
| "refers (Dialing n a c) = Some a"
| "refers (Installed n a c) = Some a"
| "refers (DialErr n a c e) = Some a"
| "refers (Got n a) = Some a"
| "refers (Calling n a cl) = Some a"

lemma broadcast_owns [simp]: "owns (broadcast a gs j) b = owns (gs j) b"
  by (cases "gs j") (auto simp: broadcast_def)

lemma broadcast_waits [simp]: "waits (broadcast a gs j) b \<longleftrightarrow> waits (gs j) b \<and> b \<noteq> a"
  by (cases "gs j") (auto simp: broadcast_def)

lemma broadcast_refers [simp]: "refers (broadcast a gs j) = refers (gs j)"
  by (cases "gs j") (auto simp: broadcast_def)

definition pool_inv :: "'c pool_world \<Rightarrow> bool" where
  "pool_inv = (\<lambda>(p, gs). addrs_ok p \<and> (\<forall>j a. refers (gs j) = Some a \<longrightarrow> a < length (pl_heap p)) \<and>
     (\<forall>a<length (pl_heap p). st_of p a = ConnConnecting \<longrightarrow> (\<exists>j. owns (gs j) a)) \<and>
     (\<forall>j a. waits (gs j) a \<longrightarrow> (\<exists>k. owns (gs k) a)))"

text \<open>
  What an action must do to keep the invariant: a state that is connecting was so before or has
  an owner now; a goroutine that waits was waiting before, or waits for a connecting entry; an
  owner stays unless the entry stops connecting and its waiters are woken.
\<close>

lemma pool_inv_keep:
  assumes inv: "pool_inv (p, gs)" and "addrs_ok p'"
    and "\<And>j a. refers (gs' j) = Some a \<Longrightarrow> a < length (pl_heap p')"
    and conn: "\<And>a. a < length (pl_heap p') \<Longrightarrow> st_of p' a = ConnConnecting \<Longrightarrow>
      (a < length (pl_heap p) \<and> st_of p a = ConnConnecting) \<or> (\<exists>j. owns (gs' j) a)"
    and wait: "\<And>j a. waits (gs' j) a \<Longrightarrow> waits (gs j) a \<or> (a < length (pl_heap p) \<and> st_of p a = ConnConnecting)"
    and keep: "\<And>j a. owns (gs j) a \<Longrightarrow> owns (gs' j) a \<or>
      ((a < length (pl_heap p') \<longrightarrow> st_of p' a \<noteq> ConnConnecting) \<and> (\<forall>k. \<not> waits (gs' k) a))"
  shows "pool_inv (p', gs')"
proof -
  have "\<exists>j. owns (gs' j) a" if "a < length (pl_heap p')" "st_of p' a = ConnConnecting" for a
    using conn [OF that] that keep inv unfolding pool_inv_def by blast
  moreover have "\<exists>k. owns (gs' k) a" if "waits (gs' j) a" for j a
    using wait [OF that] that keep inv unfolding pool_inv_def by blast
  ultimately show ?thesis using assms(2,3) by (simp add: pool_inv_def)
qed

lemma pool_inv_D:
  assumes "pool_inv (p, gs)"
  shows "addrs_ok p" "refers (gs j) = Some a \<Longrightarrow> a < length (pl_heap p)"
  using assms by (auto simp: pool_inv_def)

lemma addrs_ok_ops [pool_frame]:
  "addrs_ok (take_ownership a p) = addrs_ok p" "addrs_ok (drop_client a p) = addrs_ok p"
  "addrs_ok (connect_install a now ts p) = addrs_ok p" "addrs_ok (connect_finish a err p) = addrs_ok p"
  "addrs_ok (mark_failed a e p) = addrs_ok p" "addrs_ok (emitEvent ev p) = addrs_ok p" "addrs_ok (fst (Close cerr p)) = addrs_ok p"
  by (simp_all add: addrs_ok_def pool_frame Close_frame)

lemmas goroutine_splits = goroutine.splits ConnState.splits sum.splits option.splits if_splits prod.splits

lemma pool_act_inv:
  assumes inv: "pool_inv (p, gs)" and act: "pool_act i act (p, gs) = Some (p', gs')"
  shows "pool_inv (p', gs')"
proof -
  note D = pool_inv_D [OF inv]
  have at: "gs i = g \<Longrightarrow> refers g = Some a \<Longrightarrow> a < length (pl_heap p)" for g a using D(2) by blast
  show ?thesis
  proof (cases act)
    case (Enter name)
    show ?thesis
    proof (cases "map_of (pl_config p) name")
      case (Some cfg)
      obtain p1 a where g: "getEntry name p = (p1, a)" by fastforce
      note G = getEntry_frame [OF g]
      have eq: "gs i = Out" "p' = p1" "gs' = gs(i := AtEntry name a cfg)" using act Enter Some g by (auto split: goroutine.splits)
      show ?thesis unfolding eq
      proof (rule pool_inv_keep [OF inv])
        show "addrs_ok p1" using G(3) D(1) by simp
        show "b < length (pl_heap p1)" if "refers ((gs(i := AtEntry name a cfg)) j) = Some b" for j b
          using that G(2,3) D by (auto split: if_splits dest: order.strict_trans2)
        show "b < length (pl_heap p) \<and> st_of p b = ConnConnecting \<or> (\<exists>j. owns ((gs(i := AtEntry name a cfg)) j) b)"
          if "b < length (pl_heap p1)" "st_of p1 b = ConnConnecting" for b
          using that G(4,5) [of b] by (cases "b < length (pl_heap p)") (auto simp: newServerEntry_def)
      qed (use eq(1) in \<open>auto split: if_splits\<close>)
    qed (use act Enter inv in \<open>auto split: goroutine.splits\<close>)
  next
    case (DoDisconnect name)
    then show ?thesis using act D
      by (auto intro!: pool_inv_keep [OF inv] simp: DisconnectServer_frame(1,2) dest: DisconnectServer_frame(4) split: if_splits)
  next
    case DoClose
    then show ?thesis using act D
      by (auto intro!: pool_inv_keep [OF inv] simp: Close_frame(1) pool_frame dest: Close_frame(3) split: if_splits)
  next
    case (DoAdd name c)
    have eq: "p' = AddServer name c p" "gs' = gs" using act DoAdd by (auto split: if_splits)
    note A = AddServer_frame [where name = name and c = c and p = p]
    show ?thesis unfolding eq
    proof (rule pool_inv_keep [OF inv])
      show "addrs_ok (AddServer name c p)" using D(1) by (rule AddServer_addrs_ok)
      show "b < length (pl_heap (AddServer name c p))" if "refers (gs j) = Some b" for j b using D(2) [OF that] A(2) by simp
      show "b < length (pl_heap p) \<and> st_of p b = ConnConnecting \<or> (\<exists>j. owns (gs j) b)"
        if "b < length (pl_heap (AddServer name c p))" "st_of (AddServer name c p) b = ConnConnecting" for b
        using that AddServer_frame(3,4) [where b = b and p = p and name = name and c = c] by (cases "b < length (pl_heap p)") (auto simp: newServerEntry_def)
    qed auto
  qed (use act D at inv in \<open>auto split: goroutine_splits intro!: pool_inv_keep [OF inv] simp: pool_frame\<close>)
qed

interpretation poolinv: inductive_invariant pool_start pool_step pool_inv
proof
  show "pool_inv w" if "pool_start w" for w :: "'a pool_world"
    using that by (auto simp: pool_start_def pool_inv_def NewPool_def addrs_ok_def)
  show "pool_inv w'" if "pool_inv w" "pool_step w w'" for w w' :: "'a pool_world"
    using that pool_act_inv by (cases w; cases w') (auto simp: pool_step_def)
qed

text \<open>
  A step is orderly when only the goroutine that connects takes an entry out of the connecting
  state. Then an entry has at most one goroutine connecting it, and has one exactly when its
  state says so.
\<close>

definition orderly_step :: "'c pool_world \<Rightarrow> 'c pool_world \<Rightarrow> bool" where
  "orderly_step = (\<lambda>(p, gs) (p', gs'). pool_step (p, gs) (p', gs') \<and>
     (\<forall>a<length (pl_heap p). st_of p a = ConnConnecting \<and> st_of p' a \<noteq> ConnConnecting \<longrightarrow>
        (\<exists>i. owns (gs i) a \<and> \<not> owns (gs' i) a)))"

definition single_inv :: "'c pool_world \<Rightarrow> bool" where
  "single_inv = (\<lambda>(p, gs). pool_inv (p, gs) \<and>
     (\<forall>a i j. owns (gs i) a \<and> owns (gs j) a \<longrightarrow> i = j) \<and>
     (\<forall>a i. owns (gs i) a \<longrightarrow> st_of p a = ConnConnecting))"

lemma owns_refers: "owns g a \<Longrightarrow> refers g = Some a"
  by (cases g) auto

lemma new_owner:
  assumes "pool_inv (p, gs)" "pool_act i act (p, gs) = Some (p', gs')" "owns (gs' j) a"
  shows "owns (gs j) a \<or> (j = i \<and> st_of p a \<noteq> ConnConnecting \<and> st_of p' a = ConnConnecting)"
proof -
  have at: "gs i = g \<Longrightarrow> refers g = Some a \<Longrightarrow> a < length (pl_heap p)" for g using pool_inv_D(2) [OF assms(1)] by blast
  show ?thesis using assms(2,3) at by (cases act) (auto split: goroutine_splits simp: pool_frame)
qed

lemma single_inv_step:
  assumes "single_inv (p, gs)" "orderly_step (p, gs) (p', gs')"
  shows "single_inv (p', gs')"
proof -
  have inv: "pool_inv (p, gs)" and one: "\<And>a i j. owns (gs i) a \<Longrightarrow> owns (gs j) a \<Longrightarrow> i = j"
    and st: "\<And>a i. owns (gs i) a \<Longrightarrow> st_of p a = ConnConnecting"
    using assms(1) unfolding single_inv_def by auto
  obtain i act where act: "pool_act i act (p, gs) = Some (p', gs')"
    using assms(2) by (auto simp: orderly_step_def pool_step_def)
  note new = new_owner [OF inv act]
  have one': "j = k" if "owns (gs' j) a" "owns (gs' k) a" for a j k
    using new [OF that(1)] new [OF that(2)] one st by blast
  have "st_of p' a = ConnConnecting" if own: "owns (gs' j) a" for a j
  proof (rule ccontr)
    assume stopped: "st_of p' a \<noteq> ConnConnecting"
    with new [OF own] have old: "owns (gs j) a" by blast
    then have "a < length (pl_heap p)" using pool_inv_D(2) [OF inv] owns_refers by blast
    with assms(2) st [OF old] stopped obtain k where "owns (gs k) a" "\<not> owns (gs' k) a" unfolding orderly_step_def by blast
    with one [OF old] own show False by blast
  qed
  with one' pool_act_inv [OF inv act] show ?thesis by (auto simp: single_inv_def)
qed

interpretation orderly: inductive_invariant pool_start orderly_step single_inv
proof
  show "single_inv w" if "pool_start w" for w :: "'a pool_world"
    using poolinv.inv_init [OF that] that by (auto simp: single_inv_def pool_start_def)
  show "single_inv w'" if "single_inv w" "orderly_step w w'" for w w' :: "'a pool_world"
    using that single_inv_step by (cases w; cases w') auto
qed

subsection \<open>One goroutine at a time\<close>

text \<open>
  Between two operations of goroutines that take turns: no entry is connecting, a ready entry
  has a client, and the open clients are exactly those of the entries the pool still lists, one
  client per entry.
\<close>

abbreviation cl_of :: "'c pool \<Rightarrow> nat \<Rightarrow> nat option" where
  "cl_of p a \<equiv> en_client (pl_heap p ! a)"

definition pool_quiet :: "'c pool \<Rightarrow> bool" where
  "pool_quiet p \<longleftrightarrow> addrs_ok p \<and> distinct (map fst (pl_servers p)) \<and> distinct (map snd (pl_servers p)) \<and>
     (\<forall>a<length (pl_heap p). st_of p a \<noteq> ConnConnecting \<and> (st_of p a = ConnReady \<longrightarrow> cl_of p a \<noteq> None) \<and>
        (\<forall>c. cl_of p a = Some c \<longrightarrow> c < pl_clients p \<and> a \<in> snd ` set (pl_servers p))) \<and>
     (\<forall>a b c. a < length (pl_heap p) \<and> b < length (pl_heap p) \<and> cl_of p a = Some c \<and> cl_of p b = Some c \<longrightarrow> a = b) \<and>
     (\<forall>c. c \<in> set (pl_open p) \<longleftrightarrow> (\<exists>a<length (pl_heap p). cl_of p a = Some c))"

lemma quietD:
  assumes "pool_quiet p"
  shows "addrs_ok p" "distinct (map fst (pl_servers p))" "distinct (map snd (pl_servers p))"
    "a < length (pl_heap p) \<Longrightarrow> st_of p a \<noteq> ConnConnecting"
    "a < length (pl_heap p) \<Longrightarrow> st_of p a = ConnReady \<Longrightarrow> \<exists>c. cl_of p a = Some c"
    "a < length (pl_heap p) \<Longrightarrow> cl_of p a = Some c \<Longrightarrow> c < pl_clients p \<and> a \<in> snd ` set (pl_servers p)"
    "a < length (pl_heap p) \<Longrightarrow> b < length (pl_heap p) \<Longrightarrow> cl_of p a = Some c \<Longrightarrow> cl_of p b = Some c \<Longrightarrow> a = b"
    "c \<in> set (pl_open p) \<longleftrightarrow> (\<exists>a<length (pl_heap p). cl_of p a = Some c)"
  using assms unfolding pool_quiet_def by auto

lemma drop_client_heap: "pl_heap (drop_client a p) = (pl_heap p)[a := (pl_heap p ! a)\<lparr>en_client := None\<rparr>]"
proof (cases "cl_of p a")
  case None
  have "e\<lparr>en_client := None\<rparr> = e" if "en_client e = None" for e :: serverEntry using that by (cases e) simp
  from this [OF None] None show ?thesis by (simp only: drop_client_def option.case list_update_id)
qed (simp add: drop_client_def upd_entry_def)

lemma drop_client_open: "pl_open (drop_client a p) = (case cl_of p a of None \<Rightarrow> pl_open p | Some c \<Rightarrow> removeAll c (pl_open p))"
  by (simp add: drop_client_def upd_entry_def split: option.splits)

lemma drop_client_clients: "pl_clients (drop_client a p) = pl_clients p"
  by (simp add: drop_client_def upd_entry_def split: option.splits)

text \<open>Writing a state other than connecting, and not ready without a client, keeps the pool quiet.\<close>

lemma quiet_set_state:
  assumes "pool_quiet p" "a < length (pl_heap p)" "\<And>e. en_client (h e) = en_client e"
    "en_state (h (pl_heap p ! a)) \<noteq> ConnConnecting" "en_state (h (pl_heap p ! a)) = ConnReady \<Longrightarrow> cl_of p a \<noteq> None"
  shows "pool_quiet (upd_entry a h p)"
proof -
  have cl: "cl_of (upd_entry a h p) b = cl_of p b" for b by (simp add: heap_upd_entry assms(3))
  have fr: "pl_open (upd_entry a h p) = pl_open p" "pl_clients (upd_entry a h p) = pl_clients p" by (simp_all add: upd_entry_def)
  have st: "st_of (upd_entry a h p) b = (if b = a then en_state (h (pl_heap p ! a)) else st_of p b)" for b
    using assms(2) by (simp add: heap_upd_entry)
  show ?thesis using assms(1,4,5) unfolding pool_quiet_def cl fr st upd_entry_frame addrs_ok_def by auto
qed

lemma quiet_drop:
  assumes "pool_quiet p" "a < length (pl_heap p)"
  shows "pool_quiet (upd_entry a (\<lambda>e. e\<lparr>en_state := ConnIdle\<rparr>) (drop_client a p))"
proof -
  let ?q = "upd_entry a (\<lambda>e. e\<lparr>en_state := ConnIdle\<rparr>) (drop_client a p)"
  have cl: "cl_of ?q b = (if b = a then None else cl_of p b)" for b
    using assms(2) by (simp add: heap_upd_entry pool_frame drop_client_heap)
  have st: "st_of ?q b = (if b = a then ConnIdle else st_of p b)" for b
    using assms(2) by (simp add: heap_upd_entry pool_frame)
  have fr: "pl_servers ?q = pl_servers p" "pl_clients ?q = pl_clients p" "length (pl_heap ?q) = length (pl_heap p)"
    by (simp_all add: pool_frame drop_client_clients) (simp add: upd_entry_def drop_client_clients)
  have op: "c \<in> set (pl_open ?q) \<longleftrightarrow> (\<exists>b<length (pl_heap p). b \<noteq> a \<and> cl_of p b = Some c)" for c
    using quietD(7,8) [OF assms(1)] assms(2)
    by (auto simp: upd_entry_def drop_client_open split: option.splits)
  show ?thesis using assms(1) op unfolding pool_quiet_def cl st fr addrs_ok_def by (auto split: if_splits)
qed

lemma quiet_alloc:
  assumes "pool_quiet p" "map_of (pl_servers p) name = None"
  shows "pool_quiet (p\<lparr>pl_servers := AList.update name (length (pl_heap p)) (pl_servers p), pl_heap := pl_heap p @ [newServerEntry]\<rparr>)"
proof -
  let ?q = "p\<lparr>pl_servers := AList.update name (length (pl_heap p)) (pl_servers p), pl_heap := pl_heap p @ [newServerEntry]\<rparr>"
  note Q = quietD [OF assms(1)]
  have new: "name \<notin> fst ` set (pl_servers p)" using assms(2) by (simp add: map_of_eq_None_iff)
  then have upd: "AList.update name a (pl_servers p) = pl_servers p @ [(name, a)]" for a by (simp add: update_fresh)
  have "length (pl_heap p) \<notin> snd ` set (pl_servers p)" using Q(1) by (auto simp: addrs_ok_def)
  then have d: "distinct (map fst (pl_servers ?q))" "distinct (map snd (pl_servers ?q))" using Q(2,3) new by (simp_all add: upd)
  have cl: "cl_of ?q a = (if a = length (pl_heap p) then None else cl_of p a)" if "a < length (pl_heap ?q)" for a
    using that by (auto simp: nth_append less_Suc_eq newServerEntry_def)
  have st: "st_of ?q a = (if a = length (pl_heap p) then ConnIdle else st_of p a)" if "a < length (pl_heap ?q)" for a
    using that by (auto simp: nth_append less_Suc_eq newServerEntry_def)
  have ok: "addrs_ok ?q" by (rule addrs_ok_alloc [OF Q(1)])
  have open': "(\<exists>a<length (pl_heap ?q). cl_of ?q a = Some c) \<longleftrightarrow> (\<exists>a<length (pl_heap p). cl_of p a = Some c)" for c
    using cl by (auto simp: less_Suc_eq newServerEntry_def)
  show ?thesis unfolding pool_quiet_def open'
    using ok d cl st assms(1) unfolding pool_quiet_def by (auto simp: upd less_Suc_eq newServerEntry_def split: if_splits)
qed

lemma quiet_config: "pool_quiet (p\<lparr>pl_config := c\<rparr>) = pool_quiet p"
  by (simp add: pool_quiet_def addrs_ok_def)

lemma quiet_event: "pool_quiet (emitEvent e p) = pool_quiet p"
  by (simp add: emitEvent_def pool_quiet_def addrs_ok_def)

lemma quiet_AddServer: "pool_quiet p \<Longrightarrow> pool_quiet (AddServer name c p)"
  using quiet_alloc [of "p\<lparr>pl_config := AList.update name c (pl_config p)\<rparr>" name]
  by (auto simp: AddServer_def Let_def quiet_config split: option.splits)

lemma quiet_getEntry:
  assumes "pool_quiet p" "getEntry name p = (p', a)"
  shows "pool_quiet p'" "a < length (pl_heap p')"
  using assms quiet_alloc [OF assms(1), of name] getEntry_frame(3) [OF assms(2)] quietD(1) [OF assms(1)]
  by (auto simp: getEntry_def split: option.splits)

lemma snd_delete:
  assumes "distinct (map fst xs)" "distinct (map snd xs)" "map_of xs k = Some a"
  shows "snd ` set (AList.delete k xs) = snd ` set xs - {a}"
proof -
  have "(k', b) \<in> set xs \<Longrightarrow> b = a \<longleftrightarrow> k' = k" for k' b
    using assms map_of_SomeD [OF assms(3)]
    by (metis distinct_map fst_conv inj_onD map_of_eq_Some_iff option.inject snd_conv)
  then show ?thesis by (force simp: AList.delete_eq)
qed

lemma quiet_DisconnectServer:
  assumes "pool_quiet p"
  shows "pool_quiet (DisconnectServer name p)"
proof (cases "map_of (pl_servers p) name")
  case (Some a)
  note Q = quietD [OF assms]
  have a: "a < length (pl_heap p)" using map_of_addrs_ok [OF Q(1) Some] .
  let ?q = "upd_entry a (\<lambda>e. e\<lparr>en_state := ConnIdle\<rparr>) (drop_client a p)"
  let ?r = "?q\<lparr>pl_servers := AList.delete name (pl_servers p), pl_config := AList.delete name (pl_config p)\<rparr>"
  have eq: "DisconnectServer name p = ?r"
    by (simp add: DisconnectServer_def Some Let_def upd_entry_def drop_client_def split: option.splits)
  have "pool_quiet ?q" by (rule quiet_drop [OF assms a])
  moreover have "cl_of ?q a = None" using a by (simp add: heap_upd_entry pool_frame drop_client_heap)
  moreover have "pl_servers ?q = pl_servers p" by (simp add: pool_frame)
  ultimately show ?thesis
    unfolding eq pool_quiet_def addrs_ok_def
    using snd_delete [OF Q(2,3) Some] distinct_delete [OF Q(2)] 
    by (auto simp: AList.delete_eq distinct_map_filter)
qed (simp add: DisconnectServer_def assms)

lemma quiet_close_entries:
  "pool_quiet p \<Longrightarrow> \<forall>x\<in>set xs. snd x < length (pl_heap p) \<Longrightarrow> pool_quiet (fst (close_entries cerr xs err p))"
proof (induction xs arbitrary: err p)
  case (Cons x rest)
  obtain name a where x: "x = (name, a)" by (cases x)
  have "pool_quiet (upd_entry a (\<lambda>e. e\<lparr>en_state := ConnIdle\<rparr>) (drop_client a p))"
    using quiet_drop [OF Cons.prems(1), of a] Cons.prems(2) by (simp add: x)
  then show ?case unfolding x close_entries.simps Let_def using Cons.prems(2) by (intro Cons.IH) (simp_all add: pool_frame)
qed simp

lemma quiet_Close: "pool_quiet p \<Longrightarrow> pool_quiet (fst (Close cerr p))"
  using quiet_close_entries [of p "pl_servers p" cerr None] quietD(1) [of p]
  by (auto simp: Close_def addrs_ok_def split: prod.splits option.splits)

text \<open>What a connect leaves in the entry, when nobody interferes.\<close>

lemma connect_as_owner_eq:
  assumes "a < length (pl_heap p)"
  shows "connect_as_owner d name cfg a p =
    (case connect_result name (dl_dial d cfg) of
       Inl err \<Rightarrow> (emitEvent (connect_event (dl_uuid d) (dl_now d) name err (dl_ctxDone d))
          (upd_entry a (\<lambda>e. e\<lparr>en_state := ConnFailed, en_lastErr := Some err\<rparr>) (drop_client a p)), Inl err)
     | Inr tools \<Rightarrow> (connect_finish a None (connect_install a (dl_now d) tools (drop_client a p)), Inr a))"
  using assms
  by (simp add: connect_as_owner_def take_ownership_def connect_finish_def connect_install_def drop_client_def upd_entry_def
      Let_def split: sum.splits option.splits)

lemma ready_quiet:
  assumes "pool_quiet p" "a < length (pl_heap p)" "a \<in> snd ` set (pl_servers p)" "cl_of p a = None"
  shows "pool_quiet (connect_finish a None (connect_install a now tools p))"
proof -
  let ?q = "connect_finish a None (connect_install a now tools p)"
  note Q = quietD [OF assms(1)]
  have cl: "cl_of ?q b = (if b = a then Some (pl_clients p) else cl_of p b)" for b
    using assms(2) by (simp add: connect_finish_def connect_install_def heap_upd_entry upd_entry_frame)
  have st: "st_of ?q b = (if b = a then ConnReady else st_of p b)" for b
    using assms(2) by (simp add: pool_frame)
  have fr: "pl_servers ?q = pl_servers p" "length (pl_heap ?q) = length (pl_heap p)" by (simp_all add: pool_frame)
  have fr': "pl_clients ?q = pl_clients p + 1" "pl_open ?q = pl_clients p # pl_open p"
    by (simp_all add: connect_finish_def connect_install_def upd_entry_def)
  have fresh: "b < length (pl_heap p) \<Longrightarrow> cl_of p b \<noteq> Some (pl_clients p)" for b using Q(6) [of b "pl_clients p"] by auto
  have op: "c \<in> set (pl_open ?q) \<longleftrightarrow> (\<exists>b<length (pl_heap p). cl_of ?q b = Some c)" for c
    unfolding fr' cl using Q(8) [of c] assms(2,4) by auto (metis option.distinct(1))
  show ?thesis unfolding pool_quiet_def fr op
    using assms(1-3) fresh unfolding pool_quiet_def fr' cl st addrs_ok_def fr by (auto split: if_splits dest: less_SucI)
qed

lemma quiet_connect:
  assumes "pool_quiet p" "a < length (pl_heap p)" "a \<in> snd ` set (pl_servers p)"
  shows "pool_quiet (fst (connect_as_owner d name cfg a p))"
proof -
  let ?q = "upd_entry a (\<lambda>e. e\<lparr>en_state := ConnIdle\<rparr>) (drop_client a p)"
  have q: "pool_quiet ?q" "a < length (pl_heap ?q)" "a \<in> snd ` set (pl_servers ?q)" "cl_of ?q a = None"
    using quiet_drop [OF assms(1,2)] assms by (simp_all add: pool_frame heap_upd_entry drop_client_heap)
  have *: "upd_entry a (\<lambda>e. e\<lparr>en_state := ConnFailed, en_lastErr := Some err\<rparr>) (drop_client a p) =
      upd_entry a (\<lambda>e. e\<lparr>en_state := ConnFailed, en_lastErr := Some err\<rparr>) ?q" for err
    using assms(2) by (simp add: upd_entry_def pool_frame)
  have **: "connect_finish a None (connect_install a now tools (drop_client a p)) =
      connect_finish a None (connect_install a now tools ?q)" for now tools
    using assms(2) by (simp add: upd_entry_def connect_finish_def connect_install_def pool_frame)
  have failed: "pool_quiet (upd_entry a (\<lambda>e. e\<lparr>en_state := ConnFailed, en_lastErr := Some err\<rparr>) ?q)" for err
    by (rule quiet_set_state [OF q(1,2)]) simp_all
  show ?thesis unfolding connect_as_owner_eq [OF assms(2)] * **
    using ready_quiet [OF q] failed by (simp add: quiet_event split: sum.splits)
qed

lemma getEntry_listed: "getEntry name p = (p', a) \<Longrightarrow> a \<in> snd ` set (pl_servers p')"
  by (metis fun_upd_same getEntry_frame(6) map_of_SomeD image_eqI snd_conv)

lemma quiet_getOrConnect:
  assumes "pool_quiet p"
  shows "\<exists>p' r. getOrConnect d name p = Returns (p', r) \<and> pool_quiet p' \<and>
    (\<forall>a. r = Inr a \<longrightarrow> a < length (pl_heap p') \<and> st_of p' a = ConnReady)"
proof (cases "map_of (pl_config p) name")
  case (Some cfg)
  obtain p1 a where g: "getEntry name p = (p1, a)" by fastforce
  note G = quiet_getEntry [OF assms g] getEntry_listed [OF g]
  obtain p2 r where c: "connect_as_owner d name cfg a p1 = (p2, r)" by fastforce
  have "pool_quiet p2" using quiet_connect [OF G, of d name cfg] c by simp
  moreover have "r = Inr b \<Longrightarrow> b < length (pl_heap p2) \<and> st_of p2 b = ConnReady" for b
    using c G(2) by (auto simp: connect_as_owner_eq [OF G(2)] pool_frame split: sum.splits)
  ultimately show ?thesis
    using G(1,2) quietD(4) [OF G(1,2)] Some g c by (cases "st_of p1 a") (simp_all add: getOrConnect_def)
qed (simp add: getOrConnect_def assms)

lemma quiet_CallToolRaw:
  assumes "pool_quiet p"
  shows "\<exists>p' r. CallToolRaw d call server tool p = Returns (p', r) \<and> pool_quiet p'"
proof -
  obtain p1 r where g: "getOrConnect d server p = Returns (p1, r)" "pool_quiet p1"
    "\<And>a. r = Inr a \<Longrightarrow> a < length (pl_heap p1) \<and> st_of p1 a = ConnReady"
    using quiet_getOrConnect [OF assms] by blast
  show ?thesis
  proof (cases r)
    case (Inr a)
    then obtain c where "cl_of p1 a = Some c" using quietD(5) [OF g(2)] g(3) by blast
    moreover have "pool_quiet (mark_failed a e p1)" for e
      unfolding mark_failed_def by (rule quiet_set_state [OF g(2)]) (use g(3) Inr in auto)
    ultimately show ?thesis using g(1,2) Inr by (auto simp: CallToolRaw_def split: sum.splits)
  qed (use g in \<open>simp add: CallToolRaw_def\<close>)
qed

lemma quiet_DiscoverTools:
  assumes "pool_quiet p"
  shows "\<exists>p' r. DiscoverTools d name p = Returns (p', r) \<and> pool_quiet p'"
  using quiet_getOrConnect [OF assms, of d name] by (auto simp: DiscoverTools_def split: sum.splits)

end
