(* ===== verification/PoolProperties.thy ===== *)
theory PoolProperties
  imports Pool
begin

text \<open>
  What the connection pool guarantees: to goroutines that share it (\<open>pool_act\<close>), to goroutines that
  take turns (\<open>pool_use\<close>), and that the second kind of run is one of the first. Two runs show where
  the guarantees end.
\<close>

subsection \<open>Goroutines that share the pool\<close>

definition sample_mcp_tool :: mcp_tool where
  "sample_mcp_tool = \<lparr>mt_Name = ''t'', mt_Description = [], mt_InputSchema = ''{}''\<rparr>"

definition sample_world :: "unit pool_world" where
  "sample_world = (NewPool [(''s'', ())], \<lambda>_. Out)"

text \<open>Goroutine \<open>i\<close> connects to the only server, which offers the tool.\<close>

definition connect_run :: "nat \<Rightarrow> (nat \<times> unit pool_action) list" where
  "connect_run i = map (Pair i) [Enter ''s'', Look, CloseOld, Dial (Dialled [sample_mcp_tool]) 0, Finish [] 0 False]"

lemmas pool_run_defs = sample_world_def sample_mcp_tool_def connect_run_def NewPool_def getEntry_def newServerEntry_def
  take_ownership_def drop_client_def connect_install_def connect_finish_def indexTools_def upd_entry_def mark_failed_def
  broadcast_def

lemma sample_world_reach: "reach pool_start pool_step sample_world"
  by (rule reach_init) (auto simp: pool_start_def sample_world_def)

lemma fails_to_finish:
  assumes "owns (gs k) a"
  shows "\<exists>acts p' gs'. pool_acts (map (Pair k) acts) (p, gs) = Some (p', gs') \<and> (\<forall>j. \<not> waits (gs' j) a) \<and>
    (a < length (pl_heap p) \<longrightarrow> st_of p' a \<noteq> ConnConnecting)"
proof -
  have dialErr: "\<exists>acts p' gs'. pool_acts (map (Pair k) acts) (p, gs) = Some (p', gs') \<and> (\<forall>j. \<not> waits (gs' j) a) \<and>
      (a < length (pl_heap p) \<longrightarrow> st_of p' a \<noteq> ConnConnecting)" if "gs k = DialErr n a c e" for p :: "'a pool" and gs n c e
    by (rule exI [of _ "[Finish [] 0 False]"]) (use that in \<open>auto simp: pool_frame\<close>)
  have dialing: "\<exists>acts p' gs'. pool_acts (map (Pair k) acts) (p, gs) = Some (p', gs') \<and> (\<forall>j. \<not> waits (gs' j) a) \<and>
      (a < length (pl_heap p) \<longrightarrow> st_of p' a \<noteq> ConnConnecting)" if "gs k = Dialing n a c" for p :: "'a pool" and gs n c
  proof -
    obtain acts p' gs' where "pool_acts (map (Pair k) acts) (p, gs(k := DialErr n a c (ErrMsg (''start client: '' @ [])))) = Some (p', gs')"
      "\<forall>j. \<not> waits (gs' j) a" "a < length (pl_heap p) \<longrightarrow> st_of p' a \<noteq> ConnConnecting"
      using dialErr [of "gs(k := DialErr n a c (ErrMsg (''start client: '' @ [])))" n c] by fastforce
    then show ?thesis using that by (intro exI [of _ "Dial (StartErr (ErrMsg [])) 0 # acts"]) simp
  qed
  show ?thesis
  proof (cases "gs k")
    case (Owner n b c)
    then have "gs k = Owner n a c" using assms by simp
    moreover obtain acts p' gs' where "pool_acts (map (Pair k) acts) (drop_client a p, gs(k := Dialing n a c)) = Some (p', gs')"
      "\<forall>j. \<not> waits (gs' j) a" "a < length (pl_heap p) \<longrightarrow> st_of p' a \<noteq> ConnConnecting"
      using dialing [of "gs(k := Dialing n a c)" n c "drop_client a p"] by (auto simp: pool_frame)
    ultimately show ?thesis by (intro exI [of _ "CloseOld # acts"]) simp
  next
    case (Installed n b c)
    then have "gs k = Installed n a c" using assms by simp
    then show ?thesis by (intro exI [of _ "[Finish [] 0 False]"]) (auto simp: pool_frame)
  qed (use assms dialErr dialing in auto)
qed

text \<open>
  C17 (pool_waiters_wake): however the goroutines interleave, one that waits for a connection
  waits for a goroutine that is connecting and that can always finish on its own; once it does,
  nobody waits on the entry any more.
\<close>

theorem pool_waiters_wake:
  assumes "reach pool_start pool_step (p, gs)" "waits (gs j) a"
  shows "\<exists>k acts p' gs'. k \<noteq> j \<and> pool_acts (map (Pair k) acts) (p, gs) = Some (p', gs') \<and>
    (\<forall>i. \<not> waits (gs' i) a) \<and> st_of p' a \<noteq> ConnConnecting"
proof -
  have inv: "pool_inv (p, gs)" by (rule poolinv.reach_inv [OF assms(1)])
  with assms(2) obtain k where k: "owns (gs k) a" unfolding pool_inv_def by blast
  moreover have "k \<noteq> j" using k assms(2) by (cases "gs j") auto
  moreover have "a < length (pl_heap p)" using pool_inv_D(2) [OF inv owns_refers [OF k]] .
  ultimately show ?thesis using fails_to_finish by metis
qed

theorem pool_waiters_wake_witness:
  "\<exists>p gs k acts p' gs'. k \<noteq> 1 \<and> waits (gs 1) 0 \<and>
     pool_acts (map (Pair k) acts) (p, gs :: nat \<Rightarrow> unit goroutine) = Some (p', gs') \<and> (\<forall>i. \<not> waits (gs' i) 0) \<and> st_of p' 0 \<noteq> ConnConnecting"
proof -
  let ?run = "[(0, Enter ''s''), (0, Look), (1, Enter ''s''), (1, Look)]"
  have run: "\<exists>w. pool_acts ?run sample_world = Some w \<and> waits (snd w 1) 0"
    by (simp add: pool_run_defs)
  then obtain p gs where w: "pool_acts ?run sample_world = Some (p, gs)" "waits (gs 1) 0" by fastforce
  show ?thesis
    using pool_waiters_wake [OF pool_acts_reach [OF w(1) sample_world_reach] w(2)] w(2) by blast
qed

text \<open>
  as long as only the goroutine that connects takes an entry out
  of the connecting state, no two goroutines connect the same entry, and an entry is connecting
  exactly while one of them does.
\<close>

theorem one_connector_at_a_time:
  assumes "reach pool_start orderly_step (p, gs)" "a < length (pl_heap p)"
  shows "if st_of p a = ConnConnecting then (\<exists>!i. owns (gs i) a) else (\<nexists>i. owns (gs i) a)"
  using orderly.reach_inv [OF assms(1)] assms(2) unfolding single_inv_def pool_inv_def by (simp, blast)

theorem one_connector_at_a_time_witness:
  "\<exists>p gs. reach pool_start orderly_step (p, gs :: nat \<Rightarrow> unit goroutine) \<and> st_of p 0 = ConnConnecting \<and> (\<exists>!i. owns (gs i) 0)"
proof -
  have quiet: "orderly_step w w'"
    if "pool_act i act w = Some w'" "\<forall>a<length (pl_heap (fst w)). st_of (fst w) a \<noteq> ConnConnecting" for i act and w w' :: "unit pool_world"
    using that by (cases w; cases w') (auto simp: orderly_step_def pool_step_def)
  have "\<exists>w. pool_act 0 (Enter ''s'') sample_world = Some w \<and> (\<forall>a<length (pl_heap (fst w)). st_of (fst w) a \<noteq> ConnConnecting) \<and>
      (\<exists>w'. pool_act 0 Look w = Some w' \<and> length (pl_heap (fst w')) = 1 \<and> st_of (fst w') 0 = ConnConnecting)"
    by (simp add: pool_run_defs)
  then obtain w1 w2 where w: "pool_act 0 (Enter ''s'') sample_world = Some w1" "\<forall>a<length (pl_heap (fst w1)). st_of (fst w1) a \<noteq> ConnConnecting"
    "pool_act 0 Look w1 = Some w2" "length (pl_heap (fst w2)) = 1" "st_of (fst w2) 0 = ConnConnecting" by blast
  have w1: "orderly_step sample_world w1" by (rule quiet [OF w(1)]) (simp add: pool_run_defs)
  note w2 = quiet [OF w(3,2)]
  have "reach pool_start orderly_step sample_world" by (rule reach_init) (auto simp: pool_start_def sample_world_def)
  then have "reach pool_start orderly_step w1" by (rule reach_step) (rule w1)
  then have r: "reach pool_start orderly_step (fst w2, snd w2)" unfolding prod.collapse by (rule reach_step) (rule w2)
  show ?thesis using r w(4,5) one_connector_at_a_time [OF r, of 0] by (intro exI [of _ "fst w2"] exI [of _ "snd w2"]) simp
qed

text \<open>
  The condition is needed. Two calls are under way on a ready connection; the first fails, a
  third goroutine starts to reconnect, then the second fails and writes the failed state over the
  connecting one: a fourth goroutine starts to connect the same entry.
\<close>

definition stale_failure_run :: "(nat \<times> unit pool_action) list" where
  "stale_failure_run = connect_run 0 @
     [(0, ReadClient ''t''), (1, Enter ''s''), (1, Look), (1, ReadClient ''t''), (1, CallErr (ErrMsg ''eof'')),
      (2, Enter ''s''), (2, Look), (0, CallErr (ErrMsg ''eof'')), (3, Enter ''s''), (3, Look)]"

theorem stale_failure_two_connectors:
  "\<exists>p gs. pool_acts stale_failure_run sample_world = Some (p, gs) \<and> reach pool_start pool_step (p, gs) \<and>
     owns (gs 2) 0 \<and> owns (gs 3) 0"
proof -
  have "\<exists>w. pool_acts stale_failure_run sample_world = Some w \<and> owns (snd w 2) 0 \<and> owns (snd w 3) 0"
    by (simp add: stale_failure_run_def pool_run_defs)
  then show ?thesis using pool_acts_reach [OF _ sample_world_reach] by fastforce
qed

text \<open>
  A goroutine has been given a ready entry; before it reads the client, the server is
  disconnected (as the reconciler does when the configuration changed). The tool is still in the
  entry's cache, so the goroutine goes on to call through a nil client.
\<close>

theorem disconnect_leaves_nil_client:
  "\<exists>p gs. pool_acts (connect_run 0 @ [(1, DoDisconnect ''s''), (0, ReadClient ''t'')]) sample_world = Some (p, gs) \<and>
     reach pool_start pool_step (p, gs) \<and> gs 0 = Calling ''s'' 0 None"
proof -
  have "\<exists>w. pool_acts (connect_run 0 @ [(1, DoDisconnect ''s''), (0, ReadClient ''t'')]) sample_world = Some w \<and>
      snd w 0 = Calling ''s'' 0 None"
    by (simp add: pool_run_defs DisconnectServer_def)
  then show ?thesis using pool_acts_reach [OF _ sample_world_reach] by fastforce
qed

subsection \<open>Goroutines that take turns\<close>

text \<open>
  What \<open>getOrConnect\<close> does when it runs alone is one of the
  runs of goroutines that share the pool.
\<close>

theorem one_goroutine_refines_shared:
  assumes "getOrConnect d name p = Returns (p', r)"
  shows "\<exists>acts. pool_acts (map (Pair i) acts) (p, \<lambda>_. Out) =
    Some (p', (\<lambda>_. Out)(i := (case r of Inl e \<Rightarrow> Out | Inr a \<Rightarrow> Got name a)))"
proof (cases "map_of (pl_config p) name")
  case None
  then have "p' = p" "r = Inl (not_configured name)" using assms by (simp_all add: getOrConnect_def)
  then show ?thesis by (intro exI [of _ "[]"]) (simp add: fun_upd_idem)
next
  case (Some cfg)
  obtain p1 a where g: "getEntry name p = (p1, a)" by fastforce
  have bc: "(broadcast b ((\<lambda>_. Out)(i := x)))(i := y) = (\<lambda>_. Out)(i := y)" for b x and y :: "'a goroutine"
    by (auto simp: broadcast_def)
  let ?connect = "[Enter name, Look, CloseOld, Dial (dl_dial d cfg) (dl_now d), Finish (dl_uuid d) (dl_now d) (dl_ctxDone d)]"
  have "\<exists>acts. pool_acts (map (Pair i) acts) (p, \<lambda>_. Out) = Some (p', (\<lambda>_. Out)(i := (case r of Inl e \<Rightarrow> Out | Inr a \<Rightarrow> Got name a)))"
    if "st_of p1 a \<in> {ConnIdle, ConnFailed}"
    using that assms Some g
    by (intro exI [of _ ?connect]) (auto simp: getOrConnect_def connect_as_owner_def Let_def bc split: sum.splits)
  moreover have ?thesis if "st_of p1 a = ConnReady"
    using that assms Some g by (intro exI [of _ "[Enter name, Look]"]) (auto simp: getOrConnect_def)
  ultimately show ?thesis using assms Some g by (cases "st_of p1 a") (auto simp: getOrConnect_def)
qed

definition sample_dialer :: "unit dialer" where
  "sample_dialer = \<lparr>dl_dial = (\<lambda>_. Dialled [sample_mcp_tool]), dl_now = 0, dl_uuid = [], dl_ctxDone = False\<rparr>"

theorem one_goroutine_refines_shared_witness:
  "\<exists>p' acts. getOrConnect sample_dialer ''s'' (fst sample_world) = Returns (p', Inr 0) \<and>
     pool_acts (map (Pair 0) acts) sample_world = Some (p', (\<lambda>_. Out)(0 := Got ''s'' 0))"
proof -
  have "\<exists>p'. getOrConnect sample_dialer ''s'' (fst sample_world) = Returns (p', Inr 0)"
    by (simp add: getOrConnect_def connect_as_owner_def sample_dialer_def Let_def pool_run_defs)
  then obtain p' where p': "getOrConnect sample_dialer ''s'' (fst sample_world) = Returns (p', Inr 0)" by blast
  with one_goroutine_refines_shared [OF p', of 0] show ?thesis by (auto simp: sample_world_def)
qed

inductive pool_use :: "'c pool \<Rightarrow> 'c pool \<Rightarrow> bool" where
  pu_add: "pool_use p (AddServer name c p)"
| pu_disconnect: "pool_use p (DisconnectServer name p)"
| pu_close: "pool_use p (fst (Close cerr p))"
| pu_discover: "DiscoverTools d name p = Returns (p', r) \<Longrightarrow> pool_use p p'"
| pu_call: "CallToolRaw d (call :: nat \<Rightarrow> CallToolResult result) server tool p = Returns (p', r) \<Longrightarrow> pool_use p p'"

definition pool_new :: "'c pool \<Rightarrow> bool" where
  "pool_new p \<longleftrightarrow> (\<exists>cfg bus. p = SetEventBus bus (NewPool cfg))"

interpretation poolseq: inductive_invariant pool_new pool_use pool_quiet
proof
  show "pool_quiet p" if "pool_new p" for p :: "'a pool"
    using that by (auto simp: pool_new_def NewPool_def SetEventBus_def pool_quiet_def addrs_ok_def)
  show "pool_quiet p'" if q: "pool_quiet p" and use: "pool_use p p'" for p p' :: "'a pool"
    using use
  proof cases
    case (pu_discover d name r)
    with quiet_DiscoverTools [OF q, of d name] show ?thesis by auto
  next
    case (pu_call d call server tool r)
    with quiet_CallToolRaw [OF q, of d call server tool] show ?thesis by auto
  qed (simp_all add: q quiet_AddServer quiet_DisconnectServer quiet_Close)
qed

text \<open>
  Goroutines that take turns never block and never meet a nil client, and
  they leak no connection: after any sequence of operations the open clients are exactly those
  of the servers the pool lists.
\<close>

theorem pool_in_turns:
  assumes "reach pool_new pool_use p"
  shows "(\<exists>p' r. CallToolRaw d call server tool p = Returns (p', r)) \<and>
    set (pl_open p) = {c. \<exists>name a. map_of (pl_servers p) name = Some a \<and> en_client (pl_heap p ! a) = Some c}"
proof -
  have q: "pool_quiet p" by (rule poolseq.reach_inv [OF assms])
  note Q = quietD [OF q]
  have listed: "a < length (pl_heap p) \<and> (\<exists>name. map_of (pl_servers p) name = Some a)" if "a \<in> snd ` set (pl_servers p)" for a
  proof -
    from that obtain name where "(name, a) \<in> set (pl_servers p)" by auto
    then have "map_of (pl_servers p) name = Some a" using Q(2) by simp
    then show ?thesis using map_of_addrs_ok [OF Q(1)] by blast
  qed
  have "c \<in> set (pl_open p) \<longleftrightarrow> (\<exists>name a. map_of (pl_servers p) name = Some a \<and> en_client (pl_heap p ! a) = Some c)" for c
    unfolding Q(8) using Q(6) listed map_of_addrs_ok [OF Q(1)] by blast
  then show ?thesis using quiet_CallToolRaw [OF q] by blast
qed

theorem pool_in_turns_witness:
  "\<exists>p' r. CallToolRaw sample_dialer (\<lambda>_. Inr True) ''s'' ''t'' (AddServer ''s'' () (NewPool [])) = Returns (p', r)"
proof -
  have "reach pool_new pool_use (NewPool [] :: unit pool)"
    by (rule reach_init) (auto simp: pool_new_def SetEventBus_def NewPool_def intro!: exI [of _ "[]"])
  then have "reach pool_new pool_use (AddServer ''s'' () (NewPool []))" by (rule reach_step) (rule pu_add)
  from pool_in_turns [OF this] show ?thesis by blast
qed

text \<open>The entry of a server, by name.\<close>

definition entry_of :: "'c pool \<Rightarrow> string \<Rightarrow> serverEntry option" where
  "entry_of p name = map_option (\<lambda>a. pl_heap p ! a) (map_of (pl_servers p) name)"

definition is_ready :: "'c pool \<Rightarrow> string \<Rightarrow> bool" where
  "is_ready p name \<longleftrightarrow> (\<exists>e. entry_of p name = Some e \<and> en_state e = ConnReady)"

definition infos_of :: "mcp_tool list \<Rightarrow> tool_info list" where
  "infos_of tools = tool_infos (newServerEntry\<lparr>en_tools := indexTools tools\<rparr>)"

lemma tool_infos_cong: "en_tools e = en_tools e' \<Longrightarrow> tool_infos e = tool_infos e'"
  by (simp add: tool_infos_def)

text \<open>
  What discovery answers. A ready server is not asked: the tools of
  the last connect are returned and nothing changes, whatever the backend offers by now. Any
  other server is connected: its tools are returned and it is ready, or the error of the connect
  is returned and the server is failed with that error and without a client.
\<close>

theorem discover_tools_outcome:
  assumes "pool_quiet p" "map_of (pl_config p) name = Some cfg"
  shows "\<exists>p' r. DiscoverTools d name p = Returns (p', r) \<and>
    (if is_ready p name then p' = p \<and> r = Inr (tool_infos (the (entry_of p name)))
     else case connect_result name (dl_dial d cfg) of
            Inr tools \<Rightarrow> r = Inr (infos_of tools) \<and> is_ready p' name
          | Inl err \<Rightarrow> r = Inl (connecting_err name err) \<and>
              (\<exists>e. entry_of p' name = Some e \<and> en_state e = ConnFailed \<and> en_lastErr e = Some err \<and> en_client e = None))"
proof -
  obtain p1 a where g: "getEntry name p = (p1, a)" by fastforce
  note G = quiet_getEntry [OF assms(1) g] getEntry_frame(6) [OF g]
  have entry: "entry_of p1 name = Some (pl_heap p1 ! a)" by (simp add: entry_of_def G(3))
  have same: "st_of p1 a = ConnReady \<Longrightarrow> p1 = p"
    using g by (cases "map_of (pl_servers p) name") (auto simp: getEntry_def newServerEntry_def)
  have ready: "is_ready p name \<longleftrightarrow> st_of p1 a = ConnReady"
  proof
    assume "is_ready p name"
    then show "st_of p1 a = ConnReady"
      using g by (cases "map_of (pl_servers p) name") (auto simp: is_ready_def entry_of_def getEntry_def)
  next
    assume "st_of p1 a = ConnReady"
    then show "is_ready p name" using entry same by (auto simp: is_ready_def)
  qed
  show ?thesis
  proof (cases "st_of p1 a = ConnReady")
    case True
    then have "DiscoverTools d name p = Returns (p, Inr (tool_infos (pl_heap p ! a)))"
      using same g assms(2) by (simp add: DiscoverTools_def getOrConnect_def)
    then show ?thesis using True ready same entry by simp
  next
    case False
    then have "getOrConnect d name p = Returns (connect_as_owner d name cfg a p1)"
      using quietD(4) [OF G(1,2)] g assms(2) by (cases "st_of p1 a") (simp_all add: getOrConnect_def)
    then show ?thesis using False ready G(2,3)
      by (auto simp: DiscoverTools_def connect_as_owner_eq [OF G(2)] is_ready_def entry_of_def infos_of_def emitEvent_frame
          connect_finish_def connect_install_def upd_entry_def drop_client_heap drop_client_frame(1) nth_list_update
          intro!: tool_infos_cong split: sum.splits)
  qed
qed

theorem discover_tools_outcome_witness:
  "\<exists>p' r. DiscoverTools sample_dialer ''s'' (NewPool [(''s'', ())]) = Returns (p', r) \<and> r = Inr (infos_of [sample_mcp_tool]) \<and> is_ready p' ''s''"
proof -
  have q: "pool_quiet (NewPool [(''s'', ())])" by (simp add: pool_quiet_def addrs_ok_def NewPool_def)
  from discover_tools_outcome [OF q, of "''s''" "()" sample_dialer] show ?thesis
    by (simp add: NewPool_def is_ready_def entry_of_def sample_dialer_def)
qed

end
