(* ===== verification/Reconciler.thy ===== *)
theory Reconciler
  imports Registry PoolProperties
begin

text \<open>
  \<open>internal/registry/reconciler.go\<close>: the loop that makes the connection pool and the gateway follow
  the servers of the registry, and writes what it finds back as tools, health and audit entries.
  Its state is the three components together. The graph it also writes is not part of that state.
  Go iterates over maps in any order: here desired servers come in the order the registry lists
  them and known servers in the order of the pool.
\<close>

subsection \<open>State and environment\<close>

record rec_world =
  rw_db :: registry_db
  rw_pool :: "MCPServerEntry pool"
  rw_gw :: gateway

text \<open>
  The calls to the registry that can fail, named by the place in the code; \<open>re_fault\<close> also gets
  the server. \<open>re_unmarshal\<close> is \<open>json.Unmarshal\<close> into a zero configuration \<open>re_zero\<close>, \<open>re_sha\<close> the
  hexadecimal SHA-256 digest.
\<close>

datatype rec_call = RListServers | RGetServer | RHealth | RDiscoveredAt | RListTools | RReplace | RVisible | RAudit string

record rec_env =
  re_fault :: "rec_call \<Rightarrow> string \<Rightarrow> db_fault"
  re_now :: int
  re_dialer :: "string \<Rightarrow> MCPServerEntry dialer"
  re_unmarshal :: "string \<Rightarrow> MCPServerEntry"
  re_zero :: MCPServerEntry
  re_sha :: "string \<Rightarrow> string"

subsection \<open>Conversions\<close>

definition serverToConfigEntry :: "rec_env \<Rightarrow> Server \<Rightarrow> MCPServerEntry" where
  "serverToConfigEntry env srv =
     (case sv_ConnectionConfig srv of
        None \<Rightarrow> re_zero env
      | Some j \<Rightarrow> if j = [] then re_zero env else re_unmarshal env j)"

definition schemaHash :: "rec_env \<Rightarrow> string \<Rightarrow> string" where
  "schemaHash env schema = (if schema = [] then [] else re_sha env schema)"

definition toRegistryTools :: "rec_env \<Rightarrow> string \<Rightarrow> tool_info list \<Rightarrow> Tool list" where
  "toRegistryTools env serverName tools =
     map (\<lambda>t. \<lparr>tl_ServerName = serverName, tl_ToolName = ti_Name t, tl_Description = ti_Description t,
              tl_InputSchema = Some (ti_InputSchema t), tl_SchemaHash = schemaHash env (ti_InputSchema t),
              tl_Enabled = True, tl_LastSeenAt = re_now env, tl_Metadata = None\<rparr>) tools"

definition configDrifted :: "rec_env \<Rightarrow> MCPServerEntry ServerInfo \<Rightarrow> Server \<Rightarrow> bool" where
  "configDrifted env info srv =
     (me_JSON (serverToConfigEntry env srv) \<noteq> me_JSON (case si_Config info of None \<Rightarrow> re_zero env | Some c \<Rightarrow> c))"

text \<open>
  \<open>strings.ToLower\<close>, up to what a search for ASCII text can see: two characters outside ASCII have
  an ASCII lower case.
\<close>

fun to_lower :: "string \<Rightarrow> string" where
  "to_lower [] = []"
| "to_lower (c # cs) =
     (let n = (of_char c :: nat)
      in if c = CHR 0xC4 \<and> take 1 cs = [CHR 0xB0] then CHR ''i'' # to_lower (drop 1 cs)
         else if c = CHR 0xE2 \<and> take 2 cs = [CHR 0x84, CHR 0xAA] then CHR ''k'' # to_lower (drop 2 cs)
         else (if 65 \<le> n \<and> n \<le> 90 then char_of (n + 32) else c) # to_lower cs)"

definition auth_words :: "string list" where
  "auth_words = [''auth'', ''unauthorized'', ''403'', ''401'']"

definition transport_words :: "string list" where
  "transport_words = [''connection refused'', ''no such host'', ''timeout'', ''dial'', ''eof'', ''transport'', ''unreachable'']"

definition classifyError :: "error option \<Rightarrow> string \<times> string" where
  "classifyError err =
     (case err of
        None \<Rightarrow> (''error'', ''unknown error'')
      | Some e \<Rightarrow>
          let errMsg = error_string e; errLower = to_lower errMsg
          in if list_ex (contains errLower) auth_words then (''auth_failed'', errMsg)
             else if list_ex (contains errLower) transport_words then (''unreachable'', errMsg)
             else (''error'', errMsg))"

subsection \<open>Writing to the registry\<close>

definition logAudit :: "rec_env \<Rightarrow> string \<Rightarrow> string \<Rightarrow> string option \<Rightarrow> rec_world \<Rightarrow> rec_world" where
  "logAudit env act name detail w =
     w\<lparr>rw_db := fst (sr_LogAudit (re_fault env (RAudit act) name) (re_now env)
        \<lparr>au_ID = 0, au_Actor = ''reconciler'', au_ActorType = ''system'', au_Action = act, au_ResourceType = ''server'',
         au_ResourceName = name, au_Detail = detail, au_Timestamp = re_now env\<rparr> (rw_db w))\<rparr>"

definition health_of :: "ConnState \<Rightarrow> error option \<Rightarrow> bool \<Rightarrow> string \<times> string" where
  "health_of state lastErr schemaDrift =
     (case state of
        ConnIdle \<Rightarrow> (''pending'', [])
      | ConnConnecting \<Rightarrow> (''pending'', [])
      | ConnReady \<Rightarrow> if schemaDrift then (''degraded'', ''schema drift detected'') else (''active'', [])
      | ConnFailed \<Rightarrow> classifyError lastErr)"

definition json_text :: "string \<Rightarrow> string" where
  "json_text s = [CHR 0x22] @ s @ [CHR 0x22]"

definition health_detail :: "string \<Rightarrow> string \<Rightarrow> string" where
  "health_detail old new = ''{'' @ json_text ''from'' @ '':'' @ json_text old @ '','' @ json_text ''to'' @ '':'' @ json_text new @ ''}''"

definition writeHealth :: "rec_env \<Rightarrow> string \<Rightarrow> ConnState \<Rightarrow> error option \<Rightarrow> bool \<Rightarrow> rec_world \<Rightarrow> rec_world" where
  "writeHealth env name state lastErr schemaDrift w =
     (case health_of state lastErr schemaDrift of
        (status, msg) \<Rightarrow>
          let w1 = (case sr_GetServer (re_fault env RGetServer name) name (rw_db w) of
                      Inr (Some srv) \<Rightarrow>
                        if sv_Status srv \<noteq> status
                        then logAudit env ''health_change'' name (Some (health_detail (sv_Status srv) status)) w else w
                    | _ \<Rightarrow> w)
          in w1\<lparr>rw_db := fst (sr_UpdateServerHealth (re_fault env RHealth name) (re_now env) name status msg None (rw_db w1))\<rparr>)"

subsection \<open>One server\<close>

text \<open>\<open>s[:8]\<close> panics on a string shorter than that.\<close>

fun drift_scan :: "(string \<times> string) list \<Rightarrow> Tool list \<Rightarrow> bool run" where
  "drift_scan existing [] = Returns False"
| "drift_scan existing (t # ts) =
     (case map_of existing (tl_ToolName t) of
        None \<Rightarrow> drift_scan existing ts
      | Some oldHash \<Rightarrow>
          if oldHash \<noteq> [] \<and> oldHash \<noteq> tl_SchemaHash t
          then (if length oldHash < 8 \<or> length (tl_SchemaHash t) < 8 then Panics else Returns True)
          else drift_scan existing ts)"

definition detectSchemaDrift :: "rec_env \<Rightarrow> string \<Rightarrow> Tool list \<Rightarrow> registry_db \<Rightarrow> bool run" where
  "detectSchemaDrift env serverName newTools db =
     (case sr_ListTools (re_fault env RListTools serverName) serverName (Some True) db of
        Inl err \<Rightarrow> Returns False
      | Inr existing \<Rightarrow> drift_scan (rev (map (\<lambda>t. (tl_ToolName t, tl_SchemaHash t)) existing)) newTools)"

text \<open>The rows of the registry's \<open>ListTools\<close> as the gateway reads them when it builds the visible set.\<close>

definition listed_tools :: "db_fault \<Rightarrow> registry_db \<Rightarrow> registry_tool list result" where
  "listed_tools f db =
     (case sr_ListTools f [] None db of
        Inl err \<Rightarrow> Inl err
      | Inr ts \<Rightarrow> Inr (map (\<lambda>t. (tl_ServerName t, tl_ToolName t, tl_Enabled t)) ts))"

text \<open>\<open>persistAndReconcile\<close> once the drift is known: the new state and the error it returns.\<close>

definition persist_tools :: "rec_env \<Rightarrow> string \<Rightarrow> tool_info list \<Rightarrow> bool \<Rightarrow> rec_world \<Rightarrow> rec_world \<times> error option" where
  "persist_tools env name tools schemaDrift w =
     (case sr_ReplaceDiscoveredTools (re_fault env RReplace name) (re_now env) name (toRegistryTools env name tools) (rw_db w) of
        (db1, Inl err) \<Rightarrow> (w\<lparr>rw_db := db1\<rparr>, Some (ErrMsg (''persisting tools: '' @ error_string err)))
      | (db1, Inr _) \<Rightarrow>
          let db2 = fst (sr_UpdateServerHealth (re_fault env RDiscoveredAt name) (re_now env) name ''active'' [] (Some (re_now env)) db1);
              w2 = w\<lparr>rw_db := db2\<rparr>
          in case ReconcileServer (listed_tools (re_fault env RVisible name) db2) name tools (rw_gw w2) of
               (g1, Inl err) \<Rightarrow> (w2\<lparr>rw_gw := g1\<rparr>, Some (ErrMsg (''gateway reconcile: '' @ error_string err)))
             | (g1, Inr _) \<Rightarrow>
                 let w3 = w2\<lparr>rw_gw := g1\<rparr>
                 in (if schemaDrift then logAudit env ''schema_drift'' name None w3 else w3, None))"

definition persistAndReconcile ::
    "rec_env \<Rightarrow> string \<Rightarrow> tool_info list \<Rightarrow> rec_world \<Rightarrow> (rec_world \<times> bool \<times> error option) run" where
  "persistAndReconcile env name tools w =
     (case detectSchemaDrift env name (toRegistryTools env name tools) (rw_db w) of
        Returns schemaDrift \<Rightarrow>
          (case persist_tools env name tools schemaDrift w of (w1, err) \<Rightarrow> Returns (w1, schemaDrift, err))
      | Blocks \<Rightarrow> Blocks
      | Panics \<Rightarrow> Panics)"

definition discover_and_persist :: "rec_env \<Rightarrow> string \<Rightarrow> rec_world \<Rightarrow> rec_world run" where
  "discover_and_persist env name w =
     (case DiscoverTools (re_dialer env name) name (rw_pool w) of
        Returns (p1, Inl err) \<Rightarrow> Returns (writeHealth env name ConnFailed (Some err) False (w\<lparr>rw_pool := p1\<rparr>))
      | Returns (p1, Inr tools) \<Rightarrow>
          (case persistAndReconcile env name tools (w\<lparr>rw_pool := p1\<rparr>) of
             Returns (w1, schemaDrift, Some err) \<Rightarrow> Returns (writeHealth env name ConnFailed (Some err) schemaDrift w1)
           | Returns (w1, schemaDrift, None) \<Rightarrow> Returns (writeHealth env name ConnReady None schemaDrift w1)
           | Blocks \<Rightarrow> Blocks
           | Panics \<Rightarrow> Panics)
      | Blocks \<Rightarrow> Blocks
      | Panics \<Rightarrow> Panics)"

definition reconnect :: "rec_env \<Rightarrow> string \<Rightarrow> Server \<Rightarrow> rec_world \<Rightarrow> rec_world" where
  "reconnect env name srv w =
     (let w1 = w\<lparr>rw_gw := UnregisterServer name (rw_gw w),
                 rw_pool := AddServer name (serverToConfigEntry env srv) (DisconnectServer name (rw_pool w))\<rparr>;
          w2 = logAudit env ''config_drift'' name None w1
      in writeHealth env name ConnIdle None False w2)"

definition reconcileEntry :: "rec_env \<Rightarrow> MCPServerEntry ServerInfo \<Rightarrow> Server \<Rightarrow> rec_world \<Rightarrow> rec_world run" where
  "reconcileEntry env info srv w =
     (let name = si_Name info
      in case si_State info of
           ConnReady \<Rightarrow> if configDrifted env info srv then Returns (reconnect env name srv w) else discover_and_persist env name w
         | ConnIdle \<Rightarrow> discover_and_persist env name w
         | ConnFailed \<Rightarrow> discover_and_persist env name w
         | ConnConnecting \<Rightarrow> Returns (writeHealth env name ConnConnecting None False w))"

subsection \<open>All servers\<close>

definition rec_add :: "rec_env \<Rightarrow> Server \<Rightarrow> rec_world \<Rightarrow> rec_world" where
  "rec_add env srv w =
     logAudit env ''server_added'' (sv_Name srv) None
       (w\<lparr>rw_pool := AddServer (sv_Name srv) (serverToConfigEntry env srv) (rw_pool w)\<rparr>)"

definition rec_remove :: "rec_env \<Rightarrow> string \<Rightarrow> rec_world \<Rightarrow> rec_world" where
  "rec_remove env name w =
     logAudit env ''server_removed'' name None
       (w\<lparr>rw_gw := UnregisterServer name (rw_gw w), rw_pool := DisconnectServer name (rw_pool w)\<rparr>)"

fun each_run :: "('x \<Rightarrow> 'w \<Rightarrow> 'w run) \<Rightarrow> 'x list \<Rightarrow> 'w \<Rightarrow> 'w run" where
  "each_run f [] w = Returns w"
| "each_run f (x # xs) w = (case f x w of Returns w1 \<Rightarrow> each_run f xs w1 | Blocks \<Rightarrow> Blocks | Panics \<Rightarrow> Panics)"

definition find_server :: "Server list \<Rightarrow> string \<Rightarrow> Server option" where
  "find_server desired name = map_of (rev (map (\<lambda>s. (sv_Name s, s)) desired)) name"

definition reconcile_known :: "rec_env \<Rightarrow> Server list \<Rightarrow> MCPServerEntry ServerInfo \<Rightarrow> rec_world \<Rightarrow> rec_world run" where
  "reconcile_known env desired info w =
     (case find_server desired (si_Name info) of
        None \<Rightarrow> Returns w
      | Some srv \<Rightarrow> reconcileEntry env info srv w)"

definition add_missing :: "rec_env \<Rightarrow> Server list \<Rightarrow> rec_world \<Rightarrow> rec_world" where
  "add_missing env desired w =
     fold (rec_add env) (filter (\<lambda>s. sv_Name s \<notin> si_Name ` set (KnownServers (rw_pool w))) desired) w"

definition remove_extra :: "rec_env \<Rightarrow> Server list \<Rightarrow> string list \<Rightarrow> rec_world \<Rightarrow> rec_world" where
  "remove_extra env desired actual w = fold (rec_remove env) (filter (\<lambda>n. n \<notin> sv_Name ` set desired) actual) w"

definition reconcileAll :: "rec_env \<Rightarrow> rec_world \<Rightarrow> rec_world run" where
  "reconcileAll env w =
     (case sr_ListServers (re_fault env RListServers []) None (Some True) (rw_db w) of
        Inl err \<Rightarrow> Returns w
      | Inr desired \<Rightarrow>
          let actual = map si_Name (KnownServers (rw_pool w));
              w1 = remove_extra env desired actual (add_missing env desired w)
          in each_run (reconcile_known env desired) (KnownServers (rw_pool w1)) w1)"

definition reconcileServer :: "rec_env \<Rightarrow> string \<Rightarrow> rec_world \<Rightarrow> rec_world run" where
  "reconcileServer env name w =
     (case sr_GetServer (re_fault env RGetServer name) name (rw_db w) of
        Inl err \<Rightarrow> Returns w
      | Inr None \<Rightarrow> Returns w
      | Inr (Some srv) \<Rightarrow>
          if \<not> sv_ProxyEnabled srv then Returns w
          else (case find (\<lambda>info. si_Name info = name) (KnownServers (rw_pool w)) of
                  Some info \<Rightarrow> reconcileEntry env info srv w
                | None \<Rightarrow> Returns (logAudit env ''server_added'' name None
                            (w\<lparr>rw_pool := AddServer name (serverToConfigEntry env srv) (rw_pool w)\<rparr>))))"

subsection \<open>The loop\<close>

text \<open>\<open>rc_trigger\<close> is the buffered channel; \<open>rc_ready\<close> whether the ready channel is closed.\<close>

record reconciler =
  rc_interval :: int
  rc_discoveryTimeout :: int
  rc_trigger :: "string list"
  rc_ready :: bool
  rc_world :: rec_world

definition trigger_cap :: nat where "trigger_cap = 16"

definition NewReconciler :: "int \<Rightarrow> rec_world \<Rightarrow> reconciler" where
  "NewReconciler interval w =
     \<lparr>rc_interval = (if interval \<le> 0 then 60 * second_ns else interval), rc_discoveryTimeout = 60 * second_ns,
      rc_trigger = [], rc_ready = False, rc_world = w\<rparr>"

definition Trigger :: "string \<Rightarrow> reconciler \<Rightarrow> reconciler" where
  "Trigger server r = (if length (rc_trigger r) < trigger_cap then r\<lparr>rc_trigger := rc_trigger r @ [server]\<rparr> else r)"

text \<open>One turn of the loop: the first pass, a tick, or the next request of the channel.\<close>

definition loop_pass :: "rec_env \<Rightarrow> reconciler \<Rightarrow> reconciler run" where
  "loop_pass env r =
     (case reconcileAll env (rc_world r) of
        Returns w \<Rightarrow> Returns (r\<lparr>rc_world := w, rc_ready := True\<rparr>)
      | Blocks \<Rightarrow> Blocks
      | Panics \<Rightarrow> Panics)"

definition loop_request :: "rec_env \<Rightarrow> reconciler \<Rightarrow> reconciler run" where
  "loop_request env r =
     (case rc_trigger r of
        [] \<Rightarrow> Blocks
      | server # rest \<Rightarrow>
          (case (if server \<noteq> [] then reconcileServer env server (rc_world r) else reconcileAll env (rc_world r)) of
             Returns w \<Rightarrow> Returns (r\<lparr>rc_world := w, rc_trigger := rest\<rparr>)
           | Blocks \<Rightarrow> Blocks
           | Panics \<Rightarrow> Panics))"

end
