(* ===== verification/ReconcilerProperties.thy ===== *)
theory ReconcilerProperties
  imports Reconciler
begin

text \<open>
  What the reconciler achieves over the registry, the pool and the gateway: every pass ends, keeps
  the invariants of the three components, makes the pool hold exactly the servers that are to be
  proxied and the gateway offer tools of those only, and a server recorded as healthy has the same
  tools in the pool, the registry and the gateway.
\<close>

subsection \<open>The pool as the reconciler sees it\<close>

text \<open>
  The names and configurations of a pool, what adding and removing promise, and the consequence
  the reconciler needs: adding what is missing and removing what is too much gives the wanted names.
\<close>

locale server_pool =
  fixes names :: "'p \<Rightarrow> string set"
    and cfg :: "'p \<Rightarrow> string \<Rightarrow> 'c option"
    and add :: "string \<Rightarrow> 'c \<Rightarrow> 'p \<Rightarrow> 'p"
    and remove :: "string \<Rightarrow> 'p \<Rightarrow> 'p"
  assumes names_add: "names (add n c p) = insert n (names p)"
    and cfg_add: "cfg (add n c p) m = (if m = n then Some c else cfg p m)"
    and names_remove: "names (remove n p) = names p - {n}"
    and cfg_remove: "m \<noteq> n \<Longrightarrow> cfg (remove n p) m = cfg p m"
begin

lemma names_adds: "names (fold (\<lambda>x. add (k x) (c x)) xs p) = names p \<union> k ` set xs"
  by (induction xs arbitrary: p) (auto simp: names_add)

lemma names_removes: "names (fold remove ns p) = names p - set ns"
  by (induction ns arbitrary: p) (auto simp: names_remove)

lemma cfg_adds: "m \<notin> k ` set xs \<Longrightarrow> cfg (fold (\<lambda>x. add (k x) (c x)) xs p) m = cfg p m"
  by (induction xs arbitrary: p) (auto simp: cfg_add)

lemma cfg_removes: "m \<notin> set ns \<Longrightarrow> cfg (fold remove ns p) m = cfg p m"
  by (induction ns arbitrary: p) (auto simp: cfg_remove)

lemma names_synced:
  assumes "set actual = names p"
  shows "names (fold remove (filter (\<lambda>n. n \<notin> k ` set desired) actual)
      (fold (\<lambda>x. add (k x) (c x)) (filter (\<lambda>x. k x \<notin> names p) desired) p)) = k ` set desired"
  using assms by (auto simp: names_adds names_removes)

lemma names_readd: "n \<in> names p \<Longrightarrow> names (add n c (remove n p)) = names p"
  by (auto simp: names_add names_remove)

end

definition pool_names :: "'c pool \<Rightarrow> string set" where
  "pool_names p = fst ` set (pl_servers p)"

definition pool_cfg :: "'c pool \<Rightarrow> string \<Rightarrow> 'c option" where
  "pool_cfg p = map_of (pl_config p)"

lemma pool_names_dom: "pool_names p = dom (map_of (pl_servers p))"
  by (simp add: pool_names_def dom_map_of_conv_image_fst)

lemma pool_cfg_Disconnect: "m \<noteq> n \<Longrightarrow> pool_cfg (DisconnectServer n p) m = pool_cfg p m"
  by (auto simp: pool_cfg_def DisconnectServer_def Let_def pool_frame split: option.splits)

interpretation conns: server_pool pool_names pool_cfg AddServer DisconnectServer
proof
  show "pool_names (AddServer n c p) = insert n (pool_names p)" for n and c :: 'a and p
    by (auto simp: pool_names_dom AddServer_frame(5) split: option.splits)
  show "pool_cfg (AddServer n c p) m = (if m = n then Some c else pool_cfg p m)" for n and c :: 'a and p m
    by (simp add: pool_cfg_def AddServer_frame(1) update_conv')
  show "pool_names (DisconnectServer n p) = pool_names p - {n}" for n and p :: "'a pool"
    by (auto simp: pool_names_dom DisconnectServer_frame(3) split: if_splits)
  show "m \<noteq> n \<Longrightarrow> pool_cfg (DisconnectServer n p) m = pool_cfg p m" for m n and p :: "'a pool"
    by (rule pool_cfg_Disconnect)
qed

lemma names_KnownServers: "si_Name ` set (KnownServers p) = pool_names p"
  by (force simp: KnownServers_def pool_names_def server_info_def)

lemma getOrConnect_names:
  assumes "getOrConnect d name p = Returns (p', r)" "name \<in> pool_names p"
  shows "map_of (pl_servers p') = map_of (pl_servers p)" "pl_config p' = pl_config p"
    "b < length (pl_heap p) \<Longrightarrow> map_of (pl_servers p) name \<noteq> Some b \<Longrightarrow> pl_heap p' ! b = pl_heap p ! b"
proof -
  obtain a where a: "map_of (pl_servers p) name = Some a" using assms(2) by (auto simp: pool_names_dom)
  have g: "getEntry name p = (p, a)" using a by (simp add: getEntry_def)
  have c: "pl_servers (fst (connect_as_owner d name cfg a p)) = pl_servers p \<and>
      pl_config (fst (connect_as_owner d name cfg a p)) = pl_config p \<and>
      (b \<noteq> a \<longrightarrow> pl_heap (fst (connect_as_owner d name cfg a p)) ! b = pl_heap p ! b)" for cfg
    by (auto simp: connect_as_owner_def Let_def pool_frame connect_finish_def connect_install_def heap_upd_entry
        drop_client_heap take_ownership_def split: sum.splits)
  have "p' = p \<or> (\<exists>cfg. p' = fst (connect_as_owner d name cfg a p))"
    using assms(1) g by (auto simp: getOrConnect_def split: option.splits ConnState.splits) (metis fst_conv)+
  then show "map_of (pl_servers p') = map_of (pl_servers p)" "pl_config p' = pl_config p"
    "b < length (pl_heap p) \<Longrightarrow> map_of (pl_servers p) name \<noteq> Some b \<Longrightarrow> pl_heap p' ! b = pl_heap p ! b"
    using c a by auto
qed

subsection \<open>What the reconciler writes to the registry\<close>

text \<open>It never touches the name, the configuration or the proxy switch of a server.\<close>

abbreviation server_key :: "Server \<Rightarrow> string \<times> string option \<times> bool" where
  "server_key r \<equiv> (sv_Name r, sv_ConnectionConfig r, sv_ProxyEnabled r)"

definition server_keys :: "registry_db \<Rightarrow> (string \<times> string option \<times> bool) list" where
  "server_keys db = map server_key (rg_servers db)"

named_theorems rec_frame

lemma health_frame [rec_frame]:
  "server_keys (fst (sr_UpdateServerHealth f now name st msg disc db)) = server_keys db"
  "rg_tools (fst (sr_UpdateServerHealth f now name st msg disc db)) = rg_tools db"
  by (auto simp: server_keys_def sr_UpdateServerHealth_def Let_def split: option.splits intro: map_update_rows)

lemma audit_frame [rec_frame]:
  "server_keys (fst (sr_LogAudit f now e db)) = server_keys db" "rg_tools (fst (sr_LogAudit f now e db)) = rg_tools db"
  "rg_servers (fst (sr_LogAudit f now e db)) = rg_servers db"
  by (auto simp: server_keys_def sr_LogAudit_def Let_def split: option.splits)

lemma replace_frame [rec_frame]:
  "server_keys (fst (sr_ReplaceDiscoveredTools f now n ts db)) = server_keys db"
  "rg_servers (fst (sr_ReplaceDiscoveredTools f now n ts db)) = rg_servers db"
  by (auto simp: server_keys_def sr_ReplaceDiscoveredTools_def Let_def split: option.splits)

lemma logAudit_frame [rec_frame]:
  "rw_pool (logAudit env a n d w) = rw_pool w" "rw_gw (logAudit env a n d w) = rw_gw w"
  "server_keys (rw_db (logAudit env a n d w)) = server_keys (rw_db w)"
  "rg_tools (rw_db (logAudit env a n d w)) = rg_tools (rw_db w)"
  "rg_servers (rw_db (logAudit env a n d w)) = rg_servers (rw_db w)"
  "registry_ok (rw_db w) \<Longrightarrow> registry_ok (rw_db (logAudit env a n d w))"
  by (simp_all add: logAudit_def rec_frame LogAudit_ok)

lemma writeHealth_cases:
  obtains w1 where "w1 = w \<or> (\<exists>d. w1 = logAudit env ''health_change'' n d w)"
    "writeHealth env n s e d w = w1\<lparr>rw_db := fst (sr_UpdateServerHealth (re_fault env RHealth n) (re_now env) n
       (fst (health_of s e d)) (snd (health_of s e d)) None (rw_db w1))\<rparr>"
proof
  let ?w1 = "case sr_GetServer (re_fault env RGetServer n) n (rw_db w) of
      Inr (Some srv) \<Rightarrow> if sv_Status srv \<noteq> fst (health_of s e d)
        then logAudit env ''health_change'' n (Some (health_detail (sv_Status srv) (fst (health_of s e d)))) w else w
    | _ \<Rightarrow> w"
  show "?w1 = w \<or> (\<exists>d. ?w1 = logAudit env ''health_change'' n d w)" by (auto split: sum.splits option.splits)
  show "writeHealth env n s e d w = ?w1\<lparr>rw_db := fst (sr_UpdateServerHealth (re_fault env RHealth n) (re_now env) n
       (fst (health_of s e d)) (snd (health_of s e d)) None (rw_db ?w1))\<rparr>"
    unfolding writeHealth_def Let_def by (simp only: split_beta)
qed

lemma writeHealth_frame [rec_frame]:
  "rw_pool (writeHealth env n s e d w) = rw_pool w" "rw_gw (writeHealth env n s e d w) = rw_gw w"
  "server_keys (rw_db (writeHealth env n s e d w)) = server_keys (rw_db w)"
  "rg_tools (rw_db (writeHealth env n s e d w)) = rg_tools (rw_db w)"
  "registry_ok (rw_db w) \<Longrightarrow> registry_ok (rw_db (writeHealth env n s e d w))"
proof -
  obtain w1 where w1: "w1 = w \<or> (\<exists>d. w1 = logAudit env ''health_change'' n d w)"
    "writeHealth env n s e d w = w1\<lparr>rw_db := fst (sr_UpdateServerHealth (re_fault env RHealth n) (re_now env) n
       (fst (health_of s e d)) (snd (health_of s e d)) None (rw_db w1))\<rparr>"
    by (rule writeHealth_cases)
  have k: "rw_pool w1 = rw_pool w" "rw_gw w1 = rw_gw w" "server_keys (rw_db w1) = server_keys (rw_db w)"
    "rg_tools (rw_db w1) = rg_tools (rw_db w)" "registry_ok (rw_db w) \<Longrightarrow> registry_ok (rw_db w1)"
    using w1(1) logAudit_frame by auto
  show "rw_pool (writeHealth env n s e d w) = rw_pool w" "rw_gw (writeHealth env n s e d w) = rw_gw w"
    "server_keys (rw_db (writeHealth env n s e d w)) = server_keys (rw_db w)"
    "rg_tools (rw_db (writeHealth env n s e d w)) = rg_tools (rw_db w)"
    by (simp_all add: w1(2) k health_frame)
  show "registry_ok (rw_db w) \<Longrightarrow> registry_ok (rw_db (writeHealth env n s e d w))"
    by (simp add: w1(2) k(5) UpdateServerHealth_ok)
qed

definition hash_ok :: "Tool \<Rightarrow> bool" where
  "hash_ok t \<longleftrightarrow> tl_SchemaHash t = [] \<or> 8 \<le> length (tl_SchemaHash t)"

definition hashes_ok :: "registry_db \<Rightarrow> bool" where
  "hashes_ok db \<longleftrightarrow> list_all hash_ok (rg_tools db)"

lemma upsert_tool_hashes:
  assumes "list_all hash_ok rows" "hash_ok t"
  shows "list_all hash_ok (upsert_tool now server t rows)"
proof -
  have "list_all hash_ok (update_rows p u rows)" if "\<And>r. hash_ok (u r)" for p u
    using assms(1) that by (induction rows) (simp_all add: update_rows_Nil update_rows_Cons)
  with assms show ?thesis by (simp add: upsert_tool_def Let_def hash_ok_def)
qed

lemma fold_upsert_hashes:
  "list_all hash_ok rows \<Longrightarrow> list_all hash_ok ts \<Longrightarrow> list_all hash_ok (fold (upsert_tool now server) ts rows)"
  by (induction ts arbitrary: rows) (simp_all add: upsert_tool_hashes)

lemma Replace_hashes:
  assumes "hashes_ok db" "list_all hash_ok ts"
  shows "hashes_ok (fst (sr_ReplaceDiscoveredTools f now server ts db))"
proof -
  have "list_all hash_ok (filter q (fold (upsert_tool now server) ts (rg_tools db)))" for q
    using fold_upsert_hashes [OF assms(1) [unfolded hashes_ok_def] assms(2), of now server] by (simp add: list_all_iff)
  moreover have "list_all hash_ok (filter q (rg_tools db))" for q using assms(1) by (simp add: hashes_ok_def list_all_iff)
  ultimately show ?thesis
    using assms(1) by (simp add: hashes_ok_def sr_ReplaceDiscoveredTools_def Let_def split: option.split)
qed

text \<open>
  What the program relies on outside itself: a digest is at least eight characters long (it has
  64), and the JSON text of a schema is not empty.
\<close>

definition schemas_ok :: "'c pool \<Rightarrow> bool" where
  "schemas_ok p \<longleftrightarrow> (\<forall>e\<in>set (pl_heap p). \<forall>x\<in>set (en_tools e). mt_InputSchema (snd x) \<noteq> [])"

definition env_ok :: "rec_env \<Rightarrow> bool" where
  "env_ok env \<longleftrightarrow> (\<forall>s. 8 \<le> length (re_sha env s)) \<and>
     (\<forall>n c tools. dl_dial (re_dialer env n) c = Dialled tools \<longrightarrow> (\<forall>t\<in>set tools. mt_InputSchema t \<noteq> []))"

definition rec_ok :: "rec_world \<Rightarrow> bool" where
  "rec_ok w \<longleftrightarrow> registry_ok (rw_db w) \<and> hashes_ok (rw_db w) \<and> pool_quiet (rw_pool w) \<and> schemas_ok (rw_pool w) \<and>
     catalog_ok (rw_gw w) \<and> (\<forall>n e. map_of (gw_catalog (rw_gw w)) n = Some e \<longrightarrow> ce_ServerName e \<in> pool_names (rw_pool w))"

lemma rec_okD:
  assumes "rec_ok w"
  shows "registry_ok (rw_db w)" "hashes_ok (rw_db w)" "pool_quiet (rw_pool w)" "schemas_ok (rw_pool w)" "catalog_ok (rw_gw w)"
    "map_of (gw_catalog (rw_gw w)) n = Some e \<Longrightarrow> ce_ServerName e \<in> pool_names (rw_pool w)"
  using assms by (auto simp: rec_ok_def)

lemma rec_ok_cong:
  assumes "rec_ok w" "rw_pool w' = rw_pool w" "rw_gw w' = rw_gw w" "rg_tools (rw_db w') = rg_tools (rw_db w)"
    "registry_ok (rw_db w) \<Longrightarrow> registry_ok (rw_db w')"
  shows "rec_ok w'"
  using assms by (simp add: rec_ok_def hashes_ok_def)

lemma logAudit_rec_ok: "rec_ok w \<Longrightarrow> rec_ok (logAudit env a n d w)"
  by (rule rec_ok_cong [of w]) (simp_all add: rec_frame)

lemma writeHealth_rec_ok: "rec_ok w \<Longrightarrow> rec_ok (writeHealth env n s e d w)"
  by (rule rec_ok_cong [of w]) (simp_all add: rec_frame)

subsection \<open>Schemas and drift\<close>

lemma indexTools_mem: "x \<in> set (indexTools ts) \<Longrightarrow> snd x \<in> set ts"
proof -
  have "set (fold (\<lambda>t. AList.update (mt_Name t) t) ts acc) \<subseteq> set acc \<union> (\<lambda>t. (mt_Name t, t)) ` set ts" for acc
  proof (induction ts arbitrary: acc)
    case (Cons t ts)
    show ?case using Cons [of "AList.update (mt_Name t) t acc"] set_update_subset [of "mt_Name t" t acc] by fastforce
  qed simp
  from this [of "[]"] show "x \<in> set (indexTools ts) \<Longrightarrow> snd x \<in> set ts" by (auto simp: indexTools_def)
qed

lemma schemas_upd:
  assumes "schemas_ok p" "\<And>x. x \<in> set (en_tools (h (pl_heap p ! a))) \<Longrightarrow> mt_InputSchema (snd x) \<noteq> []"
  shows "schemas_ok (upd_entry a h p)"
proof -
  have "set (pl_heap (upd_entry a h p)) \<subseteq> insert (h (pl_heap p ! a)) (set (pl_heap p))"
    by (simp add: upd_entry_def set_update_subset_insert)
  with assms show ?thesis unfolding schemas_ok_def by blast
qed

lemma schemas_same: "pl_heap p' = pl_heap p \<Longrightarrow> schemas_ok p' = schemas_ok p"
  by (simp add: schemas_ok_def)

lemma schemas_upd_same:
  assumes "schemas_ok p" "\<And>e. en_tools (h e) = en_tools e" "a < length (pl_heap p)"
  shows "schemas_ok (upd_entry a h p)"
  by (rule schemas_upd [OF assms(1)]) (use assms nth_mem [OF assms(3)] in \<open>auto simp: schemas_ok_def\<close>)

lemma schemas_drop: "schemas_ok p \<Longrightarrow> a < length (pl_heap p) \<Longrightarrow> schemas_ok (drop_client a p)"
  using schemas_upd_same [of "p\<lparr>pl_open := l\<rparr>" "\<lambda>e. e\<lparr>en_client := None\<rparr>" a for l]
  by (auto simp: drop_client_def schemas_ok_def split: option.splits)

lemma schemas_AddServer: "schemas_ok p \<Longrightarrow> schemas_ok (AddServer name c p)"
  by (auto simp: AddServer_def Let_def schemas_ok_def newServerEntry_def split: option.splits)

lemma schemas_DisconnectServer:
  assumes "pool_quiet p" "schemas_ok p"
  shows "schemas_ok (DisconnectServer name p)"
proof (cases "map_of (pl_servers p) name")
  case (Some a)
  let ?p1 = "p\<lparr>pl_servers := AList.delete name (pl_servers p), pl_config := AList.delete name (pl_config p)\<rparr>"
  have a: "a < length (pl_heap p)" by (rule map_of_addrs_ok [OF quietD(1) [OF assms(1)] Some])
  have "schemas_ok (drop_client a ?p1)" by (rule schemas_drop) (use assms(2) a in \<open>simp_all add: schemas_ok_def\<close>)
  then show ?thesis by (simp add: DisconnectServer_def Some schemas_upd_same pool_frame a)
qed (simp add: DisconnectServer_def assms)

lemma schemas_connect:
  assumes "schemas_ok p" "a < length (pl_heap p)" "\<And>tools. dl_dial d cfg = Dialled tools \<Longrightarrow> \<forall>t\<in>set tools. mt_InputSchema t \<noteq> []"
  shows "schemas_ok (fst (connect_as_owner d name cfg a p))"
proof -
  have drop: "schemas_ok (drop_client a p)" by (rule schemas_drop [OF assms(1,2)])
  have a: "a < length (pl_heap (drop_client a p))" using assms(2) by (simp add: pool_frame)
  have fail: "schemas_ok (upd_entry a (\<lambda>e. e\<lparr>en_state := ConnFailed, en_lastErr := Some err\<rparr>) (drop_client a p))" for err
    by (rule schemas_upd_same [OF drop _ a]) simp
  have ok: "schemas_ok (connect_finish a None (connect_install a now tools (drop_client a p)))"
    if "dl_dial d cfg = Dialled tools" for now tools
  proof -
    have "schemas_ok (connect_install a now tools (drop_client a p))" unfolding connect_install_def
      by (rule schemas_upd) (use drop assms(3) [OF that] indexTools_mem in \<open>auto simp: schemas_ok_def\<close>)
    then show ?thesis unfolding connect_finish_def option.case
      by (rule schemas_upd_same) (use a in \<open>simp_all add: pool_frame\<close>)
  qed
  have "connect_result name (dl_dial d cfg) = Inr tools \<Longrightarrow> dl_dial d cfg = Dialled tools" for tools
    by (cases "dl_dial d cfg") auto
  then show ?thesis using fail ok
    by (auto simp: connect_as_owner_eq [OF assms(2)] schemas_same [OF emitEvent_frame(3)] split: sum.splits)
qed

lemma discover_ok:
  assumes "env_ok env" "pool_quiet p" "schemas_ok p" "name \<in> pool_names p"
  obtains p' r where "DiscoverTools (re_dialer env name) name p = Returns (p', r)" "pool_quiet p'" "schemas_ok p'"
    "map_of (pl_servers p') = map_of (pl_servers p)" "pl_config p' = pl_config p"
    "\<And>tools t. r = Inr tools \<Longrightarrow> t \<in> set tools \<Longrightarrow> ti_InputSchema t \<noteq> []"
proof -
  obtain p' r where g: "getOrConnect (re_dialer env name) name p = Returns (p', r)" "pool_quiet p'"
    "\<And>a. r = Inr a \<Longrightarrow> a < length (pl_heap p')"
    using quiet_getOrConnect [OF assms(2)] by blast
  obtain a where a: "map_of (pl_servers p) name = Some a" using assms(4) by (auto simp: pool_names_dom)
  have al: "a < length (pl_heap p)" by (rule map_of_addrs_ok [OF quietD(1) [OF assms(2)] a])
  have con: "schemas_ok (fst (connect_as_owner (re_dialer env name) name cfg a p))" for cfg
    by (rule schemas_connect [OF assms(3) al]) (use assms(1) in \<open>simp add: env_ok_def\<close>)
  have "p' = p \<or> (\<exists>cfg. p' = fst (connect_as_owner (re_dialer env name) name cfg a p))"
    using g(1) a by (auto simp: getOrConnect_def getEntry_def split: option.splits ConnState.splits) (metis fst_conv)+
  then have s: "schemas_ok p'" using con assms(3) by auto
  have infos: "t \<in> set (tool_infos (pl_heap p' ! b)) \<Longrightarrow> ti_InputSchema t \<noteq> []" if "b < length (pl_heap p')" for t b
    using s nth_mem [OF that] by (force simp: schemas_ok_def tool_infos_def)
  show ?thesis
  proof (cases r)
    case (Inl e)
    then show ?thesis using that [of p' "Inl (connecting_err name e)"] g s getOrConnect_names [OF g(1) assms(4)]
      by (simp add: DiscoverTools_def)
  next
    case (Inr b)
    then show ?thesis using that [of p' "Inr (tool_infos (pl_heap p' ! b))"] g s getOrConnect_names [OF g(1) assms(4)] infos
      by (simp add: DiscoverTools_def)
  qed
qed

lemma drift_scan_returns:
  "(\<forall>x\<in>set ex. snd x = [] \<or> 8 \<le> length (snd x)) \<Longrightarrow> (\<forall>t\<in>set ts. 8 \<le> length (tl_SchemaHash t)) \<Longrightarrow> \<exists>b. drift_scan ex ts = Returns b"
proof (induction ts)
  case (Cons t ts)
  then show ?case by (fastforce split: option.splits dest: map_of_SomeD)
qed auto

lemma new_hashes:
  assumes "env_ok env" "\<And>t. t \<in> set tools \<Longrightarrow> ti_InputSchema t \<noteq> []" "t \<in> set (toRegistryTools env name tools)"
  shows "8 \<le> length (tl_SchemaHash t)"
  using assms by (auto simp: toRegistryTools_def schemaHash_def env_ok_def)

lemma detectSchemaDrift_returns:
  assumes "env_ok env" "hashes_ok db" "\<And>t. t \<in> set tools \<Longrightarrow> ti_InputSchema t \<noteq> []"
  shows "\<exists>b. detectSchemaDrift env name (toRegistryTools env name tools) db = Returns b"
proof (cases "sr_ListTools (re_fault env RListTools name) name (Some True) db")
  case (Inr existing)
  then have "set existing \<subseteq> set (rg_tools db)" by (auto simp: sr_ListTools_def split: option.splits)
  with assms(2) have "\<forall>x\<in>set (rev (map (\<lambda>t. (tl_ToolName t, tl_SchemaHash t)) existing)). snd x = [] \<or> 8 \<le> length (snd x)"
    by (auto simp: hashes_ok_def hash_ok_def list_all_iff)
  from drift_scan_returns [OF this, of "toRegistryTools env name tools"] new_hashes [OF assms(1,3)] Inr show ?thesis
    by (simp add: detectSchemaDrift_def)
qed (auto simp: detectSchemaDrift_def)

subsection \<open>Every pass ends and keeps the invariants\<close>

lemma catalog_ok_filter:
  assumes "catalog_ok g" "gw_catalog g' = filter (\<lambda>(n, e). P n e) (gw_catalog g)"
  shows "catalog_ok g'"
  using assms distinct_fst_filter [of "gw_catalog g"] map_of_filter_pred [of "gw_catalog g" P]
  by (auto simp: catalog_ok_def split: option.splits if_splits)

lemma catalog_ok_UnregisterServer: "catalog_ok g \<Longrightarrow> catalog_ok (UnregisterServer name g)"
  by (erule catalog_ok_filter) (simp add: UnregisterServer_def Let_def)

lemma catalog_ok_build: "catalog_ok g \<Longrightarrow> catalog_ok (BuildVisibleSet listed g)"
  by (simp add: catalog_ok_def)

lemma catalog_ok_ReconcileServer:
  assumes "catalog_ok g"
  shows "catalog_ok (fst (ReconcileServer listed name tools g))"
proof (cases "gw_mcpTools g")
  case None
  then show ?thesis using assms by (simp add: ReconcileServer_def)
next
  case (Some ns)
  let ?rm = "map fst (filter (\<lambda>(n, e). ce_ServerName e = name \<and> ce_OriginalName e \<notin> set (map ti_Name tools)) (gw_catalog g))"
  let ?g1 = "g\<lparr>gw_catalog := filter (\<lambda>(n, e). n \<notin> set ?rm) (gw_catalog g),
               gw_mcpTools := map_option (filter (\<lambda>n. n \<notin> set ?rm)) (gw_mcpTools g)\<rparr>"
  have "catalog_ok ?g1" by (rule catalog_ok_filter [OF assms, where P = "\<lambda>n e. n \<notin> set ?rm"]) simp
  then have "catalog_ok (fold (add_proxy name) tools ?g1)" by (rule catalog_ok_fold)
  then have "catalog_ok (BuildVisibleSet listed (fold (add_proxy name) tools ?g1))" by (rule catalog_ok_build)
  moreover have "fst (ReconcileServer listed name tools g) = BuildVisibleSet listed (fold (add_proxy name) tools ?g1)"
    using Some unfolding ReconcileServer_def Let_def by (simp only: option.distinct if_False fst_conv)
  ultimately show ?thesis by (simp only:)
qed

lemma ReconcileServer_servers:
  assumes "catalog_ok g" "map_of (gw_catalog (fst (ReconcileServer listed name tools g))) n = Some e"
  shows "ce_ServerName e = name \<or> map_of (gw_catalog g) n = Some e"
proof (cases "gw_mcpTools g = None")
  case False
  from assms(2) [unfolded ReconcileServer_catalog [OF assms(1) False]] show ?thesis
    by (auto simp: catalog_entry_def split: if_splits option.splits dest!: map_of_SomeD)
qed (use assms(2) in \<open>simp add: ReconcileServer_def\<close>)

lemma UnregisterServer_servers:
  assumes "catalog_ok g" "map_of (gw_catalog (UnregisterServer name g)) n = Some e"
  shows "ce_ServerName e \<noteq> name \<and> map_of (gw_catalog g) n = Some e"
  using assms(2) by (auto simp: map_of_UnregisterServer [OF assms(1)] split: option.splits if_splits)

lemma persist_tools_ok:
  assumes "rec_ok w" "env_ok env" "name \<in> pool_names (rw_pool w)" "\<And>t. t \<in> set tools \<Longrightarrow> ti_InputSchema t \<noteq> []"
    and "persist_tools env name tools b w = (w', err)"
  shows "rec_ok w'" "rw_pool w' = rw_pool w" "server_keys (rw_db w') = server_keys (rw_db w)"
proof -
  note D = rec_okD [OF assms(1)]
  let ?ts = "toRegistryTools env name tools"
  obtain db1 r1 where rep: "sr_ReplaceDiscoveredTools (re_fault env RReplace name) (re_now env) name ?ts (rw_db w) = (db1, r1)" by fastforce
  have ts: "list_all hash_ok ?ts" using new_hashes [OF assms(2,4)] by (auto simp: list_all_iff hash_ok_def)
  have db1: "registry_ok db1" "hashes_ok db1" "server_keys db1 = server_keys (rw_db w)"
    using ReplaceDiscoveredTools_ok [OF D(1), of "re_fault env RReplace name" "re_now env" name ?ts]
      Replace_hashes [OF D(2) ts, of "re_fault env RReplace name" "re_now env" name]
      replace_frame(1) [of "re_fault env RReplace name" "re_now env" name ?ts "rw_db w"] rep by simp_all
  define db2 where "db2 = fst (sr_UpdateServerHealth (re_fault env RDiscoveredAt name) (re_now env) name ''active'' [] (Some (re_now env)) db1)"
  have db2: "registry_ok db2" "hashes_ok db2" "server_keys db2 = server_keys (rw_db w)"
    using db1 by (simp_all add: db2_def UpdateServerHealth_ok hashes_ok_def health_frame)
  obtain g1 r2 where gw: "ReconcileServer (listed_tools (re_fault env RVisible name) db2) name tools (rw_gw w) = (g1, r2)" by fastforce
  have g1: "catalog_ok g1" "map_of (gw_catalog g1) n = Some e \<Longrightarrow> ce_ServerName e \<in> pool_names (rw_pool w)" for n e
    using catalog_ok_ReconcileServer [OF D(5)] ReconcileServer_servers [OF D(5)] gw D(6) assms(3) by (metis fst_conv)+
  have keep: "rec_ok (w\<lparr>rw_db := db1\<rparr>)" "rec_ok (w\<lparr>rw_db := db2, rw_gw := g1\<rparr>)"
    using assms(1) db1 db2 g1 by (simp_all add: rec_ok_def)
  have w': "w' = w\<lparr>rw_db := db1\<rparr> \<or> w' = w\<lparr>rw_db := db2, rw_gw := g1\<rparr> \<or> w' = logAudit env ''schema_drift'' name None (w\<lparr>rw_db := db2, rw_gw := g1\<rparr>)"
    using assms(5) by (cases r1; cases r2) (auto simp: persist_tools_def rep Let_def db2_def [symmetric] gw split: if_splits)
  then show "rec_ok w'" "rw_pool w' = rw_pool w" "server_keys (rw_db w') = server_keys (rw_db w)"
    using keep logAudit_rec_ok [OF keep(2)] db1(3) db2(3) by (auto simp: rec_frame)
qed

definition pass_keeps :: "rec_world \<Rightarrow> rec_world \<Rightarrow> bool" where
  "pass_keeps w w' \<longleftrightarrow> rec_ok w' \<and> pool_names (rw_pool w') = pool_names (rw_pool w) \<and> server_keys (rw_db w') = server_keys (rw_db w)"

lemma pass_keeps_trans: "pass_keeps w w' \<Longrightarrow> pass_keeps w' w'' \<Longrightarrow> pass_keeps w w''"
  by (simp add: pass_keeps_def)

lemma pass_keeps_health: "pass_keeps w w' \<Longrightarrow> pass_keeps w (writeHealth env n s e d w')"
  by (simp add: pass_keeps_def writeHealth_rec_ok rec_frame)

lemma rec_ok_pool:
  assumes "rec_ok w" "pool_quiet p" "schemas_ok p" "pool_names p = pool_names (rw_pool w)"
  shows "pass_keeps w (w\<lparr>rw_pool := p\<rparr>)"
  using assms by (simp add: pass_keeps_def rec_ok_def)

lemma discover_and_persist_ok:
  assumes "rec_ok w" "env_ok env" "name \<in> pool_names (rw_pool w)"
  shows "\<exists>w'. discover_and_persist env name w = Returns w' \<and> pass_keeps w w'"
proof -
  note D = rec_okD [OF assms(1)]
  obtain p1 r where d: "DiscoverTools (re_dialer env name) name (rw_pool w) = Returns (p1, r)" "pool_quiet p1" "schemas_ok p1"
    "map_of (pl_servers p1) = map_of (pl_servers (rw_pool w))" "pl_config p1 = pl_config (rw_pool w)"
    and sch: "\<And>tools t. r = Inr tools \<Longrightarrow> t \<in> set tools \<Longrightarrow> ti_InputSchema t \<noteq> []"
    using discover_ok [OF assms(2) D(3,4) assms(3)] by blast
  have p1: "pass_keeps w (w\<lparr>rw_pool := p1\<rparr>)" by (rule rec_ok_pool [OF assms(1) d(2,3)]) (simp add: pool_names_dom d(4))
  show ?thesis
  proof (cases r)
    case (Inl err)
    then show ?thesis using d(1) pass_keeps_health [OF p1] by (simp add: discover_and_persist_def)
  next
    case (Inr tools)
    obtain b where b: "detectSchemaDrift env name (toRegistryTools env name tools) (rw_db (w\<lparr>rw_pool := p1\<rparr>)) = Returns b"
      using detectSchemaDrift_returns [OF assms(2) D(2), of tools name] sch [OF Inr] by auto
    obtain w2 err where w2: "persist_tools env name tools b (w\<lparr>rw_pool := p1\<rparr>) = (w2, err)" by fastforce
    have ok1: "rec_ok (w\<lparr>rw_pool := p1\<rparr>)" "name \<in> pool_names (rw_pool (w\<lparr>rw_pool := p1\<rparr>))"
      using p1 assms(3) by (simp_all add: pass_keeps_def)
    have "pass_keeps (w\<lparr>rw_pool := p1\<rparr>) w2"
      using persist_tools_ok [OF ok1(1) assms(2) ok1(2) sch [OF Inr] w2] by (simp add: pass_keeps_def)
    with p1 have "pass_keeps w w2" by (rule pass_keeps_trans)
    then show ?thesis using d(1) Inr b w2 pass_keeps_health
      by (cases err) (auto simp: discover_and_persist_def persistAndReconcile_def)
  qed
qed

lemma reconnect_ok:
  assumes "rec_ok w" "name \<in> pool_names (rw_pool w)"
  shows "pass_keeps w (reconnect env name srv w)"
proof -
  note D = rec_okD [OF assms(1)]
  obtain a where a: "map_of (pl_servers (rw_pool w)) name = Some a" using assms(2) by (auto simp: pool_names_dom)
  let ?p = "AddServer name (serverToConfigEntry env srv) (DisconnectServer name (rw_pool w))"
  let ?g = "UnregisterServer name (rw_gw w)"
  have q: "pool_quiet ?p" by (intro quiet_AddServer quiet_DisconnectServer D(3))
  have n: "pool_names ?p = pool_names (rw_pool w)" by (rule conns.names_readd [OF assms(2)])
  have s: "schemas_ok ?p" by (intro schemas_AddServer schemas_DisconnectServer D)
  have "catalog_ok ?g" "map_of (gw_catalog ?g) k = Some e \<Longrightarrow> ce_ServerName e \<in> pool_names (rw_pool w)" for k e
    using catalog_ok_UnregisterServer [OF D(5)] UnregisterServer_servers [OF D(5)] D(6) by blast+
  then have "pass_keeps w (w\<lparr>rw_gw := ?g, rw_pool := ?p\<rparr>)" using D q n s by (simp add: pass_keeps_def rec_ok_def)
  then have "pass_keeps w (logAudit env ''config_drift'' name None (w\<lparr>rw_gw := ?g, rw_pool := ?p\<rparr>))"
    by (simp add: pass_keeps_def logAudit_rec_ok rec_frame)
  then show ?thesis unfolding reconnect_def Let_def by (rule pass_keeps_health)
qed

lemma reconcileEntry_ok:
  assumes "rec_ok w" "env_ok env" "si_Name info \<in> pool_names (rw_pool w)"
  shows "\<exists>w'. reconcileEntry env info srv w = Returns w' \<and> pass_keeps w w'"
proof (cases "si_State info")
  case ConnConnecting
  moreover have "pass_keeps w w" using assms(1) by (simp add: pass_keeps_def)
  ultimately show ?thesis by (simp add: reconcileEntry_def pass_keeps_health)
qed (use discover_and_persist_ok [OF assms] reconnect_ok [OF assms(1,3)] in \<open>simp_all add: reconcileEntry_def Let_def\<close>)

lemma reconcile_known_ok:
  assumes "rec_ok w" "env_ok env" "si_Name info \<in> pool_names (rw_pool w)"
  shows "\<exists>w'. reconcile_known env desired info w = Returns w' \<and> pass_keeps w w'"
  using reconcileEntry_ok [OF assms] assms(1) by (auto simp: reconcile_known_def pass_keeps_def split: option.splits)

lemma each_run_keeps:
  assumes "\<And>x w. x \<in> set xs \<Longrightarrow> P w \<Longrightarrow> \<exists>w'. f x w = Returns w' \<and> P w'" "P w"
  shows "\<exists>w'. each_run f xs w = Returns w' \<and> P w'"
  using assms
proof (induction xs arbitrary: w)
  case (Cons x xs)
  obtain w1 where "f x w = Returns w1" "P w1" using Cons.prems(1) [of x w] Cons.prems(2) by auto
  then show ?case using Cons.IH [of w1] Cons.prems(1) by auto
qed simp

lemma fold_rec_add:
  "rw_pool (fold (rec_add env) xs w) = fold (\<lambda>s. AddServer (sv_Name s) (serverToConfigEntry env s)) xs (rw_pool w)"
  "rw_gw (fold (rec_add env) xs w) = rw_gw w"
  "server_keys (rw_db (fold (rec_add env) xs w)) = server_keys (rw_db w)"
  by (induction xs arbitrary: w) (simp_all add: rec_add_def rec_frame)

lemma fold_rec_remove:
  "rw_pool (fold (rec_remove env) ns w) = fold DisconnectServer ns (rw_pool w)"
  "server_keys (rw_db (fold (rec_remove env) ns w)) = server_keys (rw_db w)"
  by (induction ns arbitrary: w) (simp_all add: rec_remove_def rec_frame)

lemma rec_add_ok: "rec_ok w \<Longrightarrow> rec_ok (rec_add env s w)"
proof -
  assume ok: "rec_ok w"
  let ?p = "AddServer (sv_Name s) (serverToConfigEntry env s) (rw_pool w)"
  have "rec_ok (w\<lparr>rw_pool := ?p\<rparr>)"
    using rec_okD [OF ok] by (auto simp: rec_ok_def quiet_AddServer schemas_AddServer conns.names_add)
  then show ?thesis unfolding rec_add_def by (rule logAudit_rec_ok)
qed

lemma rec_remove_ok: "rec_ok w \<Longrightarrow> rec_ok (rec_remove env n w)"
proof -
  assume ok: "rec_ok w"
  note D = rec_okD [OF ok]
  have "rec_ok (w\<lparr>rw_gw := UnregisterServer n (rw_gw w), rw_pool := DisconnectServer n (rw_pool w)\<rparr>)"
    using D(1-5) UnregisterServer_servers [OF D(5), of n] D(6)
    by (simp add: rec_ok_def quiet_DisconnectServer schemas_DisconnectServer conns.names_remove catalog_ok_UnregisterServer) blast
  then show ?thesis unfolding rec_remove_def by (rule logAudit_rec_ok)
qed

lemma fold_keeps: "(\<And>x w. P w \<Longrightarrow> P (f x w)) \<Longrightarrow> P w \<Longrightarrow> P (fold f xs w)"
  by (induction xs arbitrary: w) auto

text \<open>The state after the additions and removals of a full pass.\<close>

definition synced_world :: "rec_env \<Rightarrow> Server list \<Rightarrow> rec_world \<Rightarrow> rec_world" where
  "synced_world env desired w =
     remove_extra env desired (map si_Name (KnownServers (rw_pool w))) (add_missing env desired w)"

lemma synced_world_ok:
  assumes "rec_ok w"
  shows "rec_ok (synced_world env desired w)" "pool_names (rw_pool (synced_world env desired w)) = sv_Name ` set desired"
    "server_keys (rw_db (synced_world env desired w)) = server_keys (rw_db w)"
proof -
  show "rec_ok (synced_world env desired w)" unfolding synced_world_def remove_extra_def add_missing_def
    by (intro fold_keeps [where P = rec_ok]) (auto intro: rec_add_ok rec_remove_ok assms)
  have "set (map si_Name (KnownServers (rw_pool w))) = pool_names (rw_pool w)" by (simp add: names_KnownServers)
  from conns.names_synced [OF this, of sv_Name desired]
  show "pool_names (rw_pool (synced_world env desired w)) = sv_Name ` set desired"
    by (simp add: synced_world_def remove_extra_def add_missing_def fold_rec_add fold_rec_remove names_KnownServers)
  show "server_keys (rw_db (synced_world env desired w)) = server_keys (rw_db w)"
    by (simp add: synced_world_def remove_extra_def add_missing_def fold_rec_add fold_rec_remove)
qed

lemma reconcileAll_ok:
  assumes "rec_ok w" "env_ok env" "sr_ListServers (re_fault env RListServers []) None (Some True) (rw_db w) = Inr desired"
  shows "\<exists>w'. reconcileAll env w = Returns w' \<and> rec_ok w' \<and> pool_names (rw_pool w') = sv_Name ` set desired \<and>
    server_keys (rw_db w') = server_keys (rw_db w)"
proof -
  let ?w1 = "synced_world env desired w"
  note S = synced_world_ok [OF assms(1), of env desired]
  have "\<exists>w'. each_run (reconcile_known env desired) (KnownServers (rw_pool ?w1)) ?w1 = Returns w' \<and> pass_keeps ?w1 w'"
  proof (rule each_run_keeps)
    fix info w2
    assume "info \<in> set (KnownServers (rw_pool ?w1))" and k: "pass_keeps ?w1 w2"
    then have "si_Name info \<in> pool_names (rw_pool ?w1)" using names_KnownServers by blast
    then have "si_Name info \<in> pool_names (rw_pool w2)" "rec_ok w2" using k unfolding pass_keeps_def by simp_all
    then obtain w' where "reconcile_known env desired info w2 = Returns w'" "pass_keeps w2 w'"
      using reconcile_known_ok [OF _ assms(2)] by blast
    then show "\<exists>w'. reconcile_known env desired info w2 = Returns w' \<and> pass_keeps ?w1 w'"
      using pass_keeps_trans [OF k] by blast
  qed (simp add: pass_keeps_def S)
  then obtain w' where "each_run (reconcile_known env desired) (KnownServers (rw_pool ?w1)) ?w1 = Returns w'" "pass_keeps ?w1 w'" by blast
  moreover have "reconcileAll env w = each_run (reconcile_known env desired) (KnownServers (rw_pool ?w1)) ?w1"
    unfolding reconcileAll_def assms(3) Let_def synced_world_def by simp
  ultimately show ?thesis using S unfolding pass_keeps_def by simp
qed

subsection \<open>Healthy servers are in step\<close>

definition status_of :: "registry_db \<Rightarrow> string \<Rightarrow> string option" where
  "status_of db name = map_option sv_Status (find (\<lambda>r. sv_Name r = name) (rg_servers db))"

definition healthy :: "registry_db \<Rightarrow> string \<Rightarrow> bool" where
  "healthy db name \<longleftrightarrow> status_of db name \<in> {Some ''active'', Some ''degraded''}"

text \<open>The tools of a server: in the registry, and those the gateway offers.\<close>

definition registry_tools :: "registry_db \<Rightarrow> string \<Rightarrow> string set" where
  "registry_tools db name = {t. tool_flag db name t \<noteq> None}"

definition gateway_tools :: "gateway \<Rightarrow> string \<Rightarrow> string set" where
  "gateway_tools g name = {t. \<exists>e. map_of (gw_catalog g) (ns_name name t) = Some e \<and> ce_ServerName e = name}"

definition in_step :: "rec_world \<Rightarrow> string \<Rightarrow> bool" where
  "in_step w name \<longleftrightarrow>
     (\<exists>e. entry_of (rw_pool w) name = Some e \<and> en_state e = ConnReady \<and>
        registry_tools (rw_db w) name = ti_Name ` set (tool_infos e) \<and>
        gateway_tools (rw_gw w) name = ti_Name ` set (tool_infos e))"

lemma status_audit: "status_of (rw_db (logAudit env a n d w)) m = status_of (rw_db w) m"
  by (simp add: status_of_def rec_frame)

lemma status_health:
  assumes "f = None" "st \<in> set server_statuses"
  shows "status_of (fst (sr_UpdateServerHealth f now name st msg disc db)) m =
    (if m = name then map_option (\<lambda>_. st) (status_of db m) else status_of db m)"
  using assms by (auto simp: status_of_def sr_UpdateServerHealth_def Let_def find_key_update option.map_comp o_def)

lemma status_health_other:
  "m \<noteq> name \<Longrightarrow> status_of (fst (sr_UpdateServerHealth f now name st msg disc db)) m = status_of db m"
  by (auto simp: status_of_def sr_UpdateServerHealth_def Let_def find_key_update split: option.splits)

lemma status_replace: "status_of (fst (sr_ReplaceDiscoveredTools f now n ts db)) m = status_of db m"
  by (simp add: status_of_def replace_frame)

lemma classifyError_status: "fst (classifyError e) \<in> {''error'', ''auth_failed'', ''unreachable''}"
  by (auto simp: classifyError_def Let_def split: option.splits)

lemma health_of_valid: "fst (health_of s e d) \<in> set server_statuses"
  using classifyError_status [of e] by (auto simp: health_of_def server_statuses_def split: ConnState.splits)

lemma health_of_unhealthy: "s \<noteq> ConnReady \<Longrightarrow> fst (health_of s e d) \<notin> {''active'', ''degraded''}"
  using classifyError_status [of e] by (auto simp: health_of_def split: ConnState.splits)

lemma writeHealth_status:
  assumes "re_fault env RHealth n = None"
  shows "status_of (rw_db (writeHealth env n s e d w)) m =
    (if m = n then map_option (\<lambda>_. fst (health_of s e d)) (status_of (rw_db w) m) else status_of (rw_db w) m)"
proof -
  obtain w1 where w1: "w1 = w \<or> (\<exists>d. w1 = logAudit env ''health_change'' n d w)"
    "writeHealth env n s e d w = w1\<lparr>rw_db := fst (sr_UpdateServerHealth (re_fault env RHealth n) (re_now env) n
       (fst (health_of s e d)) (snd (health_of s e d)) None (rw_db w1))\<rparr>"
    by (rule writeHealth_cases)
  have "status_of (rw_db w1) m = status_of (rw_db w) m" using w1(1) status_audit by auto
  then show ?thesis using status_health [OF assms health_of_valid] by (auto simp: w1(2))
qed

lemma writeHealth_other: "m \<noteq> n \<Longrightarrow> status_of (rw_db (writeHealth env n s e d w)) m = status_of (rw_db w) m"
  by (rule writeHealth_cases [of w env n s e d]) (auto simp: status_health_other status_audit)

lemma in_step_cong:
  assumes "rw_pool w' = rw_pool w" "rw_gw w' = rw_gw w" "rg_tools (rw_db w') = rg_tools (rw_db w)"
  shows "in_step w' name = in_step w name"
  using assms by (simp add: in_step_def registry_tools_def tool_flag_def)

lemma writeHealth_in_step: "in_step (writeHealth env n s e d w) m = in_step w m"
  by (rule in_step_cong) (simp_all add: rec_frame)

lemma logAudit_in_step: "in_step (logAudit env a n d w) m = in_step w m"
  by (rule in_step_cong) (simp_all add: rec_frame)

text \<open>A discovery that was persisted without an error leaves the server in step.\<close>

lemma gateway_tools_reconciled:
  assumes "catalog_ok g" "ReconcileServer listed name tools g = (g1, Inr u)"
  shows "gateway_tools g1 name = ti_Name ` set tools"
    "CHR ''.'' \<notin> set m \<Longrightarrow> CHR ''.'' \<notin> set name \<Longrightarrow> m \<noteq> name \<Longrightarrow> gateway_tools g1 m = gateway_tools g m"
proof -
  have mcp: "gw_mcpTools g \<noteq> None"
  proof
    assume "gw_mcpTools g = None"
    with assms(2) show False by (simp add: ReconcileServer_def)
  qed
  have cat: "map_of (gw_catalog g1) n = (if n \<in> ns_name name ` ti_Name ` set tools
     then map_of (rev (map (\<lambda>t. (ns_name name (ti_Name t), catalog_entry name t)) tools)) n
     else case map_of (gw_catalog g) n of None \<Rightarrow> None | Some e \<Rightarrow> if ce_ServerName e = name then None else Some e)" for n
    using ReconcileServer_catalog [OF assms(1) mcp, of listed name tools n] assms(2) by simp
  have new: "\<exists>e. map_of (gw_catalog g1) (ns_name name t) = Some e \<and> ce_ServerName e = name" if "t \<in> ti_Name ` set tools" for t
  proof -
    let ?l = "rev (map (\<lambda>t. (ns_name name (ti_Name t), catalog_entry name t)) tools)"
    have "ns_name name t \<in> fst ` set ?l" using that by force
    then have "map_of ?l (ns_name name t) \<noteq> None" unfolding map_of_eq_None_iff by blast
    then obtain e where e: "map_of ?l (ns_name name t) = Some e" by blast
    then have "ce_ServerName e = name" by (auto dest!: map_of_SomeD simp: catalog_entry_def)
    with e that show ?thesis by (auto simp: cat)
  qed
  show "gateway_tools g1 name = ti_Name ` set tools"
    using new by (auto simp: gateway_tools_def cat ns_name_inject_server split: if_splits option.splits)
  show "gateway_tools g1 m = gateway_tools g m" if "CHR ''.'' \<notin> set m" "CHR ''.'' \<notin> set name" "m \<noteq> name"
  proof -
    have "ns_name m t \<notin> ns_name name ` X" for t X
      using ParseNamespacedTool_ns [OF that(1)] ParseNamespacedTool_ns [OF that(2)] that(3) by (metis imageE prod.inject)
    then show ?thesis using that(3) by (auto simp: gateway_tools_def cat split: option.splits)
  qed
qed

lemma gateway_tools_unregistered:
  "catalog_ok g \<Longrightarrow> m \<noteq> name \<Longrightarrow> gateway_tools (UnregisterServer name g) m = gateway_tools g m"
  by (auto simp: gateway_tools_def map_of_UnregisterServer split: option.splits if_splits)

lemma registry_tools_replaced:
  assumes "sr_ReplaceDiscoveredTools f now server ts db = (db', Inr u)"
  shows "registry_tools db' m = (if m = server then tl_ToolName ` set ts else registry_tools db m)"
  by (auto simp: registry_tools_def Replace_flag [OF assms])

lemma registry_tools_cong: "rg_tools db' = rg_tools db \<Longrightarrow> registry_tools db' m = registry_tools db m"
  by (simp add: registry_tools_def tool_flag_def)

lemma persist_tools_in_step:
  assumes "catalog_ok (rw_gw w)" "persist_tools env name tools b w = (w', None)"
    and "entry_of (rw_pool w) name = Some e" "en_state e = ConnReady" "tools = tool_infos e"
  shows "in_step w' name"
proof -
  let ?ts = "toRegistryTools env name tools"
  obtain db1 r1 where rep: "sr_ReplaceDiscoveredTools (re_fault env RReplace name) (re_now env) name ?ts (rw_db w) = (db1, r1)" by fastforce
  define db2 where "db2 = fst (sr_UpdateServerHealth (re_fault env RDiscoveredAt name) (re_now env) name ''active'' [] (Some (re_now env)) db1)"
  obtain g1 r2 where gw: "ReconcileServer (listed_tools (re_fault env RVisible name) db2) name tools (rw_gw w) = (g1, r2)" by fastforce
  obtain u1 u2 where r: "r1 = Inr u1" "r2 = Inr u2"
    and w': "w' = w\<lparr>rw_db := db2, rw_gw := g1\<rparr> \<or> w' = logAudit env ''schema_drift'' name None (w\<lparr>rw_db := db2, rw_gw := g1\<rparr>)"
    using assms(2) by (cases r1; cases r2) (auto simp: persist_tools_def rep Let_def db2_def [symmetric] gw split: if_splits)
  have "registry_tools db2 name = registry_tools db1 name" by (rule registry_tools_cong) (simp add: db2_def health_frame)
  also have "\<dots> = tl_ToolName ` set ?ts" using registry_tools_replaced [OF rep [unfolded r(1)], of name] by simp
  also have "\<dots> = ti_Name ` set tools" by (force simp: toRegistryTools_def)
  finally have reg: "registry_tools db2 name = ti_Name ` set tools" .
  have "gateway_tools g1 name = ti_Name ` set tools"
    using gateway_tools_reconciled(1) [OF assms(1) gw [unfolded r(2)]] .
  then have "in_step (w\<lparr>rw_db := db2, rw_gw := g1\<rparr>) name" using assms(3-5) reg by (simp add: in_step_def)
  then show ?thesis using w' logAudit_in_step by auto
qed

lemma discover_ready:
  assumes "pool_quiet p" "name \<in> pool_names p" "DiscoverTools d name p = Returns (p', Inr tools)"
  shows "\<exists>e. entry_of p' name = Some e \<and> en_state e = ConnReady \<and> tools = tool_infos e"
proof -
  obtain a where g: "getOrConnect d name p = Returns (p', Inr a)" and t: "tools = tool_infos (pl_heap p' ! a)"
    using assms(3) by (auto simp: DiscoverTools_def split: run.splits prod.splits sum.splits)
  obtain b where b: "map_of (pl_servers p) name = Some b" using assms(2) by (auto simp: pool_names_dom)
  have "a = b" using g b by (auto simp: getOrConnect_def getEntry_def connect_as_owner_def Let_def split: option.splits ConnState.splits sum.splits)
  moreover have "st_of p' a = ConnReady" using quiet_getOrConnect [OF assms(1), of d name] g by auto
  ultimately show ?thesis using t b getOrConnect_names(1) [OF g assms(2)] by (simp add: entry_of_def)
qed

lemma unhealthy_written:
  assumes "re_fault env RHealth n = None" "s \<noteq> ConnReady"
  shows "\<not> healthy (rw_db (writeHealth env n s e d w)) n"
  using health_of_unhealthy [OF assms(2), of e d] by (auto simp: healthy_def writeHealth_status [OF assms(1)])

lemma reconcileEntry_in_step:
  assumes "rec_ok w" "env_ok env" "re_fault env RHealth (si_Name info) = None" "si_Name info \<in> pool_names (rw_pool w)"
    and "reconcileEntry env info srv w = Returns w'" "healthy (rw_db w') (si_Name info)"
  shows "in_step w' (si_Name info)"
proof -
  let ?n = "si_Name info"
  note D = rec_okD [OF assms(1)]
  note bad = unhealthy_written [OF assms(3)]
  have "discover_and_persist env ?n w = Returns w'"
    using assms(5,6) bad by (auto simp: reconcileEntry_def reconnect_def Let_def split: ConnState.splits if_splits)
  then obtain p1 tools where d: "DiscoverTools (re_dialer env ?n) ?n (rw_pool w) = Returns (p1, Inr tools)"
    and p: "(case persistAndReconcile env ?n tools (w\<lparr>rw_pool := p1\<rparr>) of
             Returns (w1, schemaDrift, Some err) \<Rightarrow> Returns (writeHealth env ?n ConnFailed (Some err) schemaDrift w1)
           | Returns (w1, schemaDrift, None) \<Rightarrow> Returns (writeHealth env ?n ConnReady None schemaDrift w1)
           | Blocks \<Rightarrow> Blocks | Panics \<Rightarrow> Panics) = Returns w'"
    using assms(6) bad by (auto simp: discover_and_persist_def split: run.splits prod.splits sum.splits)
  obtain b w1 where w1: "persist_tools env ?n tools b (w\<lparr>rw_pool := p1\<rparr>) = (w1, None)" "w' = writeHealth env ?n ConnReady None b w1"
    using p assms(6) bad by (auto simp: persistAndReconcile_def split: run.splits prod.splits option.splits)
  obtain e where e: "entry_of p1 ?n = Some e" "en_state e = ConnReady" "tools = tool_infos e"
    using discover_ready [OF D(3) assms(4) d] by blast
  have "in_step w1 ?n" by (rule persist_tools_in_step [OF _ w1(1)]) (use e D(5) in simp_all)
  then show ?thesis by (simp add: w1(2) writeHealth_in_step)
qed

subsection \<open>Work on one server leaves the others alone\<close>

lemma other_addr:
  assumes "pool_quiet p" "map_of (pl_servers p) m = Some b" "map_of (pl_servers p) name = Some a" "m \<noteq> name"
  shows "b \<noteq> a" "b < length (pl_heap p)"
proof -
  have "inj_on snd (set (pl_servers p))" using quietD(3) [OF assms(1)] by (simp add: distinct_map)
  then show "b \<noteq> a" using map_of_SomeD [OF assms(2)] map_of_SomeD [OF assms(3)] assms(4) unfolding inj_on_def by fastforce
  show "b < length (pl_heap p)" by (rule map_of_addrs_ok [OF quietD(1) [OF assms(1)] assms(2)])
qed

lemma entry_of_discover:
  assumes "pool_quiet p" "name \<in> pool_names p" "DiscoverTools d name p = Returns (p', r)" "m \<noteq> name"
  shows "entry_of p' m = entry_of p m"
proof -
  obtain r' where g: "getOrConnect d name p = Returns (p', r')"
    using assms(3) by (auto simp: DiscoverTools_def split: run.splits prod.splits sum.splits)
  obtain a where a: "map_of (pl_servers p) name = Some a" using assms(2) by (auto simp: pool_names_dom)
  show ?thesis
    using getOrConnect_names [OF g assms(2)] other_addr [OF assms(1) _ a assms(4)] a
    by (cases "map_of (pl_servers p) m") (auto simp: entry_of_def)
qed

lemma entry_of_reconnect:
  assumes "pool_quiet p" "m \<noteq> name"
  shows "entry_of (AddServer name c (DisconnectServer name p)) m = entry_of p m"
proof -
  let ?q = "DisconnectServer name p"
  have heap: "b < length (pl_heap p) \<Longrightarrow> map_of (pl_servers p) name \<noteq> Some b \<Longrightarrow> pl_heap ?q ! b = pl_heap p ! b" for b
    by (auto simp: DisconnectServer_def Let_def heap_upd_entry drop_client_heap pool_frame nth_list_update split: option.splits)
  have "map_of (pl_servers (AddServer name c ?q)) m = map_of (pl_servers p) m"
    using assms(2) by (auto simp: AddServer_frame(5) DisconnectServer_frame(3) split: option.splits)
  moreover have "pl_heap (AddServer name c ?q) ! b = pl_heap p ! b" if "map_of (pl_servers p) m = Some b" for b
  proof -
    have b: "b < length (pl_heap p)" by (rule map_of_addrs_ok [OF quietD(1) [OF assms(1)] that])
    have "map_of (pl_servers p) name \<noteq> Some b" using other_addr(1) [OF assms(1) that _ assms(2)] by blast
    then show ?thesis using heap [OF b] b AddServer_frame(3) [where p = ?q and b = b] by (simp add: DisconnectServer_frame(1))
  qed
  ultimately show ?thesis by (cases "map_of (pl_servers p) m") (simp_all add: entry_of_def)
qed

definition untouched :: "rec_world \<Rightarrow> rec_world \<Rightarrow> string \<Rightarrow> bool" where
  "untouched w w' m \<longleftrightarrow> status_of (rw_db w') m = status_of (rw_db w) m \<and> entry_of (rw_pool w') m = entry_of (rw_pool w) m \<and>
     registry_tools (rw_db w') m = registry_tools (rw_db w) m \<and> gateway_tools (rw_gw w') m = gateway_tools (rw_gw w) m"

lemma untouched_health: "m \<noteq> n \<Longrightarrow> untouched w w' m \<Longrightarrow> untouched w (writeHealth env n s e d w') m"
  by (simp add: untouched_def rec_frame writeHealth_other registry_tools_def tool_flag_def)

lemma untouched_audit: "untouched w w' m \<Longrightarrow> untouched w (logAudit env a n d w') m"
  by (simp add: untouched_def rec_frame status_audit registry_tools_def tool_flag_def)

lemma untouched_trans: "untouched w w' m \<Longrightarrow> untouched w' w'' m \<Longrightarrow> untouched w w'' m"
  by (simp add: untouched_def)

lemma persist_tools_untouched:
  assumes "catalog_ok (rw_gw w)" "persist_tools env name tools b w = (w', err)"
    and m: "m \<noteq> name" "CHR ''.'' \<notin> set m" "CHR ''.'' \<notin> set name"
  shows "untouched w w' m"
proof -
  let ?ts = "toRegistryTools env name tools"
  obtain db1 r1 where rep: "sr_ReplaceDiscoveredTools (re_fault env RReplace name) (re_now env) name ?ts (rw_db w) = (db1, r1)" by fastforce
  define db2 where "db2 = fst (sr_UpdateServerHealth (re_fault env RDiscoveredAt name) (re_now env) name ''active'' [] (Some (re_now env)) db1)"
  obtain g1 r2 where gw: "ReconcileServer (listed_tools (re_fault env RVisible name) db2) name tools (rw_gw w) = (g1, r2)" by fastforce
  have "registry_tools db1 m = registry_tools (rw_db w) m"
  proof (cases r1)
    case (Inl e)
    have "db1 = rw_db w" by (rule sqlreg.discover_err [OF rep [unfolded Inl]])
    then show ?thesis by simp
  next
    case (Inr u)
    then show ?thesis using registry_tools_replaced [OF rep [unfolded Inr], of m] m(1) by simp
  qed
  moreover have "status_of db1 m = status_of (rw_db w) m" using status_replace [of _ _ name ?ts "rw_db w" m] rep by (metis fst_conv)
  ultimately have db: "registry_tools db1 m = registry_tools (rw_db w) m" "status_of db1 m = status_of (rw_db w) m"
    "registry_tools db2 m = registry_tools (rw_db w) m" "status_of db2 m = status_of (rw_db w) m"
    using m(1) registry_tools_cong [of db2 db1 m] by (simp_all add: db2_def health_frame status_health_other)
  have gt: "gateway_tools g1 m = gateway_tools (rw_gw w) m"
  proof (cases r2)
    case (Inl e)
    have "g1 = rw_gw w"
    proof (cases "gw_mcpTools (rw_gw w) = None")
      case False
      then have "snd (ReconcileServer (listed_tools (re_fault env RVisible name) db2) name tools (rw_gw w)) = Inr ()"
        unfolding ReconcileServer_def Let_def by (simp only: if_False snd_conv)
      with gw Inl show ?thesis by simp
    qed (use gw in \<open>simp add: ReconcileServer_def\<close>)
    then show ?thesis by simp
  next
    case (Inr u)
    then show ?thesis using gateway_tools_reconciled(2) [OF assms(1) gw [unfolded Inr] m(2,3,1)] by simp
  qed
  have "w' = w\<lparr>rw_db := db1\<rparr> \<or> w' = w\<lparr>rw_db := db2, rw_gw := g1\<rparr> \<or> w' = logAudit env ''schema_drift'' name None (w\<lparr>rw_db := db2, rw_gw := g1\<rparr>)"
    using assms(2) by (cases r1; cases r2) (auto simp: persist_tools_def rep Let_def db2_def [symmetric] gw split: if_splits)
  moreover have "untouched w (w\<lparr>rw_db := db1\<rparr>) m" "untouched w (w\<lparr>rw_db := db2, rw_gw := g1\<rparr>) m"
    using db gt by (simp_all add: untouched_def)
  ultimately show ?thesis using untouched_audit by auto
qed

lemma discover_untouched:
  assumes "rec_ok w" "name \<in> pool_names (rw_pool w)" "discover_and_persist env name w = Returns w'"
    and m: "m \<noteq> name" "CHR ''.'' \<notin> set m" "CHR ''.'' \<notin> set name"
  shows "untouched w w' m"
proof -
  note D = rec_okD [OF assms(1)]
  obtain p1 r where d: "DiscoverTools (re_dialer env name) name (rw_pool w) = Returns (p1, r)"
    using assms(3) by (auto simp: discover_and_persist_def split: run.splits)
  have p1: "untouched w (w\<lparr>rw_pool := p1\<rparr>) m"
    using entry_of_discover [OF D(3) assms(2) d m(1)] by (simp add: untouched_def)
  show ?thesis
  proof (cases r)
    case (Inl e)
    then show ?thesis using assms(3) d untouched_health [OF m(1) p1] by (auto simp: discover_and_persist_def)
  next
    case (Inr tools)
    obtain b w1 err where w1: "persist_tools env name tools b (w\<lparr>rw_pool := p1\<rparr>) = (w1, err)"
      and w': "w' = writeHealth env name (if err = None then ConnReady else ConnFailed) err b w1"
      using assms(3) d Inr
      by (auto simp: discover_and_persist_def persistAndReconcile_def split: run.splits prod.splits option.splits)
    have "untouched (w\<lparr>rw_pool := p1\<rparr>) w1 m" by (rule persist_tools_untouched [OF _ w1 m]) (simp add: D(5))
    with p1 have "untouched w w1 m" by (rule untouched_trans)
    then show ?thesis unfolding w' by (rule untouched_health [OF m(1)])
  qed
qed

lemma reconcileEntry_untouched:
  assumes "rec_ok w" "si_Name info \<in> pool_names (rw_pool w)" "reconcileEntry env info srv w = Returns w'"
    and m: "m \<noteq> si_Name info" "CHR ''.'' \<notin> set m" "CHR ''.'' \<notin> set (si_Name info)"
  shows "untouched w w' m"
proof -
  note D = rec_okD [OF assms(1)]
  have self: "untouched w w m" by (simp add: untouched_def)
  have "untouched w (w\<lparr>rw_gw := UnregisterServer (si_Name info) (rw_gw w),
      rw_pool := AddServer (si_Name info) (serverToConfigEntry env srv) (DisconnectServer (si_Name info) (rw_pool w))\<rparr>) m"
    using entry_of_reconnect [OF D(3) m(1)] gateway_tools_unregistered [OF D(5) m(1)] by (simp add: untouched_def)
  then have "untouched w (reconnect env (si_Name info) srv w) m"
    unfolding reconnect_def Let_def by (intro untouched_health [OF m(1)] untouched_audit)
  then show ?thesis
    using assms(3) discover_untouched [OF assms(1,2) _ m] untouched_health [OF m(1) self]
    by (auto simp: reconcileEntry_def Let_def split: ConnState.splits if_splits)
qed

subsection \<open>What a full pass achieves\<close>

lemma each_run_each:
  assumes step: "\<And>x w. x \<in> set xs \<Longrightarrow> P w \<Longrightarrow> \<exists>w'. f x w = Returns w' \<and> P w' \<and> Q (k x) w'"
    and keep: "\<And>x y w w'. x \<in> set xs \<Longrightarrow> y \<in> set xs \<Longrightarrow> P w \<Longrightarrow> f x w = Returns w' \<Longrightarrow> k y \<noteq> k x \<Longrightarrow> Q (k y) w \<Longrightarrow> Q (k y) w'"
    and "distinct (map k xs)" "P w" "set ys \<subseteq> set xs" "distinct (map k ys)"
    and "\<And>x. x \<in> set xs - set ys \<Longrightarrow> Q (k x) w"
  shows "\<exists>w'. each_run f ys w = Returns w' \<and> P w' \<and> (\<forall>x\<in>set xs. Q (k x) w')"
  using assms(4-)
proof (induction ys arbitrary: w)
  case (Cons y ys)
  have y: "y \<in> set xs" using Cons.prems(2) by simp
  obtain w1 where w1: "f y w = Returns w1" "P w1" "Q (k y) w1" using step [OF y Cons.prems(1)] by blast
  have "Q (k x) w1" if "x \<in> set xs - set ys" for x
  proof (cases "k x = k y")
    case True
    then show ?thesis using w1(3) by simp
  next
    case False
    then have "x \<in> set xs - set (y # ys)" using that by auto
    with Cons.prems(4) have "Q (k x) w" by blast
    then show ?thesis using keep [OF y _ Cons.prems(1) w1(1) False] that by blast
  qed
  with Cons.IH [OF w1(2)] Cons.prems(2,3) w1(1) show ?case by simp
qed auto

lemma list_desired:
  assumes "sr_ListServers None None (Some True) db = Inr desired"
  shows "set desired = {s \<in> set (rg_servers db). sv_ProxyEnabled s}"
  using assms by (auto simp: sr_ListServers_def)

lemma find_server_desired: "n \<in> sv_Name ` set desired \<Longrightarrow> \<exists>srv. find_server desired n = Some srv"
proof -
  assume "n \<in> sv_Name ` set desired"
  then have "n \<in> fst ` set (rev (map (\<lambda>s. (sv_Name s, s)) desired))" by force
  then have "map_of (rev (map (\<lambda>s. (sv_Name s, s)) desired)) n \<noteq> None" unfolding map_of_eq_None_iff by blast
  then show ?thesis by (simp add: find_server_def)
qed

lemma reconcileAll_in_step:
  assumes ok: "rec_ok w" and env: "env_ok env" "\<And>n. re_fault env RHealth n = None"
    and list: "sr_ListServers (re_fault env RListServers []) None (Some True) (rw_db w) = Inr desired"
    and dots: "\<And>n. n \<in> sv_Name ` set desired \<Longrightarrow> CHR ''.'' \<notin> set n"
  shows "\<exists>w'. reconcileAll env w = Returns w' \<and> (\<forall>n\<in>sv_Name ` set desired. healthy (rw_db w') n \<longrightarrow> in_step w' n)"
proof -
  let ?w1 = "synced_world env desired w"
  let ?infos = "KnownServers (rw_pool ?w1)"
  let ?P = "\<lambda>v. rec_ok v \<and> pool_names (rw_pool v) = sv_Name ` set desired"
  let ?Q = "\<lambda>n v. healthy (rw_db v) n \<longrightarrow> in_step v n"
  note S = synced_world_ok [OF ok, of env desired]
  have info: "si_Name info \<in> sv_Name ` set desired" if "info \<in> set ?infos" for info
    using that S(2) names_KnownServers [of "rw_pool ?w1"] by blast
  have run: "\<exists>srv. \<forall>v. reconcile_known env desired info v = reconcileEntry env info srv v" if "info \<in> set ?infos" for info
    using find_server_desired [OF info [OF that]] by (auto simp: reconcile_known_def)
  have "\<exists>w'. each_run (reconcile_known env desired) ?infos ?w1 = Returns w' \<and> ?P w' \<and> (\<forall>x\<in>set ?infos. ?Q (si_Name x) w')"
  proof (rule each_run_each)
    fix x v
    assume x: "x \<in> set ?infos" and P: "?P v"
    have n: "si_Name x \<in> pool_names (rw_pool v)" using info [OF x] P by simp
    obtain v' where v': "reconcile_known env desired x v = Returns v'" "pass_keeps v v'"
      using reconcile_known_ok [OF _ env(1) n] P by blast
    obtain srv where "reconcileEntry env x srv v = Returns v'" using run [OF x] v'(1) by auto
    then have "?Q (si_Name x) v'" using reconcileEntry_in_step [OF _ env n] P by blast
    then show "\<exists>v'. reconcile_known env desired x v = Returns v' \<and> ?P v' \<and> ?Q (si_Name x) v'"
      using v' P unfolding pass_keeps_def by auto
  next
    fix x y v v'
    assume x: "x \<in> set ?infos" and y: "y \<in> set ?infos" and P: "?P v" and r: "reconcile_known env desired x v = Returns v'"
      and ne: "si_Name y \<noteq> si_Name x" and Q: "?Q (si_Name y) v"
    have n: "si_Name x \<in> pool_names (rw_pool v)" using info [OF x] P by simp
    obtain srv where e: "reconcileEntry env x srv v = Returns v'" using run [OF x] r by auto
    have "untouched v v' (si_Name y)"
      using reconcileEntry_untouched [OF _ n e ne dots [OF info [OF y]] dots [OF info [OF x]]] P by blast
    then show "?Q (si_Name y) v'" using Q by (simp add: untouched_def healthy_def in_step_def)
  next
    have "map si_Name ?infos = map fst (pl_servers (rw_pool ?w1))" by (simp add: KnownServers_def server_info_def split_beta)
    then show "distinct (map si_Name ?infos)" using quietD(2) [OF rec_okD(3) [OF S(1)]] by simp
    then show "distinct (map si_Name ?infos)" .
  qed (use S in auto)
  then obtain w' where w': "each_run (reconcile_known env desired) ?infos ?w1 = Returns w'" "\<forall>x\<in>set ?infos. ?Q (si_Name x) w'" by blast
  have "reconcileAll env w = each_run (reconcile_known env desired) ?infos ?w1"
    unfolding reconcileAll_def list Let_def synced_world_def by simp
  moreover have "sv_Name ` set desired = si_Name ` set ?infos" using S(2) names_KnownServers by metis
  ultimately show ?thesis using w' by simp
qed

text \<open>A registry with one server, an empty pool, and backends that offer one tool.\<close>

definition sample_rec_env :: rec_env where
  "sample_rec_env = \<lparr>re_fault = (\<lambda>_ _. None), re_now = 9,
     re_dialer = (\<lambda>_. \<lparr>dl_dial = (\<lambda>_. Dialled [sample_mcp_tool]), dl_now = 9, dl_uuid = [], dl_ctxDone = False\<rparr>),
     re_unmarshal = (\<lambda>_. sample_entry), re_zero = sample_entry, re_sha = (\<lambda>_. replicate 64 (CHR ''0''))\<rparr>"

definition sample_rec_world :: rec_world where
  "sample_rec_world = \<lparr>rw_db = sample_registry, rw_pool = NewPool [], rw_gw = NewGateway\<lparr>gw_mcpTools := Some []\<rparr>\<rparr>"

lemma sample_rec_ok: "rec_ok sample_rec_world" "env_ok sample_rec_env"
  by (simp_all add: rec_ok_def env_ok_def sample_rec_env_def sample_rec_world_def sample_mcp_tool_def registry_ok_def hashes_ok_def
      hash_ok_def pool_quiet_def addrs_ok_def schemas_ok_def catalog_ok_def NewPool_def NewGateway_def server_check_def
      transport_types_def server_statuses_def RegistryTransportType_def sample_registry_defs)

lemma sample_rec_servers: "rg_servers (rw_db sample_rec_world) = [config_server 0 ''s'' sample_entry]"
  by (simp add: sample_rec_world_def sample_registry_def)

text \<open>
  C19 (reconcile_follows_registry): every full pass ends, and afterwards the pool holds exactly
  the registered servers that are to be proxied, every tool the gateway offers belongs to one of
  them, and the invariants of registry, pool and gateway hold again. Backends may fail in any
  way, and so may every access to the registry after the list of servers has been read.
\<close>

theorem reconcile_follows_registry:
  assumes "rec_ok w" "env_ok env" "re_fault env RListServers [] = None"
  shows "\<exists>w'. reconcileAll env w = Returns w' \<and> rec_ok w' \<and>
    pool_names (rw_pool w') = {sv_Name s |s. s \<in> set (rg_servers (rw_db w)) \<and> sv_ProxyEnabled s} \<and>
    ce_ServerName ` snd ` set (gw_catalog (rw_gw w')) \<subseteq> pool_names (rw_pool w')"
proof -
  obtain desired where d: "sr_ListServers None None (Some True) (rw_db w) = Inr desired" by (simp add: sr_ListServers_def)
  obtain w' where w': "reconcileAll env w = Returns w'" "rec_ok w'" "pool_names (rw_pool w') = sv_Name ` set desired"
    using reconcileAll_ok [OF assms(1,2), of desired] d assms(3) by auto
  have "ce_ServerName e \<in> pool_names (rw_pool w')" if "(n, e) \<in> set (gw_catalog (rw_gw w'))" for n e
    using rec_okD(5,6) [OF w'(2)] that by (auto simp: catalog_ok_def)
  then show ?thesis using w' list_desired [OF d] by (auto simp: image_def)
qed

theorem reconcile_follows_registry_witness:
  "\<exists>w'. reconcileAll sample_rec_env sample_rec_world = Returns w' \<and> pool_names (rw_pool w') = {''s''}"
proof -
  have "re_fault sample_rec_env RListServers [] = None" by (simp add: sample_rec_env_def)
  from reconcile_follows_registry [OF sample_rec_ok this] show ?thesis by (auto simp: sample_rec_servers config_server_def)
qed

text \<open>
  C20 (healthy_servers_in_step): right after a full pass in which the servers could be listed and
  no write of a server's health failed, a proxied server that the registry calls active or degraded is
  connected, and the tools of its connection, the tools the registry has for it and the tools the
  gateway offers for it are the same. No server name has a dot: the gateway joins server and tool
  names with one.
\<close>

theorem healthy_servers_in_step:
  assumes "rec_ok w" "env_ok env" "re_fault env RListServers [] = None" "re_fault env RHealth = (\<lambda>_. None)"
    and "list_all (\<lambda>s. CHR ''.'' \<notin> set (sv_Name s)) (rg_servers (rw_db w))"
  shows "\<exists>w'. reconcileAll env w = Returns w' \<and>
    (\<forall>s\<in>set (rg_servers (rw_db w)). sv_ProxyEnabled s \<and> healthy (rw_db w') (sv_Name s) \<longrightarrow> in_step w' (sv_Name s))"
proof -
  obtain desired where d: "sr_ListServers None None (Some True) (rw_db w) = Inr desired" by (simp add: sr_ListServers_def)
  have dots: "CHR ''.'' \<notin> set n" if "n \<in> sv_Name ` set desired" for n
    using that list_desired [OF d] assms(5) by (auto simp: list_all_iff)
  have h: "re_fault env RHealth n = None" for n using assms(4) by simp
  have l: "sr_ListServers (re_fault env RListServers []) None (Some True) (rw_db w) = Inr desired" using d assms(3) by simp
  from reconcileAll_in_step [OF assms(1,2) h l dots] list_desired [OF d] show ?thesis by auto
qed

theorem healthy_servers_in_step_witness:
  "\<exists>w'. reconcileAll sample_rec_env sample_rec_world = Returns w' \<and> status_of (rw_db w') ''s'' = Some ''active'' \<and> in_step w' ''s''"
proof -
  have *: "re_fault sample_rec_env RListServers [] = None" "re_fault sample_rec_env RHealth = (\<lambda>_. None)"
    "list_all (\<lambda>s. CHR ''.'' \<notin> set (sv_Name s)) (rg_servers (rw_db sample_rec_world))"
    by (simp_all add: sample_rec_env_def sample_rec_servers config_server_def)
  have "(case reconcileAll sample_rec_env sample_rec_world of Returns w' \<Rightarrow> status_of (rw_db w') ''s'' | _ \<Rightarrow> None) = Some ''active''"
    by code_simp
  with healthy_servers_in_step [OF sample_rec_ok *] show ?thesis
    by (auto simp: sample_rec_servers config_server_def healthy_def)
qed

lemma discover_keeps_config:
  assumes "rec_ok w" "env_ok env" "name \<in> pool_names (rw_pool w)" "discover_and_persist env name w = Returns w'"
  shows "pl_config (rw_pool w') = pl_config (rw_pool w)"
proof -
  note D = rec_okD [OF assms(1)]
  obtain p1 r where d: "DiscoverTools (re_dialer env name) name (rw_pool w) = Returns (p1, r)" "pl_config p1 = pl_config (rw_pool w)"
    "pool_names p1 = pool_names (rw_pool w)" "pool_quiet p1" "schemas_ok p1"
    and sch: "\<And>tools t. r = Inr tools \<Longrightarrow> t \<in> set tools \<Longrightarrow> ti_InputSchema t \<noteq> []"
    using discover_ok [OF assms(2) D(3,4) assms(3)] by (metis pool_names_dom)
  show ?thesis
  proof (cases r)
    case (Inl e)
    then show ?thesis using assms(4) d by (auto simp: discover_and_persist_def rec_frame)
  next
    case (Inr tools)
    obtain b w1 err where w1: "persist_tools env name tools b (w\<lparr>rw_pool := p1\<rparr>) = (w1, err)"
      and w': "w' = writeHealth env name (if err = None then ConnReady else ConnFailed) err b w1"
      using assms(4) d(1) Inr
      by (auto simp: discover_and_persist_def persistAndReconcile_def split: run.splits prod.splits option.splits)
    have "rec_ok (w\<lparr>rw_pool := p1\<rparr>)" using rec_ok_pool [OF assms(1) d(4,5,3)] by (simp add: pass_keeps_def)
    then have "rw_pool w1 = p1" using persist_tools_ok(2) [OF _ assms(2) _ sch [OF Inr] w1] assms(3) d(3) by simp
    then show ?thesis using d(2) w' by (simp add: rec_frame)
  qed
qed

text \<open>
  which configuration the pool uses for a known server after
  its turn. A connected server whose configuration changed in the registry is taken out of the
  pool and the gateway and put back with the new one, to be connected in the next pass. A server
  that is not connected keeps the configuration it was added with, whatever the registry says.
\<close>

theorem config_reaches_ready_servers:
  assumes "rec_ok w" "env_ok env" "info \<in> set (KnownServers (rw_pool w))"
  shows "\<exists>w'. reconcileEntry env info srv w = Returns w' \<and>
    pool_cfg (rw_pool w') (si_Name info) =
      (if si_State info = ConnReady \<and> configDrifted env info srv then Some (serverToConfigEntry env srv)
       else pool_cfg (rw_pool w) (si_Name info))"
proof -
  have n: "si_Name info \<in> pool_names (rw_pool w)" using assms(3) names_KnownServers by blast
  obtain w' where w': "reconcileEntry env info srv w = Returns w'" using reconcileEntry_ok [OF assms(1,2) n] by blast
  show ?thesis
  proof (cases "si_State info = ConnReady \<and> configDrifted env info srv")
    case True
    then have "w' = reconnect env (si_Name info) srv w" using w' by (simp add: reconcileEntry_def Let_def)
    then show ?thesis using True w' by (simp add: reconnect_def Let_def rec_frame conns.cfg_add)
  next
    case False
    then have "rw_pool w' = rw_pool w \<or> discover_and_persist env (si_Name info) w = Returns w'"
      using w' by (auto simp: reconcileEntry_def Let_def rec_frame split: ConnState.splits if_splits)
    then have "pl_config (rw_pool w') = pl_config (rw_pool w)" using discover_keeps_config [OF assms(1,2) n] by auto
    then show ?thesis using False w' by (auto simp: pool_cfg_def)
  qed
qed

definition sample_failed_world :: rec_world where
  "sample_failed_world = sample_rec_world\<lparr>rw_pool :=
     AddServer ''s'' (sample_entry\<lparr>me_JSON := ''old''\<rparr>) (rw_pool sample_rec_world)\<rparr>"

theorem config_reaches_ready_servers_witness:
  "\<exists>info w'. KnownServers (rw_pool sample_failed_world) = [info] \<and>
     reconcileEntry sample_rec_env info (config_server 0 ''s'' sample_entry) sample_failed_world = Returns w' \<and>
     pool_cfg (rw_pool w') ''s'' = Some (sample_entry\<lparr>me_JSON := ''old''\<rparr>)"
proof -
  let ?info = "\<lparr>si_Name = ''s'', si_State = ConnIdle, si_LastErr = None, si_Config = Some (sample_entry\<lparr>me_JSON := ''old''\<rparr>)\<rparr>"
  have k: "KnownServers (rw_pool sample_failed_world) = [?info]" "pool_cfg (rw_pool sample_failed_world) ''s'' = Some (sample_entry\<lparr>me_JSON := ''old''\<rparr>)"
    by (simp_all add: sample_failed_world_def sample_rec_world_def KnownServers_def server_info_def AddServer_def NewPool_def
        newServerEntry_def pool_cfg_def)
  have "rec_ok sample_failed_world" unfolding sample_failed_world_def
    using sample_rec_ok(1) by (auto simp: rec_ok_def quiet_AddServer schemas_AddServer conns.names_add)
  from config_reaches_ready_servers [OF this sample_rec_ok(2), of ?info] k show ?thesis by simp
qed

end
