(* ===== verification/Sidecar.thy ===== *)
theory Sidecar
  imports Prelude EventRing "HOL-Library.Word"
begin

text \<open>
  \<open>internal/strategy/sidecar.go\<close> and \<open>pool.go\<close>: the client of the strategy runner, a subprocess
  that answers one line of JSON per line of JSON over a Unix socket, its restarts and retries, and
  the pool that spreads calls over several runners.

  Starting the subprocess and dialling its socket are one outcome of the environment. A request is
  the text it marshals to; what \<open>json.Unmarshal\<close> makes of
  the answer's line is the function \<open>decode\<close>, with the message of its error.
\<close>

subsection \<open>Errors\<close>

datatype net_kind = NkEOF | NkClosedPipe | NkNetClosed | NkEPIPE | NkECONNRESET | NkECONNREFUSED | NkOther

text \<open>An error of the connection: what \<open>errors.Is\<close> finds in it, and its message.\<close>

record net_err =
  ne_kind :: net_kind
  ne_msg :: string

definition isTransportError :: "net_err \<Rightarrow> bool" where
  "isTransportError err =
     (if ne_kind err \<in> {NkEOF, NkClosedPipe, NkNetClosed} then True
      else if ne_kind err \<in> {NkEPIPE, NkECONNRESET, NkECONNREFUSED} then True
      else contains (ne_msg err) ''broken pipe'' \<or> contains (ne_msg err) ''connection reset'' \<or> contains (ne_msg err) ''EOF'')"

text \<open>\<open>TransportErr phase msg\<close> and \<open>RestartedErr msg\<close> carry the message of the error they wrap; \<open>Wrap\<close> is \<open>fmt.Errorf(prefix + "%w")\<close>.\<close>

datatype sc_error = TransportErr string string | RestartedErr string | PlainErr string | Wrap string sc_error

fun sc_error_string :: "sc_error \<Rightarrow> string" where
  "sc_error_string (TransportErr phase msg) = ''sidecar transport ('' @ phase @ ''): '' @ msg"
| "sc_error_string (RestartedErr msg) = ''sidecar restarted after transport error: '' @ msg"
| "sc_error_string (PlainErr msg) = msg"
| "sc_error_string (Wrap pre err) = pre @ sc_error_string err"

text \<open>\<open>errors.As\<close> for the two types.\<close>

fun as_transport :: "sc_error \<Rightarrow> (string \<times> string) option" where
  "as_transport (TransportErr phase msg) = Some (phase, msg)"
| "as_transport (Wrap pre err) = as_transport err"
| "as_transport _ = None"

fun as_restarted :: "sc_error \<Rightarrow> string option" where
  "as_restarted (RestartedErr msg) = Some msg"
| "as_restarted (Wrap pre err) = as_restarted err"
| "as_restarted _ = None"

subsection \<open>A sidecar and its connection\<close>

text \<open>
  Of the present connection: \<open>sc_out\<close> is what failed writes have left on it of lines that were never
  finished, \<open>sc_pipe\<close> holds the answers the runner has given or will give and that nobody has read, in
  order, and \<open>sc_cut\<close> says that an operation has failed with a transport error. \<open>sc_received\<close> are the
  lines that runners have received so far. \<open>sc_io\<close> counts the operations the environment has decided.
\<close>

record sidecar =
  sc_healthy :: bool
  sc_restarts :: int
  sc_lastFailure :: int
  sc_conn :: bool
  sc_cut :: bool
  sc_out :: string
  sc_pipe :: "string list"
  sc_received :: "string list"
  sc_events :: "event list"
  sc_io :: nat

text \<open>The values of a request's map; \<open>JText\<close> is a value by its JSON text.\<close>

datatype json_value = JStr string | JBool bool | JText string

text \<open>
  The environment: whether the \<open>n\<close>-th operation, a write, a read or a restart, fails (on a connection
  that is cut, or not). A write that fails may have put some bytes of its line on the connection. A
  read that fails may have taken some bytes of the line it was reading, which are lost.
  \<open>sx_answer n\<close> is the runner's answer to a line; an unfinished line gets none.
\<close>

record sidecar_env =
  sx_write :: "bool \<Rightarrow> nat \<Rightarrow> (net_err \<times> nat) option"
  sx_read :: "bool \<Rightarrow> nat \<Rightarrow> (net_err \<times> nat) option"
  sx_restart :: "nat \<Rightarrow> string option"
  sx_clock :: "nat \<Rightarrow> int"
  sx_answer :: "nat \<Rightarrow> string \<Rightarrow> string"
  sx_bus :: bool
  sx_uuid :: "nat \<Rightarrow> string"
  sx_marshal :: "(string \<times> json_value) list \<Rightarrow> string result"

type_synonym 'r sc_call = "sidecar \<Rightarrow> (sidecar \<times> (sc_error + 'r)) run"

definition sc_tick :: "sidecar \<Rightarrow> sidecar" where
  "sc_tick s = s\<lparr>sc_io := Suc (sc_io s)\<rparr>"

definition sc_broken :: "sidecar_env \<Rightarrow> sidecar \<Rightarrow> sidecar" where
  "sc_broken env s = s\<lparr>sc_healthy := False, sc_lastFailure := sx_clock env (sc_io s), sc_cut := True\<rparr>"

text \<open>\<open>ReadBytes\<close>. (A read that succeeds finds an answer: the request was just received.)\<close>

definition readLine :: "sidecar_env \<Rightarrow> sidecar \<Rightarrow> sidecar \<times> (sc_error + string)" where
  "readLine env s =
     (case sx_read env (sc_cut s) (sc_io s) of
        Some (err, k) \<Rightarrow>
          (let s1 = (sc_tick s)\<lparr>sc_pipe := (case sc_pipe s of [] \<Rightarrow> [] | l # ls \<Rightarrow> drop k l # ls)\<rparr>;
               msg = ''read: '' @ ne_msg err
           in if isTransportError err then (sc_broken env s1, Inl (TransportErr ''read'' msg)) else (s1, Inl (PlainErr msg)))
      | None \<Rightarrow>
          (case sc_pipe s of
             [] \<Rightarrow> (sc_broken env (sc_tick s), Inl (TransportErr ''read'' ''read: EOF''))
           | l # ls \<Rightarrow> ((sc_tick s)\<lparr>sc_pipe := ls\<rparr>, Inr l)))"

text \<open>
  A connection that is \<open>nil\<close> makes \<open>SetDeadline\<close> panic. \<open>sendRecv\<close> and \<open>restart\<close> each hold the sidecar's
  mutex from their first to their last line.
\<close>

definition sendRecv :: "sidecar_env \<Rightarrow> string result \<Rightarrow> (string \<Rightarrow> string + 'r) \<Rightarrow> 'r sc_call" where
  "sendRecv env req decode s =
     (case req of
        Inl err \<Rightarrow> Returns (s, Inl (PlainErr (''marshal request: '' @ error_string err)))
      | Inr data \<Rightarrow>
          if \<not> sc_conn s then Panics
          else
            (case sx_write env (sc_cut s) (sc_io s) of
               Some (err, k) \<Rightarrow>
                 (let s1 = (sc_tick s)\<lparr>sc_out := sc_out s @ take k data\<rparr>; msg = ''write: '' @ ne_msg err
                  in Returns (if isTransportError err then (sc_broken env s1, Inl (TransportErr ''write'' msg)) else (s1, Inl (PlainErr msg))))
             | None \<Rightarrow>
                 (let sent = sc_out s @ data;
                      s1 = (sc_tick s)\<lparr>sc_out := [], sc_received := sc_received s @ [sent],
                             sc_pipe := sc_pipe s @ [sx_answer env (sc_io s) sent]\<rparr>
                  in case readLine env s1 of
                       (s2, Inl err) \<Rightarrow> Returns (s2, Inl err)
                     | (s2, Inr line) \<Rightarrow> Returns (s2, map_sum PlainErr id (decode line)))))"

definition restart :: "sidecar_env \<Rightarrow> sidecar \<Rightarrow> sidecar \<times> (sc_error + unit)" where
  "restart env s =
     (let s1 = (sc_tick s)\<lparr>sc_conn := False, sc_cut := False, sc_out := [], sc_pipe := []\<rparr>
      in case sx_restart env (sc_io s) of
           Some err \<Rightarrow> (s1, Inl (PlainErr (''restart: '' @ err)))
         | None \<Rightarrow> (s1\<lparr>sc_conn := True, sc_healthy := True, sc_restarts := sc_restarts s + 1\<rparr>, Inr ()))"

text \<open>
  \<open>withRetry\<close> holds no mutex: between the first call, the restart and the second call other goroutines
  may use the sidecar. \<open>withRetry_step\<close> is what a goroutine does next, from where it stands.
\<close>

datatype 'r retry_pc = PcCall | PcRestart string string | PcAgain | PcReturned "sc_error + 'r" | PcBlocked | PcPanicked

definition returned :: "sidecar \<Rightarrow> (sidecar \<times> (sc_error + 'r)) run \<Rightarrow> sidecar \<times> 'r retry_pc" where
  "returned s x = (case x of Returns (s1, r) \<Rightarrow> (s1, PcReturned r) | Blocks \<Rightarrow> (s, PcBlocked) | Panics \<Rightarrow> (s, PcPanicked))"

fun withRetry_step :: "sidecar_env \<Rightarrow> 'r sc_call \<Rightarrow> bool \<Rightarrow> bool \<Rightarrow> sidecar \<times> 'r retry_pc \<Rightarrow> sidecar \<times> 'r retry_pc" where
  "withRetry_step env fn readOnly retryOnWrite (s, PcCall) =
     (case returned s (fn s) of
        (s1, PcReturned (Inl err)) \<Rightarrow>
          (case as_transport err of
             None \<Rightarrow> (s1, PcReturned (Inl err))
           | Some (phase, msg) \<Rightarrow> (s1, PcRestart phase msg))
      | done \<Rightarrow> done)"
| "withRetry_step env fn readOnly retryOnWrite (s, PcRestart phase msg) =
     (case restart env s of
        (s1, Inl _) \<Rightarrow> (s1, PcReturned (Inl (TransportErr phase msg)))
      | (s1, Inr _) \<Rightarrow>
          if readOnly then (s1, PcAgain)
          else if retryOnWrite \<and> phase = ''write'' then (s1, PcAgain)
          else (s1, PcReturned (Inl (RestartedErr msg))))"
| "withRetry_step env fn readOnly retryOnWrite (s, PcAgain) = returned s (fn s)"
| "withRetry_step env fn readOnly retryOnWrite (s, pc) = (s, pc)"

text \<open>A call during which no other goroutine uses the sidecar: its steps, at most three, one after the other.\<close>

definition withRetry :: "sidecar_env \<Rightarrow> 'r sc_call \<Rightarrow> bool \<Rightarrow> bool \<Rightarrow> 'r sc_call" where
  "withRetry env fn readOnly retryOnWrite s =
     (let step = withRetry_step env fn readOnly retryOnWrite
      in case step (step (step (s, PcCall))) of
           (s1, PcReturned x) \<Rightarrow> Returns (s1, x)
         | (_, PcPanicked) \<Rightarrow> Panics
         | _ \<Rightarrow> Blocks)"

text \<open>
  Several goroutines that call the same sidecar: each has a request, the way its answer is decoded
  and the two flags of \<open>withRetry\<close>. The last part of the state is not in the code: whose lines the
  runners have received.
\<close>

record 'r request =
  rq_data :: string
  rq_decode :: "string \<Rightarrow> string + 'r"
  rq_readOnly :: bool
  rq_retryOnWrite :: bool

definition caller_step :: "sidecar_env \<Rightarrow> 'r request \<Rightarrow> sidecar \<times> 'r retry_pc \<Rightarrow> sidecar \<times> 'r retry_pc" where
  "caller_step env rq = withRetry_step env (sendRecv env (Inr (rq_data rq)) (rq_decode rq)) (rq_readOnly rq) (rq_retryOnWrite rq)"

type_synonym 'r callers = "sidecar \<times> (nat \<Rightarrow> 'r retry_pc) \<times> nat list"

inductive callers_step :: "sidecar_env \<Rightarrow> (nat \<Rightarrow> 'r request) \<Rightarrow> 'r callers \<Rightarrow> 'r callers \<Rightarrow> bool"
  for env rq where
  cs_step: "caller_step env (rq i) (s, pcs i) = (s', pc) \<Longrightarrow>
    callers_step env rq (s, pcs, log)
      (s', pcs(i := pc), if length (sc_received s') = length (sc_received s) then log else log @ [i])"

inductive_cases callers_stepE: "callers_step env rq (s, pcs, log) st"

subsection \<open>The calls\<close>

record sidecar_config =
  cf_gatewayURL :: string
  cf_agentTask :: string
  cf_runTimeout :: int
  cf_stagingDir :: string
  cf_external :: bool

definition DefaultRunTimeout :: int where "DefaultRunTimeout = 300 * second_ns"

definition RunTimeout :: "sidecar_config \<Rightarrow> int" where
  "RunTimeout cf = (if cf_runTimeout cf > 0 then cf_runTimeout cf else DefaultRunTimeout)"

record StrategyInfo =
  si_Name :: string
  si_Tags :: "string list"
  si_ContractPath :: string

record RunResult =
  rr_Status :: string
  rr_Result :: string
  rr_PartialResults :: "string option"
  rr_PartialResultsTruncated :: bool
  rr_OmittedSteps :: "string list"
  rr_Trace :: string
  rr_Steps :: nat
  rr_Error :: string

text \<open>An answer with a status, an error and the rest.\<close>

type_synonym 'a answered = "string \<times> string \<times> 'a"

definition checked :: "string \<Rightarrow> (sidecar \<times> (sc_error + 'a answered)) run \<Rightarrow> (sidecar \<times> (sc_error + 'a)) run" where
  "checked op x =
     (case x of
        Returns (s, Inl err) \<Rightarrow> Returns (s, Inl (Wrap op err))
      | Returns (s, Inr (status, err, a)) \<Rightarrow> Returns (s, if status \<noteq> ''ok'' then Inl (PlainErr (op @ err)) else Inr a)
      | Blocks \<Rightarrow> Blocks
      | Panics \<Rightarrow> Panics)"

fun join :: "string \<Rightarrow> string list \<Rightarrow> string" where
  "join sep [] = []"
| "join sep [x] = x"
| "join sep (x # y # ys) = x @ sep @ join sep (y # ys)"

definition sc_List :: "sidecar_env \<Rightarrow> (string \<Rightarrow> string + StrategyInfo list answered) \<Rightarrow> string list \<Rightarrow> StrategyInfo list sc_call" where
  "sc_List env decode tags s =
     (let req = (''action'', JStr ''list'') # (if tags \<noteq> [] then [(''tags'', JStr (join '','' tags))] else [])
      in case checked ''list: '' (withRetry env (sendRecv env (sx_marshal env req) decode) True False s) of
           Returns (s1, Inr infos) \<Rightarrow>
             Returns (s1, Inr (if tags \<noteq> [] then filter (\<lambda>si. list_ex (\<lambda>t. t \<in> set tags) (si_Tags si)) infos else infos))
         | x \<Rightarrow> x)"

definition sc_Describe :: "sidecar_env \<Rightarrow> (string \<Rightarrow> string + StrategyInfo answered) \<Rightarrow> string \<Rightarrow> StrategyInfo sc_call" where
  "sc_Describe env decode name s =
     checked ''describe: '' (withRetry env (sendRecv env (sx_marshal env [(''action'', JStr ''describe''), (''strategy'', JStr name)]) decode) True False s)"

definition sc_emitEvent :: "sidecar_env \<Rightarrow> string \<Rightarrow> string \<Rightarrow> string \<Rightarrow> string \<Rightarrow> (string \<times> string) list \<Rightarrow> sidecar \<Rightarrow> sidecar" where
  "sc_emitEvent env act outcome strategyName agentTask attrs s =
     (if \<not> sx_bus env then s
      else s\<lparr>sc_events := sc_events s @
             [(Info (sx_uuid env (sc_io s)) (sx_clock env (sc_io s)) ''strategy-runner'' act)
                \<lparr>ev_Category := ''strategy'', ev_Resource := ''strategy:'' @ strategyName, ev_Outcome := outcome, ev_Task := agentTask,
                 ev_Attrs := attrs @ [(''strategy'', strategyName)]\<rparr>]\<rparr>)"

definition format_bool :: "bool \<Rightarrow> string" where
  "format_bool b = (if b then ''true'' else ''false'')"

text \<open>The manifest is its JSON text with the number of its tables; \<open>opts\<close> the gateway URL and agent task.\<close>

definition run_request :: "sidecar_config \<Rightarrow> string \<Rightarrow> string \<Rightarrow> (string \<times> nat) option \<Rightarrow> string \<Rightarrow> string \<Rightarrow> (string \<times> json_value) list" where
  "run_request cf name params manifest gwURL agentTask =
     [(''action'', JStr ''run''), (''strategy'', JStr name), (''params'', JText params), (''staging_dir'', JStr (cf_stagingDir cf))] @
     (case manifest of None \<Rightarrow> [] | Some (m, _) \<Rightarrow> [(''staging_manifest'', JText m)]) @
     (if gwURL \<noteq> [] then [(''gateway_url'', JStr gwURL)] else []) @
     (if agentTask \<noteq> [] then [(''agent_task'', JStr agentTask)] else [])"

definition run_gateway :: "sidecar_config \<Rightarrow> (string \<times> string) option \<Rightarrow> string" where
  "run_gateway cf opts = (case opts of Some (g, _) \<Rightarrow> if g \<noteq> [] then g else cf_gatewayURL cf | None \<Rightarrow> cf_gatewayURL cf)"

definition run_agentTask :: "sidecar_config \<Rightarrow> (string \<times> string) option \<Rightarrow> string" where
  "run_agentTask cf opts = (case opts of Some (_, a) \<Rightarrow> if a \<noteq> [] then a else cf_agentTask cf | None \<Rightarrow> cf_agentTask cf)"

definition sc_Run ::
    "sidecar_env \<Rightarrow> sidecar_config \<Rightarrow> (string \<Rightarrow> string + RunResult) \<Rightarrow> string \<Rightarrow> string \<Rightarrow> (string \<times> nat) option \<Rightarrow> (string \<times> string) option \<Rightarrow> RunResult sc_call" where
  "sc_Run env cf decode name params manifest opts s =
     (let gwURL = run_gateway cf opts;
          agentTask = run_agentTask cf opts;
          req = run_request cf name params manifest gwURL agentTask;
          s1 = sc_emitEvent env ''sidecar_dispatch'' ''unknown'' name agentTask
                 [(''manifest_tables'', itoa (case manifest of None \<Rightarrow> 0 | Some (_, n) \<Rightarrow> int n)), (''has_gateway'', format_bool (gwURL \<noteq> []))] s;
          start = sx_clock env (sc_io s1);
          ms = (\<lambda>t. itoa ((sx_clock env (sc_io t) - start) div 1000000))
      in case withRetry env (sendRecv env (sx_marshal env req) decode) False True s1 of
           Returns (s2, Inl err) \<Rightarrow>
             Returns (sc_emitEvent env ''sidecar_error'' ''failure'' name agentTask [(''duration_ms'', ms s2), (''error'', sc_error_string err)] s2,
                      Inl (Wrap ''run: '' err))
         | Returns (s2, Inr resp) \<Rightarrow>
             Returns (sc_emitEvent env ''sidecar_response'' (if rr_Status resp = ''error'' then ''failure'' else ''success'') name agentTask
                        [(''status'', rr_Status resp), (''duration_ms'', ms s2), (''steps'', itoa (int (rr_Steps resp)))] s2,
                      Inr resp)
         | Blocks \<Rightarrow> Blocks
         | Panics \<Rightarrow> Panics)"

definition sc_Create :: "sidecar_env \<Rightarrow> (string \<Rightarrow> string + unit answered) \<Rightarrow> string \<Rightarrow> string \<Rightarrow> string \<Rightarrow> bool \<Rightarrow> unit sc_call" where
  "sc_Create env decode name code metadata force s =
     checked ''create: '' (withRetry env (sendRecv env (sx_marshal env
       [(''action'', JStr ''create''), (''name'', JStr name), (''code'', JStr code), (''metadata'', JStr metadata), (''force'', JBool force)]) decode) False False s)"

definition sc_CreateWithContract :: "sidecar_env \<Rightarrow> (string \<Rightarrow> string + unit answered) \<Rightarrow> string \<Rightarrow> string \<Rightarrow> string \<Rightarrow> bool \<Rightarrow> unit sc_call" where
  "sc_CreateWithContract env decode name code contractYAML force s =
     checked ''create: '' (withRetry env (sendRecv env (sx_marshal env
       [(''action'', JStr ''create''), (''name'', JStr name), (''code'', JStr code), (''contract'', JStr contractYAML), (''force'', JBool force)]) decode) False False s)"

subsection \<open>The pool\<close>

text \<open>Every sidecar comes with its environment. The counter is \<open>atomic.Uint64\<close>.\<close>

record sidecar_pool =
  pl_sidecars :: "(sidecar_env \<times> sidecar) list"
  pl_next :: "64 word"

text \<open>\<open>started i\<close> is the \<open>i\<close>-th sidecar, or why it does not start; the sidecars started before are then closed.\<close>

fun start_sidecars :: "(nat \<Rightarrow> string + sidecar_env \<times> sidecar) \<Rightarrow> nat list \<Rightarrow> (sidecar_env \<times> sidecar) list \<Rightarrow> string + (sidecar_env \<times> sidecar) list" where
  "start_sidecars started [] acc = Inr acc"
| "start_sidecars started (i # is) acc =
     (case started i of
        Inl err \<Rightarrow> Inl (''sidecar '' @ nat_string i @ '': '' @ err)
      | Inr sc \<Rightarrow> start_sidecars started is (acc @ [sc]))"

definition NewSidecarPool :: "int \<Rightarrow> (nat \<Rightarrow> string + sidecar_env \<times> sidecar) \<Rightarrow> string + sidecar_pool" where
  "NewSidecarPool n started =
     (let m = (if n < 1 then 1 else nat n)
      in case start_sidecars started [0..<m] [] of
           Inl err \<Rightarrow> Inl err
         | Inr scs \<Rightarrow> Inr \<lparr>pl_sidecars = scs, pl_next = 0\<rparr>)"

text \<open>The position of the sidecar with the oldest failure, the first of them; \<open>None\<close> is \<open>nil\<close>.\<close>

fun oldest_failure :: "(nat \<times> sidecar) list \<Rightarrow> (nat \<times> sidecar) option \<Rightarrow> (nat \<times> sidecar) option" where
  "oldest_failure [] best = best"
| "oldest_failure ((i, s) # rest) best =
     oldest_failure rest
       (case best of
          None \<Rightarrow> Some (i, s)
        | Some (j, b) \<Rightarrow> if sc_lastFailure s < sc_lastFailure b then Some (i, s) else best)"

definition pick :: "sidecar_pool \<Rightarrow> sidecar_pool \<times> nat option" where
  "pick p =
     (let scs = map snd (pl_sidecars p);
          n = (of_nat (length scs) :: 64 word);
          start = pl_next p;
          p1 = p\<lparr>pl_next := pl_next p + 1\<rparr>;
          at = (\<lambda>i. unat ((start + of_nat i) mod n))
      in case find (\<lambda>i. sc_healthy (scs ! at i)) [0..<length scs] of
           Some i \<Rightarrow> (p1, Some (at i))
         | None \<Rightarrow> (p1, map_option fst (oldest_failure (enumerate 0 scs) None)))"

definition unit_result :: "(sidecar \<times> (sc_error + unit)) \<Rightarrow> sidecar \<times> sc_error option" where
  "unit_result x = (fst x, case snd x of Inl err \<Rightarrow> Some err | Inr _ \<Rightarrow> None)"

text \<open>What \<open>broadcast\<close> does with one sidecar: its new state, and the error that ends the broadcast, if any.\<close>

definition sc_broadcast_one :: "(sidecar_env \<Rightarrow> unit sc_call) \<Rightarrow> sidecar_env \<Rightarrow> sidecar \<Rightarrow> (sidecar \<times> sc_error option) run" where
  "sc_broadcast_one fn env s =
     (let again = (\<lambda>t. case fn env t of Returns x \<Rightarrow> Returns (unit_result x) | Blocks \<Rightarrow> Blocks | Panics \<Rightarrow> Panics)
      in case (if sc_healthy s then (s, Inr ()) else restart env s) of
           (s1, Inl _) \<Rightarrow> Returns (s1, None)
         | (s1, Inr _) \<Rightarrow>
             (case fn env s1 of
                Returns (s2, Inr _) \<Rightarrow> Returns (s2, None)
              | Returns (s2, Inl err) \<Rightarrow>
                  (case as_transport err of
                     Some _ \<Rightarrow>
                       (case restart env s2 of
                          (s3, Inl _) \<Rightarrow> Returns (s3, Some err)
                        | (s3, Inr _) \<Rightarrow> again s3)
                   | None \<Rightarrow>
                       (case as_restarted err of
                          Some _ \<Rightarrow> again s2
                        | None \<Rightarrow> Returns (s2, Some err)))
              | Blocks \<Rightarrow> Blocks
              | Panics \<Rightarrow> Panics))"

fun sc_broadcast ::
    "(sidecar_env \<Rightarrow> unit sc_call) \<Rightarrow> (sidecar_env \<times> sidecar) list \<Rightarrow> ((sidecar_env \<times> sidecar) list \<times> sc_error option) run" where
  "sc_broadcast fn [] = Returns ([], None)"
| "sc_broadcast fn ((env, s) # rest) =
     (case sc_broadcast_one fn env s of
        Returns (s1, Some err) \<Rightarrow> Returns ((env, s1) # rest, Some err)
      | Returns (s1, None) \<Rightarrow>
          (case sc_broadcast fn rest of
             Returns (rest1, r) \<Rightarrow> Returns ((env, s1) # rest1, r)
           | x \<Rightarrow> x)
      | Blocks \<Rightarrow> Blocks
      | Panics \<Rightarrow> Panics)"

definition pool_Create ::
    "(string \<Rightarrow> string + unit answered) \<Rightarrow> string \<Rightarrow> string \<Rightarrow> string \<Rightarrow> bool \<Rightarrow> sidecar_pool \<Rightarrow> (sidecar_pool \<times> sc_error option) run" where
  "pool_Create decode name code metadata force p =
     (case sc_broadcast (\<lambda>env. sc_Create env decode name code metadata force) (pl_sidecars p) of
        Returns (scs, r) \<Rightarrow> Returns (p\<lparr>pl_sidecars := scs\<rparr>, r)
      | Blocks \<Rightarrow> Blocks
      | Panics \<Rightarrow> Panics)"

text \<open>A call on the sidecar that was picked; a \<open>nil\<close> sidecar makes it panic.\<close>

definition on_picked :: "(sidecar_env \<Rightarrow> 'r sc_call) \<Rightarrow> sidecar_pool \<Rightarrow> (sidecar_pool \<times> (sc_error + 'r)) run" where
  "on_picked call p =
     (case pick p of
        (p1, None) \<Rightarrow> Panics
      | (p1, Some i) \<Rightarrow>
          (case pl_sidecars p ! i of
             (env, s) \<Rightarrow>
               (case call env s of
                  Returns (s1, r) \<Rightarrow> Returns (p1\<lparr>pl_sidecars := (pl_sidecars p)[i := (env, s1)]\<rparr>, r)
                | Blocks \<Rightarrow> Blocks
                | Panics \<Rightarrow> Panics)))"

definition pool_Run ::
    "sidecar_config \<Rightarrow> (string \<Rightarrow> string + RunResult) \<Rightarrow> string \<Rightarrow> string \<Rightarrow> (string \<times> nat) option \<Rightarrow> (string \<times> string) option \<Rightarrow>
     sidecar_pool \<Rightarrow> (sidecar_pool \<times> (sc_error + RunResult)) run" where
  "pool_Run cf decode name params manifest opts p = on_picked (\<lambda>env. sc_Run env cf decode name params manifest opts) p"

end
