(* ===== verification/SidecarProperties.thy ===== *)
theory SidecarProperties
  imports Sidecar
begin

text \<open>
  What the client of the strategy runner guarantees: how often a request reaches a runner, that an
  answer belongs to the request it is returned for (unless a read times out), when a call can
  panic, which sidecar the pool picks and what a broadcast has done when it succeeds.
\<close>

subsection \<open>One exchange\<close>

lemma map_sum_eqs [simp]: "map_sum f g (Inl a) = Inl (f a)" "map_sum f g (Inr b) = Inr (g b)"
  by simp_all

lemma tick_simps [simp]:
  "sc_conn (sc_tick s) = sc_conn s" "sc_pipe (sc_tick s) = sc_pipe s" "sc_received (sc_tick s) = sc_received s"
  "sc_healthy (sc_tick s) = sc_healthy s" "sc_io (sc_tick s) = Suc (sc_io s)"
  "sc_cut (sc_tick s) = sc_cut s" "sc_out (sc_tick s) = sc_out s" "sc_cut (sc_broken env s)" "sc_out (sc_broken env s) = sc_out s"
  "sc_conn (sc_broken env s) = sc_conn s" "sc_pipe (sc_broken env s) = sc_pipe s" "sc_received (sc_broken env s) = sc_received s"
  "sc_healthy (sc_broken env s) = False"
  by (simp_all add: sc_tick_def sc_broken_def)

lemma emit_simps [simp]:
  "sc_conn (sc_emitEvent env a b c d e s) = sc_conn s" "sc_pipe (sc_emitEvent env a b c d e s) = sc_pipe s"
  "sc_received (sc_emitEvent env a b c d e s) = sc_received s" "sc_healthy (sc_emitEvent env a b c d e s) = sc_healthy s"
  "sc_io (sc_emitEvent env a b c d e s) = sc_io s" "sc_cut (sc_emitEvent env a b c d e s) = sc_cut s"
  "sc_out (sc_emitEvent env a b c d e s) = sc_out s"
  by (simp_all add: sc_emitEvent_def)

text \<open>The three ways an exchange goes on an open connection.\<close>

lemma sendRecv_cases:
  assumes "sc_conn s"
  obtains (written) err k s' where "sx_write env (sc_cut s) (sc_io s) = Some (err, k)" "sc_conn s'" "sc_pipe s' = sc_pipe s"
      "sc_received s' = sc_received s" "sc_out s' = sc_out s @ take k data"
      "sc_healthy s' = (sc_healthy s \<and> \<not> isTransportError err)" "sc_cut s' = (sc_cut s \<or> isTransportError err)"
      "sendRecv env (Inr data) decode s = Returns (s', Inl (if isTransportError err then TransportErr ''write'' (''write: '' @ ne_msg err) else PlainErr (''write: '' @ ne_msg err)))"
    | (unread) err k s' where "sx_write env (sc_cut s) (sc_io s) = None" "sx_read env (sc_cut s) (Suc (sc_io s)) = Some (err, k)" "sc_conn s'"
      "sc_received s' = sc_received s @ [sc_out s @ data]" "sc_out s' = []"
      "sc_healthy s' = (sc_healthy s \<and> \<not> isTransportError err)" "sc_cut s' = (sc_cut s \<or> isTransportError err)"
      "sendRecv env (Inr data) decode s = Returns (s', Inl (if isTransportError err then TransportErr ''read'' (''read: '' @ ne_msg err) else PlainErr (''read: '' @ ne_msg err)))"
    | (answered) line ls s' where "sx_write env (sc_cut s) (sc_io s) = None"
      "sc_pipe s @ [sx_answer env (sc_io s) (sc_out s @ data)] = line # ls" "sc_conn s'" "sc_pipe s' = ls"
      "sc_received s' = sc_received s @ [sc_out s @ data]" "sc_out s' = []" "sc_healthy s' = sc_healthy s" "sc_cut s' = sc_cut s"
      "sendRecv env (Inr data) decode s = Returns (s', map_sum PlainErr id (decode line))"
proof (cases "sx_write env (sc_cut s) (sc_io s)")
  case (Some p)
  obtain err k where p: "p = (err, k)" by (cases p)
  let ?s1 = "(sc_tick s)\<lparr>sc_out := sc_out s @ take k data\<rparr>"
  show thesis
    by (rule written [of err k "if isTransportError err then sc_broken env ?s1 else ?s1"])
      (use assms Some p in \<open>auto simp: sendRecv_def Let_def\<close>)
next
  case w: None
  let ?sent = "sc_out s @ data"
  let ?s1 = "(sc_tick s)\<lparr>sc_out := [], sc_received := sc_received s @ [?sent], sc_pipe := sc_pipe s @ [sx_answer env (sc_io s) ?sent]\<rparr>"
  show thesis
  proof (cases "sx_read env (sc_cut s) (Suc (sc_io s))")
    case None
    obtain l ls where l: "sc_pipe s @ [sx_answer env (sc_io s) ?sent] = l # ls" by (cases "sc_pipe s") auto
    show thesis
      by (rule answered [OF w l, of "(sc_tick ?s1)\<lparr>sc_pipe := ls\<rparr>"])
        (use assms w None l in \<open>auto simp: sendRecv_def Let_def readLine_def\<close>)
  next
    case (Some p)
    obtain err k where p: "p = (err, k)" by (cases p)
    let ?s2 = "(sc_tick ?s1)\<lparr>sc_pipe := (case sc_pipe ?s1 of [] \<Rightarrow> [] | l # ls \<Rightarrow> drop k l # ls)\<rparr>"
    show thesis
      by (rule unread [OF w, of err k "if isTransportError err then sc_broken env ?s2 else ?s2"])
        (use assms w Some p in \<open>auto simp: sendRecv_def Let_def readLine_def\<close>)
  qed
qed

lemma restart_facts:
  "restart env s = (s', Inr u) \<Longrightarrow> sc_conn s' \<and> \<not> sc_cut s' \<and> sc_out s' = [] \<and> sc_pipe s' = [] \<and> sc_received s' = sc_received s \<and> sc_healthy s'"
  "restart env s = (s', Inl e) \<Longrightarrow>
    \<not> sc_conn s' \<and> \<not> sc_cut s' \<and> sc_out s' = [] \<and> sc_pipe s' = [] \<and> sc_received s' = sc_received s \<and> sc_healthy s' = sc_healthy s"
  by (auto simp: restart_def Let_def split: option.splits)

text \<open>The steps of a call that nothing comes between, as one expression.\<close>

lemma withRetry_alone:
  "withRetry env fn ro rw s =
     (case fn s of
        Returns (s1, Inr r) \<Rightarrow> Returns (s1, Inr r)
      | Returns (s1, Inl err) \<Rightarrow>
          (case as_transport err of
             None \<Rightarrow> Returns (s1, Inl err)
           | Some (phase, msg) \<Rightarrow>
               (case restart env s1 of
                  (s2, Inl _) \<Rightarrow> Returns (s2, Inl (TransportErr phase msg))
                | (s2, Inr _) \<Rightarrow>
                    if ro \<or> rw \<and> phase = ''write'' then fn s2
                    else Returns (s2, Inl (RestartedErr msg))))
      | Blocks \<Rightarrow> Blocks
      | Panics \<Rightarrow> Panics)"
proof (cases "fn s")
  case (Returns p)
  obtain s1 x where p: "p = (s1, x)" by (cases p)
  show ?thesis
  proof (cases x)
    case (Inl err)
    show ?thesis
    proof (cases "as_transport err")
      case (Some pm)
      obtain phase msg where pm: "pm = (phase, msg)" by (cases pm)
      obtain s2 z where z: "restart env s1 = (s2, z)" by (metis prod.exhaust)
      show ?thesis
        by (cases z; cases "fn s2") (auto simp: withRetry_def Let_def returned_def Returns p Inl Some pm z split: prod.splits)
    qed (simp add: withRetry_def Let_def returned_def Returns p Inl)
  qed (simp add: withRetry_def Let_def returned_def Returns p)
qed (simp_all add: withRetry_def Let_def returned_def)

subsection \<open>How often a request reaches a runner\<close>

text \<open>The lines a call has put on the wire: its request, behind what an earlier failed write has left there, if anything.\<close>

definition delivered :: "string list \<Rightarrow> string \<Rightarrow> sidecar \<Rightarrow> sidecar \<Rightarrow> bool" where
  "delivered ls data s s' \<longleftrightarrow> sc_received s' = sc_received s @ ls \<and> set ls \<subseteq> {data, sc_out s @ data}"

lemma sendRecv_delivered:
  assumes "sendRecv env (Inr data) decode s = Returns (s', x)"
  shows "\<exists>ls. delivered ls data s s' \<and> length ls \<le> 1 \<and> set ls \<subseteq> {sc_out s @ data} \<and> (is_ok x \<longrightarrow> ls \<noteq> []) \<and>
    (\<forall>msg. x = Inl (TransportErr ''write'' msg) \<longrightarrow> ls = [])"
proof -
  have "sc_conn s" using assms by (auto simp: sendRecv_def split: if_splits)
  then show ?thesis
  proof (cases rule: sendRecv_cases [of s env data decode])
    case (written err k t)
    with assms have "s' = t" "\<not> is_ok x" by auto
    then show ?thesis using written(4) by (intro exI [of _ "[]"]) (auto simp: delivered_def)
  next
    case (unread err k t)
    with assms have "s' = t" "\<not> is_ok x" "x \<noteq> Inl (TransportErr ''write'' msg)" for msg by (auto split: if_splits)
    then show ?thesis using unread(4) by (intro exI [of _ "[sc_out s @ data]"]) (auto simp: delivered_def)
  next
    case (answered line ls t)
    with assms have "s' = t" "x \<noteq> Inl (TransportErr ''write'' msg)" for msg by (cases "decode line"; auto)+
    then show ?thesis using answered(5) by (intro exI [of _ "[sc_out s @ data]"]) (auto simp: delivered_def)
  qed
qed

lemma sendRecv_error:
  assumes "sendRecv env (Inr data) decode s = Returns (s', Inl err)" "as_transport err = Some (phase, msg)"
  shows "err = TransportErr phase msg" "\<not> sc_healthy s'"
proof -
  have "sc_conn s" using assms(1) by (auto simp: sendRecv_def split: if_splits)
  then have "err = TransportErr phase msg \<and> \<not> sc_healthy s'"
  proof (cases rule: sendRecv_cases [of s env data decode])
    case (answered line ls t)
    with assms show ?thesis by (cases "decode line") auto
  qed (use assms in \<open>auto split: if_splits\<close>)
  then show "err = TransportErr phase msg" "\<not> sc_healthy s'" by auto
qed

lemma withRetry_cases:
  assumes "withRetry env fn ro rw s = Returns (s', x)"
  obtains (once) "fn s = Returns (s', x)" "case x of Inl err \<Rightarrow> as_transport err = None | Inr _ \<Rightarrow> True"
    | (dead) s1 err phase msg e where "fn s = Returns (s1, Inl err)" "as_transport err = Some (phase, msg)" "restart env s1 = (s', Inl e)"
      "x = Inl (TransportErr phase msg)"
    | (again) s1 err phase msg s2 u where "fn s = Returns (s1, Inl err)" "as_transport err = Some (phase, msg)" "restart env s1 = (s2, Inr u)"
      "ro \<or> rw \<and> phase = ''write''" "fn s2 = Returns (s', x)"
    | (restarted) s1 err phase msg u where "fn s = Returns (s1, Inl err)" "as_transport err = Some (phase, msg)" "restart env s1 = (s', Inr u)"
      "\<not> ro" "x = Inl (RestartedErr msg)"
proof (cases "fn s")
  case (Returns p)
  obtain s1 y where p: "p = (s1, y)" by (cases p)
  show thesis
  proof (cases y)
    case (Inr r)
    with assms Returns p show thesis by (intro once) (auto simp: withRetry_alone)
  next
    case (Inl err)
    show thesis
    proof (cases "as_transport err")
      case None
      with assms Returns p Inl show thesis by (intro once) (auto simp: withRetry_alone)
    next
      case (Some pm)
      obtain phase msg where pm: "pm = (phase, msg)" by (cases pm)
      obtain s2 z where z: "restart env s1 = (s2, z)" by (metis prod.exhaust)
      note facts = assms [unfolded withRetry_alone Returns p Inl run.case prod.case sum.case Some pm option.case z]
      show thesis
      proof (cases z)
        case (Inl e)
        then show thesis using facts Returns p \<open>y = Inl err\<close> Some pm z by (intro dead [of s1 err phase msg e]) auto
      next
        case (Inr u)
        show thesis
        proof (cases "ro \<or> rw \<and> phase = ''write''")
          case True
          then have "fn s2 = Returns (s', x)" using facts Inr by (simp split: if_splits)
          with True Inr Returns p \<open>y = Inl err\<close> Some pm z show thesis by (intro again [of s1 err phase msg s2 u]) auto
        next
          case False
          then show thesis using facts Inr Returns p \<open>y = Inl err\<close> Some pm z by (intro restarted [of s1 err phase msg u]) auto
        qed
      qed
    qed
  qed
qed (use assms in \<open>auto simp: withRetry_alone\<close>)

lemma withRetry_delivered:
  assumes "withRetry env (sendRecv env (Inr data) decode) ro rw s = Returns (s', x)"
  shows "\<exists>ls. delivered ls data s s' \<and> length ls \<le> (if ro then 2 else 1) \<and> (is_ok x \<longrightarrow> ls \<noteq> [])"
  using assms
proof (cases rule: withRetry_cases)
  case once
  from sendRecv_delivered [OF once(1)] obtain ls where "delivered ls data s s'" "length ls \<le> 1" "is_ok x \<longrightarrow> ls \<noteq> []" by blast
  then show ?thesis by (intro exI [of _ ls]) auto
next
  case (dead s1 err phase msg e)
  from sendRecv_delivered [OF dead(1)] obtain ls where "delivered ls data s s1" "length ls \<le> 1" by blast
  then show ?thesis using restart_facts(2) [OF dead(3)] dead(4) by (intro exI [of _ ls]) (auto simp: delivered_def)
next
  case (again s1 err phase msg s2 u)
  note err = sendRecv_error(1) [OF again(1,2)]
  from sendRecv_delivered [OF again(1)] obtain ls where ls: "delivered ls data s s1" "length ls \<le> 1" "phase = ''write'' \<longrightarrow> ls = []"
    using err by blast
  from sendRecv_delivered [OF again(5)] obtain ks where
    ks: "delivered ks data s2 s'" "length ks \<le> 1" "is_ok x \<longrightarrow> ks \<noteq> []" by blast
  have "delivered (ls @ ks) data s s'"
    using ls(1) ks(1) restart_facts(1) [OF again(3)] by (auto simp: delivered_def)
  with ls ks again(4) show ?thesis by (intro exI [of _ "ls @ ks"]) auto
next
  case (restarted s1 err phase msg u)
  from sendRecv_delivered [OF restarted(1)] obtain ls where "delivered ls data s s1" "length ls \<le> 1" by blast
  then show ?thesis using restart_facts(1) [OF restarted(3)] restarted(4,5) by (intro exI [of _ ls]) (auto simp: delivered_def)
qed

subsection \<open>Whose answer a call returns\<close>

text \<open>
  The sidecar is in step with its runner: if it has a connection and is healthy, the connection is
  not cut and nothing is left on it, neither a part of a request nor an unread answer; if it is
  not healthy, the connection is cut.
\<close>

definition in_sync :: "sidecar \<Rightarrow> bool" where
  "in_sync s \<longleftrightarrow>
     (sc_conn s \<longrightarrow> (if sc_healthy s then \<not> sc_cut s \<and> sc_out s = [] \<and> sc_pipe s = [] else sc_cut s))"

text \<open>
  Errors of the connection all say that it is gone, and then every further write to it fails. (A
  timeout is an error that does not.)
\<close>

definition only_transport :: "sidecar_env \<Rightarrow> bool" where
  "only_transport env \<longleftrightarrow>
     (\<forall>c n err k. sx_write env c n = Some (err, k) \<longrightarrow> isTransportError err) \<and>
     (\<forall>c n err k. sx_read env c n = Some (err, k) \<longrightarrow> isTransportError err) \<and>
     (\<forall>n. sx_write env True n \<noteq> None)"

lemma sendRecv_runs: "sc_conn s \<Longrightarrow> \<exists>s' x. sendRecv env (Inr data) decode s = Returns (s', x) \<and> sc_conn s'"
  by (rule sendRecv_cases [of s env data decode]) auto

lemma sendRecv_sync:
  assumes "only_transport env" "in_sync s" "sendRecv env (Inr data) decode s = Returns (s', x)"
  shows "in_sync s'" "x = Inr r \<Longrightarrow> \<exists>n. decode (sx_answer env n data) = Inr r"
proof -
  have conn: "sc_conn s" using assms(3) by (auto simp: sendRecv_def split: if_splits)
  then have "in_sync s' \<and> (x = Inr r \<longrightarrow> (\<exists>n. decode (sx_answer env n data) = Inr r))"
  proof (cases rule: sendRecv_cases [of s env data decode])
    case (written err k t)
    moreover from written(1) assms(1) have "isTransportError err" unfolding only_transport_def by blast
    ultimately show ?thesis using assms(3) by (auto simp: in_sync_def)
  next
    case (unread err k t)
    moreover from unread(2) assms(1) have "isTransportError err" unfolding only_transport_def by blast
    ultimately show ?thesis using assms(3) by (auto simp: in_sync_def)
  next
    case (answered line ls t)
    then have s': "s' = t" "x = map_sum PlainErr id (decode line)" using assms(3) by auto
    have "\<not> sc_cut s" using answered(1) assms(1) unfolding only_transport_def by metis
    with assms(2) conn have s: "sc_healthy s" "sc_pipe s = []" "sc_out s = []" by (auto simp: in_sync_def split: if_splits)
    with answered s' \<open>\<not> sc_cut s\<close> have "in_sync s'" "line = sx_answer env (sc_io s) data" by (auto simp: in_sync_def)
    then show ?thesis using s'(2) by (cases "decode line") auto
  qed
  then show "in_sync s'" "x = Inr r \<Longrightarrow> \<exists>n. decode (sx_answer env n data) = Inr r" by auto
qed

lemma restart_sync:
  assumes "restart env s = (s', r)"
  shows "in_sync s'"
  using restart_facts [of env s s'] assms by (cases r) (simp_all add: in_sync_def)

subsection \<open>Several callers\<close>

lemma sendRecv_clean:
  assumes "only_transport env" "in_sync s" "sendRecv env (Inr data) decode s = Returns (s', x)" "sc_received s' \<noteq> sc_received s"
  shows "sc_out s = []"
proof -
  have conn: "sc_conn s" using assms(3) by (auto simp: sendRecv_def split: if_splits)
  then have "\<not> sc_cut s"
  proof (cases rule: sendRecv_cases [of s env data decode])
    case (written err k t)
    with assms(3,4) show ?thesis by auto
  qed (use assms(1) in \<open>metis only_transport_def\<close>)+
  with assms(2) conn show ?thesis by (auto simp: in_sync_def split: if_splits)
qed

text \<open>How many of a caller's lines have arrived, at most, where it stands.\<close>

fun sent_upto :: "'r retry_pc \<Rightarrow> nat" where
  "sent_upto PcCall = 0"
| "sent_upto (PcRestart phase msg) = (if phase = ''write'' then 0 else 1)"
| "sent_upto PcAgain = 0"
| "sent_upto _ = 1"

text \<open>One step of one caller: what it adds to the lines received, and that its own lines stay few.\<close>

lemma caller_step_sends:
  assumes "caller_step env rq (s, pc) = (s', pc')"
  shows "\<exists>ls. sc_received s' = sc_received s @ ls \<and> set ls \<subseteq> {sc_out s @ rq_data rq} \<and> length ls \<le> 1 \<and>
    (only_transport env \<longrightarrow> in_sync s \<longrightarrow> ls \<noteq> [] \<longrightarrow> sc_out s = []) \<and>
    (\<not> rq_readOnly rq \<longrightarrow> length ls + sent_upto pc \<le> sent_upto pc') \<and>
    (pc' = PcReturned (Inr r) \<longrightarrow> pc \<noteq> pc' \<longrightarrow> ls \<noteq> [])"
proof (cases pc)
  case PcCall
  show ?thesis
  proof (cases "sendRecv env (Inr (rq_data rq)) (rq_decode rq) s")
    case (Returns p)
    obtain s1 x where p: "p = (s1, x)" by (cases p)
    from sendRecv_delivered [OF Returns [unfolded p]] obtain ls where
      ls: "delivered ls (rq_data rq) s s1" "length ls \<le> 1" "set ls \<subseteq> {sc_out s @ rq_data rq}" "is_ok x \<longrightarrow> ls \<noteq> []"
        "\<forall>msg. x = Inl (TransportErr ''write'' msg) \<longrightarrow> ls = []" by blast
    have err: "x = Inl e \<Longrightarrow> as_transport e = Some (phase, msg) \<Longrightarrow> e = TransportErr phase msg" for e phase msg
      using sendRecv_error(1) Returns p by metis
    note clean = sendRecv_clean [OF _ _ Returns [unfolded p]]
    have "s' = s1 \<and> (pc' = PcReturned x \<or> (\<exists>phase msg. pc' = PcRestart phase msg \<and> x = Inl (TransportErr phase msg)))"
      using assms Returns p PcCall err
      by (cases x) (auto simp: caller_step_def returned_def split: option.splits)
    with ls clean PcCall show ?thesis by (intro exI [of _ ls]) (cases x; auto simp: delivered_def)
  qed (use assms PcCall in \<open>auto simp: caller_step_def returned_def\<close>)
next
  case PcAgain
  show ?thesis
  proof (cases "sendRecv env (Inr (rq_data rq)) (rq_decode rq) s")
    case (Returns p)
    obtain s1 x where p: "p = (s1, x)" by (cases p)
    from sendRecv_delivered [OF Returns [unfolded p]] obtain ls where
      ls: "delivered ls (rq_data rq) s s1" "length ls \<le> 1" "set ls \<subseteq> {sc_out s @ rq_data rq}" "is_ok x \<longrightarrow> ls \<noteq> []" by blast
    with assms Returns p PcAgain sendRecv_clean [OF _ _ Returns [unfolded p]] show ?thesis
      by (intro exI [of _ ls]) (cases x; auto simp: caller_step_def returned_def delivered_def)
  qed (use assms PcAgain in \<open>auto simp: caller_step_def returned_def\<close>)
next
  case (PcRestart phase msg)
  obtain s1 z where z: "restart env s = (s1, z)" by (metis prod.exhaust)
  with assms PcRestart restart_facts [of env s s1] show ?thesis
    by (cases z) (auto simp: caller_step_def split: if_splits)
qed (use assms in \<open>auto simp: caller_step_def\<close>)

lemma caller_step_sync:
  assumes "only_transport env" "in_sync s" "caller_step env rq (s, pc) = (s', pc')"
  shows "in_sync s'" "pc' = PcReturned (Inr r) \<Longrightarrow> pc \<noteq> pc' \<Longrightarrow> \<exists>n. rq_decode rq (sx_answer env n (rq_data rq)) = Inr r"
proof -
  have "in_sync s' \<and> (pc' = PcReturned (Inr r) \<longrightarrow> pc \<noteq> pc' \<longrightarrow> (\<exists>n. rq_decode rq (sx_answer env n (rq_data rq)) = Inr r))"
  proof (cases "pc = PcCall \<or> pc = PcAgain")
    case True
    show ?thesis
    proof (cases "sendRecv env (Inr (rq_data rq)) (rq_decode rq) s")
      case (Returns p)
      obtain s1 x where p: "p = (s1, x)" by (cases p)
      have "s' = s1" "pc' = PcReturned (Inr r) \<Longrightarrow> x = Inr r"
        using assms(3) Returns p True by (cases x; auto simp: caller_step_def returned_def split: option.splits)+
      with sendRecv_sync [OF assms(1,2) Returns [unfolded p]] show ?thesis by blast
    qed (use assms True in \<open>auto simp: caller_step_def returned_def\<close>)
  next
    case False
    show ?thesis
    proof (cases pc)
      case (PcRestart phase msg)
      obtain s1 z where z: "restart env s = (s1, z)" by (metis prod.exhaust)
      with assms(3) PcRestart restart_sync [OF z] show ?thesis
        by (cases z) (auto simp: caller_step_def split: if_splits)
    qed (use assms False in \<open>auto simp: caller_step_def\<close>)
  qed
  then show "in_sync s'" "pc' = PcReturned (Inr r) \<Longrightarrow> pc \<noteq> pc' \<Longrightarrow> \<exists>n. rq_decode rq (sx_answer env n (rq_data rq)) = Inr r"
    by blast+
qed

text \<open>Without a restart that fails the connection is always there, and no step panics.\<close>

lemma caller_step_alive:
  assumes "\<And>n. sx_restart env n = None" "sc_conn s" "pc \<noteq> PcPanicked" "caller_step env rq (s, pc) = (s', pc')"
  shows "sc_conn s' \<and> pc' \<noteq> PcPanicked"
proof (cases "pc = PcCall \<or> pc = PcAgain")
  case True
  obtain s1 x where "sendRecv env (Inr (rq_data rq)) (rq_decode rq) s = Returns (s1, x)" "sc_conn s1"
    using sendRecv_runs [OF assms(2)] by blast
  with assms(4) True show ?thesis
    by (cases x) (auto simp: caller_step_def returned_def split: option.splits)
next
  case False
  with assms show ?thesis
    by (cases pc) (auto simp: caller_step_def restart_def Let_def split: if_splits)
qed

definition callers_start :: "sidecar \<Rightarrow> 'r callers \<Rightarrow> bool" where
  "callers_start s0 st \<longleftrightarrow> in_sync s0 \<and> sc_conn s0 \<and> st = (s0, \<lambda>_. PcCall, [])"

definition callers_inv :: "sidecar_env \<Rightarrow> sidecar \<Rightarrow> (nat \<Rightarrow> 'r request) \<Rightarrow> 'r callers \<Rightarrow> bool" where
  "callers_inv env s0 rq st \<longleftrightarrow> (case st of (s, pcs, log) \<Rightarrow>
     in_sync s \<and>
     (\<forall>i r. pcs i = PcReturned (Inr r) \<longrightarrow> (\<exists>n. rq_decode (rq i) (sx_answer env n (rq_data (rq i))) = Inr r) \<and> i \<in> set log) \<and>
     sc_received s = sc_received s0 @ map (\<lambda>i. rq_data (rq i)) log \<and>
     (\<forall>i. \<not> rq_readOnly (rq i) \<longrightarrow> count_list log i \<le> sent_upto (pcs i)) \<and>
     ((\<forall>n. sx_restart env n = None) \<longrightarrow> sc_conn s \<and> (\<forall>i. pcs i \<noteq> PcPanicked)))"

lemma callers_inv_step:
  assumes "only_transport env" "callers_inv env s0 rq (s, pcs, log)" "caller_step env (rq i) (s, pcs i) = (s', pc)"
    and log': "log' = (if length (sc_received s') = length (sc_received s) then log else log @ [i])"
  shows "callers_inv env s0 rq (s', pcs(i := pc), log')"
proof -
  have sync: "in_sync s" and ans: "pcs j = PcReturned (Inr r) \<Longrightarrow> (\<exists>n. rq_decode (rq j) (sx_answer env n (rq_data (rq j))) = Inr r) \<and> j \<in> set log"
    and rec: "sc_received s = sc_received s0 @ map (\<lambda>i. rq_data (rq i)) log"
    and cnt: "\<not> rq_readOnly (rq j) \<Longrightarrow> count_list log j \<le> sent_upto (pcs j)"
    and alive: "(\<forall>n. sx_restart env n = None) \<Longrightarrow> sc_conn s \<and> (\<forall>i. pcs i \<noteq> PcPanicked)" for j r
    using assms(2) by (simp_all add: callers_inv_def)
  obtain ls where ls: "sc_received s' = sc_received s @ ls" "set ls \<subseteq> {sc_out s @ rq_data (rq i)}" "length ls \<le> 1" "ls \<noteq> [] \<longrightarrow> sc_out s = []"
      "\<not> rq_readOnly (rq i) \<longrightarrow> length ls + sent_upto (pcs i) \<le> sent_upto pc"
      "\<And>r. pc = PcReturned (Inr r) \<Longrightarrow> pcs i \<noteq> pc \<Longrightarrow> ls \<noteq> []"
    using caller_step_sends [OF assms(3)] assms(1) sync by blast
  have ls': "ls = [] \<and> log' = log \<or> ls = [rq_data (rq i)] \<and> log' = log @ [i]"
    using ls(1-4) log' by (cases ls) auto
  have "sc_received s' = sc_received s0 @ map (\<lambda>i. rq_data (rq i)) log'" using ls' ls(1) rec by auto
  moreover have "(\<exists>n. rq_decode (rq j) (sx_answer env n (rq_data (rq j))) = Inr r) \<and> j \<in> set log'"
    if "(pcs(i := pc)) j = PcReturned (Inr r)" for j r
  proof (cases "j = i \<and> pcs i \<noteq> pc")
    case True
    with that caller_step_sync(2) [OF assms(1) sync assms(3)] ls(6) ls' show ?thesis by auto
  next
    case False
    with that have "pcs j = PcReturned (Inr r)" by (auto split: if_splits)
    from ans [OF this] ls' show ?thesis by auto
  qed
  moreover have "count_list log' j \<le> sent_upto ((pcs(i := pc)) j)" if "\<not> rq_readOnly (rq j)" for j
    using cnt [OF that] ls' ls(5) that by (cases "j = i") auto
  moreover have "sc_conn s' \<and> (\<forall>j. (pcs(i := pc)) j \<noteq> PcPanicked)" if "\<forall>n. sx_restart env n = None"
    using caller_step_alive [OF _ _ _ assms(3)] alive [OF that] that by auto
  ultimately show ?thesis using caller_step_sync(1) [OF assms(1) sync assms(3)] unfolding callers_inv_def prod.case by blast
qed

interpretation callers: inductive_invariant "callers_start s0" "callers_step env rq" "\<lambda>st. only_transport env \<longrightarrow> callers_inv env s0 rq st" for env s0 rq
proof
  show "only_transport env \<longrightarrow> callers_inv env s0 rq st" if "callers_start s0 st" for st
    using that by (auto simp: callers_start_def callers_inv_def in_sync_def)
  show "only_transport env \<longrightarrow> callers_inv env s0 rq st'"
    if "only_transport env \<longrightarrow> callers_inv env s0 rq st" "callers_step env rq st st'" for st st'
    using that(2,1) by (cases rule: callers_step.cases) (auto intro: callers_inv_step)
qed

text \<open>
  However the calls interleave and whatever fails: a call that is not marked read-only has put at
  most one line on the wire, and every call that returned a result at least one.
\<close>

definition sends_inv :: "(nat \<Rightarrow> 'r request) \<Rightarrow> 'r callers \<Rightarrow> bool" where
  "sends_inv rq st \<longleftrightarrow> (case st of (s, pcs, log) \<Rightarrow>
     (\<forall>i. \<not> rq_readOnly (rq i) \<longrightarrow> count_list log i \<le> sent_upto (pcs i)) \<and>
     (\<forall>i r. pcs i = PcReturned (Inr r) \<longrightarrow> i \<in> set log))"

interpretation sends: inductive_invariant "\<lambda>st. \<exists>s0. st = (s0, \<lambda>_. PcCall, [])" "callers_step env rq" "sends_inv rq" for env rq
proof
  show "sends_inv rq st" if "\<exists>s0. st = (s0, \<lambda>_. PcCall, [])" for st
    using that by (auto simp: sends_inv_def)
  show "sends_inv rq st'" if "sends_inv rq st" "callers_step env rq st st'" for st st'
    using that(2)
  proof cases
    case (cs_step i s pcs s' pc log)
    have inv: "\<not> rq_readOnly (rq j) \<Longrightarrow> count_list log j \<le> sent_upto (pcs j)" "pcs j = PcReturned (Inr r) \<Longrightarrow> j \<in> set log" for j r
      using that(1) cs_step(1) by (simp_all add: sends_inv_def)
    obtain ls where ls: "sc_received s' = sc_received s @ ls" "length ls \<le> 1" "\<not> rq_readOnly (rq i) \<longrightarrow> length ls + sent_upto (pcs i) \<le> sent_upto pc"
        "\<And>r. pc = PcReturned (Inr r) \<Longrightarrow> pcs i \<noteq> pc \<Longrightarrow> ls \<noteq> []"
      using caller_step_sends [OF cs_step(3)] by blast
    define log' where "log' = (if length (sc_received s') = length (sc_received s) then log else log @ [i])"
    have log': "ls = [] \<and> log' = log \<or> length ls = 1 \<and> log' = log @ [i]" using ls(1,2) by (cases ls) (auto simp: log'_def)
    have "count_list log' j \<le> sent_upto ((pcs(i := pc)) j)" if "\<not> rq_readOnly (rq j)" for j
      using inv(1) [OF that] log' ls(3) that by (cases "j = i") auto
    moreover have "j \<in> set log'" if "(pcs(i := pc)) j = PcReturned (Inr r)" for j r
    proof (cases "j = i \<and> pcs i \<noteq> pc")
      case True
      with that ls(4) log' show ?thesis by auto
    next
      case False
      with that have "pcs j = PcReturned (Inr r)" by (auto split: if_splits)
      from inv(2) [OF this] log' show ?thesis by auto
    qed
    ultimately show ?thesis unfolding cs_step(2) log'_def sends_inv_def prod.case by blast
  qed
qed

lemma interleaved_calls_sent_once:
  assumes "reach (\<lambda>st. \<exists>s0. st = (s0, \<lambda>_. PcCall, [])) (callers_step env rq) (s, pcs, log)"
  shows "(\<not> rq_readOnly (rq i) \<longrightarrow> count_list log i \<le> 1) \<and> (pcs i = PcReturned (Inr r) \<longrightarrow> i \<in> set log)"
proof -
  have "sent_upto (pcs i) \<le> 1" by (cases "pcs i") auto
  with sends.reach_inv [OF assms] show ?thesis by (auto simp: sends_inv_def intro: order_trans)
qed

subsection \<open>A run\<close>

abbreviation the_request :: "sidecar_env \<Rightarrow> sidecar_config \<Rightarrow> string \<Rightarrow> string \<Rightarrow> (string \<times> nat) option \<Rightarrow> (string \<times> string) option \<Rightarrow> string result" where
  "the_request env cf name params manifest opts \<equiv> sx_marshal env (run_request cf name params manifest (run_gateway cf opts) (run_agentTask cf opts))"

lemma sc_Run_inner:
  assumes "sc_Run env cf decode name params manifest opts s = Returns (s', x)" "the_request env cf name params manifest opts = Inr data"
  obtains s0 t y where "withRetry env (sendRecv env (Inr data) decode) False True s0 = Returns (t, y)"
    "sc_received s0 = sc_received s" "sc_healthy s0 = sc_healthy s" "sc_conn s0 = sc_conn s" "sc_pipe s0 = sc_pipe s" "sc_out s0 = sc_out s"
    "sc_received s' = sc_received t" "sc_healthy s' = sc_healthy t" "sc_conn s' = sc_conn t" "sc_pipe s' = sc_pipe t"
    "x = (case y of Inl err \<Rightarrow> Inl (Wrap ''run: '' err) | Inr r \<Rightarrow> Inr r)"
proof -
  obtain s0 where s0: "s0 = sc_emitEvent env ''sidecar_dispatch'' ''unknown'' name (run_agentTask cf opts)
      [(''manifest_tables'', itoa (case manifest of None \<Rightarrow> 0 | Some (_, n) \<Rightarrow> int n)), (''has_gateway'', format_bool (run_gateway cf opts \<noteq> []))] s"
    by blast
  note run = assms(1) [unfolded sc_Run_def Let_def assms(2), folded s0]
  show thesis
  proof (cases "withRetry env (sendRecv env (Inr data) decode) False True s0")
    case (Returns p)
    obtain t y where p: "p = (t, y)" by (cases p)
    show thesis
      by (rule that [of s0 t y]) (use run Returns p s0 in \<open>auto split: sum.splits\<close>)
  qed (use run in auto)
qed

text \<open>
  C38 (run_reaches_runner_once): whatever goes wrong on the socket, a call of \<open>Run\<close> gets its request
  to a strategy runner at most once, retries and restarts included, and exactly once when it
  returns a result: alone on its line, or behind what an earlier write that failed half way had
  left on the connection.
\<close>

theorem run_reaches_runner_once:
  assumes "the_request env cf name params manifest opts = Inr data"
    and "sc_Run env cf decode name params manifest opts s = Returns (s', x)"
  shows "\<exists>n \<le> 1. \<exists>pre \<in> {[], sc_out s}. sc_received s' = sc_received s @ replicate n (pre @ data) \<and> (is_ok x \<longrightarrow> n = 1)"
proof -
  from sc_Run_inner [OF assms(2,1)] obtain s0 t y where
    r: "withRetry env (sendRecv env (Inr data) decode) False True s0 = Returns (t, y)" "sc_received s0 = sc_received s" "sc_out s0 = sc_out s"
      "sc_received s' = sc_received t" "x = (case y of Inl err \<Rightarrow> Inl (Wrap ''run: '' err) | Inr r \<Rightarrow> Inr r)" by metis
  from withRetry_delivered [OF r(1)] obtain ls where ls: "delivered ls data s0 t" "length ls \<le> 1" "is_ok y \<longrightarrow> ls \<noteq> []" by auto
  have ok: "is_ok x = is_ok y" using r(5) by (cases y) auto
  show ?thesis
  proof (cases ls)
    case Nil
    with ls r ok show ?thesis by (intro exI [of _ 0]) (auto simp: delivered_def)
  next
    case (Cons l ks)
    with ls(2) have "ls = [l]" by simp
    with ls(1) r show ?thesis by (intro exI [of _ 1]) (auto simp: delivered_def)
  qed
qed

text \<open>
  C39 (answer_is_for_the_request): any number of goroutines call a sidecar that is in step with its
  runner and has a connection (as when it has just been started), and their attempts, restarts and second attempts come in any
  order. As long as the connection only ever fails for good (no timeouts), every result a call
  returns is the runner's answer to that call's own request; the runners have received whole
  requests only, those of a call that may not simply be repeated at most once, and one at least
  of a call that returned a result; the sidecar stays in step; and no call panics unless some
  restart fails.
\<close>

theorem answer_is_for_the_request:
  assumes "only_transport env" "reach (callers_start s0) (callers_step env rq) (s, pcs, log)"
  shows "in_sync s \<and>
    (\<forall>i r. pcs i = PcReturned (Inr r) \<longrightarrow> (\<exists>n. rq_decode (rq i) (sx_answer env n (rq_data (rq i))) = Inr r) \<and> i \<in> set log) \<and>
    sc_received s = sc_received s0 @ map (\<lambda>i. rq_data (rq i)) log \<and>
    (\<forall>i. \<not> rq_readOnly (rq i) \<longrightarrow> count_list log i \<le> 1) \<and>
    ((\<forall>n. sx_restart env n = None) \<longrightarrow> (\<forall>i. pcs i \<noteq> PcPanicked))"
proof -
  have inv: "callers_inv env s0 rq (s, pcs, log)" using callers.reach_inv [OF assms(2)] assms(1) by blast
  have "sent_upto (pcs i) \<le> 1" for i by (cases "pcs i") auto
  then have "\<not> rq_readOnly (rq i) \<Longrightarrow> count_list log i \<le> 1" for i
    using inv by (auto simp: callers_inv_def intro: order_trans)
  with inv show ?thesis by (simp add: callers_inv_def)
qed

text \<open>A call of \<open>Run\<close> that no other goroutine comes between is three steps of one caller (the last may be idle).\<close>

lemma run_is_one_caller:
  assumes "the_request env cf name params manifest opts = Inr data"
    and "sc_Run env cf decode name params manifest opts s = Returns (s', x)"
  obtains s0 t y where "sc_received s0 = sc_received s" "sc_received s' = sc_received t"
    "(caller_step env \<lparr>rq_data = data, rq_decode = decode, rq_readOnly = False, rq_retryOnWrite = True\<rparr> ^^ 3) (s0, PcCall) = (t, PcReturned y)"
    "x = (case y of Inl err \<Rightarrow> Inl (Wrap ''run: '' err) | Inr r \<Rightarrow> Inr r)"
proof -
  from sc_Run_inner [OF assms(2,1)] obtain s0 t y where
    r: "withRetry env (sendRecv env (Inr data) decode) False True s0 = Returns (t, y)" "sc_received s0 = sc_received s"
      "sc_received s' = sc_received t" "x = (case y of Inl err \<Rightarrow> Inl (Wrap ''run: '' err) | Inr r \<Rightarrow> Inr r)" by metis
  from r(1) have "(caller_step env \<lparr>rq_data = data, rq_decode = decode, rq_readOnly = False, rq_retryOnWrite = True\<rparr> ^^ 3) (s0, PcCall) = (t, PcReturned y)"
    unfolding withRetry_def Let_def by (auto simp: eval_nat_numeral caller_step_def split: prod.splits retry_pc.splits)
  with r that show thesis by blast
qed

text \<open>A sidecar that is ready, a runner that echoes, and a socket on which everything works.\<close>

definition ready_sidecar :: sidecar where
  "ready_sidecar = \<lparr>sc_healthy = True, sc_restarts = 0, sc_lastFailure = 0, sc_conn = True, sc_cut = False, sc_out = [], sc_pipe = [], sc_received = [], sc_events = [], sc_io = 0\<rparr>"

definition good_env :: sidecar_env where
  "good_env =
     \<lparr>sx_write = (\<lambda>_ _. None), sx_read = (\<lambda>_ _. None), sx_restart = (\<lambda>_. None), sx_clock = int, sx_answer = (\<lambda>_ req. req),
      sx_bus = True, sx_uuid = (\<lambda>_. ''u''), sx_marshal = (\<lambda>req. case map_of req ''strategy'' of Some (JStr name) \<Rightarrow> Inr name | _ \<Rightarrow> Inl ErrNotFound)\<rparr>"

definition plain_config :: sidecar_config where
  "plain_config = \<lparr>cf_gatewayURL = [], cf_agentTask = [], cf_runTimeout = 0, cf_stagingDir = ''/s'', cf_external = False\<rparr>"

definition echo_decode :: "string \<Rightarrow> string + RunResult" where
  "echo_decode line =
     Inr \<lparr>rr_Status = ''ok'', rr_Result = line, rr_PartialResults = None, rr_PartialResultsTruncated = False, rr_OmittedSteps = [],
          rr_Trace = [], rr_Steps = 0, rr_Error = []\<rparr>"

definition broken_pipe :: net_err where
  "broken_pipe = \<lparr>ne_kind = NkEPIPE, ne_msg = ''write: broken pipe''\<rparr>"

definition read_timeout :: net_err where
  "read_timeout = \<lparr>ne_kind = NkOther, ne_msg = ''read: i/o timeout''\<rparr>"

text \<open>The first write fails: the sidecar is restarted and the request sent again.\<close>

definition flaky_env :: sidecar_env where
  "flaky_env = good_env\<lparr>sx_write := (\<lambda>cut n. if cut \<or> n = 0 then Some (broken_pipe, 0) else None)\<rparr>"

abbreviation run_named :: "sidecar_env \<Rightarrow> string \<Rightarrow> RunResult sc_call" where
  "run_named env name \<equiv> sc_Run env plain_config echo_decode name ''{}'' None None"

theorem run_reaches_runner_once_witness:
  "\<exists>s' r. run_named flaky_env ''a'' ready_sidecar = Returns (s', Inr r) \<and> sc_received s' = [''a''] \<and> sc_restarts s' = 1"
proof -
  have m: "the_request flaky_env plain_config ''a'' ''{}'' None None = Inr ''a''"
    by (simp add: flaky_env_def good_env_def run_request_def)
  have "case run_named flaky_env ''a'' ready_sidecar of Returns (s', x) \<Rightarrow> is_ok x \<and> sc_restarts s' = 1 | _ \<Rightarrow> False" by code_simp
  then obtain s' x where run: "run_named flaky_env ''a'' ready_sidecar = Returns (s', x)" "is_ok x" "sc_restarts s' = 1"
    by (auto split: run.splits)
  from run_reaches_runner_once [OF m run(1)] run(2) have "sc_received s' = [''a'']" by (auto simp: ready_sidecar_def)
  with run show ?thesis by (cases x) auto
qed

definition two_requests :: "nat \<Rightarrow> RunResult request" where
  "two_requests i = \<lparr>rq_data = (if i = 0 then ''a'' else ''b''), rq_decode = echo_decode, rq_readOnly = False, rq_retryOnWrite = True\<rparr>"

text \<open>The callers take their steps in the given order.\<close>

fun run_callers :: "sidecar_env \<Rightarrow> (nat \<Rightarrow> 'r request) \<Rightarrow> nat list \<Rightarrow> 'r callers \<Rightarrow> 'r callers" where
  "run_callers env rq [] st = st"
| "run_callers env rq (i # is) (s, pcs, log) =
     (case caller_step env (rq i) (s, pcs i) of
        (s', pc) \<Rightarrow> run_callers env rq is (s', pcs(i := pc), if length (sc_received s') = length (sc_received s) then log else log @ [i]))"

lemma run_callers_reach:
  "reach I (callers_step env rq) st \<Longrightarrow> reach I (callers_step env rq) (run_callers env rq is st)"
proof (induction env rq "is" st rule: run_callers.induct)
  case (2 env rq i "is" s pcs log)
  obtain s' pc where st: "caller_step env (rq i) (s, pcs i) = (s', pc)" by (metis prod.exhaust)
  note next_st = reach_step [OF "2.prems" cs_step [where rq = rq and i = i and pcs = pcs, OF st]]
  from "2.IH" [of s' pc, OF st [symmetric]] next_st show ?case by (simp add: st)
qed simp

text \<open>The first write fails; the other caller then tries the connection that is cut, and both restart the sidecar in turn.\<close>

theorem answer_is_for_the_request_witness:
  "only_transport flaky_env \<and>
   (case run_callers flaky_env two_requests [0, 1, 0, 1, 0, 1] (ready_sidecar, \<lambda>_. PcCall, []) of
      (s, pcs, log) \<Rightarrow> in_sync s \<and> sc_received s = [''a'', ''b''] \<and> sc_restarts s = 2 \<and> log = [0, 1] \<and>
        (\<exists>r. pcs 0 = PcReturned (Inr r) \<and> rr_Result r = ''a''))"
proof -
  have o: "only_transport flaky_env" by (simp add: only_transport_def flaky_env_def good_env_def broken_pipe_def isTransportError_def)
  obtain s pcs log where st: "run_callers flaky_env two_requests [0, 1, 0, 1, 0, 1] (ready_sidecar, \<lambda>_. PcCall, []) = (s, pcs, log)"
    by (metis prod.exhaust)
  have "callers_start ready_sidecar (ready_sidecar, \<lambda>_. PcCall, [])" by (simp add: callers_start_def in_sync_def ready_sidecar_def)
  from run_callers_reach [OF reach_init [of "callers_start ready_sidecar", OF this]] have
    "reach (callers_start ready_sidecar) (callers_step flaky_env two_requests) (s, pcs, log)" by (metis st)
  note ans = answer_is_for_the_request [OF o this]
  have "case run_callers flaky_env two_requests [0, 1, 0, 1, 0, 1] (ready_sidecar, \<lambda>_. PcCall, []) of
      (s, pcs, log) \<Rightarrow> (case pcs 0 of PcReturned x \<Rightarrow> is_ok x | _ \<Rightarrow> False) \<and> log = [0, 1] \<and> sc_restarts s = 2" by code_simp
  then have c: "(case pcs 0 of PcReturned x \<Rightarrow> is_ok x | _ \<Rightarrow> False) \<and> log = [0, 1] \<and> sc_restarts s = 2" unfolding st prod.case .
  then obtain r where r: "pcs 0 = PcReturned (Inr r)" by (auto split: retry_pc.splits elim: is_ok.elims)
  with ans obtain n where "rq_decode (two_requests 0) (sx_answer flaky_env n (rq_data (two_requests 0))) = Inr r" by blast
  then have "rr_Result r = ''a''" by (auto simp: two_requests_def echo_decode_def flaky_env_def good_env_def)
  with ans c r o show ?thesis unfolding st prod.case by (auto simp: two_requests_def ready_sidecar_def)
qed

text \<open>
  A timeout is not a transport error: the sidecar stays healthy with the answer unread, and the
  next call returns it as its own.
\<close>

lemma timeout_leaves_stale_answer:
  "case run_named (good_env\<lparr>sx_read := (\<lambda>_ n. if n = 1 then Some (read_timeout, 0) else None)\<rparr>) ''a'' ready_sidecar of
     Returns (s, Inl _) \<Rightarrow>
       sc_healthy s \<and>
       (case run_named good_env ''b'' s of Returns (_, Inr r) \<Rightarrow> rr_Result r = ''a'' | _ \<Rightarrow> False)
   | _ \<Rightarrow> False"
  by code_simp

text \<open>After a restart that fails the connection is \<open>nil\<close>: the next call panics.\<close>

lemma failed_restart_then_panic:
  "case run_named (flaky_env\<lparr>sx_restart := (\<lambda>_. Some ''no socket'')\<rparr>) ''a'' ready_sidecar of
     Returns (s, Inl _) \<Rightarrow> run_named good_env ''b'' s = Panics
   | _ \<Rightarrow> False"
  by code_simp

text \<open>
  The restart of another call can be the one that fails: two calls begin on a healthy sidecar, the
  first one's restart succeeds, the second one's does not, and the first panics when it tries
  again. \<open>restart\<close> does not clear the health it finds, so the sidecar then even counts as healthy
  without a connection, and the pool goes on picking it.
\<close>

lemma other_restart_panics:
  "case run_callers (flaky_env\<lparr>sx_restart := (\<lambda>n. if n = 3 then Some ''no socket'' else None)\<rparr>) two_requests [0, 1, 0, 1, 0]
       (ready_sidecar, \<lambda>_. PcCall, []) of
     (s, pcs, log) \<Rightarrow> (case pcs 0 of PcPanicked \<Rightarrow> True | _ \<Rightarrow> False) \<and> sc_healthy s \<and> \<not> sc_conn s"
  by code_simp

text \<open>
  A write that times out half way leaves its part of the line on a sidecar that stays healthy: the
  next request is sent behind it, on the same line.
\<close>

lemma partial_write_merges:
  "case run_named (good_env\<lparr>sx_write := (\<lambda>_ n. if n = 0 then Some (\<lparr>ne_kind = NkOther, ne_msg = ''i/o timeout''\<rparr>, 1) else None)\<rparr>) ''abc'' ready_sidecar of
     Returns (s, Inl _) \<Rightarrow>
       sc_healthy s \<and> (case run_named good_env ''x'' s of Returns (s', _) \<Rightarrow> sc_received s' = [''ax''] | _ \<Rightarrow> False)
   | _ \<Rightarrow> False"
  by code_simp

subsection \<open>Picking a sidecar\<close>

lemma oldest_failure_some:
  "\<exists>j b. oldest_failure xs (Some (i, s)) = Some (j, b) \<and> (j, b) \<in> set ((i, s) # xs) \<and>
    (\<forall>(k, x) \<in> set ((i, s) # xs). sc_lastFailure b \<le> sc_lastFailure x)"
proof (induction xs arbitrary: i s)
  case (Cons a xs)
  obtain k x where a: "a = (k, x)" by (cases a)
  show ?case
  proof (cases "sc_lastFailure x < sc_lastFailure s")
    case True
    with Cons.IH [of k x] show ?thesis by (fastforce simp: a)
  next
    case False
    with Cons.IH [of i s] show ?thesis by (fastforce simp: a)
  qed
qed simp

lemma oldest_failure_enumerate:
  assumes "scs \<noteq> []"
  shows "\<exists>j. map_option fst (oldest_failure (enumerate 0 scs) None) = Some j \<and> j < length scs \<and>
    (\<forall>x \<in> set scs. sc_lastFailure (scs ! j) \<le> sc_lastFailure x)"
proof -
  obtain s rest where scs: "scs = s # rest" using assms by (cases scs) auto
  have e: "enumerate 0 scs = (0, s) # enumerate 1 rest" by (simp add: scs)
  from oldest_failure_some [of "enumerate 1 rest" 0 s] obtain j b where
    j: "oldest_failure (enumerate 0 scs) None = Some (j, b)" "(j, b) \<in> set (enumerate 0 scs)"
      "\<forall>(k, x) \<in> set (enumerate 0 scs). sc_lastFailure b \<le> sc_lastFailure x" unfolding e by auto
  have jb: "j < length scs" "scs ! j = b" using j(2) by (auto simp: in_set_enumerate_eq)
  have "sc_lastFailure b \<le> sc_lastFailure x" if x: "x \<in> set scs" for x
  proof -
    from x obtain k where "k < length scs" "scs ! k = x" by (auto simp: in_set_conv_nth)
    then have "(k, x) \<in> set (enumerate 0 scs)" by (simp add: in_set_enumerate_eq)
    with j(3) show ?thesis by auto
  qed
  with j(1) jb show ?thesis by auto
qed

lemma pick_position:
  fixes start :: "64 word"
  assumes "unat start + n < 2 ^ 64" "i < n"
  shows "unat ((start + of_nat i) mod of_nat n) = (unat start + i) mod n"
proof -
  have i: "unat (of_nat i :: 64 word) = i" "unat (of_nat n :: 64 word) = n"
    using assms by (simp_all add: unat_of_nat take_bit_nat_eq_self)
  have "unat start + i < 2 ^ 64" using assms by linarith
  then have "unat (start + of_nat i) = unat start + i" using i by (simp add: unat_word_ariths)
  then show ?thesis using i by (simp add: unat_mod_distrib)
qed

lemma rotation_covers:
  assumes "j < (n :: nat)"
  shows "\<exists>i < n. (s + i) mod n = j"
proof (intro exI conjI)
  let ?i = "(j + (n - s mod n)) mod n"
  show "?i < n" using assms by simp
  have "s mod n < n" using assms by simp
  have "(s + ?i) mod n = (s mod n + (j + (n - s mod n))) mod n" by (metis mod_add_left_eq mod_add_right_eq)
  also have "\<dots> = (j + n) mod n" using \<open>s mod n < n\<close> by (simp add: algebra_simps)
  finally show "(s + ?i) mod n = j" using assms by simp
qed

text \<open>
  C40 (pick_finds_healthy): as long as the 64-bit counter does not wrap during the search, the pool
  picks the first healthy sidecar from the counter's position on, around the pool; if none is
  healthy, one whose last failure is the oldest. The counter goes on by one.
\<close>

theorem pick_finds_healthy:
  assumes "pl_sidecars p \<noteq> []" "unat (pl_next p) + length (pl_sidecars p) < 2 ^ 64"
  defines "scs \<equiv> map snd (pl_sidecars p)"
  shows "\<exists>j < length scs. pick p = (p\<lparr>pl_next := pl_next p + 1\<rparr>, Some j) \<and>
    (if \<exists>s \<in> set scs. sc_healthy s
     then sc_healthy (scs ! j) \<and> (\<exists>i < length scs. j = (unat (pl_next p) + i) mod length scs \<and>
        (\<forall>k < i. \<not> sc_healthy (scs ! ((unat (pl_next p) + k) mod length scs))))
     else \<forall>s \<in> set scs. sc_lastFailure (scs ! j) \<le> sc_lastFailure s)"
proof -
  let ?n = "length scs" and ?at = "\<lambda>i. unat ((pl_next p + of_nat i) mod (of_nat (length scs) :: 64 word))"
  have n: "?n > 0" using assms(1) by (simp add: scs_def)
  have at: "?at i = (unat (pl_next p) + i) mod ?n" if "i < ?n" for i
    using pick_position [of "pl_next p" ?n i] assms(2) that by (simp add: scs_def)
  show ?thesis
  proof (cases "find (\<lambda>i. sc_healthy (scs ! ?at i)) [0..<?n]")
    case (Some i)
    then have i: "i < ?n" "sc_healthy (scs ! ?at i)" "\<forall>k < i. \<not> sc_healthy (scs ! ?at k)"
      by (auto simp: find_Some_iff)
    define j where "j = ?at i"
    have pick: "pick p = (p\<lparr>pl_next := pl_next p + 1\<rparr>, Some j)" using Some by (simp add: pick_def Let_def scs_def j_def)
    have j: "j = (unat (pl_next p) + i) mod ?n" "sc_healthy (scs ! j)" using at [OF i(1)] i(2) by (simp_all add: j_def)
    then have lt: "j < ?n" using n by simp
    have before: "\<forall>k < i. \<not> sc_healthy (scs ! ((unat (pl_next p) + k) mod ?n))"
    proof (intro allI impI)
      fix k assume "k < i"
      with i(1) have "k < ?n" by simp
      from at [OF this] i(3) \<open>k < i\<close> show "\<not> sc_healthy (scs ! ((unat (pl_next p) + k) mod ?n))" by metis
    qed
    have some: "\<exists>s \<in> set scs. sc_healthy s" using j(2) lt by (metis nth_mem)
    show ?thesis unfolding if_P [OF some]
      by (intro exI [of _ j] conjI exI [of _ i]) (fact lt pick j before i(1))+
  next
    case None
    have none: "\<not> sc_healthy s" if "s \<in> set scs" for s
    proof -
      from that obtain j where j: "j < ?n" "scs ! j = s" by (auto simp: in_set_conv_nth)
      with rotation_covers [OF j(1), of "unat (pl_next p)"] obtain i where i: "i < ?n" "?at i = j" using at by auto
      from None have "\<forall>x < ?n. \<not> sc_healthy (scs ! ?at x)" by (simp add: find_None_iff)
      with i(1) have "\<not> sc_healthy (scs ! ?at i)" by blast
      with i(2) j(2) show ?thesis by simp
    qed
    have "pick p = (p\<lparr>pl_next := pl_next p + 1\<rparr>, map_option fst (oldest_failure (enumerate 0 scs) None))"
      using None by (simp add: pick_def Let_def scs_def)
    with oldest_failure_enumerate [of scs] n none show ?thesis by fastforce
  qed
qed

definition sick :: "int \<Rightarrow> sidecar" where
  "sick t = ready_sidecar\<lparr>sc_healthy := False, sc_lastFailure := t\<rparr>"

definition sample_pool :: "64 word \<Rightarrow> sidecar_pool" where
  "sample_pool k = \<lparr>pl_sidecars = [(good_env, sick 5), (good_env, sick 3), (good_env, ready_sidecar\<lparr>sc_lastFailure := 9\<rparr>)], pl_next = k\<rparr>"

theorem pick_finds_healthy_witness:
  "snd (pick (sample_pool 4)) = Some 2 \<and> unat (4 :: 64 word) + 3 < 2 ^ 64"
proof -
  let ?scs = "map snd (pl_sidecars (sample_pool 4))"
  have l: "length ?scs = 3" "pl_sidecars (sample_pool 4) \<noteq> []" "unat (pl_next (sample_pool 4)) + length (pl_sidecars (sample_pool 4)) < 2 ^ 64"
    by (simp_all add: sample_pool_def)
  have h: "\<exists>s \<in> set ?scs. sc_healthy s" "\<not> sc_healthy (?scs ! 0)" "\<not> sc_healthy (?scs ! 1)"
    by (simp_all add: sample_pool_def sick_def ready_sidecar_def)
  from pick_finds_healthy [OF l(2,3)] h(1) obtain j where j: "j < 3" "snd (pick (sample_pool 4)) = Some j" "sc_healthy (?scs ! j)"
    unfolding l(1) by auto
  have "j = 0 \<or> j = 1 \<or> j = 2" using j(1) by linarith
  with j(2,3) h(2,3) show ?thesis by auto
qed

text \<open>When the counter wraps, two positions of the search can coincide, and a healthy sidecar is passed over.\<close>

lemma pick_wraps: "snd (pick (sample_pool (- 1))) = Some 1"
  by (simp add: pick_def sample_pool_def Let_def sick_def ready_sidecar_def upt_rec)

subsection \<open>Broadcasting\<close>

lemma bcast_one_done:
  assumes "sc_broadcast_one fn env s = Returns (s', None)"
  shows "(\<exists>t u. fn env t = Returns (s', Inr u)) \<or> \<not> sc_healthy s \<and> (\<exists>e. restart env s = (s', Inl e))"
proof -
  have again: "\<exists>t u. fn env t = Returns (s', Inr u)"
    if "(case fn env t of Returns x \<Rightarrow> Returns (unit_result x) | Blocks \<Rightarrow> Blocks | Panics \<Rightarrow> Panics) = Returns (s', None)" for t
    using that by (auto simp: unit_result_def split: run.splits sum.splits)
  obtain s1 r1 where r1: "(if sc_healthy s then (s, Inr ()) else restart env s) = (s1, r1)" by (metis prod.exhaust)
  note b = assms [unfolded sc_broadcast_one_def Let_def r1 prod.case]
  show ?thesis
  proof (cases r1)
    case (Inl e)
    with b r1 show ?thesis by (auto split: if_splits)
  next
    case r1': (Inr u)
    show ?thesis
    proof (cases "fn env s1")
      case (Returns p)
      obtain s2 x where p: "p = (s2, x)" by (cases p)
      show ?thesis
      proof (cases x)
        case (Inr v)
        with b r1' Returns p show ?thesis by auto
      next
        case (Inl err)
        obtain s3 r3 where r3: "restart env s2 = (s3, r3)" by (metis prod.exhaust)
        show ?thesis
          using b r1' Returns p Inl r3 again by (cases "as_transport err"; cases "as_restarted err"; cases r3) auto
      qed
    qed (use b r1' in auto)
  qed
qed

text \<open>
  A creation broadcast to the pool reports success only if every sidecar
  of the pool acknowledged it, or was unhealthy and could not be restarted.
\<close>

theorem broadcast_reaches_all:
  assumes "pool_Create decode name code metadata force p = Returns (p', None)" "i < length (pl_sidecars p)"
  defines "env \<equiv> fst (pl_sidecars p ! i)" and "s \<equiv> snd (pl_sidecars p ! i)" and "s' \<equiv> snd (pl_sidecars p' ! i)"
  shows "(\<exists>t. sc_Create env decode name code metadata force t = Returns (s', Inr ())) \<or>
    \<not> sc_healthy s \<and> (\<exists>e. restart env s = (s', Inl e) \<and> \<not> sc_conn s')"
proof -
  let ?fn = "\<lambda>env. sc_Create env decode name code metadata force"
  have b: "sc_broadcast ?fn (pl_sidecars p) = Returns (pl_sidecars p', None)"
    using assms(1) by (auto simp: pool_Create_def split: run.splits)
  have all: "sc_broadcast ?fn scs = Returns (scs', None) \<Longrightarrow> k < length scs \<Longrightarrow>
      sc_broadcast_one ?fn (fst (scs ! k)) (snd (scs ! k)) = Returns (snd (scs' ! k), None)" for scs scs' k
  proof (induction scs arbitrary: scs' k)
    case (Cons a scs)
    obtain e t where a: "a = (e, t)" by (cases a)
    from Cons.prems(1) obtain t1 rest where
      "sc_broadcast_one ?fn e t = Returns (t1, None)" "sc_broadcast ?fn scs = Returns (rest, None)" "scs' = (e, t1) # rest"
      by (auto simp: a split: run.splits prod.splits option.splits)
    with Cons show ?case by (cases k) (auto simp: a)
  qed simp
  from bcast_one_done [OF all [OF b assms(2)]] show ?thesis
    unfolding env_def s_def s'_def using restart_facts(2) by (metis (full_types) old.unit.exhaust)
qed

definition ack_decode :: "string \<Rightarrow> string + unit answered" where
  "ack_decode line = Inr (''ok'', [], ())"

definition create_env :: sidecar_env where
  "create_env = good_env\<lparr>sx_marshal := (\<lambda>_. Inr ''create'')\<rparr>"

definition create_pool :: sidecar_pool where
  "create_pool = \<lparr>pl_sidecars = [(create_env\<lparr>sx_restart := (\<lambda>_. Some ''gone'')\<rparr>, sick 5), (create_env, ready_sidecar)], pl_next = 0\<rparr>"

theorem broadcast_reaches_all_witness:
  "\<exists>p'. pool_Create ack_decode ''n'' ''c'' ''m'' False create_pool = Returns (p', None) \<and>
    (\<exists>t. sc_Create create_env ack_decode ''n'' ''c'' ''m'' False t = Returns (snd (pl_sidecars p' ! 1), Inr ()))"
proof -
  have "case pool_Create ack_decode ''n'' ''c'' ''m'' False create_pool of Returns (p', r) \<Rightarrow> r = None | _ \<Rightarrow> False" by code_simp
  then obtain p' where p': "pool_Create ack_decode ''n'' ''c'' ''m'' False create_pool = Returns (p', None)" by (auto split: run.splits)
  have i: "1 < length (pl_sidecars create_pool)" by (simp add: create_pool_def)
  have e: "fst (pl_sidecars create_pool ! 1) = create_env" "sc_healthy (snd (pl_sidecars create_pool ! 1))"
    by (simp_all add: create_pool_def ready_sidecar_def)
  from broadcast_reaches_all [OF p' i] p' show ?thesis unfolding e(1) using e(2) by blast
qed

text \<open>A creation whose answer is lost is sent to the same sidecar again.\<close>

lemma create_sent_twice:
  "case pool_Create ack_decode ''n'' ''c'' ''m'' False
       \<lparr>pl_sidecars = [(create_env\<lparr>sx_read := (\<lambda>_ n. if n = 1 then Some (\<lparr>ne_kind = NkEOF, ne_msg = ''EOF''\<rparr>, 0) else None)\<rparr>, ready_sidecar)], pl_next = 0\<rparr> of
     Returns (p', None) \<Rightarrow> sc_received (snd (pl_sidecars p' ! 0)) = [''create'', ''create'']
   | _ \<Rightarrow> False"
  by code_simp

end
