(* ===== verification/StagingRun.thy ===== *)
theory StagingRun
  imports Prelude
begin

text \<open>
  \<open>internal/strategy/staging_run.go\<close>: the state of a strategy run that stages its tables in the
  background, its status machine and that of its tables, and the rule that derives the status of
  a run from its tables. Parameters, results, traces and fetch plans are JSON texts.
\<close>

subsection \<open>Statuses and their transitions\<close>

datatype RunStatus = RsCreated | RsStaging | RsPending | RsStaged | RsExecuting | RsComplete | RsFailed | RsOther string

fun run_status_string :: "RunStatus \<Rightarrow> string" where
  "run_status_string RsCreated = ''created''"
| "run_status_string RsStaging = ''staging''"
| "run_status_string RsPending = ''pending''"
| "run_status_string RsStaged = ''staged''"
| "run_status_string RsExecuting = ''executing''"
| "run_status_string RsComplete = ''complete''"
| "run_status_string RsFailed = ''failed''"
| "run_status_string (RsOther s) = s"

fun validRunTransitions :: "RunStatus \<Rightarrow> RunStatus list option" where
  "validRunTransitions RsCreated = Some [RsStaging, RsPending, RsStaged, RsFailed]"
| "validRunTransitions RsStaging = Some [RsPending, RsStaged, RsFailed]"
| "validRunTransitions RsPending = Some [RsStaged, RsFailed]"
| "validRunTransitions RsStaged = Some [RsExecuting, RsFailed]"
| "validRunTransitions RsExecuting = Some [RsComplete, RsFailed]"
| "validRunTransitions RsComplete = Some []"
| "validRunTransitions RsFailed = Some []"
| "validRunTransitions (RsOther s) = None"

text \<open>The arrow of the message, in UTF-8.\<close>

definition arrow :: string where
  "arrow = '' '' @ [CHR 0xE2, CHR 0x86, CHR 0x92] @ '' ''"

definition ValidateRunTransition :: "RunStatus \<Rightarrow> RunStatus \<Rightarrow> unit result" where
  "ValidateRunTransition frm to =
     (case validRunTransitions frm of
        None \<Rightarrow> Inl (ErrMsg (''unknown run status '' @ quote (run_status_string frm)))
      | Some allowed \<Rightarrow>
          if list_ex (\<lambda>a. a = to) allowed then Inr ()
          else Inl (ErrMsg (''invalid run transition: '' @ run_status_string frm @ arrow @ run_status_string to)))"

datatype TableStatus = TsPending | TsFetching | TsStaged | TsFailed | TsSkipped | TsAwaitingAgent | TsOther string

fun table_status_string :: "TableStatus \<Rightarrow> string" where
  "table_status_string TsPending = ''pending''"
| "table_status_string TsFetching = ''fetching''"
| "table_status_string TsStaged = ''staged''"
| "table_status_string TsFailed = ''failed''"
| "table_status_string TsSkipped = ''skipped''"
| "table_status_string TsAwaitingAgent = ''awaiting_agent''"
| "table_status_string (TsOther s) = s"

fun validTableTransitions :: "TableStatus \<Rightarrow> TableStatus list option" where
  "validTableTransitions TsPending = Some [TsFetching, TsStaged, TsFailed, TsSkipped, TsAwaitingAgent]"
| "validTableTransitions TsFetching = Some [TsStaged, TsFailed]"
| "validTableTransitions TsAwaitingAgent = Some [TsStaged, TsFailed, TsSkipped]"
| "validTableTransitions TsStaged = Some []"
| "validTableTransitions TsFailed = Some []"
| "validTableTransitions TsSkipped = Some []"
| "validTableTransitions (TsOther s) = None"

definition ValidateTableTransition :: "TableStatus \<Rightarrow> TableStatus \<Rightarrow> unit result" where
  "ValidateTableTransition frm to =
     (case validTableTransitions frm of
        None \<Rightarrow> Inl (ErrMsg (''unknown table status '' @ quote (table_status_string frm)))
      | Some allowed \<Rightarrow>
          if list_ex (\<lambda>a. a = to) allowed then Inr ()
          else Inl (ErrMsg (''invalid table transition: '' @ table_status_string frm @ arrow @ table_status_string to)))"

subsection \<open>Runs and tables\<close>

record StructuredError =
  se_Message :: string
  se_Category :: string
  se_Retryable :: bool
  se_RetryAfterSecs :: int
  se_Phase :: string
  se_Detail :: "string option"

definition staging_error :: "string \<Rightarrow> string \<Rightarrow> bool \<Rightarrow> StructuredError" where
  "staging_error msg category retryable =
     \<lparr>se_Message = msg, se_Category = category, se_Retryable = retryable, se_RetryAfterSecs = 0, se_Phase = ''staging'', se_Detail = None\<rparr>"

record TableState =
  ts_Name :: string
  ts_FetchMode :: string
  ts_Required :: bool
  ts_Status :: TableStatus
  ts_Partial :: bool
  ts_ParquetPath :: string
  ts_RowCount :: int
  ts_BytesStaged :: int
  ts_PagesCompleted :: int
  ts_TotalEstimate :: int
  ts_Error :: "StructuredError option"
  ts_FetchPlan :: "string option"
  ts_RetryCount :: int
  ts_LastOffset :: int
  ts_LastCursor :: string
  ts_StartedAt :: "int option"
  ts_CompletedAt :: "int option"
  ts_LastErrorAt :: "int option"
  ts_ResumedFromRestart :: bool

text \<open>A composite literal with only some fields leaves the others zero.\<close>

definition zero_table :: "string \<Rightarrow> string \<Rightarrow> bool \<Rightarrow> TableStatus \<Rightarrow> TableState" where
  "zero_table name mode required status =
     \<lparr>ts_Name = name, ts_FetchMode = mode, ts_Required = required, ts_Status = status, ts_Partial = False, ts_ParquetPath = [],
      ts_RowCount = 0, ts_BytesStaged = 0, ts_PagesCompleted = 0, ts_TotalEstimate = 0, ts_Error = None, ts_FetchPlan = None,
      ts_RetryCount = 0, ts_LastOffset = 0, ts_LastCursor = [], ts_StartedAt = None, ts_CompletedAt = None, ts_LastErrorAt = None,
      ts_ResumedFromRestart = False\<rparr>"

text \<open>The map of tables is kept as its list of entries, in the order it is ranged over.\<close>

record StagingRun =
  sg_ID :: string
  sg_StrategyName :: string
  sg_Params :: string
  sg_ParamsFingerprint :: string
  sg_Status :: RunStatus
  sg_Tables :: "(string \<times> TableState) list"
  sg_CreatedAt :: int
  sg_UpdatedAt :: int
  sg_Error :: "StructuredError option"
  sg_Result :: "string option"
  sg_Trace :: "string option"
  sg_ResumeCount :: int
  sg_RecoveredAt :: "int option"
  sg_ExecutionClaimedAt :: "int option"

definition run_IsTerminal :: "StagingRun \<Rightarrow> bool" where
  "run_IsTerminal r \<longleftrightarrow> sg_Status r = RsComplete \<or> sg_Status r = RsFailed"

definition run_TransitionTo :: "int \<Rightarrow> RunStatus \<Rightarrow> StagingRun \<Rightarrow> StagingRun \<times> unit result" where
  "run_TransitionTo now status r =
     (case ValidateRunTransition (sg_Status r) status of
        Inl err \<Rightarrow> (r, Inl err)
      | Inr _ \<Rightarrow> (r\<lparr>sg_Status := status, sg_UpdatedAt := now\<rparr>, Inr ()))"

definition table_TransitionTo :: "TableStatus \<Rightarrow> TableState \<Rightarrow> TableState \<times> unit result" where
  "table_TransitionTo status ts =
     (case ValidateTableTransition (ts_Status ts) status of
        Inl err \<Rightarrow> (ts, Inl err)
      | Inr _ \<Rightarrow> (ts\<lparr>ts_Status := status\<rparr>, Inr ()))"

subsection \<open>\<open>DeriveRunStatus\<close>\<close>

text \<open>The three flags the loop over the tables collects; \<open>None\<close> is the empty status.\<close>

fun scan_tables :: "TableState list \<Rightarrow> bool \<times> bool \<times> bool \<Rightarrow> bool \<times> bool \<times> bool" where
  "scan_tables [] flags = flags"
| "scan_tables (ts # rest) (inProgress, awaiting, requiredFailed) =
     (let requiredFailed1 = (if ts_Required ts \<and> ts_Status ts = TsFailed then True else requiredFailed)
      in scan_tables rest
           (case ts_Status ts of
              TsPending \<Rightarrow> (True, awaiting, requiredFailed1)
            | TsFetching \<Rightarrow> (True, awaiting, requiredFailed1)
            | TsAwaitingAgent \<Rightarrow> (inProgress, True, requiredFailed1)
            | _ \<Rightarrow> (inProgress, awaiting, requiredFailed1)))"

definition DeriveRunStatus :: "StagingRun \<Rightarrow> RunStatus option" where
  "DeriveRunStatus run =
     (case scan_tables (map snd (sg_Tables run)) (False, False, False) of
        (inProgress, awaiting, requiredFailed) \<Rightarrow>
          if requiredFailed then Some RsFailed
          else if inProgress then None
          else if awaiting then Some RsPending
          else Some RsStaged)"

text \<open>The same on the set of table states.\<close>

definition in_progress :: "TableState \<Rightarrow> bool" where
  "in_progress ts \<longleftrightarrow> ts_Status ts = TsPending \<or> ts_Status ts = TsFetching"

definition fatal :: "TableState \<Rightarrow> bool" where
  "fatal ts \<longleftrightarrow> ts_Required ts \<and> ts_Status ts = TsFailed"

definition derived :: "TableState set \<Rightarrow> RunStatus option" where
  "derived T =
     (if \<exists>ts\<in>T. fatal ts then Some RsFailed
      else if \<exists>ts\<in>T. in_progress ts then None
      else if \<exists>ts\<in>T. ts_Status ts = TsAwaitingAgent then Some RsPending
      else Some RsStaged)"

lemma scan_tables_eq:
  "scan_tables ts (p, a, r) =
     (p \<or> (\<exists>t\<in>set ts. in_progress t), a \<or> (\<exists>t\<in>set ts. ts_Status t = TsAwaitingAgent), r \<or> (\<exists>t\<in>set ts. fatal t))"
proof (induction ts arbitrary: p a r)
  case (Cons t ts)
  show ?case by (cases "ts_Status t") (auto simp: Let_def Cons.IH in_progress_def fatal_def)
qed simp

lemma DeriveRunStatus_derived: "DeriveRunStatus run = derived (snd ` set (sg_Tables run))"
  by (simp add: DeriveRunStatus_def scan_tables_eq derived_def)

lemma derived_cases:
  "derived T = Some RsFailed \<longleftrightarrow> (\<exists>ts\<in>T. fatal ts)"
  "derived T = None \<longleftrightarrow> (\<exists>ts\<in>T. in_progress ts) \<and> (\<forall>ts\<in>T. \<not> fatal ts)"
  "derived T = Some RsPending \<longleftrightarrow> (\<forall>ts\<in>T. \<not> fatal ts \<and> \<not> in_progress ts) \<and> (\<exists>ts\<in>T. ts_Status ts = TsAwaitingAgent)"
  "derived T = Some RsStaged \<longleftrightarrow> (\<forall>ts\<in>T. \<not> fatal ts \<and> \<not> in_progress ts \<and> ts_Status ts \<noteq> TsAwaitingAgent)"
  by (auto simp: derived_def)

text \<open>
  the status derived for a run is failed exactly if a required table
  failed; otherwise the run goes on exactly while a table is pending or being fetched; otherwise
  it is pending exactly if a table awaits an agent, and staged exactly if no table is left to
  wait for. It never names a status the run's machine could not reach from staging.
\<close>

theorem derived_status_meaning:
  "(DeriveRunStatus run = Some RsFailed \<longleftrightarrow> (\<exists>ts\<in>snd ` set (sg_Tables run). ts_Required ts \<and> ts_Status ts = TsFailed)) \<and>
   (DeriveRunStatus run = None \<longleftrightarrow> DeriveRunStatus run \<noteq> Some RsFailed \<and> (\<exists>ts\<in>snd ` set (sg_Tables run). ts_Status ts \<in> {TsPending, TsFetching})) \<and>
   (DeriveRunStatus run = Some RsPending \<longleftrightarrow>
      DeriveRunStatus run \<notin> {None, Some RsFailed} \<and> (\<exists>ts\<in>snd ` set (sg_Tables run). ts_Status ts = TsAwaitingAgent)) \<and>
   (DeriveRunStatus run = Some RsStaged \<longleftrightarrow>
      DeriveRunStatus run \<notin> {None, Some RsFailed} \<and> \<not> (\<exists>ts\<in>snd ` set (sg_Tables run). ts_Status ts = TsAwaitingAgent)) \<and>
   set_option (DeriveRunStatus run) \<subseteq> {st. ValidateRunTransition RsStaging st = Inr ()}"
proof -
  let ?T = "snd ` set (sg_Tables run)"
  have "set_option (derived ?T) \<subseteq> {RsFailed, RsPending, RsStaged}" by (auto simp: derived_def)
  moreover have "{RsFailed, RsPending, RsStaged} \<subseteq> {st. ValidateRunTransition RsStaging st = Inr ()}"
    by (simp add: ValidateRunTransition_def)
  ultimately show ?thesis
    unfolding DeriveRunStatus_derived derived_cases by (auto simp: derived_def fatal_def in_progress_def)
qed

end
