(* ===== verification/StagingStore.thy ===== *)
theory StagingStore
  imports StagingRun "HOL-Library.Char_ord" "HOL-Library.List_Lexorder"
begin

text \<open>
  The two stores of staging runs, \<open>state/sqlitestore/staging.go\<close> and \<open>state/pgstore/staging.go\<close>. Their
  code is the same statement by statement up to the database's ways, which a \<open>dialect\<close> names:
  \<^item> the precision a time is read back with (SQLite keeps the text \<open>RFC3339Nano\<close>, PostgreSQL microseconds);
  \<^item> how a JSON text is read back (PostgreSQL's \<open>jsonb\<close> renders its own text, an argument of the
    dialect; the texts written come from \<open>json.Marshal\<close>, so they are valid);
  \<^item> whether an empty JSON text is stored as \<open>NULL\<close>;
  \<^item> the comparison of \<open>updated_at\<close>: SQLite compares the texts;
  \<^item> whether deleting a run deletes its tables: the SQLite database of the state store is opened
    without \<open>foreign_keys\<close>, so \<open>ON DELETE CASCADE\<close> is not in force there.
\<close>

subsection \<open>Dialects\<close>

record dialect =
  dl_time :: "int \<Rightarrow> int"
  dl_json :: "string \<Rightarrow> string"
  dl_emptyNull :: bool
  dl_before :: "int \<Rightarrow> int \<Rightarrow> bool"
  dl_cascade :: bool

text \<open>
  The texts of two UTC times of four-digit years agree in length up to the seconds, where their
  order is the chronological one; within a second the fractions, without trailing zeros and
  closed by \<open>Z\<close>, are compared.
\<close>

definition text_before :: "int \<Rightarrow> int \<Rightarrow> bool" where
  "text_before t u =
     (let frac = (\<lambda>x. frac_string 9 (nat (x mod second_ns)) @ ''Z'')
      in t div second_ns < u div second_ns \<or> t div second_ns = u div second_ns \<and> frac t < frac u)"

definition sqlite_dialect :: dialect where
  "sqlite_dialect = \<lparr>dl_time = id, dl_json = id, dl_emptyNull = False, dl_before = text_before, dl_cascade = False\<rparr>"

definition postgres_dialect :: "(string \<Rightarrow> string) \<Rightarrow> dialect" where
  "postgres_dialect jsonb =
     \<lparr>dl_time = (\<lambda>t. t - t mod 1000), dl_json = jsonb, dl_emptyNull = True, dl_before = (\<lambda>t u. t < u - u mod 1000), dl_cascade = True\<rparr>"

subsection \<open>Tables\<close>

text \<open>
  Run rows keep no tables; a table row carries the identifier of its run. The state also holds
  what the program does not decide: the clock and the error of the \<open>n\<close>-th statement, if it fails.
\<close>

record staging_db =
  sd_runs :: "StagingRun list"
  sd_tables :: "(string \<times> TableState) list"
  sd_now :: "nat \<Rightarrow> int"
  sd_fault :: "nat \<Rightarrow> db_fault"
  sd_calls :: nat

definition sd_used :: "staging_db \<Rightarrow> staging_db" where
  "sd_used db = db\<lparr>sd_calls := Suc (sd_calls db)\<rparr>"

definition sd_clock :: "staging_db \<Rightarrow> int" where
  "sd_clock db = sd_now db (sd_calls db)"

definition sd_err :: "staging_db \<Rightarrow> db_fault" where
  "sd_err db = sd_fault db (sd_calls db)"

definition stored_json :: "dialect \<Rightarrow> string option \<Rightarrow> string option" where
  "stored_json dl j =
     (case j of
        None \<Rightarrow> None
      | Some s \<Rightarrow> if s = [] \<and> dl_emptyNull dl then None else Some (dl_json dl s))"

text \<open>
  The columns of a table row that \<open>UpdateTable\<close> writes, as \<open>scanTable\<close> reads them back; name,
  fetch mode and \<open>required\<close> are only written by the insert. An empty path or cursor is stored as
  \<open>NULL\<close> and read back as empty; a structured error is read back as it was written.
\<close>

definition written_table :: "dialect \<Rightarrow> TableState \<Rightarrow> TableState \<Rightarrow> TableState" where
  "written_table dl ts row =
     ts\<lparr>ts_Name := ts_Name row, ts_FetchMode := ts_FetchMode row, ts_Required := ts_Required row,
        ts_FetchPlan := stored_json dl (ts_FetchPlan ts),
        ts_StartedAt := map_option (dl_time dl) (ts_StartedAt ts),
        ts_CompletedAt := map_option (dl_time dl) (ts_CompletedAt ts),
        ts_LastErrorAt := map_option (dl_time dl) (ts_LastErrorAt ts)\<rparr>"

definition inserted_table :: "dialect \<Rightarrow> string \<Rightarrow> TableState \<Rightarrow> TableState" where
  "inserted_table dl name ts = written_table dl ts (ts\<lparr>ts_Name := name\<rparr>)"

definition inserted_run :: "dialect \<Rightarrow> int \<Rightarrow> StagingRun \<Rightarrow> StagingRun" where
  "inserted_run dl now run =
     run\<lparr>sg_Params := dl_json dl (sg_Params run), sg_Tables := [], sg_CreatedAt := dl_time dl now, sg_UpdatedAt := dl_time dl now,
         sg_Error := None, sg_Result := None, sg_Trace := None, sg_ResumeCount := 0, sg_RecoveredAt := None,
         sg_ExecutionClaimedAt := None\<rparr>"

definition no_run :: "string \<Rightarrow> error" where
  "no_run i = ErrMsg (''staging run '' @ quote i @ '' not found'')"

definition table_key :: "string \<times> TableState \<Rightarrow> string \<times> string" where
  "table_key r = (fst r, ts_Name (snd r))"

subsection \<open>Operations\<close>

text \<open>One transaction: the error of whichever statement fails is returned, and nothing is kept.\<close>

definition st_Create :: "dialect \<Rightarrow> StagingRun \<Rightarrow> staging_db \<Rightarrow> staging_db \<times> unit result" where
  "st_Create dl run db =
     (case sd_err db of
        Some e \<Rightarrow> (sd_used db, Inl (ErrDb e))
      | None \<Rightarrow>
          if sg_ID run \<in> sg_ID ` set (sd_runs db)
          then (sd_used db, Inl (ErrDb ''insert run: duplicate key''))
          else
            let rows = map (\<lambda>(name, ts). (sg_ID run, inserted_table dl name ts)) (sg_Tables run)
            in if list_ex (\<lambda>r. table_key r \<in> table_key ` set (sd_tables db)) rows
               then (sd_used db, Inl (ErrDb ''insert table: duplicate key''))
               else ((sd_used db)\<lparr>sd_runs := sd_runs db @ [inserted_run dl (sd_clock db) run], sd_tables := sd_tables db @ rows\<rparr>, Inr ()))"

definition loadTables :: "string \<Rightarrow> staging_db \<Rightarrow> (string \<times> TableState) list" where
  "loadTables i db = map (\<lambda>(_, ts). (ts_Name ts, ts)) (filter (\<lambda>r. fst r = i) (sd_tables db))"

definition st_Get :: "string \<Rightarrow> staging_db \<Rightarrow> staging_db \<times> StagingRun option result" where
  "st_Get i db =
     (case sd_err db of
        Some e \<Rightarrow> (sd_used db, Inl (ErrDb e))
      | None \<Rightarrow>
          (case find (\<lambda>r. sg_ID r = i) (sd_runs db) of
             None \<Rightarrow> (sd_used db, Inr None)
           | Some run \<Rightarrow> (sd_used db, Inr (Some (run\<lparr>sg_Tables := loadTables i db\<rparr>)))))"

text \<open>\<open>UPDATE staging_runs SET ... WHERE id = ?\<close>, an error when no row is affected.\<close>

definition set_run :: "string \<Rightarrow> (StagingRun \<Rightarrow> StagingRun) \<Rightarrow> staging_db \<Rightarrow> staging_db \<times> unit result" where
  "set_run i u db =
     (case sd_err db of
        Some e \<Rightarrow> (sd_used db, Inl (ErrDb e))
      | None \<Rightarrow>
          if affected (\<lambda>r. sg_ID r = i) (sd_runs db) = 0 then (sd_used db, Inl (no_run i))
          else ((sd_used db)\<lparr>sd_runs := update_rows (\<lambda>r. sg_ID r = i) u (sd_runs db)\<rparr>, Inr ()))"

definition st_UpdateStatus :: "dialect \<Rightarrow> string \<Rightarrow> RunStatus \<Rightarrow> staging_db \<Rightarrow> staging_db \<times> unit result" where
  "st_UpdateStatus dl i status db =
     set_run i (\<lambda>r. r\<lparr>sg_Status := status, sg_UpdatedAt := dl_time dl (sd_clock db)\<rparr>) db"

definition touch_run :: "dialect \<Rightarrow> string \<Rightarrow> int \<Rightarrow> staging_db \<Rightarrow> staging_db" where
  "touch_run dl i now db =
     (case sd_err db of
        Some e \<Rightarrow> sd_used db
      | None \<Rightarrow> (sd_used db)\<lparr>sd_runs := update_rows (\<lambda>r. sg_ID r = i) (\<lambda>r. r\<lparr>sg_UpdatedAt := dl_time dl now\<rparr>) (sd_runs db)\<rparr>)"

definition st_UpdateTable :: "dialect \<Rightarrow> string \<Rightarrow> string \<Rightarrow> TableState \<Rightarrow> staging_db \<Rightarrow> staging_db \<times> unit result" where
  "st_UpdateTable dl i table ts db =
     (case sd_err db of
        Some e \<Rightarrow> (sd_used db, Inl (ErrDb e))
      | None \<Rightarrow>
          if affected (\<lambda>r. table_key r = (i, table)) (sd_tables db) = 0
          then (sd_used db, Inl (ErrMsg (''table '' @ quote table @ '' not found in run '' @ quote i)))
          else
            let db1 = (sd_used db)\<lparr>sd_tables := update_rows (\<lambda>r. table_key r = (i, table)) (\<lambda>(rid, row). (rid, written_table dl ts row)) (sd_tables db)\<rparr>
            in (touch_run dl i (sd_clock db) db1, Inr ()))"

definition st_CASExecute :: "dialect \<Rightarrow> string \<Rightarrow> staging_db \<Rightarrow> staging_db \<times> bool result" where
  "st_CASExecute dl i db =
     (case sd_err db of
        Some e \<Rightarrow> (sd_used db, Inl (ErrDb e))
      | None \<Rightarrow>
          let p = (\<lambda>r. sg_ID r = i \<and> sg_Status r = RsStaged); now = dl_time dl (sd_clock db)
          in ((sd_used db)\<lparr>sd_runs := update_rows p
                 (\<lambda>r. r\<lparr>sg_Status := RsExecuting, sg_ExecutionClaimedAt := Some now, sg_UpdatedAt := now\<rparr>) (sd_runs db)\<rparr>,
              Inr (affected p (sd_runs db) > 0)))"

definition st_SetResult ::
    "dialect \<Rightarrow> string \<Rightarrow> RunStatus \<Rightarrow> string option \<Rightarrow> string option \<Rightarrow> staging_db \<Rightarrow> staging_db \<times> unit result" where
  "st_SetResult dl i status res trace db =
     set_run i (\<lambda>r. r\<lparr>sg_Status := status, sg_Result := stored_json dl res, sg_Trace := stored_json dl trace,
                      sg_UpdatedAt := dl_time dl (sd_clock db)\<rparr>) db"

definition st_FailRun :: "dialect \<Rightarrow> string \<Rightarrow> StructuredError option \<Rightarrow> staging_db \<Rightarrow> staging_db \<times> unit result" where
  "st_FailRun dl i err db =
     set_run i (\<lambda>r. r\<lparr>sg_Status := RsFailed, sg_Error := err, sg_UpdatedAt := dl_time dl (sd_clock db)\<rparr>) db"

definition st_UpdateRecovery :: "dialect \<Rightarrow> string \<Rightarrow> int \<Rightarrow> int \<Rightarrow> staging_db \<Rightarrow> staging_db \<times> unit result" where
  "st_UpdateRecovery dl i resumeCount recoveredAt db =
     set_run i (\<lambda>r. r\<lparr>sg_ResumeCount := resumeCount, sg_RecoveredAt := Some (dl_time dl recoveredAt),
                      sg_UpdatedAt := dl_time dl (sd_clock db)\<rparr>) db"

definition st_ListActive :: "staging_db \<Rightarrow> staging_db \<times> StagingRun list result" where
  "st_ListActive db =
     (case sd_err db of
        Some e \<Rightarrow> (sd_used db, Inl (ErrDb e))
      | None \<Rightarrow>
          (sd_used db, Inr (map (\<lambda>r. r\<lparr>sg_Tables := loadTables (sg_ID r) db\<rparr>) (filter (\<lambda>r. \<not> run_IsTerminal r) (sd_runs db)))))"

text \<open>Two \<open>DELETE\<close>s, without a transaction; the first one's work stays when the second fails.\<close>

definition delete_runs :: "dialect \<Rightarrow> (StagingRun \<Rightarrow> bool) \<Rightarrow> staging_db \<Rightarrow> staging_db" where
  "delete_runs dl p db =
     db\<lparr>sd_runs := filter (\<lambda>r. \<not> p r) (sd_runs db),
        sd_tables := (if dl_cascade dl
          then filter (\<lambda>r. fst r \<notin> sg_ID ` {x \<in> set (sd_runs db). p x}) (sd_tables db) else sd_tables db)\<rparr>"

definition st_Reap :: "dialect \<Rightarrow> int \<Rightarrow> int \<Rightarrow> staging_db \<Rightarrow> staging_db \<times> int \<times> error option" where
  "st_Reap dl terminalTTL staleTTL db =
     (let now = sd_clock db;
          expired = (\<lambda>ttl r. dl_before dl (sg_UpdatedAt r) (now - ttl));
          p1 = (\<lambda>r. run_IsTerminal r \<and> expired terminalTTL r);
          p2 = (\<lambda>r. \<not> run_IsTerminal r \<and> expired staleTTL r)
      in case sd_err db of
           Some e \<Rightarrow> (sd_used db, 0, Some (ErrDb e))
         | None \<Rightarrow>
             (let n1 = int (affected p1 (sd_runs db)); db1 = delete_runs dl p1 (sd_used db)
              in case sd_err db1 of
                   Some e \<Rightarrow> (sd_used db1, n1, Some (ErrDb e))
                 | None \<Rightarrow> (delete_runs dl p2 (sd_used db1), n1 + int (affected p2 (sd_runs db1)), None)))"

subsection \<open>The PostgreSQL store\<close>

text \<open>Its operations are the same statements in the other dialect; \<open>jsonb\<close> is how the database renders a JSON text.\<close>

definition pgst_Create :: "(string \<Rightarrow> string) \<Rightarrow> StagingRun \<Rightarrow> staging_db \<Rightarrow> staging_db \<times> unit result" where
  "pgst_Create jsonb = st_Create (postgres_dialect jsonb)"

definition pgst_Get :: "string \<Rightarrow> staging_db \<Rightarrow> staging_db \<times> StagingRun option result" where
  "pgst_Get = st_Get"

definition pgst_UpdateStatus :: "(string \<Rightarrow> string) \<Rightarrow> string \<Rightarrow> RunStatus \<Rightarrow> staging_db \<Rightarrow> staging_db \<times> unit result" where
  "pgst_UpdateStatus jsonb = st_UpdateStatus (postgres_dialect jsonb)"

definition pgst_UpdateTable :: "(string \<Rightarrow> string) \<Rightarrow> string \<Rightarrow> string \<Rightarrow> TableState \<Rightarrow> staging_db \<Rightarrow> staging_db \<times> unit result" where
  "pgst_UpdateTable jsonb = st_UpdateTable (postgres_dialect jsonb)"

definition pgst_CASExecute :: "(string \<Rightarrow> string) \<Rightarrow> string \<Rightarrow> staging_db \<Rightarrow> staging_db \<times> bool result" where
  "pgst_CASExecute jsonb = st_CASExecute (postgres_dialect jsonb)"

definition pgst_SetResult ::
    "(string \<Rightarrow> string) \<Rightarrow> string \<Rightarrow> RunStatus \<Rightarrow> string option \<Rightarrow> string option \<Rightarrow> staging_db \<Rightarrow> staging_db \<times> unit result" where
  "pgst_SetResult jsonb = st_SetResult (postgres_dialect jsonb)"

definition pgst_FailRun :: "(string \<Rightarrow> string) \<Rightarrow> string \<Rightarrow> StructuredError option \<Rightarrow> staging_db \<Rightarrow> staging_db \<times> unit result" where
  "pgst_FailRun jsonb = st_FailRun (postgres_dialect jsonb)"

definition pgst_UpdateRecovery :: "(string \<Rightarrow> string) \<Rightarrow> string \<Rightarrow> int \<Rightarrow> int \<Rightarrow> staging_db \<Rightarrow> staging_db \<times> unit result" where
  "pgst_UpdateRecovery jsonb = st_UpdateRecovery (postgres_dialect jsonb)"

definition pgst_ListActive :: "staging_db \<Rightarrow> staging_db \<times> StagingRun list result" where
  "pgst_ListActive = st_ListActive"

definition pgst_Reap :: "(string \<Rightarrow> string) \<Rightarrow> int \<Rightarrow> int \<Rightarrow> staging_db \<Rightarrow> staging_db \<times> int \<times> error option" where
  "pgst_Reap jsonb = st_Reap (postgres_dialect jsonb)"

subsection \<open>The stores as values of the interface\<close>

record 'd staging_ops =
  so_Create :: "StagingRun \<Rightarrow> 'd \<Rightarrow> 'd \<times> unit result"
  so_Get :: "string \<Rightarrow> 'd \<Rightarrow> 'd \<times> StagingRun option result"
  so_UpdateStatus :: "string \<Rightarrow> RunStatus \<Rightarrow> 'd \<Rightarrow> 'd \<times> unit result"
  so_UpdateTable :: "string \<Rightarrow> string \<Rightarrow> TableState \<Rightarrow> 'd \<Rightarrow> 'd \<times> unit result"
  so_CASExecute :: "string \<Rightarrow> 'd \<Rightarrow> 'd \<times> bool result"
  so_SetResult :: "string \<Rightarrow> RunStatus \<Rightarrow> string option \<Rightarrow> string option \<Rightarrow> 'd \<Rightarrow> 'd \<times> unit result"
  so_FailRun :: "string \<Rightarrow> StructuredError option \<Rightarrow> 'd \<Rightarrow> 'd \<times> unit result"
  so_UpdateRecovery :: "string \<Rightarrow> int \<Rightarrow> int \<Rightarrow> 'd \<Rightarrow> 'd \<times> unit result"
  so_ListActive :: "'d \<Rightarrow> 'd \<times> StagingRun list result"

definition store_ops :: "dialect \<Rightarrow> staging_db staging_ops" where
  "store_ops dl =
     \<lparr>so_Create = st_Create dl, so_Get = st_Get, so_UpdateStatus = st_UpdateStatus dl, so_UpdateTable = st_UpdateTable dl,
      so_CASExecute = st_CASExecute dl, so_SetResult = st_SetResult dl, so_FailRun = st_FailRun dl,
      so_UpdateRecovery = st_UpdateRecovery dl, so_ListActive = st_ListActive\<rparr>"

subsection \<open>Well-formed tables\<close>

definition staging_ok :: "staging_db \<Rightarrow> bool" where
  "staging_ok db \<longleftrightarrow> distinct (map sg_ID (sd_runs db)) \<and> distinct (map table_key (sd_tables db))"

definition quiet :: "staging_db \<Rightarrow> bool" where
  "quiet db \<longleftrightarrow> (\<forall>n. sd_fault db n = None)"

text \<open>What the clients of a store see of a run: its status and its tables.\<close>

definition run_view :: "staging_db \<Rightarrow> string \<Rightarrow> (RunStatus \<times> (string \<rightharpoonup> TableState)) option" where
  "run_view db i = map_option (\<lambda>r. (sg_Status r, map_of (loadTables i db))) (find (\<lambda>r. sg_ID r = i) (sd_runs db))"

lemma quiet_simps [simp]:
  "quiet db \<Longrightarrow> sd_err db = None"
  "quiet (sd_used db) = quiet db"
  "quiet (db\<lparr>sd_runs := rs\<rparr>) = quiet db"
  "quiet (db\<lparr>sd_tables := ts\<rparr>) = quiet db"
  by (simp_all add: quiet_def sd_err_def sd_used_def)

lemma used_simps [simp]:
  "sd_runs (sd_used db) = sd_runs db" "sd_tables (sd_used db) = sd_tables db"
  "loadTables i (sd_used db) = loadTables i db"
  "loadTables i (db\<lparr>sd_runs := rs\<rparr>) = loadTables i db"
  "staging_ok (sd_used db) = staging_ok db" "run_view (sd_used db) = run_view db"
  by (auto simp: sd_used_def loadTables_def staging_ok_def run_view_def)

lemma loadTables_keys: "map fst (loadTables i db) = map (ts_Name \<circ> snd) (filter (\<lambda>r. fst r = i) (sd_tables db))"
  by (simp add: loadTables_def split_def)

lemma loadTables_distinct:
  assumes "staging_ok db"
  shows "distinct (map fst (loadTables i db))"
proof -
  have "distinct (map table_key (filter (\<lambda>r. fst r = i) (sd_tables db)))"
    using assms by (simp add: staging_ok_def distinct_map_filter)
  moreover have "map table_key (filter (\<lambda>r. fst r = i) (sd_tables db)) =
      map (Pair i) (map (ts_Name \<circ> snd) (filter (\<lambda>r. fst r = i) (sd_tables db)))"
    by (auto simp: table_key_def)
  ultimately show ?thesis unfolding loadTables_keys by (metis distinct_map)
qed

lemma loadTables_rows:
  "map_of (map (\<lambda>(_, ts). (ts_Name ts, ts)) (filter (\<lambda>r. fst r = i) rows)) t = map_option snd (find (\<lambda>r. table_key r = (i, t)) rows)"
  by (induction rows) (auto simp: table_key_def)

lemma map_of_loadTables: "map_of (loadTables i db) t = map_option snd (find (\<lambda>r. table_key r = (i, t)) (sd_tables db))"
  unfolding loadTables_def by (rule loadTables_rows)

lemma set_run_view:
  assumes "quiet db" "staging_ok db" "run_view db i = Some (st, tb)" "\<And>r. sg_ID (u r) = sg_ID r" "\<And>r. sg_Status (u r) = g (sg_Status r)"
    and "set_run i u db = (db', r)"
  shows "quiet db' \<and> staging_ok db' \<and> r = Inr () \<and> run_view db' = (run_view db)(i \<mapsto> (g st, tb))"
proof -
  obtain row where row: "find (\<lambda>r. sg_ID r = i) (sd_runs db) = Some row" "sg_Status row = st" "map_of (loadTables i db) = tb"
    using assms(3) by (auto simp: run_view_def)
  have hit: "affected (\<lambda>r. sg_ID r = i) (sd_runs db) \<noteq> 0"
    using find_SomeD [OF row(1)] by (auto simp: affected_0_iff)
  then have r: "db' = (sd_used db)\<lparr>sd_runs := update_rows (\<lambda>r. sg_ID r = i) u (sd_runs db)\<rparr>" "r = Inr ()"
    using assms(1,6) by (auto simp: set_run_def)
  have "run_view db' j = ((run_view db)(i \<mapsto> (g st, tb))) j" for j
    using row by (simp add: r(1) run_view_def find_key_update assms(4,5))
  moreover have "staging_ok db'"
    using assms(2,4) by (simp add: r(1) staging_ok_def map_update_rows)
  ultimately show ?thesis using r assms(1) by auto
qed

lemma UpdateStatus_view:
  assumes "quiet db" "staging_ok db" "run_view db i = Some (st, tb)" "st_UpdateStatus dl i st' db = (db', r)"
  shows "quiet db' \<and> staging_ok db' \<and> r = Inr () \<and> run_view db' = (run_view db)(i \<mapsto> (st', tb))"
  using assms(4) unfolding st_UpdateStatus_def by (rule set_run_view [OF assms(1-3), rotated 2]) simp_all

lemma FailRun_view:
  assumes "quiet db" "staging_ok db" "run_view db i = Some (st, tb)" "st_FailRun dl i e db = (db', r)"
  shows "quiet db' \<and> staging_ok db' \<and> r = Inr () \<and> run_view db' = (run_view db)(i \<mapsto> (RsFailed, tb))"
  using assms(4) unfolding st_FailRun_def by (rule set_run_view [OF assms(1-3), rotated 2]) simp_all

lemma SetResult_view:
  assumes "quiet db" "staging_ok db" "run_view db i = Some (st, tb)" "st_SetResult dl i st' res trace db = (db', r)"
  shows "quiet db' \<and> staging_ok db' \<and> r = Inr () \<and> run_view db' = (run_view db)(i \<mapsto> (st', tb))"
  using assms(4) unfolding st_SetResult_def by (rule set_run_view [OF assms(1-3), rotated 2]) simp_all

lemma UpdateRecovery_view:
  assumes "quiet db" "staging_ok db" "run_view db i = Some (st, tb)" "st_UpdateRecovery dl i n at db = (db', r)"
  shows "quiet db' \<and> staging_ok db' \<and> r = Inr () \<and> run_view db' = run_view db"
proof -
  have "quiet db' \<and> staging_ok db' \<and> r = Inr () \<and> run_view db' = (run_view db)(i \<mapsto> (id st, tb))"
    using assms(4) unfolding st_UpdateRecovery_def by (rule set_run_view [OF assms(1-3), rotated 2]) simp_all
  then show ?thesis using assms(3) by (simp add: fun_upd_idem)
qed

lemma touch_run_view:
  "quiet db \<Longrightarrow> staging_ok db \<Longrightarrow> quiet (touch_run dl i now db) \<and> staging_ok (touch_run dl i now db) \<and> run_view (touch_run dl i now db) = run_view db"
  by (auto simp: touch_run_def staging_ok_def run_view_def map_update_rows find_key_update fun_eq_iff option.map_comp o_def)

lemma UpdateTable_view:
  assumes "quiet db" "staging_ok db" "run_view db i = Some (st, tb)" "tb t = Some old" "st_UpdateTable dl i t ts db = (db', r)"
  shows "quiet db' \<and> staging_ok db' \<and> r = Inr () \<and> run_view db' = (run_view db)(i \<mapsto> (st, tb(t \<mapsto> written_table dl ts old)))"
proof -
  let ?u = "\<lambda>(rid, row). (rid, written_table dl ts row)"
  let ?db1 = "(sd_used db)\<lparr>sd_tables := update_rows (\<lambda>r. table_key r = (i, t)) ?u (sd_tables db)\<rparr>"
  have key: "table_key (?u r) = table_key r" for r by (cases r) (simp add: table_key_def written_table_def)
  have tb: "tb = map_of (loadTables i db)" using assms(3) by (auto simp: run_view_def)
  obtain row where row: "find (\<lambda>r. table_key r = (i, t)) (sd_tables db) = Some row" "snd row = old"
    using assms(4) by (auto simp: tb map_of_loadTables)
  then have "affected (\<lambda>r. table_key r = (i, t)) (sd_tables db) \<noteq> 0"
    using find_SomeD [OF row(1)] by (auto simp: affected_0_iff)
  then have r: "db' = touch_run dl i (sd_clock db) ?db1" "r = Inr ()"
    using assms(1,5) by (auto simp: st_UpdateTable_def Let_def)
  have "map_of (loadTables j ?db1) s = (if j = i \<and> s = t then Some (written_table dl ts old) else map_of (loadTables j db) s)" for j s
    using row by (auto simp: map_of_loadTables find_key_update [of table_key, OF key] split: prod.splits)
  then have tabs: "map_of (loadTables j ?db1) = (if j = i then tb(t \<mapsto> written_table dl ts old) else map_of (loadTables j db))" for j
    by (auto simp: tb fun_eq_iff)
  have "run_view ?db1 j = ((run_view db)(i \<mapsto> (st, tb(t \<mapsto> written_table dl ts old)))) j" for j
    using assms(3) unfolding run_view_def tabs by (auto simp: tabs)
  then have v1: "run_view ?db1 = (run_view db)(i \<mapsto> (st, tb(t \<mapsto> written_table dl ts old)))" by blast
  have ok1: "staging_ok ?db1" using assms(2) by (simp add: staging_ok_def map_update_rows key)
  have q1: "quiet ?db1" using assms(1) by simp
  from touch_run_view [OF q1 ok1, of dl i "sd_clock db"] show ?thesis unfolding r using v1 by simp
qed

lemma CASExecute_view:
  assumes "quiet db" "staging_ok db" "run_view db i = Some (st, tb)" "st_CASExecute dl i db = (db', r)"
  shows "quiet db' \<and> staging_ok db' \<and> r = Inr (st = RsStaged) \<and>
    run_view db' = (if st = RsStaged then (run_view db)(i \<mapsto> (RsExecuting, tb)) else run_view db)"
proof -
  let ?p = "\<lambda>r. sg_ID r = i \<and> sg_Status r = RsStaged"
  let ?u = "\<lambda>r. r\<lparr>sg_Status := RsExecuting, sg_ExecutionClaimedAt := Some (dl_time dl (sd_clock db)), sg_UpdatedAt := dl_time dl (sd_clock db)\<rparr>"
  obtain row where row: "find (\<lambda>r. sg_ID r = i) (sd_runs db) = Some row" "sg_Status row = st" "map_of (loadTables i db) = tb"
    using assms(3) by (auto simp: run_view_def)
  have only: "r \<in> set (sd_runs db) \<Longrightarrow> sg_ID r = i \<Longrightarrow> r = row" for r
    using find_key_unique [of sg_ID "sd_runs db" r] assms(2) row(1) by (simp add: staging_ok_def)
  have aff: "affected ?p (sd_runs db) > 0 \<longleftrightarrow> st = RsStaged"
    using find_SomeD [OF row(1)] row(2) only by (auto simp: affected_def length_greater_0_conv filter_empty_conv)
  have r: "db' = (sd_used db)\<lparr>sd_runs := update_rows ?p ?u (sd_runs db)\<rparr>" "r = Inr (affected ?p (sd_runs db) > 0)"
    using assms(1,4) by (auto simp: st_CASExecute_def Let_def)
  have find: "find (\<lambda>r. sg_ID r = j) (update_rows ?p ?u (sd_runs db)) =
      map_option (\<lambda>r. if ?p r then ?u r else r) (find (\<lambda>r. sg_ID r = j) (sd_runs db))" for j
    by (rule find_update_rows) simp
  have "run_view db' j = (if st = RsStaged then (run_view db)(i \<mapsto> (RsExecuting, tb)) else run_view db) j" for j
    using row by (cases "find (\<lambda>r. sg_ID r = j) (sd_runs db)") (auto simp: r(1) run_view_def find dest: find_SomeD)
  moreover have "staging_ok db'" using assms(2) by (simp add: r(1) staging_ok_def map_update_rows)
  ultimately show ?thesis using r aff assms(1) by auto
qed

subsection \<open>The interface the staging code relies on\<close>

locale staging_store =
  fixes ops :: "'d staging_ops"
    and ok :: "'d \<Rightarrow> bool"
    and view :: "'d \<Rightarrow> string \<Rightarrow> (RunStatus \<times> (string \<rightharpoonup> TableState)) option"
  assumes get_law: "ok d \<Longrightarrow> so_Get ops i d = (d', x) \<Longrightarrow> ok d' \<and> view d' = view d \<and>
      (case view d i of
         None \<Rightarrow> x = Inr None
       | Some (st, tb) \<Rightarrow> \<exists>run. x = Inr (Some run) \<and> sg_ID run = i \<and> sg_Status run = st \<and> map_of (sg_Tables run) = tb \<and>
           distinct (map fst (sg_Tables run)))"
    and status_law: "ok d \<Longrightarrow> view d i = Some (st, tb) \<Longrightarrow> so_UpdateStatus ops i st' d = (d', r) \<Longrightarrow>
      ok d' \<and> r = Inr () \<and> view d' = (view d)(i \<mapsto> (st', tb))"
    and fail_law: "ok d \<Longrightarrow> view d i = Some (st, tb) \<Longrightarrow> so_FailRun ops i e d = (d', r) \<Longrightarrow>
      ok d' \<and> r = Inr () \<and> view d' = (view d)(i \<mapsto> (RsFailed, tb))"
    and recovery_law: "ok d \<Longrightarrow> view d i = Some (st, tb) \<Longrightarrow> so_UpdateRecovery ops i n at d = (d', r) \<Longrightarrow>
      ok d' \<and> r = Inr () \<and> view d' = view d"
    and table_law: "ok d \<Longrightarrow> view d i = Some (st, tb) \<Longrightarrow> tb t = Some old \<Longrightarrow> so_UpdateTable ops i t ts d = (d', r) \<Longrightarrow>
      ok d' \<and> r = Inr () \<and> (\<exists>ts'. ts_Status ts' = ts_Status ts \<and> ts_Required ts' = ts_Required old \<and>
        view d' = (view d)(i \<mapsto> (st, tb(t \<mapsto> ts'))))"
    and cas_law: "ok d \<Longrightarrow> view d i = Some (st, tb) \<Longrightarrow> so_CASExecute ops i d = (d', won) \<Longrightarrow>
      ok d' \<and> won = Inr (st = RsStaged) \<and> view d' = (if st = RsStaged then (view d)(i \<mapsto> (RsExecuting, tb)) else view d)"
    and result_law: "ok d \<Longrightarrow> view d i = Some (st, tb) \<Longrightarrow> so_SetResult ops i st' res trace d = (d', r) \<Longrightarrow>
      ok d' \<and> r = Inr () \<and> view d' = (view d)(i \<mapsto> (st', tb))"
begin

text \<open>What \<open>DeriveRunStatus\<close> gives for the run as it is read.\<close>

lemma get_derives:
  assumes "ok d" "view d i = Some (st, tb)" "so_Get ops i d = (d', x)"
  obtains run where "x = Inr (Some run)" "sg_Status run = st" "DeriveRunStatus run = derived (ran tb)" "ok d'" "view d' = view d"
    "snd ` set (sg_Tables run) = ran tb"
proof -
  from get_law [OF assms(1,3)] assms(2) obtain run where
    run: "x = Inr (Some run)" "sg_Status run = st" "map_of (sg_Tables run) = tb" "distinct (map fst (sg_Tables run))" "ok d'" "view d' = view d"
    by auto
  have "snd ` set (sg_Tables run) = ran tb" using run(3) ran_distinct [OF run(4)] by simp
  with run show thesis by (intro that) (auto simp: DeriveRunStatus_derived)
qed

end

interpretation sqlstore: staging_store "store_ops dl" "\<lambda>db. quiet db \<and> staging_ok db" run_view for dl
proof (unfold_locales, goal_cases)
  case (1 d i d' x)
  then show ?case
    by (auto simp: store_ops_def st_Get_def run_view_def loadTables_distinct dest: find_SomeD split: option.splits)
next
  case (2 d i st tb st' d' r)
  then show ?case using UpdateStatus_view [of d i st tb dl st' d' r] by (simp add: store_ops_def)
next
  case (3 d i st tb e d' r)
  then show ?case using FailRun_view [of d i st tb dl e d' r] by (simp add: store_ops_def)
next
  case (4 d i st tb n at d' r)
  then show ?case using UpdateRecovery_view [of d i st tb dl n at d' r] by (simp add: store_ops_def)
next
  case (5 d i st tb t old ts d' r)
  then show ?case
    using UpdateTable_view [of d i st tb t old dl ts d' r]
    by (auto simp: store_ops_def written_table_def intro!: exI [of _ "written_table dl ts old"])
next
  case (6 d i st tb d' r)
  then show ?case using CASExecute_view [of d i st tb dl d' r] by (simp add: store_ops_def)
next
  case (7 d i st tb st' res trace d' r)
  then show ?case using SetResult_view [of d i st tb dl st' res trace d' r] by (simp add: store_ops_def)
qed

subsection \<open>What the stores keep\<close>

definition as_read :: "dialect \<Rightarrow> int \<Rightarrow> StagingRun \<Rightarrow> StagingRun" where
  "as_read dl now run =
     (inserted_run dl now run)\<lparr>sg_Tables := map (\<lambda>(name, ts). (name, inserted_table dl name ts)) (sg_Tables run)\<rparr>"

lemma as_read_sqlite:
  assumes "list_all (\<lambda>(name, ts). ts_Name ts = name) (sg_Tables run)"
  shows "as_read sqlite_dialect now run =
    run\<lparr>sg_CreatedAt := now, sg_UpdatedAt := now, sg_Error := None, sg_Result := None, sg_Trace := None, sg_ResumeCount := 0,
        sg_RecoveredAt := None, sg_ExecutionClaimedAt := None\<rparr>"
proof -
  have "inserted_table sqlite_dialect name ts = ts" if "ts_Name ts = name" for name ts
    using that by (cases ts) (simp add: inserted_table_def written_table_def sqlite_dialect_def stored_json_def option.map_id split: option.splits)
  then have "map (\<lambda>(name, ts). (name, inserted_table sqlite_dialect name ts)) (sg_Tables run) = sg_Tables run"
    using assms by (intro map_idI) (auto simp: list_all_iff)
  then show ?thesis by (simp add: as_read_def inserted_run_def sqlite_dialect_def)
qed

lemma created_keys:
  assumes "staging_ok db" "sg_ID run \<notin> sg_ID ` set (sd_runs db)" "distinct (map fst (sg_Tables run))"
    and "\<not> list_ex (\<lambda>r. table_key r \<in> table_key ` set (sd_tables db)) (map (\<lambda>(name, ts). (sg_ID run, inserted_table dl name ts)) (sg_Tables run))"
  shows "distinct (map sg_ID (sd_runs db @ [inserted_run dl now run])) \<and>
    distinct (map table_key (sd_tables db @ map (\<lambda>(name, ts). (sg_ID run, inserted_table dl name ts)) (sg_Tables run)))"
proof -
  let ?rows = "map (\<lambda>(name, ts). (sg_ID run, inserted_table dl name ts)) (sg_Tables run)"
  have "map table_key ?rows = map (Pair (sg_ID run)) (map fst (sg_Tables run))"
    by (auto simp: table_key_def inserted_table_def written_table_def)
  moreover have "distinct (map (Pair (sg_ID run)) (map fst (sg_Tables run)))"
    using assms(3) by (subst distinct_map) (simp add: inj_on_def)
  ultimately have "distinct (map table_key ?rows)" by (simp only:)
  with assms(1,2,4) show ?thesis
    by (auto simp: staging_ok_def inserted_run_def list_ex_iff)
qed

text \<open>
  A run created in a store and read back is the run itself with its
  tables: in SQLite exactly (its diagnostic fields start empty, its times are the store's), in
  PostgreSQL with times cut to microseconds and JSON texts as the database renders them.
\<close>

theorem created_run_reads_back:
  assumes "staging_ok db" "distinct (map fst (sg_Tables run))" "list_all (\<lambda>r. fst r \<noteq> sg_ID run) (sd_tables db)"
    and "st_Create dl run db = (db', Inr ())" "sd_err db' = None"
  shows "staging_ok db' \<and> st_Get (sg_ID run) db' = (sd_used db', Inr (Some (as_read dl (sd_clock db) run))) \<and>
    (dl = sqlite_dialect \<and> list_all (\<lambda>(name, ts). ts_Name ts = name) (sg_Tables run) \<longrightarrow>
      as_read dl (sd_clock db) run =
        run\<lparr>sg_CreatedAt := sd_clock db, sg_UpdatedAt := sd_clock db, sg_Error := None, sg_Result := None, sg_Trace := None,
            sg_ResumeCount := 0, sg_RecoveredAt := None, sg_ExecutionClaimedAt := None\<rparr>)"
proof -
  let ?rows = "map (\<lambda>(name, ts). (sg_ID run, inserted_table dl name ts)) (sg_Tables run)"
  have new: "sg_ID run \<notin> sg_ID ` set (sd_runs db)"
    and db': "db' = (sd_used db)\<lparr>sd_runs := sd_runs db @ [inserted_run dl (sd_clock db) run], sd_tables := sd_tables db @ ?rows\<rparr>"
    and keys: "\<not> list_ex (\<lambda>r. table_key r \<in> table_key ` set (sd_tables db)) ?rows"
    using assms(4) by (auto simp: st_Create_def Let_def split: option.splits if_splits)
  have "filter (\<lambda>r. fst r = sg_ID run) (sd_tables db) = []" using assms(3) by (auto simp: filter_empty_conv list_all_iff)
  then have load: "loadTables (sg_ID run) db' = map (\<lambda>(name, ts). (name, inserted_table dl name ts)) (sg_Tables run)"
    by (auto simp: db' loadTables_def inserted_table_def written_table_def filter_map o_def split_def)
  have "find (\<lambda>r. sg_ID r = sg_ID run) (sd_runs db') = Some (inserted_run dl (sd_clock db) run)"
    using find_key_append [of sg_ID "inserted_run dl (sd_clock db) run" "sd_runs db" "sg_ID run"] new
    by (simp add: db' inserted_run_def)
  then have "st_Get (sg_ID run) db' = (sd_used db', Inr (Some (as_read dl (sd_clock db) run)))"
    using assms(5) by (simp add: st_Get_def load as_read_def)
  moreover have "staging_ok db'" using created_keys [OF assms(1) new assms(2) keys, of "sd_clock db"] by (simp add: db' staging_ok_def)
  ultimately show ?thesis using as_read_sqlite by blast
qed

definition empty_staging :: staging_db where
  "empty_staging = \<lparr>sd_runs = [], sd_tables = [], sd_now = (\<lambda>n. 5000000000 + int n), sd_fault = (\<lambda>_. None), sd_calls = 0\<rparr>"

definition sample_run :: StagingRun where
  "sample_run =
     \<lparr>sg_ID = ''r'', sg_StrategyName = ''s'', sg_Params = ''{}'', sg_ParamsFingerprint = [], sg_Status = RsStaging,
      sg_Tables = [(''a'', zero_table ''a'' ''fracta_mcp_gateway'' True TsFetching), (''b'', zero_table ''b'' ''mcp'' False TsAwaitingAgent)],
      sg_CreatedAt = 0, sg_UpdatedAt = 0, sg_Error = None, sg_Result = None, sg_Trace = None, sg_ResumeCount = 0, sg_RecoveredAt = None,
      sg_ExecutionClaimedAt = None\<rparr>"

theorem created_run_reads_back_witness:
  "st_Get ''r'' (fst (st_Create sqlite_dialect sample_run empty_staging)) =
     (sd_used (fst (st_Create sqlite_dialect sample_run empty_staging)),
      Inr (Some (sample_run\<lparr>sg_CreatedAt := 5000000000, sg_UpdatedAt := 5000000000\<rparr>)))"
proof -
  have c: "st_Create sqlite_dialect sample_run empty_staging = (fst (st_Create sqlite_dialect sample_run empty_staging), Inr ())"
    by (simp add: st_Create_def sample_run_def empty_staging_def sd_err_def)
  have "st_Get (sg_ID sample_run) (fst (st_Create sqlite_dialect sample_run empty_staging)) =
      (sd_used (fst (st_Create sqlite_dialect sample_run empty_staging)), Inr (Some (as_read sqlite_dialect (sd_clock empty_staging) sample_run)))"
    by (rule conjunct1 [OF conjunct2 [OF created_run_reads_back [OF _ _ _ c]]])
      (simp_all add: st_Create_def sample_run_def empty_staging_def sd_err_def sd_used_def staging_ok_def)
  moreover have "as_read sqlite_dialect (sd_clock empty_staging) sample_run = sample_run\<lparr>sg_CreatedAt := 5000000000, sg_UpdatedAt := 5000000000\<rparr>"
    by (subst as_read_sqlite) (simp_all add: sample_run_def zero_table_def empty_staging_def sd_clock_def)
  ultimately show ?thesis by (simp add: sample_run_def)
qed

subsection \<open>The claim of an execution\<close>

text \<open>The writes processes make to the store, on any runs, in any order.\<close>

datatype store_act =
    ACreate StagingRun | AStatus string RunStatus | ATable string string TableState | ACas string
  | AResult string RunStatus "string option" "string option" | AFail string "StructuredError option"
  | ARecovery string int int | AReap int int | AGet string | AList

fun st_act :: "dialect \<Rightarrow> store_act \<Rightarrow> staging_db \<Rightarrow> staging_db" where
  "st_act dl (ACreate run) db = fst (st_Create dl run db)"
| "st_act dl (AStatus i st) db = fst (st_UpdateStatus dl i st db)"
| "st_act dl (ATable i t ts) db = fst (st_UpdateTable dl i t ts db)"
| "st_act dl (ACas i) db = fst (st_CASExecute dl i db)"
| "st_act dl (AResult i st res tr) db = fst (st_SetResult dl i st res tr db)"
| "st_act dl (AFail i e) db = fst (st_FailRun dl i e db)"
| "st_act dl (ARecovery i n at) db = fst (st_UpdateRecovery dl i n at db)"
| "st_act dl (AReap a b) db = fst (st_Reap dl a b db)"
| "st_act dl (AGet i) db = fst (st_Get i db)"
| "st_act dl AList db = fst (st_ListActive db)"

text \<open>The claims of run \<open>i\<close> that are granted along a sequence of acts.\<close>

fun claims :: "dialect \<Rightarrow> string \<Rightarrow> store_act list \<Rightarrow> staging_db \<Rightarrow> nat" where
  "claims dl i [] db = 0"
| "claims dl i (a # as) db =
     (if a = ACas i \<and> snd (st_CASExecute dl i db) = Inr True then 1 else 0) + claims dl i as (st_act dl a db)"

fun restages :: "string \<Rightarrow> store_act \<Rightarrow> bool" where
  "restages i (ACreate run) \<longleftrightarrow> sg_ID run = i"
| "restages i (AStatus j st) \<longleftrightarrow> j = i \<and> st = RsStaged"
| "restages i (AResult j st res tr) \<longleftrightarrow> j = i \<and> st = RsStaged"
| "restages i _ \<longleftrightarrow> False"

definition unstaged :: "string \<Rightarrow> staging_db \<Rightarrow> bool" where
  "unstaged i db \<longleftrightarrow> (\<forall>r\<in>set (sd_runs db). sg_ID r = i \<longrightarrow> sg_Status r \<noteq> RsStaged)"

lemma unstaged_used [simp]: "unstaged i (sd_used db) = unstaged i db"
  by (simp add: unstaged_def)

lemma set_run_unstaged:
  assumes "unstaged i db" "\<And>r. sg_ID (u r) = sg_ID r" "\<And>r. j = i \<Longrightarrow> sg_Status r \<noteq> RsStaged \<Longrightarrow> sg_Status (u r) \<noteq> RsStaged"
  shows "unstaged i (fst (set_run j u db))"
  using assms by (auto simp: set_run_def unstaged_def set_update_rows split: option.splits)

lemma act_unstaged:
  assumes "\<not> restages i a" "unstaged i db"
  shows "unstaged i (st_act dl a db)"
proof (cases a)
  case (ACreate run)
  with assms show ?thesis
    by (auto simp: st_Create_def Let_def unstaged_def inserted_run_def split: option.splits)
next
  case (ATable j t ts)
  with assms show ?thesis
    by (auto simp: st_UpdateTable_def Let_def touch_run_def unstaged_def set_update_rows split: option.splits)
next
  case (ACas j)
  with assms show ?thesis
    by (auto simp: st_CASExecute_def Let_def unstaged_def set_update_rows split: option.splits)
next
  case (AReap x y)
  with assms show ?thesis
    by (auto simp: st_Reap_def Let_def delete_runs_def unstaged_def split: option.splits)
next
  case (AStatus j st)
  with assms show ?thesis unfolding AStatus st_act.simps st_UpdateStatus_def by (intro set_run_unstaged) auto
next
  case (AResult j st res tr)
  with assms show ?thesis unfolding AResult st_act.simps st_SetResult_def by (intro set_run_unstaged) auto
next
  case (AFail j e)
  with assms show ?thesis unfolding AFail st_act.simps st_FailRun_def by (intro set_run_unstaged) auto
next
  case (ARecovery j n at)
  with assms show ?thesis unfolding ARecovery st_act.simps st_UpdateRecovery_def by (intro set_run_unstaged) auto
qed (use assms in \<open>auto simp: st_Get_def st_ListActive_def split: option.splits\<close>)

lemma unstaged_update:
  assumes "\<And>r. sg_ID r = i \<Longrightarrow> \<not> p r \<Longrightarrow> sg_Status r \<noteq> RsStaged" "\<And>r. sg_Status (u r) \<noteq> RsStaged"
  shows "unstaged i (db\<lparr>sd_runs := update_rows p u rows\<rparr>)"
  unfolding unstaged_def using assms by (fastforce simp: update_rows_def)

lemma cas_won_unstages:
  assumes "snd (st_CASExecute dl i db) = Inr True"
  shows "unstaged i (fst (st_CASExecute dl i db))"
proof -
  have "sd_err db = None" using assms by (cases "sd_err db") (simp_all add: st_CASExecute_def)
  then show ?thesis by (simp add: st_CASExecute_def Let_def) (rule unstaged_update, simp_all)
qed

lemma unstaged_no_claim: "unstaged i db \<Longrightarrow> snd (st_CASExecute dl i db) \<noteq> Inr True"
  by (auto simp: st_CASExecute_def Let_def unstaged_def affected_def filter_empty_conv split: option.splits)

lemma unstaged_claims: "list_all (\<lambda>a. \<not> restages i a) as \<Longrightarrow> unstaged i db \<Longrightarrow> claims dl i as db = 0"
  by (induction as arbitrary: db) (auto simp: unstaged_no_claim act_unstaged)

text \<open>
  C25 (execution_claimed_once): whatever processes do to the store, in whatever order and whichever
  statements fail, at most one of them is granted the execution of a run, as long as nobody puts
  the run back to staged.
\<close>

theorem execution_claimed_once:
  assumes "list_all (\<lambda>a. \<not> restages i a) as"
  shows "claims dl i as db \<le> 1"
  using assms
proof (induction as arbitrary: db)
  case (Cons a as)
  show ?case
  proof (cases "a = ACas i \<and> snd (st_CASExecute dl i db) = Inr True")
    case True
    then have "claims dl i as (st_act dl a db) = 0"
      using unstaged_claims [OF _ cas_won_unstages] Cons.prems by simp
    with True show ?thesis by simp
  next
    case False
    then show ?thesis using Cons by auto
  qed
qed simp

definition sample_staged :: staging_db where
  "sample_staged = empty_staging\<lparr>sd_runs := [sample_run\<lparr>sg_Status := RsStaged, sg_Tables := []\<rparr>]\<rparr>"

theorem execution_claimed_once_witness:
  "claims sqlite_dialect ''r'' [ACas ''r'', AFail ''r'' None, ACas ''r''] sample_staged \<le> 1 \<and>
   claims sqlite_dialect ''r'' [ACas ''r'', AFail ''r'' None, ACas ''r''] sample_staged = 1"
proof
  show "claims sqlite_dialect ''r'' [ACas ''r'', AFail ''r'' None, ACas ''r''] sample_staged \<le> 1"
    by (rule execution_claimed_once) simp
  show "claims sqlite_dialect ''r'' [ACas ''r'', AFail ''r'' None, ACas ''r''] sample_staged = 1" by code_simp
qed

text \<open>
  \<open>UpdateStatus\<close> does not check the transition: a completed run put back to staged is claimed again.
\<close>

lemma completed_run_claimed_again:
  "claims sqlite_dialect ''r'' [ACas ''r'', AResult ''r'' RsComplete None None, AStatus ''r'' RsStaged, ACas ''r''] sample_staged = 2 \<and>
   ValidateRunTransition RsComplete RsStaged \<noteq> Inr ()"
  by code_simp

subsection \<open>Reaping\<close>

lemma text_before_coarse:
  "t + second_ns \<le> u \<Longrightarrow> text_before t u" "text_before t u \<Longrightarrow> t < u + second_ns"
proof -
  assume "t + second_ns \<le> u"
  then have "(t + second_ns) div second_ns \<le> u div second_ns" by (intro zdiv_mono1) (simp_all add: second_ns_def)
  then have "t div second_ns < u div second_ns" by (simp add: second_ns_def div_add_self2)
  then show "text_before t u" by (simp add: text_before_def Let_def)
next
  assume "text_before t u"
  then have "t div second_ns \<le> u div second_ns" by (auto simp: text_before_def Let_def)
  moreover have "t < (t div second_ns + 1) * second_ns" "u div second_ns * second_ns \<le> u" by (simp_all add: second_ns_def)
  ultimately show "t < u + second_ns" by (simp add: second_ns_def)
qed

text \<open>Within a second the texts are not in the order of the times.\<close>

lemma text_before_reverses: "text_before (second_ns + 1) second_ns" "\<not> text_before second_ns (second_ns + 1)"
  by code_simp+

definition reaped :: "dialect \<Rightarrow> int \<Rightarrow> int \<Rightarrow> int \<Rightarrow> StagingRun \<Rightarrow> bool" where
  "reaped dl now terminalTTL staleTTL r \<longleftrightarrow>
     dl_before dl (sg_UpdatedAt r) (now - (if run_IsTerminal r then terminalTTL else staleTTL))"

lemma affected_filter: "affected p (filter (\<lambda>r. \<not> q r) xs) = affected (\<lambda>r. p r \<and> \<not> q r) xs"
  by (induction xs) (auto simp: affected_def)

lemma affected_split: "affected (\<lambda>r. c r \<and> p r) xs + affected (\<lambda>r. \<not> c r \<and> q r) xs = affected (\<lambda>r. if c r then p r else q r) xs"
  by (induction xs) (auto simp: affected_def)

lemma Reap_runs:
  assumes "quiet db"
  shows "\<exists>db'. st_Reap dl a b db = (db', int (affected (reaped dl (sd_clock db) a b) (sd_runs db)), None) \<and>
    sd_runs db' = filter (\<lambda>r. \<not> reaped dl (sd_clock db) a b r) (sd_runs db) \<and>
    sd_tables db' = (if dl_cascade dl
      then filter (\<lambda>t. fst t \<notin> sg_ID ` {r \<in> set (sd_runs db). reaped dl (sd_clock db) a b r}) (sd_tables db) else sd_tables db)"
proof -
  let ?e = "\<lambda>ttl r. dl_before dl (sg_UpdatedAt r) (sd_clock db - ttl)"
  let ?p1 = "\<lambda>r. run_IsTerminal r \<and> ?e a r" and ?p2 = "\<lambda>r. \<not> run_IsTerminal r \<and> ?e b r"
  have re: "reaped dl (sd_clock db) a b r \<longleftrightarrow> ?p1 r \<or> ?p2 r" for r by (auto simp: reaped_def)
  let ?db1 = "delete_runs dl ?p1 (sd_used db)"
  have q1: "sd_err ?db1 = None" using assms by (simp add: delete_runs_def)
  have runs1: "sd_runs ?db1 = filter (\<lambda>r. \<not> ?p1 r) (sd_runs db)" by (simp add: delete_runs_def)
  have n: "affected ?p1 (sd_runs db) + affected ?p2 (sd_runs ?db1) = affected (reaped dl (sd_clock db) a b) (sd_runs db)"
  proof -
    have "affected ?p2 (sd_runs ?db1) = affected ?p2 (sd_runs db)"
      unfolding runs1 affected_filter by (rule arg_cong2 [where f = affected]) auto
    then show ?thesis using affected_split [of run_IsTerminal "?e a" "sd_runs db" "?e b"]
      by (simp add: reaped_def [abs_def] if_distrib cong: if_cong)
  qed
  have reap: "st_Reap dl a b db =
      (delete_runs dl ?p2 (sd_used ?db1), int (affected ?p1 (sd_runs db)) + int (affected ?p2 (sd_runs ?db1)), None)"
    using assms q1 by (simp add: st_Reap_def Let_def)
  have sets: "{r \<in> set (sd_runs db). reaped dl (sd_clock db) a b r} =
      {r \<in> set (sd_runs db). ?p1 r} \<union> {r \<in> set (sd_runs ?db1). ?p2 r}"
    unfolding runs1 by (auto simp: re)
  have runs: "sd_runs (delete_runs dl ?p2 (sd_used ?db1)) = filter (\<lambda>r. \<not> reaped dl (sd_clock db) a b r) (sd_runs db)"
    by (simp add: delete_runs_def filter_filter) (rule filter_cong, auto simp: re)
  have "sd_tables (delete_runs dl ?p2 (sd_used ?db1)) =
      (if dl_cascade dl
       then filter (\<lambda>t. fst t \<notin> sg_ID ` ({r \<in> set (sd_runs db). ?p1 r} \<union> {r \<in> set (sd_runs ?db1). ?p2 r})) (sd_tables db) else sd_tables db)"
    unfolding image_Un by (simp add: delete_runs_def filter_filter)
  with runs show ?thesis unfolding reap n [symmetric] sets by simp
qed

text \<open>
  A reap of the SQLite store deletes every run that has been left alone
  for its time to live and a second more, deletes none that was used within its time to live less
  a second, and counts what it deletes. In between the order of the texts decides, not that of
  the times.
\<close>

theorem reap_within_a_second:
  assumes "quiet db" "st_Reap sqlite_dialect terminalTTL staleTTL db = (db', n, err)"
  shows "err = None \<and> n = int (length (sd_runs db)) - int (length (sd_runs db')) \<and> set (sd_runs db') \<subseteq> set (sd_runs db) \<and>
    (\<forall>r\<in>set (sd_runs db').
       sd_clock db - sg_UpdatedAt r < (if run_IsTerminal r then terminalTTL else staleTTL) + second_ns) \<and>
    (\<forall>r\<in>set (sd_runs db). sd_clock db - sg_UpdatedAt r \<le> (if run_IsTerminal r then terminalTTL else staleTTL) - second_ns \<longrightarrow>
       r \<in> set (sd_runs db'))"
proof -
  let ?p = "reaped sqlite_dialect (sd_clock db) terminalTTL staleTTL"
  from Reap_runs [OF assms(1), of sqlite_dialect terminalTTL staleTTL] assms(2)
  have err: "err = None" and n: "n = int (affected ?p (sd_runs db))" and runs: "sd_runs db' = filter (\<lambda>r. \<not> ?p r) (sd_runs db)" by auto
  have "affected ?p (sd_runs db) + length (sd_runs db') = length (sd_runs db)"
    unfolding runs affected_def by (rule sum_length_filter_compl)
  then have "n = int (length (sd_runs db)) - int (length (sd_runs db'))" using n by simp
  have sub: "set (sd_runs db') \<subseteq> set (sd_runs db)" unfolding runs by auto
  have late: "?p r" if "\<not> sd_clock db - sg_UpdatedAt r < (if run_IsTerminal r then terminalTTL else staleTTL) + second_ns" for r
    unfolding reaped_def using that by (auto simp: sqlite_dialect_def intro!: text_before_coarse(1))
  note count = \<open>n = int (length (sd_runs db)) - int (length (sd_runs db'))\<close>
  have "\<forall>r\<in>set (sd_runs db').
      sd_clock db - sg_UpdatedAt r < (if run_IsTerminal r then terminalTTL else staleTTL) + second_ns"
    unfolding runs using late by (simp only: set_filter mem_Collect_eq Ball_def) blast
  moreover have early: "\<not> ?p r" if "sd_clock db - sg_UpdatedAt r \<le> (if run_IsTerminal r then terminalTTL else staleTTL) - second_ns" for r
    unfolding reaped_def using that by (auto simp: sqlite_dialect_def dest!: text_before_coarse(2))
  have "\<forall>r\<in>set (sd_runs db). sd_clock db - sg_UpdatedAt r \<le> (if run_IsTerminal r then terminalTTL else staleTTL) - second_ns \<longrightarrow>
      r \<in> set (sd_runs db')"
    unfolding runs using early by (simp only: set_filter mem_Collect_eq Ball_def) blast
  ultimately show ?thesis using err sub count by blast
qed

theorem reap_within_a_second_witness:
  "sd_runs (fst (st_Reap sqlite_dialect 3000000000 1000000000 sample_staged)) = [] \<and>
   fst (snd (st_Reap sqlite_dialect 3000000000 1000000000 sample_staged)) = 1"
proof -
  obtain db' n err where r: "st_Reap sqlite_dialect 3000000000 1000000000 sample_staged = (db', n, err)" by (metis prod.exhaust)
  have q: "quiet sample_staged" by (simp add: quiet_def sample_staged_def empty_staging_def)
  note reap_within_a_second [OF q r]
  then have runs: "set (sd_runs db') \<subseteq> {sample_run\<lparr>sg_Status := RsStaged, sg_Tables := []\<rparr>}"
    "\<forall>r\<in>set (sd_runs db'). sd_clock sample_staged - sg_UpdatedAt r < (if run_IsTerminal r then 3000000000 else 1000000000) + second_ns"
    "n = int (length (sd_runs sample_staged)) - int (length (sd_runs db'))"
    by (auto simp: sample_staged_def)
  have "sd_runs db' = []"
  proof (rule ccontr)
    assume "sd_runs db' \<noteq> []"
    then have "hd (sd_runs db') \<in> set (sd_runs db')" by simp
    with runs(1) have "hd (sd_runs db') = sample_run\<lparr>sg_Status := RsStaged, sg_Tables := []\<rparr>" by blast
    moreover note bspec [OF runs(2) \<open>hd (sd_runs db') \<in> set (sd_runs db')\<close>]
    ultimately show False
      by (simp add: sample_staged_def empty_staging_def sample_run_def sd_clock_def run_IsTerminal_def second_ns_def)
  qed
  then have "n = 1" using runs(3) by (simp add: sample_staged_def)
  with \<open>sd_runs db' = []\<close> show ?thesis unfolding r by simp
qed

text \<open>Without foreign keys the tables of a reaped run stay behind in SQLite; PostgreSQL deletes them.\<close>

lemma sqlite_keeps_orphans:
  assumes "quiet db"
  shows "sd_tables (fst (st_Reap sqlite_dialect a b db)) = sd_tables db"
  using Reap_runs [OF assms, of sqlite_dialect a b] by (auto simp: sqlite_dialect_def)

end
