(* ===== verification/StagingSession.thy ===== *)
theory StagingSession
  imports StagingRun "HOL-Library.AList" "HOL-Library.Char_ord" "HOL-Library.List_Lexorder"
begin

text \<open>
  \<open>internal/strategy/staging_session.go\<close>: the in-memory sessions of agents that stage tables by hand,
  their directories on disk and the janitor that removes what was abandoned. Random identifiers
  and clock readings are arguments; a directory is its name and modification time.
\<close>

subsection \<open>Sessions\<close>

record StagingSession =
  ses_ID :: string
  ses_ParamsFingerprint :: string
  ses_createdAt :: int
  ses_lastUsed :: int
  ses_paths :: "(string \<times> string) list"

text \<open>\<open>digest\<close> is the hexadecimal SHA-256 of a text; \<open>None\<close> stands for parameters that do not marshal.\<close>

definition ComputeParamsFingerprint :: "(string \<Rightarrow> string) \<Rightarrow> bool \<Rightarrow> string option \<Rightarrow> string" where
  "ComputeParamsFingerprint digest no_params text =
     (if no_params then [] else case text of None \<Rightarrow> [] | Some j \<Rightarrow> take 16 (digest j))"

definition NewStagingSession :: "string \<Rightarrow> int \<Rightarrow> StagingSession" where
  "NewStagingSession i now = \<lparr>ses_ID = i, ses_ParamsFingerprint = [], ses_createdAt = now, ses_lastUsed = now, ses_paths = []\<rparr>"

definition ses_Put :: "string \<Rightarrow> string \<Rightarrow> int \<Rightarrow> StagingSession \<Rightarrow> StagingSession" where
  "ses_Put table path now s = s\<lparr>ses_paths := AList.update table path (ses_paths s), ses_lastUsed := now\<rparr>"

text \<open>\<open>filepath.Dir\<close> of the absolute path of a file: what is before the last separator.\<close>

definition dir_of :: "string \<Rightarrow> string" where
  "dir_of path =
     (let d = rev (drop 1 (dropWhile (\<lambda>c. c \<noteq> CHR ''/'') (rev path))) in if d = [] then ''/'' else d)"

definition join_path :: "string \<Rightarrow> string \<Rightarrow> string" where
  "join_path dir name = (if dir = ''/'' then ''/'' @ name else dir @ ''/'' @ name)"

definition chunk_glob :: "string \<Rightarrow> string \<Rightarrow> string" where
  "chunk_glob dir table = join_path dir (table @ ''_chunk_*.parquet'')"

definition ses_PutChunk :: "string \<Rightarrow> string \<Rightarrow> int \<Rightarrow> StagingSession \<Rightarrow> StagingSession" where
  "ses_PutChunk table chunkPath now s =
     s\<lparr>ses_paths := AList.update table (chunk_glob (dir_of chunkPath) table) (ses_paths s), ses_lastUsed := now\<rparr>"

definition ses_Get :: "string \<Rightarrow> StagingSession \<Rightarrow> string option" where
  "ses_Get table s = map_of (ses_paths s) table"

definition ses_Tables :: "StagingSession \<Rightarrow> string list" where
  "ses_Tables s = sort (map fst (ses_paths s))"

subsection \<open>The store\<close>

definition DefaultSessionTTL :: int where
  "DefaultSessionTTL = 30 * 60 * second_ns"

record session_store =
  sst_sessions :: "(string \<times> StagingSession) list"
  sst_ttl :: int
  sst_dirs :: "(string \<times> int) list"

definition NewStagingSessionStore :: "(string \<times> int) list \<Rightarrow> session_store" where
  "NewStagingSessionStore dirs = \<lparr>sst_sessions = [], sst_ttl = DefaultSessionTTL, sst_dirs = dirs\<rparr>"

definition sst_Create :: "string \<Rightarrow> int \<Rightarrow> session_store \<Rightarrow> session_store" where
  "sst_Create i now ss =
     ss\<lparr>sst_sessions := AList.update i (NewStagingSession i now) (sst_sessions ss),
        sst_dirs := (if i \<in> fst ` set (sst_dirs ss) then sst_dirs ss else sst_dirs ss @ [(i, now)])\<rparr>"

definition sst_Get :: "string \<Rightarrow> session_store \<Rightarrow> StagingSession option" where
  "sst_Get i ss = map_of (sst_sessions ss) i"

definition sst_Remove :: "string \<Rightarrow> session_store \<Rightarrow> session_store" where
  "sst_Remove i ss =
     ss\<lparr>sst_sessions := filter (\<lambda>e. fst e \<noteq> i) (sst_sessions ss), sst_dirs := filter (\<lambda>d. fst d \<noteq> i) (sst_dirs ss)\<rparr>"

text \<open>\<open>Range\<close> visits the sessions present when it starts.\<close>

definition reapExpired :: "int \<Rightarrow> session_store \<Rightarrow> session_store" where
  "reapExpired now ss =
     fold (\<lambda>(i, s) st. if now - ses_lastUsed s > sst_ttl ss then sst_Remove i st else st) (sst_sessions ss) ss"

text \<open>\<open>stat\<close> says whether the directory's information can be read.\<close>

fun reap_dirs :: "(string \<Rightarrow> bool) \<Rightarrow> int \<Rightarrow> session_store \<Rightarrow> (string \<times> int) list \<Rightarrow> (string \<times> int) list" where
  "reap_dirs stat now ss [] = []"
| "reap_dirs stat now ss ((name, modTime) # rest) =
     (if sst_Get name ss \<noteq> None then (name, modTime) # reap_dirs stat now ss rest
      else if \<not> stat name then (name, modTime) # reap_dirs stat now ss rest
      else if now - modTime > sst_ttl ss then reap_dirs stat now ss rest
      else (name, modTime) # reap_dirs stat now ss rest)"

definition reapOrphanedDirs :: "(string \<Rightarrow> bool) \<Rightarrow> int \<Rightarrow> session_store \<Rightarrow> session_store" where
  "reapOrphanedDirs stat now ss = ss\<lparr>sst_dirs := reap_dirs stat now ss (sst_dirs ss)\<rparr>"

definition janitor_pass :: "(string \<Rightarrow> bool) \<Rightarrow> int \<Rightarrow> session_store \<Rightarrow> session_store" where
  "janitor_pass stat now ss = reapOrphanedDirs stat now (reapExpired now ss)"

subsection \<open>What the janitor removes\<close>

definition sessions_ok :: "session_store \<Rightarrow> bool" where
  "sessions_ok ss \<longleftrightarrow> distinct (map fst (sst_sessions ss)) \<and> distinct (map fst (sst_dirs ss))"

lemma map_of_filter_snd:
  "distinct (map fst xs) \<Longrightarrow> map_of (filter (\<lambda>e. P (snd e)) xs) j = (case map_of xs j of None \<Rightarrow> None | Some s \<Rightarrow> if P s then Some s else None)"
proof (induction xs)
  case (Cons a xs)
  moreover from this have "map_of xs (fst a) = None" by (simp add: map_of_eq_None_iff)
  ultimately show ?case by (cases "j = fst a"; cases "map_of xs j") auto
qed simp

lemma key_selected:
  assumes "distinct (map fst xs)" "e \<in> set xs"
  shows "fst e \<in> fst ` {x \<in> set xs. P (snd x)} \<longleftrightarrow> P (snd e)"
proof
  assume "fst e \<in> fst ` {x \<in> set xs. P (snd x)}"
  then obtain x where x: "x \<in> set xs" "P (snd x)" "fst x = fst e" by auto
  with assms have "snd x = snd e" by (metis eq_key_imp_eq_value prod.collapse)
  with x show "P (snd e)" by simp
qed (use assms in blast)

lemma fold_remove:
  "sst_sessions (fold (\<lambda>(i, s) st. if old s then sst_Remove i st else st) xs ss) =
     filter (\<lambda>e. fst e \<notin> fst ` {x \<in> set xs. old (snd x)}) (sst_sessions ss) \<and>
   sst_dirs (fold (\<lambda>(i, s) st. if old s then sst_Remove i st else st) xs ss) =
     filter (\<lambda>d. fst d \<notin> fst ` {x \<in> set xs. old (snd x)}) (sst_dirs ss) \<and>
   sst_ttl (fold (\<lambda>(i, s) st. if old s then sst_Remove i st else st) xs ss) = sst_ttl ss"
proof (induction xs arbitrary: ss)
  case (Cons x xs)
  obtain i s where x: "x = (i, s)" by (cases x)
  show ?case
  proof (cases "old s")
    case True
    have set: "fst ` {y \<in> set (x # xs). old (snd y)} = insert i (fst ` {y \<in> set xs. old (snd y)})"
      using True by (force simp: x)
    show ?thesis unfolding set using Cons.IH [of "sst_Remove i ss"] True
      by (simp add: x sst_Remove_def filter_filter)
  next
    case False
    have set: "fst ` {y \<in> set (x # xs). old (snd y)} = fst ` {y \<in> set xs. old (snd y)}"
      using False by (auto simp: x)
    show ?thesis unfolding set using Cons.IH [of ss] False by (simp add: x)
  qed
qed simp

lemma reap_dirs_filter:
  "reap_dirs stat now ss ds = filter (\<lambda>(name, t). sst_Get name ss \<noteq> None \<or> \<not> stat name \<or> now - t \<le> sst_ttl ss) ds"
proof (induction ds)
  case (Cons d ds)
  then show ?case by (cases d; cases "sst_Get (fst d) ss") (simp_all add: not_less)
qed simp

definition idle :: "int \<Rightarrow> session_store \<Rightarrow> StagingSession \<Rightarrow> bool" where
  "idle now ss s \<longleftrightarrow> now - ses_lastUsed s > sst_ttl ss"

lemma reapExpired_eq:
  assumes "sessions_ok ss"
  shows "sst_sessions (reapExpired now ss) = filter (\<lambda>e. \<not> idle now ss (snd e)) (sst_sessions ss)"
    "sst_dirs (reapExpired now ss) = filter (\<lambda>d. fst d \<notin> fst ` {x \<in> set (sst_sessions ss). idle now ss (snd x)}) (sst_dirs ss)"
    "sst_ttl (reapExpired now ss) = sst_ttl ss"
proof -
  note f = fold_remove [of "idle now ss" "sst_sessions ss" ss]
  have "fst e \<notin> fst ` {x \<in> set (sst_sessions ss). idle now ss (snd x)} \<longleftrightarrow> \<not> idle now ss (snd e)" if "e \<in> set (sst_sessions ss)" for e
    using key_selected [OF _ that] assms by (simp add: sessions_ok_def)
  then have "filter (\<lambda>e. fst e \<notin> fst ` {x \<in> set (sst_sessions ss). idle now ss (snd x)}) (sst_sessions ss) =
      filter (\<lambda>e. \<not> idle now ss (snd e)) (sst_sessions ss)" by (intro filter_cong) simp_all
  with f show "sst_sessions (reapExpired now ss) = filter (\<lambda>e. \<not> idle now ss (snd e)) (sst_sessions ss)"
    by (simp add: reapExpired_def idle_def [abs_def])
  show "sst_dirs (reapExpired now ss) = filter (\<lambda>d. fst d \<notin> fst ` {x \<in> set (sst_sessions ss). idle now ss (snd x)}) (sst_dirs ss)"
    "sst_ttl (reapExpired now ss) = sst_ttl ss"
    using f by (simp_all add: reapExpired_def idle_def [abs_def])
qed

text \<open>
  a pass of the janitor removes exactly the sessions unused for
  longer than the time to live, each with its directory; it never removes the directory of a
  session that stays, and of the other directories exactly the old ones it can read.
\<close>

theorem janitor_removes_abandoned:
  assumes "sessions_ok ss"
  shows "sst_Get i (janitor_pass stat now ss) =
      (case sst_Get i ss of None \<Rightarrow> None | Some s \<Rightarrow> if now - ses_lastUsed s > sst_ttl ss then None else Some s) \<and>
    ((d, t) \<in> set (sst_dirs (janitor_pass stat now ss)) \<longleftrightarrow>
       (d, t) \<in> set (sst_dirs ss) \<and>
       (case sst_Get d ss of
          Some s \<Rightarrow> now - ses_lastUsed s \<le> sst_ttl ss
        | None \<Rightarrow> \<not> stat d \<or> now - t \<le> sst_ttl ss))"
proof -
  note r = reapExpired_eq [OF assms, of now]
  have get: "sst_Get j (reapExpired now ss) = (case sst_Get j ss of None \<Rightarrow> None | Some s \<Rightarrow> if idle now ss s then None else Some s)" for j
    using assms map_of_filter_snd [of "sst_sessions ss" "\<lambda>s. \<not> idle now ss s" j]
    by (simp add: sst_Get_def r sessions_ok_def split: option.splits)
  have "d \<in> fst ` {x \<in> set (sst_sessions ss). idle now ss (snd x)} \<longleftrightarrow> (\<exists>s. sst_Get d ss = Some s \<and> idle now ss s)"
    using assms by (force simp: sst_Get_def sessions_ok_def)
  then have dirs: "(d, t) \<in> set (sst_dirs (reapExpired now ss)) \<longleftrightarrow> (d, t) \<in> set (sst_dirs ss) \<and> (\<forall>s. sst_Get d ss = Some s \<longrightarrow> \<not> idle now ss s)"
    unfolding r by auto
  have "sst_Get i (janitor_pass stat now ss) = sst_Get i (reapExpired now ss)"
    by (simp add: janitor_pass_def reapOrphanedDirs_def sst_Get_def)
  moreover have "(d, t) \<in> set (sst_dirs (janitor_pass stat now ss)) \<longleftrightarrow>
      (d, t) \<in> set (sst_dirs (reapExpired now ss)) \<and> (sst_Get d (reapExpired now ss) \<noteq> None \<or> \<not> stat d \<or> now - t \<le> sst_ttl ss)"
    by (simp add: janitor_pass_def reapOrphanedDirs_def reap_dirs_filter r)
  ultimately show ?thesis unfolding dirs get idle_def by (cases "sst_Get d ss"; cases "sst_Get i ss") auto
qed

definition sample_sessions :: session_store where
  "sample_sessions = sst_Create ''b'' 1900000000000 (sst_Create ''a'' 1 (NewStagingSessionStore [(''old'', 0)]))"

theorem janitor_removes_abandoned_witness:
  "sst_Get ''a'' (janitor_pass (\<lambda>_. True) 2000000000000 sample_sessions) = None \<and>
   sst_dirs (janitor_pass (\<lambda>_. True) 2000000000000 sample_sessions) = [(''b'', 1900000000000)]"
proof -
  have ok: "sessions_ok sample_sessions"
    by (simp add: sessions_ok_def sample_sessions_def sst_Create_def NewStagingSessionStore_def)
  have "sst_Get ''a'' (janitor_pass (\<lambda>_. True) 2000000000000 sample_sessions) =
      (case sst_Get ''a'' sample_sessions of None \<Rightarrow> None
       | Some s \<Rightarrow> if 2000000000000 - ses_lastUsed s > sst_ttl sample_sessions then None else Some s)"
    by (rule conjunct1 [OF janitor_removes_abandoned [OF ok]])
  moreover have "\<dots> = None" by code_simp
  moreover have "sst_dirs (janitor_pass (\<lambda>_. True) 2000000000000 sample_sessions) = [(''b'', 1900000000000)]" by code_simp
  ultimately show ?thesis by simp
qed

text \<open>Reading a session does not count as using it: it can be reaped right after it was read.\<close>

lemma get_does_not_refresh: "sst_Get i ss = Some s \<Longrightarrow> idle now ss s \<Longrightarrow> sessions_ok ss \<Longrightarrow> sst_Get i (janitor_pass stat now ss) = None"
  using reapExpired_eq [of ss now] unfolding janitor_pass_def reapOrphanedDirs_def
  by (auto simp: sst_Get_def sessions_ok_def map_of_eq_None_iff dest: map_of_SomeD eq_key_imp_eq_value)

end
