(* ===== verification/GoValues.thy ===== *)
theory GoValues
  imports Prelude "HOL-Library.AList" "HOL-Library.Char_ord" "HOL-Library.List_Lexorder" "HOL-Library.Word"
begin

text \<open>
  The dynamic values the Go code passes around as \<open>any\<close> (what \<open>encoding/json\<close> and \<open>yaml\<close> decode
  into), their \<open>%v\<close> and \<open>%T\<close> formats, the functions of \<open>strings\<close> and \<open>strconv\<close> that the
  fetcher uses on them, and \<open>loaders/template.go\<close>.

  A \<open>map[string]any\<close> is a list of entries with distinct keys, in the order in which a \<open>range\<close>
  loop visits it. A finite \<open>float64\<close> is \<open>m * 10 ^ e\<close> with the shortest \<open>m\<close> that identifies
  it (what \<open>strconv\<close> prints); the zero is not signed.
\<close>

datatype gval =
    GNil
  | GBool bool
  | GStr string
  | GNumber string
  | GFloat int int
  | GInt int
  | GList "gval list"
  | GMap "(string \<times> gval) list"

type_synonym gmap = "(string \<times> gval) list"

definition go_get :: "gmap \<Rightarrow> string \<Rightarrow> gval" where
  "go_get m k = (case map_of m k of None \<Rightarrow> GNil | Some v \<Rightarrow> v)"

definition go_put :: "string \<Rightarrow> 'v \<Rightarrow> (string \<times> 'v) list \<Rightarrow> (string \<times> 'v) list" where
  "go_put k v m = AList.update k v m"

lemma map_of_go_put [simp]: "map_of (go_put k v m) = (map_of m)(k \<mapsto> v)"
  by (simp add: go_put_def update_conv')

subsection \<open>Strings\<close>

text \<open>White space of ASCII text; \<open>strings.TrimSpace\<close>, \<open>strings.ToUpper\<close> on it.\<close>

definition white :: "char \<Rightarrow> bool" where
  "white c = (let n = (of_char c :: nat) in n = 32 \<or> (9 \<le> n \<and> n \<le> 13))"

definition TrimSpace :: "string \<Rightarrow> string" where
  "TrimSpace s = rev (dropWhile white (rev (dropWhile white s)))"

definition upper_char :: "char \<Rightarrow> char" where
  "upper_char c = (let n = (of_char c :: nat) in if 97 \<le> n \<and> n \<le> 122 then char_of (n - 32) else c)"

definition lower_char :: "char \<Rightarrow> char" where
  "lower_char c = (let n = (of_char c :: nat) in if 65 \<le> n \<and> n \<le> 90 then char_of (n + 32) else c)"

abbreviation ToUpper :: "string \<Rightarrow> string" where "ToUpper s \<equiv> map upper_char s"
abbreviation ToLower :: "string \<Rightarrow> string" where "ToLower s \<equiv> map lower_char s"

text \<open>\<open>strings.Split\<close> with a separator of one byte.\<close>

fun split_on :: "char \<Rightarrow> string \<Rightarrow> string list" where
  "split_on c [] = [[]]"
| "split_on c (x # xs) =
     (if x = c then [] # split_on c xs
      else case split_on c xs of [] \<Rightarrow> [[x]] | w # ws \<Rightarrow> (x # w) # ws)"

text \<open>\<open>strings.TrimPrefix\<close>, \<open>strings.Index\<close>, \<open>strings.LastIndex\<close> with one byte.\<close>

definition TrimPrefix :: "string \<Rightarrow> string \<Rightarrow> string" where
  "TrimPrefix s p = (if prefix p s then drop (length p) s else s)"

fun index_of :: "string \<Rightarrow> string \<Rightarrow> nat option" where
  "index_of [] sub = (if sub = [] then Some 0 else None)"
| "index_of (c # cs) sub =
     (if prefix sub (c # cs) then Some 0 else map_option Suc (index_of cs sub))"

definition last_index :: "string \<Rightarrow> char \<Rightarrow> nat option" where
  "last_index s c = (if c \<in> set s then Some (length s - Suc (length (takeWhile (\<lambda>x. x \<noteq> c) (rev s)))) else None)"

text \<open>\<open>strings.ReplaceAll\<close> with a nonempty pattern; \<open>skip\<close> counts the bytes of a match still to be dropped.\<close>

fun replace_all :: "string \<Rightarrow> string \<Rightarrow> nat \<Rightarrow> string \<Rightarrow> string" where
  "replace_all pat new skip [] = []"
| "replace_all pat new skip (c # cs) =
     (if 0 < skip then replace_all pat new (skip - 1) cs
      else if prefix pat (c # cs) then new @ replace_all pat new (length pat - 1) cs
      else c # replace_all pat new 0 cs)"

definition ReplaceAll :: "string \<Rightarrow> string \<Rightarrow> string \<Rightarrow> string" where
  "ReplaceAll s pat new = replace_all pat new 0 s"

subsection \<open>Numbers\<close>

text \<open>A 64-bit result that is computed modulo \<open>2 ^ 64\<close>.\<close>

definition wrap64 :: "int \<Rightarrow> int" where
  "wrap64 i = sint (word_of_int i :: 64 word)"

definition in_int64 :: "int \<Rightarrow> bool" where
  "in_int64 i = (- (2 ^ 63) \<le> i \<and> i < 2 ^ 63)"

definition is_dec :: "char \<Rightarrow> bool" where
  "is_dec c = (let n = (of_char c :: nat) in 48 \<le> n \<and> n \<le> 57)"

text \<open>\<open>strconv.ParseInt(s, 10, 64)\<close>; \<open>None\<close> is its error, of syntax or of range.\<close>

definition parse_int64 :: "string \<Rightarrow> int option" where
  "parse_int64 s =
     (let neg = (take 1 s = ''-''); ds = (if take 1 s = ''-'' \<or> take 1 s = ''+'' then drop 1 s else s);
          n = int (digits_value ds); i = (if neg then - n else n)
      in if ds = [] \<or> \<not> list_all is_dec ds \<or> \<not> in_int64 i then None else Some i)"

text \<open>\<open>int64(f)\<close>: truncation toward zero; out of range it is what amd64 gives.\<close>

definition float_trunc :: "int \<Rightarrow> int \<Rightarrow> int" where
  "float_trunc m e =
     (let a = (if 0 \<le> e then \<bar>m\<bar> * 10 ^ nat e else \<bar>m\<bar> div 10 ^ nat (- e)); i = (if m < 0 then - a else a)
      in if in_int64 i then i else - (2 ^ 63))"

text \<open>\<open>%v\<close> of a float: \<open>strconv.FormatFloat(f, 'g', -1, 64)\<close>.\<close>

definition exp_string :: "int \<Rightarrow> string" where
  "exp_string x = (if x < 0 then ''-'' else ''+'') @ pad_left 2 (nat_string (nat \<bar>x\<bar>))"

definition float_string :: "int \<Rightarrow> int \<Rightarrow> string" where
  "float_string m e =
     (let ds = nat_string (nat \<bar>m\<bar>); nd = length ds; dp = int nd + e; x = dp - 1;
          sign = (if m < 0 then ''-'' else [])
      in if m = 0 then ''0''
         else if x < -4 \<or> 6 \<le> x
         then sign @ take 1 ds @ (if nd > 1 then ''.'' @ drop 1 ds else []) @ ''e'' @ exp_string x
         else if dp \<le> 0 then sign @ ''0.'' @ replicate (nat (- dp)) (CHR ''0'') @ ds
         else if int nd \<le> dp then sign @ ds @ replicate (nat (dp - int nd)) (CHR ''0'')
         else sign @ take (nat dp) ds @ ''.'' @ drop (nat dp) ds)"

subsection \<open>\<open>%v\<close> and \<open>%T\<close>\<close>

function fmt_v :: "gval \<Rightarrow> string" where
  "fmt_v GNil = ''<nil>''"
| "fmt_v (GBool b) = (if b then ''true'' else ''false'')"
| "fmt_v (GStr s) = s"
| "fmt_v (GNumber s) = s"
| "fmt_v (GFloat m e) = float_string m e"
| "fmt_v (GInt i) = itoa i"
| "fmt_v (GList vs) = ''['' @ concat (case map fmt_v vs of [] \<Rightarrow> [] | x # xs \<Rightarrow> x # map (\<lambda>y. '' '' @ y) xs) @ '']''"
| "fmt_v (GMap m) =
     (let es = map snd (sort_key fst (map (\<lambda>(k, v). (k, k @ '':'' @ fmt_v v)) m))
      in ''map['' @ concat (case es of [] \<Rightarrow> [] | x # xs \<Rightarrow> x # map (\<lambda>y. '' '' @ y) xs) @ '']'')"
  by pat_completeness auto
termination
  by (relation "measure size")
    (auto simp: less_Suc_eq_le dest: size_list_estimation' [of _ _ _ size] size_list_estimation' [of _ _ _ "size_prod (\<lambda>_. 0) size"])

definition go_type :: "gval \<Rightarrow> string" where
  "go_type v =
     (case v of GNil \<Rightarrow> ''<nil>'' | GBool _ \<Rightarrow> ''bool'' | GStr _ \<Rightarrow> ''string'' | GNumber _ \<Rightarrow> ''json.Number''
      | GFloat _ _ \<Rightarrow> ''float64'' | GInt _ \<Rightarrow> ''int'' | GList _ \<Rightarrow> ''[]interface {}'' | GMap _ \<Rightarrow> ''map[string]interface {}'')"

subsection \<open>Templates\<close>

text \<open>\<open>loaders/template.go\<close>. The loop visits the parameters in the order of \<open>params\<close>.\<close>

abbreviation formatValue :: "gval \<Rightarrow> string" where "formatValue \<equiv> fmt_v"

definition placeholder :: "string \<Rightarrow> string" where
  "placeholder key = ''{{'' @ key @ ''}}''"

definition InterpolateSimple :: "string \<Rightarrow> gmap \<Rightarrow> string result" where
  "InterpolateSimple tmpl params =
     (let res = foldl (\<lambda>r (key, v). ReplaceAll r (placeholder key) (formatValue v)) tmpl params
      in case index_of res ''{{'' of
           None \<Rightarrow> Inr res
         | Some idx \<Rightarrow>
             (case index_of (drop idx res) ''}}'' of
                None \<Rightarrow> Inr res
              | Some e \<Rightarrow> Inl (ErrMsg (''unresolved template parameter: '' @ take (e - 2) (drop (idx + 2) res)))))"

subsection \<open>Lemmas\<close>

named_theorems text_simps

lemma dropWhile_id: "s = [] \<or> \<not> P (hd s) \<Longrightarrow> dropWhile P s = s"
  by (cases s) auto

lemma TrimSpace_id [text_simps]:
  assumes "s = [] \<or> \<not> white (hd s)" and "s = [] \<or> \<not> white (last s)"
  shows "TrimSpace s = s"
  using assms by (cases "s = []") (simp_all add: TrimSpace_def dropWhile_id hd_rev)

lemma TrimSpace_Nil [text_simps]: "TrimSpace [] = []"
  by (simp add: TrimSpace_def)

lemma TrimSpace_front [text_simps]: "white c \<Longrightarrow> TrimSpace (c # s) = TrimSpace s"
  by (simp add: TrimSpace_def)

lemma split_on_nonempty [simp]: "split_on c s \<noteq> []"
  by (induction s) (auto split: list.splits)

lemma split_on_none [text_simps]: "c \<notin> set s \<Longrightarrow> split_on c s = [s]"
  by (induction s) auto

lemma split_on_append [text_simps]: "c \<notin> set s \<Longrightarrow> split_on c (s @ c # t) = s # split_on c t"
  by (induction s) auto

lemma nat_string_dec: "list_all is_dec (nat_string n)"
  by (auto simp: list_all_iff is_dec_def Let_def dest!: nat_string_digits) (simp_all add: of_char_digit)

lemma parse_int64_itoa: "parse_int64 (itoa i) = (if in_int64 i then Some i else None)"
proof -
  have sign: "take 1 (nat_string n) \<noteq> ''-''" "take 1 (nat_string n) \<noteq> ''+''" for n
    using nat_string_dec [of n] nat_string_nonempty [of n] by (cases "nat_string n"; auto simp: is_dec_def)+
  show ?thesis
    using nat_string_dec sign
    by (simp add: parse_int64_def itoa_def Let_def nat_string_nonempty digits_value_nat_string del: digits_value.simps)
qed

end
