(* ===== verification/Staging.thy ===== *)
theory Staging
  imports StagingStore StagingSession EventRing GoValues
begin

text \<open>
  Staging in the background and its recovery: \<open>mcpserver/strategy_tools.go\<close> (the goroutines that stage
  tables, the transition of a run when its tables are done, the re-entry of \<open>strategy_run\<close> and
  the handler of \<open>strategy_stage\<close>) and \<open>strategy/staging_recovery.go\<close>, over a store of staging
  runs given by its operations. The outcome of each fetch, of writing a file and of running a
  strategy is an argument; queries to the graph database after a run are not modelled.
\<close>

subsection \<open>Plans, results and environment\<close>

record PaginationConfig =
  pg_Mode :: string
  pg_PageSize :: int
  pg_OffsetParam :: string
  pg_LimitParam :: string
  pg_CursorParam :: string
  pg_NextCursorPath :: string
  pg_TotalPath :: string

text \<open>\<open>None\<close> is a nil map of arguments.\<close>

record SerializedFetchPlan =
  fp_Server :: string
  fp_Tool :: string
  fp_Args :: "gmap option"
  fp_Fields :: "(string \<times> string \<times> string) list"
  fp_ItemsPath :: string
  fp_SingleItem :: bool
  fp_MaxRows :: int
  fp_TimeoutSecs :: int
  fp_ResponseFormat :: string
  fp_ResponseAdapter :: string
  fp_Pagination :: "PaginationConfig option"

record MCPFetchOpts =
  fo_Server :: string
  fo_Tool :: string
  fo_Args :: "gmap option"
  fo_Fields :: "(string \<times> string \<times> string) list"
  fo_ItemsPath :: string
  fo_SingleItem :: bool
  fo_MaxRows :: int
  fo_Timeout :: int
  fo_StagingDir :: string
  fo_Table :: string
  fo_RunID :: string
  fo_ResponseFormat :: string
  fo_ResponseAdapter :: string

record LoadResult =
  lr_ParquetPath :: string
  lr_RowCount :: int
  lr_RowGroups :: int
  lr_Partial :: bool
  lr_PartialError :: string
  lr_PagesCompleted :: int

record stage_env =
  gx_bus :: bool
  gx_uuid :: string
  gx_now :: int
  gx_exists :: "string \<Rightarrow> bool"
  gx_decode :: "string \<Rightarrow> SerializedFetchPlan result"
  gx_fetcher :: bool
  gx_stagingDir :: string

record 'd stage_world =
  gw_db :: 'd
  gw_events :: "event list"

definition on_db :: "('d \<Rightarrow> 'd) \<Rightarrow> ('d, 'z) stage_world_scheme \<Rightarrow> ('d, 'z) stage_world_scheme" where
  "on_db f w = w\<lparr>gw_db := f (gw_db w)\<rparr>"

definition emitStrategyEvent ::
    "stage_env \<Rightarrow> string \<Rightarrow> string \<Rightarrow> string \<Rightarrow> string \<Rightarrow> (string \<times> string) list \<Rightarrow>
     ('d, 'z) stage_world_scheme \<Rightarrow> ('d, 'z) stage_world_scheme" where
  "emitStrategyEvent env act outcome runID strategyName attrs w =
     (if \<not> gx_bus env then w
      else w\<lparr>gw_events := gw_events w @
             [(Info (gx_uuid env) (gx_now env) ''strategy-runner'' act)
                \<lparr>ev_Category := ''strategy'', ev_Resource := ''staging_run:'' @ runID, ev_Outcome := outcome,
                 ev_Attrs := attrs @ [(''strategy'', strategyName), (''run_id'', runID)]\<rparr>]\<rparr>)"

subsection \<open>The transition of a run\<close>

text \<open>
  \<open>checkAndTransitionRunToStaged\<close> reads the run and then writes what it decided from what it read;
  other goroutines can act in between.
\<close>

datatype run_write = NoWrite | WriteFail string | WriteStatus RunStatus

definition decide_write :: "StagingRun option result \<Rightarrow> run_write" where
  "decide_write x =
     (case x of
        Inl err \<Rightarrow> NoWrite
      | Inr None \<Rightarrow> NoWrite
      | Inr (Some run) \<Rightarrow>
          (case DeriveRunStatus run of
             None \<Rightarrow> NoWrite
           | Some nextStatus \<Rightarrow>
               if nextStatus = sg_Status run then NoWrite
               else if nextStatus = RsFailed
               then (case find (\<lambda>e. ts_Required (snd e) \<and> ts_Status (snd e) = TsFailed) (sg_Tables run) of
                       Some (name, ts) \<Rightarrow> WriteFail (case ts_Error ts of None \<Rightarrow> ''required table failed'' | Some e \<Rightarrow> se_Message e)
                     | None \<Rightarrow> WriteStatus nextStatus)
               else WriteStatus nextStatus))"

definition apply_write :: "'d staging_ops \<Rightarrow> string \<Rightarrow> run_write \<Rightarrow> 'd \<Rightarrow> 'd" where
  "apply_write ops runID wr d =
     (case wr of
        NoWrite \<Rightarrow> d
      | WriteFail msg \<Rightarrow> fst (so_FailRun ops runID (Some (staging_error msg ''permanent'' False)) d)
      | WriteStatus st \<Rightarrow> fst (so_UpdateStatus ops runID st d))"

definition checkAndTransitionRunToStaged :: "'d staging_ops \<Rightarrow> string \<Rightarrow> 'd \<Rightarrow> 'd" where
  "checkAndTransitionRunToStaged ops runID d =
     (case so_Get ops runID d of (d1, x) \<Rightarrow> apply_write ops runID (decide_write x) d1)"

text \<open>The recovery has a copy of it.\<close>

definition checkAndTransitionRecoveredRun :: "'d staging_ops \<Rightarrow> string \<Rightarrow> 'd \<Rightarrow> 'd" where
  "checkAndTransitionRecoveredRun = checkAndTransitionRunToStaged"

subsection \<open>Staging a table in the background\<close>

definition bgMaxRetries :: nat where "bgMaxRetries = 2"

text \<open>The wait before retry number \<open>n\<close>, in nanoseconds.\<close>

definition bg_backoff :: "nat \<Rightarrow> int" where
  "bg_backoff retries = 2 * second_ns * 2 ^ (retries - 1) * 2 div 2"

text \<open>\<open>sb\<close> is the binding's pagination flag and row limit, if the table has a binding.\<close>

definition needsBackground :: "(bool \<times> int) option \<Rightarrow> bool" where
  "needsBackground sb = (case sb of None \<Rightarrow> False | Some (paginated, maxRows) \<Rightarrow> if paginated \<and> maxRows > 50000 then True else False)"

text \<open>
  The loop of attempts: \<open>put\<close> records a failed attempt that is retried. The result is what was
  loaded, or the number of attempts and the last error.
\<close>

function stage_retries ::
    "nat \<Rightarrow> (nat \<Rightarrow> error \<Rightarrow> 'd \<Rightarrow> 'd) \<Rightarrow> (nat \<Rightarrow> LoadResult result) \<Rightarrow> error \<Rightarrow> nat \<Rightarrow> 'd \<Rightarrow> 'd \<times> (nat \<times> error + LoadResult)" where
  "stage_retries maxRetries put attempt lastErr retries d =
     (if retries > maxRetries then (d, Inl (retries, lastErr))
      else case attempt retries of
             Inr lr \<Rightarrow> (d, Inr lr)
           | Inl err \<Rightarrow>
               if Suc retries > maxRetries then (d, Inl (Suc retries, err))
               else stage_retries maxRetries put attempt err (Suc retries) (put (Suc retries) err d))"
  by pat_completeness auto
termination by (relation "measure (\<lambda>(m, _, _, _, r, _). Suc m - r)") auto

declare stage_retries.simps [simp del]

text \<open>\<open>resolve/plan.go\<close>: a resolved table and its fields.\<close>

record ResolvedField =
  rf_SourceField :: string
  rf_TargetColumn :: string
  rf_Semantic :: string
  rf_ColumnType :: string

record TablePlan =
  tp_Table :: string
  tp_Source :: string
  tp_Backend :: string
  tp_FetchMode :: string
  tp_MCPTool :: string
  tp_MCPServer :: string
  tp_Query :: string
  tp_Fields :: "ResolvedField list"
  tp_Optional :: bool
  tp_ResponseFormat :: string
  tp_ResponseAdapter :: string

definition retried_table :: "string \<Rightarrow> string \<Rightarrow> bool \<Rightarrow> bool \<Rightarrow> nat \<Rightarrow> error \<Rightarrow> TableState" where
  "retried_table name mode required resumed retries err =
     (zero_table name mode required TsFetching)
     \<lparr>ts_RetryCount := int retries, ts_ResumedFromRestart := resumed, ts_Error := Some (staging_error (error_string err) ''transient'' True)\<rparr>"

definition put_table :: "'d staging_ops \<Rightarrow> string \<Rightarrow> TableState \<Rightarrow> 'd \<Rightarrow> 'd" where
  "put_table ops runID ts d = fst (so_UpdateTable ops runID (ts_Name ts) ts d)"

definition gateway_mode :: string where "gateway_mode = ''fracta_mcp_gateway''"

definition stageTable ::
    "'d staging_ops \<Rightarrow> stage_env \<Rightarrow> string \<Rightarrow> string \<Rightarrow> TablePlan \<Rightarrow> (nat \<Rightarrow> LoadResult result) \<Rightarrow>
     ('d, 'z) stage_world_scheme \<Rightarrow> ('d, 'z) stage_world_scheme" where
  "stageTable ops env runID strategyName tp attempt w =
     (let table = tp_Table tp; required = (\<not> tp_Optional tp)
      in case stage_retries bgMaxRetries
                (\<lambda>n err. put_table ops runID (retried_table table gateway_mode required False n err)) attempt ErrNotFound 0 (gw_db w) of
           (d, Inr lr) \<Rightarrow>
             (let ts = (zero_table table gateway_mode required TsStaged)
                    \<lparr>ts_ParquetPath := lr_ParquetPath lr, ts_RowCount := lr_RowCount lr, ts_CompletedAt := Some (gx_now env)\<rparr>;
                  w1 = emitStrategyEvent env ''table_staged'' ''success'' runID strategyName [(''table'', table), (''rows'', itoa (lr_RowCount lr))]
                         (w\<lparr>gw_db := put_table ops runID ts d\<rparr>)
              in on_db (checkAndTransitionRunToStaged ops runID) w1)
         | (d, Inl (retries, lastErr)) \<Rightarrow>
             (let ts = (zero_table table gateway_mode required TsFailed)
                    \<lparr>ts_RetryCount := int retries, ts_CompletedAt := Some (gx_now env),
                     ts_Error := Some (staging_error (''staging failed after '' @ itoa (int retries) @ '' retries: '' @ error_string lastErr) ''permanent'' False)\<rparr>;
                  w1 = emitStrategyEvent env ''table_staged'' ''failure'' runID strategyName [(''table'', table), (''retries'', itoa (int retries))]
                         (w\<lparr>gw_db := put_table ops runID ts d\<rparr>)
              in if required
                 then on_db (\<lambda>d. fst (so_FailRun ops runID
                        (Some (staging_error (''required table '' @ quote table @ '' failed: '' @ error_string lastErr) ''permanent'' False)) d)) w1
                 else w1))"

text \<open>\<open>plans\<close> are the tables with their bindings and serialized fetch plans; the goroutines launched are returned.\<close>

fun startBackgroundStaging ::
    "'d staging_ops \<Rightarrow> stage_env \<Rightarrow> string \<Rightarrow> string \<Rightarrow> (TablePlan \<times> (bool \<times> int) option \<times> string) list \<Rightarrow>
     ('d, 'z) stage_world_scheme \<Rightarrow> ('d, 'z) stage_world_scheme \<times> TablePlan list" where
  "startBackgroundStaging ops env runID strategyName [] w = (w, [])"
| "startBackgroundStaging ops env runID strategyName ((tp, sb, plan) # rest) w =
     (if tp_FetchMode tp \<noteq> gateway_mode \<or> \<not> needsBackground sb then startBackgroundStaging ops env runID strategyName rest w
      else
        let ts = (zero_table (tp_Table tp) gateway_mode (\<not> tp_Optional tp) TsFetching)
              \<lparr>ts_FetchPlan := Some plan, ts_StartedAt := Some (gx_now env),
               ts_TotalEstimate := (case sb of None \<Rightarrow> 0 | Some (_, maxRows) \<Rightarrow> if maxRows > 0 then maxRows else 0)\<rparr>;
            w1 = emitStrategyEvent env ''table_staging_start'' ''unknown'' runID strategyName [(''table'', tp_Table tp), (''fetch_mode'', gateway_mode)]
                   (on_db (put_table ops runID ts) w)
        in case startBackgroundStaging ops env runID strategyName rest w1 of (w2, launched) \<Rightarrow> (w2, tp # launched))"

subsection \<open>Recovery after a restart\<close>

definition recoveryMaxRetries :: nat where "recoveryMaxRetries = 2"

definition DefaultMaxRows :: int where "DefaultMaxRows = 500000"

definition failTable :: "'d staging_ops \<Rightarrow> stage_env \<Rightarrow> string \<Rightarrow> string \<Rightarrow> TableState \<Rightarrow> string \<Rightarrow> 'd \<Rightarrow> 'd" where
  "failTable ops env runID tableName ts reason d =
     fst (so_UpdateTable ops runID tableName
            (ts\<lparr>ts_Status := TsFailed, ts_CompletedAt := Some (gx_now env), ts_LastErrorAt := Some (gx_now env),
                ts_Error := Some (staging_error reason ''permanent'' False)\<rparr>) d)"

definition set_arg :: "string \<Rightarrow> gval \<Rightarrow> gmap option \<Rightarrow> gmap option" where
  "set_arg k v args = Some (go_put k v (case args of None \<Rightarrow> [] | Some xs \<Rightarrow> xs))"

text \<open>The options a serialized plan gives, continued from where the table's fetch had got.\<close>

definition recover_opts :: "stage_env \<Rightarrow> string \<Rightarrow> string \<Rightarrow> TableState \<Rightarrow> SerializedFetchPlan \<Rightarrow> MCPFetchOpts" where
  "recover_opts env runID tableName ts plan =
     (let maxRows = (if fp_MaxRows plan > 0 then fp_MaxRows plan else DefaultMaxRows);
          timeout = (if fp_TimeoutSecs plan > 0 then fp_TimeoutSecs plan * second_ns else 0);
          args = (case fp_Pagination plan of
                    None \<Rightarrow> fp_Args plan
                  | Some pg \<Rightarrow>
                      (let args1 = (if ts_LastOffset ts > 0 \<and> pg_Mode pg = ''offset''
                             then set_arg (if pg_OffsetParam pg = [] then ''offset'' else pg_OffsetParam pg) (GInt (ts_LastOffset ts)) (fp_Args plan)
                             else fp_Args plan)
                       in if ts_LastCursor ts \<noteq> [] \<and> pg_Mode pg = ''cursor''
                          then set_arg (if pg_CursorParam pg = [] then ''cursor'' else pg_CursorParam pg) (GStr (ts_LastCursor ts)) args1
                          else args1))
      in \<lparr>fo_Server = fp_Server plan, fo_Tool = fp_Tool plan, fo_Args = args, fo_Fields = fp_Fields plan, fo_ItemsPath = fp_ItemsPath plan,
          fo_SingleItem = fp_SingleItem plan, fo_MaxRows = maxRows, fo_Timeout = timeout, fo_StagingDir = gx_stagingDir env,
          fo_Table = tableName, fo_RunID = runID, fo_ResponseFormat = fp_ResponseFormat plan, fo_ResponseAdapter = fp_ResponseAdapter plan\<rparr>)"

definition recovered_table :: "stage_env \<Rightarrow> string \<Rightarrow> TableState \<Rightarrow> LoadResult \<Rightarrow> TableState" where
  "recovered_table env tableName ts lr =
     (zero_table tableName (ts_FetchMode ts) (ts_Required ts) TsStaged)
     \<lparr>ts_ParquetPath := lr_ParquetPath lr, ts_RowCount := lr_RowCount lr, ts_PagesCompleted := lr_PagesCompleted lr,
      ts_Partial := lr_Partial lr, ts_CompletedAt := Some (gx_now env), ts_ResumedFromRestart := True\<rparr>"

definition exhausted_table :: "stage_env \<Rightarrow> string \<Rightarrow> TableState \<Rightarrow> nat \<Rightarrow> error \<Rightarrow> TableState" where
  "exhausted_table env tableName ts retries lastErr =
     (zero_table tableName (ts_FetchMode ts) (ts_Required ts) TsFailed)
     \<lparr>ts_RetryCount := int retries, ts_CompletedAt := Some (gx_now env), ts_ResumedFromRestart := True, ts_LastErrorAt := Some (gx_now env),
      ts_Error := Some (staging_error (''recovery staging failed after '' @ itoa (int retries) @ '' retries: '' @ error_string lastErr) ''permanent'' False)\<rparr>"

text \<open>\<open>fetch\<close> is the fetcher, paginated or not; the error before the first attempt is never used.\<close>

definition recoverTable ::
    "'d staging_ops \<Rightarrow> stage_env \<Rightarrow> string \<Rightarrow> string \<Rightarrow> TableState \<Rightarrow> SerializedFetchPlan \<Rightarrow>
     (MCPFetchOpts \<Rightarrow> PaginationConfig option \<Rightarrow> nat \<Rightarrow> LoadResult result) \<Rightarrow> 'd \<Rightarrow> 'd" where
  "recoverTable ops env runID tableName ts plan fetch d =
     (case stage_retries recoveryMaxRetries
             (\<lambda>n err. put_table ops runID (retried_table tableName (ts_FetchMode ts) (ts_Required ts) True n err))
             (fetch (recover_opts env runID tableName ts plan) (fp_Pagination plan)) ErrNotFound 0 d of
        (d1, Inr lr) \<Rightarrow> checkAndTransitionRecoveredRun ops runID (put_table ops runID (recovered_table env tableName ts lr) d1)
      | (d1, Inl (retries, lastErr)) \<Rightarrow>
          (let d2 = put_table ops runID (exhausted_table env tableName ts retries lastErr) d1
           in if ts_Required ts
              then fst (so_FailRun ops runID
                     (Some (staging_error (''required table '' @ quote tableName @ '' failed during recovery: '' @ error_string lastErr) ''permanent'' False)) d2)
              else checkAndTransitionRecoveredRun ops runID d2))"

text \<open>
  One table of a run that is recovered: done already, settled here, or a goroutine to launch with
  its table state and plan. Errors of the store are only logged.
\<close>

definition recover_one ::
    "'d staging_ops \<Rightarrow> stage_env \<Rightarrow> string \<Rightarrow> string \<times> TableState \<Rightarrow> 'd \<Rightarrow> 'd \<times> (string \<times> TableState \<times> SerializedFetchPlan) option" where
  "recover_one ops env runID e d =
     (case e of
        (tableName, ts) \<Rightarrow>
          if ts_Status ts \<noteq> TsFetching \<and> ts_Status ts \<noteq> TsPending then (d, None)
          else if ts_ParquetPath ts \<noteq> [] \<and> gx_exists env (ts_ParquetPath ts)
          then (fst (so_UpdateTable ops runID tableName
                  (ts\<lparr>ts_Status := TsStaged, ts_CompletedAt := Some (gx_now env), ts_ResumedFromRestart := True\<rparr>) d), None)
          else
            (case ts_FetchPlan ts of
               None \<Rightarrow> (failTable ops env runID tableName ts ''no serialized fetch plan for recovery'' d, None)
             | Some text \<Rightarrow>
                 if text = [] then (failTable ops env runID tableName ts ''no serialized fetch plan for recovery'' d, None)
                 else if \<not> gx_fetcher env then (failTable ops env runID tableName ts ''MCP fetcher unavailable at recovery time'' d, None)
                 else
                   (case gx_decode env text of
                      Inl err \<Rightarrow> (failTable ops env runID tableName ts (''fetch plan unmarshal: '' @ error_string err) d, None)
                    | Inr plan \<Rightarrow>
                        (let ts1 = ts\<lparr>ts_Status := TsFetching, ts_ResumedFromRestart := True, ts_StartedAt := Some (gx_now env)\<rparr>
                         in (fst (so_UpdateTable ops runID tableName ts1 d), Some (tableName, ts1, plan))))))"

text \<open>
  The loop over the tables starts each goroutine as it comes to its table, so the store's calls of
  both interleave: \<open>recover_step\<close> is what the recovery of one run does next, from where it stands, up
  to its next call to the store, with the goroutine it starts, if any. \<open>order\<close> is the order in which
  the loop visits the tables (of a Go map: any). \<open>ReTables es n\<close>: the tables \<open>es\<close> are left, \<open>n\<close>
  goroutines have been started.
\<close>

datatype recover_pc =
    ReRecovery | ReStatus | ReTables "(string \<times> TableState) list" nat | ReCheck | ReWrite run_write | ReReturned "unit result"

fun recover_step ::
    "'d staging_ops \<Rightarrow> stage_env \<Rightarrow> StagingRun \<Rightarrow> (string \<times> TableState) list \<Rightarrow> recover_pc \<Rightarrow> 'd \<Rightarrow>
     'd \<times> recover_pc \<times> (string \<times> TableState \<times> SerializedFetchPlan) option" where
  "recover_step ops env run order ReRecovery d =
     (case so_UpdateRecovery ops (sg_ID run) (sg_ResumeCount run + 1) (gx_now env) d of
        (d1, Inl err) \<Rightarrow> (d1, ReReturned (Inl (ErrMsg (''persist recovery diagnostics: '' @ error_string err))), None)
      | (d1, Inr _) \<Rightarrow> (d1, ReStatus, None))"
| "recover_step ops env run order ReStatus d =
     (case so_UpdateStatus ops (sg_ID run) RsStaging d of
        (d1, Inl err) \<Rightarrow> (d1, ReReturned (Inl (ErrMsg (''update run status: '' @ error_string err))), None)
      | (d1, Inr _) \<Rightarrow> (d1, ReTables order 0, None))"
| "recover_step ops env run order (ReTables (e # es) n) d =
     (case recover_one ops env (sg_ID run) e d of
        (d1, None) \<Rightarrow> (d1, ReTables es n, None)
      | (d1, Some g) \<Rightarrow> (d1, ReTables es (Suc n), Some g))"
| "recover_step ops env run order (ReTables [] n) d = (d, if n = 0 then ReCheck else ReReturned (Inr ()), None)"
| "recover_step ops env run order ReCheck d = (case so_Get ops (sg_ID run) d of (d1, x) \<Rightarrow> (d1, ReWrite (decide_write x), None))"
| "recover_step ops env run order (ReWrite wr) d = (apply_write ops (sg_ID run) wr d, ReReturned (Inr ()), None)"
| "recover_step ops env run order (ReReturned r) d = (d, ReReturned r, None)"

text \<open>The loop over the active runs, in the same way; the goroutines come with the run they belong to.\<close>

datatype active_pc =
    AcList | AcRuns "StagingRun list" | AcRun StagingRun recover_pc "StagingRun list" | AcFail StagingRun error "StagingRun list"
  | AcReturned "unit result"

fun RecoverActiveRuns_step ::
    "'d staging_ops \<Rightarrow> stage_env \<Rightarrow> (StagingRun \<Rightarrow> (string \<times> TableState) list) \<Rightarrow> active_pc \<Rightarrow> 'd \<Rightarrow>
     'd \<times> active_pc \<times> (string \<times> string \<times> TableState \<times> SerializedFetchPlan) option" where
  "RecoverActiveRuns_step ops env order AcList d =
     (case so_ListActive ops d of
        (d1, Inl err) \<Rightarrow> (d1, AcReturned (Inl err), None)
      | (d1, Inr runs) \<Rightarrow> (d1, AcRuns runs, None))"
| "RecoverActiveRuns_step ops env order (AcRuns []) d = (d, AcReturned (Inr ()), None)"
| "RecoverActiveRuns_step ops env order (AcRuns (run # runs)) d =
     (d, if sg_Status run \<noteq> RsStaging then AcRuns runs else AcRun run ReRecovery runs, None)"
| "RecoverActiveRuns_step ops env order (AcRun run (ReReturned (Inl err)) runs) d = (d, AcFail run err runs, None)"
| "RecoverActiveRuns_step ops env order (AcRun run (ReReturned (Inr _)) runs) d = (d, AcRuns runs, None)"
| "RecoverActiveRuns_step ops env order (AcRun run pc runs) d =
     (case recover_step ops env run (order run) pc d of
        (d1, pc1, g) \<Rightarrow> (d1, AcRun run pc1 runs, map_option (Pair (sg_ID run)) g))"
| "RecoverActiveRuns_step ops env order (AcFail run err runs) d =
     (fst (so_FailRun ops (sg_ID run) (Some (staging_error (''recovery failed: '' @ error_string err) ''permanent'' False)) d), AcRuns runs, None)"
| "RecoverActiveRuns_step ops env order (AcReturned r) d = (d, AcReturned r, None)"

end
