(* ===== verification/FetchRows.thy ===== *)
theory FetchRows
  imports Staging
begin

text \<open>
  \<open>staging/parquet.go\<close> and \<open>staging/writer.go\<close>: how decoded items become typed Parquet rows, and the
  streaming writer with the file it makes.
\<close>

subsection \<open>Columns\<close>

record FieldMapping =
  fm_Source :: string
  fm_Column :: string
  fm_Type :: string

datatype parquet_type = PtInt64 | PtDouble | PtBoolean | PtTimestamp | PtString

definition TypeMap :: "string \<Rightarrow> parquet_type" where
  "TypeMap t =
     (let u = ToUpper t
      in if u \<in> {''INT64'', ''INTEGER'', ''BIGINT''} then PtInt64
         else if u \<in> {''DOUBLE'', ''FLOAT64'', ''FLOAT''} then PtDouble
         else if u \<in> {''BOOLEAN'', ''BOOL''} then PtBoolean
         else if u = ''TIMESTAMP'' then PtTimestamp
         else PtString)"

definition column_type :: "FieldMapping \<Rightarrow> string" where
  "column_type fm = (if fm_Type fm = [] then ''VARCHAR'' else fm_Type fm)"

text \<open>
  \<open>BuildSchema\<close>: the fields sorted by column (of fields with the same column, \<open>sort.Slice\<close> promises no order), and the
  schema of a \<open>parquet.Group\<close>, a map in which a column that comes twice is written over, listed alphabetically.
\<close>

definition BuildSchema :: "FieldMapping list \<Rightarrow> (string \<times> parquet_type) list \<times> FieldMapping list" where
  "BuildSchema fms =
     (let sorted = sort_key fm_Column fms;
          group = foldl (\<lambda>g fm. go_put (fm_Column fm) (TypeMap (column_type fm)) g) [] sorted
      in (sort_key fst group, sorted))"

subsection \<open>Values\<close>

datatype parquet_value = PvNull | PvInt64 int | PvDouble int int | PvBoolean bool | PvBytes string

text \<open>
  Functions of the standard library on texts: \<open>strconv.ParseFloat\<close>, \<open>time.Parse\<close> with the layouts RFC 3339
  and RFC 3339 with nanoseconds, as microseconds since 1970, and \<open>json.Marshal\<close> of a list or map.
\<close>

record value_env =
  vx_float :: "string \<Rightarrow> (int \<times> int) option"
  vx_rfc3339 :: "string \<Rightarrow> int option"
  vx_rfc3339nano :: "string \<Rightarrow> int option"
  vx_marshal :: "gval \<Rightarrow> string"

definition opt_value :: "('a \<Rightarrow> parquet_value) \<Rightarrow> 'a option \<Rightarrow> parquet_value" where
  "opt_value f r = (case r of None \<Rightarrow> PvNull | Some a \<Rightarrow> f a)"

definition coerceString :: "('e value_env_scheme) \<Rightarrow> gval \<Rightarrow> parquet_value" where
  "coerceString env v =
     (case v of
        GStr s \<Rightarrow> PvBytes s
      | GNumber s \<Rightarrow> PvBytes s
      | GList _ \<Rightarrow> PvBytes (vx_marshal env v)
      | GMap _ \<Rightarrow> PvBytes (vx_marshal env v)
      | _ \<Rightarrow> PvBytes (fmt_v v))"

definition coerceInt64 :: "gval \<Rightarrow> parquet_value" where
  "coerceInt64 v =
     (case v of
        GFloat m e \<Rightarrow> PvInt64 (float_trunc m e)
      | GInt i \<Rightarrow> PvInt64 i
      | GNumber s \<Rightarrow> opt_value PvInt64 (parse_int64 s)
      | GStr s \<Rightarrow> opt_value PvInt64 (parse_int64 s)
      | _ \<Rightarrow> PvNull)"

text \<open>
  \<open>coerceFloat64\<close>; an \<open>int\<close> is read through its decimal text, which rounds to the same \<open>float64\<close> as the conversion.
\<close>

definition coerceFloat64 :: "('e value_env_scheme) \<Rightarrow> gval \<Rightarrow> parquet_value" where
  "coerceFloat64 env v =
     (case v of
        GFloat m e \<Rightarrow> PvDouble m e
      | GInt i \<Rightarrow> opt_value (\<lambda>(m, e). PvDouble m e) (vx_float env (itoa i))
      | GNumber s \<Rightarrow> opt_value (\<lambda>(m, e). PvDouble m e) (vx_float env s)
      | GStr s \<Rightarrow> opt_value (\<lambda>(m, e). PvDouble m e) (vx_float env s)
      | _ \<Rightarrow> PvNull)"

definition coerceBoolean :: "gval \<Rightarrow> parquet_value" where
  "coerceBoolean v =
     (case v of
        GBool b \<Rightarrow> PvBoolean b
      | GFloat m e \<Rightarrow> PvBoolean (m \<noteq> 0)
      | GStr s \<Rightarrow>
          (let l = ToLower s
           in if l = ''true'' \<or> l = ''1'' then PvBoolean True
              else if l = ''false'' \<or> l = ''0'' then PvBoolean False else PvNull)
      | _ \<Rightarrow> PvNull)"

definition coerceTimestamp :: "('e value_env_scheme) \<Rightarrow> gval \<Rightarrow> parquet_value" where
  "coerceTimestamp env v =
     (case v of
        GStr s \<Rightarrow>
          (case vx_rfc3339 env s of
             Some t \<Rightarrow> PvInt64 t
           | None \<Rightarrow> opt_value PvInt64 (vx_rfc3339nano env s))
      | GFloat m e \<Rightarrow> PvInt64 (wrap64 (float_trunc m e * 1000000))
      | GNumber s \<Rightarrow> opt_value (\<lambda>n. PvInt64 (wrap64 (n * 1000000))) (parse_int64 s)
      | _ \<Rightarrow> PvNull)"

definition CoerceValue :: "('e value_env_scheme) \<Rightarrow> string \<Rightarrow> gval \<Rightarrow> parquet_value" where
  "CoerceValue env typeStr v =
     (let u = ToUpper typeStr
      in if v = GNil then PvNull
         else if u \<in> {''INT64'', ''INTEGER'', ''BIGINT''} then coerceInt64 v
         else if u \<in> {''DOUBLE'', ''FLOAT64'', ''FLOAT''} then coerceFloat64 env v
         else if u \<in> {''BOOLEAN'', ''BOOL''} then coerceBoolean v
         else if u = ''TIMESTAMP'' then coerceTimestamp env v
         else coerceString env v)"

text \<open>The physical types a column of a schema type takes; every column is optional.\<close>

fun value_fits :: "parquet_type \<Rightarrow> parquet_value \<Rightarrow> bool" where
  "value_fits _ PvNull = True"
| "value_fits PtInt64 (PvInt64 i) = in_int64 i"
| "value_fits PtTimestamp (PvInt64 i) = in_int64 i"
| "value_fits PtDouble (PvDouble m e) = True"
| "value_fits PtBoolean (PvBoolean b) = True"
| "value_fits PtString (PvBytes s) = True"
| "value_fits _ _ = False"

subsection \<open>Rows\<close>

fun extract_parts :: "gval \<Rightarrow> string list \<Rightarrow> gval" where
  "extract_parts current [] = current"
| "extract_parts (GMap m) (part # parts) = extract_parts (go_get m part) parts"
| "extract_parts _ (part # parts) = GNil"

definition ExtractField :: "gmap \<Rightarrow> string \<Rightarrow> gval" where
  "ExtractField source path = extract_parts (GMap source) (split_on (CHR ''.'') path)"

type_synonym parquet_row = "parquet_value list"

definition BuildRows :: "('e value_env_scheme) \<Rightarrow> FieldMapping list \<Rightarrow> gmap list \<Rightarrow> parquet_row list" where
  "BuildRows env sortedFields hits =
     map (\<lambda>hit. map (\<lambda>fm. CoerceValue env (column_type fm) (ExtractField hit (fm_Source fm))) sortedFields) hits"

subsection \<open>The writer\<close>

text \<open>
  A file under the staging directory: complete, with the rows of its row groups, or without the footer, which no
  reader accepts.
\<close>

datatype parquet_file = Complete "parquet_row list" | Truncated

type_synonym file_store = "string \<Rightarrow> parquet_file option"

text \<open>
  The answers of the file system and of the Parquet library to the calls of one fetch: \<open>None\<close> is success.
  The calls to \<open>WriteRows\<close> and \<open>Flush\<close> are numbered.
\<close>

record write_faults =
  wf_mkdir :: "error option"
  wf_create :: "error option"
  wf_write :: "nat \<Rightarrow> error option"
  wf_flush :: "nat \<Rightarrow> error option"
  wf_close :: "error option"

record StreamingParquetWriter =
  pw_path :: string
  pw_flushed :: "parquet_row list"
  pw_buffer :: "parquet_row list"
  pw_rows :: int
  pw_groups :: int

definition NewStreamingParquetWriter :: "write_faults \<Rightarrow> string \<Rightarrow> file_store \<Rightarrow> file_store \<times> StreamingParquetWriter result" where
  "NewStreamingParquetWriter flt path fs =
     (case wf_create flt of
        Some err \<Rightarrow> (fs, Inl (ErrMsg (''create file: '' @ error_string err)))
      | None \<Rightarrow> (fs(path \<mapsto> Truncated), Inr \<lparr>pw_path = path, pw_flushed = [], pw_buffer = [], pw_rows = 0, pw_groups = 0\<rparr>))"

definition WriteRows :: "write_faults \<Rightarrow> nat \<Rightarrow> parquet_row list \<Rightarrow> StreamingParquetWriter \<Rightarrow> StreamingParquetWriter result" where
  "WriteRows flt n rows w =
     (case wf_write flt n of
        Some err \<Rightarrow> Inl (ErrMsg (''write rows: '' @ error_string err))
      | None \<Rightarrow> Inr (w\<lparr>pw_buffer := pw_buffer w @ rows, pw_rows := pw_rows w + int (length rows)\<rparr>))"

definition Flush :: "write_faults \<Rightarrow> nat \<Rightarrow> StreamingParquetWriter \<Rightarrow> StreamingParquetWriter result" where
  "Flush flt n w =
     (case wf_flush flt n of
        Some err \<Rightarrow> Inl (ErrMsg (''flush: '' @ error_string err))
      | None \<Rightarrow> Inr (w\<lparr>pw_flushed := pw_flushed w @ pw_buffer w, pw_buffer := [], pw_groups := pw_groups w + 1\<rparr>))"

text \<open>\<open>Close\<close> writes what is buffered and the footer; the file has no footer when it fails.\<close>

definition CloseWriter :: "write_faults \<Rightarrow> StreamingParquetWriter \<Rightarrow> file_store \<Rightarrow> file_store \<times> unit result" where
  "CloseWriter flt w fs =
     (case wf_close flt of
        Some err \<Rightarrow> (fs(pw_path w \<mapsto> Truncated), Inl (ErrMsg (''close writer: '' @ error_string err)))
      | None \<Rightarrow> (fs(pw_path w \<mapsto> Complete (pw_flushed w @ pw_buffer w)), Inr ()))"

subsection \<open>Lemmas\<close>

lemma in_int64_wrap64: "in_int64 (wrap64 i)"
  using sint_range_size [of "word_of_int i :: 64 word"] by (simp add: in_int64_def wrap64_def word_size)

lemma wrap64_id: "in_int64 i \<Longrightarrow> wrap64 i = i"
  unfolding in_int64_def wrap64_def by (simp add: sint_sbintrunc' signed_take_bit_int_eq_self)

lemma parse_int64_range: "parse_int64 s = Some i \<Longrightarrow> in_int64 i"
  by (auto simp: parse_int64_def Let_def split: if_splits)

lemma float_trunc_range: "in_int64 (float_trunc m e)"
  by (simp add: float_trunc_def Let_def) (simp add: in_int64_def)

text \<open>The switches of \<open>TypeMap\<close> and \<open>CoerceValue\<close> make the same distinctions.\<close>

lemma CoerceValue_by_type:
  "CoerceValue env t v =
     (if v = GNil then PvNull
      else case TypeMap t of PtInt64 \<Rightarrow> coerceInt64 v | PtDouble \<Rightarrow> coerceFloat64 env v | PtBoolean \<Rightarrow> coerceBoolean v
           | PtTimestamp \<Rightarrow> coerceTimestamp env v | PtString \<Rightarrow> coerceString env v)"
  unfolding CoerceValue_def TypeMap_def Let_def by (simp del: map_eq_Cons_conv Cons_eq_map_conv map_is_Nil_conv)

definition go_int_ok :: "gval \<Rightarrow> bool" where
  "go_int_ok v = (case v of GInt i \<Rightarrow> in_int64 i | _ \<Rightarrow> True)"

definition times_in_range :: "('e value_env_scheme) \<Rightarrow> bool" where
  "times_in_range env \<longleftrightarrow>
     (\<forall>s t. vx_rfc3339 env s = Some t \<or> vx_rfc3339nano env s = Some t \<longrightarrow> in_int64 t)"

lemma coerced_value_fits:
  assumes "go_int_ok v" and "times_in_range env"
  shows "value_fits (TypeMap t) (CoerceValue env t v)"
  using assms
  by (cases v)
    (auto simp: CoerceValue_by_type coerceInt64_def coerceFloat64_def coerceBoolean_def Let_def
      coerceTimestamp_def coerceString_def opt_value_def float_trunc_range parse_int64_range in_int64_wrap64
      go_int_ok_def times_in_range_def split: parquet_type.splits option.splits)

lemma group_of_distinct:
  assumes "distinct (map fst g @ map fm_Column fms)"
  shows "foldl (\<lambda>g fm. go_put (fm_Column fm) (TypeMap (column_type fm)) g) g fms =
    g @ map (\<lambda>fm. (fm_Column fm, TypeMap (column_type fm))) fms"
  using assms
proof (induction fms arbitrary: g)
  case (Cons fm fms)
  have "fm_Column fm \<notin> fst ` set g" using Cons.prems by simp
  then have "go_put (fm_Column fm) (TypeMap (column_type fm)) g = g @ [(fm_Column fm, TypeMap (column_type fm))]"
    unfolding go_put_def by (induction g) auto
  with Cons show ?case by simp
qed simp

lemma BuildSchema_distinct:
  assumes "distinct (map fm_Column fms)"
  shows "BuildSchema fms =
    (map (\<lambda>fm. (fm_Column fm, TypeMap (column_type fm))) (sort_key fm_Column fms), sort_key fm_Column fms)"
proof -
  let ?s = "sort_key fm_Column fms" and ?col = "\<lambda>fm. (fm_Column fm, TypeMap (column_type fm))"
  have "distinct (map fm_Column ?s)" using assms by (simp add: distinct_map)
  then have g: "foldl (\<lambda>g fm. go_put (fm_Column fm) (TypeMap (column_type fm)) g) [] ?s = map ?col ?s"
    using group_of_distinct [of "[]" ?s] by simp
  have "sorted (map fst (map ?col ?s))" by (simp add: comp_def)
  then show ?thesis by (simp add: BuildSchema_def Let_def g sorted_sort_id sort_key_id_if_sorted)
qed

text \<open>
  C31 (rows_fit_schema): The rows built for a table whose columns have different names fit the schema built for it: for every item a
  row with as many values as the schema has columns, each value the coerced one of the field with the name of its column, and null or of
  the column's physical type and within 64 bits, whatever the items hold (integers of Go's 64-bit \<open>int\<close>, and times in range).
\<close>

theorem rows_fit_schema:
  assumes "distinct (map fm_Column fms)" "times_in_range env"
    and "\<forall>hit\<in>set hits. \<forall>fm\<in>set fms. go_int_ok (ExtractField hit (fm_Source fm))"
  shows "list_all2 (\<lambda>hit row. list_all2 (\<lambda>(c, t) v. value_fits t v \<and>
      (\<exists>fm\<in>set fms. fm_Column fm = c \<and> v = CoerceValue env (column_type fm) (ExtractField hit (fm_Source fm)))) (fst (BuildSchema fms)) row)
    hits (BuildRows env (snd (BuildSchema fms)) hits)"
  using assms(2,3)
  by (auto simp: BuildRows_def BuildSchema_distinct [OF assms(1)] list_all2_map1 list_all2_map2 list_all2_same coerced_value_fits intro!: bexI)

definition sample_values :: value_env where
  "sample_values = \<lparr>vx_float = \<lambda>_. None, vx_rfc3339 = \<lambda>_. None, vx_rfc3339nano = \<lambda>_. None, vx_marshal = \<lambda>_. ''{}''\<rparr>"

definition sample_columns :: "FieldMapping list" where
  "sample_columns =
     [\<lparr>fm_Source = ''who.name'', fm_Column = ''name'', fm_Type = []\<rparr>, \<lparr>fm_Source = ''n'', fm_Column = ''id'', fm_Type = ''bigint''\<rparr>]"

text \<open>The columns come out in alphabetical order, and the values with them.\<close>

theorem rows_fit_schema_witness:
  "list_all2 (\<lambda>(c, t) v. value_fits t v \<and> c \<in> {''id'', ''name''}) (fst (BuildSchema sample_columns)) [PvInt64 7, PvBytes ''ada'']"
proof -
  let ?hit = "[(''n'', GNumber ''7''), (''who'', GMap [(''name'', GStr ''ada'')])]"
  have t: "times_in_range sample_values" by (simp add: times_in_range_def sample_values_def)
  have g: "\<forall>hit\<in>set [?hit]. \<forall>fm\<in>set sample_columns. go_int_ok (ExtractField hit (fm_Source fm))" by code_simp
  have b: "BuildRows sample_values (snd (BuildSchema sample_columns)) [?hit] = [[PvInt64 7, PvBytes ''ada'']]" by code_simp
  have d: "distinct (map fm_Column sample_columns)" by (simp add: sample_columns_def)
  show ?thesis using rows_fit_schema [OF d t g] unfolding b by (auto simp: sample_columns_def elim!: list_all2_mono)
qed

text \<open>With two fields for one column, a row has more values than the schema has columns.\<close>

lemma double_column_misfits:
  "length (fst (BuildSchema (replicate 2 \<lparr>fm_Source = ''x'', fm_Column = ''c'', fm_Type = []\<rparr>))) = 1 \<and>
   map length (BuildRows sample_values (snd (BuildSchema (replicate 2 \<lparr>fm_Source = ''x'', fm_Column = ''c'', fm_Type = []\<rparr>))) [[]]) = [2]"
  by code_simp

text \<open>
  A JSON integer in a column: kept exactly in an \<open>INT64\<close> column when it has 64 bits and null when not, kept digit by digit in a text
  column; a \<open>TIMESTAMP\<close> column takes it for seconds, and wraps around when the microseconds need more than 64 bits.
\<close>

lemma json_integers:
  "CoerceValue env ''INT64'' (GNumber (itoa i)) = (if in_int64 i then PvInt64 i else PvNull)"
  "CoerceValue env ''VARCHAR'' (GNumber s) = PvBytes s"
  "in_int64 (i * 1000000) \<Longrightarrow> in_int64 i \<Longrightarrow> CoerceValue env ''TIMESTAMP'' (GNumber (itoa i)) = PvInt64 (i * 1000000)"
  by (simp_all add: CoerceValue_def upper_char_def Let_def coerceInt64_def coerceString_def coerceTimestamp_def opt_value_def parse_int64_itoa wrap64_id)

text \<open>A time of the year 2286 that is in milliseconds becomes one long before 1970.\<close>

lemma timestamp_wraps: "CoerceValue env ''TIMESTAMP'' (GNumber ''10000000000000'') = PvInt64 (- 8446744073709551616)"
proof -
  have "parse_int64 ''10000000000000'' = Some 10000000000000"
    by (simp add: parse_int64_def is_dec_def in_int64_def)
  then show ?thesis by (simp add: CoerceValue_def upper_char_def Let_def coerceTimestamp_def opt_value_def wrap64_def)
qed

text \<open>
  A number in a boolean column is null: the JSON decoder of the fetcher makes numbers \<open>json.Number\<close>, and only \<open>float64\<close> is converted.
\<close>

lemma boolean_number_is_null: "CoerceValue env ''BOOLEAN'' (GNumber s) = PvNull"
  by (simp add: CoerceValue_def upper_char_def Let_def coerceBoolean_def)

lemma boolean_float_is_kept: "CoerceValue env ''BOOLEAN'' (GFloat 1 0) = PvBoolean True"
  by (simp add: CoerceValue_def upper_char_def Let_def coerceBoolean_def)

text \<open>An integer that JSON writes with a fraction or an exponent is null as well.\<close>

lemma integer_with_fraction_is_null:
  "CoerceValue env ''INT64'' (GNumber ''1.0'') = PvNull" "CoerceValue env ''INT64'' (GFloat 1 0) = PvInt64 1"
  by (simp_all add: CoerceValue_def upper_char_def Let_def coerceInt64_def opt_value_def parse_int64_def is_dec_def float_trunc_def in_int64_def)

end
