(* ===== verification/FetchResponse.thy ===== *)
theory FetchResponse
  imports FetchRows
begin

text \<open>
  \<open>loaders/response_adapters.go\<close> and the parsing half of \<open>loaders/mcp_fetcher.go\<close>: the text a tool answers with
  becomes a list of items. What \<open>encoding/json\<close> and \<open>encoding/csv\<close> make of a text is an argument: \<open>dx_decode\<close> is a
  \<open>json.Decoder\<close> with \<open>UseNumber\<close>, \<open>dx_unmarshal\<close> is \<open>json.Unmarshal\<close> into a map, which has numbers as \<open>GFloat\<close>
  (the text \<open>null\<close> leaves the map empty), \<open>dx_csv\<close> is \<open>csv.Reader.ReadAll\<close>.
\<close>

record decode_env = value_env +
  dx_decode :: "string \<Rightarrow> gval option"
  dx_unmarshal :: "string \<Rightarrow> gmap result"
  dx_csv :: "string \<Rightarrow> string list list result"

definition NL :: char where "NL = CHR 0x0A"

text \<open>\<open>m[h] = row[i]\<close> for the headers that have a cell.\<close>

definition row_map :: "string list \<Rightarrow> string list \<Rightarrow> gmap" where
  "row_map headers row = foldl (\<lambda>m (h, v). go_put h (GStr v) m) [] (zip headers row)"

subsection \<open>CSV and NDJSON\<close>

definition parseCSVResponse :: "('e decode_env_scheme) \<Rightarrow> string \<Rightarrow> gmap list result" where
  "parseCSVResponse env s =
     (case dx_csv env s of
        Inl err \<Rightarrow> Inl (ErrMsg (''csv parse: '' @ error_string err))
      | Inr [] \<Rightarrow> Inr []
      | Inr (headers # rows) \<Rightarrow> Inr (map (row_map headers) rows))"

fun ndjson_items :: "('e decode_env_scheme) \<Rightarrow> nat \<Rightarrow> string list \<Rightarrow> gmap list result" where
  "ndjson_items env i [] = Inr []"
| "ndjson_items env i (l # ls) =
     (let line = TrimSpace l
      in if line = [] then ndjson_items env (Suc i) ls
         else case dx_unmarshal env line of
                Inl err \<Rightarrow> Inl (ErrMsg (''ndjson line '' @ itoa (int (i + 1)) @ '': '' @ error_string err))
              | Inr m \<Rightarrow> (case ndjson_items env (Suc i) ls of Inl e \<Rightarrow> Inl e | Inr ms \<Rightarrow> Inr (m # ms)))"

definition parseNDJSONResponse :: "('e decode_env_scheme) \<Rightarrow> string \<Rightarrow> gmap list result" where
  "parseNDJSONResponse env s = ndjson_items env 0 (split_on NL (TrimSpace s))"

subsection \<open>Text tables\<close>

text \<open>
  \<open>parsePythonList\<close>: the state is the quote the scan is in and the value read so far.
\<close>

fun python_scan :: "char option \<Rightarrow> string \<Rightarrow> string \<Rightarrow> string list" where
  "python_scan q cur [] = [TrimSpace cur]"
| "python_scan (Some q) cur (c # cs) =
     (if c = CHR 0x5C \<and> take 1 cs = [q] then python_scan (Some q) (cur @ [q]) (drop 1 cs)
      else if c = q then python_scan None cur cs
      else python_scan (Some q) (cur @ [c]) cs)"
| "python_scan None cur (c # cs) =
     (if c = CHR 0x27 \<or> c = CHR 0x22 then python_scan (Some c) cur cs
      else if c = CHR '','' then TrimSpace cur # python_scan None [] cs
      else python_scan None (cur @ [c]) cs)"

definition parsePythonList :: "string \<Rightarrow> string list" where
  "parsePythonList inner = python_scan None [] inner"

text \<open>The header scan of \<open>parseTabularTextPipe\<close>: the headers of every header line, and the last separator's successor.\<close>

fun pipe_scan :: "nat \<Rightarrow> string list \<Rightarrow> string list \<Rightarrow> nat option \<Rightarrow> string list \<times> nat option" where
  "pipe_scan i [] headers start = (headers, start)"
| "pipe_scan i (line # lines) headers start =
     (let trimmed = TrimSpace line
      in if prefix ''Columns:'' trimmed
         then pipe_scan (Suc i) lines (headers @ map TrimSpace (split_on (CHR ''|'') (TrimPrefix trimmed ''Columns:''))) start
         else if prefix ''---'' trimmed then pipe_scan (Suc i) lines headers (Some (i + 1))
         else pipe_scan (Suc i) lines headers start)"

definition pipe_rows :: "string list \<Rightarrow> string list \<Rightarrow> gmap list" where
  "pipe_rows headers lines =
     map (\<lambda>t. row_map headers (map TrimSpace (split_on (CHR ''|'') t))) (filter (\<lambda>t. t \<noteq> []) (map TrimSpace lines))"

definition parseTabularTextPipe :: "string list \<Rightarrow> gmap list result" where
  "parseTabularTextPipe lines =
     (case pipe_scan 0 lines [] None of
        (headers, start) \<Rightarrow>
          (case start of
             None \<Rightarrow> Inl (ErrMsg ''tabular_text: could not find column headers or data separator in response'')
           | Some dataStart \<Rightarrow>
               if headers = [] then Inl (ErrMsg ''tabular_text: could not find column headers or data separator in response'')
               else Inr (pipe_rows headers (drop dataStart lines))))"

definition names_prefix :: string where "names_prefix = ''Column Names:''"

definition indexed_headers :: "string list \<Rightarrow> string list" where
  "indexed_headers lines =
     (case find (\<lambda>line. prefix names_prefix (TrimSpace line)) lines of
        None \<Rightarrow> []
      | Some line \<Rightarrow> map TrimSpace (split_on (CHR '','') (TrimPrefix (TrimSpace line) names_prefix)))"

text \<open>The values of a line \<open>Row N: [...]\<close>; \<open>None\<close> for a line that is skipped.\<close>

definition indexed_values :: "string \<Rightarrow> string list option" where
  "indexed_values line =
     (let trimmed = TrimSpace line
      in if \<not> prefix ''Row '' trimmed then None
         else case index_of trimmed ''['' of
                None \<Rightarrow> None
              | Some b \<Rightarrow>
                  (let inner = drop (b + 1) trimmed
                   in Some (parsePythonList (case last_index inner (CHR '']'') of None \<Rightarrow> inner | Some e \<Rightarrow> take e inner))))"

definition parseTabularTextIndexed :: "string list \<Rightarrow> gmap list result" where
  "parseTabularTextIndexed lines =
     (let headers = indexed_headers lines
      in if headers = [] then Inl (ErrMsg ''tabular_text: could not find 'Column Names:' header'')
         else Inr (map (row_map headers) (List.map_filter indexed_values lines)))"

definition parseTabularTextResponse :: "string \<Rightarrow> gmap list result" where
  "parseTabularTextResponse s =
     (let lines = split_on NL (TrimSpace s)
      in if \<exists>line\<in>set lines. prefix names_prefix (TrimSpace line) then parseTabularTextIndexed lines
         else parseTabularTextPipe lines)"

subsection \<open>Adapters\<close>

type_synonym ResponseAdapter = "string \<Rightarrow> FieldMapping list \<Rightarrow> gmap list result"

definition responseAdapters :: "(string \<times> ResponseAdapter) list" where
  "responseAdapters = [(''tabular_text'', \<lambda>s _. parseTabularTextResponse s)]"

definition RegisterResponseAdapter ::
    "string \<Rightarrow> ResponseAdapter \<Rightarrow> (string \<times> ResponseAdapter) list \<Rightarrow> (string \<times> ResponseAdapter) list" where
  "RegisterResponseAdapter name adapter reg = go_put name adapter reg"

definition GetResponseAdapter :: "(string \<times> ResponseAdapter) list \<Rightarrow> string \<Rightarrow> ResponseAdapter option" where
  "GetResponseAdapter reg name = map_of reg name"

subsection \<open>JSON\<close>

fun map_slice :: "nat \<Rightarrow> gval list \<Rightarrow> gmap list result" where
  "map_slice i [] = Inr []"
| "map_slice i (v # vs) =
     (case v of
        GMap m \<Rightarrow> (case map_slice (Suc i) vs of Inl e \<Rightarrow> Inl e | Inr ms \<Rightarrow> Inr (m # ms))
      | _ \<Rightarrow> Inl (ErrMsg (''array element '' @ itoa (int i) @ '' is '' @ go_type v @ '', expected object'')))"

definition toMapSlice :: "gval list \<Rightarrow> gmap list result" where
  "toMapSlice arr = map_slice 0 arr"

definition navigateToItems :: "gval \<Rightarrow> string \<Rightarrow> bool \<Rightarrow> gmap list result" where
  "navigateToItems parsed itemsPath singleItem =
     (case parsed of
        GList v \<Rightarrow> toMapSlice v
      | GMap v \<Rightarrow>
          if itemsPath \<noteq> [] then
            (case ExtractField v itemsPath of
               GNil \<Rightarrow> Inl (ErrMsg (''items_path '' @ quote itemsPath @ '' not found in response''))
             | GList arr \<Rightarrow> toMapSlice arr
             | GMap m \<Rightarrow> Inr [m]
             | w \<Rightarrow> Inl (ErrMsg (''items_path '' @ quote itemsPath @ '' resolved to '' @ go_type w @ '', expected array or object'')))
          else if singleItem then Inr [v]
          else Inl (ErrMsg ''response is an object but no items_path or single_item specified'')
      | _ \<Rightarrow> Inl (ErrMsg (''unexpected JSON type: '' @ go_type parsed)))"

definition toStagingFields :: "(string \<times> string \<times> string) list \<Rightarrow> FieldMapping list" where
  "toStagingFields fs = map (\<lambda>(s, c, t). \<lparr>fm_Source = s, fm_Column = c, fm_Type = t\<rparr>) fs"

text \<open>The items of a response, and the decoded envelope when it is JSON.\<close>

definition parseResponse ::
    "('e decode_env_scheme) \<Rightarrow> (string \<times> ResponseAdapter) list \<Rightarrow> MCPFetchOpts \<Rightarrow> bool \<Rightarrow> string \<Rightarrow> (gmap list \<times> gval) result" where
  "parseResponse env reg opts singleItem s =
     (if fo_ResponseAdapter opts \<noteq> [] then
        (case GetResponseAdapter reg (fo_ResponseAdapter opts) of
           None \<Rightarrow> Inl (ErrMsg (''unknown response adapter: '' @ quote (fo_ResponseAdapter opts)))
         | Some adapter \<Rightarrow>
             (case adapter s (toStagingFields (fo_Fields opts)) of
                Inl err \<Rightarrow> Inl (ErrMsg (''response adapter '' @ quote (fo_ResponseAdapter opts) @ '': '' @ error_string err))
              | Inr items \<Rightarrow> Inr (items, GNil)))
      else if fo_ResponseFormat opts = ''csv'' then
        (case parseCSVResponse env s of
           Inl err \<Rightarrow> Inl (ErrMsg (''parsing CSV response: '' @ error_string err))
         | Inr items \<Rightarrow> Inr (items, GNil))
      else if fo_ResponseFormat opts = ''ndjson'' then
        (case parseNDJSONResponse env s of
           Inl err \<Rightarrow> Inl (ErrMsg (''parsing NDJSON response: '' @ error_string err))
         | Inr items \<Rightarrow> Inr (items, GNil))
      else
        (case dx_decode env s of
           None \<Rightarrow> Inl (ErrMsg (''MCP tool returned invalid JSON: '' @ take 200 s))
         | Some parsed \<Rightarrow>
             (case navigateToItems parsed (fo_ItemsPath opts) singleItem of
                Inl err \<Rightarrow> Inl (ErrMsg (''navigating MCP response: '' @ error_string err))
              | Inr items \<Rightarrow> Inr (items, parsed))))"

end
