(* ===== verification/ResponseProperties.thy ===== *)
theory ResponseProperties
  imports FetchResponse Pool
begin

text \<open>
  What the parsers of tool responses make of the texts they are meant for: a rendered text table is read back, and
  typed columns keep the values that fit them. And what they cannot be given: the client pool hands on JSON only.
\<close>

subsection \<open>Rows\<close>

lemma row_map_step: "foldl (\<lambda>m (h, v). go_put h (f v) m) m0 (zip hs vs) =
    m0 @ map (\<lambda>(h, v). (h, f v)) (zip hs vs)" if "distinct (map fst m0 @ hs)"
  using that
proof (induction hs arbitrary: vs m0)
  case (Cons h hs)
  show ?case
  proof (cases vs)
    case (Cons v vs')
    have "go_put h (f v) m0 = m0 @ [(h, f v)]"
      using Cons.prems by (induction m0) (auto simp: go_put_def)
    then show ?thesis using Cons.IH [of "m0 @ [(h, f v)]" vs'] Cons.prems Cons by simp
  qed simp
qed simp

lemma row_map_zip: "distinct hs \<Longrightarrow> row_map hs vs = map (\<lambda>(h, v). (h, GStr v)) (zip hs vs)"
  unfolding row_map_def by (subst row_map_step) simp_all

subsection \<open>Joining and splitting\<close>

fun join_with :: "string \<Rightarrow> string list \<Rightarrow> string" where
  "join_with sep [] = []"
| "join_with sep [x] = x"
| "join_with sep (x # y # xs) = x @ sep @ join_with sep (y # xs)"

lemma split_on_join:
  "\<lbrakk>ls \<noteq> []; \<forall>l\<in>set ls. c \<notin> set l\<rbrakk> \<Longrightarrow> split_on c (join_with [c] ls) = ls"
  by (induction "[c]" ls rule: join_with.induct) (auto simp: split_on_none split_on_append)

text \<open>A separator \<open>", "\<close> split at the comma leaves a space before the words, which \<open>TrimSpace\<close> removes.\<close>

lemma white_space: "white (CHR '' '')"
  by (simp add: white_def)

lemma split_trim_join:
  assumes "hs \<noteq> []" "\<forall>h\<in>set hs. CHR '','' \<notin> set h \<and> TrimSpace h = h"
  shows "map TrimSpace (split_on (CHR '','') (CHR '' '' # join_with '', '' hs)) = hs"
  using assms
proof (induction "'', ''" hs rule: join_with.induct)
  case (3 x y xs)
  have "split_on (CHR '','') (CHR '' '' # x @ '', '' @ join_with '', '' (y # xs)) =
      (CHR '' '' # x) # split_on (CHR '','') (CHR '' '' # join_with '', '' (y # xs))"
    using split_on_append [of "CHR '',''" "CHR '' '' # x" "CHR '' '' # join_with '', '' (y # xs)"] "3.prems" by simp
  with 3 show ?case by (simp add: TrimSpace_front white_space del: split_on.simps)
qed (auto simp: split_on_none TrimSpace_front white_space)

subsection \<open>Python lists\<close>

text \<open>The literal Python prints for a string without backslashes and control characters.\<close>

definition py_quote :: "string \<Rightarrow> char" where
  "py_quote v = (if CHR 0x27 \<in> set v \<and> CHR 0x22 \<notin> set v then CHR 0x22 else CHR 0x27)"

definition py_escape :: "char \<Rightarrow> string \<Rightarrow> string" where
  "py_escape q v = concat (map (\<lambda>c. if c = q then [CHR 0x5C, c] else [c]) v)"

definition py_repr :: "string \<Rightarrow> string" where
  "py_repr v = py_quote v # py_escape (py_quote v) v @ [py_quote v]"

lemma py_quote_cases: "py_quote v = CHR 0x27 \<or> py_quote v = CHR 0x22"
  by (simp add: py_quote_def)

lemma python_scan_quoted:
  assumes "CHR 0x5C \<notin> set v" "q \<noteq> CHR 0x5C"
  shows "python_scan (Some q) cur (py_escape q v @ q # rest) = python_scan None (cur @ v) rest"
  using assms
proof (induction v arbitrary: cur)
  case Nil
  then show ?case by (simp add: py_escape_def)
next
  case (Cons c v)
  then show ?case by (cases "c = q") (auto simp: py_escape_def)
qed

lemma python_scan_repr:
  "CHR 0x5C \<notin> set v \<Longrightarrow> python_scan None cur (py_repr v @ rest) = python_scan None (cur @ v) rest"
  using py_quote_cases [of v] python_scan_quoted [of v "py_quote v" cur rest] by (auto simp: py_repr_def)

lemma python_scan_list:
  assumes "vs \<noteq> []" "\<forall>v\<in>set vs. CHR 0x5C \<notin> set v" "\<forall>c\<in>set sp. white c"
  shows "python_scan None sp (join_with '', '' (map py_repr vs)) = map TrimSpace vs"
proof -
  have front: "TrimSpace (sp @ v) = TrimSpace v" if "\<forall>c\<in>set sp. white c" for sp v
    using that by (simp add: TrimSpace_def dropWhile_append2)
  show ?thesis
    using assms
  proof (induction vs arbitrary: sp)
    case (Cons v vs)
    note IH = Cons.IH [of "'' ''"]
    show ?case
    proof (cases vs)
      case Nil
      then show ?thesis using Cons.prems python_scan_repr [of v sp "[]"] by (simp add: front)
    next
      case c: (Cons v2 vs2)
      show ?thesis using Cons.prems IH python_scan_repr [of v sp "'', '' @ join_with '', '' (map py_repr vs)"] c
        by (simp add: front white_space)
    qed
  qed simp
qed

lemma parsePythonList_repr:
  "\<lbrakk>vs \<noteq> []; \<forall>v\<in>set vs. CHR 0x5C \<notin> set v\<rbrakk> \<Longrightarrow> parsePythonList (join_with '', '' (map py_repr vs)) = map TrimSpace vs"
  unfolding parsePythonList_def by (rule python_scan_list) auto

text \<open>
  With a backslash the literal is not read back: one at the end of a value, which Python prints twice, makes the scan take the
  closing quote for an escaped one, and the value swallows the next.
\<close>

lemma trailing_backslash_merges_values:
  "parsePythonList ([CHR 0x27] @ ''C:'' @ [CHR 0x5C, CHR 0x5C, CHR 0x27] @ '', '' @ [CHR 0x27] @ ''b'' @ [CHR 0x27]) =
    [''C:'' @ [CHR 0x5C, CHR 0x27] @ '', b'']"
  by (simp add: parsePythonList_def TrimSpace_def white_def)

subsection \<open>Text tables of the second format\<close>

definition render_row :: "nat \<Rightarrow> string list \<Rightarrow> string" where
  "render_row i r = ''Row '' @ nat_string i @ '': ['' @ join_with '', '' (map py_repr r) @ '']''"

definition header_line :: "string list \<Rightarrow> string" where
  "header_line hs = ''Column Names: '' @ join_with '', '' hs"

definition render_table :: "string list \<Rightarrow> string list list \<Rightarrow> string" where
  "render_table hs rows =
     join_with [NL] (header_line hs # map (\<lambda>(i, r). render_row i r) (enumerate 0 rows))"

definition plain_header :: "string \<Rightarrow> bool" where
  "plain_header h \<longleftrightarrow> h \<noteq> [] \<and> TrimSpace h = h \<and> CHR '','' \<notin> set h \<and> NL \<notin> set h"

definition plain_row :: "string list \<Rightarrow> bool" where
  "plain_row r \<longleftrightarrow> r \<noteq> [] \<and> (\<forall>v\<in>set r. CHR 0x5C \<notin> set v \<and> NL \<notin> set v)"

lemma index_of_char: "c \<notin> set a \<Longrightarrow> index_of (a @ c # b) [c] = Some (length a)"
  by (induction a) auto

lemma last_index_end: "last_index (a @ [c]) c = Some (length a)"
  by (simp add: last_index_def)

lemma set_join_with: "set (join_with sep xs) \<subseteq> set sep \<union> \<Union> (set ` set xs)"
  by (induction sep xs rule: join_with.induct) auto

lemma set_py_repr: "set (py_repr v) \<subseteq> set v \<union> {CHR 0x27, CHR 0x22, CHR 0x5C}"
  using py_quote_cases [of v] by (auto simp: py_repr_def py_escape_def split: if_splits)

lemma trim_hd_last: "TrimSpace s = s \<Longrightarrow> s \<noteq> [] \<Longrightarrow> \<not> white (hd s) \<and> \<not> white (last s)"
proof -
  assume t: "TrimSpace s = s" and ne: "s \<noteq> []"
  have "rev (TrimSpace s) = dropWhile white (rev (dropWhile white s))" by (simp add: TrimSpace_def)
  with t ne have "\<not> white (hd (rev s))"
    by (metis hd_dropWhile rev_is_Nil_conv)
  moreover have "length (TrimSpace s) \<le> length (dropWhile white s)"
    using length_dropWhile_le [of white "rev (dropWhile white s)"] by (simp add: TrimSpace_def)
  with t have "dropWhile white s = s"
    by (metis length_dropWhile_le le_antisym dropWhile_eq_self_iff dropWhile_eq_drop takeWhile_dropWhile_id append_eq_append_conv append_self_conv2)
  then have "\<not> white (hd s)" using ne by (metis dropWhile_eq_self_iff)
  ultimately show ?thesis using ne by (simp add: hd_rev)
qed

lemma last_join: "xs \<noteq> [] \<Longrightarrow> last xs \<noteq> [] \<Longrightarrow> last (join_with sep xs) = last (last xs) \<and> join_with sep xs \<noteq> []"
  by (induction sep xs rule: join_with.induct) (auto simp: last_append)

lemma trim_render_row: "TrimSpace (render_row i r) = render_row i r"
  by (rule TrimSpace_id) (simp_all add: render_row_def white_def)

lemma indexed_values_row:
  assumes "plain_row r"
  shows "indexed_values (render_row i r) = Some (map TrimSpace r)"
proof -
  have "CHR ''['' \<notin> set (''Row '' @ nat_string i @ '': '')"
    using nat_string_dec [of i] by (auto simp: list_all_iff is_dec_def)
  from index_of_char [OF this, of "join_with '', '' (map py_repr r) @ '']''"]
  have idx: "index_of (render_row i r) ''['' = Some (length (''Row '' @ nat_string i @ '': ''))" by (simp add: render_row_def)
  have inner: "drop (length (''Row '' @ nat_string i @ '': '') + 1) (render_row i r) = join_with '', '' (map py_repr r) @ '']''"
    by (simp add: render_row_def)
  show ?thesis
    using idx inner last_index_end [of "join_with '', '' (map py_repr r)" "CHR '']''"] assms parsePythonList_repr [of r]
    by (simp add: indexed_values_def Let_def trim_render_row plain_row_def) (simp add: render_row_def)
qed


abbreviation table_lines :: "string list \<Rightarrow> string list list \<Rightarrow> string list" where
  "table_lines hs rows \<equiv> header_line hs # map (\<lambda>(i, r). render_row i r) (enumerate 0 rows)"

lemma header_line_ends:
  assumes "hs \<noteq> []" "\<forall>h\<in>set hs. plain_header h"
  shows "\<not> white (last (header_line hs))" "NL \<notin> set (header_line hs)" "TrimSpace (header_line hs) = header_line hs"
proof -
  have h: "plain_header (last hs)" using assms by simp
  then have "last (header_line hs) = last (last hs)"
    using last_join [OF assms(1), of "'', ''"] by (simp add: plain_header_def header_line_def)
  then show l: "\<not> white (last (header_line hs))" using h trim_hd_last by (simp add: plain_header_def)
  show "NL \<notin> set (header_line hs)"
    using assms(2) set_join_with [of "'', ''" hs] by (auto simp: plain_header_def NL_def header_line_def)
  from l show "TrimSpace (header_line hs) = header_line hs"
    by (intro TrimSpace_id) (simp_all add: white_def header_line_def)
qed

lemma render_row_plain:
  assumes "plain_row r"
  shows "NL \<notin> set (render_row i r)" "last (render_row i r) = CHR '']''" "render_row i r \<noteq> []"
proof -
  have "NL \<notin> set (nat_string i)" using nat_string_dec [of i] by (auto simp: list_all_iff is_dec_def NL_def)
  moreover have "NL \<notin> set (join_with '', '' (map py_repr r))"
    using assms set_join_with [of "'', ''" "map py_repr r"] set_py_repr by (fastforce simp: plain_row_def NL_def)
  ultimately show "NL \<notin> set (render_row i r)" by (auto simp: render_row_def NL_def)
qed (simp_all add: render_row_def)

lemma table_lines_read:
  assumes "hs \<noteq> []" "\<forall>h\<in>set hs. plain_header h" "\<forall>r\<in>set rows. plain_row r"
  shows "split_on NL (TrimSpace (render_table hs rows)) = table_lines hs rows"
proof -
  let ?ls = "table_lines hs rows"
  have rows: "l \<in> set (map (\<lambda>(i, r). render_row i r) (enumerate 0 rows)) \<Longrightarrow> \<exists>i r. plain_row r \<and> l = render_row i r" for l
    using assms(3) by (auto simp: in_set_enumerate_eq) (metis nth_mem)
  have last: "last ?ls \<noteq> [] \<and> \<not> white (last (last ?ls))"
  proof (cases "rows = []")
    case True
    then show ?thesis using header_line_ends [OF assms(1,2)] by (simp add: header_line_def)
  next
    case False
    then have ne: "map (\<lambda>(i, r). render_row i r) (enumerate 0 rows) \<noteq> []"
      by (cases rows) simp_all
    then have "last ?ls \<in> set (map (\<lambda>(i, r). render_row i r) (enumerate 0 rows))"
      unfolding last_ConsR [OF ne] by (rule last_in_set)
    from rows [OF this] obtain i r where "plain_row r" "last ?ls = render_row i r" by blast
    then show ?thesis using render_row_plain by (simp add: white_def)
  qed
  have hd: "\<exists>t. render_table hs rows = CHR ''C'' # t"
    by (cases rows) (simp_all add: render_table_def header_line_def)
  then have "TrimSpace (render_table hs rows) = render_table hs rows"
    using last last_join [of ?ls "[NL]"] by (intro TrimSpace_id) (auto simp: render_table_def white_def)
  moreover have "\<forall>l\<in>set ?ls. NL \<notin> set l"
    using header_line_ends [OF assms(1,2)] rows render_row_plain by (auto simp del: set_map)
  ultimately show ?thesis by (simp add: render_table_def split_on_join del: join_with.simps)
qed

text \<open>
  C32 (text_table_reads_back): A table rendered as the second format of \<open>parseTabularTextResponse\<close> describes it (a line of column
  names, then one Python list per row) is read back row by row, with commas and quotes inside values kept: every row gives its
  values by column, each without the white space around it, as far as the header has columns. Column names are different and
  plain; values have no backslash and no line break.
\<close>

theorem text_table_reads_back:
  assumes "hs \<noteq> []" "distinct hs" "\<forall>h\<in>set hs. plain_header h" "\<forall>r\<in>set rows. plain_row r"
  shows "parseTabularTextResponse (render_table hs rows) =
    Inr (map (\<lambda>r. map (\<lambda>(h, v). (h, GStr (TrimSpace v))) (zip hs r)) rows)"
proof -
  note lines = table_lines_read [OF assms(1,3,4)]
  note hl = header_line_ends [OF assms(1,3)]
  have pre: "prefix names_prefix (TrimSpace (header_line hs))" unfolding hl(3) by (simp add: names_prefix_def header_line_def)
  have "TrimPrefix (header_line hs) names_prefix = CHR '' '' # join_with '', '' hs"
    by (simp add: TrimPrefix_def names_prefix_def header_line_def)
  then have headers: "indexed_headers (table_lines hs rows) = hs"
    using pre split_trim_join [OF assms(1)] assms(3) by (simp add: indexed_headers_def hl(3) plain_header_def)
  have none: "indexed_values (header_line hs) = None"
    unfolding indexed_values_def Let_def hl(3) by (simp add: header_line_def)
  have vals: "List.map_filter indexed_values (map (\<lambda>(i, r). render_row i r) (enumerate n rows)) = map (map TrimSpace) rows" for n
    using assms(4) by (induction rows arbitrary: n) (simp_all add: indexed_values_row)
  have "parseTabularTextIndexed (table_lines hs rows) = Inr (map (row_map hs) (map (map TrimSpace) rows))"
    unfolding parseTabularTextIndexed_def Let_def headers using assms(1) none vals [of 0] by simp
  moreover have "map (\<lambda>(h, v). (h, GStr v)) (zip hs (map TrimSpace r)) = map (\<lambda>(h, v). (h, GStr (TrimSpace v))) (zip hs r)" for r
    by (auto simp: zip_map2)
  ultimately show ?thesis
    unfolding parseTabularTextResponse_def Let_def lines using pre by (simp add: row_map_zip [OF assms(2)])
qed

text \<open>A table whose values have commas, quotes and a bracket.\<close>

theorem text_table_reads_back_witness:
  "parseTabularTextResponse (render_table [''id'', ''who''] [[''a]'', ''Doe, Jane''], [[CHR 0x27], '' b'']]) =
    Inr [[(''id'', GStr ''a]''), (''who'', GStr ''Doe, Jane'')], [(''id'', GStr [CHR 0x27]), (''who'', GStr ''b'')]]"
proof -
  have h: "\<forall>h\<in>set [''id'', ''who'']. plain_header h" by (simp add: plain_header_def TrimSpace_def white_def NL_def)
  have r: "\<forall>r\<in>set [[''a]'', ''Doe, Jane''], [[CHR 0x27], '' b'']]. plain_row r" by (simp add: plain_row_def NL_def)
  show ?thesis using text_table_reads_back [OF _ _ h r] by (simp add: TrimSpace_def white_def)
qed

subsection \<open>Text tables and the client pool\<close>

text \<open>
  \<open>normalizeResult\<close> lets a text through only if it is JSON. JSON has no raw line break in a string, so after one the scanner does
  not accept the letter that both formats of a text table have at the start of their header line.
\<close>

definition outside_string :: "json_state \<Rightarrow> bool" where
  "outside_string st \<longleftrightarrow> st \<noteq> InString \<and> st \<noteq> InEscape \<and> (\<forall>k. st \<noteq> InHex k)"

definition literal_ok :: "json_state \<Rightarrow> bool" where
  "literal_ok st \<longleftrightarrow> (\<forall>l. st = Literal l \<longrightarrow> CHR ''C'' \<notin> set l)"

lemmas json_step_facts = begin_value_def end_value_def push_ctx_def pop_ctx_def

lemma step_literal_ok: "json_step c (st, stack) = Some (st', stack') \<Longrightarrow> literal_ok st \<Longrightarrow> literal_ok st'"
  by (cases st) (auto simp: literal_ok_def json_step_facts split: if_splits option.splits list.splits json_ctx.splits)

lemma scan_literal_ok: "json_scan_all s (st, stack) = Some (st', stack') \<Longrightarrow> literal_ok st \<Longrightarrow> literal_ok st'"
proof (induction s arbitrary: st stack)
  case (Cons c s)
  then show ?case using step_literal_ok by (fastforce split: option.splits)
qed simp

lemma step_white:
  "\<lbrakk>json_step c (st, stack) = Some (st', stack'); white c; outside_string st\<rbrakk> \<Longrightarrow> outside_string st'"
  by (cases st)
    (auto simp: outside_string_def white_def json_step_facts split: if_splits option.splits list.splits json_ctx.splits)

lemma scan_white:
  "\<lbrakk>json_scan_all s (st, stack) = Some (st', stack'); \<forall>c\<in>set s. white c; outside_string st\<rbrakk> \<Longrightarrow> outside_string st'"
proof (induction s arbitrary: st stack)
  case (Cons c s)
  then show ?case using step_white by (fastforce split: option.splits)
qed simp

lemma step_newline: "json_step NL (st, stack) = Some (st', stack') \<Longrightarrow> outside_string st'"
  by (cases st)
    (auto simp: outside_string_def NL_def json_step_facts split: if_splits option.splits list.splits json_ctx.splits)

lemma step_letter: "outside_string st \<Longrightarrow> literal_ok st \<Longrightarrow> json_step (CHR ''C'') (st, stack) = None"
  by (cases st) (auto simp: outside_string_def literal_ok_def json_step_facts split: list.splits json_ctx.splits)

lemma line_start_not_json:
  assumes "p = [] \<or> last p = NL" "\<forall>c\<in>set w. white c"
  shows "\<not> json_valid (p @ w @ CHR ''C'' # r)"
proof (cases "json_scan_all p (BeginValue, [])")
  case None
  then show ?thesis by (simp add: json_valid_def json_scan_append)
next
  case (Some q)
  obtain st stack where q: "q = (st, stack)" by fastforce
  have lit: "literal_ok st" using scan_literal_ok Some q by (fastforce simp: literal_ok_def)
  have out: "outside_string st"
  proof (cases "p = []")
    case True
    with Some q show ?thesis by (simp add: outside_string_def)
  next
    case False
    with assms(1) obtain p' where "p = p' @ [NL]" by (metis append_butlast_last_id)
    with Some q show ?thesis using step_newline by (fastforce simp: json_scan_append split: option.splits)
  qed
  show ?thesis
  proof (cases "json_scan_all w (st, stack)")
    case None
    with Some q show ?thesis by (simp add: json_valid_def json_scan_append)
  next
    case two: (Some q2)
    obtain st2 stack2 where q2: "q2 = (st2, stack2)" by fastforce
    have "json_step (CHR ''C'') (st2, stack2) = None"
      using step_letter scan_white [OF _ assms(2) out] scan_literal_ok [OF _ lit] two q2 by blast
    with Some q two q2 show ?thesis by (simp add: json_valid_def json_scan_append)
  qed
qed

lemma TrimSpace_parts: "\<exists>w1 w2. s = w1 @ TrimSpace s @ w2 \<and> (\<forall>c\<in>set w1. white c)"
proof -
  have "s = takeWhile white s @ dropWhile white s" by simp
  also have "dropWhile white s = TrimSpace s @ rev (takeWhile white (rev (dropWhile white s)))"
    unfolding TrimSpace_def by (metis rev_append rev_rev_ident takeWhile_dropWhile_id)
  finally show ?thesis by (metis set_takeWhileD)
qed

lemma split_parts:
  "split_on c t = w # ws \<Longrightarrow> (\<exists>q. t = w @ q) \<and> (\<forall>l\<in>set ws. \<exists>p q. t = p @ l @ q \<and> p \<noteq> [] \<and> last p = c)"
proof (induction t arbitrary: w ws)
  case (Cons x t)
  obtain w0 ws0 where t: "split_on c t = w0 # ws0" by (cases "split_on c t") auto
  from Cons.IH [OF t] obtain q0 where q0: "t = w0 @ q0"
    and rest: "\<And>l. l \<in> set ws0 \<Longrightarrow> \<exists>p q. t = p @ l @ q \<and> p \<noteq> [] \<and> last p = c" by blast
  have later: "\<exists>p q. x # t = p @ l @ q \<and> p \<noteq> [] \<and> last p = c" if "l \<in> set ws0" for l
  proof -
    from rest [OF that] obtain p q where "t = p @ l @ q" "p \<noteq> []" "last p = c" by blast
    then have "x # t = (x # p) @ l @ q" "x # p \<noteq> []" "last (x # p) = c" by simp_all
    then show ?thesis by blast
  qed
  show ?case
  proof (cases "x = c")
    case True
    have "\<exists>p q. x # t = p @ w0 @ q \<and> p \<noteq> [] \<and> last p = c"
      using q0 True by (intro exI [of _ "[x]"] exI [of _ q0]) simp
    moreover from True Cons.prems t have "w = []" "ws = w0 # ws0" by auto
    ultimately show ?thesis using later by (metis append_Nil set_ConsD)
  next
    case False
    with Cons.prems t q0 later show ?thesis by auto
  qed
qed simp

lemma split_line: "l \<in> set (split_on c t) \<Longrightarrow> \<exists>p q. t = p @ l @ q \<and> (p = [] \<or> last p = c)"
  by (cases "split_on c t") (use split_parts [of c t] in fastforce)+

lemma pipe_scan_header:
  "pipe_scan i ls hs st = (hs', st') \<Longrightarrow> hs' \<noteq> hs \<Longrightarrow> \<exists>l\<in>set ls. prefix ''Columns:'' (TrimSpace l)"
  by (induction i ls hs st rule: pipe_scan.induct) (auto simp: Let_def split: if_splits)

text \<open>
  C33 (text_tables_never_pass_the_pool): A response that the client pool hands on as a success is never a text table: the adapter
  \<open>tabular_text\<close> fails on it, for either of its formats.
\<close>

theorem text_tables_never_pass_the_pool:
  assumes "normalizeResult r = Inr tr" "\<not> tr_IsError tr"
  shows "\<exists>e. parseTabularTextResponse (tr_Text tr) = Inl e"
proof -
  have valid: "json_valid (tr_Text tr)"
    using assms by (auto simp: normalizeResult_def find_Some_iff split: if_splits option.splits list.splits)
  have no_line: "\<not> prefix (CHR ''C'' # h) (TrimSpace l)" if l: "l \<in> set (split_on NL (TrimSpace (tr_Text tr)))" for l h
  proof
    assume "prefix (CHR ''C'' # h) (TrimSpace l)"
    then obtain x where "TrimSpace l = CHR ''C'' # x" by (auto simp: prefix_def)
    with TrimSpace_parts [of l] obtain w x2 where lw: "l = w @ CHR ''C'' # x2" "\<forall>c\<in>set w. white c" by auto
    from split_line [OF l] obtain p q where t: "TrimSpace (tr_Text tr) = p @ l @ q" "p = [] \<or> last p = NL" by blast
    obtain w1 w2 where s: "tr_Text tr = w1 @ TrimSpace (tr_Text tr) @ w2" "\<forall>c\<in>set w1. white c" using TrimSpace_parts by blast
    show False
    proof (cases "p = []")
      case True
      with s t lw have "tr_Text tr = [] @ (w1 @ w) @ CHR ''C'' # (x2 @ q @ w2)" by simp
      with valid line_start_not_json [of "[]" "w1 @ w" "x2 @ q @ w2"] lw(2) s(2) show False by auto
    next
      case False
      with s(1) t lw(1) have "tr_Text tr = (w1 @ p) @ w @ CHR ''C'' # (x2 @ q @ w2)" by (metis append.assoc append_Cons)
      with valid line_start_not_json [of "w1 @ p" w "x2 @ q @ w2"] lw(2) t(2) False show False by auto
    qed
  qed
  let ?ls = "split_on NL (TrimSpace (tr_Text tr))"
  have "\<not> (\<exists>l\<in>set ?ls. prefix names_prefix (TrimSpace l))"
    using no_line unfolding names_prefix_def by blast
  moreover have "fst (pipe_scan 0 ?ls [] None) = []"
    using pipe_scan_header [of 0 ?ls "[]" None] no_line by (metis prod.collapse)
  ultimately show ?thesis
    by (auto simp: parseTabularTextResponse_def parseTabularTextPipe_def Let_def split: prod.splits option.splits)
qed

text \<open>A result with a JSON text, and the table of the documentation, which is refused.\<close>

theorem text_tables_never_pass_the_pool_witness:
  "(\<exists>e. parseTabularTextResponse ''[1]'' = Inl e) \<and> \<not> is_ok (normalizeResult \<lparr>cr_IsError = False, cr_Content = [TextContent ''Columns: id'']\<rparr>)"
proof -
  have "normalizeResult \<lparr>cr_IsError = False, cr_Content = [TextContent ''[1]'']\<rparr> = Inr \<lparr>tr_Text = ''[1]'', tr_IsError = False\<rparr>"
    by code_simp
  from text_tables_never_pass_the_pool [OF this] have "\<exists>e. parseTabularTextResponse ''[1]'' = Inl e" by simp
  moreover have "\<not> is_ok (normalizeResult \<lparr>cr_IsError = False, cr_Content = [TextContent ''Columns: id'']\<rparr>)" by code_simp
  ultimately show ?thesis by simp
qed

end
