(* ===== verification/Contract.thy ===== *)
theory Contract
  imports Staging
begin

text \<open>
  What a strategy asks for and where it comes from: contracts and bindings (\<open>contract/*.go\<close>), the plan that the resolver makes of
  them (\<open>resolve/resolver.go\<close>), and how \<open>mcpserver/strategy_tools.go\<close> reads a contract out of a strategy's description, merges
  bindings and normalizes parameters. YAML decoding is not modelled: a parsed document is an argument. A map is the list of its entries
  in the order in which a \<open>range\<close> loop visits it; \<open>Source\<close>, \<open>Description\<close> and other fields that only documents read are left out.
\<close>

subsection \<open>Contracts\<close>

record ParamSpec =
  ps_Type :: string
  ps_Required :: bool
  ps_Default :: gval

record ColumnSpec =
  cl_Type :: string
  cl_Semantic :: string

record TableSpec =
  tb_Optional :: bool
  tb_Columns :: "(string \<times> ColumnSpec) list"

record ContractSpec =
  ct_Name :: string
  ct_Description :: string
  ct_Tags :: "string list"
  ct_Params :: "(string \<times> ParamSpec) list"
  ct_Graph :: bool
  ct_Tables :: "(string \<times> TableSpec) list"

definition validateContract :: "ContractSpec \<Rightarrow> error option" where
  "validateContract cs =
     (if ct_Name cs = [] then Some (ErrMsg ''contract must have a 'name' field'')
      else if ct_Description cs = [] then Some (ErrMsg ''contract must have a 'description' field'')
      else if ct_Tags cs = [] then Some (ErrMsg ''contract must have at least one tag'')
      else None)"

text \<open>\<open>ParseContract\<close>, from what the YAML decoder returned.\<close>

definition ParseContract :: "ContractSpec result \<Rightarrow> ContractSpec result" where
  "ParseContract decoded =
     (case decoded of
        Inl err \<Rightarrow> Inl (ErrMsg (''parsing contract YAML: '' @ error_string err))
      | Inr cs \<Rightarrow> (case validateContract cs of Some err \<Rightarrow> Inl err | None \<Rightarrow> Inr cs))"

subsection \<open>Bindings\<close>

record SourceBinding =
  sb_Backend :: string
  sb_Index :: string
  sb_QueryTemplate :: string
  sb_FetchMode :: string
  sb_MaxRows :: int
  sb_FieldMap :: "(string \<times> string) list"
  sb_MCPTool :: string
  sb_MCPServer :: string
  sb_MCPArgs :: gmap
  sb_ItemsPath :: string
  sb_SingleItem :: bool
  sb_Timeout :: string
  sb_Pagination :: "PaginationConfig option"
  sb_ResponseFormat :: string
  sb_ResponseAdapter :: string

record BindingSpec =
  bs_SourceBindings :: "(string \<times> SourceBinding) list"
  bs_FieldOverrides :: "(string \<times> (string \<times> string) list) list"

definition FetchModeOrDefault :: "SourceBinding \<Rightarrow> string" where
  "FetchModeOrDefault sb =
     (if sb_FetchMode sb = [] then ''mcp''
      else if sb_FetchMode sb = ''mcp_client'' then ''fracta_mcp_gateway''
      else if sb_FetchMode sb = ''strategy_native'' then ''native''
      else sb_FetchMode sb)"

definition EMDASH :: string where "EMDASH = [CHR 0xE2, CHR 0x80, CHR 0x94]"

definition ValidateFetchMode :: "SourceBinding \<Rightarrow> error option" where
  "ValidateFetchMode sb =
     (if sb_FetchMode sb = ''direct'' \<or> sb_FetchMode sb = ''api''
      then Some (ErrMsg (''fetch_mode '' @ quote (sb_FetchMode sb) @ '' is no longer supported '' @ EMDASH @
             '' use 'fracta_mcp_gateway' with an MCP server binding instead''))
      else None)"

definition validResponseFormats :: "string set" where
  "validResponseFormats = {[], ''json'', ''csv'', ''ndjson''}"

definition binding_error :: "string \<times> SourceBinding \<Rightarrow> error option" where
  "binding_error e =
     (case e of (name, sb) \<Rightarrow>
        (case ValidateFetchMode sb of
           Some err \<Rightarrow> Some (ErrMsg (''source binding '' @ quote name @ '': '' @ error_string err))
         | None \<Rightarrow>
             if sb_ResponseFormat sb \<noteq> [] \<and> sb_ResponseAdapter sb \<noteq> []
             then Some (ErrMsg (''source binding '' @ quote name @ '': response_format and response_adapter are mutually exclusive''))
             else if sb_ResponseFormat sb \<notin> validResponseFormats
             then Some (ErrMsg (''source binding '' @ quote name @ '': unknown response_format '' @ quote (sb_ResponseFormat sb) @
                    '' (valid: json, csv, ndjson)''))
             else None))"

text \<open>\<open>BindingSpec.validate\<close>: the first error in the order of the loop.\<close>

fun validate_bindings :: "(string \<times> SourceBinding) list \<Rightarrow> error option" where
  "validate_bindings [] = None"
| "validate_bindings (e # es) = (case binding_error e of Some err \<Rightarrow> Some err | None \<Rightarrow> validate_bindings es)"

definition ParseBinding :: "BindingSpec result \<Rightarrow> BindingSpec result" where
  "ParseBinding decoded =
     (case decoded of
        Inl err \<Rightarrow> Inl (ErrMsg (''parsing binding YAML: '' @ error_string err))
      | Inr bs \<Rightarrow> (case validate_bindings (bs_SourceBindings bs) of Some err \<Rightarrow> Inl err | None \<Rightarrow> Inr bs))"

text \<open>Local bindings override global ones; the field overrides of both are dropped.\<close>

definition put_all :: "(string \<times> 'v) list \<Rightarrow> (string \<times> 'v) list \<Rightarrow> (string \<times> 'v) list" where
  "put_all new m = foldl (\<lambda>m (k, v). go_put k v m) m new"

definition mergeBindings :: "BindingSpec option \<Rightarrow> BindingSpec option \<Rightarrow> BindingSpec option" where
  "mergeBindings loc glob =
     (case loc of
        None \<Rightarrow> glob
      | Some l \<Rightarrow>
          (case glob of
             None \<Rightarrow> Some l
           | Some g \<Rightarrow> Some \<lparr>bs_SourceBindings = put_all (bs_SourceBindings l) (put_all (bs_SourceBindings g) []), bs_FieldOverrides = []\<rparr>))"

text \<open>
  \<open>loadEffectiveBinding\<close>: \<open>path\<close> is the contract's path in the description, \<open>parsed\<close> what the strategy's own
  \<open>binding.yaml\<close> parses to; any error but a missing file is only logged.
\<close>

definition loadEffectiveBinding :: "bool \<Rightarrow> string option \<Rightarrow> BindingSpec result \<Rightarrow> BindingSpec option \<Rightarrow> BindingSpec option" where
  "loadEffectiveBinding runner path parsed glob =
     (if \<not> runner \<or> path = None \<or> path = Some [] then glob
      else case parsed of Inl err \<Rightarrow> glob | Inr loc \<Rightarrow> mergeBindings (Some loc) glob)"

subsection \<open>A contract out of a description\<close>

definition get_string :: "gmap \<Rightarrow> string \<Rightarrow> string" where
  "get_string m k = (case go_get m k of GStr s \<Rightarrow> s | _ \<Rightarrow> [])"

definition get_bool :: "gmap \<Rightarrow> string \<Rightarrow> bool" where
  "get_bool m k = (case go_get m k of GBool b \<Rightarrow> b | _ \<Rightarrow> False)"

definition get_map :: "gmap \<Rightarrow> string \<Rightarrow> gmap option" where
  "get_map m k = (case go_get m k of GMap e \<Rightarrow> Some e | _ \<Rightarrow> None)"

definition param_spec :: "string \<times> gval \<Rightarrow> (string \<times> ParamSpec) option" where
  "param_spec e =
     (case e of
        (name, GMap m) \<Rightarrow>
          (let ps = \<lparr>ps_Type = get_string m ''type'', ps_Required = get_bool m ''required'', ps_Default = go_get m ''default''\<rparr>
           in if ps_Type ps \<noteq> [] \<or> ps_Required ps \<or> ps_Default ps \<noteq> GNil then Some (name, ps) else None)
      | _ \<Rightarrow> None)"

definition column_spec :: "gval \<Rightarrow> ColumnSpec" where
  "column_spec v =
     (case v of
        GMap m \<Rightarrow> \<lparr>cl_Type = get_string m ''type'', cl_Semantic = get_string m ''semantic''\<rparr>
      | _ \<Rightarrow> \<lparr>cl_Type = [], cl_Semantic = []\<rparr>)"

definition table_spec :: "gval \<Rightarrow> TableSpec" where
  "table_spec v =
     (case v of
        GMap m \<Rightarrow>
          \<lparr>tb_Optional = get_bool m ''optional'',
           tb_Columns = (case get_map m ''columns'' of None \<Rightarrow> [] | Some cols \<Rightarrow> map (\<lambda>(c, s). (c, column_spec s)) cols)\<rparr>
      | _ \<Rightarrow> \<lparr>tb_Optional = False, tb_Columns = []\<rparr>)"

record strategy_description =
  de_Name :: string
  de_Description :: string
  de_Tags :: "string list"
  de_Params :: gmap
  de_Requires :: "gmap option"

definition strategyInfoToContractSpec :: "strategy_description option \<Rightarrow> ContractSpec option" where
  "strategyInfoToContractSpec info =
     (case info of
        None \<Rightarrow> None
      | Some d \<Rightarrow>
          (let req = (case de_Requires d of Some r \<Rightarrow> Some r | None \<Rightarrow> get_map (de_Params d) ''requires'')
           in Some \<lparr>ct_Name = de_Name d, ct_Description = de_Description d, ct_Tags = de_Tags d,
                ct_Params = List.map_filter param_spec (de_Params d),
                ct_Graph = (case req of None \<Rightarrow> False | Some r \<Rightarrow> get_bool r ''graph''),
                ct_Tables = (case req of
                    None \<Rightarrow> []
                  | Some r \<Rightarrow> (case get_map r ''tables'' of None \<Rightarrow> [] | Some ts \<Rightarrow> map (\<lambda>(t, s). (t, table_spec s)) ts))\<rparr>))"

subsection \<open>Parameters\<close>

text \<open>\<open>strconv.Atoi\<close> and \<open>strconv.ParseBool\<close>.\<close>

definition Atoi :: "string \<Rightarrow> int option" where "Atoi = parse_int64"

definition ParseBool :: "string \<Rightarrow> bool option" where
  "ParseBool s =
     (if s \<in> {''1'', ''t'', ''T'', ''TRUE'', ''true'', ''True''} then Some True
      else if s \<in> {''0'', ''f'', ''F'', ''FALSE'', ''false'', ''False''} then Some False
      else None)"

text \<open>One parameter: the value to put, if any.\<close>

definition normalize_param :: "string \<Rightarrow> ParamSpec \<Rightarrow> gval \<Rightarrow> gval option result" where
  "normalize_param name spec v =
     (if v = GNil then
        (if ps_Required spec then Inl (ErrMsg (''required parameter '' @ quote name @ '' is missing''))
         else if ps_Default spec \<noteq> GNil then Inr (Some (ps_Default spec)) else Inr None)
      else if ps_Type spec = ''int'' \<or> ps_Type spec = ''integer'' then
        (case v of
           GFloat m e \<Rightarrow> Inr (Some (GInt (float_trunc m e)))
         | GStr s \<Rightarrow>
             (case Atoi s of
                None \<Rightarrow> Inl (ErrMsg (''parameter '' @ quote name @ '': expected int, got '' @ quote s))
              | Some n \<Rightarrow> Inr (Some (GInt n)))
         | _ \<Rightarrow> Inr None)
      else if ps_Type spec = ''bool'' \<or> ps_Type spec = ''boolean'' then
        (case v of
           GStr s \<Rightarrow>
             (case ParseBool s of
                None \<Rightarrow> Inl (ErrMsg (''parameter '' @ quote name @ '': expected bool, got '' @ quote s))
              | Some b \<Rightarrow> Inr (Some (GBool b)))
         | _ \<Rightarrow> Inr None)
      else Inr None)"

fun normalize_params :: "(string \<times> ParamSpec) list \<Rightarrow> gmap \<Rightarrow> gmap result" where
  "normalize_params [] params = Inr params"
| "normalize_params ((name, spec) # specs) params =
     (case normalize_param name spec (go_get params name) of
        Inl err \<Rightarrow> Inl err
      | Inr None \<Rightarrow> normalize_params specs params
      | Inr (Some v) \<Rightarrow> normalize_params specs (go_put name v params))"

text \<open>\<open>None\<close> is a nil map.\<close>

definition normalizeParams :: "gmap option \<Rightarrow> ContractSpec option \<Rightarrow> gmap option result" where
  "normalizeParams params cs =
     (case cs of
        None \<Rightarrow> Inr params
      | Some c \<Rightarrow>
          if ct_Params c = [] then Inr params
          else (case normalize_params (ct_Params c) (case params of None \<Rightarrow> [] | Some p \<Rightarrow> p) of
                  Inl err \<Rightarrow> Inl err
                | Inr p \<Rightarrow> Inr (Some p)))"

subsection \<open>The resolver\<close>

text \<open>
  The graph: the sources that have fields of the given semantics, the tools behind the given configuration keys, and the order in
  which a loop over the sources found visits them.
\<close>

record graph_querier =
  gq_sources :: "string list \<Rightarrow> gmap list result"
  gq_tools :: "string list \<Rightarrow> gmap list result"
  gq_order :: "string list \<Rightarrow> string list"

definition zero_plan :: "string \<Rightarrow> TablePlan" where
  "zero_plan table =
     \<lparr>tp_Table = table, tp_Source = [], tp_Backend = [], tp_FetchMode = [], tp_MCPTool = [], tp_MCPServer = [], tp_Query = [],
      tp_Fields = [], tp_Optional = False, tp_ResponseFormat = [], tp_ResponseAdapter = []\<rparr>"

definition column_type_of :: "TableSpec \<Rightarrow> string \<Rightarrow> string" where
  "column_type_of spec col =
     (case map_of (tb_Columns spec) col of None \<Rightarrow> ''VARCHAR'' | Some c \<Rightarrow> if cl_Type c \<noteq> [] then cl_Type c else ''VARCHAR'')"

definition mapped_fields :: "TableSpec \<Rightarrow> SourceBinding \<Rightarrow> ResolvedField list" where
  "mapped_fields spec sb =
     map (\<lambda>(col, src). \<lparr>rf_SourceField = src, rf_TargetColumn = col, rf_Semantic = [], rf_ColumnType = column_type_of spec col\<rparr>) (sb_FieldMap sb)"

text \<open>Columns that the field map leaves out and an override of their semantic names a field for.\<close>

definition override_fields :: "TableSpec \<Rightarrow> string list \<Rightarrow> (string \<times> string) list \<Rightarrow> ResolvedField list" where
  "override_fields spec mapped overrides =
     List.map_filter (\<lambda>(col, c).
       if col \<in> set mapped \<or> cl_Semantic c = [] then None
       else case map_of overrides (cl_Semantic c) of
              None \<Rightarrow> None
            | Some src \<Rightarrow> Some \<lparr>rf_SourceField = src, rf_TargetColumn = col, rf_Semantic = cl_Semantic c,
                            rf_ColumnType = (if cl_Type c \<noteq> [] then cl_Type c else ''VARCHAR'')\<rparr>)
       (tb_Columns spec)"

definition adapter_warnings :: "string \<Rightarrow> SourceBinding \<Rightarrow> string list" where
  "adapter_warnings table sb =
     (if FetchModeOrDefault sb = gateway_mode \<and> sb_ResponseFormat sb = [] \<and> sb_ResponseAdapter sb = [] \<and> sb_MCPTool sb \<noteq> [] \<and>
         contains (ToLower (sb_MCPTool sb)) ''tabular_text''
      then [''table '' @ quote table @ '': fracta_mcp_gateway binding targets '' @ quote (sb_MCPTool sb) @
              '' which may return non-JSON output; consider adding response_adapter: tabular_text or using fetch_mode: mcp'']
      else [])"

definition resolveFromBinding :: "string \<Rightarrow> TableSpec \<Rightarrow> SourceBinding \<Rightarrow> (string \<times> string) list \<Rightarrow> TablePlan \<times> string list" where
  "resolveFromBinding table spec sb overrides =
     (let direct = mapped_fields spec sb
      in ((zero_plan table)
            \<lparr>tp_Backend := sb_Backend sb, tp_FetchMode := FetchModeOrDefault sb, tp_MCPTool := sb_MCPTool sb, tp_MCPServer := sb_MCPServer sb,
             tp_Query := (if sb_QueryTemplate sb \<noteq> [] then sb_QueryTemplate sb else sb_Index sb),
             tp_Fields := direct @ override_fields spec (map rf_TargetColumn direct) overrides,
             tp_ResponseFormat := sb_ResponseFormat sb, tp_ResponseAdapter := sb_ResponseAdapter sb\<rparr>,
          adapter_warnings table sb))"

text \<open>A value of a record that counts as present, as text.\<close>

definition present :: "gmap \<Rightarrow> string \<Rightarrow> string option" where
  "present rec k = (let v = go_get rec k in if v \<noteq> GNil \<and> fmt_v v \<noteq> ''<nil>'' then Some (fmt_v v) else None)"

definition records_of :: "gmap list \<Rightarrow> string \<Rightarrow> gmap list" where
  "records_of recs src = filter (\<lambda>rec. fmt_v (go_get rec ''source'') = src) recs"

text \<open>The source with the most records; the first such of the loop.\<close>

definition best_source :: "(string list \<Rightarrow> string list) \<Rightarrow> gmap list \<Rightarrow> string \<times> gmap list" where
  "best_source order recs =
     foldl (\<lambda>best src. if length (records_of recs src) > length (snd best) then (src, records_of recs src) else best) ([], [])
       (order (remdups (map (\<lambda>rec. fmt_v (go_get rec ''source'')) recs)))"

definition with_backend :: "gmap list \<Rightarrow> TablePlan \<Rightarrow> TablePlan" where
  "with_backend recs tp =
     (case find (\<lambda>rec. present rec ''backend'' \<noteq> None) recs of
        None \<Rightarrow> tp
      | Some rec \<Rightarrow>
          (let tp1 = tp\<lparr>tp_Backend := fmt_v (go_get rec ''backend'')\<rparr>
           in case present rec ''store_uri'' of None \<Rightarrow> tp1 | Some uri \<Rightarrow> tp1\<lparr>tp_Query := uri\<rparr>))"

definition with_tool :: "graph_querier \<Rightarrow> gmap list \<Rightarrow> TablePlan \<Rightarrow> TablePlan" where
  "with_tool gq recs tp =
     (let keys = List.map_filter (\<lambda>rec. present rec ''config_key'') recs
      in if keys = [] then tp
         else case gq_tools gq keys of
                Inl _ \<Rightarrow> tp
              | Inr [] \<Rightarrow> tp
              | Inr (first # _) \<Rightarrow>
                  tp\<lparr>tp_MCPTool := fmt_v (go_get first ''tool''), tp_MCPServer := fmt_v (go_get first ''mcp_server''), tp_Backend := ''mcp''\<rparr>)"

definition fields_by_semantic :: "gmap list \<Rightarrow> (string \<times> string) list" where
  "fields_by_semantic recs = foldl (\<lambda>m rec. go_put (fmt_v (go_get rec ''semantic'')) (fmt_v (go_get rec ''field'')) m) [] recs"

definition resolveFromGraph :: "graph_querier \<Rightarrow> string \<Rightarrow> TableSpec \<Rightarrow> TablePlan result" where
  "resolveFromGraph gq table spec =
     (let semantics = filter (\<lambda>s. s \<noteq> []) (map (\<lambda>(_, c). cl_Semantic c) (tb_Columns spec))
      in if semantics = [] then Inl (ErrMsg ''no semantic tags on columns -- cannot auto-resolve'')
         else case gq_sources gq semantics of
                Inl err \<Rightarrow> Inl (ErrMsg (''graph query: '' @ error_string err))
              | Inr [] \<Rightarrow> Inl (ErrMsg (''no domain sources found with semantics '' @ fmt_v (GList (map GStr semantics))))
              | Inr recs \<Rightarrow>
                  (case best_source (gq_order gq) recs of
                     (src, best) \<Rightarrow>
                       Inr ((with_tool gq best (with_backend best ((zero_plan table)\<lparr>tp_Source := src\<rparr>)))
                              \<lparr>tp_Fields := override_fields spec [] (fields_by_semantic best)\<rparr>)))"

definition resolveTable :: "graph_querier \<Rightarrow> string \<Rightarrow> TableSpec \<Rightarrow> BindingSpec option \<Rightarrow> (TablePlan \<times> string list) result" where
  "resolveTable gq table spec bs =
     (let auto = (case resolveFromGraph gq table spec of Inl e \<Rightarrow> Inl e | Inr tp \<Rightarrow> Inr (tp, []))
      in case bs of
           None \<Rightarrow> auto
         | Some b \<Rightarrow>
             (case map_of (bs_SourceBindings b) table of
                None \<Rightarrow> auto
              | Some sb \<Rightarrow> Inr (resolveFromBinding table spec sb (case map_of (bs_FieldOverrides b) table of None \<Rightarrow> [] | Some o1 \<Rightarrow> o1))))"

fun resolve_tables :: "graph_querier \<Rightarrow> BindingSpec option \<Rightarrow> (string \<times> TableSpec) list \<Rightarrow> (TablePlan list \<times> string list) result" where
  "resolve_tables gq bs [] = Inr ([], [])"
| "resolve_tables gq bs ((table, spec) # rest) =
     (case resolveTable gq table spec bs of
        Inl err \<Rightarrow>
          if tb_Optional spec
          then (case resolve_tables gq bs rest of
                  Inl e \<Rightarrow> Inl e
                | Inr (tps, ws) \<Rightarrow> Inr (tps, (''optional table '' @ quote table @ '': '' @ error_string err) # ws))
          else Inl (ErrMsg (''resolve table '' @ quote table @ '': '' @ error_string err))
      | Inr (tp, warnings) \<Rightarrow>
          (case resolve_tables gq bs rest of
             Inl e \<Rightarrow> Inl e
           | Inr (tps, ws) \<Rightarrow> Inr (tp\<lparr>tp_Optional := tb_Optional spec\<rparr> # tps, warnings @ ws)))"

record ResolutionPlan =
  rn_Strategy :: string
  rn_Tables :: "TablePlan list"
  rn_Warnings :: "string list"

definition Resolve :: "graph_querier \<Rightarrow> ContractSpec \<Rightarrow> BindingSpec option \<Rightarrow> ResolutionPlan result" where
  "Resolve gq cs bs =
     (case resolve_tables gq bs (ct_Tables cs) of
        Inl err \<Rightarrow> Inl err
      | Inr (tps, ws) \<Rightarrow> Inr \<lparr>rn_Strategy = ct_Name cs, rn_Tables = tps, rn_Warnings = ws\<rparr>)"

end
