(* ===== verification/Fetcher.thy ===== *)
theory Fetcher
  imports FetchResponse Pool
begin

text \<open>
  \<open>MCPFetcher\<close> of \<open>loaders/mcp_fetcher.go\<close>: one call, or a loop of calls page by page, whose items are written to
  the table's Parquet file. The caller of tools, its servers included, is an argument with a state of its own;
  \<open>Pool.CallTool\<close> is the one the program uses. Durations and sizes of files are not modelled.
\<close>

text \<open>
  \<open>fx_budget n\<close>: the five minutes are over, or the fetch is cancelled, before page \<open>n\<close>. A page's own timeout is an
  error of \<open>fx_call\<close>. \<open>fx_path\<close> is the absolute path of a table's file.
\<close>

record 's fetch_env = decode_env +
  fx_call :: "string \<Rightarrow> string \<Rightarrow> gmap option \<Rightarrow> 's \<Rightarrow> 's \<times> ToolResult result"
  fx_adapters :: "(string \<times> ResponseAdapter) list"
  fx_path :: "string \<Rightarrow> string \<Rightarrow> string \<Rightarrow> string"
  fx_budget :: "nat \<Rightarrow> bool"

definition defaultMCPMaxRows :: int where "defaultMCPMaxRows = 10000"

definition DefaultChunkSize :: nat where "DefaultChunkSize = 10000"

definition row_cap :: "MCPFetchOpts \<Rightarrow> int" where
  "row_cap opts = (if fo_MaxRows opts \<le> 0 then defaultMCPMaxRows else fo_MaxRows opts)"

definition table_path :: "'s fetch_env \<Rightarrow> MCPFetchOpts \<Rightarrow> string" where
  "table_path env opts = fx_path env (fo_StagingDir opts) (fo_RunID opts) (fo_Table opts)"

definition remove_file :: "string \<Rightarrow> file_store \<Rightarrow> file_store" where
  "remove_file path fs = fs(path := None)"

subsection \<open>\<open>Fetch\<close>\<close>

text \<open>The row groups of one response, written and flushed chunk by chunk.\<close>

function write_chunks ::
    "write_faults \<Rightarrow> (gmap list \<Rightarrow> parquet_row list) \<Rightarrow> nat \<Rightarrow> gmap list \<Rightarrow> StreamingParquetWriter \<Rightarrow> StreamingParquetWriter result" where
  "write_chunks flt build n items w =
     (if items = [] then Inr w
      else case WriteRows flt n (build (take DefaultChunkSize items)) w of
             Inl err \<Rightarrow> Inl (ErrMsg (''write batch: '' @ error_string err))
           | Inr w1 \<Rightarrow>
               (case Flush flt n w1 of
                  Inl err \<Rightarrow> Inl (ErrMsg (''flush batch: '' @ error_string err))
                | Inr w2 \<Rightarrow> write_chunks flt build (Suc n) (drop DefaultChunkSize items) w2))"
  by pat_completeness auto
termination
  by (relation "measure (\<lambda>(_, _, _, items, _). length items)") (auto simp: DefaultChunkSize_def)

declare write_chunks.simps [simp del]

text \<open>The writer of a table, from the directory to the created file.\<close>

definition open_table ::
    "'s fetch_env \<Rightarrow> write_faults \<Rightarrow> MCPFetchOpts \<Rightarrow> file_store \<Rightarrow> file_store \<times> StreamingParquetWriter result" where
  "open_table env flt opts fs =
     (case wf_mkdir flt of
        Some err \<Rightarrow> (fs, Inl (ErrMsg (''create run dir: '' @ error_string err)))
      | None \<Rightarrow>
          (case NewStreamingParquetWriter flt (table_path env opts) fs of
             (fs1, Inl err) \<Rightarrow> (fs1, Inl (ErrMsg (''create parquet writer: '' @ error_string err)))
           | (fs1, Inr w) \<Rightarrow> (fs1, Inr w)))"

text \<open>\<open>Close\<close> at the end of a fetch that succeeded.\<close>

definition close_table ::
    "write_faults \<Rightarrow> StreamingParquetWriter \<Rightarrow> file_store \<Rightarrow> file_store \<times> LoadResult result" where
  "close_table flt w fs =
     (case CloseWriter flt w fs of
        (fs1, Inl err) \<Rightarrow> (remove_file (pw_path w) fs1, Inl (ErrMsg (''close writer: '' @ error_string err)))
      | (fs1, Inr _) \<Rightarrow>
          (fs1, Inr \<lparr>lr_ParquetPath = pw_path w, lr_RowCount = pw_rows w, lr_RowGroups = pw_groups w, lr_Partial = False,
             lr_PartialError = [], lr_PagesCompleted = 0\<rparr>))"

definition Fetch ::
    "'s fetch_env \<Rightarrow> write_faults \<Rightarrow> MCPFetchOpts \<Rightarrow> 's \<Rightarrow> file_store \<Rightarrow> 's \<times> file_store \<times> LoadResult result" where
  "Fetch env flt opts s fs =
     (case fx_call env (fo_Server opts) (fo_Tool opts) (fo_Args opts) s of
        (s1, Inl err) \<Rightarrow>
          (s1, fs, Inl (ErrMsg (''MCP call '' @ fo_Server opts @ ''/'' @ fo_Tool opts @ '': '' @ error_string err)))
      | (s1, Inr r) \<Rightarrow>
          if tr_IsError r
          then (s1, fs, Inl (ErrMsg (''MCP tool error from '' @ fo_Server opts @ ''/'' @ fo_Tool opts @ '': '' @ tr_Text r)))
          else
            (case parseResponse env (fx_adapters env) opts (fo_SingleItem opts) (tr_Text r) of
               Inl err \<Rightarrow> (s1, fs, Inl err)
             | Inr (items0, _) \<Rightarrow>
                 (let items = take (nat (row_cap opts)) items0;
                      sf = snd (BuildSchema (toStagingFields (fo_Fields opts)))
                  in case open_table env flt opts fs of
                       (fs1, Inl err) \<Rightarrow> (s1, fs1, Inl err)
                     | (fs1, Inr w) \<Rightarrow>
                         (case write_chunks flt (BuildRows env sf) 0 items w of
                            Inl err \<Rightarrow> (s1, remove_file (table_path env opts) fs1, Inl err)
                          | Inr w1 \<Rightarrow> (s1, close_table flt w1 fs1)))))"

subsection \<open>\<open>FetchPaginated\<close>\<close>

definition page_size :: "PaginationConfig \<Rightarrow> int" where
  "page_size pg = (if pg_PageSize pg \<le> 0 then 100 else pg_PageSize pg)"

definition cloneArgs :: "gmap option \<Rightarrow> gmap" where
  "cloneArgs args = (case args of None \<Rightarrow> [] | Some a \<Rightarrow> a)"

definition put_param :: "string \<Rightarrow> gval \<Rightarrow> gmap \<Rightarrow> gmap" where
  "put_param k v args = (if k = [] then args else go_put k v args)"

definition page_args :: "MCPFetchOpts \<Rightarrow> PaginationConfig \<Rightarrow> nat \<Rightarrow> string \<Rightarrow> gmap" where
  "page_args opts pg pageNum cursor =
     (let args = cloneArgs (fo_Args opts)
      in if pg_Mode pg = ''offset''
         then put_param (pg_LimitParam pg) (GInt (page_size pg)) (put_param (pg_OffsetParam pg) (GInt (int pageNum * page_size pg)) args)
         else if pg_Mode pg = ''cursor''
         then (let a = put_param (pg_LimitParam pg) (GInt (page_size pg)) args
               in if 0 < pageNum then put_param (pg_CursorParam pg) (GStr cursor) a else a)
         else args)"

text \<open>The cursor of the next page; \<open>None\<close> sets \<open>done\<close>.\<close>

definition next_cursor :: "PaginationConfig \<Rightarrow> gval \<Rightarrow> string option" where
  "next_cursor pg parsed =
     (case parsed of
        GMap m \<Rightarrow>
          if pg_NextCursorPath pg = [] then None
          else (case ExtractField m (pg_NextCursorPath pg) of
                  GStr s \<Rightarrow> if s = [] then None else Some s
                | _ \<Rightarrow> None)
      | _ \<Rightarrow> None)"

text \<open>How the loop ends: \<open>PageFailed\<close> has the rows and pages that were completed, and the error.\<close>

datatype page_end = PagesDone StreamingParquetWriter | PageFailed StreamingParquetWriter int nat string

text \<open>One page's answer: its items, the envelope, or why the page failed.\<close>

definition read_page ::
    "'s fetch_env \<Rightarrow> MCPFetchOpts \<Rightarrow> PaginationConfig \<Rightarrow> nat \<Rightarrow> string \<Rightarrow> 's \<Rightarrow> 's \<times> (string + gmap list \<times> gval)" where
  "read_page env opts pg pageNum cursor s =
     (let page = itoa (int pageNum)
      in case fx_call env (fo_Server opts) (fo_Tool opts) (Some (page_args opts pg pageNum cursor)) s of
           (s1, Inl err) \<Rightarrow> (s1, Inl (''MCP page '' @ page @ '': '' @ error_string err))
         | (s1, Inr r) \<Rightarrow>
             if tr_IsError r then (s1, Inl (''MCP tool error page '' @ page @ '': '' @ tr_Text r))
             else (case parseResponse env (fx_adapters env) opts False (tr_Text r) of
                     Inl err \<Rightarrow> (s1, Inl (''parse page '' @ page @ '': '' @ error_string err))
                   | Inr x \<Rightarrow> (s1, Inr x)))"

text \<open>One page's rows, written and flushed.\<close>

definition write_page ::
    "write_faults \<Rightarrow> nat \<Rightarrow> parquet_row list \<Rightarrow> StreamingParquetWriter \<Rightarrow> StreamingParquetWriter \<times> string option" where
  "write_page flt pageNum rows w =
     (case WriteRows flt pageNum rows w of
        Inl err \<Rightarrow> (w, Some (''write page '' @ itoa (int pageNum) @ '': '' @ error_string err))
      | Inr w1 \<Rightarrow>
          (case Flush flt pageNum w1 of
             Inl err \<Rightarrow> (w1, Some (''flush page '' @ itoa (int pageNum) @ '': '' @ error_string err))
           | Inr w2 \<Rightarrow> (w2, None)))"

text \<open>
  One round of the loop: it stops, or goes on with the cursor, the rows and the writer it then has.
\<close>

datatype page_round = Stop page_end | Next string int StreamingParquetWriter

definition one_page ::
    "'s fetch_env \<Rightarrow> write_faults \<Rightarrow> MCPFetchOpts \<Rightarrow> PaginationConfig \<Rightarrow> nat \<Rightarrow> string \<Rightarrow> int \<Rightarrow> StreamingParquetWriter \<Rightarrow> 's \<Rightarrow>
     's \<times> page_round" where
  "one_page env flt opts pg pageNum cursor totalRows w s =
     (if fx_budget env pageNum then (s, Stop (PagesDone w))
      else
        case read_page env opts pg pageNum cursor s of
          (s1, Inl msg) \<Rightarrow> (s1, Stop (PageFailed w totalRows pageNum msg))
        | (s1, Inr (items, parsed)) \<Rightarrow>
            if items = [] \<or> row_cap opts - totalRows \<le> 0 then (s1, Stop (PagesDone w))
            else
              let page = take (nat (row_cap opts - totalRows)) items;
                  rows = BuildRows env (snd (BuildSchema (toStagingFields (fo_Fields opts)))) page;
                  total1 = totalRows + int (length page)
              in case write_page flt pageNum rows w of
                   (w1, Some msg) \<Rightarrow> (s1, Stop (PageFailed w1 totalRows pageNum msg))
                 | (w1, None) \<Rightarrow>
                     if row_cap opts \<le> total1 \<or> int (length page) < page_size pg then (s1, Stop (PagesDone w1))
                     else if pg_Mode pg = ''cursor''
                     then (case next_cursor pg parsed of
                             None \<Rightarrow> (s1, Stop (PagesDone w1))
                           | Some c \<Rightarrow> (s1, Next c total1 w1))
                     else (s1, Next cursor total1 w1))"

lemma one_page_progress:
  assumes "one_page env flt opts pg n cursor t w s = (s1, Next c t1 w1)"
  shows "t < t1 \<and> t1 < row_cap opts \<and> t + page_size pg \<le> t1"
  using assms
  by (auto simp: one_page_def Let_def page_size_def split: if_splits prod.splits sum.splits option.splits)

function fetch_pages ::
    "'s fetch_env \<Rightarrow> write_faults \<Rightarrow> MCPFetchOpts \<Rightarrow> PaginationConfig \<Rightarrow> nat \<Rightarrow> string \<Rightarrow> int \<Rightarrow> StreamingParquetWriter \<Rightarrow> 's \<Rightarrow>
     's \<times> page_end" where
  "fetch_pages env flt opts pg pageNum cursor totalRows w s =
     (case one_page env flt opts pg pageNum cursor totalRows w s of
        (s1, Stop e) \<Rightarrow> (s1, e)
      | (s1, Next c total1 w1) \<Rightarrow> fetch_pages env flt opts pg (Suc pageNum) c total1 w1 s1)"
  by pat_completeness auto
termination
  by (relation "measure (\<lambda>(_, _, opts, _, _, _, t, _, _). nat (row_cap opts - t))") (auto dest!: one_page_progress [OF sym])

declare fetch_pages.simps [simp del]

definition buildPartialResult :: "StreamingParquetWriter \<Rightarrow> int \<Rightarrow> nat \<Rightarrow> string \<Rightarrow> LoadResult" where
  "buildPartialResult w totalRows pagesCompleted partialErr =
     \<lparr>lr_ParquetPath = pw_path w, lr_RowCount = totalRows, lr_RowGroups = pw_groups w, lr_Partial = True,
      lr_PartialError = partialErr, lr_PagesCompleted = int pagesCompleted\<rparr>"

definition non_json :: "MCPFetchOpts \<Rightarrow> bool" where
  "non_json opts \<longleftrightarrow> fo_ResponseFormat opts = ''csv'' \<or> fo_ResponseFormat opts = ''ndjson'' \<or> fo_ResponseAdapter opts \<noteq> []"

text \<open>The end of a paginated fetch.\<close>

definition end_pages ::
    "write_faults \<Rightarrow> page_end \<Rightarrow> file_store \<Rightarrow> file_store \<times> LoadResult result" where
  "end_pages flt e fs =
     (case e of
        PagesDone w \<Rightarrow> close_table flt w fs
      | PageFailed w totalRows n msg \<Rightarrow>
          (let fs1 = fst (CloseWriter flt w fs)
           in if 0 < totalRows then (fs1, Inr (buildPartialResult w totalRows n msg))
              else (remove_file (pw_path w) fs1, Inl (ErrMsg msg))))"

definition FetchPaginated ::
    "'s fetch_env \<Rightarrow> write_faults \<Rightarrow> MCPFetchOpts \<Rightarrow> PaginationConfig \<Rightarrow> 's \<Rightarrow> file_store \<Rightarrow> 's \<times> file_store \<times> LoadResult result" where
  "FetchPaginated env flt opts pg s fs =
     (if pg_Mode pg = ''cursor'' \<and> non_json opts
      then (s, fs, Inl (ErrMsg (''cursor pagination is incompatible with non-JSON response format/adapter (format='' @
              quote (fo_ResponseFormat opts) @ '', adapter='' @ quote (fo_ResponseAdapter opts) @ '')'')))
      else case open_table env flt opts fs of
             (fs1, Inl err) \<Rightarrow> (s, fs1, Inl err)
           | (fs1, Inr w) \<Rightarrow>
               (case fetch_pages env flt opts pg 0 [] 0 w s of
                  (s1, e) \<Rightarrow> (s1, end_pages flt e fs1)))"

end
