(* ===== verification/StagingTools.thy ===== *)
theory StagingTools
  imports Staging Sidecar
begin

text \<open>
  The MCP tools of staged strategy runs, \<open>mcpserver/strategy_tools.go\<close>: \<open>strategy_run\<close> called again with
  a run's identifier (\<open>handleRunReentry\<close>), \<open>strategy_stage\<close>, \<open>strategy_stage_status\<close>, and the tables a new
  run starts with. A tool result is \<open>Inl\<close> of the error's text or \<open>Inr\<close> of the response. JSON values
  are their texts; recording a run in the graph database is not modelled.
\<close>

subsection \<open>Responses and environment\<close>

record resolvePending =
  pn_Table :: string
  pn_Backend :: string
  pn_FetchMode :: string
  pn_MCPTool :: string
  pn_MCPServer :: string
  pn_QueryHint :: string
  pn_Fields :: "ResolvedField list"
  pn_StageInstructions :: string

record resolveStaged =
  rs_Table :: string
  rs_Backend :: string
  rs_FetchMode :: string
  rs_RowsStaged :: int
  rs_ParquetPath :: string
  rs_Fields :: "ResolvedField list"

record tableProgress =
  tg_Status :: string
  tg_RowsStaged :: int
  tg_PagesCompleted :: int
  tg_Partial :: bool
  tg_Error :: string

record strategyRunResponse =
  rp_Status :: string
  rp_SessionID :: string
  rp_Result :: "string option"
  rp_PartialResults :: "string option"
  rp_PartialResultsTruncated :: bool
  rp_OmittedSteps :: "string list"
  rp_Trace :: "string option"
  rp_Error :: string
  rp_StructuredError :: "StructuredError option"
  rp_Staged :: "resolveStaged list"
  rp_Pending :: "resolvePending list"
  rp_StagingProgress :: "(string \<times> tableProgress) list"
  rp_Message :: string

definition run_response :: "string \<Rightarrow> string \<Rightarrow> strategyRunResponse" where
  "run_response status sessionID =
     \<lparr>rp_Status = status, rp_SessionID = sessionID, rp_Result = None, rp_PartialResults = None, rp_PartialResultsTruncated = False,
      rp_OmittedSteps = [], rp_Trace = None, rp_Error = [], rp_StructuredError = None, rp_Staged = [], rp_Pending = [], rp_StagingProgress = [],
      rp_Message = []\<rparr>"

record StagingManifestEntry =
  me_Mode :: string
  me_Required :: bool
  me_Staged :: bool
  me_ParquetPath :: string
  me_Columns :: "string list"
  me_Partial :: bool

type_synonym StagingManifest = "(string \<times> StagingManifestEntry) list"

text \<open>
  \<open>gt_run\<close> is the strategy runner; \<open>gt_value\<close> what \<open>json.Unmarshal\<close> makes of a result, \<open>None\<close> for a text
  that is not JSON and for \<open>null\<close>; \<open>gt_trace\<close> the same for a trace; \<open>gt_json\<close> the JSON text of a string.
  Clock readings within one call are one.
\<close>

record tool_env =
  gt_stage :: stage_env
  gt_run :: "string \<Rightarrow> string \<Rightarrow> StagingManifest option \<Rightarrow> string \<Rightarrow> sc_error + RunResult"
  gt_value :: "string \<Rightarrow> string option"
  gt_trace :: "string \<Rightarrow> string option"
  gt_json :: "string \<Rightarrow> string"
  gt_agentTask :: string
  gt_columns :: "string \<Rightarrow> string list result"
  gt_rows :: "string \<Rightarrow> string list list result"
  gt_types :: "string \<Rightarrow> string list result"
  gt_write :: "string \<Rightarrow> string list \<Rightarrow> string list \<Rightarrow> string list list \<Rightarrow> string \<Rightarrow> string result"
  gt_sessionID :: string

text \<open>Of a contract, the tables it requires: whether they are optional, and their columns.\<close>

type_synonym required_tables = "(string \<times> bool \<times> string list) list"

record resolveResult =
  rl_Staged :: "resolveStaged list"
  rl_Pending :: "resolvePending list"
  rl_Native :: "string list"
  rl_Background :: "TablePlan list"
  rl_Errors :: "(string \<times> string) list"
  rl_Warnings :: "string list"

text \<open>
  What a first call of \<open>strategy_run\<close> relies on: whether there is a resolver, the contract a
  strategy's description gives, the normalization of parameters, the resolution of its tables (with
  what it fetches inline), the binding of a table, its serialized fetch plan, and fingerprints.
\<close>

record resolve_env =
  gr_resolver :: bool
  gr_describe :: "string \<Rightarrow> sc_error + required_tables option"
  gr_params :: "string \<Rightarrow> string result"
  gr_normalize :: "string \<Rightarrow> string \<Rightarrow> string result"
  gr_resolve :: "string \<Rightarrow> string \<Rightarrow> resolveResult result"
  gr_binding :: "string \<Rightarrow> (bool \<times> int) option"
  gr_plan :: "string \<Rightarrow> string \<Rightarrow> string"
  gr_fingerprint :: "string \<Rightarrow> string"
  gr_runID :: string

text \<open>\<open>gw_runs\<close> are the calls of the runner; \<open>gw_sessions\<close> the legacy sessions, if there are any.\<close>

record 'd tool_world = "'d stage_world" +
  gw_runs :: "(string \<times> string \<times> StagingManifest option) list"
  gw_sessions :: "session_store option"

subsection \<open>Views of a run\<close>

text \<open>A JSON object of the given fields; \<open>json.Marshal\<close> writes a map's keys in order.\<close>

definition json_object :: "string \<Rightarrow> string" where
  "json_object entries = ''{'' @ entries @ ''}''"

definition key_text :: "tool_env \<Rightarrow> string \<Rightarrow> string \<Rightarrow> string" where
  "key_text env k v = gt_json env k @ '':'' @ v"

definition required_error :: "StagingRun \<Rightarrow> string \<Rightarrow> string \<Rightarrow> string \<Rightarrow> strategyRunResponse" where
  "required_error run errMsg category detail =
     (run_response ''error'' (sg_ID run))
     \<lparr>rp_Error := errMsg, rp_StructuredError := Some ((staging_error errMsg category False)\<lparr>se_Detail := Some detail\<rparr>)\<rparr>"

fun required_errors :: "tool_env \<Rightarrow> StagingRun \<Rightarrow> TableState list \<Rightarrow> strategyRunResponse option" where
  "required_errors env run [] = None"
| "required_errors env run (ts # rest) =
     (if \<not> ts_Required ts then required_errors env run rest
      else if ts_Status ts = TsFailed
      then Some (required_error run (case ts_Error ts of None \<Rightarrow> ''required table '' @ quote (ts_Name ts) @ '' failed'' | Some e \<Rightarrow> se_Message e)
                   ''permanent'' (json_object (key_text env ''table'' (gt_json env (ts_Name ts)))))
      else if ts_Partial ts
      then Some (required_error run (''required table '' @ quote (ts_Name ts) @ '' has partial data'') ''partial''
                   (json_object (key_text env ''rows_staged'' (itoa (ts_RowCount ts)) @ '','' @
                                      key_text env ''table'' (gt_json env (ts_Name ts)))))
      else required_errors env run rest)"

definition checkRequiredTableErrors :: "tool_env \<Rightarrow> StagingRun \<Rightarrow> strategyRunResponse option" where
  "checkRequiredTableErrors env run = required_errors env run (map snd (sg_Tables run))"

definition awaiting_tables :: "StagingRun \<Rightarrow> resolvePending list" where
  "awaiting_tables run =
     map (\<lambda>ts. \<lparr>pn_Table = ts_Name ts, pn_Backend = [], pn_FetchMode = ts_FetchMode ts, pn_MCPTool = [], pn_MCPServer = [], pn_QueryHint = [],
         pn_Fields = [], pn_StageInstructions = []\<rparr>)
       (filter (\<lambda>ts. ts_Status ts = TsAwaitingAgent) (map snd (sg_Tables run)))"

definition table_progress :: "TableState \<Rightarrow> tableProgress" where
  "table_progress ts =
     \<lparr>tg_Status = table_status_string (ts_Status ts), tg_RowsStaged = ts_RowCount ts, tg_PagesCompleted = ts_PagesCompleted ts,
      tg_Partial = ts_Partial ts, tg_Error = (case ts_Error ts of None \<Rightarrow> [] | Some e \<Rightarrow> se_Message e)\<rparr>"

definition buildStagingProgressResponse :: "StagingRun \<Rightarrow> strategyRunResponse" where
  "buildStagingProgressResponse run =
     (run_response ''staging'' (sg_ID run))
     \<lparr>rp_StagingProgress := fold (\<lambda>(_, ts). AList.update (ts_Name ts) (table_progress ts)) (sg_Tables run) [],
      rp_Pending := awaiting_tables run,
      rp_Message := ''Background staging in progress. Poll again shortly.''\<rparr>"

definition buildPendingResponse :: "StagingRun \<Rightarrow> strategyRunResponse" where
  "buildPendingResponse run =
     (let pending = awaiting_tables run
      in (run_response ''pending'' (sg_ID run))
         \<lparr>rp_Pending := pending,
          rp_Message := itoa (int (length pending)) @ '' table(s) require MCP data. Stage using session_id '' @ quote (sg_ID run) @ ''.''\<rparr>)"

definition buildManifestFromRun :: "StagingRun \<Rightarrow> StagingManifest" where
  "buildManifestFromRun run =
     concat (map (\<lambda>(tableName, ts).
       if ts_Status ts = TsStaged
       then [(tableName, \<lparr>me_Mode = [], me_Required = False, me_Staged = True, me_ParquetPath = ts_ParquetPath ts, me_Columns = [], me_Partial = ts_Partial ts\<rparr>)]
       else if ts_Status ts = TsSkipped
       then [(tableName, \<lparr>me_Mode = [], me_Required = False, me_Staged = False, me_ParquetPath = [], me_Columns = [], me_Partial = False\<rparr>)]
       else []) (sg_Tables run))"

definition classifyExecutionError :: "tool_env \<Rightarrow> sc_error \<Rightarrow> string \<Rightarrow> StructuredError" where
  "classifyExecutionError env err strategyName =
     (let msg = sc_error_string err; detail = Some (json_object (key_text env ''strategy'' (gt_json env strategyName)))
      in if as_transport err \<noteq> None
         then \<lparr>se_Message = ''strategy runner unavailable: '' @ msg, se_Category = ''transient'', se_Retryable = True, se_RetryAfterSecs = 5,
               se_Phase = ''execution'', se_Detail = detail\<rparr>
         else if as_restarted err \<noteq> None
         then \<lparr>se_Message = ''strategy runner restarted: '' @ msg, se_Category = ''transient'', se_Retryable = True, se_RetryAfterSecs = 10,
               se_Phase = ''execution'', se_Detail = detail\<rparr>
         else \<lparr>se_Message = ''strategy execution failed: '' @ msg, se_Category = ''permanent'', se_Retryable = False, se_RetryAfterSecs = 0,
               se_Phase = ''execution'', se_Detail = detail\<rparr>)"

definition execution_failure :: "string \<Rightarrow> StructuredError" where
  "execution_failure msg = (staging_error msg ''permanent'' False)\<lparr>se_Phase := ''execution''\<rparr>"

subsection \<open>\<open>strategy_run\<close> for a run that exists\<close>

text \<open>The caller that won the run executes it.\<close>

definition execute_run ::
    "'d staging_ops \<Rightarrow> tool_env \<Rightarrow> string \<Rightarrow> StagingRun \<Rightarrow> 'd tool_world \<Rightarrow> 'd tool_world \<times> strategyRunResponse" where
  "execute_run ops env runID run w =
     (let manifest = Some (buildManifestFromRun run); name = sg_StrategyName run;
          w1 = w\<lparr>gw_runs := gw_runs w @ [(name, sg_Params run, manifest)]\<rparr>;
          emit = emitStrategyEvent (gt_stage env)
      in case gt_run env name (sg_Params run) manifest (gt_agentTask env) of
           Inl runErr \<Rightarrow>
             (let structErr = classifyExecutionError env runErr name;
                  w2 = on_db (\<lambda>d. fst (so_FailRun ops runID (Some structErr) d)) w1
              in (emit ''run_complete'' ''failure'' runID name [(''phase'', ''execution'')] w2,
                  (run_response ''error'' runID)
                  \<lparr>rp_Error := ''strategy run failed: '' @ sc_error_string runErr, rp_StructuredError := Some structErr\<rparr>))
         | Inr res \<Rightarrow>
             (let status = (if rr_Status res = ''ok'' then ''complete'' else rr_Status res);
                  w2 = (if status = ''error'' then on_db (\<lambda>d. fst (so_FailRun ops runID (Some (execution_failure (rr_Error res))) d)) w1 else w1);
                  w3 = on_db (\<lambda>d. fst (so_SetResult ops runID (if status = ''error'' then RsFailed else RsComplete)
                                          (Some (rr_Result res)) (Some (rr_Trace res)) d)) w2;
                  w4 = (if status = ''complete'' then emit ''run_complete'' ''success'' runID name [] w3
                        else if status = ''error'' then emit ''run_complete'' ''failure'' runID name [(''phase'', ''execution'')] w3
                        else w3)
              in (w4, (run_response status runID)
                    \<lparr>rp_Result := gt_value env (rr_Result res), rp_PartialResults := rr_PartialResults res,
                     rp_PartialResultsTruncated := rr_PartialResultsTruncated res, rp_OmittedSteps := rr_OmittedSteps res,
                     rp_Trace := Some (rr_Trace res), rp_Error := rr_Error res,
                     rp_StructuredError := (if status = ''error'' \<and> rr_Error res \<noteq> [] then Some (execution_failure (rr_Error res)) else None)\<rparr>)))"

definition handleRunReentry ::
    "'d staging_ops \<Rightarrow> tool_env \<Rightarrow> string \<Rightarrow> 'd tool_world \<Rightarrow> 'd tool_world \<times> (string + strategyRunResponse)" where
  "handleRunReentry ops env runID w =
     (case so_Get ops runID (gw_db w) of
        (d, Inl err) \<Rightarrow> (w\<lparr>gw_db := d\<rparr>, Inl (''failed to retrieve run '' @ quote runID @ '': '' @ error_string err))
      | (d, Inr None) \<Rightarrow>
          (w\<lparr>gw_db := d\<rparr>,
           Inl (if case gw_sessions w of None \<Rightarrow> False | Some ss \<Rightarrow> sst_Get runID ss \<noteq> None
                then ''run '' @ quote runID @ '' not found in run store (legacy session exists '' @ [CHR 0xE2, CHR 0x80, CHR 0x94] @
                     '' use strategy_stage to complete staging)''
                else ''run '' @ quote runID @ '' not found (expired or invalid)''))
      | (d, Inr (Some run)) \<Rightarrow>
          (let w1 = w\<lparr>gw_db := d\<rparr>
           in case sg_Status run of
                RsComplete \<Rightarrow>
                  (w1, Inr ((run_response ''complete'' runID)
                     \<lparr>rp_Result := Option.bind (sg_Result run) (gt_value env), rp_Trace := Option.bind (sg_Trace run) (gt_trace env)\<rparr>))
              | RsFailed \<Rightarrow>
                  (w1, Inr ((run_response ''error'' runID)
                     \<lparr>rp_StructuredError := sg_Error run, rp_Error := (case sg_Error run of None \<Rightarrow> [] | Some e \<Rightarrow> se_Message e)\<rparr>))
              | RsExecuting \<Rightarrow>
                  (w1, Inr ((run_response ''executing'' runID)\<lparr>rp_Message := ''Strategy is currently executing. Poll again shortly.''\<rparr>))
              | RsStaging \<Rightarrow>
                  (w1, Inr (case checkRequiredTableErrors env run of Some resp \<Rightarrow> resp | None \<Rightarrow> buildStagingProgressResponse run))
              | RsPending \<Rightarrow> (w1, Inr (buildPendingResponse run))
              | RsStaged \<Rightarrow>
                  (case so_CASExecute ops runID d of
                     (d1, Inl err) \<Rightarrow> (w\<lparr>gw_db := d1\<rparr>, Inl (''CAS execute failed: '' @ error_string err))
                   | (d1, Inr won) \<Rightarrow>
                       if \<not> won
                       then (case so_Get ops runID d1 of
                               (d2, x) \<Rightarrow>
                                 (w\<lparr>gw_db := d2\<rparr>,
                                  Inr (case x of
                                         Inr (Some updated) \<Rightarrow>
                                           if sg_Status updated = RsComplete
                                           then (run_response ''complete'' runID)\<lparr>rp_Result := Option.bind (sg_Result updated) (gt_value env)\<rparr>
                                           else (run_response ''executing'' runID)\<lparr>rp_Message := ''Another caller is executing this run. Poll again shortly.''\<rparr>
                                       | _ \<Rightarrow> (run_response ''executing'' runID)\<lparr>rp_Message := ''Another caller is executing this run. Poll again shortly.''\<rparr>)))
                       else (case execute_run ops env runID run (w\<lparr>gw_db := d1\<rparr>) of (w2, resp) \<Rightarrow> (w2, Inr resp)))
              | _ \<Rightarrow> (w1, Inr ((run_response ''staging'' runID)\<lparr>rp_Message := ''Run is initializing.''\<rparr>))))"

subsection \<open>\<open>strategy_stage\<close>\<close>

text \<open>The arguments of the call; an argument that is required and missing is \<open>None\<close>.\<close>

record stage_request =
  sq_table :: "string option"
  sq_columns :: "string option"
  sq_data :: "string option"
  sq_types :: string
  sq_append :: string
  sq_session_id :: string

record strategyStageResponse =
  sp_SessionID :: string
  sp_Table :: string
  sp_Rows :: int
  sp_Columns :: int
  sp_Mode :: string
  sp_Message :: string

definition missing_param :: "string \<Rightarrow> string" where
  "missing_param p = ''missing required parameter: '' @ p"

text \<open>The parsed arguments: table, columns, rows and types.\<close>

definition parse_stage :: "tool_env \<Rightarrow> stage_request \<Rightarrow> string + string \<times> string list \<times> string list list \<times> string list" where
  "parse_stage env q =
     (case sq_table q of
        None \<Rightarrow> Inl (missing_param ''table'')
      | Some table \<Rightarrow>
     (case sq_columns q of
        None \<Rightarrow> Inl (missing_param ''columns'')
      | Some columnsStr \<Rightarrow>
     (case gt_columns env columnsStr of
        Inl err \<Rightarrow> Inl (''invalid columns JSON: '' @ error_string err)
      | Inr columns \<Rightarrow>
     (case sq_data q of
        None \<Rightarrow> Inl (missing_param ''data'')
      | Some dataStr \<Rightarrow>
     (case gt_rows env dataStr of
        Inl err \<Rightarrow> Inl (''invalid data JSON: '' @ error_string err)
      | Inr rows \<Rightarrow>
     (case (if sq_types q \<noteq> [] then gt_types env (sq_types q) else Inr []) of
        Inl err \<Rightarrow> Inl (''invalid types JSON: '' @ error_string err)
      | Inr types \<Rightarrow> Inr (table, columns, rows, types)))))))"

text \<open>Where the table goes: to a run, to a legacy session, or to neither.\<close>

datatype stage_target = ToRun StagingRun | ToSession string | ToNeither

definition resolve_session :: "'d staging_ops \<Rightarrow> tool_env \<Rightarrow> string \<Rightarrow> 'd tool_world \<Rightarrow> 'd tool_world \<times> (string + stage_target)" where
  "resolve_session ops env sessionID w =
     (case (if sessionID \<noteq> [] then so_Get ops sessionID (gw_db w) else (gw_db w, Inr None)) of
        (d, x) \<Rightarrow>
          (let w1 = w\<lparr>gw_db := d\<rparr>
           in case x of
                Inr (Some run) \<Rightarrow> (w1, Inr (ToRun run))
              | _ \<Rightarrow>
                  (case gw_sessions w of
                     None \<Rightarrow> (w1, Inr ToNeither)
                   | Some ss \<Rightarrow>
                       if sessionID \<noteq> []
                       then (case sst_Get sessionID ss of
                               None \<Rightarrow> (w1, Inl (''session '' @ quote sessionID @ '' not found (expired or invalid)''))
                             | Some s \<Rightarrow> (w1, Inr (ToSession (ses_ID s))))
                       else (w1\<lparr>gw_sessions := Some (sst_Create (gt_sessionID env) (gx_now (gt_stage env)) ss)\<rparr>, Inr (ToSession (gt_sessionID env))))))"

definition in_session :: "string \<Rightarrow> (StagingSession \<Rightarrow> StagingSession) \<Rightarrow> 'd tool_world \<Rightarrow> 'd tool_world" where
  "in_session i f w =
     w\<lparr>gw_sessions := map_option (\<lambda>ss. case sst_Get i ss of
           None \<Rightarrow> ss | Some s \<Rightarrow> ss\<lparr>sst_sessions := AList.update i (f s) (sst_sessions ss)\<rparr>) (gw_sessions w)\<rparr>"

definition chunk_state :: "tool_env \<Rightarrow> StagingRun \<Rightarrow> string \<Rightarrow> int \<Rightarrow> TableState" where
  "chunk_state env run table n =
     (let dir = join_path (gx_stagingDir (gt_stage env)) (sg_ID run);
          ts = (zero_table table ''mcp'' True TsStaged)
                 \<lparr>ts_ParquetPath := chunk_glob dir table, ts_RowCount := n, ts_PagesCompleted := 1, ts_CompletedAt := Some (gx_now (gt_stage env))\<rparr>
      in case map_of (sg_Tables run) table of
           None \<Rightarrow> ts
         | Some old \<Rightarrow> ts\<lparr>ts_RowCount := ts_RowCount old + n, ts_PagesCompleted := ts_PagesCompleted old + 1\<rparr>)"

definition stage_tool ::
    "'d staging_ops \<Rightarrow> tool_env \<Rightarrow> stage_request \<Rightarrow> 'd tool_world \<Rightarrow> 'd tool_world \<times> (string + strategyStageResponse)" where
  "stage_tool ops env q w =
     (case parse_stage env q of
        Inl msg \<Rightarrow> (w, Inl msg)
      | Inr (table, columns, rows, types) \<Rightarrow>
          (case resolve_session ops env (sq_session_id q) w of
             (w1, Inl msg) \<Rightarrow> (w1, Inl msg)
           | (w1, Inr target) \<Rightarrow>
               (let now = gx_now (gt_stage env); base = gx_stagingDir (gt_stage env); n = int (length rows);
                    dir = (case target of ToRun run \<Rightarrow> join_path base (sg_ID run) | ToSession i \<Rightarrow> join_path base i | ToNeither \<Rightarrow> base);
                    sid = (case target of ToRun run \<Rightarrow> sg_ID run | ToSession i \<Rightarrow> i | ToNeither \<Rightarrow> []);
                    said = (\<lambda>mode verb. \<lparr>sp_SessionID = sid, sp_Table = table, sp_Rows = n, sp_Columns = int (length columns), sp_Mode = mode,
                       sp_Message = ''Table '' @ quote table @ verb @ '' with '' @ itoa (int (length columns)) @ '' columns and '' @ itoa n @ '' rows.''\<rparr>)
                in if sq_append q = ''true''
                   then (case gt_write env (table @ ''_chunk_'' @ itoa now) columns types rows dir of
                           Inl err \<Rightarrow> (w1, Inl (''strategy stage (chunk) failed: '' @ error_string err))
                         | Inr path \<Rightarrow>
                             ((case target of
                                 ToRun run \<Rightarrow> on_db (\<lambda>d. fst (so_UpdateTable ops (sg_ID run) table (chunk_state env run table n) d)) w1
                               | ToSession i \<Rightarrow> in_session i (ses_PutChunk table path now) w1
                               | ToNeither \<Rightarrow> w1),
                              Inr (said ''chunk'' '' chunk staged'')))
                   else (case gt_write env table columns types rows dir of
                           Inl err \<Rightarrow> (w1, Inl (''strategy stage failed: '' @ error_string err))
                         | Inr path \<Rightarrow>
                             ((case target of
                                 ToRun run \<Rightarrow>
                                   on_db (\<lambda>d. checkAndTransitionRunToStaged ops (sg_ID run)
                                       (fst (so_UpdateTable ops (sg_ID run) table
                                          ((zero_table table ''mcp'' True TsStaged)
                                           \<lparr>ts_ParquetPath := path, ts_RowCount := n, ts_CompletedAt := Some now\<rparr>) d))) w1
                               | ToSession i \<Rightarrow> in_session i (ses_Put table path now) w1
                               | ToNeither \<Rightarrow> w1),
                              Inr (said ''parquet'' '' staged''))))))"

subsection \<open>\<open>strategy_stage_status\<close>\<close>

definition classifyWaitingOn :: "StagingRun \<Rightarrow> TableState \<Rightarrow> string" where
  "classifyWaitingOn run ts =
     (case ts_Status ts of
        TsFetching \<Rightarrow> ''fracta_fetch''
      | TsAwaitingAgent \<Rightarrow> ''agent_action''
      | TsPending \<Rightarrow> if ts_FetchMode ts = gateway_mode then ''fracta_fetch'' else ''agent_action''
      | TsOther s \<Rightarrow> ''none''
      | _ \<Rightarrow> if sg_Status run = RsExecuting then ''execution'' else ''none'')"

record tableStatusInfo =
  ti_Status :: string
  ti_Partial :: bool
  ti_RetryCount :: int
  ti_RowsStaged :: int
  ti_PagesCompleted :: int
  ti_LastError :: string
  ti_WaitingOn :: string
  ti_ResumedFromRestart :: bool

text \<open>The elapsed time is kept in nanoseconds.\<close>

record stageStatusResponse =
  sr_RunID :: string
  sr_Strategy :: string
  sr_Status :: string
  sr_RecoveredFromRestart :: bool
  sr_ResumeCount :: int
  sr_Elapsed :: int
  sr_Tables :: "(string \<times> tableStatusInfo) list"

definition table_status_info :: "StagingRun \<Rightarrow> TableState \<Rightarrow> tableStatusInfo" where
  "table_status_info run ts =
     \<lparr>ti_Status = table_status_string (ts_Status ts), ti_Partial = ts_Partial ts, ti_RetryCount = ts_RetryCount ts,
      ti_RowsStaged = ts_RowCount ts, ti_PagesCompleted = ts_PagesCompleted ts,
      ti_LastError = (case ts_Error ts of None \<Rightarrow> [] | Some e \<Rightarrow> se_Message e),
      ti_WaitingOn = classifyWaitingOn run ts, ti_ResumedFromRestart = ts_ResumedFromRestart ts\<rparr>"

definition stage_status_tool ::
    "'d staging_ops \<Rightarrow> tool_env \<Rightarrow> string option \<Rightarrow> 'd tool_world \<Rightarrow> 'd tool_world \<times> (string + stageStatusResponse)" where
  "stage_status_tool ops env session_id w =
     (case session_id of
        None \<Rightarrow> (w, Inl (missing_param ''session_id''))
      | Some runID \<Rightarrow>
          (case so_Get ops runID (gw_db w) of
             (d, Inl err) \<Rightarrow> (w\<lparr>gw_db := d\<rparr>, Inl (''failed to retrieve run '' @ quote runID @ '': '' @ error_string err))
           | (d, Inr None) \<Rightarrow> (w\<lparr>gw_db := d\<rparr>, Inl (''run '' @ quote runID @ '' not found (expired or invalid)''))
           | (d, Inr (Some run)) \<Rightarrow>
               (w\<lparr>gw_db := d\<rparr>,
                Inr \<lparr>sr_RunID = sg_ID run, sr_Strategy = sg_StrategyName run, sr_Status = run_status_string (sg_Status run),
                     sr_RecoveredFromRestart = (sg_RecoveredAt run \<noteq> None), sr_ResumeCount = sg_ResumeCount run,
                     sr_Elapsed = gx_now (gt_stage env) - sg_CreatedAt run,
                     sr_Tables = map (\<lambda>(name, ts). (name, table_status_info run ts)) (sg_Tables run)\<rparr>)))"

subsection \<open>The tables of a new run\<close>

definition table_required :: "required_tables option \<Rightarrow> string \<Rightarrow> bool" where
  "table_required cs table =
     (case cs of
        None \<Rightarrow> True
      | Some tables \<Rightarrow> (case map_of tables table of None \<Rightarrow> True | Some (optional, _) \<Rightarrow> \<not> optional))"

definition buildInitialTableStates :: "resolveResult option \<Rightarrow> required_tables option \<Rightarrow> (string \<times> TableState) list" where
  "buildInitialTableStates rr cs =
     (case rr of
        None \<Rightarrow> []
      | Some r \<Rightarrow>
          (let t1 = fold (\<lambda>s. AList.update (rs_Table s)
                 ((zero_table (rs_Table s) (rs_FetchMode s) (table_required cs (rs_Table s)) TsStaged)
                  \<lparr>ts_ParquetPath := rs_ParquetPath s, ts_RowCount := rs_RowsStaged s\<rparr>)) (rl_Staged r) [];
               t2 = fold (\<lambda>p. AList.update (pn_Table p) (zero_table (pn_Table p) (pn_FetchMode p) (table_required cs (pn_Table p)) TsAwaitingAgent)) (rl_Pending r) t1
           in fold (\<lambda>tp. AList.update (tp_Table tp) (zero_table (tp_Table tp) gateway_mode (table_required cs (tp_Table tp)) TsPending)) (rl_Background r) t2))"

definition table_columns :: "required_tables \<Rightarrow> string \<Rightarrow> string list" where
  "table_columns tables table = (case map_of tables table of None \<Rightarrow> [] | Some (_, columns) \<Rightarrow> columns)"

definition buildStagingManifest :: "resolveResult option \<Rightarrow> required_tables option \<Rightarrow> StagingManifest option" where
  "buildStagingManifest rr cs =
     (case (rr, cs) of
        (Some r, Some tables) \<Rightarrow>
          (let entry = (\<lambda>mode required staged path table.
                 \<lparr>me_Mode = mode, me_Required = required, me_Staged = staged, me_ParquetPath = path, me_Columns = table_columns tables table, me_Partial = False\<rparr>);
               m1 = fold (\<lambda>s. AList.update (rs_Table s) (entry (rs_FetchMode s) (table_required cs (rs_Table s)) True (rs_ParquetPath s) (rs_Table s))) (rl_Staged r) [];
               m2 = fold (\<lambda>p. AList.update (pn_Table p) (entry (pn_FetchMode p) (table_required cs (pn_Table p)) False [] (pn_Table p))) (rl_Pending r) m1
           in Some (fold (\<lambda>t. AList.update t (entry ''native'' False False [] t)) (rl_Native r) m2))
      | _ \<Rightarrow> None)"

subsection \<open>\<open>strategy_run\<close>\<close>

definition sidecarErrorMessage :: "sc_error \<Rightarrow> string option" where
  "sidecarErrorMessage err =
     (if as_transport err \<noteq> None then Some (''strategy runner unavailable: '' @ sc_error_string err)
      else if as_restarted err \<noteq> None then Some (''strategy runner restarted but still failing: '' @ sc_error_string err)
      else None)"

definition new_run :: "tool_env \<Rightarrow> resolve_env \<Rightarrow> string \<Rightarrow> string \<Rightarrow> RunStatus \<Rightarrow> (string \<times> TableState) list \<Rightarrow> StagingRun" where
  "new_run env re name params status tables =
     \<lparr>sg_ID = gr_runID re, sg_StrategyName = name, sg_Params = params, sg_ParamsFingerprint = gr_fingerprint re params, sg_Status = status,
      sg_Tables = tables, sg_CreatedAt = gx_now (gt_stage env), sg_UpdatedAt = gx_now (gt_stage env), sg_Error = None, sg_Result = None,
      sg_Trace = None, sg_ResumeCount = 0, sg_RecoveredAt = None, sg_ExecutionClaimedAt = None\<rparr>"

text \<open>Tables that have to be fetched in the background: the run is created and their goroutines launched.\<close>

definition dispatch_background ::
    "'d staging_ops \<Rightarrow> tool_env \<Rightarrow> resolve_env \<Rightarrow> string \<Rightarrow> string \<Rightarrow> resolveResult \<Rightarrow> required_tables \<Rightarrow> 'd tool_world \<Rightarrow>
     'd tool_world \<times> strategyRunResponse \<times> TablePlan list" where
  "dispatch_background ops env re name params rr cs w =
     (let runID = gr_runID re; n = length (rl_Background rr);
          run = new_run env re name params RsStaging (buildInitialTableStates (Some rr) (Some cs));
          w1 = on_db (\<lambda>d. fst (so_Create ops run d)) w;
          w2 = emitStrategyEvent (gt_stage env) ''run_created'' ''staging'' runID name [(''tables_background'', itoa (int n))] w1;
          zero = \<lparr>tg_Status = [], tg_RowsStaged = 0, tg_PagesCompleted = 0, tg_Partial = False, tg_Error = []\<rparr>;
          progress = fold (\<lambda>s. AList.update (rs_Table s) (zero\<lparr>tg_Status := ''staged'', tg_RowsStaged := rs_RowsStaged s\<rparr>)) (rl_Staged rr)
                       (fold (\<lambda>tp. AList.update (tp_Table tp) (zero\<lparr>tg_Status := ''fetching''\<rparr>)) (rl_Background rr) [])
      in case startBackgroundStaging ops (gt_stage env) runID name
                (map (\<lambda>tp. (tp, gr_binding re (tp_Table tp), gr_plan re (tp_Table tp) params)) (rl_Background rr)) w2 of
           (w3, launched) \<Rightarrow>
             (w3, (run_response ''staging'' runID)
                \<lparr>rp_Staged := rl_Staged rr, rp_StagingProgress := progress, rp_Pending := rl_Pending rr,
                 rp_Message := itoa (int n) @ '' table(s) staging in background. Poll with session_id '' @ quote runID @ ''.''\<rparr>,
              launched))"

definition dispatch_pending ::
    "'d staging_ops \<Rightarrow> tool_env \<Rightarrow> resolve_env \<Rightarrow> string \<Rightarrow> string \<Rightarrow> resolveResult \<Rightarrow> required_tables \<Rightarrow> resolvePending list \<Rightarrow> 'd tool_world \<Rightarrow>
     'd tool_world \<times> strategyRunResponse" where
  "dispatch_pending ops env re name params rr cs pending w =
     (let runID = gr_runID re; n = itoa (int (length pending));
          run = new_run env re name params RsPending (buildInitialTableStates (Some rr) (Some cs));
          w1 = on_db (\<lambda>d. fst (so_Create ops run d)) w
      in (emitStrategyEvent (gt_stage env) ''run_created'' ''pending'' runID name [(''tables_pending'', n)] w1,
          (run_response ''pending'' runID)
          \<lparr>rp_Staged := rl_Staged rr, rp_Pending := pending,
           rp_Message := n @ '' table(s) require MCP data. Stage using session_id '' @ quote runID @ ''.''\<rparr>))"

text \<open>Everything is there: the strategy is executed at once, without a run in the store.\<close>

definition run_inline ::
    "tool_env \<Rightarrow> string \<Rightarrow> string \<Rightarrow> resolveResult option \<Rightarrow> required_tables option \<Rightarrow> 'd tool_world \<Rightarrow> 'd tool_world \<times> strategyRunResponse" where
  "run_inline env name params rr cs w =
     (let manifest = buildStagingManifest rr cs;
          staged = (case rr of None \<Rightarrow> [] | Some r \<Rightarrow> rl_Staged r);
          w1 = w\<lparr>gw_runs := gw_runs w @ [(name, params, manifest)]\<rparr>;
          emit = emitStrategyEvent (gt_stage env)
      in case gt_run env name params manifest (gt_agentTask env) of
           Inl err \<Rightarrow>
             (emit ''run_complete'' ''failure'' [] name [(''phase'', ''execution''), (''error'', sc_error_string err)] w1,
              (run_response ''error'' [])
              \<lparr>rp_Error := ''strategy run failed: '' @ sc_error_string err, rp_Staged := staged,
               rp_StructuredError := Some (classifyExecutionError env err name)\<rparr>)
         | Inr res \<Rightarrow>
             (let status = (if rr_Status res = ''ok'' then ''complete'' else rr_Status res)
              in ((if status = ''complete'' then emit ''run_complete'' ''success'' [] name [] w1
                   else if status = ''error'' then emit ''run_complete'' ''failure'' [] name [(''phase'', ''execution'')] w1
                   else w1),
                  (run_response status [])
                  \<lparr>rp_Result := gt_value env (rr_Result res), rp_PartialResults := rr_PartialResults res,
                   rp_PartialResultsTruncated := rr_PartialResultsTruncated res, rp_OmittedSteps := rr_OmittedSteps res,
                   rp_Trace := Some (rr_Trace res), rp_Error := rr_Error res, rp_Staged := staged,
                   rp_StructuredError := (if status = ''error'' \<and> rr_Error res \<noteq> [] then Some (execution_failure (rr_Error res)) else None)\<rparr>)))"

text \<open>
  A first call, with a run store. The goroutines launched are returned; the resolver's failure is a
  response of its own.
\<close>

definition resolution_failed :: "error \<Rightarrow> strategyRunResponse" where
  "resolution_failed err =
     (let msg = ''auto-resolve failed: '' @ error_string err
      in (run_response ''error'' [])
         \<lparr>rp_Error := msg, rp_StructuredError := Some ((staging_error msg ''transient'' True)\<lparr>se_Phase := ''resolution''\<rparr>)\<rparr>)"

definition first_call ::
    "'d staging_ops \<Rightarrow> tool_env \<Rightarrow> resolve_env \<Rightarrow> string \<Rightarrow> string \<Rightarrow> 'd tool_world \<Rightarrow> 'd tool_world \<times> (string + strategyRunResponse) \<times> TablePlan list" where
  "first_call ops env re name params w =
     (let inline = (\<lambda>p rr cs. case run_inline env name p rr cs w of (w1, resp) \<Rightarrow> (w1, Inr resp, []))
      in if \<not> gr_resolver re then inline params None None
         else
           (case gr_describe re name of
              Inl err \<Rightarrow>
                (w, Inl (case sidecarErrorMessage err of Some msg \<Rightarrow> msg
                         | None \<Rightarrow> ''strategy '' @ quote name @ '' not found: '' @ sc_error_string err), [])
            | Inr None \<Rightarrow> inline params None None
            | Inr (Some cs) \<Rightarrow>
                (case gr_normalize re name params of
                   Inl err \<Rightarrow> (w, Inl (''invalid parameters: '' @ error_string err), [])
                 | Inr p \<Rightarrow>
                     if cs = [] then inline p None (Some cs)
                     else
                       (case gr_resolve re name p of
                          Inl err \<Rightarrow> (w, Inr (resolution_failed err), [])
                        | Inr rr \<Rightarrow>
                            if rl_Background rr \<noteq> [] \<and> gx_fetcher (gt_stage env)
                            then (case dispatch_background ops env re name p rr cs w of (w1, resp, launched) \<Rightarrow> (w1, Inr resp, launched))
                            else
                              (let actuallyPending = filter (\<lambda>x. table_required (Some cs) (pn_Table x)) (rl_Pending rr)
                               in if actuallyPending \<noteq> []
                                  then (case dispatch_pending ops env re name p rr cs actuallyPending w of (w1, resp) \<Rightarrow> (w1, Inr resp, []))
                                  else inline p (Some rr) (Some cs))))))"

record run_request_args =
  ra_name :: "string option"
  ra_params :: string
  ra_session_id :: string

definition strategy_run_tool ::
    "'d staging_ops \<Rightarrow> tool_env \<Rightarrow> resolve_env \<Rightarrow> run_request_args \<Rightarrow> 'd tool_world \<Rightarrow>
     'd tool_world \<times> (string + strategyRunResponse) \<times> TablePlan list" where
  "strategy_run_tool ops env re q w =
     (case ra_name q of
        None \<Rightarrow> (w, Inl (missing_param ''name''), [])
      | Some name \<Rightarrow>
          (case (if ra_params q \<noteq> [] then gr_params re (ra_params q) else Inr ''null'') of
             Inl err \<Rightarrow> (w, Inl (''invalid params JSON: '' @ error_string err), [])
           | Inr params \<Rightarrow>
               if ra_session_id q \<noteq> []
               then (case handleRunReentry ops env (ra_session_id q) w of (w1, r) \<Rightarrow> (w1, r, []))
               else first_call ops env re name params w))"

end
