(* ===== verification/Resolution.thy ===== *)
theory Resolution
  imports Contract Fetcher StagingTools
begin

text \<open>
  \<open>resolveAndStage\<close> of \<open>mcpserver/strategy_tools.go\<close>: the tables of a plan are fetched inline, left to the agent or the
  strategy, or put off to the background; with the arguments of a fetch (\<open>executeMCPFetch\<close>), their templates, and the plan that is
  kept for a restart (\<open>serializeFetchPlan\<close>). The maps of a binding are shared between the calls that use it: an operation that
  writes to them returns the binding's arguments as they are afterwards. Lists and maps among a call's parameters, which it may write
  to as well, are taken as they were passed.
\<close>

subsection \<open>Templates in arguments\<close>

text \<open>
  \<open>interpolateValue\<close>; a list element that is nil panics, for \<open>reflect.Value.Set\<close> of the zero value does.
\<close>

function interpolateValue :: "gmap \<Rightarrow> gval \<Rightarrow> gval run" where
  "interpolateValue params v =
     (case v of
        GStr s \<Rightarrow> Returns (GStr (case InterpolateSimple s params of Inl _ \<Rightarrow> s | Inr t \<Rightarrow> t))
      | GMap m \<Rightarrow>
          (if \<exists>e\<in>set m. interpolateValue params (snd e) = Panics then Panics
           else Returns (GMap (map (\<lambda>e. (fst e, case interpolateValue params (snd e) of Returns w \<Rightarrow> w | _ \<Rightarrow> GNil)) m)))
      | GList vs \<Rightarrow>
          (if \<exists>w\<in>set vs. w = GNil \<or> interpolateValue params w = Panics then Panics
           else Returns (GList (map (\<lambda>w. case interpolateValue params w of Returns x \<Rightarrow> x | _ \<Rightarrow> GNil) vs)))
      | _ \<Rightarrow> Returns v)"
  by pat_completeness auto
termination
  by (relation "measure (\<lambda>(_, v). size v)")
    (auto simp: less_Suc_eq_le dest: size_list_estimation' [of _ _ _ size] size_list_estimation' [of _ _ _ "size_prod (\<lambda>_. 0) size"])

declare interpolateValue.simps [simp del]

fun interpolateArgs :: "gmap \<Rightarrow> gmap \<Rightarrow> gmap run" where
  "interpolateArgs [] params = Returns []"
| "interpolateArgs ((k, v) # args) params =
     (case interpolateValue params v of
        Returns w \<Rightarrow>
          (case interpolateArgs args params of Returns rest \<Rightarrow> Returns ((k, w) # rest) | Blocks \<Rightarrow> Blocks | Panics \<Rightarrow> Panics)
      | Blocks \<Rightarrow> Blocks
      | Panics \<Rightarrow> Panics)"

text \<open>
  The loop writes into \<open>args\<close>, a copy of the top level; the lists and maps below are the binding's own, and are written in place.
\<close>

definition in_place :: "gmap \<Rightarrow> gmap \<Rightarrow> gmap" where
  "in_place original interpolated =
     map (\<lambda>(k, v). (k, case v of
         GList _ \<Rightarrow> (case map_of interpolated k of Some w \<Rightarrow> w | None \<Rightarrow> v)
       | GMap _ \<Rightarrow> (case map_of interpolated k of Some w \<Rightarrow> w | None \<Rightarrow> v)
       | _ \<Rightarrow> v)) original"

subsection \<open>The options of a fetch\<close>

text \<open>\<open>mcp_args\<close>, with the parameters of the same name over them.\<close>

definition override_args :: "gmap \<Rightarrow> gmap \<Rightarrow> gmap" where
  "override_args margs params = foldl (\<lambda>a (k, v). if map_of margs k = None then a else go_put k v a) margs params"

definition binding_of :: "BindingSpec option \<Rightarrow> string \<Rightarrow> SourceBinding option" where
  "binding_of binding table = (case binding of None \<Rightarrow> None | Some b \<Rightarrow> map_of (bs_SourceBindings b) table)"

definition fetch_fields :: "ResolvedField list \<Rightarrow> (string \<times> string \<times> string) list" where
  "fetch_fields fs =
     map (\<lambda>f. (rf_SourceField f, rf_TargetColumn f, if rf_ColumnType f = [] then ''VARCHAR'' else rf_ColumnType f)) fs"

definition or_else :: "string \<Rightarrow> string \<Rightarrow> string" where
  "or_else s d = (if s \<noteq> [] then s else d)"

text \<open>\<open>parse\<close> is \<open>time.ParseDuration\<close>; a timeout it cannot read is the default one.\<close>

definition binding_timeout :: "(string \<Rightarrow> int option) \<Rightarrow> SourceBinding \<Rightarrow> int" where
  "binding_timeout parse sb =
     (if sb_Timeout sb = [] then 0 else case parse (sb_Timeout sb) of None \<Rightarrow> 0 | Some d \<Rightarrow> d)"

definition fetch_opts ::
    "(string \<Rightarrow> int option) \<Rightarrow> string \<Rightarrow> string \<Rightarrow> TablePlan \<Rightarrow> SourceBinding option \<Rightarrow> gmap \<Rightarrow> MCPFetchOpts" where
  "fetch_opts parse stagingDir runID tp sb args =
     \<lparr>fo_Server = (case sb of None \<Rightarrow> tp_MCPServer tp | Some b \<Rightarrow> or_else (sb_MCPServer b) (tp_MCPServer tp)),
      fo_Tool = (case sb of None \<Rightarrow> tp_MCPTool tp | Some b \<Rightarrow> or_else (sb_MCPTool b) (tp_MCPTool tp)),
      fo_Args = Some args, fo_Fields = fetch_fields (tp_Fields tp),
      fo_ItemsPath = (case sb of None \<Rightarrow> [] | Some b \<Rightarrow> sb_ItemsPath b),
      fo_SingleItem = (case sb of None \<Rightarrow> False | Some b \<Rightarrow> sb_SingleItem b),
      fo_MaxRows = (case sb of None \<Rightarrow> DefaultMaxRows | Some b \<Rightarrow> if sb_MaxRows b > 0 then sb_MaxRows b else DefaultMaxRows),
      fo_Timeout = (case sb of None \<Rightarrow> 0 | Some b \<Rightarrow> binding_timeout parse b),
      fo_StagingDir = stagingDir, fo_Table = tp_Table tp, fo_RunID = runID,
      fo_ResponseFormat = tp_ResponseFormat tp, fo_ResponseAdapter = tp_ResponseAdapter tp\<rparr>"

definition live_args :: "SourceBinding option \<Rightarrow> gmap \<Rightarrow> gmap run" where
  "live_args sb params =
     (let args = (case sb of None \<Rightarrow> [] | Some b \<Rightarrow> override_args (sb_MCPArgs b) params)
      in if params = [] then Returns args else interpolateArgs args params)"

text \<open>
  What \<open>interpolateArgs\<close> leaves in the binding: an argument that a parameter overrides is not the binding's.
\<close>

definition binding_args_after :: "gmap \<Rightarrow> gmap \<Rightarrow> gmap \<Rightarrow> gmap" where
  "binding_args_after margs params interpolated =
     (if params = [] then margs
      else in_place margs (filter (\<lambda>(k, _). map_of params k = None) interpolated))"

subsection \<open>\<open>executeMCPFetch\<close>\<close>

record 's resolve_world =
  ro_server :: 's
  ro_files :: file_store
  ro_binding :: "BindingSpec option"

text \<open>What a resolution relies on: the fetcher's environment, the disk of each table's fetch, and \<open>time.ParseDuration\<close>.\<close>

record 's resolver_env =
  rv_fetch :: "'s fetch_env"
  rv_disk :: "string \<Rightarrow> write_faults"
  rv_duration :: "string \<Rightarrow> int option"
  rv_stagingDir :: string

definition put_args :: "string \<Rightarrow> gmap \<Rightarrow> BindingSpec option \<Rightarrow> BindingSpec option" where
  "put_args table args binding =
     map_option (\<lambda>b. b\<lparr>bs_SourceBindings := map (\<lambda>(t, sb). (t, if t = table then sb\<lparr>sb_MCPArgs := args\<rparr> else sb)) (bs_SourceBindings b)\<rparr>) binding"

definition run_fetch ::
    "'s resolver_env \<Rightarrow> MCPFetchOpts \<Rightarrow> PaginationConfig option \<Rightarrow> 's \<Rightarrow> file_store \<Rightarrow> 's \<times> file_store \<times> LoadResult result" where
  "run_fetch env opts pg s fs =
     (case pg of
        Some p \<Rightarrow> FetchPaginated (rv_fetch env) (rv_disk env (fo_Table opts)) opts p s fs
      | None \<Rightarrow> Fetch (rv_fetch env) (rv_disk env (fo_Table opts)) opts s fs)"

definition executeMCPFetch ::
    "'s resolver_env \<Rightarrow> TablePlan \<Rightarrow> gmap \<Rightarrow> string \<Rightarrow> 's resolve_world \<Rightarrow> ('s resolve_world \<times> resolveStaged result) run" where
  "executeMCPFetch env tp params runID w =
     (let sb = binding_of (ro_binding w) (tp_Table tp)
      in case live_args sb params of
           Returns args \<Rightarrow>
             (let binding = (case sb of None \<Rightarrow> ro_binding w
                    | Some b \<Rightarrow> put_args (tp_Table tp) (binding_args_after (sb_MCPArgs b) params args) (ro_binding w))
              in case run_fetch env (fetch_opts (rv_duration env) (rv_stagingDir env) runID tp sb args)
                        (case sb of None \<Rightarrow> None | Some b \<Rightarrow> sb_Pagination b) (ro_server w) (ro_files w) of
                   (s, fs, r) \<Rightarrow>
                     Returns (w\<lparr>ro_server := s, ro_files := fs, ro_binding := binding\<rparr>,
                       (case r of
                          Inl err \<Rightarrow> Inl (ErrMsg (''MCP fetch failed: '' @ error_string err))
                        | Inr lr \<Rightarrow> Inr \<lparr>rs_Table = tp_Table tp, rs_Backend = tp_Backend tp, rs_FetchMode = gateway_mode,
                            rs_RowsStaged = lr_RowCount lr, rs_ParquetPath = lr_ParquetPath lr, rs_Fields = tp_Fields tp\<rparr>)))
         | Blocks \<Rightarrow> Blocks
         | Panics \<Rightarrow> Panics)"

subsection \<open>Query hints and fetch plans\<close>

definition interpolateQueryHint :: "TablePlan \<Rightarrow> BindingSpec option \<Rightarrow> gmap option \<Rightarrow> string" where
  "interpolateQueryHint tp binding params =
     (let tmpl = (case binding_of binding (tp_Table tp) of
                    None \<Rightarrow> tp_Query tp
                  | Some sb \<Rightarrow> if sb_QueryTemplate sb \<noteq> [] then sb_QueryTemplate sb else tp_Query tp)
      in case params of
           None \<Rightarrow> tmpl
         | Some p \<Rightarrow> if tmpl = [] then tmpl else (case InterpolateSimple tmpl p of Inl _ \<Rightarrow> tmpl | Inr t \<Rightarrow> t))"

text \<open>\<open>int(d.Seconds())\<close>\<close>

definition whole_seconds :: "int \<Rightarrow> int" where
  "whole_seconds d = (if 0 \<le> d then d div second_ns else - (- d div second_ns))"

text \<open>The plan, and the binding's arguments afterwards.\<close>

definition serializeFetchPlan ::
    "(string \<Rightarrow> int option) \<Rightarrow> TablePlan \<Rightarrow> SourceBinding option \<Rightarrow> gmap \<Rightarrow> (gmap \<times> SerializedFetchPlan) run" where
  "serializeFetchPlan parse tp sb params =
     (let base = \<lparr>fp_Server = tp_MCPServer tp, fp_Tool = tp_MCPTool tp, fp_Args = None,
            fp_Fields = map (\<lambda>f. (rf_SourceField f, rf_TargetColumn f, rf_ColumnType f)) (tp_Fields tp),
            fp_ItemsPath = [], fp_SingleItem = False, fp_MaxRows = 0, fp_TimeoutSecs = 0,
            fp_ResponseFormat = tp_ResponseFormat tp, fp_ResponseAdapter = tp_ResponseAdapter tp, fp_Pagination = None\<rparr>
      in case sb of
           None \<Rightarrow> Returns ([], base)
         | Some b \<Rightarrow>
             (case (if params = [] then Returns (sb_MCPArgs b) else interpolateArgs (sb_MCPArgs b) params) of
                Returns args \<Rightarrow>
                  Returns (if params = [] then sb_MCPArgs b else in_place (sb_MCPArgs b) args,
                    base\<lparr>fp_Server := or_else (sb_MCPServer b) (tp_MCPServer tp), fp_Tool := or_else (sb_MCPTool b) (tp_MCPTool tp),
                    fp_Args := Some args, fp_ItemsPath := sb_ItemsPath b, fp_SingleItem := sb_SingleItem b, fp_MaxRows := sb_MaxRows b,
                    fp_TimeoutSecs := whole_seconds (binding_timeout parse b), fp_Pagination := sb_Pagination b\<rparr>)
              | Blocks \<Rightarrow> Blocks
              | Panics \<Rightarrow> Panics))"

subsection \<open>\<open>resolveAndStage\<close>\<close>

definition stage_instructions :: string where
  "stage_instructions = ''Fetch results using the MCP tool above, then call strategy_stage with the mapped columns.''"

definition background_flag :: "SourceBinding option \<Rightarrow> (bool \<times> int) option" where
  "background_flag sb = map_option (\<lambda>b. (sb_Pagination b \<noteq> None, sb_MaxRows b)) sb"

definition pending_table :: "TablePlan \<Rightarrow> BindingSpec option \<Rightarrow> gmap option \<Rightarrow> resolvePending" where
  "pending_table tp binding params =
     \<lparr>pn_Table = tp_Table tp, pn_Backend = tp_Backend tp, pn_FetchMode = ''mcp'', pn_MCPTool = tp_MCPTool tp, pn_MCPServer = tp_MCPServer tp,
      pn_QueryHint = interpolateQueryHint tp binding params, pn_Fields = tp_Fields tp, pn_StageInstructions = stage_instructions\<rparr>"

definition params_map :: "gmap option \<Rightarrow> gmap" where
  "params_map params = (case params of None \<Rightarrow> [] | Some p \<Rightarrow> p)"

text \<open>One table of the plan; \<open>fetcher\<close> tells whether there is a client pool.\<close>

definition dispatch_table ::
    "'s resolver_env \<Rightarrow> bool \<Rightarrow> gmap option \<Rightarrow> string \<Rightarrow> TablePlan \<Rightarrow> resolveResult \<times> 's resolve_world \<Rightarrow> (resolveResult \<times> 's resolve_world) run" where
  "dispatch_table env fetcher params runID tp x =
     (case x of (res, w) \<Rightarrow>
        (let mode = (if tp_FetchMode tp = [] then ''mcp'' else tp_FetchMode tp);
             fail = (\<lambda>msg res. res\<lparr>rl_Errors := rl_Errors res @ [(tp_Table tp, msg)]\<rparr>)
         in if mode = gateway_mode then
              (if \<not> fetcher then Returns (fail ''fracta_mcp_gateway requires MCP client pool (not configured)'' res, w)
               else if needsBackground (background_flag (binding_of (ro_binding w) (tp_Table tp)))
               then Returns (res\<lparr>rl_Background := rl_Background res @ [tp]\<rparr>, w)
               else case executeMCPFetch env tp (params_map params) runID w of
                      Returns (w1, Inl err) \<Rightarrow> Returns (fail (error_string err) res, w1)
                    | Returns (w1, Inr staged) \<Rightarrow> Returns (res\<lparr>rl_Staged := rl_Staged res @ [staged]\<rparr>, w1)
                    | Blocks \<Rightarrow> Blocks
                    | Panics \<Rightarrow> Panics)
            else if mode = ''mcp''
            then Returns (res\<lparr>rl_Pending := rl_Pending res @ [pending_table tp (ro_binding w) params]\<rparr>, w)
            else if mode = ''strategy_native'' \<or> mode = ''native''
            then Returns (res\<lparr>rl_Native := rl_Native res @ [tp_Table tp]\<rparr>, w)
            else Returns (fail (''unknown fetch_mode '' @ quote mode) res, w)))"

fun dispatch_tables ::
    "'s resolver_env \<Rightarrow> bool \<Rightarrow> gmap option \<Rightarrow> string \<Rightarrow> TablePlan list \<Rightarrow> resolveResult \<times> 's resolve_world \<Rightarrow> (resolveResult \<times> 's resolve_world) run" where
  "dispatch_tables env fetcher params runID [] x = Returns x"
| "dispatch_tables env fetcher params runID (tp # tps) x =
     (case dispatch_table env fetcher params runID tp x of
        Returns y \<Rightarrow> dispatch_tables env fetcher params runID tps y
      | Blocks \<Rightarrow> Blocks
      | Panics \<Rightarrow> Panics)"

text \<open>\<open>sel\<close> is the table filter, if there is one; \<open>runID\<close> what the random source gives.\<close>

definition resolveAndStage ::
    "'s resolver_env \<Rightarrow> graph_querier \<Rightarrow> bool \<Rightarrow> ContractSpec \<Rightarrow> gmap option \<Rightarrow> string set option \<Rightarrow> string result \<Rightarrow> 's resolve_world \<Rightarrow>
     ('s resolve_world \<times> resolveResult result) run" where
  "resolveAndStage env gq fetcher cs params sel runID w =
     (case Resolve gq cs (ro_binding w) of
        Inl err \<Rightarrow> Returns (w, Inl (ErrMsg (''resolution failed: '' @ error_string err)))
      | Inr plan \<Rightarrow>
          (case runID of
             Inl err \<Rightarrow> Returns (w, Inl (ErrMsg (''generating run ID: '' @ error_string err)))
           | Inr rid \<Rightarrow>
               (let tables = filter (\<lambda>tp. case sel of None \<Rightarrow> True | Some ts \<Rightarrow> tp_Table tp \<in> ts) (rn_Tables plan);
                    zero = \<lparr>rl_Staged = [], rl_Pending = [], rl_Native = [], rl_Background = [], rl_Errors = [], rl_Warnings = rn_Warnings plan\<rparr>
                in case dispatch_tables env fetcher params rid tables (zero, w) of
                     Returns (res, w1) \<Rightarrow> Returns (w1, Inr res)
                   | Blocks \<Rightarrow> Blocks
                   | Panics \<Rightarrow> Panics)))"

end
