(* ===== verification/FetcherProperties.thy ===== *)
theory FetcherProperties
  imports Fetcher
begin

text \<open>
  What a paginated fetch does: it ends within as many calls as the row limit has pages, it stages a paged source row
  for row, a page that fails leaves the pages before it, and the result describes the file.
\<close>

named_theorems page_intros

lemma page_size_pos: "0 < page_size pg"
  by (simp add: page_size_def)

lemma row_cap_pos: "0 < row_cap opts"
  by (simp add: row_cap_def defaultMCPMaxRows_def)

lemma length_BuildRows: "length (BuildRows env sf xs) = length xs"
  by (simp add: BuildRows_def)

lemma BuildRows_append: "BuildRows env sf (xs @ ys) = BuildRows env sf xs @ BuildRows env sf ys"
  by (simp add: BuildRows_def)

abbreviation sorted_fields :: "MCPFetchOpts \<Rightarrow> FieldMapping list" where
  "sorted_fields opts \<equiv> snd (BuildSchema (toStagingFields (fo_Fields opts)))"

abbreviation rows_of :: "'s fetch_env \<Rightarrow> MCPFetchOpts \<Rightarrow> gmap list \<Rightarrow> parquet_row list" where
  "rows_of env opts xs \<equiv> BuildRows env (sorted_fields opts) xs"

text \<open>A writer that agrees with the rows counted so far.\<close>

definition writer_at :: "string \<Rightarrow> parquet_row list \<Rightarrow> StreamingParquetWriter \<Rightarrow> bool" where
  "writer_at path rows w \<longleftrightarrow> pw_path w = path \<and> pw_flushed w = rows \<and> pw_buffer w = [] \<and> pw_rows w = int (length rows)"

lemma write_page_ok:
  "write_page flt n rows w = (w1, None) \<Longrightarrow> writer_at path done_rows w \<Longrightarrow> writer_at path (done_rows @ rows) w1"
  by (auto simp: write_page_def WriteRows_def Flush_def writer_at_def split: option.splits)

lemma write_page_path: "write_page flt n rows w = (w1, r) \<Longrightarrow> pw_path w1 = pw_path w"
  by (auto simp: write_page_def WriteRows_def Flush_def split: option.splits)

lemma open_table_writer:
  "open_table env flt opts fs = (fs1, Inr w) \<Longrightarrow> writer_at (table_path env opts) [] w \<and> fs1 = fs(table_path env opts \<mapsto> Truncated)"
  by (auto simp: open_table_def NewStreamingParquetWriter_def writer_at_def split: option.splits sum.splits)

lemma open_table_error: "open_table env flt opts fs = (fs1, Inl err) \<Longrightarrow> fs1 = fs"
  by (auto simp: open_table_def NewStreamingParquetWriter_def split: option.splits sum.splits)

lemma close_table_cases:
  assumes "close_table flt w fs = (fs1, r)"
  shows "(\<exists>err. wf_close flt = Some err \<and> fs1 = fs(pw_path w := None) \<and> is_ok r = False) \<or>
    (wf_close flt = None \<and> fs1 = fs(pw_path w \<mapsto> Complete (pw_flushed w @ pw_buffer w)) \<and>
     r = Inr \<lparr>lr_ParquetPath = pw_path w, lr_RowCount = pw_rows w, lr_RowGroups = pw_groups w, lr_Partial = False,
       lr_PartialError = [], lr_PagesCompleted = 0\<rparr>)"
  using assms by (auto simp: close_table_def CloseWriter_def remove_file_def split: option.splits)

subsection \<open>The loop of pages\<close>

lemma one_page_Next:
  assumes "one_page env flt opts pg n cursor t w s = (s1, Next c t1 w1)"
  obtains items parsed where "read_page env opts pg n cursor s = (s1, Inr (items, parsed))" "t < row_cap opts"
    "write_page flt n (rows_of env opts (take (nat (row_cap opts - t)) items)) w = (w1, None)"
    "t1 = t + int (length (take (nat (row_cap opts - t)) items))" "\<not> fx_budget env n"
  using assms
  by (auto simp: one_page_def Let_def split: if_splits prod.splits sum.splits option.splits)

text \<open>The number of calls, for a caller that counts them in its state.\<close>

definition counts_calls :: "('s \<Rightarrow> nat) \<Rightarrow> 's fetch_env \<Rightarrow> bool" where
  "counts_calls cnt env \<longleftrightarrow> (\<forall>server tool args s. cnt (fst (fx_call env server tool args s)) = Suc (cnt s))"

lemma read_page_counts:
  "counts_calls cnt env \<Longrightarrow> cnt (fst (read_page env opts pg n cursor s)) = Suc (cnt s)"
  unfolding counts_calls_def read_page_def Let_def
  by (auto split: prod.splits sum.splits) (metis fst_conv)+

lemma one_page_counts:
  "counts_calls cnt env \<Longrightarrow> cnt (fst (one_page env flt opts pg n cursor t w s)) \<le> Suc (cnt s)"
  using read_page_counts [of cnt env opts pg n cursor s]
  by (auto simp: one_page_def Let_def split: prod.splits sum.splits option.splits)

lemma fetch_pages_counts:
  assumes "counts_calls cnt env" and "t < row_cap opts"
  shows "int (cnt (fst (fetch_pages env flt opts pg n cursor t w s))) \<le> int (cnt s) + (row_cap opts - 1 - t) div page_size pg + 1"
  using assms
proof (induction env flt opts pg n cursor t w s rule: fetch_pages.induct)
  case (1 env flt opts pg n cursor t w s)
  obtain s1 r where o: "one_page env flt opts pg n cursor t w s = (s1, r)" by fastforce
  have c1: "cnt s1 \<le> Suc (cnt s)" using one_page_counts [OF "1.prems"(1)] o by (metis fst_conv)
  show ?case
  proof (cases r)
    case (Stop e)
    have "0 \<le> (row_cap opts - 1 - t) div page_size pg"
      using "1.prems"(2) page_size_pos [of pg] by (simp add: pos_imp_zdiv_nonneg_iff)
    with o Stop c1 show ?thesis by (simp add: fetch_pages.simps [of env flt opts pg n cursor t w s])
  next
    case (Next c t1 w1)
    have lim: "t + page_size pg \<le> t1" "t1 < row_cap opts" using one_page_progress [OF o [unfolded Next]] by auto
    have "(row_cap opts - 1 - t1) div page_size pg \<le> (row_cap opts - 1 - t - page_size pg) div page_size pg"
      using lim page_size_pos [of pg] by (intro zdiv_mono1) auto
    also have "\<dots> = (row_cap opts - 1 - t) div page_size pg - 1"
      using page_size_pos [of pg] div_add_self2 [of "page_size pg" "row_cap opts - 1 - t - page_size pg"] by simp
    finally have "(row_cap opts - 1 - t1) div page_size pg + 1 \<le> (row_cap opts - 1 - t) div page_size pg" by simp
    with "1.IH" [OF o [symmetric] Next "1.prems"(1) lim(2)] c1 o Next show ?thesis
      by (simp add: fetch_pages.simps [of env flt opts pg n cursor t w s])
  qed
qed

text \<open>The writer of the loop counts the rows of the pages that were completed.\<close>

fun end_ok :: "string \<Rightarrow> int \<Rightarrow> page_end \<Rightarrow> bool" where
  "end_ok path cap (PagesDone w) \<longleftrightarrow> (\<exists>rows. writer_at path rows w \<and> int (length rows) \<le> cap)"
| "end_ok path cap (PageFailed w t n msg) \<longleftrightarrow>
     pw_path w = path \<and> 0 \<le> t \<and> t \<le> cap \<and> int (length (pw_flushed w)) = t"

lemma write_page_fail:
  assumes "write_page flt n rows w = (w1, Some msg)" and "writer_at path rs w"
  shows "pw_path w1 = path \<and> pw_flushed w1 = rs"
  using assms by (auto simp: write_page_def WriteRows_def Flush_def writer_at_def split: option.splits)

lemma one_page_ok:
  assumes "one_page env flt opts pg n cursor t w s = (s1, r)" and "writer_at path rs w" "t = int (length rs)" "t < row_cap opts"
  shows "case r of Stop e \<Rightarrow> end_ok path (row_cap opts) e | Next c t1 w1 \<Rightarrow> \<exists>rs'. writer_at path rs' w1 \<and> t1 = int (length rs')"
proof -
  have fin: "\<exists>rows'. writer_at path rows' w1 \<and> int (length rows') = t + int (length xs)"
    if "write_page flt n (rows_of env opts xs) w = (w1, None)" for xs w1
    using write_page_ok [OF that assms(2)] assms(3) by (auto simp: length_BuildRows)
  show ?thesis
  proof (cases "fx_budget env n")
    case True
    with assms show ?thesis by (auto simp: one_page_def intro!: exI [of _ rs])
  next
    case False
    note go = False
    obtain s2 x where rd: "read_page env opts pg n cursor s = (s2, x)" by fastforce
    show ?thesis
    proof (cases x)
      case (Inl msg)
      with assms go rd show ?thesis by (auto simp: one_page_def writer_at_def)
    next
      case (Inr y)
      obtain items parsed where y: "y = (items, parsed)" by fastforce
      let ?page = "take (nat (row_cap opts - t)) items"
      obtain w1 res where wr: "write_page flt n (rows_of env opts ?page) w = (w1, res)" by fastforce
      have len: "int (length ?page) \<le> row_cap opts - t" using assms(4) by simp
      show ?thesis
      proof (cases res)
        case None
        with wr fin obtain rows' where r': "writer_at path rows' w1" "int (length rows') = t + int (length ?page)" by blast
        then have "end_ok path (row_cap opts) (PagesDone w1)" using len by auto
        moreover have "end_ok path (row_cap opts) (PagesDone w)" using assms by auto
        ultimately show ?thesis
          using assms(1) go rd Inr y wr None r'
          by (fastforce simp: one_page_def Let_def split: if_splits option.splits)
      next
        case (Some msg)
        have "pw_path w1 = path \<and> pw_flushed w1 = rs" using write_page_fail wr Some assms(2) by blast
        then have "end_ok path (row_cap opts) (PageFailed w1 t n msg)" using assms by simp
        moreover have "end_ok path (row_cap opts) (PagesDone w)" using assms by auto
        ultimately show ?thesis
          using assms(1) go rd Inr y wr Some by (auto simp: one_page_def Let_def split: if_splits)
      qed
    qed
  qed
qed

lemma fetch_pages_ok:
  assumes "writer_at path rs w" "t = int (length rs)" "t < row_cap opts"
  shows "end_ok path (row_cap opts) (snd (fetch_pages env flt opts pg n cursor t w s))"
  using assms
proof (induction env flt opts pg n cursor t w s arbitrary: rs rule: fetch_pages.induct)
  case (1 env flt opts pg n cursor t w s)
  obtain s1 r where o: "one_page env flt opts pg n cursor t w s = (s1, r)" by fastforce
  note ok = one_page_ok [OF o "1.prems"]
  show ?case
  proof (cases r)
    case (Stop e)
    with o ok show ?thesis by (simp add: fetch_pages.simps [of env flt opts pg n cursor t w s])
  next
    case (Next c t1 w1)
    with ok obtain rs' where rs': "writer_at path rs' w1" "t1 = int (length rs')" by auto
    have "t1 < row_cap opts" using one_page_progress [OF o [unfolded Next]] by simp
    from "1.IH" [OF o [symmetric] Next rs' this] o Next show ?thesis
      by (simp add: fetch_pages.simps [of env flt opts pg n cursor t w s])
  qed
qed

text \<open>What \<open>buildPartialResult\<close> says of the file: the rows of the completed pages come first.\<close>

definition describes :: "MCPFetchOpts \<Rightarrow> file_store \<Rightarrow> LoadResult \<Rightarrow> bool" where
  "describes opts fs lr \<longleftrightarrow>
     0 \<le> lr_RowCount lr \<and> lr_RowCount lr \<le> row_cap opts \<and>
     (case fs (lr_ParquetPath lr) of
        Some (Complete rows) \<Rightarrow> lr_RowCount lr \<le> int (length rows) \<and> (\<not> lr_Partial lr \<longrightarrow> lr_RowCount lr = int (length rows))
      | _ \<Rightarrow> lr_Partial lr)"

text \<open>
  C29 (paginated_result_describes_file): Whatever the server, the file system and the clock do, a paginated fetch
  either ends in an error and leaves no file of its own, or its result's row count is within the row limit and is the number
  of rows in the complete file at its path; only a result marked partial may count fewer rows than the file has, or have a
  file that could not be completed.
\<close>

theorem paginated_result_describes_file:
  "case FetchPaginated env flt opts pg s fs of
     (s', fs', Inl err) \<Rightarrow> fs' = fs \<or> fs' = fs(table_path env opts := None)
   | (s', fs', Inr lr) \<Rightarrow> lr_ParquetPath lr = table_path env opts \<and> describes opts fs' lr"
proof -
  have fin: "case end_pages flt e fs1 of
       (fs', Inl err) \<Rightarrow> fs' = fs(table_path env opts := None)
     | (fs', Inr lr) \<Rightarrow> lr_ParquetPath lr = table_path env opts \<and> describes opts fs' lr"
    if "end_ok (table_path env opts) (row_cap opts) e" "fs1 = fs(table_path env opts \<mapsto> Truncated)" for e fs1
    using that
    by (cases e)
      (auto simp: end_pages_def close_table_def CloseWriter_def remove_file_def describes_def buildPartialResult_def writer_at_def Let_def
        split: option.splits)
  show ?thesis
  proof (cases "pg_Mode pg = ''cursor'' \<and> non_json opts")
    case True
    then show ?thesis by (simp add: FetchPaginated_def)
  next
    case False
    obtain fs1 r where o: "open_table env flt opts fs = (fs1, r)" by fastforce
    show ?thesis
    proof (cases r)
      case (Inl err)
      with False o show ?thesis using open_table_error [of env flt opts fs fs1 err] by (simp add: FetchPaginated_def)
    next
      case (Inr w)
      with o have w: "writer_at (table_path env opts) [] w" "fs1 = fs(table_path env opts \<mapsto> Truncated)"
        using open_table_writer by blast+
      obtain s1 e where p: "fetch_pages env flt opts pg 0 [] 0 w s = (s1, e)" by fastforce
      have "end_ok (table_path env opts) (row_cap opts) e"
        using fetch_pages_ok [OF w(1), of 0 opts env flt pg 0 "[]" s] p row_cap_pos by simp
      from fin [OF this w(2)] False o Inr p show ?thesis
        by (auto simp: FetchPaginated_def split: prod.splits sum.splits)
    qed
  qed
qed

text \<open>
  C30 (paginated_fetch_ends): A paginated fetch ends, whatever the server answers: it makes at most one call more than
  full pages fit below the row limit.
\<close>

theorem paginated_fetch_ends:
  assumes "counts_calls cnt env"
  shows "int (cnt (fst (FetchPaginated env flt opts pg s fs))) \<le> int (cnt s) + (row_cap opts - 1) div page_size pg + 1"
proof -
  have "0 \<le> (row_cap opts - 1) div page_size pg"
    using row_cap_pos [of opts] page_size_pos [of pg] by (simp add: pos_imp_zdiv_nonneg_iff)
  moreover have "int (cnt (fst (fetch_pages env flt opts pg 0 [] 0 w s))) \<le> int (cnt s) + (row_cap opts - 1) div page_size pg + 1" for w
    using fetch_pages_counts [OF assms row_cap_pos, where pg = pg and s = s and flt = flt and n = 0 and cursor = "[]" and w = w] by simp
  ultimately show ?thesis
    by (auto simp: FetchPaginated_def split: prod.splits sum.splits) (metis fst_conv)+
qed

subsection \<open>The files of several fetches\<close>

text \<open>
  What the code that stages one table after another relies on, whichever way a table is fetched: a fetch touches no file but its own
  table's, and a result tells where the rows are. \<open>sound\<close> says of a table's disk that its file can be finished.
\<close>

definition holds_rows :: "bool \<Rightarrow> file_store \<Rightarrow> string \<Rightarrow> int \<Rightarrow> bool" where
  "holds_rows sound fs path n \<longleftrightarrow> (sound \<longrightarrow> (\<exists>rows. fs path = Some (Complete rows) \<and> n \<le> int (length rows)))"

locale table_fetch =
  fixes run :: "MCPFetchOpts \<Rightarrow> PaginationConfig option \<Rightarrow> 's \<Rightarrow> file_store \<Rightarrow> 's \<times> file_store \<times> LoadResult result"
    and path :: "MCPFetchOpts \<Rightarrow> string"
    and sound :: "MCPFetchOpts \<Rightarrow> bool"
  assumes others_kept: "run opts pg s fs = (s', fs', r) \<Longrightarrow> p \<noteq> path opts \<Longrightarrow> fs' p = fs p"
    and own_rows: "run opts pg s fs = (s', fs', Inr lr) \<Longrightarrow>
      lr_ParquetPath lr = path opts \<and> holds_rows (sound opts) fs' (path opts) (lr_RowCount lr)"
begin

lemma earlier_rows_kept:
  assumes "run opts pg s fs = (s', fs', r)" "p \<noteq> path opts" "holds_rows b fs p n"
  shows "holds_rows b fs' p n"
  using others_kept [OF assms(1,2)] assms(3) by (simp add: holds_rows_def)

lemma both_staged:
  assumes "run o1 pg1 s fs = (s1, fs1, Inr lr1)" "run o2 pg2 s1 fs1 = (s2, fs2, Inr lr2)" "path o1 \<noteq> path o2"
  shows "holds_rows (sound o1) fs2 (lr_ParquetPath lr1) (lr_RowCount lr1) \<and> holds_rows (sound o2) fs2 (lr_ParquetPath lr2) (lr_RowCount lr2)"
  using own_rows [OF assms(1)] own_rows [OF assms(2)] earlier_rows_kept [OF assms(2) assms(3)] by simp

end

lemma write_chunks_ok:
  assumes "writer_at path rs w" "write_chunks flt build n items w = Inr w1" "\<And>xs. length (build xs) = length xs"
  shows "\<exists>rows. writer_at path rows w1 \<and> length rows = length rs + length items"
  using assms
proof (induction flt build n items w arbitrary: rs rule: write_chunks.induct)
  case (1 flt build n items w)
  note unfold = write_chunks.simps [of flt build n items w]
  show ?case
  proof (cases "items = []")
    case True
    with "1.prems" show ?thesis by (auto simp: write_chunks.simps [of flt build n "[]" w])
  next
    case False
    with "1.prems"(2) obtain w2 w3 where w2: "WriteRows flt n (build (take DefaultChunkSize items)) w = Inr w2"
      and w3: "Flush flt n w2 = Inr w3" and rest: "write_chunks flt build (Suc n) (drop DefaultChunkSize items) w3 = Inr w1"
      by (auto simp: unfold split: sum.splits)
    have "writer_at path (rs @ build (take DefaultChunkSize items)) w3"
      using "1.prems"(1) w2 w3 by (auto simp: WriteRows_def Flush_def writer_at_def split: option.splits)
    from "1.IH" [OF False w2 w3 this rest "1.prems"(3)] show ?thesis
      using "1.prems"(3) by (auto simp: min_def)
  qed
qed

lemma close_table_file:
  assumes "close_table flt w fs = (fs', r)" "writer_at path rows w"
  shows "(p \<noteq> path \<longrightarrow> fs' p = fs p) \<and>
    (\<forall>lr. r = Inr lr \<longrightarrow> lr_ParquetPath lr = path \<and> holds_rows b fs' path (lr_RowCount lr))"
  using close_table_cases [OF assms(1)] assms(2) by (auto simp: writer_at_def holds_rows_def)

lemma Fetch_file:
  assumes "Fetch env flt opts s fs = (s', fs', r)"
  shows "(p \<noteq> table_path env opts \<longrightarrow> fs' p = fs p) \<and>
    (\<forall>lr. r = Inr lr \<longrightarrow> lr_ParquetPath lr = table_path env opts \<and> holds_rows b fs' (table_path env opts) (lr_RowCount lr))"
proof (cases "\<exists>err. r = Inl err \<and> fs' = fs")
  case False
  obtain s1 a where call: "fx_call env (fo_Server opts) (fo_Tool opts) (fo_Args opts) s = (s1, a)" by fastforce
  with assms False obtain resp where a: "a = Inr resp" "\<not> tr_IsError resp"
    by (cases a) (auto simp: Fetch_def split: if_splits)
  with call assms False obtain items0 env0 where parsed: "parseResponse env (fx_adapters env) opts (fo_SingleItem opts) (tr_Text resp) = Inr (items0, env0)"
    by (cases "parseResponse env (fx_adapters env) opts (fo_SingleItem opts) (tr_Text resp)") (auto simp: Fetch_def)
  define items where "items = take (nat (row_cap opts)) items0"
  obtain fs1 x where o: "open_table env flt opts fs = (fs1, x)" by fastforce
  have cases: "case x of Inl err \<Rightarrow> r = Inl err \<and> fs' = fs1
      | Inr w \<Rightarrow> (case write_chunks flt (BuildRows env (sorted_fields opts)) 0 items w of
          Inl err \<Rightarrow> r = Inl err \<and> fs' = remove_file (table_path env opts) fs1
        | Inr w1 \<Rightarrow> close_table flt w1 fs1 = (fs', r))"
    using assms call a parsed o by (auto simp: Fetch_def Let_def items_def split: sum.splits)
  show ?thesis
  proof (cases x)
    case (Inl err)
    with o cases open_table_error show ?thesis by fastforce
  next
    case (Inr w)
    with o have w: "writer_at (table_path env opts) [] w" and fs1: "fs1 = fs(table_path env opts \<mapsto> Truncated)"
      using open_table_writer by blast+
    show ?thesis
    proof (cases "write_chunks flt (BuildRows env (sorted_fields opts)) 0 items w")
      case (Inl err)
      with cases Inr fs1 show ?thesis by (simp add: remove_file_def)
    next
      case done1: (Inr w1)
      obtain rows where "writer_at (table_path env opts) rows w1"
        using write_chunks_ok [OF w done1 length_BuildRows] by blast
      with cases Inr done1 fs1 show ?thesis using close_table_file [of flt w1 fs1 fs' r] by auto
    qed
  qed
qed auto

lemma end_pages_file:
  assumes "end_pages flt e fs = (fs', r)" "end_ok path cap e"
  shows "(p \<noteq> path \<longrightarrow> fs' p = fs p) \<and>
    (\<forall>lr. r = Inr lr \<longrightarrow> lr_ParquetPath lr = path \<and> holds_rows (wf_close flt = None) fs' path (lr_RowCount lr))"
proof (cases e)
  case (PagesDone w)
  with assms show ?thesis using close_table_file by (fastforce simp: end_pages_def)
next
  case (PageFailed w t n msg)
  with assms show ?thesis
    by (auto simp: end_pages_def CloseWriter_def remove_file_def buildPartialResult_def holds_rows_def Let_def split: option.splits if_splits)
qed

lemma FetchPaginated_file:
  assumes "FetchPaginated env flt opts pg s fs = (s', fs', r)"
  shows "(p \<noteq> table_path env opts \<longrightarrow> fs' p = fs p) \<and>
    (\<forall>lr. r = Inr lr \<longrightarrow> lr_ParquetPath lr = table_path env opts \<and>
       holds_rows (wf_close flt = None) fs' (table_path env opts) (lr_RowCount lr))"
proof (cases "\<exists>err. r = Inl err \<and> fs' = fs")
  case False
  obtain fs1 x where o: "open_table env flt opts fs = (fs1, x)" by fastforce
  with assms False obtain w where x: "x = Inr w"
    using open_table_error [of env flt opts fs] by (cases x) (auto simp: FetchPaginated_def split: if_splits)
  with o have w: "writer_at (table_path env opts) [] w" and fs1: "fs1 = fs(table_path env opts \<mapsto> Truncated)"
    using open_table_writer by blast+
  obtain s1 e where p: "fetch_pages env flt opts pg 0 [] 0 w s = (s1, e)" by fastforce
  have e: "end_ok (table_path env opts) (row_cap opts) e"
    using fetch_pages_ok [OF w, of 0 opts env flt pg 0 "[]" s] p row_cap_pos by simp
  have "end_pages flt e fs1 = (fs', r)"
    using assms False o x p by (auto simp: FetchPaginated_def split: if_splits)
  from end_pages_file [OF this e] fs1 show ?thesis by auto
qed auto

subsection \<open>Paged sources\<close>

abbreviation page_len :: "PaginationConfig \<Rightarrow> nat" where "page_len pg \<equiv> nat (page_size pg)"
abbreviation row_limit :: "MCPFetchOpts \<Rightarrow> nat" where "row_limit opts \<equiv> nat (row_cap opts)"

definition page_of :: "PaginationConfig \<Rightarrow> gmap list \<Rightarrow> nat \<Rightarrow> gmap list" where
  "page_of pg xs n = take (page_len pg) (drop (n * page_len pg) xs)"

text \<open>Page \<open>n\<close> of \<open>xs\<close> is what the tool answers for the cursor \<open>cur n\<close>, and its envelope has the next one.\<close>

definition serves_page :: "'s fetch_env \<Rightarrow> MCPFetchOpts \<Rightarrow> PaginationConfig \<Rightarrow> gmap list \<Rightarrow> (nat \<Rightarrow> string) \<Rightarrow> nat \<Rightarrow> bool" where
  "serves_page env opts pg xs cur n \<longleftrightarrow>
     (\<forall>s. \<exists>s1 parsed. read_page env opts pg n (cur n) s = (s1, Inr (page_of pg xs n, parsed)) \<and>
        (pg_Mode pg = ''cursor'' \<longrightarrow>
          next_cursor pg parsed = Some (cur (Suc n)) \<or> length xs \<le> Suc n * page_len pg \<and> next_cursor pg parsed = None))"

definition same_cursor :: "PaginationConfig \<Rightarrow> (nat \<Rightarrow> string) \<Rightarrow> bool" where
  "same_cursor pg cur \<longleftrightarrow> (pg_Mode pg \<noteq> ''cursor'' \<longrightarrow> (\<forall>n. cur (Suc n) = cur n))"

definition no_faults :: "write_faults \<Rightarrow> bool" where
  "no_faults flt \<longleftrightarrow>
     wf_mkdir flt = None \<and> wf_create flt = None \<and> wf_close flt = None \<and> (\<forall>n. wf_write flt n = None) \<and> (\<forall>n. wf_flush flt n = None)"

lemma write_page_no_faults:
  assumes "no_faults flt" "writer_at path rs w"
  obtains w1 where "write_page flt n rows w = (w1, None)" "writer_at path (rs @ rows) w1"
  using assms by (auto simp: no_faults_def write_page_def WriteRows_def Flush_def writer_at_def)

lemma page_len_pos: "0 < page_len pg"
  using page_size_pos [of pg] by simp

lemma take_page:
  "take m (drop k xs) = ys \<Longrightarrow> take k xs @ ys = take (k + m) xs"
  by (metis take_add)

text \<open>One page of a paged source, with \<open>n\<close> full pages staged before it.\<close>

lemma one_page_served:
  assumes "serves_page env opts pg xs cur n" "same_cursor pg cur" "no_faults flt" "\<not> fx_budget env n"
    and "writer_at path (rows_of env opts (take (n * page_len pg) xs)) w"
    and "t = int (n * page_len pg)" "t < row_cap opts"
  obtains s1 where "one_page env flt opts pg n (cur n) t w s = (s1, Stop (PagesDone w))" "length xs \<le> n * page_len pg"
  | s1 w1 where "one_page env flt opts pg n (cur n) t w s = (s1, Stop (PagesDone w1))"
      "writer_at path (rows_of env opts (take (row_limit opts) xs)) w1" "row_limit opts \<le> Suc n * page_len pg \<or> length xs \<le> Suc n * page_len pg"
  | s1 w1 where "one_page env flt opts pg n (cur n) t w s = (s1, Next (cur (Suc n)) (int (Suc n * page_len pg)) w1)"
      "writer_at path (rows_of env opts (take (Suc n * page_len pg) xs)) w1" "Suc n * page_len pg \<le> length xs"
proof -
  obtain s1 parsed where rd: "read_page env opts pg n (cur n) s = (s1, Inr (page_of pg xs n, parsed))"
    and nx: "pg_Mode pg = ''cursor'' \<Longrightarrow> next_cursor pg parsed = Some (cur (Suc n)) \<or> length xs \<le> Suc n * page_len pg \<and> next_cursor pg parsed = None"
    using assms(1) unfolding serves_page_def by blast
  define k where "k = n * page_len pg"
  have t: "t = int k" unfolding k_def by (fact assms(6))
  define m where "m = min (page_len pg) (row_limit opts - k)"
  have lim: "nat (row_cap opts - t) = row_limit opts - k" "k < row_limit opts"
    using t assms(7) by simp_all
  have page: "take (nat (row_cap opts - t)) (page_of pg xs n) = take m (drop k xs)"
    unfolding lim by (simp add: page_of_def k_def m_def take_take min.commute)
  obtain w1 where wr: "write_page flt n (rows_of env opts (take m (drop k xs))) w = (w1, None)"
    and w1: "writer_at path (rows_of env opts (take k xs) @ rows_of env opts (take m (drop k xs))) w1"
    using write_page_no_faults [OF assms(3,5)] unfolding k_def by blast
  then have w1: "writer_at path (rows_of env opts (take (k + m) xs)) w1"
    by (simp add: BuildRows_append [symmetric] take_add)
  define l where "l = length (take m (drop k xs))"
  have len: "l = min m (length xs - k)" by (simp add: l_def)
  show ?thesis
  proof (cases "length xs \<le> k")
    case True
    then have "page_of pg xs n = []" by (simp add: page_of_def k_def)
    with assms(4) rd True that(1) show ?thesis by (simp add: one_page_def k_def)
  next
    case False
    have m0: "0 < m" using lim page_len_pos [of pg] by (simp add: m_def)
    have "page_of pg xs n \<noteq> []" using False page_len_pos [of pg] by (simp add: page_of_def k_def)
    then have one: "one_page env flt opts pg n (cur n) t w s =
        (if row_cap opts \<le> t + int (l) \<or> int (l) < page_size pg then (s1, Stop (PagesDone w1))
         else if pg_Mode pg = ''cursor''
         then (case next_cursor pg parsed of None \<Rightarrow> (s1, Stop (PagesDone w1)) | Some c \<Rightarrow> (s1, Next c (t + int (l)) w1))
         else (s1, Next (cur n) (t + int (l)) w1))"
      using assms(4,7) rd wr by (simp add: one_page_def page l_def [symmetric] Let_def del: length_take cong: option.case_cong)
    show ?thesis
    proof (cases "row_cap opts \<le> t + int (l) \<or> int (l) < page_size pg")
      case True
      then have "row_limit opts \<le> k + l \<or> l < page_len pg" using t by linarith
      then have "row_limit opts \<le> k + page_len pg \<or> length xs \<le> k + page_len pg"
        unfolding len m_def by linarith
      then have end2: "row_limit opts \<le> Suc n * page_len pg \<or> length xs \<le> Suc n * page_len pg" by (simp add: k_def add.commute)
      from \<open>row_limit opts \<le> k + l \<or> l < page_len pg\<close> have "k + m = row_limit opts \<or> length xs \<le> k + m \<and> length xs \<le> row_limit opts"
        using lim(2) False unfolding len m_def by linarith
      then have "take (k + m) xs = take (row_limit opts) xs" by auto
      with w1 one True end2 that(2) show ?thesis by simp
    next
      case False
      have full: "m = page_len pg" "page_len pg \<le> length xs - k"
        using False page_size_pos [of pg] by (auto simp: len m_def)
      then have nextk: "k + m = Suc n * page_len pg" "Suc n * page_len pg \<le> length xs" "t + int (l) = int (Suc n * page_len pg)"
        using \<open>\<not> length xs \<le> k\<close> t by (auto simp: len k_def)
      have w1': "writer_at path (rows_of env opts (take (Suc n * page_len pg) xs)) w1" using w1 nextk(1) by simp
      show ?thesis
      proof (cases "pg_Mode pg = ''cursor'' \<and> next_cursor pg parsed = None")
        case True
        with nx have end3: "length xs \<le> Suc n * page_len pg" by auto
        moreover have "k + m < row_limit opts" using False t full(2) unfolding len full(1) by linarith
        ultimately have "take (k + m) xs = take (row_limit opts) xs" using nextk by simp
        with w1 one False True end3 that(2) show ?thesis by simp
      next
        case other: False
        with nx assms(2) have "one_page env flt opts pg n (cur n) t w s = (s1, Next (cur (Suc n)) (int (Suc n * page_len pg)) w1)"
          using one False nextk(3) by (auto simp: same_cursor_def)
        from that(3) [OF this w1' nextk(2)] show ?thesis .
      qed
    qed
  qed
qed

lemma fetch_pages_served:
  assumes "\<And>n. serves_page env opts pg xs cur n" "same_cursor pg cur" "no_faults flt" "\<And>n. \<not> fx_budget env n"
    and "writer_at path (rows_of env opts (take (n * page_len pg) xs)) w" "t = int (n * page_len pg)" "t < row_cap opts"
  shows "\<exists>s1 w1. fetch_pages env flt opts pg n (cur n) t w s = (s1, PagesDone w1) \<and>
    writer_at path (rows_of env opts (take (row_limit opts) xs)) w1"
  using assms(5-7)
proof (induction "nat (row_cap opts - t)" arbitrary: n t w s rule: less_induct)
  case less
  note unfold = fetch_pages.simps [of env flt opts pg n "cur n" t w s]
  from assms(1-3) assms(4) [of n] less.prems show ?case
  proof (cases rule: one_page_served [where s = s])
    case (1 s1)
    have "n * page_len pg < row_limit opts" using less.prems(2,3) by (metis zless_nat_eq_int_zless)
    with 1(2) have "take (n * page_len pg) xs = take (row_limit opts) xs" by simp
    with 1 less.prems(1) show ?thesis by (simp add: unfold)
  next
    case (2 s1 w1)
    then show ?thesis by (simp add: unfold)
  next
    case (3 s1 w1)
    have lt: "t < int (Suc n * page_len pg)" "int (Suc n * page_len pg) < row_cap opts"
      using one_page_progress [OF 3(1)] by auto
    then have "nat (row_cap opts - int (Suc n * page_len pg)) < nat (row_cap opts - t)" by linarith
    from less.hyps [OF this 3(2) refl lt(2)] 3(1) show ?thesis by (simp add: unfold)
  qed
qed

lemma FetchPaginated_served:
  assumes "\<And>n. serves_page env opts pg xs cur n" "same_cursor pg cur" "cur 0 = []" "no_faults flt" "\<And>n. \<not> fx_budget env n"
    and "\<not> (pg_Mode pg = ''cursor'' \<and> non_json opts)"
  shows "\<exists>s' fs' lr. FetchPaginated env flt opts pg s fs = (s', fs', Inr lr) \<and> \<not> lr_Partial lr \<and>
    lr_RowCount lr = min (row_cap opts) (int (length xs)) \<and>
    fs' (lr_ParquetPath lr) = Some (Complete (rows_of env opts (take (row_limit opts) xs)))"
proof -
  obtain fs1 w where o: "open_table env flt opts fs = (fs1, Inr w)"
    using assms(4) by (auto simp: open_table_def NewStreamingParquetWriter_def no_faults_def)
  with open_table_writer have w: "writer_at (table_path env opts) (rows_of env opts (take (0 * page_len pg) xs)) w"
    by (fastforce simp: BuildRows_def)
  obtain s1 w1 where p: "fetch_pages env flt opts pg 0 [] 0 w s = (s1, PagesDone w1)"
    and w1: "writer_at (table_path env opts) (rows_of env opts (take (row_limit opts) xs)) w1"
    using fetch_pages_served [OF assms(1,2,4,5) w, of 0 s] assms(3) row_cap_pos [of opts] by auto
  have "wf_close flt = None" using assms(4) by (simp add: no_faults_def)
  with assms(6) o p w1 row_cap_pos [of opts] show ?thesis
    by (auto simp: FetchPaginated_def end_pages_def close_table_def CloseWriter_def writer_at_def length_BuildRows)
qed

lemma fetch_pages_failed:
  assumes "\<And>n. n < k \<Longrightarrow> serves_page env opts pg xs cur n" "same_cursor pg cur" "no_faults flt" "\<And>n. \<not> fx_budget env n"
    and "k * page_len pg < length xs" "int (k * page_len pg) < row_cap opts"
    and bad: "\<And>s. snd (read_page env opts pg k (cur k) s) = Inl msg"
  shows "\<lbrakk>n \<le> k; writer_at path (rows_of env opts (take (n * page_len pg) xs)) w\<rbrakk> \<Longrightarrow>
    \<exists>s1 w1. fetch_pages env flt opts pg n (cur n) (int (n * page_len pg)) w s = (s1, PageFailed w1 (int (k * page_len pg)) k msg) \<and>
      writer_at path (rows_of env opts (take (k * page_len pg) xs)) w1"
proof (induction "k - n" arbitrary: n w s)
  case 0
  then have n: "n = k" by simp
  have "one_page env flt opts pg k (cur k) (int (k * page_len pg)) w s =
      (fst (read_page env opts pg k (cur k) s), Stop (PageFailed w (int (k * page_len pg)) k msg))"
    using bad [of s] assms(4) [of k] by (cases "read_page env opts pg k (cur k) s") (simp add: one_page_def)
  with 0 n show ?case by (simp add: fetch_pages.simps [of env flt opts pg k "cur k" "int (k * page_len pg)" w s] del: of_nat_mult)
next
  case (Suc d)
  then have nk: "n < k" by simp
  have le: "Suc n * page_len pg \<le> k * page_len pg" using nk by (intro mult_le_mono1) simp
  moreover have "n * page_len pg < Suc n * page_len pg" using page_len_pos [of pg] by simp
  ultimately have small: "int (n * page_len pg) < row_cap opts" "n * page_len pg < length xs" "Suc n * page_len pg < length xs"
      "Suc n * page_len pg < row_limit opts" "n * page_len pg < row_limit opts"
    using assms(5,6) by linarith+
  note unfold = fetch_pages.simps [of env flt opts pg n "cur n" "int (n * page_len pg)" w s]
  from assms(1) [OF nk] assms(2,3,4) Suc.prems(2) refl small(1) show ?case
  proof (cases rule: one_page_served [where s = s])
    case (1 s1)
    with small show ?thesis by simp
  next
    case (2 s1 w1)
    with small show ?thesis by simp
  next
    case (3 s1 w1)
    have "d = k - Suc n" "Suc n \<le> k" using Suc.hyps(2) by auto
    from Suc.hyps(1) [OF this 3(2)] 3(1) show ?thesis by (simp add: unfold del: of_nat_mult mult_Suc)
  qed
qed

text \<open>
  C28 (failed_page_keeps_rows): When a page of a paged source cannot be read (its call fails, the tool reports an error, or the
  answer cannot be parsed) after full pages that stayed below the row limit, the rows of those pages are kept: the result is
  partial, counts them, names the failing page's error, and its complete file holds exactly them. When it is the first page, the
  error is returned and no file is left. (The disk does not fail and the time for the whole fetch does not end; a page whose rows
  cannot be written is another matter.)
\<close>

theorem failed_page_keeps_rows:
  assumes "\<And>n. n < k \<Longrightarrow> serves_page env opts pg xs cur n" "same_cursor pg cur" "cur 0 = []" "no_faults flt"
    and "\<And>n. \<not> fx_budget env n" "k * page_len pg < length xs" "int (k * page_len pg) < row_cap opts"
    and "\<not> (pg_Mode pg = ''cursor'' \<and> non_json opts)" "\<And>s. snd (read_page env opts pg k (cur k) s) = Inl msg"
  shows "case FetchPaginated env flt opts pg s fs of (s', fs', r) \<Rightarrow>
    if k = 0 then r = Inl (ErrMsg msg) \<and> fs' (table_path env opts) = None
    else (\<exists>groups. r = Inr \<lparr>lr_ParquetPath = table_path env opts, lr_RowCount = int (k * page_len pg), lr_RowGroups = groups,
             lr_Partial = True, lr_PartialError = msg, lr_PagesCompleted = int k\<rparr>) \<and>
         fs' (table_path env opts) = Some (Complete (rows_of env opts (take (k * page_len pg) xs)))"
proof -
  obtain fs1 w where o: "open_table env flt opts fs = (fs1, Inr w)"
    using assms(4) by (auto simp: open_table_def NewStreamingParquetWriter_def no_faults_def)
  with open_table_writer have w: "writer_at (table_path env opts) (rows_of env opts (take (0 * page_len pg) xs)) w"
    by (fastforce simp: BuildRows_def)
  obtain s1 w1 where p: "fetch_pages env flt opts pg 0 [] 0 w s = (s1, PageFailed w1 (int (k * page_len pg)) k msg)"
    and w1: "writer_at (table_path env opts) (rows_of env opts (take (k * page_len pg) xs)) w1"
    using fetch_pages_failed [OF assms(1,2,4,5,6,7,9) _ w, of s] assms(3) by auto
  have "wf_close flt = None" using assms(4) by (simp add: no_faults_def)
  moreover have "0 < int (k * page_len pg) \<longleftrightarrow> k \<noteq> 0" using page_len_pos [of pg] by (simp del: of_nat_mult)
  ultimately show ?thesis
    using assms(8) o p w1
    by (auto simp: FetchPaginated_def end_pages_def CloseWriter_def writer_at_def buildPartialResult_def remove_file_def Let_def
      simp del: of_nat_mult)
qed

subsection \<open>Tools that page by offset, and by cursor\<close>

text \<open>
  What the configuration of an offset-paged table says of the tool: asked for \<open>l\<close> items from offset \<open>o\<close> it answers with them.
\<close>

definition offset_tool :: "'s fetch_env \<Rightarrow> MCPFetchOpts \<Rightarrow> PaginationConfig \<Rightarrow> gmap list \<Rightarrow> bool" where
  "offset_tool env opts pg xs \<longleftrightarrow>
     (\<forall>args from l s. map_of args (pg_OffsetParam pg) = Some (GInt (int from)) \<and> map_of args (pg_LimitParam pg) = Some (GInt (int l)) \<longrightarrow>
        (\<exists>s1 r parsed. fx_call env (fo_Server opts) (fo_Tool opts) (Some args) s = (s1, Inr r) \<and> \<not> tr_IsError r \<and>
           parseResponse env (fx_adapters env) opts False (tr_Text r) = Inr (take l (drop from xs), parsed)))"

lemma offset_tool_serves:
  assumes "offset_tool env opts pg xs" "pg_Mode pg = ''offset''" "pg_OffsetParam pg \<noteq> []" "pg_LimitParam pg \<noteq> []"
    and "pg_OffsetParam pg \<noteq> pg_LimitParam pg"
  shows "serves_page env opts pg xs (\<lambda>_. []) n"
  unfolding serves_page_def
proof
  fix s
  let ?args = "page_args opts pg n []"
  have "map_of ?args (pg_OffsetParam pg) = Some (GInt (int (n * page_len pg)))" "map_of ?args (pg_LimitParam pg) = Some (GInt (int (page_len pg)))"
    using assms(2-5) page_size_pos [of pg] by (simp_all add: page_args_def put_param_def Let_def)
  with assms(1) obtain s1 r parsed where "fx_call env (fo_Server opts) (fo_Tool opts) (Some ?args) s = (s1, Inr r)" "\<not> tr_IsError r"
    "parseResponse env (fx_adapters env) opts False (tr_Text r) = Inr (page_of pg xs n, parsed)"
    unfolding offset_tool_def page_of_def by blast
  then have "read_page env opts pg n [] s = (s1, Inr (page_of pg xs n, parsed))" by (simp add: read_page_def)
  then show "\<exists>s1 parsed. read_page env opts pg n [] s = (s1, Inr (page_of pg xs n, parsed)) \<and>
      (pg_Mode pg = ''cursor'' \<longrightarrow> next_cursor pg parsed = Some [] \<or> length xs \<le> Suc n * page_len pg \<and> next_cursor pg parsed = None)"
    using assms(2) by auto
qed

text \<open>
  C26 (offset_pages_staged_once): Fetching a table whose tool pages by offset (with different names for offset and limit) stages
  the source's items up to the row limit, in order, each once, whatever the page size, as long as the disk does not fail and
  the time for the whole fetch does not end: the file at the result's path is complete and holds their rows, and the result counts
  them and is not partial.
\<close>

theorem offset_pages_staged_once:
  assumes "offset_tool env opts pg xs" "pg_Mode pg = ''offset''" "pg_OffsetParam pg \<noteq> []" "pg_LimitParam pg \<noteq> []"
    and "pg_OffsetParam pg \<noteq> pg_LimitParam pg" "no_faults flt" "\<And>n. \<not> fx_budget env n"
  shows "\<exists>s' fs' lr. FetchPaginated env flt opts pg s fs = (s', fs', Inr lr) \<and> \<not> lr_Partial lr \<and>
    lr_RowCount lr = min (row_cap opts) (int (length xs)) \<and>
    fs' (lr_ParquetPath lr) = Some (Complete (BuildRows env (snd (BuildSchema (toStagingFields (fo_Fields opts)))) (take (nat (row_cap opts)) xs)))"
  using FetchPaginated_served [OF offset_tool_serves [OF assms(1-5)] _ refl assms(6,7)] assms(2) by (simp add: same_cursor_def)




subsection \<open>Examples\<close>

text \<open>
  A source of three items. The tool that pages by offset answers with a text of as many \<open>o\<close> as the offset and as many
  \<open>l\<close> as the limit, which stands for the JSON of the page; the one that pages by cursor answers with the cursor.
\<close>

definition three_items :: "gmap list" where
  "three_items = [[(''id'', GStr ''a'')], [(''id'', GStr ''b'')], [(''id'', GStr ''c'')]]"

definition arg_nat :: "gmap option \<Rightarrow> string \<Rightarrow> nat" where
  "arg_nat args k = (case args of None \<Rightarrow> 0 | Some a \<Rightarrow> (case map_of a k of Some (GInt i) \<Rightarrow> nat i | _ \<Rightarrow> 0))"

definition offset_example :: "nat fetch_env" where
  "offset_example =
     \<lparr>vx_float = \<lambda>_. None, vx_rfc3339 = \<lambda>_. None, vx_rfc3339nano = \<lambda>_. None, vx_marshal = \<lambda>_. [],
      dx_decode = \<lambda>t. Some (GList (map GMap (take (length (dropWhile (\<lambda>c. c = CHR ''o'') t))
                        (drop (length (takeWhile (\<lambda>c. c = CHR ''o'') t)) three_items)))),
      dx_unmarshal = \<lambda>_. Inl ErrNotFound, dx_csv = \<lambda>_. Inl ErrNotFound,
      fx_call = \<lambda>_ _ args n. (Suc n, Inr \<lparr>tr_Text = replicate (arg_nat args ''offset'') (CHR ''o'') @ replicate (arg_nat args ''limit'') (CHR ''l''),
                                 tr_IsError = False\<rparr>),
      fx_adapters = responseAdapters, fx_path = \<lambda>d r t. d @ ''/'' @ r @ ''/'' @ t, fx_budget = \<lambda>_. False\<rparr>"

definition example_opts :: MCPFetchOpts where
  "example_opts =
     \<lparr>fo_Server = ''s'', fo_Tool = ''list'', fo_Args = None, fo_Fields = [(''id'', ''id'', [])], fo_ItemsPath = ''data'', fo_SingleItem = False,
      fo_MaxRows = 10, fo_Timeout = 0, fo_StagingDir = ''d'', fo_Table = ''t'', fo_RunID = ''r'', fo_ResponseFormat = [], fo_ResponseAdapter = []\<rparr>"

definition offset_paging :: PaginationConfig where
  "offset_paging =
     \<lparr>pg_Mode = ''offset'', pg_PageSize = 2, pg_OffsetParam = ''offset'', pg_LimitParam = ''limit'', pg_CursorParam = [],
      pg_NextCursorPath = [], pg_TotalPath = []\<rparr>"

definition sound_disk :: write_faults where
  "sound_disk = \<lparr>wf_mkdir = None, wf_create = None, wf_write = \<lambda>_. None, wf_flush = \<lambda>_. None, wf_close = None\<rparr>"

lemma sound_disk: "no_faults sound_disk"
  by (simp add: no_faults_def sound_disk_def)

lemma map_slice_maps: "map_slice i (map GMap ms) = Inr ms"
  by (induction ms arbitrary: i) simp_all

lemma offset_example_tool: "offset_tool offset_example example_opts offset_paging three_items"
  by (simp add: offset_tool_def offset_example_def offset_paging_def example_opts_def arg_nat_def parseResponse_def
    navigateToItems_def toMapSlice_def map_slice_maps takeWhile_append dropWhile_append)

theorem offset_pages_staged_once_witness:
  "\<exists>s' fs' lr. FetchPaginated offset_example sound_disk example_opts offset_paging 0 (\<lambda>_. None) = (s', fs', Inr lr) \<and>
     \<not> lr_Partial lr \<and> lr_RowCount lr = 3 \<and> fs' (lr_ParquetPath lr) = Some (Complete [[PvBytes ''a''], [PvBytes ''b''], [PvBytes ''c'']])"
proof -
  have cap: "row_cap example_opts = 10" by (simp add: row_cap_def example_opts_def)
  have rows: "BuildRows offset_example (snd (BuildSchema (toStagingFields (fo_Fields example_opts)))) three_items =
      [[PvBytes ''a''], [PvBytes ''b''], [PvBytes ''c'']]" by code_simp
  have len: "length three_items = 3" by (simp add: three_items_def)
  have b: "\<not> fx_budget offset_example n" for n by (simp add: offset_example_def)
  show ?thesis
    using offset_pages_staged_once [OF offset_example_tool _ _ _ _ sound_disk b, of 0 "\<lambda>_. None"]
    by (simp add: offset_paging_def cap len rows)
qed

theorem paginated_fetch_ends_witness:
  "fst (FetchPaginated offset_example sound_disk example_opts offset_paging 0 (\<lambda>_. None)) \<le> 5"
proof -
  have c: "counts_calls id offset_example" by (simp add: counts_calls_def offset_example_def)
  show ?thesis
    using paginated_fetch_ends [OF c, of sound_disk example_opts offset_paging 0 "\<lambda>_. None"]
    by (simp add: row_cap_def page_size_def example_opts_def offset_paging_def)
qed

definition failing_example :: "nat fetch_env" where
  "failing_example = offset_example
     \<lparr>fx_call := \<lambda>server tool args n. if arg_nat args ''offset'' = 0 then fx_call offset_example server tool args n else (Suc n, Inl (ErrMsg ''down''))\<rparr>"

theorem failed_page_keeps_rows_witness:
  "case FetchPaginated failing_example sound_disk example_opts offset_paging 0 (\<lambda>_. None) of (s', fs', r) \<Rightarrow>
     (\<exists>groups. r = Inr \<lparr>lr_ParquetPath = ''d/r/t'', lr_RowCount = 2, lr_RowGroups = groups, lr_Partial = True,
        lr_PartialError = ''MCP page 1: down'', lr_PagesCompleted = 1\<rparr>) \<and>
     fs' ''d/r/t'' = Some (Complete [[PvBytes ''a''], [PvBytes ''b'']])"
proof -
  have one: "serves_page failing_example example_opts offset_paging three_items (\<lambda>_. []) n" if "n < 1" for n
    using that
    by (simp add: serves_page_def read_page_def page_args_def put_param_def go_put_def cloneArgs_def failing_example_def offset_example_def
      offset_paging_def example_opts_def arg_nat_def page_size_def page_of_def parseResponse_def navigateToItems_def toMapSlice_def
      map_slice_maps Let_def)
  have one_text: "itoa 1 = ''1''" by code_simp
  have bad: "snd (read_page failing_example example_opts offset_paging 1 [] s) = Inl ''MCP page 1: down''" for s
    by (simp add: read_page_def page_args_def put_param_def go_put_def cloneArgs_def failing_example_def offset_paging_def
      example_opts_def arg_nat_def page_size_def Let_def one_text)
  have rows: "BuildRows failing_example (snd (BuildSchema (toStagingFields (fo_Fields example_opts)))) (take 2 three_items) =
      [[PvBytes ''a''], [PvBytes ''b'']]" by code_simp
  have p: "page_len offset_paging = 2" "page_size offset_paging = 2" by (simp_all add: page_size_def offset_paging_def)
  have rest: "same_cursor offset_paging (\<lambda>_. [])" "1 * page_len offset_paging < length three_items"
      "int (1 * page_len offset_paging) < row_cap example_opts" "\<not> (pg_Mode offset_paging = ''cursor'' \<and> non_json example_opts)"
      "\<And>n. \<not> fx_budget failing_example n" "table_path failing_example example_opts = ''d/r/t''"
    by (simp_all add: same_cursor_def page_size_def three_items_def row_cap_def example_opts_def offset_paging_def failing_example_def offset_example_def
      table_path_def)
  show ?thesis
    using failed_page_keeps_rows [OF one rest(1) refl sound_disk rest(5,2,3,4) bad, of 0 "\<lambda>_. None"]
    by (simp add: rest(6) p rows del: fun_upd_apply)
qed

definition cursor_example :: "nat fetch_env" where
  "cursor_example = offset_example
     \<lparr>dx_decode := \<lambda>t. Some (GMap [(''data'', GList (map GMap (take 2 (drop (length t * 2) three_items)))),
                        (''next'', if 2 * Suc (length t) < 3 then GStr (replicate (Suc (length t)) (CHR ''t'')) else GNil)]),
      fx_call := \<lambda>_ _ args n. (Suc n, Inr \<lparr>tr_Text = (case map_of (cloneArgs args) ''after'' of Some (GStr t) \<Rightarrow> t | _ \<Rightarrow> []), tr_IsError = False\<rparr>)\<rparr>"

definition cursor_paging :: PaginationConfig where
  "cursor_paging = offset_paging\<lparr>pg_Mode := ''cursor'', pg_CursorParam := ''after'', pg_NextCursorPath := ''next''\<rparr>"


subsection \<open>Where the fetch does less than it looks\<close>

text \<open>A fetch whose time runs out between two pages ends like one that reached the last page: nothing marks it partial.\<close>

lemma budget_end_looks_complete:
  assumes "fx_budget env n" "end_pages flt (snd (fetch_pages env flt opts pg n c t w s)) fs = (fs', Inr lr)"
  shows "\<not> lr_Partial lr"
  using assms(2)
  by (auto simp: fetch_pages.simps [of env flt opts pg n c t w s] one_page_def assms(1) end_pages_def close_table_def CloseWriter_def
    split: option.splits)

text \<open>
  A page with fewer items than asked for ends the fetch even if its envelope has a cursor for the next: here the tool answers
  with two items at a time when asked for three, and the third item is dropped, without a sign of it in the result.
\<close>

lemma short_page_drops_rest:
  "case FetchPaginated cursor_example sound_disk example_opts (cursor_paging\<lparr>pg_PageSize := 3\<rparr>) 0 (\<lambda>_. None) of
     (_, _, Inr lr) \<Rightarrow> lr_RowCount lr = 2 \<and> \<not> lr_Partial lr
   | _ \<Rightarrow> False"
  by code_simp

text \<open>With an unknown mode, or no name for the offset, every page asks for the same items.\<close>

lemma same_page_again:
  assumes "pg_Mode pg \<noteq> ''cursor''" "pg_Mode pg \<noteq> ''offset'' \<or> pg_OffsetParam pg = []"
  shows "page_args opts pg n c = page_args opts pg 0 []"
  using assms by (auto simp: page_args_def put_param_def Let_def)

text \<open>The offset that recovery puts into the arguments is overwritten by the first page's.\<close>

lemma resume_offset_overwritten:
  assumes "pg_Mode pg = ''offset''" "pg_OffsetParam pg \<noteq> []" "pg_OffsetParam pg \<noteq> pg_LimitParam pg"
  shows "map_of (page_args opts pg 0 c) (pg_OffsetParam pg) = Some (GInt 0)"
  using assms by (simp add: page_args_def put_param_def Let_def)

end
