(* ===== verification/StagingProperties.thy ===== *)
theory StagingProperties
  imports Staging "HOL-Library.Multiset"
begin

text \<open>
  The recovery of a run as it interleaves with the goroutines it starts: the goroutine of a table at
  the grain of its calls to the store, the step relation of the loop and all of them, and when
  they leave the run in the status its tables give.
\<close>

subsection \<open>A goroutine at the grain of the store's calls\<close>

datatype recovery_pc = RFetch nat | RCheck | RWrite run_write | RFail error | RDone

type_synonym launch = "string \<times> TableState \<times> SerializedFetchPlan"
type_synonym fetcher = "MCPFetchOpts \<Rightarrow> PaginationConfig option \<Rightarrow> nat \<Rightarrow> LoadResult result"

fun go_step :: "'d staging_ops \<Rightarrow> stage_env \<Rightarrow> fetcher \<Rightarrow> string \<Rightarrow> launch \<Rightarrow> recovery_pc \<Rightarrow> 'd \<Rightarrow> 'd \<times> recovery_pc" where
  "go_step ops env fetch runID (tableName, ts, plan) (RFetch retries) d =
     (case fetch (recover_opts env runID tableName ts plan) (fp_Pagination plan) retries of
        Inr lr \<Rightarrow> (put_table ops runID (recovered_table env tableName ts lr) d, RCheck)
      | Inl err \<Rightarrow>
          if Suc retries > recoveryMaxRetries
          then (put_table ops runID (exhausted_table env tableName ts (Suc retries) err) d, if ts_Required ts then RFail err else RCheck)
          else (put_table ops runID (retried_table tableName (ts_FetchMode ts) (ts_Required ts) True (Suc retries) err) d, RFetch (Suc retries)))"
| "go_step ops env fetch runID g RCheck d = (case so_Get ops runID d of (d1, x) \<Rightarrow> (d1, RWrite (decide_write x)))"
| "go_step ops env fetch runID g (RWrite wr) d = (apply_write ops runID wr d, RDone)"
| "go_step ops env fetch runID (tableName, ts, plan) (RFail err) d =
     (fst (so_FailRun ops runID
        (Some (staging_error (''required table '' @ quote tableName @ '' failed during recovery: '' @ error_string err) ''permanent'' False)) d), RDone)"
| "go_step ops env fetch runID g RDone d = (d, RDone)"

fun go_alone :: "nat \<Rightarrow> 'd staging_ops \<Rightarrow> stage_env \<Rightarrow> fetcher \<Rightarrow> string \<Rightarrow> launch \<Rightarrow> recovery_pc \<Rightarrow> 'd \<Rightarrow> 'd \<times> recovery_pc" where
  "go_alone 0 ops env fetch runID g pc d = (d, pc)"
| "go_alone (Suc n) ops env fetch runID g pc d =
     (case go_step ops env fetch runID g pc d of (d1, pc1) \<Rightarrow> go_alone n ops env fetch runID g pc1 d1)"

lemma put_table_name [simp]:
  "ts_Name (recovered_table env t ts lr) = t" "ts_Name (exhausted_table env t ts n e) = t" "ts_Name (retried_table t m rq rs n e) = t"
  by (simp_all add: recovered_table_def exhausted_table_def retried_table_def zero_table_def)

lemma go_alone_done [simp]: "go_alone n ops env fetch runID g RDone d = (d, RDone)"
  by (induction n) simp_all

text \<open>Six steps are enough for a goroutine that runs alone; it then did what \<open>recoverTable\<close> does.\<close>

lemma recoverTable_alone:
  "go_alone 6 ops env fetch runID (t, ts, plan) (RFetch 0) d = (recoverTable ops env runID t ts plan fetch d, RDone)"
  by (simp add: eval_nat_numeral recoverTable_def recoveryMaxRetries_def stage_retries.simps checkAndTransitionRecoveredRun_def
      checkAndTransitionRunToStaged_def Let_def split: sum.splits prod.splits)

subsection \<open>The loop and its goroutines\<close>

type_synonym goroutines = "(launch \<times> recovery_pc) list"
type_synonym 'd recovery = "'d \<times> recover_pc \<times> goroutines"

definition spawned :: "launch option \<Rightarrow> goroutines" where
  "spawned x = (case x of None \<Rightarrow> [] | Some g \<Rightarrow> [(g, RFetch 0)])"

fun re_returned :: "recover_pc \<Rightarrow> bool" where
  "re_returned (ReReturned r) \<longleftrightarrow> True"
| "re_returned _ \<longleftrightarrow> False"

inductive recovery_step ::
    "'d staging_ops \<Rightarrow> stage_env \<Rightarrow> fetcher \<Rightarrow> StagingRun \<Rightarrow> (string \<times> TableState) list \<Rightarrow> 'd recovery \<Rightarrow> 'd recovery \<Rightarrow> bool"
  for ops env fetch run order where
  rs_main: "\<not> re_returned pc \<Longrightarrow> recover_step ops env run order pc d = (d', pc', x) \<Longrightarrow>
    recovery_step ops env fetch run order (d, pc, gs) (d', pc', gs @ spawned x)"
| rs_go: "i < length gs \<Longrightarrow> gs ! i = (g, q) \<Longrightarrow> q \<noteq> RDone \<Longrightarrow> go_step ops env fetch (sg_ID run) g q d = (d', q') \<Longrightarrow>
    recovery_step ops env fetch run order (d, pc, gs) (d', pc, gs[i := (g, q')])"

definition all_done :: "goroutines \<Rightarrow> bool" where
  "all_done gs \<longleftrightarrow> (\<forall>g\<in>set gs. snd g = RDone)"

text \<open>Steps a goroutine can still take.\<close>

fun go_weight :: "recovery_pc \<Rightarrow> nat" where
  "go_weight (RFetch n) = Suc recoveryMaxRetries - n + 3"
| "go_weight RCheck = 2"
| "go_weight (RWrite wr) = 1"
| "go_weight (RFail err) = 1"
| "go_weight RDone = 0"

lemma go_step_weight: "go_step ops env fetch runID g pc d = (d', pc') \<Longrightarrow> pc \<noteq> RDone \<Longrightarrow> go_weight pc' < go_weight pc"
  by (cases g; cases pc) (auto split: sum.splits prod.splits if_splits)

definition total_weight :: "goroutines \<Rightarrow> nat" where
  "total_weight gs = sum_list (map (go_weight \<circ> snd) gs)"

lemma total_weight_update:
  assumes "i < length gs" "gs ! i = (g, pc)"
  shows "total_weight (gs[i := (g, pc')]) + go_weight pc = total_weight gs + go_weight pc'"
proof -
  have "gs = take i gs @ (g, pc) # drop (Suc i) gs" using assms by (metis id_take_nth_drop)
  then have "total_weight gs = total_weight (take i gs @ (g, pc) # drop (Suc i) gs)" by simp
  then show ?thesis using assms(1) by (simp add: total_weight_def upd_conv_take_nth_drop)
qed

text \<open>What the loop can still do: a table costs it a step, and a goroutine of up to six.\<close>

fun re_weight :: "(string \<times> TableState) list \<Rightarrow> recover_pc \<Rightarrow> nat" where
  "re_weight order ReRecovery = 7 * length order + 5"
| "re_weight order ReStatus = 7 * length order + 4"
| "re_weight order (ReTables es n) = 7 * length es + 3"
| "re_weight order ReCheck = 2"
| "re_weight order (ReWrite wr) = 1"
| "re_weight order (ReReturned r) = 0"

lemma re_step_weight:
  assumes "\<not> re_returned pc" "recover_step ops env run order pc d = (d', pc', x)"
  shows "re_weight order pc' + total_weight (spawned x) < re_weight order pc"
proof (cases pc)
  case (ReTables es n)
  with assms show ?thesis
    by (cases es) (auto simp: total_weight_def spawned_def recoveryMaxRetries_def split: prod.splits option.splits)
qed (use assms in \<open>auto simp: total_weight_def spawned_def split: prod.splits sum.splits\<close>)

lemma total_weight_append [simp]: "total_weight (gs @ hs) = total_weight gs + total_weight hs"
  by (simp add: total_weight_def)

lemma recovery_step_weight:
  assumes "recovery_step ops env fetch run order (d, pc, gs) (d', pc', gs')"
  shows "re_weight order pc' + total_weight gs' < re_weight order pc + total_weight gs"
  using assms
proof cases
  case (rs_main x)
  with re_step_weight [OF rs_main(2,3)] show ?thesis by simp
next
  case (rs_go i g q q')
  with go_step_weight [OF rs_go(6,5)] total_weight_update [OF rs_go(3,4), of q'] show ?thesis by simp
qed

lemma recovery_steps_bound:
  "(recovery_step ops env fetch run order ^^ n) (d, pc, gs) (d', pc', gs') \<Longrightarrow>
    n + (re_weight order pc' + total_weight gs') \<le> re_weight order pc + total_weight gs"
proof (induction n arbitrary: d' pc' gs')
  case (Suc n)
  then obtain d1 pc1 gs1 where "(recovery_step ops env fetch run order ^^ n) (d, pc, gs) (d1, pc1, gs1)"
    "recovery_step ops env fetch run order (d1, pc1, gs1) (d', pc', gs')"
    by (auto elim!: relpowp_Suc_E)
  with Suc.IH [OF this(1)] recovery_step_weight [OF this(2)] show ?case by simp
qed simp

lemma step_until_done:
  assumes "\<not> (all_done gs \<and> re_returned pc)"
  shows "\<exists>s. recovery_step ops env fetch run order (d, pc, gs) s"
proof (cases "re_returned pc")
  case True
  with assms obtain i where i: "i < length gs" "snd (gs ! i) \<noteq> RDone" by (auto simp: all_done_def in_set_conv_nth)
  obtain g q where gi: "gs ! i = (g, q)" by (metis prod.exhaust)
  obtain d' q' where "go_step ops env fetch (sg_ID run) g q d = (d', q')" by (metis prod.exhaust)
  with i gi show ?thesis by (auto intro: recovery_step.rs_go)
next
  case False
  obtain d' pc' x where "recover_step ops env run order pc d = (d', pc', x)" by (metis prod.exhaust)
  from recovery_step.rs_main [OF False this] show ?thesis by blast
qed

text \<open>Once it has its list, the loop over the active runs comes to an end: every step of it lowers this number.\<close>

fun active_weight :: "(StagingRun \<Rightarrow> (string \<times> TableState) list) \<Rightarrow> active_pc \<Rightarrow> nat" where
  "active_weight order AcList = 0"
| "active_weight order (AcRuns runs) = Suc (sum_list (map (\<lambda>r. re_weight (order r) ReRecovery + 4) runs))"
| "active_weight order (AcRun run pc runs) = re_weight (order run) pc + 3 + sum_list (map (\<lambda>r. re_weight (order r) ReRecovery + 4) runs)"
| "active_weight order (AcFail run err runs) = 2 + sum_list (map (\<lambda>r. re_weight (order r) ReRecovery + 4) runs)"
| "active_weight order (AcReturned r) = 0"

lemma RecoverActiveRuns_step_weight:
  assumes "RecoverActiveRuns_step ops env order pc d = (d', pc', x)" "pc \<noteq> AcList" "\<And>r. pc \<noteq> AcReturned r"
  shows "active_weight order pc' < active_weight order pc"
proof (cases "\<exists>run q runs. pc = AcRun run q runs \<and> \<not> re_returned q")
  case True
  then obtain run q runs where pc: "pc = AcRun run q runs" "\<not> re_returned q" by blast
  obtain d1 q1 g where r: "recover_step ops env run (order run) q d = (d1, q1, g)" by (metis prod.exhaust)
  have "pc' = AcRun run q1 runs" using assms(1) pc r by (cases q) auto
  with re_step_weight [OF pc(2) r] pc(1) show ?thesis by simp
next
  case False
  show ?thesis
  proof (cases pc)
    case (AcRuns runs)
    with assms show ?thesis by (cases runs) auto
  next
    case (AcRun run q runs)
    with False obtain r where "q = ReReturned r" by (cases q) auto
    with assms AcRun show ?thesis by (cases r) auto
  qed (use assms in auto)
qed

text \<open>
  Which tables the loop starts a goroutine for, and which it settles itself; whether it settles
  none after it has started a goroutine.
\<close>

definition launches :: "stage_env \<Rightarrow> string \<times> TableState \<Rightarrow> bool" where
  "launches env e \<longleftrightarrow>
     (let ts = snd e
      in in_progress ts \<and> \<not> (ts_ParquetPath ts \<noteq> [] \<and> gx_exists env (ts_ParquetPath ts)) \<and> gx_fetcher env \<and>
         (case ts_FetchPlan ts of None \<Rightarrow> False | Some js \<Rightarrow> js \<noteq> [] \<and> is_ok (gx_decode env js)))"

definition settles :: "stage_env \<Rightarrow> string \<times> TableState \<Rightarrow> bool" where
  "settles env e \<longleftrightarrow> in_progress (snd e) \<and> \<not> launches env e"

fun settled_first :: "stage_env \<Rightarrow> (string \<times> TableState) list \<Rightarrow> bool" where
  "settled_first env [] \<longleftrightarrow> True"
| "settled_first env (e # es) \<longleftrightarrow> (if launches env e then list_all (\<lambda>f. \<not> settles env f) es else settled_first env es)"

subsection \<open>The invariant\<close>

fun write_target :: "run_write \<Rightarrow> RunStatus option" where
  "write_target NoWrite = None"
| "write_target (WriteFail msg) = Some RsFailed"
| "write_target (WriteStatus st) = Some st"

text \<open>What a goroutine relies on of its table, and whether it still has a say in the run's status.\<close>

fun pc_row :: "recovery_pc \<Rightarrow> TableState \<Rightarrow> bool" where
  "pc_row (RFetch n) row \<longleftrightarrow> ts_Status row = TsFetching"
| "pc_row (RFail err) row \<longleftrightarrow> fatal row"
| "pc_row _ row \<longleftrightarrow> \<not> in_progress row"

fun pc_due :: "recovery_pc \<Rightarrow> bool" where
  "pc_due RDone \<longleftrightarrow> False"
| "pc_due (RWrite wr) \<longleftrightarrow> write_target wr \<noteq> None"
| "pc_due _ \<longleftrightarrow> True"

fun pc_write :: "recovery_pc \<Rightarrow> RunStatus option \<Rightarrow> bool" where
  "pc_write (RWrite wr) D \<longleftrightarrow> write_target wr = None \<or> write_target wr = D"
| "pc_write _ D \<longleftrightarrow> True"

text \<open>
  \<open>W\<close> are the tables in progress that the loop has not come to yet, \<open>live\<close> says that the loop itself
  still has a say (or that nothing is promised).
\<close>

definition recovery_inv :: "string set \<Rightarrow> bool \<Rightarrow> RunStatus \<Rightarrow> (string \<rightharpoonup> TableState) \<Rightarrow> goroutines \<Rightarrow> bool" where
  "recovery_inv W live st tb gs \<longleftrightarrow>
     distinct (map (fst \<circ> fst) gs) \<and> (fst \<circ> fst) ` set gs \<inter> W = {} \<and> (W \<noteq> {} \<longrightarrow> live) \<and>
     (\<forall>t ts plan pc. ((t, ts, plan), pc) \<in> set gs \<longrightarrow> (\<exists>row. tb t = Some row \<and> ts_Required row = ts_Required ts \<and> pc_row pc row)) \<and>
     (\<forall>t row. tb t = Some row \<and> in_progress row \<longrightarrow> t \<in> W \<or> (\<exists>ts plan n. ((t, ts, plan), RFetch n) \<in> set gs)) \<and>
     (\<forall>g pc. (g, pc) \<in> set gs \<longrightarrow> pc_write pc (derived (ran tb))) \<and>
     (st = RsStaging \<or> derived (ran tb) = Some st) \<and>
     (live \<or> derived (ran tb) = Some st \<or> (\<exists>g pc. (g, pc) \<in> set gs \<and> pc_due pc))"

lemma recovery_invD:
  assumes "recovery_inv W live st tb gs"
  shows inv_names: "distinct (map (fst \<circ> fst) gs)"
    and inv_apart: "(fst \<circ> fst) ` set gs \<inter> W = {}"
    and inv_live: "W \<noteq> {} \<Longrightarrow> live"
    and inv_row: "((t, ts, plan), pc) \<in> set gs \<Longrightarrow> \<exists>row. tb t = Some row \<and> ts_Required row = ts_Required ts \<and> pc_row pc row"
    and inv_prog: "tb t = Some row \<Longrightarrow> in_progress row \<Longrightarrow> t \<in> W \<or> (\<exists>ts plan n. ((t, ts, plan), RFetch n) \<in> set gs)"
    and inv_write: "(g, pc) \<in> set gs \<Longrightarrow> pc_write pc (derived (ran tb))"
    and inv_status: "st = RsStaging \<or> derived (ran tb) = Some st"
    and inv_due: "live \<or> derived (ran tb) = Some st \<or> (\<exists>g pc. (g, pc) \<in> set gs \<and> pc_due pc)"
  using assms unfolding recovery_inv_def by blast+

lemma recovery_invI:
  assumes "distinct (map (fst \<circ> fst) gs)" "(fst \<circ> fst) ` set gs \<inter> W = {}" "W \<noteq> {} \<Longrightarrow> live"
    "\<And>t ts plan pc. ((t, ts, plan), pc) \<in> set gs \<Longrightarrow> \<exists>row. tb t = Some row \<and> ts_Required row = ts_Required ts \<and> pc_row pc row"
    "\<And>t row. tb t = Some row \<Longrightarrow> in_progress row \<Longrightarrow> t \<in> W \<or> (\<exists>ts plan n. ((t, ts, plan), RFetch n) \<in> set gs)"
    "\<And>g pc. (g, pc) \<in> set gs \<Longrightarrow> pc_write pc (derived (ran tb))"
    "st = RsStaging \<or> derived (ran tb) = Some st"
    "live \<or> derived (ran tb) = Some st \<or> (\<exists>g pc. (g, pc) \<in> set gs \<and> pc_due pc)"
  shows "recovery_inv W live st tb gs"
  using assms unfolding recovery_inv_def by blast

lemma all_done_settled:
  assumes "recovery_inv {} live st tb gs" "all_done gs"
  shows "live \<or> derived (ran tb) = Some st" "derived (ran tb) \<noteq> None" "st = RsStaging \<or> derived (ran tb) = Some st"
proof -
  have nf: "pc = RDone" if "(g, pc) \<in> set gs" for g pc using assms(2) that by (force simp: all_done_def)
  show "live \<or> derived (ran tb) = Some st" using inv_due [OF assms(1)] nf by force
  have "\<not> in_progress row" if "row \<in> ran tb" for row using that inv_prog [OF assms(1)] nf by (force simp: ran_def)
  then show "derived (ran tb) \<noteq> None" by (auto simp: derived_cases)
  show "st = RsStaging \<or> derived (ran tb) = Some st" by (rule inv_status [OF assms(1)])
qed

text \<open>Replacing a goroutine's position in a list with distinct tables.\<close>

lemma set_update_go:
  assumes "i < length gs" "gs ! i = (g, pc)" "distinct (map (fst \<circ> fst) gs)"
  shows "set (gs[i := (g, pc')]) = insert (g, pc') (set gs - {(g, pc)})"
proof -
  have d: "distinct gs" using assms(3) by (simp add: distinct_map)
  show ?thesis using set_update_distinct [OF d assms(1), of "(g, pc')"] assms(2) by simp
qed

lemma table_in_one_go:
  "distinct (map (fst \<circ> fst) gs) \<Longrightarrow> ((t, x), pc) \<in> set gs \<Longrightarrow> ((t, y), pc') \<in> set gs \<Longrightarrow> x = y \<and> pc = pc'"
  by (induction gs) (force simp: image_iff)+

lemma go_names_update:
  "i < length gs \<Longrightarrow> gs ! i = (g, pc) \<Longrightarrow> map (fst \<circ> fst) (gs[i := (g, pc')]) = map (fst \<circ> fst) gs"
  by (auto simp: map_update intro!: list_update_same_conv [THEN iffD2])

lemma go_apart_update:
  assumes "recovery_inv W live st tb gs" "i < length gs" "gs ! i = (g, pc)"
  shows "(fst \<circ> fst) ` set (gs[i := (g, pc')]) \<inter> W = {}"
  using inv_apart [OF assms(1)] go_names_update [OF assms(2,3), of pc'] by (metis set_map)

lemma derived_while_fetching:
  assumes "tb t = Some row" "in_progress row"
  shows "derived (ran tb) = None \<or> derived (ran tb) = Some RsFailed \<and> derived (ran (tb(t \<mapsto> row'))) = Some RsFailed"
proof (cases "\<exists>x\<in>ran tb. fatal x")
  case True
  then obtain u x where x: "tb u = Some x" "fatal x" by (auto simp: ran_def)
  then have "u \<noteq> t" using assms by (auto simp: in_progress_def fatal_def)
  with x(1) have "(tb(t \<mapsto> row')) u = Some x" by simp
  then have "x \<in> ran (tb(t \<mapsto> row'))" by (rule ranI)
  with x(2) True show ?thesis by (auto simp: derived_cases)
next
  case False
  with assms show ?thesis by (auto simp: derived_cases intro: ranI)
qed

lemma inv_table:
  assumes inv: "recovery_inv W live st tb gs" and i: "i < length gs" "gs ! i = ((t, ts, plan), RFetch n)"
    and row': "ts_Required row' = ts_Required ts" "pc_row pc' row'" "in_progress row' \<Longrightarrow> \<exists>m. pc' = RFetch m"
    and pc': "pc_due pc'" "\<And>D. pc_write pc' D"
  shows "recovery_inv W live st (tb(t \<mapsto> row')) (gs[i := ((t, ts, plan), pc')])"
proof -
  let ?g = "(t, ts, plan)"
  note dist = inv_names [OF inv]
  note upd = set_update_go [OF i dist]
  have mem: "(?g, RFetch n) \<in> set gs" using i by (metis nth_mem)
  have only: "((t, x), pc) \<in> set gs \<Longrightarrow> x = (ts, plan) \<and> pc = RFetch n" for x pc
    using table_in_one_go [OF dist mem] by blast
  obtain row where row: "tb t = Some row" "in_progress row" using inv_row [OF inv mem] by (auto simp: in_progress_def)
  note D = derived_while_fetching [where tb = tb and t = t, OF row, of row']
  have writes: "pc_write pc (derived (ran (tb(t \<mapsto> row'))))" if "(g, pc) \<in> set gs" for g pc
  proof -
    have "pc_write pc (derived (ran tb))" using that by (rule inv_write [OF inv])
    with D show ?thesis by (cases pc) auto
  qed
  have st: "st = RsStaging \<or> derived (ran (tb(t \<mapsto> row'))) = Some st" using inv_status [OF inv] D by auto
  have rows: "\<exists>r. (tb(t \<mapsto> row')) u = Some r \<and> ts_Required r = ts_Required us \<and> pc_row pc r"
    if "((u, us, pl), pc) \<in> insert (?g, pc') (set gs - {(?g, RFetch n)})" for u us pl pc
  proof (cases "u = t")
    case True
    with that only have "us = ts \<and> pc = pc'" by auto
    with True row' show ?thesis by simp
  next
    case False
    with that inv_row [OF inv] show ?thesis by fastforce
  qed
  have prog: "u \<in> W \<or> (\<exists>us pl m. ((u, us, pl), RFetch m) \<in> insert (?g, pc') (set gs - {(?g, RFetch n)}))"
    if "(tb(t \<mapsto> row')) u = Some r" "in_progress r" for u r
  proof (cases "u = t")
    case True
    with that row'(3) show ?thesis by auto
  next
    case False
    with that inv_prog [OF inv, of u r] have "u \<in> W \<or> (\<exists>us pl m. ((u, us, pl), RFetch m) \<in> set gs)" by auto
    with False show ?thesis by blast
  qed
  have writes': "pc_write pc (derived (ran (tb(t \<mapsto> row'))))" if "(g, pc) \<in> insert (?g, pc') (set gs - {(?g, RFetch n)})" for g pc
    using that writes [of g pc] pc'(2) by auto
  show ?thesis
  proof (rule recovery_invI, unfold upd go_names_update [OF i])
    show "live \<or> derived (ran (tb(t \<mapsto> row'))) = Some st \<or> (\<exists>g pc. (g, pc) \<in> insert (?g, pc') (set gs - {(?g, RFetch n)}) \<and> pc_due pc)"
      using pc'(1) by blast
  qed (fact dist go_apart_update [OF inv i, unfolded upd] inv_live [OF inv] rows prog writes' st)+
qed

lemma inv_check:
  assumes inv: "recovery_inv W live st tb gs" and i: "i < length gs" "gs ! i = (g, RCheck)"
    and wr: "write_target wr = (if derived (ran tb) = Some st then None else derived (ran tb))"
  shows "recovery_inv W live st tb (gs[i := (g, RWrite wr)])"
proof -
  note dist = inv_names [OF inv]
  note upd = set_update_go [OF i dist]
  have mem: "(g, RCheck) \<in> set gs" using i by (metis nth_mem)
  have due: "live \<or> derived (ran tb) = Some st \<or> (\<exists>h pc. (h, pc) \<in> insert (g, RWrite wr) (set gs - {(g, RCheck)}) \<and> pc_due pc)"
  proof (cases "derived (ran tb)")
    case None
    then obtain t row where "tb t = Some row" "in_progress row" by (auto simp: derived_cases ran_def)
    with inv_prog [OF inv] inv_live [OF inv] have "live \<or> (\<exists>ts plan n. ((t, ts, plan), RFetch n) \<in> set gs)" by blast
    then have "live \<or> (\<exists>ts plan n. ((t, ts, plan), RFetch n) \<in> insert (g, RWrite wr) (set gs - {(g, RCheck)}))" by blast
    then show ?thesis by (meson pc_due.simps(3))
  next
    case (Some x)
    with wr have "x = st \<or> pc_due (RWrite wr)" by auto
    with Some show ?thesis by blast
  qed
  have rows: "\<exists>row. tb t = Some row \<and> ts_Required row = ts_Required ts \<and> pc_row pc row"
    if "((t, ts, plan), pc) \<in> insert (g, RWrite wr) (set gs - {(g, RCheck)})" for t ts plan pc
    using that mem inv_row [OF inv, of t ts plan] by (cases "pc = RWrite wr \<and> (t, ts, plan) = g") fastforce+
  have prog: "t \<in> W \<or> (\<exists>ts plan n. ((t, ts, plan), RFetch n) \<in> insert (g, RWrite wr) (set gs - {(g, RCheck)}))"
    if "tb t = Some row" "in_progress row" for t row
    using inv_prog [OF inv that] by blast
  have writes: "pc_write pc (derived (ran tb))" if "(h, pc) \<in> insert (g, RWrite wr) (set gs - {(g, RCheck)})" for h pc
    using that wr inv_write [OF inv, of h pc] by auto
  show ?thesis
    by (rule recovery_invI, unfold upd go_names_update [OF i])
      (fact dist go_apart_update [OF inv i, of "RWrite wr", unfolded upd] inv_live [OF inv] rows prog writes due inv_status [OF inv])+
qed

lemma inv_done:
  assumes inv: "recovery_inv W live st tb gs" and i: "i < length gs" "gs ! i = (g, pc)"
    and pc: "pc = RWrite wr \<and> tgt = write_target wr \<or> pc = RFail err \<and> tgt = Some RsFailed"
  shows "recovery_inv W live (case tgt of None \<Rightarrow> st | Some s \<Rightarrow> s) tb (gs[i := (g, RDone)])"
proof -
  let ?st = "case tgt of None \<Rightarrow> st | Some s \<Rightarrow> s"
  note dist = inv_names [OF inv]
  note upd = set_update_go [OF i dist]
  have mem: "(g, pc) \<in> set gs" using i by (metis nth_mem)
  obtain t ts plan where g: "g = (t, ts, plan)" by (cases g)
  obtain row where row: "tb t = Some row" "ts_Required row = ts_Required ts" "pc_row pc row"
    using inv_row [OF inv mem [unfolded g]] by blast
  have nip: "\<not> in_progress row" using row(3) pc by (auto simp: fatal_def in_progress_def)
  have D: "tgt = None \<or> tgt = derived (ran tb)"
  proof (rule disjE [OF pc])
    assume a: "pc = RFail err \<and> tgt = Some RsFailed"
    with row(3) have "fatal row" by simp
    with ranI [where m = tb and a = t, OF row(1)] have "derived (ran tb) = Some RsFailed" by (auto simp: derived_cases)
    with a show ?thesis by simp
  next
    assume "pc = RWrite wr \<and> tgt = write_target wr"
    moreover have "pc_write pc (derived (ran tb))" using mem by (rule inv_write [OF inv])
    ultimately show ?thesis by auto
  qed
  have st: "?st = RsStaging \<or> derived (ran tb) = Some ?st" using inv_status [OF inv] D by (cases tgt; cases "derived (ran tb)") auto
  have due: "live \<or> derived (ran tb) = Some ?st \<or> (\<exists>h pc'. (h, pc') \<in> insert (g, RDone) (set gs - {(g, pc)}) \<and> pc_due pc')"
  proof (cases tgt)
    case None
    with pc have "\<not> pc_due pc" by auto
    with None inv_due [OF inv] show ?thesis by fastforce
  next
    case (Some s)
    then show ?thesis using D by (metis option.distinct(1) option.simps(5))
  qed
  have rows: "\<exists>row. tb u = Some row \<and> ts_Required row = ts_Required us \<and> pc_row pc' row"
    if "((u, us, pl), pc') \<in> insert (g, RDone) (set gs - {(g, pc)})" for u us pl pc'
    using that row nip inv_row [OF inv, of u us pl] by (cases "pc' = RDone \<and> (u, us, pl) = g") (auto simp: g)
  have prog: "u \<in> W \<or> (\<exists>us pl n. ((u, us, pl), RFetch n) \<in> insert (g, RDone) (set gs - {(g, pc)}))"
    if "tb u = Some r" "in_progress r" for u r
  proof -
    have "RFetch n \<noteq> pc" for n using pc by auto
    with inv_prog [OF inv that] show ?thesis by blast
  qed
  have writes: "pc_write pc' (derived (ran tb))" if "(h, pc') \<in> insert (g, RDone) (set gs - {(g, pc)})" for h pc'
    using that inv_write [OF inv, of h pc'] by auto
  show ?thesis
    by (rule recovery_invI, unfold upd go_names_update [OF i])
      (fact dist go_apart_update [OF inv i, of RDone, unfolded upd] inv_live [OF inv] rows prog writes due st)+
qed

text \<open>The loop's part: a table it leaves as it is, settles itself, or starts a goroutine for.\<close>

lemma inv_settle:
  assumes inv: "recovery_inv W live st tb gs" and t: "tb t = Some row" "in_progress row" "t \<in> W" "\<not> in_progress row'"
  shows "recovery_inv (W - {t}) True st (tb(t \<mapsto> row')) gs"
proof -
  note D = derived_while_fetching [where tb = tb and t = t, OF t(1,2), of row']
  have other: "u \<noteq> t" if "((u, us, pl), pc) \<in> set gs" for u us pl pc using that inv_apart [OF inv] t(3) by force
  show ?thesis
  proof (rule recovery_invI)
    show "\<exists>r. (tb(t \<mapsto> row')) u = Some r \<and> ts_Required r = ts_Required us \<and> pc_row pc r" if "((u, us, pl), pc) \<in> set gs" for u us pl pc
      using inv_row [OF inv that] other [OF that] by simp
    show "u \<in> W - {t} \<or> (\<exists>us pl n. ((u, us, pl), RFetch n) \<in> set gs)" if "(tb(t \<mapsto> row')) u = Some r" "in_progress r" for u r
      using inv_prog [OF inv, of u r] that t(4) by (cases "u = t") auto
    show "pc_write pc (derived (ran (tb(t \<mapsto> row'))))" if "(g, pc) \<in> set gs" for g pc
      using inv_write [OF inv that] D by (cases pc) auto
  qed (use inv_names [OF inv] inv_apart [OF inv] inv_status [OF inv] D in auto)
qed

lemma inv_launch:
  assumes inv: "recovery_inv W live st tb gs" and t: "tb t = Some row" "in_progress row" "t \<in> W"
    and row': "ts_Required row' = ts_Required ts" "ts_Status row' = TsFetching" and live': "W - {t} \<noteq> {} \<Longrightarrow> live'"
  shows "recovery_inv (W - {t}) live' st (tb(t \<mapsto> row')) (gs @ spawned (Some (t, ts, plan)))"
proof -
  note D = derived_while_fetching [where tb = tb and t = t, OF t(1,2), of row']
  have other: "u \<noteq> t" if "((u, us, pl), pc) \<in> set gs" for u us pl pc using that inv_apart [OF inv] t(3) by force
  show ?thesis
  proof (rule recovery_invI)
    show "distinct (map (fst \<circ> fst) (gs @ spawned (Some (t, ts, plan))))"
      using inv_names [OF inv] inv_apart [OF inv] t(3) by (force simp: spawned_def)
    show "(fst \<circ> fst) ` set (gs @ spawned (Some (t, ts, plan))) \<inter> (W - {t}) = {}"
      using inv_apart [OF inv] by (auto simp: spawned_def)
    show "\<exists>r. (tb(t \<mapsto> row')) u = Some r \<and> ts_Required r = ts_Required us \<and> pc_row pc r"
      if "((u, us, pl), pc) \<in> set (gs @ spawned (Some (t, ts, plan)))" for u us pl pc
      using that inv_row [OF inv, of u us pl pc] other [of u us pl pc] row' by (auto simp: spawned_def)
    show "u \<in> W - {t} \<or> (\<exists>us pl n. ((u, us, pl), RFetch n) \<in> set (gs @ spawned (Some (t, ts, plan))))"
      if "(tb(t \<mapsto> row')) u = Some r" "in_progress r" for u r
      using inv_prog [OF inv, of u r] that by (cases "u = t") (auto simp: spawned_def)
    show "pc_write pc (derived (ran (tb(t \<mapsto> row'))))" if "(g, pc) \<in> set (gs @ spawned (Some (t, ts, plan)))" for g pc
      using that inv_write [OF inv, of g pc] D by (cases pc) (auto simp: spawned_def)
    show "live' \<or> derived (ran (tb(t \<mapsto> row'))) = Some st \<or> (\<exists>g pc. (g, pc) \<in> set (gs @ spawned (Some (t, ts, plan))) \<and> pc_due pc)"
    proof -
      have "((t, ts, plan), RFetch 0) \<in> set (gs @ spawned (Some (t, ts, plan)))" by (simp add: spawned_def)
      then show ?thesis by (meson pc_due.simps(3))
    qed
  qed (use inv_status [OF inv] D live' in auto)
qed

lemma inv_live_change:
  "recovery_inv W live st tb gs \<Longrightarrow> (W \<noteq> {} \<Longrightarrow> live') \<Longrightarrow> (live \<Longrightarrow> live' \<or> derived (ran tb) = Some st) \<Longrightarrow> recovery_inv W live' st tb gs"
  unfolding recovery_inv_def by blast

subsection \<open>Over any store\<close>

lemma decide_target:
  "write_target (decide_write (Inr (Some run))) = (if DeriveRunStatus run = Some (sg_Status run) then None else DeriveRunStatus run)"
  by (auto simp: decide_write_def split: option.splits)

context staging_store
begin

lemma put_law:
  assumes "ok d" "view d i = Some (st, tb)" "tb (ts_Name ts) = Some old"
  shows "\<exists>ts'. ts_Status ts' = ts_Status ts \<and> ts_Required ts' = ts_Required old \<and> ok (put_table ops i ts d) \<and>
    view (put_table ops i ts d) = (view d)(i \<mapsto> (st, tb(ts_Name ts \<mapsto> ts')))"
  using table_law [OF assms, of ts "fst (so_UpdateTable ops i (ts_Name ts) ts d)" "snd (so_UpdateTable ops i (ts_Name ts) ts d)"]
  by (auto simp: put_table_def)

lemma write_law:
  assumes "ok d" "view d i = Some (st, tb)"
  shows "ok (apply_write ops i wr d) \<and> view (apply_write ops i wr d) i = Some (case write_target wr of None \<Rightarrow> st | Some s \<Rightarrow> s, tb)"
proof (cases wr)
  case NoWrite
  with assms show ?thesis by (simp add: apply_write_def)
next
  case (WriteFail msg)
  let ?r = "so_FailRun ops i (Some (staging_error msg ''permanent'' False)) d"
  from fail_law [OF assms, of _ "fst ?r" "snd ?r"] WriteFail show ?thesis by (simp add: apply_write_def)
next
  case (WriteStatus s)
  let ?r = "so_UpdateStatus ops i s d"
  from status_law [OF assms, of _ "fst ?r" "snd ?r"] WriteStatus show ?thesis by (simp add: apply_write_def)
qed

lemma check_law:
  assumes "ok d" "view d i = Some (st, tb)" "so_Get ops i d = (d', x)"
  shows "ok d' \<and> view d' = view d \<and> write_target (decide_write x) = (if derived (ran tb) = Some st then None else derived (ran tb))"
  by (rule get_derives [OF assms]) (simp add: decide_target)

text \<open>The sequential check, in one go.\<close>

lemma transition_law:
  assumes "ok d" "view d i = Some (st, tb)"
  shows "ok (checkAndTransitionRecoveredRun ops i d) \<and>
    view (checkAndTransitionRecoveredRun ops i d) i = Some (case derived (ran tb) of None \<Rightarrow> st | Some s \<Rightarrow> s, tb)"
proof -
  obtain d1 x where g: "so_Get ops i d = (d1, x)" by (metis prod.exhaust)
  from check_law [OF assms g] assms(2)
  have d1: "ok d1" "view d1 i = Some (st, tb)"
    and x: "write_target (decide_write x) = (if derived (ran tb) = Some st then None else derived (ran tb))" by auto
  from write_law [OF d1, of "decide_write x"] show ?thesis
    by (auto simp: checkAndTransitionRecoveredRun_def checkAndTransitionRunToStaged_def g x split: option.splits)
qed

lemma fetch_inv:
  assumes d: "ok d" "view d runID = Some (st, tb)" and inv: "recovery_inv W live st tb gs"
    and i: "i < length gs" "gs ! i = ((t, ts, plan), RFetch n)" and name: "ts_Name nts = t"
    and pc': "\<And>row'. ts_Status row' = ts_Status nts \<Longrightarrow> ts_Required row' = ts_Required ts \<Longrightarrow> pc_row pc' row' \<and> (in_progress row' \<longrightarrow> (\<exists>m. pc' = RFetch m))"
      "pc_due pc'" "\<And>D. pc_write pc' D"
  shows "\<exists>st' tb'. ok (put_table ops runID nts d) \<and> view (put_table ops runID nts d) runID = Some (st', tb') \<and>
    (\<forall>u. u \<noteq> t \<longrightarrow> tb' u = tb u) \<and> recovery_inv W live st' tb' (gs[i := ((t, ts, plan), pc')])"
proof -
  from i have "((t, ts, plan), RFetch n) \<in> set gs" by (metis nth_mem)
  with inv_row [OF inv] obtain row where row: "tb t = Some row" "ts_Required row = ts_Required ts" by blast
  from put_law [OF d, of nts row] row name obtain row' where
    row': "ts_Status row' = ts_Status nts" "ts_Required row' = ts_Required ts" "ok (put_table ops runID nts d)"
      "view (put_table ops runID nts d) = (view d)(runID \<mapsto> (st, tb(t \<mapsto> row')))" by auto
  have "recovery_inv W live st (tb(t \<mapsto> row')) (gs[i := ((t, ts, plan), pc')])"
    using pc' row' by (intro inv_table [OF inv i]) auto
  with row' show ?thesis by (intro exI [of _ st] exI [of _ "tb(t \<mapsto> row')"]) auto
qed

lemma go_step_inv:
  assumes d: "ok d" "view d runID = Some (st, tb)" and inv: "recovery_inv W live st tb gs"
    and i: "i < length gs" "gs ! i = (g, pc)" and step: "pc \<noteq> RDone" "go_step ops env fetch runID g pc d = (d', pc')"
  shows "\<exists>st' tb'. ok d' \<and> view d' runID = Some (st', tb') \<and> (\<forall>u. u \<noteq> fst g \<longrightarrow> tb' u = tb u) \<and>
    recovery_inv W live st' tb' (gs[i := (g, pc')])"
proof -
  obtain t ts plan where g: "g = (t, ts, plan)" by (cases g)
  show ?thesis
  proof (cases pc)
    case (RFetch n)
    note fi = fetch_inv [OF d inv i(1) i(2) [unfolded g RFetch]]
    show ?thesis
    proof (cases "fetch (recover_opts env runID t ts plan) (fp_Pagination plan) n")
      case (Inr lr)
      with step RFetch g have r: "d' = put_table ops runID (recovered_table env t ts lr) d" "pc' = RCheck" by auto
      show ?thesis unfolding g r fst_conv by (rule fi) (auto simp: recovered_table_def zero_table_def in_progress_def)
    next
      case (Inl err)
      show ?thesis
      proof (cases "Suc n > recoveryMaxRetries")
        case True
        with step RFetch g Inl have r: "d' = put_table ops runID (exhausted_table env t ts (Suc n) err) d"
          "pc' = (if ts_Required ts then RFail err else RCheck)" by auto
        show ?thesis unfolding g r fst_conv by (rule fi) (auto simp: exhausted_table_def zero_table_def in_progress_def fatal_def)
      next
        case False
        with step RFetch g Inl have r: "d' = put_table ops runID (retried_table t (ts_FetchMode ts) (ts_Required ts) True (Suc n) err) d"
          "pc' = RFetch (Suc n)" by auto
        show ?thesis unfolding g r fst_conv by (rule fi) (auto simp: retried_table_def zero_table_def in_progress_def)
      qed
    qed
  next
    case RCheck
    with step obtain x where x: "so_Get ops runID d = (d', x)" "pc' = RWrite (decide_write x)" by (auto split: prod.splits)
    from check_law [OF d x(1)] have "ok d'" "view d' = view d"
      "write_target (decide_write x) = (if derived (ran tb) = Some st then None else derived (ran tb))" by auto
    with inv_check [OF inv i(1) i(2) [unfolded RCheck], of "decide_write x"] d(2) x(2) show ?thesis by auto
  next
    case (RWrite wr)
    with step have r: "d' = apply_write ops runID wr d" "pc' = RDone" by auto
    from inv_done [OF inv i, of wr "write_target wr"] RWrite write_law [OF d, of wr] show ?thesis unfolding r by auto
  next
    case (RFail err)
    with step g have r: "\<exists>e. d' = fst (so_FailRun ops runID e d)" "pc' = RDone" by auto
    then obtain e where e: "d' = fst (so_FailRun ops runID e d)" by blast
    from fail_law [OF d, of e d'] e have "ok d'" "view d' runID = Some (RsFailed, tb)" by (auto simp: prod_eq_iff)
    with inv_done [OF inv i, of _ "Some RsFailed" err] RFail r(2) show ?thesis by auto
  qed (use step in simp)
qed

lemma update_law:
  assumes "ok d" "view d i = Some (st, tb)" "tb t = Some old"
  shows "\<exists>ts'. ts_Status ts' = ts_Status ts \<and> ts_Required ts' = ts_Required old \<and> ok (fst (so_UpdateTable ops i t ts d)) \<and>
    view (fst (so_UpdateTable ops i t ts d)) i = Some (st, tb(t \<mapsto> ts'))"
  using table_law [OF assms, of ts "fst (so_UpdateTable ops i t ts d)" "snd (so_UpdateTable ops i t ts d)"] by auto

lemma recover_one_law:
  assumes d: "ok d" "view d i = Some (st, tb)" "tb t = Some ts"
  shows "\<exists>row. ok (fst (recover_one ops env i (t, ts) d)) \<and> ts_Required row = ts_Required ts \<and>
    view (fst (recover_one ops env i (t, ts) d)) i = Some (st, tb(t \<mapsto> row)) \<and>
    (case snd (recover_one ops env i (t, ts) d) of
       None \<Rightarrow> \<not> launches env (t, ts) \<and> \<not> in_progress row \<and> (in_progress ts \<or> row = ts)
     | Some (u, us, plan) \<Rightarrow> launches env (t, ts) \<and> u = t \<and> ts_Required us = ts_Required ts \<and> ts_Status row = TsFetching)"
proof -
  have settled: ?thesis if "recover_one ops env i (t, ts) d = (fst (so_UpdateTable ops i t nts d), None)"
    "ts_Status nts \<in> {TsStaged, TsFailed}" "in_progress ts" "\<not> launches env (t, ts)" for nts
    unfolding that(1) using update_law [OF d, of nts] that(2-4) by (auto simp: in_progress_def)
  have fetching: ?thesis if "recover_one ops env i (t, ts) d = (fst (so_UpdateTable ops i t nts d), Some (t, nts, plan))"
    "ts_Status nts = TsFetching" "ts_Required nts = ts_Required ts" "launches env (t, ts)" for nts plan
    unfolding that(1) using update_law [OF d, of nts] that(2-4) by auto
  have kept: ?thesis if "recover_one ops env i (t, ts) d = (d, None)" "\<not> in_progress ts"
    using that d by (auto simp: fun_upd_idem launches_def Let_def intro!: exI [of _ ts])
  let ?failed = "\<lambda>reason. ts\<lparr>ts_Status := TsFailed, ts_CompletedAt := Some (gx_now env), ts_LastErrorAt := Some (gx_now env),
    ts_Error := Some (staging_error reason ''permanent'' False)\<rparr>"
  consider "\<not> in_progress ts" | "in_progress ts" "ts_ParquetPath ts \<noteq> []" "gx_exists env (ts_ParquetPath ts)"
    | "in_progress ts" "ts_ParquetPath ts = [] \<or> \<not> gx_exists env (ts_ParquetPath ts)" by blast
  then show ?thesis
  proof cases
    case 1
    then show ?thesis by (intro kept) (auto simp: recover_one_def in_progress_def)
  next
    case 2
    then show ?thesis
      by (intro settled [of "ts\<lparr>ts_Status := TsStaged, ts_CompletedAt := Some (gx_now env), ts_ResumedFromRestart := True\<rparr>"])
        (auto simp: recover_one_def in_progress_def launches_def)
  next
    case 3
    then have go: "\<not> (ts_Status ts \<noteq> TsFetching \<and> ts_Status ts \<noteq> TsPending)" "\<not> (ts_ParquetPath ts \<noteq> [] \<and> gx_exists env (ts_ParquetPath ts))"
      by (auto simp: in_progress_def)
    note one = recover_one_def [of ops env i "(t, ts)" d, simplified prod.case, unfolded if_not_P [OF go(1)] if_not_P [OF go(2)]]
    show ?thesis
    proof (cases "case ts_FetchPlan ts of None \<Rightarrow> True | Some js \<Rightarrow> js = []")
      case True
      with 3 show ?thesis
        by (intro settled [of "?failed ''no serialized fetch plan for recovery''"])
          (auto simp: one failTable_def launches_def split: option.splits)
    next
      case False
      then obtain js where js: "ts_FetchPlan ts = Some js" "js \<noteq> []" by (auto split: option.splits)
      show ?thesis
      proof (cases "gx_fetcher env")
        case False
        with js 3 show ?thesis
          by (intro settled [of "?failed ''MCP fetcher unavailable at recovery time''"]) (auto simp: one failTable_def launches_def)
      next
        case f: True
        show ?thesis
        proof (cases "gx_decode env js")
          case (Inl err)
          with js f 3 show ?thesis
            by (intro settled [of "?failed (''fetch plan unmarshal: '' @ error_string err)"]) (auto simp: one failTable_def launches_def)
        next
          case (Inr plan)
          with js f 3 show ?thesis
            by (intro fetching [of "ts\<lparr>ts_Status := TsFetching, ts_ResumedFromRestart := True, ts_StartedAt := Some (gx_now env)\<rparr>" plan])
              (auto simp: one Let_def launches_def)
        qed
      qed
    qed
  qed
qed

end

text \<open>Where the loop stands: what it still has to come to, and that it still matters.\<close>

fun re_waiting :: "recover_pc \<Rightarrow> string set" where
  "re_waiting (ReTables es n) = fst ` set (filter (in_progress \<circ> snd) es)"
| "re_waiting _ = {}"

fun re_live :: "bool \<Rightarrow> recover_pc \<Rightarrow> bool" where
  "re_live stuck (ReTables es n) \<longleftrightarrow> stuck \<or> n = 0 \<or> re_waiting (ReTables es n) \<noteq> {}"
| "re_live stuck ReCheck \<longleftrightarrow> True"
| "re_live stuck (ReWrite wr) \<longleftrightarrow> write_target wr \<noteq> None"
| "re_live stuck _ \<longleftrightarrow> stuck"

definition main_inv ::
    "stage_env \<Rightarrow> StagingRun \<Rightarrow> bool \<Rightarrow> recover_pc \<Rightarrow> RunStatus \<Rightarrow> (string \<rightharpoonup> TableState) \<Rightarrow> goroutines \<Rightarrow> bool" where
  "main_inv env run stuck pc st tb gs \<longleftrightarrow>
     (case pc of
        ReRecovery \<Rightarrow> gs = [] \<and> tb = map_of (sg_Tables run)
      | ReStatus \<Rightarrow> gs = [] \<and> tb = map_of (sg_Tables run)
      | ReTables es n \<Rightarrow>
          n = length gs \<and> distinct (map fst es) \<and> (\<forall>(t, ts) \<in> set es. tb t = Some ts \<and> t \<notin> (fst \<circ> fst) ` set gs) \<and>
          (stuck \<or> (if gs = [] then settled_first env es else list_all (\<lambda>f. \<not> settles env f) es)) \<and>
          recovery_inv (re_waiting pc) (re_live stuck pc) st tb gs
      | ReCheck \<Rightarrow> gs = [] \<and> recovery_inv {} True st tb []
      | ReWrite wr \<Rightarrow> gs = [] \<and> pc_write (RWrite wr) (derived (ran tb)) \<and> recovery_inv {} (re_live stuck pc) st tb []
      | ReReturned r \<Rightarrow> r = Inr () \<and> recovery_inv {} stuck st tb gs)"

context staging_store
begin

text \<open>A step of the loop.\<close>

lemma main_table_inv:
  assumes d: "ok d" "view d (sg_ID run) = Some (st, tb)" and inv: "main_inv env run stuck (ReTables (e # es) n) st tb gs"
    and step: "recover_step ops env run order (ReTables (e # es) n) d = (d', pc', x)"
  shows "\<exists>tb'. ok d' \<and> view d' (sg_ID run) = Some (st, tb') \<and> main_inv env run stuck pc' st tb' (gs @ spawned x)"
proof -
  obtain t ts where e: "e = (t, ts)" by (cases e)
  let ?W = "re_waiting (ReTables (e # es) n)" and ?L = "re_live stuck (ReTables (e # es) n)" and ?W' = "re_waiting (ReTables es n)"
  have i: "n = length gs" "distinct (map fst (e # es))" "tb t = Some ts" "t \<notin> (fst \<circ> fst) ` set gs"
      "stuck \<or> (if gs = [] then settled_first env (e # es) else list_all (\<lambda>f. \<not> settles env f) (e # es))"
      "recovery_inv ?W ?L st tb gs"
    and rest: "\<forall>(u, us) \<in> set es. tb u = Some us \<and> u \<notin> (fst \<circ> fst) ` set gs"
    using inv by (auto simp: main_inv_def e)
  have t: "t \<notin> fst ` set es" "distinct (map fst es)" using i(2) by (auto simp: e)
  have W: "?W = (if in_progress ts then insert t ?W' else ?W')" "t \<notin> ?W'" using t by (auto simp: e)
  obtain d1 g where g: "recover_one ops env (sg_ID run) (t, ts) d = (d1, g)" by (metis prod.exhaust)
  from recover_one_law [OF d i(3), of env] obtain row where
    row: "ok d1" "ts_Required row = ts_Required ts" "view d1 (sg_ID run) = Some (st, tb(t \<mapsto> row))"
      "case g of None \<Rightarrow> \<not> launches env (t, ts) \<and> \<not> in_progress row \<and> (in_progress ts \<or> row = ts)
       | Some (u, us, plan) \<Rightarrow> launches env (t, ts) \<and> u = t \<and> ts_Required us = ts_Required ts \<and> ts_Status row = TsFetching"
    unfolding g fst_conv snd_conv by blast
  have rest': "\<forall>(u, us) \<in> set es. (tb(t \<mapsto> row)) u = Some us \<and> u \<notin> insert t ((fst \<circ> fst) ` set gs)"
    using rest t(1) by force
  show ?thesis
  proof (cases g)
    case None
    with step g have r: "d' = d1" "pc' = ReTables es n" "x = None" by (auto simp: e)
    have nl: "\<not> launches env e" "\<not> in_progress row" "in_progress ts \<or> row = ts" using row(4) None by (simp_all add: e)
    have order: "stuck \<or> (if gs = [] then settled_first env es else list_all (\<lambda>f. \<not> settles env f) es)" using i(5) nl(1) by auto
    have "recovery_inv ?W' (re_live stuck (ReTables es n)) st (tb(t \<mapsto> row)) gs"
    proof (cases "in_progress ts")
      case True
      then have "recovery_inv (?W - {t}) True st (tb(t \<mapsto> row)) gs"
        by (intro inv_settle [OF i(6,3)]) (use W nl(2) in auto)
      moreover have "stuck \<or> gs = []"
        using i(5) True nl(1) by (auto simp: settles_def e)
      ultimately show ?thesis using W True i(1) by (auto intro: inv_live_change)
    next
      case False
      with nl(3) i(3) have "tb(t \<mapsto> row) = tb" by (auto simp: fun_upd_idem)
      moreover have "?L = re_live stuck (ReTables es n)" using False by (auto simp: e)
      ultimately show ?thesis using i(6) W(1) False by simp
    qed
    then have "main_inv env run stuck (ReTables es n) st (tb(t \<mapsto> row)) gs"
      using rest' t(2) i(1) order by (fastforce simp: main_inv_def)
    with row(1,3) r show ?thesis by (auto simp: spawned_def)
  next
    case (Some y)
    obtain us plan where y: "y = (t, us, plan)" "ts_Required us = ts_Required ts" "ts_Status row = TsFetching" "launches env e"
      using row(4) Some by (cases y) (auto simp: e)
    with step g Some have r: "d' = d1" "pc' = ReTables es (Suc n)" "x = Some (t, us, plan)" by (auto simp: e)
    have prog: "in_progress ts" using y(4) by (simp add: launches_def Let_def e)
    have order: "stuck \<or> list_all (\<lambda>f. \<not> settles env f) es" using i(5) y(4) by (auto split: if_splits)
    have "recovery_inv (?W - {t}) (re_live stuck (ReTables es (Suc n))) st (tb(t \<mapsto> row)) (gs @ spawned (Some (t, us, plan)))"
      by (rule inv_launch [OF i(6,3) prog]) (use W prog row(2) y(2,3) in auto)
    then have "main_inv env run stuck (ReTables es (Suc n)) st (tb(t \<mapsto> row)) (gs @ spawned (Some (t, us, plan)))"
      using rest' t(2) i(1) order W prog by (fastforce simp: main_inv_def spawned_def)
    with row(1,3) r show ?thesis by auto
  qed
qed

lemma main_step_inv:
  assumes d: "ok d" "view d (sg_ID run) = Some (st, tb)" and inv: "main_inv env run (\<not> settled_first env order) pc st tb gs"
    and order: "distinct (map fst (sg_Tables run))" "mset order = mset (sg_Tables run)"
    and step: "\<not> re_returned pc" "recover_step ops env run order pc d = (d', pc', x)"
  shows "\<exists>st' tb'. ok d' \<and> view d' (sg_ID run) = Some (st', tb') \<and> main_inv env run (\<not> settled_first env order) pc' st' tb' (gs @ spawned x)"
proof (cases pc)
  case ReRecovery
  obtain d1 r1 where u: "so_UpdateRecovery ops (sg_ID run) (sg_ResumeCount run + 1) (gx_now env) d = (d1, r1)" by (metis prod.exhaust)
  from recovery_law [OF d u] have "ok d1" "r1 = Inr ()" "view d1 = view d" by auto
  with step u ReRecovery inv d(2) show ?thesis by (auto simp: main_inv_def spawned_def)
next
  case ReStatus
  obtain d1 r1 where u: "so_UpdateStatus ops (sg_ID run) RsStaging d = (d1, r1)" by (metis prod.exhaust)
  from status_law [OF d u] have d1: "ok d1" "r1 = Inr ()" "view d1 (sg_ID run) = Some (RsStaging, tb)" by auto
  have tb: "gs = []" "tb = map_of (sg_Tables run)" using inv ReStatus by (simp_all add: main_inv_def)
  have set: "set order = set (sg_Tables run)" and dist: "distinct (map fst order)"
    using order by (metis mset_eq_setD, metis mset_eq_imp_distinct_iff mset_map)
  have rows: "\<forall>(t, ts) \<in> set order. tb t = Some ts" using order(1) by (auto simp: tb(2) set)
  have prog: "t \<in> fst ` set (filter (in_progress \<circ> snd) order)" if "tb t = Some row" "in_progress row" for t row
    using that by (force simp: tb(2) set dest: map_of_SomeD)
  have "recovery_inv (re_waiting (ReTables order 0)) (re_live (\<not> settled_first env order) (ReTables order 0)) RsStaging tb []"
    by (rule recovery_invI) (use prog in auto)
  with rows dist have "main_inv env run (\<not> settled_first env order) (ReTables order 0) RsStaging tb []"
    by (fastforce simp: main_inv_def)
  with step u ReStatus d1 tb(1) show ?thesis by (auto simp: spawned_def)
next
  case (ReTables es n)
  show ?thesis
  proof (cases es)
    case Nil
    have i: "n = length gs" "recovery_inv {} (re_live (\<not> settled_first env order) (ReTables [] n)) st tb gs"
      using inv unfolding main_inv_def ReTables Nil recover_pc.case by auto
    have "main_inv env run (\<not> settled_first env order) pc' st tb gs"
    proof (cases "n = 0")
      case True
      with step ReTables Nil i show ?thesis by (simp add: main_inv_def)
    next
      case False
      with step ReTables Nil i show ?thesis by (auto simp: main_inv_def)
    qed
    with step ReTables Nil d show ?thesis by (auto simp: spawned_def)
  next
    case (Cons e rest)
    from main_table_inv [OF d inv [unfolded ReTables Cons] step(2) [unfolded ReTables Cons]] show ?thesis by blast
  qed
next
  case ReCheck
  then have i: "gs = []" "recovery_inv {} True st tb []" using inv by (simp_all add: main_inv_def)
  obtain d1 y where u: "so_Get ops (sg_ID run) d = (d1, y)" by (metis prod.exhaust)
  from check_law [OF d u] have d1: "ok d1" "view d1 = view d"
    and y: "write_target (decide_write y) = (if derived (ran tb) = Some st then None else derived (ran tb))" by auto
  have D: "derived (ran tb) \<noteq> None" by (rule all_done_settled(2) [OF i(2)]) (simp add: all_done_def)
  have "main_inv env run (\<not> settled_first env order) (ReWrite (decide_write y)) st tb []"
    using y D i(2) by (auto simp: main_inv_def intro: inv_live_change)
  with step u ReCheck d1 d(2) i(1) show ?thesis by (auto simp: spawned_def)
next
  case (ReWrite wr)
  then have i: "gs = []" "write_target wr = None \<or> write_target wr = derived (ran tb)" "recovery_inv {} (write_target wr \<noteq> None) st tb []"
    using inv by (simp_all add: main_inv_def)
  let ?st = "case write_target wr of None \<Rightarrow> st | Some s \<Rightarrow> s"
  from write_law [OF d, of wr] have w: "ok (apply_write ops (sg_ID run) wr d)" "view (apply_write ops (sg_ID run) wr d) (sg_ID run) = Some (?st, tb)"
    by auto
  have "derived (ran tb) = Some ?st"
    using i(2) all_done_settled(1) [OF i(3)] by (cases "write_target wr") (auto simp: all_done_def)
  moreover have "\<not> in_progress row" if "tb t = Some row" for t row using inv_prog [OF i(3) that] by auto
  ultimately have "recovery_inv {} (\<not> settled_first env order) ?st tb []" by (intro recovery_invI) auto
  with step ReWrite w i(1) show ?thesis by (auto simp: main_inv_def spawned_def)
qed (use step in simp)

lemma main_inv_go:
  assumes inv: "main_inv env run stuck pc st tb gs" and i: "i < length gs" "gs ! i = (g, q)"
  obtains W live where "recovery_inv W live st tb gs"
    "\<And>st' tb' q'. recovery_inv W live st' tb' (gs[i := (g, q')]) \<Longrightarrow> \<forall>u. u \<noteq> fst g \<longrightarrow> tb' u = tb u \<Longrightarrow>
       main_inv env run stuck pc st' tb' (gs[i := (g, q')])"
proof -
  have ne: "gs \<noteq> []" using i(1) by auto
  have names: "(fst \<circ> fst) ` set (gs[i := (g, q')]) = (fst \<circ> fst) ` set gs" for q' using go_names_update [OF i, of q'] by (metis set_map)
  have mem: "fst g \<in> (fst \<circ> fst) ` set gs" using i by (metis comp_apply fst_conv imageI nth_mem)
  show thesis
  proof (cases pc)
    case (ReTables es n)
    have rows: "tb' t = Some ts \<and> t \<notin> (fst \<circ> fst) ` set (gs[i := (g, q')])"
      if "(t, ts) \<in> set es" "\<forall>u. u \<noteq> fst g \<longrightarrow> tb' u = tb u" for t ts tb' q'
    proof -
      have "tb t = Some ts" "t \<notin> (fst \<circ> fst) ` set gs" using inv that ReTables by (auto simp: main_inv_def)
      moreover from this(2) mem have "t \<noteq> fst g" by metis
      ultimately show ?thesis using that(2) names [of q'] by simp
    qed
    show thesis
    proof (rule that [of "re_waiting pc" "re_live stuck pc"])
      show "recovery_inv (re_waiting pc) (re_live stuck pc) st tb gs" using inv unfolding main_inv_def ReTables recover_pc.case by blast
    next
      fix st' tb' q'
      assume r: "recovery_inv (re_waiting pc) (re_live stuck pc) st' tb' (gs[i := (g, q')])" and f: "\<forall>u. u \<noteq> fst g \<longrightarrow> tb' u = tb u"
      have "\<forall>(t, ts) \<in> set es. tb' t = Some ts \<and> t \<notin> (fst \<circ> fst) ` set (gs[i := (g, q')])" using rows [OF _ f] by blast
      moreover have "n = length gs" "distinct (map fst es)" "stuck \<or> list_all (\<lambda>f. \<not> settles env f) es"
        using inv ne ReTables by (simp_all add: main_inv_def)
      ultimately show "main_inv env run stuck pc st' tb' (gs[i := (g, q')])"
        using r ne unfolding main_inv_def ReTables recover_pc.case by simp
    qed
  next
    case (ReReturned r)
    then show thesis using inv by (intro that [of "{}" stuck]) (simp_all add: main_inv_def)
  qed (use inv ne in \<open>simp_all add: main_inv_def\<close>)
qed

lemma recovery_step_inv:
  assumes "recovery_step ops env fetch run order (d, pc, gs) (d', pc', gs')" "ok d" "view d (sg_ID run) = Some (st, tb)"
    and "main_inv env run (\<not> settled_first env order) pc st tb gs"
    and "distinct (map fst (sg_Tables run))" "mset order = mset (sg_Tables run)"
  shows "\<exists>st' tb'. ok d' \<and> view d' (sg_ID run) = Some (st', tb') \<and> main_inv env run (\<not> settled_first env order) pc' st' tb' gs'"
  using assms(1)
proof cases
  case (rs_main x)
  from main_step_inv [OF assms(2-6) rs_main(2,3)] rs_main(1) show ?thesis by simp
next
  case (rs_go i g q q')
  from main_inv_go [OF assms(4) rs_go(3,4)] obtain W live where inv: "recovery_inv W live st tb gs"
    and main: "\<And>st' tb' q'. recovery_inv W live st' tb' (gs[i := (g, q')]) \<Longrightarrow> \<forall>u. u \<noteq> fst g \<longrightarrow> tb' u = tb u \<Longrightarrow>
       main_inv env run (\<not> settled_first env order) pc st' tb' (gs[i := (g, q')])" by blast
  from go_step_inv [OF assms(2,3) inv rs_go(3-6)] obtain st' tb' where "ok d'" "view d' (sg_ID run) = Some (st', tb')"
    "\<forall>u. u \<noteq> fst g \<longrightarrow> tb' u = tb u" "recovery_inv W live st' tb' (gs[i := (g, q')])" by blast
  with main rs_go(1,2) show ?thesis by blast
qed

lemma recovery_steps_inv:
  assumes "(recovery_step ops env fetch run order ^^ n) (d, pc, gs) (d', pc', gs')" "ok d" "view d (sg_ID run) = Some (st, tb)"
    and "main_inv env run (\<not> settled_first env order) pc st tb gs"
    and "distinct (map fst (sg_Tables run))" "mset order = mset (sg_Tables run)"
  shows "\<exists>st' tb'. ok d' \<and> view d' (sg_ID run) = Some (st', tb') \<and> main_inv env run (\<not> settled_first env order) pc' st' tb' gs'"
  using assms(1)
proof (induction n arbitrary: d' pc' gs')
  case 0
  with assms(2-4) show ?case by auto
next
  case (Suc n)
  then obtain d1 pc1 gs1 where s: "(recovery_step ops env fetch run order ^^ n) (d, pc, gs) (d1, pc1, gs1)"
    "recovery_step ops env fetch run order (d1, pc1, gs1) (d', pc', gs')"
    by (auto elim!: relpowp_Suc_E)
  from Suc.IH [OF s(1)] obtain st1 tb1 where "ok d1" "view d1 (sg_ID run) = Some (st1, tb1)"
    "main_inv env run (\<not> settled_first env order) pc1 st1 tb1 gs1" by blast
  with recovery_step_inv [OF s(2)] assms(5,6) show ?case by blast
qed

lemma recovery_settles:
  assumes "ok d" "view d (sg_ID run) = Some (st, map_of (sg_Tables run))" "distinct (map fst (sg_Tables run))"
    and "mset order = mset (sg_Tables run)"
    and "(recovery_step ops env fetch run order ^^ n) (d, ReRecovery, []) (d', pc, gs)"
  shows "n \<le> 7 * length order + 5 \<and>
    (if all_done gs \<and> re_returned pc
     then pc = ReReturned (Inr ()) \<and> (\<exists>st' tb x. view d' (sg_ID run) = Some (st', tb) \<and> derived (ran tb) = Some x \<and>
       (st' = x \<or> st' = RsStaging \<and> \<not> settled_first env order))
     else \<exists>s. recovery_step ops env fetch run order (d', pc, gs) s)"
proof -
  have "main_inv env run (\<not> settled_first env order) ReRecovery st (map_of (sg_Tables run)) []" by (simp add: main_inv_def)
  from recovery_steps_inv [OF assms(5,1,2) this assms(3,4)] obtain st' tb where
    v: "view d' (sg_ID run) = Some (st', tb)" "main_inv env run (\<not> settled_first env order) pc st' tb gs" by blast
  have bound: "n \<le> 7 * length order + 5" using recovery_steps_bound [OF assms(5)] by (simp add: total_weight_def)
  show ?thesis
  proof (cases "all_done gs \<and> re_returned pc")
    case True
    then obtain r where pc: "pc = ReReturned r" by (cases pc) auto
    with v(2) have "r = Inr ()" and inv: "recovery_inv {} (\<not> settled_first env order) st' tb gs" by (simp_all add: main_inv_def)
    with all_done_settled [OF inv] True v(1) pc bound show ?thesis by auto
  next
    case False
    with step_until_done [OF False, of ops env fetch run order d'] bound show ?thesis unfolding if_not_P [OF False] by blast
  qed
qed

end

subsection \<open>Recovery on the stores\<close>

lemma listed_view:
  assumes "quiet db" "staging_ok db" "st_ListActive db = (db0, Inr runs)" "run \<in> set runs"
  shows "quiet db0 \<and> staging_ok db0 \<and> run_view db0 (sg_ID run) = Some (sg_Status run, map_of (sg_Tables run)) \<and> distinct (map fst (sg_Tables run))"
proof -
  have db0: "db0 = sd_used db" and runs: "runs = map (\<lambda>r. r\<lparr>sg_Tables := loadTables (sg_ID r) db\<rparr>) (filter (\<lambda>r. \<not> run_IsTerminal r) (sd_runs db))"
    using assms(1,3) by (auto simp: st_ListActive_def)
  obtain r where r: "r \<in> set (sd_runs db)" "run = r\<lparr>sg_Tables := loadTables (sg_ID r) db\<rparr>" using assms(4) by (auto simp: runs)
  have "find (\<lambda>x. sg_ID x = sg_ID r) (sd_runs db) = Some r"
    using find_key_unique [of sg_ID "sd_runs db" r] assms(2) r(1) by (simp add: staging_ok_def)
  then show ?thesis using assms(1,2) loadTables_distinct [OF assms(2)] by (simp add: db0 r(2) run_view_def)
qed

text \<open>
  C23 (recovery_settles_run): recovering a run that was listed as active, over a store whose calls
  succeed: however its loop over the tables, visited in any order, and the goroutines that it
  starts on the way interleave, and whatever the fetches return, all of them stop after at most
  seven steps per table and five more. Then no table is pending or being fetched, the tables give
  a status (failed, pending or staged), and the run has that status, unless the loop settles a
  table itself after it has started a goroutine for another; then it may be left staging.
\<close>

theorem recovery_settles_run:
  assumes "quiet db" "staging_ok db" "st_ListActive db = (db0, Inr runs)" "run \<in> set runs"
    and "mset order = mset (sg_Tables run)"
    and "(recovery_step (store_ops dl) env fetch run order ^^ n) (db0, ReRecovery, []) (db2, pc, gs)"
  shows "n \<le> 7 * length order + 5 \<and>
    (if all_done gs \<and> re_returned pc
     then pc = ReReturned (Inr ()) \<and> (\<exists>st tb x. run_view db2 (sg_ID run) = Some (st, tb) \<and>
       derived (ran tb) = Some x \<and> x \<in> {RsFailed, RsPending, RsStaged} \<and> (st = x \<or> st = RsStaging \<and> \<not> settled_first env order))
     else \<exists>s. recovery_step (store_ops dl) env fetch run order (db2, pc, gs) s)"
proof -
  have D: "derived T = Some st \<Longrightarrow> st \<in> {RsFailed, RsPending, RsStaged}" for T st by (auto simp: derived_def split: if_splits)
  from listed_view [OF assms(1-4)] sqlstore.recovery_settles [where dl = dl, OF _ _ _ assms(5,6)] D show ?thesis
    by (smt (verit, best))
qed

text \<open>The steps in a given order: \<open>None\<close> is one of the loop, \<open>Some i\<close> one of the \<open>i\<close>-th goroutine.\<close>

fun scheduled ::
    "'d staging_ops \<Rightarrow> stage_env \<Rightarrow> fetcher \<Rightarrow> StagingRun \<Rightarrow> (string \<times> TableState) list \<Rightarrow> nat option list \<Rightarrow> 'd recovery \<Rightarrow> 'd recovery" where
  "scheduled ops env fetch run order [] s = s"
| "scheduled ops env fetch run order (None # is) (d, pc, gs) =
     (if re_returned pc then scheduled ops env fetch run order is (d, pc, gs)
      else (case recover_step ops env run order pc d of
              (d1, pc1, x) \<Rightarrow> scheduled ops env fetch run order is (d1, pc1, gs @ spawned x)))"
| "scheduled ops env fetch run order (Some i # is) (d, pc, gs) =
     (if i < length gs \<and> snd (gs ! i) \<noteq> RDone
      then (case go_step ops env fetch (sg_ID run) (fst (gs ! i)) (snd (gs ! i)) d of
              (d1, q) \<Rightarrow> scheduled ops env fetch run order is (d1, pc, gs[i := (fst (gs ! i), q)]))
      else scheduled ops env fetch run order is (d, pc, gs))"

lemma scheduled_steps: "(recovery_step ops env fetch run order)\<^sup>*\<^sup>* s (scheduled ops env fetch run order is s)"
proof (induction "is" arbitrary: s)
  case (Cons x "is")
  obtain d pc gs where s: "s = (d, pc, gs)" by (cases s)
  show ?case
  proof (cases x)
    case None
    show ?thesis
    proof (cases "re_returned pc")
      case False
      obtain d1 pc1 y where r: "recover_step ops env run order pc d = (d1, pc1, y)" by (metis prod.exhaust)
      from converse_rtranclp_into_rtranclp [OF rs_main [OF False r] Cons.IH] show ?thesis using False r None by (simp add: s)
    qed (use None Cons.IH in \<open>simp add: s\<close>)
  next
    case (Some i)
    show ?thesis
    proof (cases "i < length gs \<and> snd (gs ! i) \<noteq> RDone")
      case True
      obtain d1 q where g: "go_step ops env fetch (sg_ID run) (fst (gs ! i)) (snd (gs ! i)) d = (d1, q)" by (metis prod.exhaust)
      have "recovery_step ops env fetch run order (d, pc, gs) (d1, pc, gs[i := (fst (gs ! i), q)])"
        using True g by (intro rs_go [where q = "snd (gs ! i)"]) auto
      from converse_rtranclp_into_rtranclp [OF this Cons.IH] show ?thesis using True g Some by (simp add: s)
    next
      case False
      with Some Cons.IH [of s] show ?thesis by (auto simp: s)
    qed
  qed
qed simp

definition sample_fetching :: staging_db where
  "sample_fetching =
     (let t = (\<lambda>name required. (zero_table name gateway_mode required TsFetching)\<lparr>ts_FetchPlan := Some ''{}''\<rparr>)
      in empty_staging\<lparr>sd_runs := [sample_run\<lparr>sg_Status := RsStaging, sg_Tables := []\<rparr>],
                       sd_tables := [(''r'', t ''a'' True), (''r'', t ''b'' False)]\<rparr>)"

definition sample_plan :: SerializedFetchPlan where
  "sample_plan =
     \<lparr>fp_Server = ''s'', fp_Tool = ''t'', fp_Args = None, fp_Fields = [], fp_ItemsPath = [], fp_SingleItem = False, fp_MaxRows = 0,
      fp_TimeoutSecs = 0, fp_ResponseFormat = [], fp_ResponseAdapter = [], fp_Pagination = None\<rparr>"

definition sample_stage_env :: stage_env where
  "sample_stage_env =
     \<lparr>gx_bus = True, gx_uuid = ''e'', gx_now = 7, gx_exists = (\<lambda>_. False), gx_decode = (\<lambda>_. Inr sample_plan),
      gx_fetcher = True, gx_stagingDir = ''/s''\<rparr>"

text \<open>Table \<open>a\<close> loads at the second attempt, table \<open>b\<close> never.\<close>

definition sample_fetch :: fetcher where
  "sample_fetch opts pg n =
     (if fo_Table opts = ''a'' \<and> n = 1 then Inr \<lparr>lr_ParquetPath = ''/s/a'', lr_RowCount = 3, lr_RowGroups = 1, lr_Partial = False, lr_PartialError = [], lr_PagesCompleted = 1\<rparr>
      else Inl (ErrMsg ''timeout''))"

definition sample_listed :: StagingRun where
  "sample_listed = (case st_ListActive sample_fetching of (_, Inr [run]) \<Rightarrow> run | _ \<Rightarrow> sample_run)"

abbreviation sample_recovery ::
    "staging_db \<Rightarrow> StagingRun \<Rightarrow> nat option list \<Rightarrow> staging_db recovery" where
  "sample_recovery db run is \<equiv>
     scheduled (store_ops sqlite_dialect) sample_stage_env sample_fetch run (sg_Tables run) is (sd_used db, ReRecovery, [])"

text \<open>Table \<open>a\<close> is started and tried before the loop comes to table \<open>b\<close>.\<close>

definition sample_end :: "staging_db recovery" where
  "sample_end = sample_recovery sample_fetching sample_listed
     [None, None, None, Some 0, None, Some 1, None, Some 0, Some 1, Some 0, Some 1, Some 0, Some 1, Some 1, Some 0]"

theorem recovery_settles_run_witness:
  "\<exists>tb. run_view (fst sample_end) ''r'' = Some (RsStaged, tb) \<and> derived (ran tb) = Some RsStaged \<and>
     settled_first sample_stage_env (sg_Tables sample_listed)"
proof -
  obtain db2 pc gs where fin: "sample_end = (db2, pc, gs)" by (cases sample_end)
  have "(recovery_step (store_ops sqlite_dialect) sample_stage_env sample_fetch sample_listed (sg_Tables sample_listed))\<^sup>*\<^sup>*
      (sd_used sample_fetching, ReRecovery, []) (db2, pc, gs)"
    unfolding fin [symmetric] sample_end_def by (rule scheduled_steps)
  from rtranclp_imp_relpowp [OF this]
  obtain n where n: "(recovery_step (store_ops sqlite_dialect) sample_stage_env sample_fetch sample_listed (sg_Tables sample_listed) ^^ n)
      (sd_used sample_fetching, ReRecovery, []) (db2, pc, gs)" by blast
  have q: "quiet sample_fetching" by (simp add: quiet_def sample_fetching_def empty_staging_def Let_def)
  have k: "staging_ok sample_fetching" by code_simp
  have l: "st_ListActive sample_fetching = (sd_used sample_fetching, Inr [sample_listed])" "sg_ID sample_listed = ''r''"
    by (simp_all add: sample_listed_def st_ListActive_def sample_fetching_def Let_def empty_staging_def sd_err_def run_IsTerminal_def sample_run_def)
  have fin_all: "all_done gs \<and> re_returned pc" and st: "map_option fst (run_view db2 ''r'') = Some RsStaged"
  proof -
    have "all_done (snd (snd sample_end)) \<and> re_returned (fst (snd sample_end))" "map_option fst (run_view (fst sample_end) ''r'') = Some RsStaged"
      by code_simp+
    then show "all_done gs \<and> re_returned pc" "map_option fst (run_view db2 ''r'') = Some RsStaged" by (simp_all add: fin)
  qed
  have first: "settled_first sample_stage_env (sg_Tables sample_listed)" by code_simp
  from recovery_settles_run [OF q k l(1) _ refl n] fin_all l(2) first
  obtain st tb where "run_view db2 ''r'' = Some (st, tb)" "derived (ran tb) = Some st" by auto
  with st first show ?thesis by (auto simp: fin)
qed

text \<open>
  The case left out: table \<open>a\<close> is started first and done before the loop comes to table \<open>b\<close>, whose
  file is on disk. The goroutine of \<open>a\<close> sees \<open>b\<close> in progress and leaves the run staging; the loop
  marks \<open>b\<close> staged and, having started a goroutine, does not look at the run again. All tables are
  staged, everything has stopped, and the run stays staging (until the next restart).
\<close>

definition half_done :: staging_db where
  "half_done =
     sample_fetching\<lparr>sd_tables := [(''r'', (zero_table ''a'' gateway_mode True TsFetching)\<lparr>ts_FetchPlan := Some ''{}''\<rparr>),
       (''r'', (zero_table ''b'' gateway_mode False TsFetching)\<lparr>ts_ParquetPath := ''/s/b''\<rparr>)]\<rparr>"

definition half_listed :: StagingRun where
  "half_listed = (case st_ListActive half_done of (_, Inr [run]) \<Rightarrow> run | _ \<Rightarrow> sample_run)"

lemma recovered_run_stays_staging:
  "case scheduled (store_ops sqlite_dialect) (sample_stage_env\<lparr>gx_exists := (\<lambda>p. p = ''/s/b'')\<rparr>) sample_fetch half_listed (sg_Tables half_listed)
       [None, None, None, Some 0, Some 0, Some 0, Some 0, None, None] (sd_used half_done, ReRecovery, []) of
     (db, pc, gs) \<Rightarrow> all_done gs \<and> re_returned pc \<and> map_option fst (run_view db ''r'') = Some RsStaging \<and>
       map (ts_Status \<circ> snd) (loadTables ''r'' db) = [TsStaged, TsStaged]"
  by code_simp

text \<open>
  The decision and the write of a goroutine are two calls. When both goroutines decide before
  either writes, the run is staged and claimed for execution in between, and the second write
  puts it back to staged: it is claimed a second time. (Here table \<open>b\<close> is the last to fail.)
\<close>

definition race_state :: "staging_db recovery" where
  "race_state = sample_recovery sample_fetching sample_listed
     [None, None, None, None, None, Some 1, Some 0, Some 1, Some 0, Some 1, Some 0, Some 1, Some 0]"

lemma late_write_restages:
  "case st_CASExecute sqlite_dialect ''r'' (fst race_state) of
     (db, first) \<Rightarrow>
       (case scheduled (store_ops sqlite_dialect) sample_stage_env sample_fetch sample_listed (sg_Tables sample_listed) [Some 1] (db, snd race_state) of
          (db', _) \<Rightarrow> first = Inr True \<and> snd (st_CASExecute sqlite_dialect ''r'' db') = Inr True)"
  by code_simp

end
