(* ===== verification/StagingToolsProperties.thy ===== *)
theory StagingToolsProperties
  imports StagingTools StagingProperties
begin

text \<open>
  What the tools of staged runs promise to their callers: a staged run is executed by one call, its
  result is kept and repeated, and a run whose last table the agent stages is executed next. And
  what they do not: a run that is executing or done is put back when a table is staged again.
\<close>

definition executed_ok :: "tool_env \<Rightarrow> string \<times> string \<times> StagingManifest option \<Rightarrow> bool" where
  "executed_ok env call =
     (case call of (name, params, manifest) \<Rightarrow>
        (case gt_run env name params manifest (gt_agentTask env) of Inl _ \<Rightarrow> False | Inr res \<Rightarrow> rr_Status res \<noteq> ''error''))"

definition settled_status :: "tool_env \<Rightarrow> string \<times> string \<times> StagingManifest option \<Rightarrow> RunStatus" where
  "settled_status env call = (if executed_ok env call then RsComplete else RsFailed)"

lemma on_db_simps [simp]:
  "gw_db (on_db f w) = f (gw_db w)" "gw_runs (on_db f w) = gw_runs w" "gw_sessions (on_db f w) = gw_sessions w"
  by (simp_all add: on_db_def)

lemma emit_strategy_simps [simp]:
  "gw_db (emitStrategyEvent env a b c d e w) = gw_db w" "gw_runs (emitStrategyEvent env a b c d e w) = gw_runs w"
  by (simp_all add: emitStrategyEvent_def)

definition reentry_call :: "StagingRun \<Rightarrow> string \<times> string \<times> StagingManifest option" where
  "reentry_call run = (sg_StrategyName run, sg_Params run, Some (buildManifestFromRun run))"

lemma manifest_tables:
  "fst ` set (buildManifestFromRun run) = {t. \<exists>ts. (t, ts) \<in> set (sg_Tables run) \<and> ts_Status ts \<in> {TsStaged, TsSkipped}}"
proof -
  let ?f = "\<lambda>(tableName, ts).
       if ts_Status ts = TsStaged
       then [(tableName, \<lparr>me_Mode = [], me_Required = False, me_Staged = True, me_ParquetPath = ts_ParquetPath ts, me_Columns = [], me_Partial = ts_Partial ts\<rparr>)]
       else if ts_Status ts = TsSkipped
       then [(tableName, \<lparr>me_Mode = [], me_Required = False, me_Staged = False, me_ParquetPath = [], me_Columns = [], me_Partial = False\<rparr>)]
       else []"
  have "fst ` set (?f e) = (if ts_Status (snd e) \<in> {TsStaged, TsSkipped} then {fst e} else {})" for e
    by (cases e) simp
  then have "fst ` set (buildManifestFromRun run) = (\<Union>e \<in> set (sg_Tables run). if ts_Status (snd e) \<in> {TsStaged, TsSkipped} then {fst e} else {})"
    unfolding buildManifestFromRun_def set_concat set_map image_UN image_image by (intro SUP_cong refl)
  moreover have "(\<Union>e \<in> S. if P (snd e) then {fst e} else {}) = {t. \<exists>ts. (t, ts) \<in> S \<and> P ts}" for S :: "(string \<times> TableState) set" and P
    by (auto split: if_splits)
  ultimately show ?thesis by simp
qed

text \<open>An agent that stages a table of a run, where only that table may still be missing.\<close>

definition others_done :: "string \<Rightarrow> (string \<rightharpoonup> TableState) \<Rightarrow> bool" where
  "others_done table tb \<longleftrightarrow> (\<forall>u ts. tb u = Some ts \<longrightarrow> u = table \<or> ts_Status ts = TsStaged \<or> ts_Status ts = TsSkipped)"

context staging_store
begin

lemma execute_law:
  assumes "ok (gw_db w)" "view (gw_db w) i = Some (st, tb)" "execute_run ops env i run w = (w', resp)"
  shows "ok (gw_db w') \<and> gw_runs w' = gw_runs w @ [reentry_call run] \<and> view (gw_db w') i = Some (settled_status env (reentry_call run), tb)"
proof -
  let ?out = "gt_run env (sg_StrategyName run) (sg_Params run) (Some (buildManifestFromRun run)) (gt_agentTask env)"
  have fail: "ok (fst (so_FailRun ops i e d)) \<and> view (fst (so_FailRun ops i e d)) i = Some (RsFailed, tb)"
    if "ok d" "view d i = Some (s, tb)" for d s e
    using fail_law [OF that, of e "fst (so_FailRun ops i e d)" "snd (so_FailRun ops i e d)"] by simp
  have result: "ok (fst (so_SetResult ops i s' x y d)) \<and> view (fst (so_SetResult ops i s' x y d)) i = Some (s', tb)"
    if "ok d" "view d i = Some (s, tb)" for d s s' x y
    using result_law [OF that, of s' x y "fst (so_SetResult ops i s' x y d)" "snd (so_SetResult ops i s' x y d)"] by simp
  show ?thesis
  proof (cases ?out)
    case (Inl err)
    with assms fail [OF assms(1,2)] show ?thesis
      by (auto simp: execute_run_def Let_def reentry_call_def settled_status_def executed_ok_def)
  next
    case (Inr res)
    show ?thesis
    proof (cases "rr_Status res = ''error''")
      case True
      have "view (gw_db w') i = Some (RsFailed, tb) \<and> ok (gw_db w')"
        using assms(3) Inr True fail [OF assms(1,2), of "Some (execution_failure (rr_Error res))"]
          result [of "fst (so_FailRun ops i (Some (execution_failure (rr_Error res))) (gw_db w))" RsFailed]
        by (auto simp: execute_run_def Let_def)
      with assms(3) Inr True show ?thesis
        by (auto simp: execute_run_def Let_def reentry_call_def settled_status_def executed_ok_def)
    next
      case False
      with assms(3) Inr result [OF assms(1,2)] show ?thesis
        by (auto simp: execute_run_def Let_def reentry_call_def settled_status_def executed_ok_def split: if_splits)
    qed
  qed
qed

lemma reentry_staged:
  assumes "ok (gw_db w)" "view (gw_db w) i = Some (RsStaged, tb)" "handleRunReentry ops env i w = (w', r)"
  shows "\<exists>run. map_of (sg_Tables run) = tb \<and> distinct (map fst (sg_Tables run)) \<and> ok (gw_db w') \<and>
    gw_runs w' = gw_runs w @ [reentry_call run] \<and> view (gw_db w') i = Some (settled_status env (reentry_call run), tb)"
proof -
  obtain d1 x where g: "so_Get ops i (gw_db w) = (d1, x)" by (metis prod.exhaust)
  from get_law [OF assms(1) g] assms(2) obtain run where
    run: "x = Inr (Some run)" "sg_Status run = RsStaged" "map_of (sg_Tables run) = tb" "distinct (map fst (sg_Tables run))"
    and d1: "ok d1" "view d1 i = Some (RsStaged, tb)" by auto
  obtain d2 won where c: "so_CASExecute ops i d1 = (d2, won)" by (metis prod.exhaust)
  from cas_law [OF d1 c] have d2: "ok d2" "won = Inr True" "view d2 i = Some (RsExecuting, tb)" by auto
  obtain w2 resp where e: "execute_run ops env i run (w\<lparr>gw_db := d2\<rparr>) = (w2, resp)" by (metis prod.exhaust)
  have "w' = w2" using assms(3) by (simp add: handleRunReentry_def g run(1,2) c d2(2) e Let_def)
  with execute_law [of "w\<lparr>gw_db := d2\<rparr>", OF _ _ e] d2 run show ?thesis by auto
qed

lemma reentry_unstaged:
  assumes "ok (gw_db w)" "view (gw_db w) i = Some (st, tb)" "st \<noteq> RsStaged" "handleRunReentry ops env i w = (w', r)"
  shows "ok (gw_db w') \<and> gw_runs w' = gw_runs w \<and> view (gw_db w') = view (gw_db w)"
proof -
  obtain d1 x where g: "so_Get ops i (gw_db w) = (d1, x)" by (metis prod.exhaust)
  from get_law [OF assms(1) g] assms(2) obtain run where
    run: "x = Inr (Some run)" "sg_Status run = st" and d1: "ok d1" "view d1 = view (gw_db w)" by auto
  with assms(3,4) have "w' = w\<lparr>gw_db := d1\<rparr>" by (cases st) (auto simp: handleRunReentry_def g Let_def)
  with d1 show ?thesis by simp
qed

lemma polls_unstaged:
  assumes "ok (gw_db w)" "view (gw_db w) i = Some (st, tb)" "st \<noteq> RsStaged"
  shows "ok (gw_db (((\<lambda>w. fst (handleRunReentry ops env i w)) ^^ n) w)) \<and>
    gw_runs (((\<lambda>w. fst (handleRunReentry ops env i w)) ^^ n) w) = gw_runs w \<and>
    view (gw_db (((\<lambda>w. fst (handleRunReentry ops env i w)) ^^ n) w)) = view (gw_db w)"
proof (induction n)
  case (Suc n)
  let ?w = "((\<lambda>w. fst (handleRunReentry ops env i w)) ^^ n) w"
  from Suc assms(2) have "ok (gw_db ?w)" "view (gw_db ?w) i = Some (st, tb)" by auto
  from reentry_unstaged [OF this assms(3), of env "fst (handleRunReentry ops env i ?w)" "snd (handleRunReentry ops env i ?w)"] Suc
  show ?case by simp
qed (use assms in simp)

lemma reentry_once:
  assumes "ok (gw_db w)" "view (gw_db w) i = Some (RsStaged, tb)" "handleRunReentry ops env i w = (w1, r)"
  shows "\<exists>name params manifest. gw_runs w1 = gw_runs w @ [(name, params, Some manifest)] \<and>
    fst ` set manifest = {t. \<exists>ts. tb t = Some ts \<and> ts_Status ts \<in> {TsStaged, TsSkipped}} \<and>
    view (gw_db w1) i = Some (settled_status env (name, params, Some manifest), tb) \<and>
    gw_runs (((\<lambda>w. fst (handleRunReentry ops env i w)) ^^ n) w1) = gw_runs w1 \<and>
    view (gw_db (((\<lambda>w. fst (handleRunReentry ops env i w)) ^^ n) w1)) = view (gw_db w1)"
proof -
  from reentry_staged [OF assms] obtain run where
    run: "map_of (sg_Tables run) = tb" "distinct (map fst (sg_Tables run))" "ok (gw_db w1)"
      "gw_runs w1 = gw_runs w @ [reentry_call run]" "view (gw_db w1) i = Some (settled_status env (reentry_call run), tb)" by blast
  have "settled_status env (reentry_call run) \<noteq> RsStaged" by (simp add: settled_status_def)
  note polls = polls_unstaged [OF run(3,5) this, where env = env and n = n]
  have "(t, ts) \<in> set (sg_Tables run) \<longleftrightarrow> tb t = Some ts" for t ts using run(1,2) by auto
  then have "fst ` set (buildManifestFromRun run) = {t. \<exists>ts. tb t = Some ts \<and> ts_Status ts \<in> {TsStaged, TsSkipped}}"
    by (simp add: manifest_tables)
  with run(4,5) polls show ?thesis by (auto simp: reentry_call_def)
qed

lemma stage_law:
  assumes d: "ok (gw_db w)" "view (gw_db w) i = Some (st, tb)" "tb table = Some row" "others_done table tb"
    and q: "sq_session_id q = i" "i \<noteq> []" "sq_append q \<noteq> ''true''" "parse_stage env q = Inr (table, columns, rows, types)"
    and path: "gt_write env table columns types rows (join_path (gx_stagingDir (gt_stage env)) i) = Inr path"
    and call: "stage_tool ops env q w = (w', r)"
  shows "is_ok r \<and> ok (gw_db w') \<and> gw_runs w' = gw_runs w \<and>
    (\<exists>ts. ts_Status ts = TsStaged \<and> view (gw_db w') i = Some (RsStaged, tb(table \<mapsto> ts)))"
proof -
  obtain d1 x where g: "so_Get ops i (gw_db w) = (d1, x)" by (metis prod.exhaust)
  from get_law [OF d(1) g] d(2) obtain run where run: "x = Inr (Some run)" "sg_ID run = i"
    and d1: "ok d1" "view d1 i = Some (st, tb)" by auto
  let ?nts = "(zero_table table ''mcp'' True TsStaged)
      \<lparr>ts_ParquetPath := path, ts_RowCount := int (length rows), ts_CompletedAt := Some (gx_now (gt_stage env))\<rparr>"
  from update_law [OF d1 d(3), of ?nts] obtain ts where
    ts: "ts_Status ts = TsStaged" "ok (fst (so_UpdateTable ops i table ?nts d1))"
      "view (fst (so_UpdateTable ops i table ?nts d1)) i = Some (st, tb(table \<mapsto> ts))"
    by (auto simp: zero_table_def)
  have "x = ts \<or> ts_Status x = TsStaged \<or> ts_Status x = TsSkipped" if "x \<in> ran (tb(table \<mapsto> ts))" for x
    using that d(4) by (auto simp: ran_def others_done_def split: if_splits)
  then have "\<forall>x \<in> ran (tb(table \<mapsto> ts)). ts_Status x = TsStaged \<or> ts_Status x = TsSkipped" using ts(1) by blast
  then have "derived (ran (tb(table \<mapsto> ts))) = Some RsStaged" by (auto simp: derived_cases fatal_def in_progress_def)
  with transition_law [OF ts(2,3)]
  have "ok (checkAndTransitionRunToStaged ops i (fst (so_UpdateTable ops i table ?nts d1)))"
    "view (checkAndTransitionRunToStaged ops i (fst (so_UpdateTable ops i table ?nts d1))) i = Some (RsStaged, tb(table \<mapsto> ts))"
    by (auto simp: checkAndTransitionRecoveredRun_def)
  moreover have "is_ok r" "gw_db w' = checkAndTransitionRunToStaged ops i (fst (so_UpdateTable ops i table ?nts d1))" "gw_runs w' = gw_runs w"
    using call q path by (auto simp: stage_tool_def resolve_session_def g run Let_def)
  ultimately show ?thesis using ts(1) by auto
qed

lemma stage_then_run:
  assumes d: "ok (gw_db w)" "view (gw_db w) i = Some (st, tb)" "tb table = Some row" "others_done table tb"
    and q: "sq_session_id q = i" "i \<noteq> []" "sq_append q \<noteq> ''true''" "parse_stage env q = Inr (table, columns, rows, types)"
    and path: "gt_write env table columns types rows (join_path (gx_stagingDir (gt_stage env)) i) = Inr path"
    and calls: "stage_tool ops env q w = (w1, r1)" "handleRunReentry ops env i w1 = (w2, r2)"
  shows "is_ok r1 \<and> (\<exists>name params manifest tb'. gw_runs w2 = gw_runs w @ [(name, params, Some manifest)] \<and> fst ` set manifest = dom tb \<and>
    view (gw_db w2) i = Some (settled_status env (name, params, Some manifest), tb'))"
proof -
  from stage_law [OF d q path calls(1)] obtain ts where
    s: "is_ok r1" "ok (gw_db w1)" "gw_runs w1 = gw_runs w" "ts_Status ts = TsStaged" "view (gw_db w1) i = Some (RsStaged, tb(table \<mapsto> ts))" by blast
  have all: "{t. \<exists>x. (tb(table \<mapsto> ts)) t = Some x \<and> ts_Status x \<in> {TsStaged, TsSkipped}} = dom tb"
    using s(4) d(3,4) by (auto simp: others_done_def)
  from reentry_once [OF s(2,5) calls(2), where n = 0, unfolded all] obtain name params manifest where
    "gw_runs w2 = gw_runs w1 @ [(name, params, Some manifest)]" "fst ` set manifest = dom tb"
    "view (gw_db w2) i = Some (settled_status env (name, params, Some manifest), tb(table \<mapsto> ts))" by blast
  with s(1,3) show ?thesis by (intro conjI exI [of _ name] exI [of _ params] exI [of _ manifest] exI [of _ "tb(table \<mapsto> ts)"]) simp_all
qed

end

text \<open>
  C24 (reentry_executes_once): over a store whose calls succeed, calling \<open>strategy_run\<close> again for a
  staged run calls the runner once, with a manifest of exactly the tables that are staged or
  skipped, and leaves the run complete or failed, as the runner's answer says; however often it is
  then called for that run, with nothing else changing the run in between, the runner is not
  called again and the run stays as it is.
\<close>

theorem reentry_executes_once:
  assumes "quiet (gw_db w)" "staging_ok (gw_db w)" "run_view (gw_db w) i = Some (RsStaged, tb)"
    and "handleRunReentry (store_ops dl) env i w = (w1, r)"
  shows "\<exists>name params manifest. gw_runs w1 = gw_runs w @ [(name, params, Some manifest)] \<and>
    fst ` set manifest = {t. \<exists>ts. tb t = Some ts \<and> ts_Status ts \<in> {TsStaged, TsSkipped}} \<and>
    run_view (gw_db w1) i = Some (if executed_ok env (name, params, Some manifest) then RsComplete else RsFailed, tb) \<and>
    gw_runs (((\<lambda>w. fst (handleRunReentry (store_ops dl) env i w)) ^^ n) w1) = gw_runs w1 \<and>
    run_view (gw_db (((\<lambda>w. fst (handleRunReentry (store_ops dl) env i w)) ^^ n) w1)) = run_view (gw_db w1)"
proof -
  have "quiet (gw_db w) \<and> staging_ok (gw_db w)" using assms(1,2) by simp
  from sqlstore.reentry_once [OF this assms(3,4)] show ?thesis unfolding settled_status_def by blast
qed

text \<open>
  When an agent stages the table that a pending or staging run still
  misses, the next call of \<open>strategy_run\<close> for the run executes it, with a manifest that names every
  table of the run, and leaves it complete or failed as the runner's answer says.
\<close>

theorem last_table_then_run:
  assumes "quiet (gw_db w)" "staging_ok (gw_db w)" "run_view (gw_db w) i = Some (st, tb)" "st = RsStaging \<or> st = RsPending"
    and "table \<in> dom tb" "\<forall>u \<in> dom tb - {table}. ts_Status (the (tb u)) \<in> {TsStaged, TsSkipped}"
    and "sq_session_id q = i" "i \<noteq> []" "sq_append q \<noteq> ''true''" "parse_stage env q = Inr (table, columns, rows, types)"
    and "gt_write env table columns types rows (join_path (gx_stagingDir (gt_stage env)) i) = Inr path"
    and "stage_tool (store_ops dl) env q w = (w1, r1)" "handleRunReentry (store_ops dl) env i w1 = (w2, r2)"
  shows "is_ok r1 \<and> (\<exists>name params manifest tb'. gw_runs w2 = gw_runs w @ [(name, params, Some manifest)] \<and> fst ` set manifest = dom tb \<and>
    run_view (gw_db w2) i = Some (if executed_ok env (name, params, Some manifest) then RsComplete else RsFailed, tb'))"
proof -
  obtain row where row: "tb table = Some row" using assms(5) by auto
  have others: "others_done table tb" unfolding others_done_def
  proof (intro allI impI)
    fix u ts assume u: "tb u = Some ts"
    with assms(6) have "u \<noteq> table \<Longrightarrow> ts_Status (the (tb u)) \<in> {TsStaged, TsSkipped}" by blast
    with u show "u = table \<or> ts_Status ts = TsStaged \<or> ts_Status ts = TsSkipped" by auto
  qed
  have "quiet (gw_db w) \<and> staging_ok (gw_db w)" using assms(1,2) by simp
  from sqlstore.stage_then_run [OF this assms(3) row others assms(7-13)] show ?thesis by (simp add: settled_status_def)
qed

subsection \<open>Concrete calls\<close>

definition sample_tool_env :: tool_env where
  "sample_tool_env =
     \<lparr>gt_stage = sample_stage_env,
      gt_run = (\<lambda>name params m task. Inr \<lparr>rr_Status = ''ok'', rr_Result = ''1'', rr_PartialResults = None, rr_PartialResultsTruncated = False,
                  rr_OmittedSteps = [], rr_Trace = ''{}'', rr_Steps = 0, rr_Error = []\<rparr>),
      gt_value = Some, gt_trace = Some, gt_json = quote, gt_agentTask = [],
      gt_columns = (\<lambda>_. Inr [''c'']), gt_rows = (\<lambda>_. Inr [[''1''], [''2'']]), gt_types = (\<lambda>_. Inr []),
      gt_write = (\<lambda>table _ _ _ dir. Inr (join_path dir table)), gt_sessionID = ''s1''\<rparr>"

definition sample_table_world :: "bool \<Rightarrow> RunStatus \<Rightarrow> TableStatus \<Rightarrow> staging_db tool_world" where
  "sample_table_world required st ts =
     \<lparr>gw_db = empty_staging\<lparr>sd_runs := [sample_run\<lparr>sg_Status := st, sg_Tables := []\<rparr>], sd_tables := [(''r'', zero_table ''a'' ''mcp'' required ts)]\<rparr>,
      gw_events = [], gw_runs = [], gw_sessions = None\<rparr>"

definition sample_stage :: stage_request where
  "sample_stage = \<lparr>sq_table = Some ''a'', sq_columns = Some ''c'', sq_data = Some ''d'', sq_types = [], sq_append = [], sq_session_id = ''r''\<rparr>"

lemma table_world_ok:
  "quiet (gw_db (sample_table_world b st ts))" "staging_ok (gw_db (sample_table_world b st ts))"
  "run_view (gw_db (sample_table_world b st ts)) ''r'' = Some (st, [''a'' \<mapsto> zero_table ''a'' ''mcp'' b ts])"
  by (simp_all add: sample_table_world_def empty_staging_def quiet_def staging_ok_def run_view_def loadTables_def sample_run_def zero_table_def)

abbreviation sample_reentry :: "staging_db tool_world \<Rightarrow> staging_db tool_world \<times> (string + strategyRunResponse)" where
  "sample_reentry \<equiv> handleRunReentry (store_ops sqlite_dialect) sample_tool_env ''r''"

theorem reentry_executes_once_witness:
  "length (gw_runs (fst (sample_reentry (sample_table_world True RsStaged TsStaged)))) = 1 \<and>
   (\<exists>tb. run_view (gw_db (fst (sample_reentry (sample_table_world True RsStaged TsStaged)))) ''r'' = Some (RsComplete, tb))"
proof -
  let ?w = "sample_table_world True RsStaged TsStaged"
  have c: "sample_reentry ?w = (fst (sample_reentry ?w), snd (sample_reentry ?w))" by simp
  have none: "gw_runs ?w = []" by (simp add: sample_table_world_def)
  have ran: "executed_ok sample_tool_env (a, b, m)" for a b m by (simp add: executed_ok_def sample_tool_env_def)
  from reentry_executes_once [OF table_world_ok c, of 0] show ?thesis unfolding none if_P [OF ran] by auto
qed

theorem last_table_then_run_witness:
  "\<exists>name params manifest tb'.
     gw_runs (fst (sample_reentry (fst (stage_tool (store_ops sqlite_dialect) sample_tool_env sample_stage (sample_table_world True RsPending TsAwaitingAgent))))) =
       [(name, params, Some manifest)] \<and> fst ` set manifest = {''a''} \<and>
     run_view (gw_db (fst (sample_reentry (fst (stage_tool (store_ops sqlite_dialect) sample_tool_env sample_stage (sample_table_world True RsPending TsAwaitingAgent)))))) ''r'' =
       Some (RsComplete, tb')"
proof -
  let ?w = "sample_table_world True RsPending TsAwaitingAgent"
  let ?s = "stage_tool (store_ops sqlite_dialect) sample_tool_env sample_stage ?w"
  have ran: "executed_ok sample_tool_env (a, b, m)" for a b m by (simp add: executed_ok_def sample_tool_env_def)
  have q: "sq_session_id sample_stage = ''r''" "''r'' \<noteq> ([] :: string)" "sq_append sample_stage \<noteq> ''true''"
    "parse_stage sample_tool_env sample_stage = Inr (''a'', [''c''], [[''1''], [''2'']], [])"
    "gt_write sample_tool_env ''a'' [''c''] [] [[''1''], [''2'']] (join_path (gx_stagingDir (gt_stage sample_tool_env)) ''r'') =
       Inr (join_path (join_path (gx_stagingDir (gt_stage sample_tool_env)) ''r'') ''a'')"
    by (simp_all add: sample_stage_def parse_stage_def sample_tool_env_def)
  have d: "''a'' \<in> dom [''a'' \<mapsto> zero_table ''a'' ''mcp'' True TsAwaitingAgent]"
    "\<forall>u \<in> dom [''a'' \<mapsto> zero_table ''a'' ''mcp'' True TsAwaitingAgent] - {''a''}.
       ts_Status (the ([''a'' \<mapsto> zero_table ''a'' ''mcp'' True TsAwaitingAgent] u)) \<in> {TsStaged, TsSkipped}" by auto
  have none: "gw_runs ?w = []" by (simp add: sample_table_world_def)
  from last_table_then_run [OF table_world_ok disjI2 [OF refl] d q, of sqlite_dialect "fst ?s" "snd ?s" "fst (sample_reentry (fst ?s))"
      "snd (sample_reentry (fst ?s))"]
  show ?thesis unfolding none if_P [OF ran] by auto
qed

text \<open>
  Staging a table of a run that was executed puts the run back to staged, and it is executed again.
\<close>

lemma restaging_runs_again:
  "case sample_reentry (sample_table_world True RsStaged TsStaged) of
     (w1, _) \<Rightarrow>
       (case stage_tool (store_ops sqlite_dialect) sample_tool_env sample_stage w1 of
          (w2, _) \<Rightarrow> length (gw_runs w1) = 1 \<and> length (gw_runs (fst (sample_reentry w2))) = 2)"
  by code_simp

text \<open>A table staged in chunks never makes the run staged: it stays pending with nothing to wait for.\<close>

lemma chunks_leave_run_pending:
  "case stage_tool (store_ops sqlite_dialect) sample_tool_env (sample_stage\<lparr>sq_append := ''true''\<rparr>) (sample_table_world True RsPending TsAwaitingAgent) of
     (w1, _) \<Rightarrow>
       (case sample_reentry w1 of
          (w2, Inr resp) \<Rightarrow> rp_Status resp = ''pending'' \<and> rp_Pending resp = [] \<and> gw_runs w2 = []
        | _ \<Rightarrow> False)"
  by code_simp

text \<open>
  An optional table that fails all its attempts in the background is the last event of its run, and
  the run stays staging: only the recovery checks the run in that case.
\<close>

lemma optional_failure_leaves_run_staging:
  "case stageTable (store_ops sqlite_dialect) sample_stage_env ''r'' ''s'' \<lparr>tp_Table = ''a'', tp_Source = [], tp_Backend = [], tp_FetchMode = gateway_mode, tp_MCPTool = [], tp_MCPServer = [], tp_Query = [],
       tp_Fields = [], tp_Optional = True, tp_ResponseFormat = [], tp_ResponseAdapter = []\<rparr>
          (\<lambda>_. Inl (ErrMsg ''timeout'')) (sample_table_world False RsStaging TsFetching) of
     w1 \<Rightarrow>
       (case st_Get ''r'' (gw_db w1) of
          (_, Inr (Some run)) \<Rightarrow> sg_Status run = RsStaging \<and> DeriveRunStatus run = Some RsStaged
        | _ \<Rightarrow> False)"
  by code_simp

text \<open>A retry forgets the table's fetch plan: a restart during the retries makes the table fail.\<close>

lemma retry_forgets_plan: "ts_FetchPlan (retried_table t mode required resumed n err) = None"
  by (simp add: retried_table_def zero_table_def)

end
