(* ===== verification/ResolutionProperties.thy ===== *)
theory ResolutionProperties
  imports Resolution FetcherProperties StagingToolsProperties "HOL-Library.Multiset"
begin

text \<open>
  What the resolution of a strategy's tables guarantees: the plan covers the contract with typed columns, every table of the plan is
  dispatched once, what is staged has its file, parameters come out as their types say, and the plan kept for a restart is the one
  that was run.
\<close>

subsection \<open>Plans\<close>

lemma with_backend_Table [simp]: "tp_Table (with_backend recs tp) = tp_Table tp"
  by (simp add: with_backend_def Let_def split: option.splits)

lemma with_tool_Table [simp]: "tp_Table (with_tool gq recs tp) = tp_Table tp"
  by (simp add: with_tool_def Let_def split: sum.splits list.splits)

lemma resolveFromGraph_cases:
  assumes "resolveFromGraph gq table spec = Inr tp"
  shows "tp_Table tp = table \<and> (\<exists>m. tp_Fields tp = override_fields spec [] m)"
  using assms
  by (auto simp: resolveFromGraph_def Let_def zero_plan_def split: if_splits sum.splits list.splits prod.splits)

lemma resolveTable_cases:
  assumes "resolveTable gq table spec bs = Inr (tp, ws)"
  shows "tp_Table tp = table \<and>
    ((\<exists>m. tp_Fields tp = override_fields spec [] m) \<or>
     (\<exists>sb m. map_of (case bs of None \<Rightarrow> [] | Some b \<Rightarrow> bs_SourceBindings b) table = Some sb \<and>
        tp_Fields tp = mapped_fields spec sb @ override_fields spec (map rf_TargetColumn (mapped_fields spec sb)) m))"
  using assms resolveFromGraph_cases [of gq table spec]
  by (auto simp: resolveTable_def resolveFromBinding_def Let_def zero_plan_def split: option.splits sum.splits)

text \<open>
  C37 (resolve_plans_all): Resolving a contract succeeds exactly when every table that is not optional can be resolved; the plan
  then has exactly the tables that can be, in the contract's order and marked optional as the contract marks them, and there is a warning
  for every optional table that it leaves out.
\<close>

theorem resolve_plans_all:
  "case Resolve gq cs bs of
     Inl err \<Rightarrow> (\<exists>(t, spec)\<in>set (ct_Tables cs). \<not> tb_Optional spec \<and> \<not> is_ok (resolveTable gq t spec bs))
   | Inr plan \<Rightarrow>
       (\<forall>(t, spec)\<in>set (ct_Tables cs). tb_Optional spec \<or> is_ok (resolveTable gq t spec bs)) \<and>
       map (\<lambda>tp. (tp_Table tp, tp_Optional tp)) (rn_Tables plan) =
         map (\<lambda>(t, spec). (t, tb_Optional spec)) (filter (\<lambda>(t, spec). is_ok (resolveTable gq t spec bs)) (ct_Tables cs)) \<and>
       length (filter (\<lambda>(t, spec). \<not> is_ok (resolveTable gq t spec bs)) (ct_Tables cs)) \<le> length (rn_Warnings plan)"
proof -
  have "case resolve_tables gq bs ts of
     Inl err \<Rightarrow> (\<exists>(t, spec)\<in>set ts. \<not> tb_Optional spec \<and> \<not> is_ok (resolveTable gq t spec bs))
   | Inr (tps, ws) \<Rightarrow>
       (\<forall>(t, spec)\<in>set ts. tb_Optional spec \<or> is_ok (resolveTable gq t spec bs)) \<and>
       map (\<lambda>tp. (tp_Table tp, tp_Optional tp)) tps =
         map (\<lambda>(t, spec). (t, tb_Optional spec)) (filter (\<lambda>(t, spec). is_ok (resolveTable gq t spec bs)) ts) \<and>
       length (filter (\<lambda>(t, spec). \<not> is_ok (resolveTable gq t spec bs)) ts) \<le> length ws" for ts
  proof (induction ts)
    case (Cons a ts)
    obtain t spec where a: "a = (t, spec)" by fastforce
    show ?case
    proof (cases "resolveTable gq t spec bs")
      case (Inl err)
      with Cons a show ?thesis by (auto split: sum.splits prod.splits)
    next
      case (Inr x)
      obtain tp ws where x: "x = (tp, ws)" by fastforce
      with Inr have "tp_Table tp = t" using resolveTable_cases by blast
      with Cons a Inr x show ?thesis by (auto split: sum.splits prod.splits)
    qed
  qed simp
  from this [of "ct_Tables cs"] show ?thesis
    by (auto simp: Resolve_def split: sum.splits prod.splits)
qed

lemma override_fields_typed:
  assumes "f \<in> set (override_fields spec mapped m)" "distinct (map fst (tb_Columns spec))"
  shows "rf_ColumnType f = column_type_of spec (rf_TargetColumn f) \<and> rf_TargetColumn f \<notin> set mapped"
proof -
  from assms(1) obtain col c where "(col, c) \<in> set (tb_Columns spec)" "col \<notin> set mapped" "rf_TargetColumn f = col"
    "rf_ColumnType f = (if cl_Type c \<noteq> [] then cl_Type c else ''VARCHAR'')"
    by (auto simp: override_fields_def map_filter_def split: if_splits option.splits)
  then show ?thesis using map_of_is_SomeI [OF assms(2)] by (simp add: column_type_of_def)
qed

lemma distinct_map_filter_keys:
  assumes "\<And>k v f. g (k, v) = Some f \<Longrightarrow> key f = k"
  shows "distinct (map fst xs) \<Longrightarrow> distinct (map key (List.map_filter g xs)) \<and> key ` set (List.map_filter g xs) \<subseteq> fst ` set xs"
proof (induction xs)
  case (Cons x xs)
  obtain k v where x: "x = (k, v)" by fastforce
  have IH: "distinct (map key (List.map_filter g xs))" "key ` set (List.map_filter g xs) \<subseteq> fst ` set xs" "k \<notin> fst ` set xs"
    using Cons x by auto
  show ?case
  proof (cases "g x")
    case None
    then show ?thesis using IH by (auto simp: map_filter_simps)
  next
    case (Some f)
    with assms x have "key f = k" by blast
    with Some IH x show ?thesis by (auto simp: map_filter_simps)
  qed
qed (simp add: map_filter_simps)

lemma override_fields_distinct:
  assumes "distinct (map fst (tb_Columns spec))"
  shows "distinct (map rf_TargetColumn (override_fields spec mapped m))"
  unfolding override_fields_def
  by (rule distinct_map_filter_keys [OF _ assms, THEN conjunct1]) (auto split: if_splits option.splits)

text \<open>
  C18 (resolved_columns_typed): In a resolved table every field has the type that the contract gives its column (\<open>VARCHAR\<close> for one
  without type or that the contract does not have), and no column is filled twice, whether it was resolved from a binding or from the
  graph.
\<close>

theorem resolved_columns_typed:
  assumes "resolveTable gq table spec bs = Inr (tp, ws)" "distinct (map fst (tb_Columns spec))"
    and "\<And>b t sb. bs = Some b \<Longrightarrow> (t, sb) \<in> set (bs_SourceBindings b) \<Longrightarrow> distinct (map fst (sb_FieldMap sb))"
  shows "distinct (map rf_TargetColumn (tp_Fields tp)) \<and>
    (\<forall>f\<in>set (tp_Fields tp). rf_ColumnType f = column_type_of spec (rf_TargetColumn f) \<and> rf_ColumnType f \<noteq> [])"
proof -
  have ne: "column_type_of spec c \<noteq> []" for c by (simp add: column_type_of_def split: option.splits)
  from resolveTable_cases [OF assms(1)] consider
      (graph) m where "tp_Fields tp = override_fields spec [] m"
    | (bound) sb m where "map_of (case bs of None \<Rightarrow> [] | Some b \<Rightarrow> bs_SourceBindings b) table = Some sb"
        "tp_Fields tp = mapped_fields spec sb @ override_fields spec (map rf_TargetColumn (mapped_fields spec sb)) m" by blast
  then show ?thesis
  proof cases
    case graph
    then show ?thesis using override_fields_distinct override_fields_typed assms(2) ne by metis
  next
    case bound
    have d: "distinct (map fst (sb_FieldMap sb))" using bound(1) assms(3) by (cases bs) (auto dest: map_of_SomeD)
    have cols: "map rf_TargetColumn (mapped_fields spec sb) = map fst (sb_FieldMap sb)"
      by (auto simp: mapped_fields_def)
    let ?over = "override_fields spec (map rf_TargetColumn (mapped_fields spec sb)) m"
    have direct: "rf_ColumnType f = column_type_of spec (rf_TargetColumn f)" if "f \<in> set (mapped_fields spec sb)" for f
      using that by (auto simp: mapped_fields_def)
    have over: "rf_ColumnType f = column_type_of spec (rf_TargetColumn f) \<and> rf_TargetColumn f \<notin> set (map fst (sb_FieldMap sb))"
      if "f \<in> set ?over" for f
      using override_fields_typed [OF that assms(2)] unfolding cols .
    have "c \<notin> set (map fst (sb_FieldMap sb))" if c: "c \<in> set (map rf_TargetColumn ?over)" for c
    proof -
      from c obtain f where "f \<in> set ?over" "c = rf_TargetColumn f" unfolding set_map by blast
      with over show ?thesis by blast
    qed
    then have "set (map fst (sb_FieldMap sb)) \<inter> set (map rf_TargetColumn ?over) = {}" by blast
    then have "distinct (map rf_TargetColumn (tp_Fields tp))"
      using d override_fields_distinct [OF assms(2)] unfolding bound(2) map_append cols distinct_append by blast
    moreover have "\<forall>f\<in>set (tp_Fields tp). rf_ColumnType f = column_type_of spec (rf_TargetColumn f)"
      unfolding bound(2) set_append using direct over by blast
    ultimately show ?thesis using ne by simp
  qed
qed

subsection \<open>Parameters\<close>

lemma go_get_put: "go_get (go_put k v m) j = (if j = k then v else go_get m j)"
  by (simp add: go_get_def)

text \<open>
  Normalizing parameters depends on no order: it fails exactly when one of the declared parameters does
  (a required one that is missing, a text that is no integer or no boolean), and otherwise every declared parameter has the value of
  its own normalization and every other is as it was passed.
\<close>

theorem parameters_normalized:
  assumes "distinct (map fst specs)"
  shows "case normalize_params specs params of
     Inl err \<Rightarrow> \<exists>(name, spec)\<in>set specs. normalize_param name spec (go_get params name) = Inl err
   | Inr out \<Rightarrow> (\<forall>(name, spec)\<in>set specs. \<exists>r. normalize_param name spec (go_get params name) = Inr r \<and>
         go_get out name = (case r of None \<Rightarrow> go_get params name | Some v \<Rightarrow> v)) \<and>
       (\<forall>k. k \<notin> fst ` set specs \<longrightarrow> go_get out k = go_get params k)"
  using assms
proof (induction specs arbitrary: params)
  case (Cons a specs)
  obtain name spec where a: "a = (name, spec)" by fastforce
  have d: "distinct (map fst specs)" "name \<notin> fst ` set specs" using Cons.prems a by auto
  show ?case
  proof (cases "normalize_param name spec (go_get params name)")
    case (Inl err)
    with a show ?thesis by simp
  next
    case (Inr r)
    define p where "p = (case r of None \<Rightarrow> params | Some v \<Rightarrow> go_put name v params)"
    have others: "k \<noteq> name \<Longrightarrow> go_get p k = go_get params k" for k
      by (simp add: p_def go_get_put split: option.splits)
    have self: "go_get p name = (case r of None \<Rightarrow> go_get params name | Some v \<Rightarrow> v)"
      by (simp add: p_def go_get_put split: option.splits)
    have step: "normalize_params (a # specs) params = normalize_params specs p"
      using Inr a by (cases r) (simp_all add: p_def)
    have same: "(n, sp) \<in> set specs \<Longrightarrow> go_get p n = go_get params n" for n sp
      using others [of n] d(2) image_eqI [of n fst "(n, sp)" "set specs"] by auto
    show ?thesis
    proof (cases "normalize_params specs p")
      case (Inl err)
      with Cons.IH [OF d(1), of p] obtain n sp where "(n, sp) \<in> set specs" "normalize_param n sp (go_get p n) = Inl err"
        by auto
      with same have "\<exists>(n, sp)\<in>set (a # specs). normalize_param n sp (go_get params n) = Inl err" by force
      with step Inl show ?thesis by simp
    next
      case out: (Inr out)
      with Cons.IH [OF d(1), of p]
      have each: "\<forall>(n, sp)\<in>set specs. \<exists>r. normalize_param n sp (go_get p n) = Inr r \<and> go_get out n = (case r of None \<Rightarrow> go_get p n | Some v \<Rightarrow> v)"
        and rest: "\<forall>k. k \<notin> fst ` set specs \<longrightarrow> go_get out k = go_get p k" by auto
      have "go_get out name = (case r of None \<Rightarrow> go_get params name | Some v \<Rightarrow> v)"
        using rest d(2) self by simp
      moreover have "\<forall>(n, sp)\<in>set specs. \<exists>r. normalize_param n sp (go_get params n) = Inr r \<and>
          go_get out n = (case r of None \<Rightarrow> go_get params n | Some v \<Rightarrow> v)"
        using each same by (smt (verit, best) case_prodD case_prodI2)
      ultimately have "\<forall>(n, sp)\<in>set (a # specs). \<exists>r. normalize_param n sp (go_get params n) = Inr r \<and>
          go_get out n = (case r of None \<Rightarrow> go_get params n | Some v \<Rightarrow> v)"
        using Inr a by simp
      moreover have "\<forall>k. k \<notin> fst ` set (a # specs) \<longrightarrow> go_get out k = go_get params k"
        using rest others a by simp
      ultimately show ?thesis using step out by simp
    qed
  qed
qed simp

text \<open>
  A default is put as it is: an integer default that came as JSON stays a \<open>float64\<close>, and a million is rendered in a template in
  another way than a million that was passed.
\<close>

lemma integer_default_renders_as_float:
  "normalize_params [(''n'', \<lparr>ps_Type = ''int'', ps_Required = False, ps_Default = GFloat 1 6\<rparr>)] [] = Inr [(''n'', GFloat 1 6)]"
  "normalize_params [(''n'', \<lparr>ps_Type = ''int'', ps_Required = False, ps_Default = GFloat 1 6\<rparr>)] [(''n'', GFloat 1 6)] = Inr [(''n'', GInt 1000000)]"
  "fmt_v (GFloat 1 6) = ''1e+06''"
  by (simp_all add: normalize_param_def go_get_def go_put_def float_trunc_def in_int64_def) code_simp

subsection \<open>Dispatch\<close>

definition dispatched :: "resolveResult \<Rightarrow> string multiset" where
  "dispatched res = mset (map rs_Table (rl_Staged res)) + mset (map pn_Table (rl_Pending res)) + mset (rl_Native res) +
     mset (map tp_Table (rl_Background res)) + mset (map fst (rl_Errors res))"

lemma executeMCPFetch_run:
  assumes "executeMCPFetch env tp params runID w = Returns (w', r)"
  shows "\<exists>opts pg s' x. run_fetch env opts pg (ro_server w) (ro_files w) = (s', ro_files w', x) \<and>
    fo_Table opts = tp_Table tp \<and> fo_StagingDir opts = rv_stagingDir env \<and> fo_RunID opts = runID \<and>
    (\<forall>st. r = Inr st \<longrightarrow> (\<exists>lr. x = Inr lr \<and> rs_Table st = tp_Table tp \<and> rs_RowsStaged st = lr_RowCount lr \<and> rs_ParquetPath st = lr_ParquetPath lr))"
proof -
  let ?sb = "binding_of (ro_binding w) (tp_Table tp)"
  obtain args where args: "live_args ?sb params = Returns args"
    using assms by (auto simp: executeMCPFetch_def Let_def split: run.splits)
  let ?opts = "fetch_opts (rv_duration env) (rv_stagingDir env) runID tp ?sb args"
  let ?pg = "case ?sb of None \<Rightarrow> None | Some b \<Rightarrow> sb_Pagination b"
  obtain s' fs' x where run: "run_fetch env ?opts ?pg (ro_server w) (ro_files w) = (s', fs', x)" by (metis prod_cases3)
  have w': "ro_files w' = fs'" and r: "\<And>st. r = Inr st \<Longrightarrow> \<exists>lr. x = Inr lr \<and> rs_Table st = tp_Table tp \<and> rs_RowsStaged st = lr_RowCount lr \<and> rs_ParquetPath st = lr_ParquetPath lr"
    using assms args run by (auto simp: executeMCPFetch_def Let_def split: sum.splits)
  show ?thesis
    using run w' r by (intro exI [of _ ?opts] exI [of _ ?pg] exI [of _ s'] exI [of _ x]) (simp add: fetch_opts_def)
qed

lemma executeMCPFetch_table:
  "executeMCPFetch env tp params runID w = Returns (w', Inr st) \<Longrightarrow> rs_Table st = tp_Table tp"
  using executeMCPFetch_run by blast

lemma dispatch_table_adds:
  assumes "dispatch_table env fetcher params runID tp (res, w) = Returns (res', w')"
  shows "dispatched res' = add_mset (tp_Table tp) (dispatched res)"
  using assms
  by (auto simp: dispatch_table_def Let_def dispatched_def pending_table_def split: if_splits run.splits sum.splits prod.splits
    dest!: executeMCPFetch_table)

lemma dispatch_tables_adds:
  "dispatch_tables env fetcher params runID tps (res, w) = Returns (res', w') \<Longrightarrow>
    dispatched res' = mset (map tp_Table tps) + dispatched res"
proof (induction tps arbitrary: res w)
  case (Cons tp tps)
  then obtain res1 w1 where one: "dispatch_table env fetcher params runID tp (res, w) = Returns (res1, w1)"
    and rest: "dispatch_tables env fetcher params runID tps (res1, w1) = Returns (res', w')"
    by (auto split: run.splits)
  show ?case using Cons.IH [OF rest] dispatch_table_adds [OF one] by simp
qed (simp add: dispatched_def)

definition selected :: "string set option \<Rightarrow> TablePlan \<Rightarrow> bool" where
  "selected sel tp = (case sel of None \<Rightarrow> True | Some ts \<Rightarrow> tp_Table tp \<in> ts)"

text \<open>
  C34 (every_table_dispatched): When the resolution of a strategy's tables returns, every selected table of the plan is in exactly one
  place, once: staged, pending for the agent, left to the strategy, put off to the background, or in the list of errors; and nothing
  else is.
\<close>

theorem every_table_dispatched:
  assumes "Resolve gq cs (ro_binding w) = Inr plan" "resolveAndStage env gq fetcher cs params sel (Inr runID) w = Returns (w', Inr res)"
  shows "mset (map tp_Table (filter (selected sel) (rn_Tables plan))) =
    mset (map rs_Table (rl_Staged res)) + mset (map pn_Table (rl_Pending res)) + mset (rl_Native res) +
      mset (map tp_Table (rl_Background res)) + mset (map fst (rl_Errors res))"
proof -
  let ?tables = "filter (selected sel) (rn_Tables plan)"
  let ?zero = "\<lparr>rl_Staged = [], rl_Pending = [], rl_Native = [], rl_Background = [], rl_Errors = [], rl_Warnings = rn_Warnings plan\<rparr>"
  have "dispatch_tables env fetcher params runID ?tables (?zero, w) = Returns (res, w')"
    using assms by (auto simp: resolveAndStage_def Let_def selected_def [abs_def] split: run.splits prod.splits)
  from dispatch_tables_adds [OF this] show ?thesis by (simp add: dispatched_def)
qed

subsection \<open>Files\<close>

lemma run_fetch_file:
  assumes "run_fetch env opts pg s fs = (s', fs', r)"
  shows "(p \<noteq> table_path (rv_fetch env) opts \<longrightarrow> fs' p = fs p) \<and>
    (\<forall>lr. r = Inr lr \<longrightarrow> lr_ParquetPath lr = table_path (rv_fetch env) opts \<and>
       holds_rows (wf_close (rv_disk env (fo_Table opts)) = None) fs' (table_path (rv_fetch env) opts) (lr_RowCount lr))"
proof (cases pg)
  case None
  with assms have "Fetch (rv_fetch env) (rv_disk env (fo_Table opts)) opts s fs = (s', fs', r)" by (simp add: run_fetch_def)
  from Fetch_file [OF this] show ?thesis .
next
  case (Some c)
  with assms have "FetchPaginated (rv_fetch env) (rv_disk env (fo_Table opts)) opts c s fs = (s', fs', r)" by (simp add: run_fetch_def)
  from FetchPaginated_file [OF this] show ?thesis .
qed

interpretation inline: table_fetch "run_fetch env" "table_path (rv_fetch env)" "\<lambda>opts. wf_close (rv_disk env (fo_Table opts)) = None"
  for env :: "'s resolver_env"
proof (unfold_locales, goal_cases)
  case (1 opts pg s fs s' fs' r p)
  then show ?case using run_fetch_file [OF 1(1)] by blast
next
  case (2 opts pg s fs s' fs' lr)
  then show ?case using run_fetch_file [OF 2] by blast
qed

definition staged_holds :: "'s resolver_env \<Rightarrow> string \<Rightarrow> file_store \<Rightarrow> resolveStaged \<Rightarrow> bool" where
  "staged_holds env runID fs st \<longleftrightarrow>
     rs_ParquetPath st = fx_path (rv_fetch env) (rv_stagingDir env) runID (rs_Table st) \<and>
     holds_rows (wf_close (rv_disk env (rs_Table st)) = None) fs (rs_ParquetPath st) (rs_RowsStaged st)"

definition own_paths :: "'s resolver_env \<Rightarrow> string \<Rightarrow> bool" where
  "own_paths env runID \<longleftrightarrow> inj (fx_path (rv_fetch env) (rv_stagingDir env) runID)"

lemma execute_keeps:
  assumes "executeMCPFetch env tp params runID w = Returns (w', r)" "own_paths env runID" "rs_Table st \<noteq> tp_Table tp"
    and "staged_holds env runID (ro_files w) st"
  shows "staged_holds env runID (ro_files w') st"
proof -
  obtain opts pg s' x where run: "run_fetch env opts pg (ro_server w) (ro_files w) = (s', ro_files w', x)"
    and o: "fo_Table opts = tp_Table tp" "fo_StagingDir opts = rv_stagingDir env" "fo_RunID opts = runID"
    using executeMCPFetch_run [OF assms(1)] by blast
  have "rs_ParquetPath st \<noteq> table_path (rv_fetch env) opts"
    using assms(2-4) o by (auto simp: staged_holds_def table_path_def own_paths_def inj_def)
  from inline.earlier_rows_kept [OF run this] assms(4) show ?thesis unfolding staged_holds_def by blast
qed

lemma execute_holds:
  assumes "executeMCPFetch env tp params runID w = Returns (w', Inr st)"
  shows "staged_holds env runID (ro_files w') st \<and> rs_Table st = tp_Table tp"
  using executeMCPFetch_run [OF assms]
proof (elim exE conjE)
  fix opts pg s' x
  assume run: "run_fetch env opts pg (ro_server w) (ro_files w) = (s', ro_files w', x)"
    and o: "fo_Table opts = tp_Table tp" "fo_StagingDir opts = rv_stagingDir env" "fo_RunID opts = runID"
    and all: "\<forall>st2. Inr st = Inr st2 \<longrightarrow> (\<exists>lr. x = Inr lr \<and> rs_Table st2 = tp_Table tp \<and> rs_RowsStaged st2 = lr_RowCount lr \<and>
      rs_ParquetPath st2 = lr_ParquetPath lr)"
  from all [rule_format, OF refl] obtain lr where x: "x = Inr lr"
    and eqs: "rs_Table st = tp_Table tp" "rs_RowsStaged st = lr_RowCount lr" "rs_ParquetPath st = lr_ParquetPath lr"
    by (elim exE conjE)
  from inline.own_rows [OF run [unfolded x]] o eqs show ?thesis by (simp add: staged_holds_def table_path_def)
qed

lemma dispatch_table_files:
  assumes "dispatch_table env fetcher params runID tp (res, w) = Returns (res', w')" "own_paths env runID"
    and "tp_Table tp \<notin> set (map rs_Table (rl_Staged res))" "\<forall>st\<in>set (rl_Staged res). staged_holds env runID (ro_files w) st"
  shows "(\<forall>st\<in>set (rl_Staged res'). staged_holds env runID (ro_files w') st) \<and>
    set (map rs_Table (rl_Staged res')) \<subseteq> insert (tp_Table tp) (set (map rs_Table (rl_Staged res)))"
proof (cases "w' = w \<and> rl_Staged res' = rl_Staged res")
  case True
  with assms(4) show ?thesis by auto
next
  case False
  with assms(1) obtain r where e: "executeMCPFetch env tp (params_map params) runID w = Returns (w', r)"
    and res': "rl_Staged res' = rl_Staged res @ (case r of Inl _ \<Rightarrow> [] | Inr st \<Rightarrow> [st])"
    by (auto simp: dispatch_table_def Let_def split: if_splits run.splits sum.splits prod.splits)
  have "staged_holds env runID (ro_files w') st" if "st \<in> set (rl_Staged res)" for st
    using execute_keeps [OF e assms(2)] assms(3,4) that by force
  note old = this
  show ?thesis
  proof (cases r)
    case (Inl err)
    with old res' show ?thesis by auto
  next
    case (Inr st)
    with e execute_holds have "staged_holds env runID (ro_files w') st" "rs_Table st = tp_Table tp" by blast+
    with Inr old res' show ?thesis by auto
  qed
qed

lemma dispatch_tables_files:
  assumes "own_paths env runID"
  shows "\<lbrakk>dispatch_tables env fetcher params runID tps (res, w) = Returns (res', w'); distinct (map tp_Table tps);
      set (map tp_Table tps) \<inter> set (map rs_Table (rl_Staged res)) = {}; \<forall>st\<in>set (rl_Staged res). staged_holds env runID (ro_files w) st\<rbrakk> \<Longrightarrow>
    \<forall>st\<in>set (rl_Staged res'). staged_holds env runID (ro_files w') st"
proof (induction tps arbitrary: res w)
  case (Cons tp tps)
  then obtain res1 w1 where one: "dispatch_table env fetcher params runID tp (res, w) = Returns (res1, w1)"
    and rest: "dispatch_tables env fetcher params runID tps (res1, w1) = Returns (res', w')"
    by (auto split: run.splits)
  have "tp_Table tp \<notin> set (map rs_Table (rl_Staged res))" using Cons.prems(3) by auto
  note files = dispatch_table_files [OF one assms this Cons.prems(4)]
  have "tp_Table tp \<notin> set (map tp_Table tps)" "set (map tp_Table tps) \<subseteq> set (map tp_Table (tp # tps))" using Cons.prems(2) by auto
  then have "set (map tp_Table tps) \<inter> set (map rs_Table (rl_Staged res1)) = {}"
    using files Cons.prems(3) by blast
  with Cons.IH [OF rest] Cons.prems(2) files show ?case by simp
qed simp

lemma resolve_distinct:
  assumes "Resolve gq cs bs = Inr plan" "distinct (map fst (ct_Tables cs))"
  shows "distinct (map tp_Table (rn_Tables plan))"
proof -
  have "resolve_tables gq bs ts = Inr (tps, ws) \<Longrightarrow> distinct (map fst ts) \<Longrightarrow> distinct (map tp_Table tps) \<and> tp_Table ` set tps \<subseteq> fst ` set ts"
    for ts tps ws
  proof (induction ts arbitrary: tps ws)
    case (Cons a ts)
    obtain t spec where a: "a = (t, spec)" by fastforce
    obtain tps1 ws1 where rest: "resolve_tables gq bs ts = Inr (tps1, ws1)"
      using Cons.prems(1) a by (auto split: sum.splits prod.splits if_splits)
    have IH: "distinct (map tp_Table tps1)" "tp_Table ` set tps1 \<subseteq> fst ` set ts" using Cons.IH [OF rest] Cons.prems(2) by simp_all
    show ?case
    proof (cases "resolveTable gq t spec bs")
      case (Inl err)
      with Cons.prems(1) a rest IH show ?thesis by (auto split: if_splits)
    next
      case (Inr x)
      obtain tp w where x: "x = (tp, w)" by fastforce
      with Inr have "tp_Table tp = t" using resolveTable_cases by blast
      moreover have "t \<notin> tp_Table ` set tps1" using IH(2) Cons.prems(2) a by auto
      moreover have "tps = tp\<lparr>tp_Optional := tb_Optional spec\<rparr> # tps1" using Cons.prems(1) a rest Inr x by simp
      ultimately show ?thesis using IH a by (simp add: subset_insertI2)
    qed
  qed simp
  with assms show ?thesis by (auto simp: Resolve_def split: sum.splits prod.splits)
qed

text \<open>
  C35 (staged_tables_have_files): After a resolution, every table reported as staged whose file could be closed has its rows on
  disk at the reported path, whatever was fetched after it: a complete file with at least the reported number of rows. (The tables of
  the contract have different names, and each its own path.)
\<close>

theorem staged_tables_have_files:
  assumes "resolveAndStage env gq fetcher cs params sel (Inr runID) w = Returns (w', Inr res)"
    and "own_paths env runID" "distinct (map fst (ct_Tables cs))"
    and "st \<in> set (rl_Staged res)" "wf_close (rv_disk env (rs_Table st)) = None"
  shows "\<exists>rows. ro_files w' (rs_ParquetPath st) = Some (Complete rows) \<and> rs_RowsStaged st \<le> int (length rows)"
proof -
  let ?zero = "\<lambda>plan. \<lparr>rl_Staged = [], rl_Pending = [], rl_Native = [], rl_Background = [], rl_Errors = [], rl_Warnings = rn_Warnings plan\<rparr>"
  from assms(1) obtain plan where p: "Resolve gq cs (ro_binding w) = Inr plan"
    and d: "dispatch_tables env fetcher params runID (filter (selected sel) (rn_Tables plan)) (?zero plan, w) = Returns (res, w')"
    by (auto simp: resolveAndStage_def Let_def selected_def [abs_def] split: run.splits prod.splits sum.splits)
  have "distinct (map tp_Table (filter (selected sel) (rn_Tables plan)))"
    using resolve_distinct [OF p assms(3)] by (rule distinct_map_filter)
  from dispatch_tables_files [OF assms(2) d this] assms(4,5) show ?thesis
    by (auto simp: staged_holds_def holds_rows_def)
qed

subsection \<open>The plan kept for a restart\<close>

lemma override_args_none:
  assumes "\<And>k v. (k, v) \<in> set params \<Longrightarrow> map_of margs k = None"
  shows "override_args margs params = margs"
proof -
  have "\<forall>(k, v)\<in>set params. map_of margs k = None \<Longrightarrow>
      foldl (\<lambda>a (k, v). if map_of margs k = None then a else go_put k v a) acc params = acc" for acc
    by (induction params arbitrary: acc) auto
  moreover have "\<forall>(k, v)\<in>set params. map_of margs k = None" using assms by auto
  ultimately show ?thesis unfolding override_args_def by blast
qed

text \<open>
  C36 (recovered_plan_is_live_plan): The plan that is kept for a restart, read back by the recovery, asks for the same fetch as the live
  run: the same server, tool, arguments, columns, limits and paging. This holds for a binding whose arguments no parameter
  overrides, for typed columns, a timeout in whole seconds and a table with no offset or cursor recorded.
\<close>

theorem recovered_plan_is_live_plan:
  assumes "serializeFetchPlan parse tp (Some sb) params = Returns (margs, plan)"
    and "\<And>k v. (k, v) \<in> set params \<Longrightarrow> map_of (sb_MCPArgs sb) k = None"
    and "\<And>f. f \<in> set (tp_Fields tp) \<Longrightarrow> rf_ColumnType f \<noteq> []"
    and "binding_timeout parse sb = int secs * second_ns"
    and "ts_LastOffset ts \<le> 0" "ts_LastCursor ts = []"
  shows "\<exists>args. live_args (Some sb) params = Returns args \<and>
    recover_opts env runID (tp_Table tp) ts plan = fetch_opts parse (gx_stagingDir env) runID tp (Some sb) args \<and>
    fp_Pagination plan = sb_Pagination sb"
proof -
  have over: "override_args (sb_MCPArgs sb) params = sb_MCPArgs sb" using assms(2) by (rule override_args_none)
  from assms(1) obtain args where args: "live_args (Some sb) params = Returns args" and plan: "fp_Args plan = Some args"
      "fp_Server plan = or_else (sb_MCPServer sb) (tp_MCPServer tp)" "fp_Tool plan = or_else (sb_MCPTool sb) (tp_MCPTool tp)"
      "fp_Fields plan = map (\<lambda>f. (rf_SourceField f, rf_TargetColumn f, rf_ColumnType f)) (tp_Fields tp)"
      "fp_ItemsPath plan = sb_ItemsPath sb" "fp_SingleItem plan = sb_SingleItem sb" "fp_MaxRows plan = sb_MaxRows sb"
      "fp_TimeoutSecs plan = whole_seconds (binding_timeout parse sb)" "fp_Pagination plan = sb_Pagination sb"
      "fp_ResponseFormat plan = tp_ResponseFormat tp" "fp_ResponseAdapter plan = tp_ResponseAdapter tp"
    by (auto simp: serializeFetchPlan_def live_args_def over Let_def split: run.splits if_splits)
  have fields_eq: "fetch_fields (tp_Fields tp) = map (\<lambda>f. (rf_SourceField f, rf_TargetColumn f, rf_ColumnType f)) (tp_Fields tp)"
    using assms(3) by (simp add: fetch_fields_def)
  have secs: "whole_seconds (binding_timeout parse sb) = int secs" unfolding assms(4) by (simp add: whole_seconds_def second_ns_def)
  have "recover_opts env runID (tp_Table tp) ts plan = fetch_opts parse (gx_stagingDir env) runID tp (Some sb) args"
    using secs assms(4-6) by (simp add: recover_opts_def fetch_opts_def Let_def plan fields_eq split: option.splits)
  with args plan(9) show ?thesis by blast
qed

text \<open>
  A parameter named like an argument overrides it in the live run, and not in the plan: a run that is recovered fetches for
  other arguments than the one that was interrupted.
\<close>

lemma recovery_forgets_parameters:
  fixes sb :: SourceBinding
  assumes "sb_MCPArgs sb = [(''index'', GStr ''default'')]"
  shows "live_args (Some sb) [(''index'', GStr ''mine'')] = Returns [(''index'', GStr ''mine'')]"
    and "serializeFetchPlan parse tp (Some sb) [(''index'', GStr ''mine'')] = Returns (m, plan) \<Longrightarrow> fp_Args plan = Some [(''index'', GStr ''default'')]"
  using assms
  by (auto simp: live_args_def override_args_def go_put_def serializeFetchPlan_def interpolateValue.simps InterpolateSimple_def
    ReplaceAll_def placeholder_def in_place_def Let_def split: run.splits)

text \<open>
  A template in a list or map of the arguments is replaced in the binding itself, so that the first call's parameters stay for all
  later ones. One at the top level is not.
\<close>

lemma first_parameters_stay:
  defines "margs \<equiv> [(''top'', GStr ''{{h}}''), (''body'', GMap [(''host'', GStr ''{{h}}'')])]"
  shows "interpolateArgs margs [(''h'', GStr ''a'')] = Returns [(''top'', GStr ''a''), (''body'', GMap [(''host'', GStr ''a'')])]"
    and "binding_args_after margs [(''h'', GStr ''a'')] [(''top'', GStr ''a''), (''body'', GMap [(''host'', GStr ''a'')])] =
      [(''top'', GStr ''{{h}}''), (''body'', GMap [(''host'', GStr ''a'')])]"
    and "interpolateArgs [(''top'', GStr ''{{h}}''), (''body'', GMap [(''host'', GStr ''a'')])] [(''h'', GStr ''b'')] =
      Returns [(''top'', GStr ''b''), (''body'', GMap [(''host'', GStr ''a'')])]"
  by (simp_all add: margs_def interpolateValue.simps InterpolateSimple_def ReplaceAll_def placeholder_def binding_args_after_def in_place_def Let_def)

text \<open>A list argument with a null element panics.\<close>

lemma null_in_list_panics: "interpolateArgs [(''ids'', GList [GStr ''a'', GNil])] [(''h'', GStr ''b'')] = Panics"
  by (simp add: interpolateValue.simps)

lemma merged_bindings_lose_overrides: "mergeBindings (Some loc) (Some glob) = Some b \<Longrightarrow> bs_FieldOverrides b = []"
  by (auto simp: mergeBindings_def)

text \<open>What a partial result becomes is a staged table like any other.\<close>

lemma partial_fetch_looks_staged:
  assumes "map_of (bs_SourceBindings b) (tp_Table tp) = Some sb" "ro_binding w = Some b"
    and "run_fetch env (fetch_opts (rv_duration env) (rv_stagingDir env) runID tp (Some sb) (sb_MCPArgs sb)) (sb_Pagination sb) (ro_server w) (ro_files w) =
      (s', fs', Inr lr)" "lr_Partial lr"
  shows "\<exists>w'. executeMCPFetch env tp [] runID w = Returns (w', Inr \<lparr>rs_Table = tp_Table tp, rs_Backend = tp_Backend tp, rs_FetchMode = gateway_mode,
    rs_RowsStaged = lr_RowCount lr, rs_ParquetPath = lr_ParquetPath lr, rs_Fields = tp_Fields tp\<rparr>)"
  using assms by (simp add: executeMCPFetch_def binding_of_def live_args_def override_args_def binding_args_after_def Let_def)

subsection \<open>Examples\<close>

text \<open>
  A strategy with a table that is fetched by offset, one that the agent fetches, and an optional one without a source.
\<close>

definition example_contract :: ContractSpec where
  "example_contract =
     \<lparr>ct_Name = ''s'', ct_Description = ''d'', ct_Tags = [''t''], ct_Params = [], ct_Graph = False,
      ct_Tables = [(''t'', \<lparr>tb_Optional = False, tb_Columns = [(''id'', \<lparr>cl_Type = [], cl_Semantic = []\<rparr>)]\<rparr>),
                   (''notes'', \<lparr>tb_Optional = False, tb_Columns = []\<rparr>), (''extra'', \<lparr>tb_Optional = True, tb_Columns = []\<rparr>)]\<rparr>"

definition example_source :: SourceBinding where
  "example_source =
     \<lparr>sb_Backend = ''mcp'', sb_Index = [], sb_QueryTemplate = [], sb_FetchMode = ''mcp_client'', sb_MaxRows = 10, sb_FieldMap = [(''id'', ''id'')],
      sb_MCPTool = ''list'', sb_MCPServer = ''s'', sb_MCPArgs = [], sb_ItemsPath = ''data'', sb_SingleItem = False, sb_Timeout = [],
      sb_Pagination = Some offset_paging, sb_ResponseFormat = [], sb_ResponseAdapter = []\<rparr>"

definition example_binding :: BindingSpec where
  "example_binding =
     \<lparr>bs_SourceBindings = [(''t'', example_source), (''notes'', example_source\<lparr>sb_FetchMode := [], sb_FieldMap := []\<rparr>)], bs_FieldOverrides = []\<rparr>"

definition example_graph :: graph_querier where
  "example_graph = \<lparr>gq_sources = \<lambda>_. Inr [], gq_tools = \<lambda>_. Inr [], gq_order = id\<rparr>"

definition example_resolver :: "nat resolver_env" where
  "example_resolver = \<lparr>rv_fetch = offset_example, rv_disk = \<lambda>_. sound_disk, rv_duration = \<lambda>_. None, rv_stagingDir = ''d''\<rparr>"

definition example_world :: "nat resolve_world" where
  "example_world = \<lparr>ro_server = 0, ro_files = \<lambda>_. None, ro_binding = Some example_binding\<rparr>"

text \<open>The plan of the bound table, and the one of the agent's.\<close>

definition example_plan :: TablePlan where
  "example_plan = (zero_plan ''t'')
     \<lparr>tp_Backend := ''mcp'', tp_FetchMode := gateway_mode, tp_MCPTool := ''list'', tp_MCPServer := ''s'',
      tp_Fields := [\<lparr>rf_SourceField = ''id'', rf_TargetColumn = ''id'', rf_Semantic = [], rf_ColumnType = ''VARCHAR''\<rparr>]\<rparr>"

definition example_notes :: TablePlan where
  "example_notes = (zero_plan ''notes'')\<lparr>tp_Backend := ''mcp'', tp_FetchMode := ''mcp'', tp_MCPTool := ''list'', tp_MCPServer := ''s''\<rparr>"

lemma example_resolves:
  "Resolve example_graph example_contract (Some example_binding) =
     Inr \<lparr>rn_Strategy = ''s'', rn_Tables = [example_plan, example_notes],
       rn_Warnings = [''optional table '' @ quote ''extra'' @ '': no semantic tags on columns -- cannot auto-resolve'']\<rparr>"
  by code_simp

theorem resolve_plans_all_witness:
  "map (\<lambda>(t, spec). (t, tb_Optional spec))
     (filter (\<lambda>(t, spec). is_ok (resolveTable example_graph t spec (Some example_binding))) (ct_Tables example_contract)) =
   [(''t'', False), (''notes'', False)]"
  using resolve_plans_all [where gq = example_graph and cs = example_contract and bs = "Some example_binding"]
  by (simp add: example_resolves example_plan_def example_notes_def zero_plan_def)

theorem resolved_columns_typed_witness:
  "distinct (map rf_TargetColumn (tp_Fields example_plan))"
proof -
  let ?spec = "\<lparr>tb_Optional = False, tb_Columns = [(''id'', \<lparr>cl_Type = [], cl_Semantic = []\<rparr>)]\<rparr>"
  have "resolveTable example_graph ''t'' ?spec (Some example_binding) = Inr (example_plan, [])" by code_simp
  moreover have "distinct (map fst (sb_FieldMap sb))" if "Some example_binding = Some b" "(t, sb) \<in> set (bs_SourceBindings b)" for b t sb
    using that by (auto simp: example_binding_def example_source_def)
  ultimately show ?thesis using resolved_columns_typed [where bs = "Some example_binding" and spec = ?spec and tp = example_plan]
    by fastforce
qed

theorem parameters_normalized_witness:
  "case normalize_params [(''n'', \<lparr>ps_Type = ''int'', ps_Required = True, ps_Default = GNil\<rparr>)] [(''n'', GStr ''5''), (''x'', GBool True)] of
     Inl _ \<Rightarrow> False | Inr out \<Rightarrow> go_get out ''n'' = GInt 5 \<and> go_get out ''x'' = GBool True"
proof -
  have p: "parse_int64 ''5'' = Some 5" by code_simp
  have d: "distinct (map fst [(''n'', \<lparr>ps_Type = ''int'', ps_Required = True, ps_Default = GNil\<rparr>)])" by simp
  show ?thesis
    using parameters_normalized [OF d, of "[(''n'', GStr ''5''), (''x'', GBool True)]"]
    by (simp add: normalize_param_def go_get_def Atoi_def p split: sum.splits)
qed

lemma example_table_staged:
  "\<exists>s' fs' lr. run_fetch example_resolver (fetch_opts (rv_duration example_resolver) ''d'' ''r'' example_plan (Some example_source) []) (Some offset_paging)
      0 (\<lambda>_. None) = (s', fs', Inr lr) \<and> lr_RowCount lr = 3 \<and> lr_ParquetPath lr = ''d/r/t''"
proof -
  let ?opts = "fetch_opts (rv_duration example_resolver) ''d'' ''r'' example_plan (Some example_source) []"
  have tool: "offset_tool offset_example ?opts offset_paging three_items"
    by (simp add: offset_tool_def offset_example_def offset_paging_def fetch_opts_def example_plan_def zero_plan_def example_source_def arg_nat_def
      parseResponse_def navigateToItems_def toMapSlice_def map_slice_maps takeWhile_append dropWhile_append)
  have b: "\<not> fx_budget offset_example n" for n by (simp add: offset_example_def)
  have cap: "row_cap ?opts = 10" "length three_items = 3" by (simp_all add: row_cap_def fetch_opts_def example_source_def three_items_def)
  have serves: "serves_page offset_example ?opts offset_paging three_items (\<lambda>_. []) n" for n
    by (rule offset_tool_serves [OF tool]) (simp_all add: offset_paging_def)
  obtain s' fs' lr where f: "FetchPaginated offset_example sound_disk ?opts offset_paging 0 (\<lambda>_. None) = (s', fs', Inr lr)" "lr_RowCount lr = 3"
    using FetchPaginated_served [OF serves _ refl sound_disk b, of 0 "\<lambda>_. None"] cap by (auto simp: same_cursor_def offset_paging_def)
  moreover have "lr_ParquetPath lr = table_path offset_example ?opts" using FetchPaginated_file [OF f(1)] by blast
  moreover have "table_path offset_example ?opts = ''d/r/t''"
    by (simp add: table_path_def offset_example_def fetch_opts_def example_plan_def zero_plan_def)
  ultimately show ?thesis by (simp add: run_fetch_def example_resolver_def)
qed

text \<open>The resolution of the example, up to the world after it.\<close>

lemma example_resolution:
  "\<exists>w' res st. resolveAndStage example_resolver example_graph True example_contract None None (Inr ''r'') example_world = Returns (w', Inr res) \<and>
     rl_Staged res = [st] \<and> rs_Table st = ''t'' \<and> rs_RowsStaged st = 3 \<and> rs_ParquetPath st = ''d/r/t''"
proof -
  obtain s' fs' lr where f: "run_fetch example_resolver (fetch_opts (rv_duration example_resolver) ''d'' ''r'' example_plan (Some example_source) [])
        (Some offset_paging) 0 (\<lambda>_. None) = (s', fs', Inr lr)" and lr: "lr_RowCount lr = 3" "lr_ParquetPath lr = ''d/r/t''"
    using example_table_staged by blast
  have plan: "tp_Table example_plan = ''t''" "tp_FetchMode example_plan = gateway_mode" "tp_Table example_notes = ''notes''"
      "tp_FetchMode example_notes = ''mcp''"
    by (simp_all add: example_plan_def example_notes_def zero_plan_def)
  have sb: "binding_of (ro_binding example_world) ''t'' = Some example_source"
    by (simp add: binding_of_def example_world_def example_binding_def)
  have pg: "sb_Pagination example_source = Some offset_paging" "sb_MaxRows example_source = 10" by (simp_all add: example_source_def)
  have inline_fetch: "\<not> needsBackground (background_flag (Some example_source))"
    by (simp add: background_flag_def needsBackground_def pg)
  have args: "live_args (Some example_source) [] = Returns []"
    by (simp add: live_args_def override_args_def example_source_def)
  have env: "rv_stagingDir example_resolver = ''d''" "ro_server example_world = 0" "ro_files example_world = (\<lambda>_. None)"
    by (simp_all add: example_resolver_def example_world_def)
  obtain w1 st where x: "executeMCPFetch example_resolver example_plan [] ''r'' example_world = Returns (w1, Inr st)"
    and st: "rs_Table st = ''t''" "rs_RowsStaged st = 3" "rs_ParquetPath st = ''d/r/t''"
    by (simp add: executeMCPFetch_def plan sb args pg env f lr Let_def)
  have modes: "gateway_mode \<noteq> []" "''mcp'' \<noteq> gateway_mode" by (simp_all add: gateway_mode_def)
  have r: "Resolve example_graph example_contract (ro_binding example_world) =
      Inr \<lparr>rn_Strategy = ''s'', rn_Tables = [example_plan, example_notes],
       rn_Warnings = [''optional table '' @ quote ''extra'' @ '': no semantic tags on columns -- cannot auto-resolve'']\<rparr>"
    by (simp add: example_world_def example_resolves)
  show ?thesis
    by (simp add: resolveAndStage_def r dispatch_table_def plan modes sb inline_fetch params_map_def x st Let_def)
qed

theorem every_table_dispatched_witness:
  "\<exists>w' res. resolveAndStage example_resolver example_graph True example_contract None None (Inr ''r'') example_world = Returns (w', Inr res) \<and>
     mset (map rs_Table (rl_Staged res)) + mset (map pn_Table (rl_Pending res)) + mset (rl_Native res) + mset (map tp_Table (rl_Background res)) +
       mset (map fst (rl_Errors res)) = {#''t'', ''notes''#}"
proof -
  obtain w' res where r: "resolveAndStage example_resolver example_graph True example_contract None None (Inr ''r'') example_world = Returns (w', Inr res)"
    using example_resolution by blast
  have p: "Resolve example_graph example_contract (ro_binding example_world) =
      Inr \<lparr>rn_Strategy = ''s'', rn_Tables = [example_plan, example_notes],
       rn_Warnings = [''optional table '' @ quote ''extra'' @ '': no semantic tags on columns -- cannot auto-resolve'']\<rparr>"
    by (simp add: example_world_def example_resolves)
  show ?thesis
    using every_table_dispatched [OF p r] r
    by (simp add: selected_def example_plan_def example_notes_def zero_plan_def)
qed

theorem staged_tables_have_files_witness:
  "\<exists>w' res rows. resolveAndStage example_resolver example_graph True example_contract None None (Inr ''r'') example_world = Returns (w', Inr res) \<and>
     ro_files w' ''d/r/t'' = Some (Complete rows) \<and> 3 \<le> length rows"
proof -
  obtain w' res st where r: "resolveAndStage example_resolver example_graph True example_contract None None (Inr ''r'') example_world = Returns (w', Inr res)"
    and st: "rl_Staged res = [st]" "rs_RowsStaged st = 3" "rs_ParquetPath st = ''d/r/t''" using example_resolution by blast
  have own: "own_paths example_resolver ''r''" by (simp add: own_paths_def example_resolver_def offset_example_def inj_def)
  have d: "distinct (map fst (ct_Tables example_contract))" by (simp add: example_contract_def)
  have s: "st \<in> set (rl_Staged res)" "wf_close (rv_disk example_resolver (rs_Table st)) = None"
    by (simp_all add: st example_resolver_def sound_disk_def)
  from staged_tables_have_files [OF r own d s] r st show ?thesis by auto
qed

theorem recovered_plan_is_live_plan_witness:
  "\<exists>args. live_args (Some example_source) [] = Returns args \<and>
     recover_opts sample_stage_env ''r'' ''t'' (zero_table ''t'' gateway_mode True TsFetching)
       (case serializeFetchPlan (\<lambda>_. None) example_plan (Some example_source) [] of Returns x \<Rightarrow> snd x) =
     fetch_opts (\<lambda>_. None) (gx_stagingDir sample_stage_env) ''r'' example_plan (Some example_source) args"
proof -
  obtain plan where p: "serializeFetchPlan (\<lambda>_. None) example_plan (Some example_source) [] = Returns ([], plan)"
    by (simp add: serializeFetchPlan_def example_source_def Let_def)
  have t: "binding_timeout (\<lambda>_. None) example_source = int 0 * second_ns" by (simp add: binding_timeout_def example_source_def)
  have ts: "ts_LastOffset (zero_table ''t'' gateway_mode True TsFetching) \<le> 0" "ts_LastCursor (zero_table ''t'' gateway_mode True TsFetching) = []"
    by (simp_all add: zero_table_def)
  have table: "tp_Table example_plan = ''t''" by (simp add: example_plan_def zero_plan_def)
  have "rf_ColumnType f \<noteq> []" if "f \<in> set (tp_Fields example_plan)" for f using that by (simp add: example_plan_def)
  from recovered_plan_is_live_plan [OF p _ this t ts, where env = sample_stage_env and runID = "''r''"] show ?thesis
    by (auto simp: p table)
qed

end
