(* ===== verification/Spec2Isabelle.thy ===== *)
theory Spec2Isabelle
  imports Reaper Worker AdmissionProperties ReconcilerProperties SidecarProperties ResponseProperties ResolutionProperties
begin

text \<open>
  \<^bold>\<open>fracta\<close> runs AI agents against long-lived objectives. A control plane keeps objectives,
  mission proposals, missions and agents in a database, admits proposals as missions, hands
  missions to workers through a queue, follows agents through a stream of events, lets them
  write to each other through mailboxes, and gives them the tools of registered MCP servers
  through a gateway. The development models that control plane (Go, \<open>src/internal\<close>).

  \<^bold>\<open>Theories\<close>
  \<^item> \<open>Prelude\<close>: error values, formatting (\<open>itoa\<close>, \<open>%q\<close>, durations), the table operations every
    SQL store is made of, reachability and the locale \<open>inductive_invariant\<close>.
  \<^item> \<open>Objective\<close>, \<open>Proposal\<close>: \<open>objective/objective.go\<close>, \<open>proposal/proposal.go\<close> and their
    PostgreSQL stores; locales \<open>objective_store\<close> and \<open>proposal_store\<close>, interpreted on them.
  \<^item> \<open>AgentStore\<close>: \<open>model/model.go\<close> and the agent tables of \<open>state/sqlitestore\<close>; locale \<open>agent_store\<close>.
  \<^item> \<open>EventRing\<close>, \<open>EventStore\<close>, \<open>Snapshot\<close>: \<open>internal/events\<close> (ring buffers, event store, SSE hub as a
    step relation, projection of events to agent snapshots).
  \<^item> \<open>AgentLifecycle\<close>: \<open>agentlifecycle/writer.go\<close>, its runs as a step relation, the automaton it
    refines, and what that means for events and snapshots; \<open>shared_step\<close> separates the update of a row from
    the emission of its event, for goroutines that come between the two.
  \<^item> \<open>Mission\<close>, \<open>MemoryQueue\<close>, \<open>PostgresQueue\<close>: \<open>internal/queue\<close>; the locale \<open>mission_queue\<close> is the
    interface, both queues interpret it.
  \<^item> \<open>Admission\<close>, \<open>AdmissionTick\<close>, \<open>AdmissionProperties\<close>: \<open>internal/admission\<close> (policy, reader,
    controller), the lemmas on one tick and the statements that follow.
  \<^item> \<open>Mailbox\<close>: the SQLite and PostgreSQL mailboxes; locale \<open>mailbox\<close>.
  \<^item> \<open>Reaper\<close>: \<open>controlplane/reaper.go\<close> over the lifecycle writer, the objectives and the mailbox.
  \<^item> \<open>Gateway\<close>: \<open>internal/gateway\<close> (patterns, visible set, scopes, catalog, the proxy handler).
  \<^item> \<open>Registry\<close>: \<open>internal/authz\<close>, the registry service and the SQLite registry; locale
    \<open>tool_registry\<close>.
  \<^item> \<open>Json\<close>, \<open>Pool\<close>, \<open>PoolProperties\<close>: \<open>internal/mcpclient\<close> (connection states, discovery, tool
    calls), as whole operations and as the interleaved steps of goroutines; \<open>Json\<close> is Go's
    \<open>json.Valid\<close>.
  \<^item> \<open>Reconciler\<close>, \<open>ReconcilerProperties\<close>: \<open>registry/reconciler.go\<close> over registry, pool and gateway;
    locale \<open>server_pool\<close>.
  \<^item> \<open>ExecSpec\<close>, \<open>Worker\<close>: \<open>orchestrator/execution_spec.go\<close> and \<open>worker/worker.go\<close> over either queue; locales
    \<open>worker_queue\<close> and \<open>worker_source\<close>.
  \<^item> \<open>StagingRun\<close>, \<open>StagingStore\<close>, \<open>StagingSession\<close>: \<open>strategy/staging_run.go\<close>, the SQLite and PostgreSQL stores of
    staging runs (one model over a \<open>dialect\<close>; locale \<open>staging_store\<close>), \<open>strategy/staging_session.go\<close>.
  \<^item> \<open>Staging\<close>, \<open>StagingProperties\<close>: background staging and \<open>strategy/staging_recovery.go\<close>; the loop of a
    recovery (\<open>recover_step\<close>) and the goroutines it starts on the way (\<open>go_step\<close>) interleave between their
    calls to the store in the step relation \<open>recovery_step\<close>.
  \<^item> \<open>StagingTools\<close>, \<open>StagingToolsProperties\<close>: \<open>strategy_run\<close>, \<open>strategy_stage\<close> and \<open>strategy_stage_status\<close> of
    \<open>mcpserver/strategy_tools.go\<close>.
  \<^item> \<open>GoValues\<close>: decoded JSON values (\<open>map[string]any\<close>), the string functions of Go's library that the code calls, and the
    templates of \<open>loaders/template.go\<close>.
  \<^item> \<open>FetchRows\<close>, \<open>FetchResponse\<close>, \<open>ResponseProperties\<close>: \<open>staging/parquet.go\<close> and \<open>staging/writer.go\<close> (types of columns,
    coercion of values, the file that is written) and \<open>loaders/response_adapters.go\<close> (the formats of a tool's answer).
  \<^item> \<open>Fetcher\<close>, \<open>FetcherProperties\<close>: \<open>loaders/mcp_fetcher.go\<close>, one call or page after page; locale \<open>table_fetch\<close>.
  \<^item> \<open>Contract\<close>: \<open>internal/contract\<close> and \<open>internal/resolve\<close>, with the parameters of a run and its effective binding.
  \<^item> \<open>Resolution\<close>, \<open>ResolutionProperties\<close>: \<open>resolveAndStage\<close> of \<open>mcpserver/strategy_tools.go\<close> over contract and fetcher, which
    interprets \<open>table_fetch\<close> for the fetch of a table.
  \<^item> \<open>Sidecar\<close>, \<open>SidecarProperties\<close>: \<open>strategy/sidecar.go\<close> and \<open>strategy/pool.go\<close>, the client of the
    strategy runners. \<open>withRetry_step\<close> is a call from one hold of the mutex to the next; \<open>callers_step\<close> are
    several callers of one sidecar, \<open>withRetry\<close> one that nobody comes between.
  \<^item> this theory: what spans the registry and the gateway, the controller and the orchestrator.

  \<^bold>\<open>State and operations\<close>. A table is the list of its rows in insertion order; an operation is a
  function from its arguments and the state to the new state and a Go result (\<open>Inl\<close> an error).
  What the program cannot determine is an argument: the clock, fresh identifiers, the answer of a
  backend, and for every database call whether it fails. An operation that other processes can
  interleave with is split at those points (\<open>build_begin\<close>/\<open>build_finish\<close> of the visible set,
  \<open>pgmb_read_begin\<close>/\<open>pgmb_read_commit\<close> of a mailbox read). Loops that wait get the list of their
  wake-ups, so that a loop that never gets one is the value \<open>None\<close>; \<open>pg_dequeue_returns\<close> and
  \<open>memory_queue_delivers\<close> say when they return. Times and durations are unbounded integers of
  nanoseconds, identifiers and other counters are unbounded: the code's 64-bit values do not overflow
  in the life of a deployment.

  \<^bold>\<open>What is shown\<close>. Admission: the decision is exactly the conjunction of the limits, every new
  mission respects them, counters match rows, every proposal is decided, objectives move only
  along their status machine. Lifecycle: refinement of the agent automaton, terminal rows never
  change, exactly one terminal event. Queues: order, atomicity of an enqueue, no double delivery,
  exact reclaiming. Mailboxes: exactly-once delivery, and where two PostgreSQL reads overlap.
  Reaper: the outcome for every agent and objective. Events: ring buffers equal list tails, the
  hub never sends on a closed channel. Gateway and registry: who can change what, what is visible
  and callable, and that a tool switched off is blocked. Pool: no waiter is forgotten and one
  goroutine connects at a time (with the runs where code and comments part). Reconciler: pool and
  gateway follow the registry. Worker: a claimed mission is settled once its agent's process has ended (the wait for
  it has no bound), agents only move along their lifecycle, and a specification survives its passage through the queue. Staging: a run is claimed once, a
  recovery ends within seven steps per table and five more whatever the interleaving, in the status
  the tables give (but for one order of events, which is named), and the tools execute a run once and report its outcome. Fetching: rows fit
  the schema of their file, paging by offset or cursor stages every item once, a page that fails keeps what came before it, and
  a fetch ends within a number of calls its limits give (no fuel: the loop counts the rows that are left, and stops when a page adds none).
  Resolution: every table of a contract is planned or reported, dispatched to exactly one place, its file is there when it is
  reported as staged, and the plan kept for a restart is the live one. Sidecar: a request
  reaches a runner at most once and, with any number of callers and no timeouts, gets its own answer, and the pool finds a healthy runner
  while its 64-bit counter (kept as a word) does not wrap.

  \<^bold>\<open>Not modelled\<close>. Process and pod backends, workspaces and git, HTTP and MCP transport, YAML
  configuration, rendering of files for other tools, queries sent to the graph database, and the
  tickers of background loops: they are input and output around the state modelled here, and
  appear as arguments where a modelled operation depends on their answer. A Parquet file is its list of rows; JSON, CSV and
  time parsing of Go's libraries are functions given to the fetcher. Of the stores, the PostgreSQL twins of the SQLite registry and
  agent store are not modelled, and of the orchestrator the spawn of an agent (workspaces, skills and processes) is not.
\<close>

subsection \<open>Registry and gateway together\<close>

lemma tool_row_mem:
  assumes "tool_flag db server tool = Some b"
  shows "\<exists>t\<in>set (rg_tools db). tl_ServerName t = server \<and> tl_ToolName t = tool \<and> tl_Enabled t = b"
  using assms by (auto simp: tool_flag_def flag_in_def dest: find_SomeD)

text \<open>
  Two rows with the same namespaced name are the same tool when the server names hold no dot; then
  the gateway reads the flag of a tool as the registry has it.
\<close>

lemma ns_name_inject:
  assumes "ns_name s t = ns_name s' t'" "CHR ''.'' \<notin> set s" "CHR ''.'' \<notin> set s'"
  shows "s = s' \<and> t = t'"
  using assms(1) ParseNamespacedTool_ns [OF assms(2), of t] ParseNamespacedTool_ns [OF assms(3), of t'] by (metis prod.inject)

lemma enabled_map_listed:
  assumes "registry_ok db" "tool_flag db server tool = Some b" "listed_tools None db = Inr ts"
    and dots: "list_all (\<lambda>sv. CHR ''.'' \<notin> set (sv_Name sv)) (rg_servers db)"
  shows "map_of (enabled_map ts) (ns_name server tool) = Some b"
proof -
  let ?row = "\<lambda>t. (ns_name (tl_ServerName t) (tl_ToolName t), tl_Enabled t)"
  let ?sorted = "sort_key (\<lambda>t. (tl_ServerName t, tl_ToolName t)) (rg_tools db)"
  have ts: "map (\<lambda>(s, t, e). (ns_name s t, e)) ts = map ?row ?sorted"
    using assms(3) by (auto simp: listed_tools_def sr_ListTools_def)
  have nodot: "t \<in> set (rg_tools db) \<Longrightarrow> CHR ''.'' \<notin> set (tl_ServerName t)" for t
    using registry_okD(4) [OF assms(1)] dots by (fastforce simp: list_all_iff)
  have "inj_on (\<lambda>t. ns_name (tl_ServerName t) (tl_ToolName t)) (set (rg_tools db))"
  proof (rule inj_onI)
    fix t u
    assume mem: "t \<in> set (rg_tools db)" "u \<in> set (rg_tools db)"
      and eq: "ns_name (tl_ServerName t) (tl_ToolName t) = ns_name (tl_ServerName u) (tl_ToolName u)"
    have key: "tool_key t = tool_key u" using ns_name_inject [OF eq nodot [OF mem(1)] nodot [OF mem(2)]] by simp
    have "inj_on tool_key (set (rg_tools db))" using registry_okD(3) [OF assms(1)] by (simp add: distinct_map)
    with key mem show "t = u" by (simp add: inj_on_def)
  qed
  moreover have "distinct (rg_tools db)" using registry_okD(3) [OF assms(1)] by (simp add: distinct_map)
  ultimately have "distinct (map fst (map ?row ?sorted))" by (simp add: distinct_map o_def)
  moreover obtain t where "t \<in> set (rg_tools db)" "tl_ServerName t = server" "tl_ToolName t = tool" "tl_Enabled t = b"
    using tool_row_mem [OF assms(2)] by blast
  then have "(ns_name server tool, b) \<in> set (map ?row ?sorted)" by force
  ultimately show ?thesis unfolding enabled_map_def ts by (simp add: map_of_rev_distinct)
qed

text \<open>
  C22 (disabled_tool_is_blocked): once an operator has switched a tool off, and if every later
  discovery of its server still lists it, the next build of the visible set that can read the registry
  blocks every call of the tool at the proxy, whoever makes it. No server name has a dot, which nothing
  checks: the gateway joins server and tool names with one.
\<close>

theorem disabled_tool_is_blocked:
  assumes "registry_ok db" "list_all (\<lambda>sv. CHR ''.'' \<notin> set (sv_Name sv)) (rg_servers db)"
    and "sr_SetToolEnabled f server tool False db = (db1, Inr u)"
    and "list_all (\<lambda>(now, srv, ts). srv = server \<longrightarrow> tool \<in> tl_ToolName ` set ts) ds"
    and "db2 = fold (\<lambda>(now, srv, ts) d. fst (sr_ReplaceDiscoveredTools h now srv ts d)) ds db1"
    and "gw_hasRegistry g"
  shows "fst (proxyHandler uuid now ms server tool agent call (BuildVisibleSet (listed_tools None db2) g)) =
    BlockedByPolicy (ns_name server tool)"
proof -
  have db1: "registry_ok db1" "rg_servers db1 = rg_servers db"
    using SetToolEnabled_ok [OF assms(1), of f server tool False] assms(3)
    by (auto simp: sr_SetToolEnabled_def split: option.splits if_splits)
  have run: "registry_ok (fold (\<lambda>(now, srv, ts) d. fst (sr_ReplaceDiscoveredTools h now srv ts d)) ds d) \<and>
      rg_servers (fold (\<lambda>(now, srv, ts) d. fst (sr_ReplaceDiscoveredTools h now srv ts d)) ds d) = rg_servers d"
    if "registry_ok d" for d
    using that
  proof (induction ds arbitrary: d)
    case (Cons x ds)
    obtain now srv ts where x: "x = (now, srv, ts)" by (cases x)
    have "rg_servers (fst (sr_ReplaceDiscoveredTools h now srv ts d)) = rg_servers d"
      by (simp add: sr_ReplaceDiscoveredTools_def Let_def split: option.splits)
    with Cons.IH [OF ReplaceDiscoveredTools_ok [OF Cons.prems]] show ?case by (simp add: x)
  qed simp
  have db2: "registry_ok db2" "rg_servers db2 = rg_servers db" using run [OF db1(1)] db1(2) assms(5) by auto
  have flag: "tool_flag db2 server tool = Some False"
    unfolding assms(5) by (rule sqlreg.switched_off_stays [OF assms(3,4)])
  obtain ts where ts: "listed_tools None db2 = Inr ts" by (simp add: listed_tools_def sr_ListTools_def)
  have "map_of (enabled_map ts) (ns_name server tool) = Some False"
    using enabled_map_listed [OF db2(1) flag ts] assms(2) db2(2) by simp
  then have "\<not> IsToolVisible (ns_name server tool) (BuildVisibleSet (Inr ts) g)"
    unfolding IsToolVisible_built permitted_def using assms(6) by (simp add: tool_enabled_def)
  then show ?thesis by (simp add: ts proxyHandler_def Let_def)
qed

theorem disabled_tool_is_blocked_witness:
  "fst (proxyHandler (\<lambda>_. []) 0 0 ''s'' ''t'' [] (Inr (True, False))
     (BuildVisibleSet (listed_tools None (fst (sr_ReplaceDiscoveredTools None 8 ''s'' [sample_tool]
        (fst (sr_SetToolEnabled None ''s'' ''t'' False sample_registry)))))
       (NewGateway\<lparr>gw_hasRegistry := True, gw_mcpTools := Some [],
          gw_catalog := [(''s.t'', \<lparr>ce_ServerName = ''s'', ce_OriginalName = ''t'', ce_Description = []\<rparr>)]\<rparr>))) =
   BlockedByPolicy (ns_name ''s'' ''t'')"
proof -
  have ok: "registry_ok sample_registry" "list_all (\<lambda>sv. CHR ''.'' \<notin> set (sv_Name sv)) (rg_servers sample_registry)"
    by (simp_all add: registry_ok_def server_check_def transport_types_def server_statuses_def RegistryTransportType_def
        sample_registry_defs)
  have off: "sr_SetToolEnabled None ''s'' ''t'' False sample_registry =
      (fst (sr_SetToolEnabled None ''s'' ''t'' False sample_registry), Inr ())"
    by (simp add: sr_SetToolEnabled_def affected_def is_tool_def sample_registry_def sample_tool_def)
  show ?thesis
    by (rule disabled_tool_is_blocked [OF ok off, of "[(8, ''s'', [sample_tool])]" _ None]) (simp_all add: sample_tool_def)
qed

subsection \<open>Admission and orchestrator together\<close>

text \<open>
  The payload the admission controller builds for a child
  mission is the one the orchestrator's own way of deriving a child specification gives, and the
  worker that runs it reads back exactly that specification.
\<close>

theorem child_payload_is_child_spec:
  "childMissionPayload parent task contract oid = ToMissionPayload (ChildSpec (ExecutionSpecFromPayload parent) task contract oid) \<and>
   ExecutionSpecFromPayload (childMissionPayload parent task contract oid) =
     ChildSpec (ExecutionSpecFromPayload parent) task contract oid"
  by (cases parent) (simp add: childMissionPayload_def ChildSpec_def ToMissionPayload_def ExecutionSpecFromPayload_def)

end
